(* ===== verification/Prelude.thy ===== *)
theory Prelude
  imports Main
begin

text \<open>
  Shared ground of the OpenIVM development: the lemma collections, the index
  conventions of DuckDB (\<open>idx_t\<close> with its invalid value), the byte classes of the C
  library that the SQL scanners use, and the two small container helpers of the
  code base (\<open>core/vector_utils.hpp\<close>, \<open>rules/column_hider.hpp\<close>).

  A C++ \<open>string\<close> is a HOL \<open>string\<close>, a list of bytes. A position \<open>pos\<close> of
  the code is either a natural number or, in the single-pass scanners, the suffix of
  the text that starts at \<open>pos\<close>.
\<close>

named_theorems scan_simps \<open>equations of the SQL scanners\<close>
named_theorems length_intros \<open>bounds on what a scanner consumes\<close>

section \<open>Indices\<close>

type_synonym idx_t = nat

definition INVALID_INDEX :: idx_t where
  "INVALID_INDEX = 2 ^ 64 - 1"

section \<open>Character classes of the C locale\<close>

definition is_space :: "char \<Rightarrow> bool" where
  "is_space c = (let n = (of_char c :: nat) in n = 32 \<or> 9 \<le> n \<and> n \<le> 13)"

definition is_digit :: "char \<Rightarrow> bool" where
  "is_digit c = (let n = (of_char c :: nat) in 48 \<le> n \<and> n \<le> 57)"

definition is_alpha :: "char \<Rightarrow> bool" where
  "is_alpha c = (let n = (of_char c :: nat) in 65 \<le> n \<and> n \<le> 90 \<or> 97 \<le> n \<and> n \<le> 122)"

definition is_alnum :: "char \<Rightarrow> bool" where
  "is_alnum c \<longleftrightarrow> is_alpha c \<or> is_digit c"

definition to_lower :: "char \<Rightarrow> char" where
  "to_lower c = (let n = (of_char c :: nat) in if 65 \<le> n \<and> n \<le> 90 then char_of (n + 32) else c)"

abbreviation quote_char :: char where "quote_char \<equiv> CHR 0x27"
abbreviation dquote_char :: char where "dquote_char \<equiv> CHR 0x22"
abbreviation newline_char :: char where "newline_char \<equiv> CHR 0x0A"
abbreviation backslash_char :: char where "backslash_char \<equiv> CHR 0x5C"

lemma space_not_special [simp]:
  "\<not> is_space quote_char" "\<not> is_space dquote_char" "\<not> is_space CHR '';''"
  "\<not> is_space CHR ''-''" "\<not> is_space CHR ''*''" "\<not> is_space backslash_char"
  "is_space CHR '' ''" "is_space newline_char"
  by (simp_all add: is_space_def)

lemma is_alpha_not_quote [simp]: "\<not> is_alpha quote_char" "\<not> is_alpha dquote_char"
  by (simp_all add: is_alpha_def)

lemma is_alnum_not_quote [simp]:
  "\<not> is_alnum quote_char" "\<not> is_alnum dquote_char" "\<not> is_alnum CHR ''.''" "\<not> is_alnum CHR '' ''"
  "\<not> is_alnum CHR ''('' " "\<not> is_alnum CHR '')''" "\<not> is_alnum CHR '';''"
  by (simp_all add: is_alnum_def is_alpha_def is_digit_def)

section \<open>Trimming\<close>

definition trim_front :: "string \<Rightarrow> string" where
  "trim_front s = dropWhile is_space s"

definition trim_back :: "string \<Rightarrow> string" where
  "trim_back s = rev (dropWhile is_space (rev s))"

definition trimmed :: "string \<Rightarrow> bool" where
  "trimmed s \<longleftrightarrow> s \<noteq> [] \<and> \<not> is_space (hd s) \<and> \<not> is_space (last s)"

lemma trim_front_id: "s \<noteq> [] \<Longrightarrow> \<not> is_space (hd s) \<Longrightarrow> trim_front s = s"
  by (cases s) (simp_all add: trim_front_def)

lemma trim_back_id: "s \<noteq> [] \<Longrightarrow> \<not> is_space (last s) \<Longrightarrow> trim_back s = s"
  by (cases s rule: rev_cases) (simp_all add: trim_back_def)

lemma trim_back_last: "trim_back s \<noteq> [] \<Longrightarrow> \<not> is_space (last (trim_back s))"
  unfolding trim_back_def using hd_dropWhile [of is_space "rev s"]
  by (metis last_rev rev_is_Nil_conv)

lemma trim_back_front:
  assumes "s \<noteq> []" "\<not> is_space (hd s)"
  shows "trim_back s \<noteq> [] \<and> hd (trim_back s) = hd s"
proof -
  obtain c cs where s: "s = c # cs" using assms(1) by (cases s) auto
  then have "\<not> is_space c" using assms(2) by simp
  then show ?thesis by (simp add: s trim_back_def dropWhile_append)
qed

section \<open>Adding to a vector without duplicates\<close>

definition add_unique :: "'a list \<Rightarrow> 'a \<Rightarrow> 'a list" where
  "add_unique entries entry = (if entry \<in> set entries then entries else entries @ [entry])"

lemma set_add_unique [simp]: "set (add_unique xs x) = insert x (set xs)"
  by (auto simp: add_unique_def)

lemma add_unique_not_Nil [simp]: "add_unique xs x \<noteq> []"
  by (auto simp: add_unique_def)

lemma distinct_add_unique [intro]: "distinct xs \<Longrightarrow> distinct (add_unique xs x)"
  by (auto simp: add_unique_def)

section \<open>Lists\<close>

lemma length_dropWhile_less: "dropWhile P xs \<noteq> xs \<Longrightarrow> length (dropWhile P xs) < length xs"
  by (metis dropWhile_eq_drop length_drop length_takeWhile_le diff_less le_eq_less_or_eq
      takeWhile_dropWhile_id append_Nil length_0_conv not_gr_zero zero_less_iff_neq_zero
      le_zero_eq length_dropWhile_le)

fun starts_with :: "string \<Rightarrow> string \<Rightarrow> bool" where
  "starts_with s [] = True"
| "starts_with [] (p # ps) = False"
| "starts_with (c # cs) (p # ps) = (c = p \<and> starts_with cs ps)"

lemma starts_with_append [simp]: "starts_with (p @ s) p"
  by (induction p) auto

lemma starts_with_iff: "starts_with s p \<longleftrightarrow> (\<exists>t. s = p @ t)"
  by (induction s p rule: starts_with.induct) auto

lemma starts_with_take: "starts_with s p \<longleftrightarrow> length p \<le> length s \<and> take (length p) s = p"
  by (induction s p rule: starts_with.induct) auto

end
