(* ===== verification/DuckDB.thy ===== *)
theory DuckDB
  imports Prelude
begin

text \<open>
  The functions of DuckDB that the modelled code calls and whose sources are not in the
  repository (the \<open>duckdb\<close> submodule): \<open>StringUtil::Lower\<close>, \<open>StringUtil::Trim\<close>,
  \<open>StringUtil::CIEquals\<close>, \<open>StringUtil::StartsWith\<close>, \<open>StringUtil::CIStartsWith\<close>, \<open>StringUtil::Replace\<close> and
  \<open>KeywordHelper::WriteOptionallyQuoted\<close>. They are fields of a record that every
  definition using them takes as its argument. What the code relies on is stated once, in
  the locale \<open>duckdb_strings\<close>, and as the predicate \<open>duckdb_ok\<close> for the properties.
\<close>

record duckdb_env =
  Lower :: "string \<Rightarrow> string"
  Trim :: "string \<Rightarrow> string"
  CIEquals :: "string \<Rightarrow> string \<Rightarrow> bool"
  StartsWith :: "string \<Rightarrow> string \<Rightarrow> bool"
  CIStartsWith :: "string \<Rightarrow> string \<Rightarrow> bool"
  ReplaceStr :: "string \<Rightarrow> string \<Rightarrow> string \<Rightarrow> string"
  QuoteIdentifier :: "string \<Rightarrow> string"

text \<open>Documented behaviour: lower-casing acts on the ASCII letters only and comparison
  ignores their case; trimming removes the white space of both ends; an identifier is
  written bare when it is a plain lower-case word and otherwise between double quotes with
  the inner double quotes doubled.\<close>

fun double_dquotes :: "string \<Rightarrow> string" where
  "double_dquotes [] = []"
| "double_dquotes (c # cs) =
     (if c = dquote_char then [dquote_char, dquote_char] else [c]) @ double_dquotes cs"

definition quoted_name :: "string \<Rightarrow> string" where
  "quoted_name n = dquote_char # double_dquotes n @ [dquote_char]"

definition plain_name :: "string \<Rightarrow> bool" where
  "plain_name n \<longleftrightarrow> (case n of [] \<Rightarrow> False
     | c # cs \<Rightarrow> (is_alpha c \<or> c = CHR ''_'') \<and> list_all (\<lambda>d. is_alnum d \<or> d = CHR ''_'') cs)"

locale duckdb_strings =
  fixes E :: duckdb_env
  assumes lower_ascii: "Lower E s = map to_lower s"
    and trim_both: "Trim E s = trim_back (trim_front s)"
    and ci_equals: "CIEquals E s t \<longleftrightarrow> Lower E s = Lower E t"
    and starts_prefix: "StartsWith E s p \<longleftrightarrow> starts_with s p"
    and ci_starts: "CIStartsWith E s p \<longleftrightarrow> starts_with (Lower E s) (Lower E p)"
    and quote_forms: "QuoteIdentifier E n = n \<and> plain_name n \<or> QuoteIdentifier E n = quoted_name n"
begin

lemma lower_length [simp]: "length (Lower E s) = length s"
  by (simp add: lower_ascii)

lemma ci_equals_refl [simp]: "CIEquals E s s"
  by (simp add: ci_equals)

lemma ci_equals_sym: "CIEquals E s t \<Longrightarrow> CIEquals E t s"
  by (simp add: ci_equals)

lemma ci_equals_trans: "CIEquals E s t \<Longrightarrow> CIEquals E t u \<Longrightarrow> CIEquals E s u"
  by (simp add: ci_equals)

lemma ci_equals_length: "CIEquals E s t \<Longrightarrow> length s = length t"
  by (metis ci_equals lower_length)

lemma trim_trimmed: "trimmed s \<Longrightarrow> Trim E s = s"
  by (simp add: trim_both trimmed_def trim_front_id trim_back_id)

lemma quote_not_Nil [simp]: "QuoteIdentifier E n \<noteq> []"
  using quote_forms [of n] by (auto simp: quoted_name_def plain_name_def)

end

definition duckdb_ok :: "duckdb_env \<Rightarrow> bool" where
  "duckdb_ok E \<longleftrightarrow> duckdb_strings E"

text \<open>One environment that has these laws: the instance that the witnesses compute with.\<close>

definition trim_ref :: "string \<Rightarrow> string" where
  "trim_ref s = trim_back (trim_front s)"

function replace_ref :: "string \<Rightarrow> string \<Rightarrow> string \<Rightarrow> string" where
  "replace_ref h n r =
     (if n = [] then h
      else case h of [] \<Rightarrow> []
        | c # cs \<Rightarrow> if starts_with h n then r @ replace_ref (drop (length n) h) n r
                    else c # replace_ref cs n r)"
  by pat_completeness auto
termination
  by (relation "measure (\<lambda>(h, n, r). length h)") (auto simp: neq_Nil_conv)

declare replace_ref.simps [simp del]

definition ref_env :: duckdb_env where
  "ref_env =
     \<lparr>Lower = map to_lower, Trim = trim_ref,
      CIEquals = (\<lambda>s t. map to_lower s = map to_lower t),
      StartsWith = starts_with,
      CIStartsWith = (\<lambda>s p. starts_with (map to_lower s) (map to_lower p)), ReplaceStr = replace_ref,
      QuoteIdentifier = (\<lambda>n. if plain_name n \<and> map to_lower n = n then n else quoted_name n)\<rparr>"

interpretation ref: duckdb_strings ref_env
  by unfold_locales (auto simp: ref_env_def trim_ref_def)

lemma ref_env_ok [simp, intro]: "duckdb_ok ref_env"
  unfolding duckdb_ok_def by (rule ref.duckdb_strings_axioms)

lemma duckdb_okD: "duckdb_ok E \<Longrightarrow> duckdb_strings E"
  by (simp add: duckdb_ok_def)

end
