(* ===== verification/Sql_Text.thy ===== *)
theory Sql_Text
  imports DuckDB
begin

text \<open>
  \<open>core/sql_utils.cpp\<close>, the part that works on raw SQL text: escaping of string
  literals, removal of comments, splitting into statements, the statement preview, the
  naming of delta tables and the small SQL builders. Each loop of the code walks the text
  once from left to right; the model recurses on the suffix that is still to be read.
\<close>

section \<open>String literals\<close>

fun EscapeSingleQuotes :: "string \<Rightarrow> string" where
  "EscapeSingleQuotes [] = []"
| "EscapeSingleQuotes (c # cs) =
     (if c = quote_char then [quote_char, quote_char] else [c]) @ EscapeSingleQuotes cs"

text \<open>\<open>CopySingleQuotedLiteral\<close> copies the literal that starts at the given suffix and
  returns what follows it.\<close>

fun literal_body :: "string \<Rightarrow> string \<times> string" where
  "literal_body [] = ([], [])"
| "literal_body [c] = ([c], [])"
| "literal_body (c # d # cs) =
     (if c = quote_char \<and> d = quote_char then
        (let (a, r) = literal_body cs in (c # d # a, r))
      else if c = quote_char then ([c], d # cs)
      else (let (a, r) = literal_body (d # cs) in (c # a, r)))"

definition CopySingleQuotedLiteral :: "string \<Rightarrow> string \<times> string" where
  "CopySingleQuotedLiteral s =
     (case s of [] \<Rightarrow> ([], []) | c # cs \<Rightarrow> (let (a, r) = literal_body cs in (c # a, r)))"

definition CopyLineComment :: "string \<Rightarrow> string \<times> string" where
  "CopyLineComment s =
     (let body = drop 2 s; r = dropWhile (\<lambda>c. c \<noteq> newline_char) body;
          r' = (case r of [] \<Rightarrow> [] | c # cs \<Rightarrow> cs)
      in (take (length s - length r') s, r'))"

fun block_body :: "string \<Rightarrow> string \<times> string" where
  "block_body (c # d # cs) =
     (if c = CHR ''*'' \<and> d = CHR ''/'' then ([c, d], cs)
      else (let (a, r) = block_body (d # cs) in (c # a, r)))"
| "block_body s = (s, [])"

definition CopyBlockComment :: "string \<Rightarrow> string \<times> string" where
  "CopyBlockComment s = (let (a, r) = block_body (drop 2 s) in (take 2 s @ a, r))"

lemma literal_body_lossless: "literal_body s = (a, r) \<Longrightarrow> a @ r = s"
  by (induction s arbitrary: a r rule: literal_body.induct)
     (auto split: if_splits prod.splits)

lemma block_body_lossless: "block_body s = (a, r) \<Longrightarrow> a @ r = s"
  by (induction s arbitrary: a r rule: block_body.induct) (auto split: if_splits prod.splits)

lemma CopySingleQuotedLiteral_lossless: "CopySingleQuotedLiteral s = (a, r) \<Longrightarrow> a @ r = s"
  by (auto simp: CopySingleQuotedLiteral_def split: list.splits prod.splits dest: literal_body_lossless)

lemma dropWhile_suffix_take: "take (length s - length (dropWhile P s)) s @ dropWhile P s = s"
  by (metis append_eq_conv_conj length_append add_diff_cancel_right' takeWhile_dropWhile_id)

lemma take_suffix: "s = p @ r \<Longrightarrow> take (length s - length r) s @ r = s"
  by simp

lemma CopyLineComment_lossless:
  assumes asm: "CopyLineComment s = (a, r)"
  shows "a @ r = s"
proof -
  define body where "body = drop 2 s"
  define r1 where "r1 = dropWhile (\<lambda>c. c \<noteq> newline_char) body"
  have s1: "s = (take 2 s @ takeWhile (\<lambda>c. c \<noteq> newline_char) body) @ r1"
    by (simp add: body_def r1_def)
  have "a = take (length s - length r) s"
    using asm by (auto simp: CopyLineComment_def Let_def)
  moreover have "\<exists>p. s = p @ r"
  proof (cases r1)
    case Nil
    then have "r = []"
      using asm unfolding CopyLineComment_def Let_def body_def [symmetric] r1_def [symmetric] by simp
    then show ?thesis by auto
  next
    case (Cons c cs)
    then have "r = cs"
      using asm unfolding CopyLineComment_def Let_def body_def [symmetric] r1_def [symmetric] by simp
    then have "s = (take 2 s @ takeWhile (\<lambda>c. c \<noteq> newline_char) body @ [c]) @ r"
      using s1 Cons by simp
    then show ?thesis by blast
  qed
  ultimately show ?thesis by (auto simp: take_suffix)
qed

lemma CopyBlockComment_lossless:
  assumes "CopyBlockComment s = (a, r)"
  shows "a @ r = s"
proof -
  obtain a' where "block_body (drop 2 s) = (a', r)" and a: "a = take 2 s @ a'"
    using assms by (cases "block_body (drop 2 s)") (auto simp: CopyBlockComment_def)
  then have "a' @ r = drop 2 s" by (intro block_body_lossless)
  with a show ?thesis by simp
qed

text \<open>Every copy consumes at least one byte, which is what ends the loops that use it.\<close>

lemma copy_shorter [length_intros]:
  "CopySingleQuotedLiteral (c # cs) = (a, r) \<Longrightarrow> length r \<le> length cs"
  "CopyLineComment (c # d # cs) = (a, r) \<Longrightarrow> length r \<le> length cs"
  "CopyBlockComment (c # d # cs) = (a, r) \<Longrightarrow> length r \<le> length cs"
proof -
  assume "CopySingleQuotedLiteral (c # cs) = (a, r)"
  then obtain a' where "literal_body cs = (a', r)"
    by (cases "literal_body cs") (simp add: CopySingleQuotedLiteral_def)
  then have "a' @ r = cs" by (rule literal_body_lossless)
  then show "length r \<le> length cs" by auto
next
  assume "CopyLineComment (c # d # cs) = (a, r)"
  then show "length r \<le> length cs"
    using length_dropWhile_le [of "\<lambda>c. c \<noteq> newline_char" cs]
    by (auto simp: CopyLineComment_def Let_def split: list.splits)
next
  assume "CopyBlockComment (c # d # cs) = (a, r)"
  then obtain a' where "block_body cs = (a', r)"
    by (cases "block_body cs") (simp add: CopyBlockComment_def)
  then have "a' @ r = cs" by (rule block_body_lossless)
  then show "length r \<le> length cs" by auto
qed

text \<open>Escaping is sound: a scanner that has entered the literal reads exactly the escaped
  bytes and stops behind the closing quote.\<close>

lemma literal_body_escape:
  assumes "case rest of [] \<Rightarrow> True | c # _ \<Rightarrow> c \<noteq> quote_char"
  shows "literal_body (EscapeSingleQuotes s @ quote_char # rest)
       = (EscapeSingleQuotes s @ [quote_char], rest)"
proof (induction s)
  case Nil
  then show ?case using assms by (cases rest) auto
next
  case (Cons c s)
  show ?case
  proof (cases "c = quote_char")
    case True
    then show ?thesis using Cons.IH by simp
  next
    case False
    obtain d t where "EscapeSingleQuotes s @ quote_char # rest = d # t"
      by (cases "EscapeSingleQuotes s") auto
    then show ?thesis using Cons.IH False by auto
  qed
qed

text \<open>The value a literal denotes: the inverse of escaping.\<close>

fun unescape :: "string \<Rightarrow> string" where
  "unescape (c # d # cs) =
     (if c = quote_char \<and> d = quote_char then quote_char # unescape cs else c # unescape (d # cs))"
| "unescape s = s"

lemma unescape_escape: "unescape (EscapeSingleQuotes s) = s"
proof (induction s)
  case (Cons c s)
  then show ?case
    by (cases "EscapeSingleQuotes s") auto
qed simp

end
