(* ===== verification/Sql_Statements.thy ===== *)
theory Sql_Statements
  imports Sql_Text
begin

text \<open>
  Whole-statement processing of \<open>core/sql_utils.cpp\<close>: \<open>TrimSQLFragment\<close>,
  \<open>SplitSQLStatements\<close>, \<open>SQLStatementPreview\<close>, \<open>StripLineComments\<close> and
  \<open>SQLToLowercase\<close>. The splitter keeps four flags (inside single quotes, double quotes,
  a line comment, a block comment) of which at most one is ever set, because each is set
  only in the branch where all are clear; the model keeps them as one mode.
\<close>

definition TrimSQLFragment :: "string \<Rightarrow> string" where
  "TrimSQLFragment input = trim_back (trim_front input)"

lemma TrimSQLFragment_trimmed: "TrimSQLFragment s = [] \<or> trimmed (TrimSQLFragment s)"
proof (cases "trim_front s")
  case Nil
  then show ?thesis by (simp add: TrimSQLFragment_def trim_back_def)
next
  case (Cons c cs)
  then have "\<not> is_space (hd (trim_front s))"
    unfolding trim_front_def by (metis hd_dropWhile list.distinct(1))
  with Cons have "trim_back (trim_front s) \<noteq> [] \<and> hd (trim_back (trim_front s)) = hd (trim_front s)"
    by (intro trim_back_front) auto
  with \<open>\<not> is_space (hd (trim_front s))\<close> show ?thesis
    using trim_back_last [of "trim_front s"] by (simp add: TrimSQLFragment_def trimmed_def)
qed

lemma TrimSQLFragment_id: "trimmed s \<Longrightarrow> TrimSQLFragment s = s"
  by (simp add: TrimSQLFragment_def trimmed_def trim_front_id trim_back_id)

section \<open>Splitting a script into statements\<close>

datatype scan_mode = InCode | InSingleQuote | InDoubleQuote | InLineComment | InBlockComment

text \<open>One iteration of the loop: the mode after it and whether it also consumed \<open>next\<close>
  (the \<open>i++\<close> inside the body). A semicolon in code is the loop's business.\<close>

definition scan_step :: "scan_mode \<Rightarrow> char \<Rightarrow> char \<Rightarrow> scan_mode \<times> bool" where
  "scan_step m c next =
     (case m of
        InLineComment \<Rightarrow> (if c = newline_char then (InCode, False) else (InLineComment, False))
      | InBlockComment \<Rightarrow>
          (if c = CHR ''*'' \<and> next = CHR ''/'' then (InCode, True) else (InBlockComment, False))
      | InSingleQuote \<Rightarrow>
          (if c = quote_char \<and> next = quote_char then (InSingleQuote, True)
           else if c = quote_char then (InCode, False) else (InSingleQuote, False))
      | InDoubleQuote \<Rightarrow>
          (if c = dquote_char \<and> next = dquote_char then (InDoubleQuote, True)
           else if c = dquote_char then (InCode, False) else (InDoubleQuote, False))
      | InCode \<Rightarrow>
          (if c = CHR ''-'' \<and> next = CHR ''-'' then (InLineComment, True)
           else if c = CHR ''/'' \<and> next = CHR ''*'' then (InBlockComment, True)
           else if c = quote_char then (InSingleQuote, False)
           else if c = dquote_char then (InDoubleQuote, False)
           else (InCode, False)))"

text \<open>\<open>next\<close> is the byte after \<open>c\<close>, or NUL at the end of the text.\<close>

definition next_char :: "string \<Rightarrow> char" where
  "next_char cs = (case cs of [] \<Rightarrow> CHR 0x00 | d # _ \<Rightarrow> d)"

definition push_statement :: "string \<Rightarrow> string list \<Rightarrow> string list" where
  "push_statement raw statements =
     (let statement = TrimSQLFragment raw in if statement = [] then statements else statement # statements)"

text \<open>\<open>cur\<close> is the text since \<open>start\<close>.\<close>

function split_loop :: "scan_mode \<Rightarrow> string \<Rightarrow> string \<Rightarrow> string list" where
  "split_loop m cur [] = push_statement cur []"
| "split_loop m cur (c # cs) =
     (if m = InCode \<and> c = CHR '';'' then push_statement cur (split_loop InCode [] cs)
      else
        (let (m', skip) = scan_step m c (next_char cs)
         in if skip then split_loop m' (cur @ c # take 1 cs) (drop 1 cs)
            else split_loop m' (cur @ [c]) cs))"
  by pat_completeness auto
termination
  by (relation "measure (\<lambda>(m, cur, s). length s)") auto

definition SplitSQLStatements :: "string \<Rightarrow> string list" where
  "SplitSQLStatements sql = split_loop InCode [] sql"

declare split_loop.simps(2) [simp del]

text \<open>Every statement it returns is non-empty and has no white space at its ends.\<close>

lemma push_statement_trimmed:
  "\<forall>s \<in> set ss. trimmed s \<Longrightarrow> \<forall>s \<in> set (push_statement raw ss). trimmed s"
  using TrimSQLFragment_trimmed [of raw] by (auto simp: push_statement_def Let_def)

lemma split_loop_trimmed: "\<forall>s \<in> set (split_loop m cur sql). trimmed s"
proof (induction m cur sql rule: split_loop.induct)
  case (1 m cur)
  show ?case using push_statement_trimmed [of "[]" cur] by simp
next
  case (2 m cur c cs)
  show ?case
  proof (cases "m = InCode \<and> c = CHR '';''")
    case True
    with "2.IH"(1) have "\<forall>s \<in> set (split_loop InCode [] cs). trimmed s" by blast
    then show ?thesis using True
      by (simp add: split_loop.simps(2) push_statement_trimmed)
  next
    case False
    obtain m' skip where st: "scan_step m c (next_char cs) = (m', skip)" by fastforce
    show ?thesis
      using "2.IH"(2) [OF False st [symmetric] refl] "2.IH"(3) [OF False st [symmetric] refl] False st
      by (auto simp: split_loop.simps(2))
  qed
qed

text \<open>The mode in which a fragment leaves the scanner, or \<open>None\<close> when the fragment has a
  semicolon that separates statements.\<close>

function scan_mode_after :: "scan_mode \<Rightarrow> string \<Rightarrow> scan_mode option" where
  "scan_mode_after m [] = Some m"
| "scan_mode_after m (c # cs) =
     (if m = InCode \<and> c = CHR '';'' then None
      else
        (let (m', skip) = scan_step m c (next_char cs)
         in if skip then scan_mode_after m' (drop 1 cs) else scan_mode_after m' cs))"
  by pat_completeness auto
termination
  by (relation "measure (\<lambda>(m, s). length s)") auto

declare scan_mode_after.simps(2) [simp del]

text \<open>A complete statement: it ends outside quotes and comments and has no separator.\<close>

definition complete_statement :: "string \<Rightarrow> bool" where
  "complete_statement s \<longleftrightarrow> trimmed s \<and> scan_mode_after InCode s = Some InCode"

text \<open>A following semicolon has the same effect on the lookahead as the end of the text.\<close>

lemma scan_step_semicolon: "scan_step m c CHR '';'' = scan_step m c CHR 0x00"
  by (cases m) (simp_all add: scan_step_def)

lemma scan_step_nul: "snd (scan_step m c CHR 0x00) = False"
  by (cases m) (simp_all add: scan_step_def)

lemma next_char_append:
  "scan_step m c (next_char (cs @ CHR '';'' # rest)) = scan_step m c (next_char cs)"
  by (cases cs) (simp_all add: next_char_def scan_step_semicolon)

lemma split_loop_step:
  "\<not> (m = InCode \<and> c = CHR '';'') \<Longrightarrow> scan_step m c (next_char cs) = (m', skip) \<Longrightarrow>
   split_loop m cur (c # cs) =
     (if skip then split_loop m' (cur @ c # take 1 cs) (drop 1 cs) else split_loop m' (cur @ [c]) cs)"
  by (auto simp: split_loop.simps(2))

lemma split_loop_statement:
  "scan_mode_after m s = Some InCode \<Longrightarrow>
   split_loop m cur (s @ CHR '';'' # rest) = push_statement (cur @ s) (split_loop InCode [] rest)"
proof (induction m s arbitrary: cur rule: scan_mode_after.induct)
  case (1 m)
  then show ?case by (simp add: split_loop.simps(2))
next
  case (2 m c cs)
  from "2.prems" have nsep: "\<not> (m = InCode \<and> c = CHR '';'')"
    by (auto simp: scan_mode_after.simps(2))
  obtain m' skip where st: "scan_step m c (next_char cs) = (m', skip)" by fastforce
  show ?case
  proof (cases skip)
    case True
    then obtain d ds where cs: "cs = d # ds"
      using st scan_step_nul [of m c] by (cases cs) (auto simp: next_char_def)
    have "scan_mode_after m' ds = Some InCode"
      using "2.prems" nsep st True cs by (simp add: scan_mode_after.simps(2))
    then have "split_loop m' (cur @ [c, d]) (ds @ CHR '';'' # rest)
        = push_statement ((cur @ [c, d]) @ ds) (split_loop InCode [] rest)"
      using "2.IH"(1) [OF nsep st [symmetric] refl True, of "cur @ [c, d]"] cs by simp
    moreover have "scan_step m c (next_char (cs @ CHR '';'' # rest)) = (m', skip)"
      using next_char_append st by simp
    ultimately show ?thesis using split_loop_step [OF nsep] True cs by simp
  next
    case False
    have "scan_mode_after m' cs = Some InCode"
      using "2.prems" nsep st False by (simp add: scan_mode_after.simps(2))
    then have "split_loop m' (cur @ [c]) (cs @ CHR '';'' # rest)
        = push_statement ((cur @ [c]) @ cs) (split_loop InCode [] rest)"
      by (rule "2.IH"(2) [OF nsep st [symmetric] refl False])
    moreover have "scan_step m c (next_char (cs @ CHR '';'' # rest)) = (m', skip)"
      using next_char_append st by simp
    ultimately show ?thesis using split_loop_step [OF nsep] False by simp
  qed
qed

lemma split_loop_join:
  "list_all complete_statement ss \<Longrightarrow>
   split_loop InCode [] (concat (map (\<lambda>s. s @ '';'') ss)) = ss"
proof (induction ss)
  case Nil
  then show ?case by (simp add: push_statement_def TrimSQLFragment_def trim_back_def trim_front_def)
next
  case (Cons s ss)
  then have s: "trimmed s" "scan_mode_after InCode s = Some InCode"
    by (simp_all add: complete_statement_def)
  then have "push_statement s ss = s # ss"
    by (auto simp: push_statement_def TrimSQLFragment_id trimmed_def)
  then show ?case using Cons s(2) by (simp add: split_loop_statement)
qed

section \<open>The statement preview\<close>

fun preview_loop :: "string \<Rightarrow> bool \<Rightarrow> string \<Rightarrow> string" where
  "preview_loop preview in_space [] = preview"
| "preview_loop preview in_space (c # cs) =
     (if is_space c then
        (if \<not> in_space \<and> preview \<noteq> [] then preview_loop (preview @ '' '') True cs
         else preview_loop preview in_space cs)
      else if 120 \<le> length (preview @ [c]) then preview @ [c] @ ''...''
      else preview_loop (preview @ [c]) False cs)"

definition SQLStatementPreview :: "string \<Rightarrow> string" where
  "SQLStatementPreview statement = preview_loop [] False (TrimSQLFragment statement)"

lemma preview_loop_length:
  "length preview \<le> (if in_space then 120 else 119) \<Longrightarrow>
   length (preview_loop preview in_space s) \<le> 124"
proof (induction preview in_space s rule: preview_loop.induct)
  case (2 preview in_space c cs)
  show ?case
  proof (cases "is_space c")
    case True
    with 2 show ?thesis by (cases in_space) auto
  next
    case False
    with 2 show ?thesis by (auto split: if_splits)
  qed
qed (auto split: if_splits)

section \<open>Line comments\<close>

function strip_loop :: "bool \<Rightarrow> string \<Rightarrow> string" where
  "strip_loop in_string [] = []"
| "strip_loop in_string (c # cs) =
     (if c = quote_char then c # strip_loop (\<not> in_string) cs
      else if \<not> in_string \<and> c = CHR ''-'' \<and> cs \<noteq> [] \<and> hd cs = CHR ''-'' then
        (case dropWhile (\<lambda>d. d \<noteq> newline_char) cs of
           [] \<Rightarrow> []
         | d # ds \<Rightarrow> newline_char # strip_loop False ds)
      else c # strip_loop in_string cs)"
  by pat_completeness auto
termination
proof (relation "measure (\<lambda>(b, s). length s)", goal_cases)
  case (3 b c cs d ds)
  then have "length (d # ds) \<le> length cs" by (metis length_dropWhile_le)
  then show ?case by simp
qed auto

definition StripLineComments :: "string \<Rightarrow> string" where
  "StripLineComments query = strip_loop False query"

declare strip_loop.simps(2) [simp del]

text \<open>\<open>has_comment b s\<close>: a scanner that starts in string state \<open>b\<close> meets a line comment.\<close>

fun has_comment :: "bool \<Rightarrow> string \<Rightarrow> bool" where
  "has_comment b [] = False"
| "has_comment b (c # cs) =
     (if c = quote_char then has_comment (\<not> b) cs
      else \<not> b \<and> c = CHR ''-'' \<and> cs \<noteq> [] \<and> hd cs = CHR ''-'' \<or> has_comment b cs)"

lemma strip_loop_hd_dash:
  "strip_loop b s \<noteq> [] \<Longrightarrow> hd (strip_loop b s) = CHR ''-'' \<Longrightarrow> s \<noteq> [] \<and> hd s = CHR ''-''"
  by (cases s) (auto simp: strip_loop.simps(2) split: if_splits list.splits)

lemma strip_loop_no_comment: "\<not> has_comment b (strip_loop b s)"
proof (induction b s rule: strip_loop.induct)
  case (2 b c cs)
  consider "c = quote_char"
    | "c \<noteq> quote_char" "\<not> b \<and> c = CHR ''-'' \<and> cs \<noteq> [] \<and> hd cs = CHR ''-''"
    | "c \<noteq> quote_char" "\<not> (\<not> b \<and> c = CHR ''-'' \<and> cs \<noteq> [] \<and> hd cs = CHR ''-'')"
    by blast
  then show ?case
  proof cases
    case 1
    then show ?thesis using 2 by (simp add: strip_loop.simps(2))
  next
    case 2
    show ?thesis
    proof (cases "dropWhile (\<lambda>d. d \<noteq> newline_char) cs")
      case Nil
      with 2 show ?thesis by (simp add: strip_loop.simps(2) del: dropWhile_eq_Nil_conv)
    next
      case (Cons d ds)
      then have "\<not> has_comment False (strip_loop False ds)" using "2.IH"(2) 2 by blast
      with Cons 2 show ?thesis by (simp add: strip_loop.simps(2))
    qed
  next
    case 3
    then have "\<not> has_comment b (strip_loop b cs)" using "2.IH"(3) by blast
    with 3 show ?thesis using strip_loop_hd_dash [of b cs]
      by (auto simp: strip_loop.simps(2))
  qed
qed simp

lemma strip_loop_id: "\<not> has_comment b s \<Longrightarrow> strip_loop b s = s"
  by (induction b s rule: has_comment.induct) (auto simp: strip_loop.simps(2) split: if_splits)

section \<open>Lower-casing outside string literals\<close>

fun lowercase_loop :: "bool \<Rightarrow> string \<Rightarrow> string" where
  "lowercase_loop in_string [] = []"
| "lowercase_loop in_string (c # cs) =
     (let in_string' = (if c = quote_char then \<not> in_string else in_string)
      in (if \<not> in_string' then to_lower c else c) # lowercase_loop in_string' cs)"

definition SQLToLowercase :: "string \<Rightarrow> string" where
  "SQLToLowercase sql = lowercase_loop False sql"

lemma length_lowercase_loop [simp]: "length (lowercase_loop b s) = length s"
  by (induction b s rule: lowercase_loop.induct) (simp_all add: Let_def)

end
