(* ===== verification/Constants.thy ===== *)
theory Constants
  imports DuckDB
begin

text \<open>
  \<open>core/openivm_constants.hpp\<close> and \<open>rules/column_hider.hpp\<close>: the names of internal
  columns and tables, the limits, the refresh strategies, and the decimal rendering
  (\<open>to_string\<close>) that the SQL builders use.
\<close>

definition DELTA_PREFIX :: string where "DELTA_PREFIX = ''openivm_delta_''"
definition DATA_TABLE_PREFIX :: string where "DATA_TABLE_PREFIX = ''openivm_data_''"
definition MULTIPLICITY_COL :: string where "MULTIPLICITY_COL = ''openivm_multiplicity''"
definition TIMESTAMP_COL :: string where "TIMESTAMP_COL = ''openivm_timestamp''"
definition MAX_JOIN_TABLES :: nat where "MAX_JOIN_TABLES = 16"

datatype RefreshType =
    AGGREGATE_GROUP | SIMPLE_AGGREGATE | SIMPLE_PROJECTION | FULL_REFRESH | AGGREGATE_HAVING
  | WINDOW_PARTITION | GROUP_RECOMPUTE | TOP_K | DISTINCT_INCREMENTAL | SEMI_ANTI_RECOMPUTE
  | CURRENT_DIFF_RECOMPUTE

datatype GroupRecomputeAffectedMode =
  SOURCE_DELTA | SOURCE_DELTA_RELAX_AGGREGATE_FILTER | CURRENT_DIFF

text \<open>\<open>enum class RefreshType : uint8_t\<close> numbers its constants in declaration order; the
  number is what \<open>openivm_compile_with_facts\<close> returns.\<close>

fun refresh_type_int :: "RefreshType \<Rightarrow> nat" where
  "refresh_type_int AGGREGATE_GROUP = 0"
| "refresh_type_int SIMPLE_AGGREGATE = 1"
| "refresh_type_int SIMPLE_PROJECTION = 2"
| "refresh_type_int FULL_REFRESH = 3"
| "refresh_type_int AGGREGATE_HAVING = 4"
| "refresh_type_int WINDOW_PARTITION = 5"
| "refresh_type_int GROUP_RECOMPUTE = 6"
| "refresh_type_int TOP_K = 7"
| "refresh_type_int DISTINCT_INCREMENTAL = 8"
| "refresh_type_int SEMI_ANTI_RECOMPUTE = 9"
| "refresh_type_int CURRENT_DIFF_RECOMPUTE = 10"

fun RefreshTypeName :: "RefreshType \<Rightarrow> string" where
  "RefreshTypeName AGGREGATE_HAVING = ''AGGREGATE_HAVING''"
| "RefreshTypeName AGGREGATE_GROUP = ''AGGREGATE_GROUP''"
| "RefreshTypeName SIMPLE_AGGREGATE = ''SIMPLE_AGGREGATE''"
| "RefreshTypeName SIMPLE_PROJECTION = ''SIMPLE_PROJECTION''"
| "RefreshTypeName WINDOW_PARTITION = ''WINDOW_PARTITION''"
| "RefreshTypeName GROUP_RECOMPUTE = ''GROUP_RECOMPUTE''"
| "RefreshTypeName DISTINCT_INCREMENTAL = ''DISTINCT_INCREMENTAL''"
| "RefreshTypeName SEMI_ANTI_RECOMPUTE = ''SEMI_ANTI_RECOMPUTE''"
| "RefreshTypeName CURRENT_DIFF_RECOMPUTE = ''CURRENT_DIFF_RECOMPUTE''"
| "RefreshTypeName TOP_K = ''TOP_K''"
| "RefreshTypeName FULL_REFRESH = ''FULL_REFRESH''"

fun GroupRecomputeAffectedModeName :: "GroupRecomputeAffectedMode \<Rightarrow> string" where
  "GroupRecomputeAffectedModeName SOURCE_DELTA = ''source_delta''"
| "GroupRecomputeAffectedModeName SOURCE_DELTA_RELAX_AGGREGATE_FILTER =
     ''source_delta_relax_aggregate_filter''"
| "GroupRecomputeAffectedModeName CURRENT_DIFF = ''current_diff''"

section \<open>Internal names\<close>

definition DataTableName :: "string \<Rightarrow> string" where
  "DataTableName view_name = DATA_TABLE_PREFIX @ view_name"

definition IsInternalColumn :: "duckdb_env \<Rightarrow> string \<Rightarrow> bool" where
  "IsInternalColumn E name = StartsWith E name ''openivm_''"

definition IsDataTable :: "duckdb_env \<Rightarrow> string \<Rightarrow> bool" where
  "IsDataTable E name = StartsWith E name DATA_TABLE_PREFIX"

section \<open>Decimal numbers\<close>

definition digit_char :: "nat \<Rightarrow> char" where
  "digit_char d = char_of (48 + d)"

fun nat_string :: "nat \<Rightarrow> string" where
  "nat_string n = (if n < 10 then [digit_char n] else nat_string (n div 10) @ [digit_char (n mod 10)])"

declare nat_string.simps [simp del]

definition int_string :: "int \<Rightarrow> string" where
  "int_string i = (if i < 0 then CHR ''-'' # nat_string (nat (- i)) else nat_string (nat i))"

definition digits_value :: "string \<Rightarrow> nat" where
  "digits_value ds = foldl (\<lambda>a c. 10 * a + (of_char c - 48)) 0 ds"

lemma of_char_digit: "d < 10 \<Longrightarrow> of_char (digit_char d) = (48 + d :: nat)"
  by (simp add: digit_char_def)

lemma is_digit_digit_char: "d < 10 \<Longrightarrow> is_digit (digit_char d)"
  by (simp add: is_digit_def of_char_digit Let_def)

lemma nat_string_not_Nil: "nat_string n \<noteq> []"
  by (subst nat_string.simps) simp

lemma nat_string_digits: "list_all is_digit (nat_string n)"
proof (induction n rule: nat_string.induct)
  case (1 n)
  then show ?case by (subst nat_string.simps) (simp add: is_digit_digit_char)
qed

lemma digits_value_nat_string: "digits_value (nat_string n) = n"
proof (induction n rule: nat_string.induct)
  case (1 n)
  show ?case
  proof (cases "n < 10")
    case True
    then show ?thesis by (subst nat_string.simps) (simp add: digits_value_def of_char_digit)
  next
    case False
    with 1 have "digits_value (nat_string (n div 10)) = n div 10" by simp
    with False show ?thesis
      by (subst nat_string.simps) (simp add: digits_value_def of_char_digit)
  qed
qed

end
