(* ===== verification/Sql_Names.thy ===== *)
theory Sql_Names
  imports Sql_Statements Constants
begin

text \<open>
  \<open>core/sql_utils.cpp\<close>: names of delta tables and qualified names, the generated
  predicates and column lists, substring replacement, and the parsing of the
  \<open>REFRESH EVERY\<close> interval.
\<close>

section \<open>Delta and qualified names\<close>

definition DeltaName :: "string \<Rightarrow> string" where
  "DeltaName name =
     (if length DATA_TABLE_PREFIX < length name \<and> starts_with name DATA_TABLE_PREFIX
      then DELTA_PREFIX @ drop (length DATA_TABLE_PREFIX) name
      else DELTA_PREFIX @ name)"

definition IsDelta :: "string \<Rightarrow> bool" where
  "IsDelta name \<longleftrightarrow> length DELTA_PREFIX \<le> length name \<and> starts_with name DELTA_PREFIX"

definition FullName :: "duckdb_env \<Rightarrow> string \<Rightarrow> string \<Rightarrow> string \<Rightarrow> string" where
  "FullName E catalog schema table =
     QuoteIdentifier E catalog @ ''.'' @ QuoteIdentifier E schema @ ''.'' @ QuoteIdentifier E table"

definition FullDeltaName :: "duckdb_env \<Rightarrow> string \<Rightarrow> string \<Rightarrow> string \<Rightarrow> string" where
  "FullDeltaName E catalog schema table =
     (let base = (if length DATA_TABLE_PREFIX < length table \<and> starts_with table DATA_TABLE_PREFIX
                  then drop (length DATA_TABLE_PREFIX) table else table)
      in QuoteIdentifier E catalog @ ''.'' @ QuoteIdentifier E schema @ ''.''
         @ QuoteIdentifier E (DeltaName base))"

definition QualifiedPrefix :: "duckdb_env \<Rightarrow> string \<Rightarrow> string \<Rightarrow> string" where
  "QualifiedPrefix E catalog schema = QuoteIdentifier E catalog @ ''.'' @ QuoteIdentifier E schema @ ''.''"

text \<open>The non-empty parts between dots, as the loop collects them.\<close>

fun prefix_parts :: "string \<Rightarrow> string \<Rightarrow> string list" where
  "prefix_parts current [] = (if current = [] then [] else [current])"
| "prefix_parts current (c # cs) =
     (if c = CHR ''.'' then (if current = [] then [] else [current]) @ prefix_parts [] cs
      else prefix_parts (current @ [c]) cs)"

definition QuoteQualifiedPrefix :: "duckdb_env \<Rightarrow> string \<Rightarrow> string" where
  "QuoteQualifiedPrefix E prefix =
     (if prefix = [] then []
      else concat (map (\<lambda>part. QuoteIdentifier E part @ ''.'') (prefix_parts [] prefix)))"

text \<open>\<open>LastIdentifierPart\<close>: the text behind the last dot outside double quotes.\<close>

fun after_last_dot :: "bool \<Rightarrow> string \<Rightarrow> string \<Rightarrow> string" where
  "after_last_dot in_quote acc [] = acc"
| "after_last_dot in_quote acc (c # cs) =
     (if c = dquote_char then after_last_dot (\<not> in_quote) acc cs
      else if \<not> in_quote \<and> c = CHR ''.'' then after_last_dot in_quote cs cs
      else after_last_dot in_quote acc cs)"

definition unwrap_dquotes :: "string \<Rightarrow> string" where
  "unwrap_dquotes name =
     (if 2 \<le> length name \<and> hd name = dquote_char \<and> last name = dquote_char
      then butlast (tl name) else name)"

definition LastIdentifierPart :: "duckdb_env \<Rightarrow> string \<Rightarrow> string" where
  "LastIdentifierPart E name0 =
     (let name = Trim E name0 in unwrap_dquotes (after_last_dot False name name))"

lemma DELTA_PREFIX_length [simp]: "length DELTA_PREFIX = 14"
  by (simp add: DELTA_PREFIX_def)

lemma DATA_TABLE_PREFIX_length [simp]: "length DATA_TABLE_PREFIX = 13"
  by (simp add: DATA_TABLE_PREFIX_def)

lemma IsDelta_DeltaName: "IsDelta (DeltaName name)"
  by (auto simp: IsDelta_def DeltaName_def)

lemma DeltaName_data_table:
  "view \<noteq> [] \<Longrightarrow> DeltaName (DataTableName view) = DELTA_PREFIX @ view"
  by (simp add: DeltaName_def DataTableName_def)

lemma prefix_parts_append_dot:
  "CHR ''.'' \<notin> set p \<Longrightarrow>
   prefix_parts current (p @ CHR ''.'' # s)
     = (if current @ p = [] then [] else [current @ p]) @ prefix_parts [] s"
  by (induction p arbitrary: current) auto

section \<open>Generated fragments\<close>

fun join_with :: "string \<Rightarrow> string list \<Rightarrow> string" where
  "join_with sep [] = []"
| "join_with sep [x] = x"
| "join_with sep (x # y # xs) = x @ sep @ join_with sep (y # xs)"

definition JoinQuotedColumns :: "duckdb_env \<Rightarrow> string list \<Rightarrow> string" where
  "JoinQuotedColumns E columns = join_with '', '' (map (QuoteIdentifier E) columns)"

definition JoinQualifiedQuotedColumns :: "duckdb_env \<Rightarrow> string list \<Rightarrow> string \<Rightarrow> string" where
  "JoinQualifiedQuotedColumns E columns alias =
     join_with '', '' (map (\<lambda>c. alias @ ''.'' @ QuoteIdentifier E c) columns)"

definition BuildAllNullPredicate :: "duckdb_env \<Rightarrow> string list \<Rightarrow> string" where
  "BuildAllNullPredicate E columns =
     join_with '' AND '' (map (\<lambda>c. QuoteIdentifier E c @ '' IS NULL'') columns)"

definition BuildNullSafeKeyPredicate :: "duckdb_env \<Rightarrow> string list \<Rightarrow> string \<Rightarrow> string \<Rightarrow> string" where
  "BuildNullSafeKeyPredicate E columns left_prefix right_prefix =
     join_with '' AND '' (map (\<lambda>c. let column = QuoteIdentifier E c in
       left_prefix @ column @ '' IS NOT DISTINCT FROM '' @ right_prefix @ column) columns)"

definition BuildNullSafeMatch :: "duckdb_env \<Rightarrow> string list \<Rightarrow> string \<Rightarrow> string \<Rightarrow> string" where
  "BuildNullSafeMatch E columns lhs_alias rhs_alias =
     join_with '' AND '' (map (\<lambda>c.
       lhs_alias @ ''.'' @ QuoteIdentifier E c @ '' IS NOT DISTINCT FROM '' @ rhs_alias @ ''.''
       @ QuoteIdentifier E c) columns)"

definition BuildFullRecomputeSQL :: "string \<Rightarrow> string \<Rightarrow> string" where
  "BuildFullRecomputeSQL data_table view_query_sql =
     ''DELETE FROM '' @ data_table @ '';'' @ [newline_char]
     @ ''INSERT INTO '' @ data_table @ '' '' @ view_query_sql @ '';'' @ [newline_char]"

definition DuckLakeTableFunction ::
    "string \<Rightarrow> string \<Rightarrow> string \<Rightarrow> string \<Rightarrow> int \<Rightarrow> int \<Rightarrow> string" where
  "DuckLakeTableFunction function_name catalog schema table last_snapshot_id current_snapshot_id =
     function_name @ ''('' @ [quote_char] @ EscapeSingleQuotes catalog @ [quote_char] @ '', '' @ [quote_char]
     @ EscapeSingleQuotes schema @ [quote_char] @ '', '' @ [quote_char] @ EscapeSingleQuotes table
     @ [quote_char] @ '', '' @ int_string last_snapshot_id @ '', '' @ int_string current_snapshot_id @ '')''"

fun json_escape :: "string \<Rightarrow> string" where
  "json_escape [] = []"
| "json_escape (c # cs) =
     (if c = dquote_char \<or> c = backslash_char then [backslash_char, c]
      else if c = newline_char then [backslash_char, CHR ''n''] else [c]) @ json_escape cs"

definition JsonQuote :: "string \<Rightarrow> string" where
  "JsonQuote value = [dquote_char] @ json_escape value @ [dquote_char]"

definition JsonArray :: "string list \<Rightarrow> string" where
  "JsonArray values = ''['' @ join_with '','' (map JsonQuote values) @ '']''"

section \<open>Substring replacement\<close>

function replace_loop :: "string \<Rightarrow> string \<Rightarrow> string \<Rightarrow> string" where
  "replace_loop h needle replacement =
     (if needle = [] then h
      else case h of [] \<Rightarrow> []
        | c # cs \<Rightarrow>
            if starts_with h needle
            then replacement @ replace_loop (drop (length needle) h) needle replacement
            else c # replace_loop cs needle replacement)"
  by pat_completeness auto
termination
  by (relation "measure (\<lambda>(h, n, r). length h)") (auto simp: neq_Nil_conv)

declare replace_loop.simps [simp del]

definition ReplaceAllOccurrences :: "string \<Rightarrow> string \<Rightarrow> string \<Rightarrow> string" where
  "ReplaceAllOccurrences haystack needle replacement =
     (if needle = [] then haystack else replace_loop haystack needle replacement)"

function replace_each_loop :: "string \<Rightarrow> string \<Rightarrow> string \<Rightarrow> string \<Rightarrow> string list" where
  "replace_each_loop done h needle replacement =
     (if needle = [] then []
      else case h of [] \<Rightarrow> []
        | c # cs \<Rightarrow>
            if starts_with h needle
            then (done @ replacement @ drop (length needle) h)
                 # replace_each_loop (done @ take (length needle) h) (drop (length needle) h) needle replacement
            else replace_each_loop (done @ [c]) cs needle replacement)"
  by pat_completeness auto
termination
  by (relation "measure (\<lambda>(d, h, n, r). length h)") (auto simp: neq_Nil_conv)

declare replace_each_loop.simps [simp del]

definition ReplaceEachPlainOccurrence :: "string \<Rightarrow> string \<Rightarrow> string \<Rightarrow> string list" where
  "ReplaceEachPlainOccurrence haystack needle replacement =
     (if needle = [] then [] else replace_each_loop [] haystack needle replacement)"

lemma replace_loop_Nil [simp]: "replace_loop [] n r = []"
  by (subst replace_loop.simps) simp

lemma replace_loop_match: "n \<noteq> [] \<Longrightarrow> replace_loop (n @ t) n r = r @ replace_loop t n r"
  by (subst replace_loop.simps) (auto simp: neq_Nil_conv)

lemma replace_loop_skip:
  "n \<noteq> [] \<Longrightarrow> \<not> starts_with (c # cs) n \<Longrightarrow> replace_loop (c # cs) n r = c # replace_loop cs n r"
  by (subst replace_loop.simps) simp

lemma replace_each_loop_Nil [simp]: "replace_each_loop d [] n r = []"
  by (subst replace_each_loop.simps) simp

lemma replace_each_loop_match:
  "n \<noteq> [] \<Longrightarrow>
   replace_each_loop d (n @ t) n r = (d @ r @ t) # replace_each_loop (d @ n) t n r"
  by (subst replace_each_loop.simps) (auto simp: neq_Nil_conv)

lemma replace_each_loop_skip:
  "n \<noteq> [] \<Longrightarrow> \<not> starts_with (c # cs) n \<Longrightarrow>
   replace_each_loop d (c # cs) n r = replace_each_loop (d @ [c]) cs n r"
  by (subst replace_each_loop.simps) simp

lemmas replace_loop_eqs = replace_loop_match replace_loop_skip replace_each_loop_match
  replace_each_loop_skip

text \<open>Induction along the occurrences of a non-empty needle.\<close>

lemma occurrence_induct [case_names Nil match skip]:
  assumes "n \<noteq> []" "P []"
    and "\<And>t. P t \<Longrightarrow> P (n @ t)"
    and "\<And>c cs. \<not> starts_with (c # cs) n \<Longrightarrow> P cs \<Longrightarrow> P (c # cs)"
  shows "P h"
proof (induction h rule: length_induct)
  case (1 h)
  show ?case
  proof (cases "starts_with h n")
    case True
    then obtain t where "h = n @ t" by (auto simp: starts_with_iff)
    with 1 assms(1,3) show ?thesis by auto
  next
    case False
    with 1 assms(2,4) show ?thesis by (cases h) auto
  qed
qed

text \<open>Replacing a needle by itself is the identity, and the length of the result is
  determined by the number of occurrences, the number of variants of the other function.\<close>

lemma replace_loop_self:
  assumes n: "n \<noteq> []"
  shows "replace_loop h n n = h"
  by (induction h rule: occurrence_induct [OF n]) (simp_all add: replace_loop_eqs n)

lemma replace_each_count:
  assumes n: "n \<noteq> []"
  shows "int (length (replace_loop h n r))
     = int (length h) + (int (length r) - int (length n)) * int (length (replace_each_loop d h n r))"
  by (induction h arbitrary: d rule: occurrence_induct [OF n])
     (simp_all add: replace_loop_eqs algebra_simps n)

end
