(* ===== verification/Refresh_Interval.thy ===== *)
theory Refresh_Interval
  imports Sql_Names
begin

text \<open>
  \<open>SqlUtils::ParseRefreshInterval\<close> and \<open>SqlUtils::ExtractRefreshInterval\<close>
  (\<open>core/sql_utils.cpp\<close>). The two regular expressions are matched by hand: in both, each
  repetition is followed by a byte outside its class, so the greedy match is the only one.
  The arithmetic is on \<open>int64_t\<close>: \<open>std::stoll\<close> throws \<open>out_of_range\<close> above
  the maximum, and a product outside the range is the signed overflow that C++ leaves
  undefined, the error \<open>SignedOverflow\<close> here.
\<close>

datatype interval_error = ParserException string | OutOfRange | SignedOverflow

definition int64_max :: int where "int64_max = 2 ^ 63 - 1"
definition int64_min :: int where "int64_min = - (2 ^ 63)"

definition mul_int64 :: "int \<Rightarrow> int \<Rightarrow> interval_error + int" where
  "mul_int64 a b = (if int64_min \<le> a * b \<and> a * b \<le> int64_max then Inr (a * b) else Inl SignedOverflow)"

definition interval_units :: "string list" where
  "interval_units = [''minute'', ''minutes'', ''min'', ''hour'', ''hours'', ''day'', ''days'']"

text \<open>The regex: decimal digits, optional white space, one of the unit words (any case).\<close>

definition match_interval :: "string \<Rightarrow> (string \<times> string) option" where
  "match_interval s =
     (let digits = takeWhile is_digit s; unit = dropWhile is_space (dropWhile is_digit s)
      in if digits \<noteq> [] \<and> map to_lower unit \<in> set interval_units then Some (digits, unit) else None)"

definition ParseRefreshInterval :: "duckdb_env \<Rightarrow> string \<Rightarrow> interval_error + int" where
  "ParseRefreshInterval E interval_str =
     (case match_interval interval_str of
        None \<Rightarrow> Inl (ParserException (''Invalid REFRESH EVERY interval: '' @ [quote_char] @ interval_str
                  @ [quote_char] @ ''. Expected format: '' @ [quote_char]
                  @ ''<N> <minutes|hours|days>'' @ [quote_char]))
      | Some (digits, unit0) \<Rightarrow>
          (let value = int (digits_value digits) in
           if int64_max < value then Inl OutOfRange
           else if value \<le> 0 then
             Inl (ParserException (''REFRESH EVERY interval must be a positive number (got ''
                    @ int_string value @ '')''))
           else
             (let unit = Lower E unit0 in
              if unit = ''minute'' \<or> unit = ''minutes'' \<or> unit = ''min'' then mul_int64 value 60
              else if unit = ''hour'' \<or> unit = ''hours'' then mul_int64 value 3600
              else if unit = ''day'' \<or> unit = ''days'' then mul_int64 value 86400
              else Inl (ParserException (''Unknown time unit: '' @ [quote_char] @ unit @ [quote_char])))))"

section \<open>Finding and removing the clause\<close>

function collapse_ws :: "string \<Rightarrow> string" where
  "collapse_ws [] = []"
| "collapse_ws (c # cs) =
     (if is_space c then CHR '' '' # collapse_ws (dropWhile is_space cs) else c # collapse_ws cs)"
  by pat_completeness auto
termination
  by (relation "measure length") (auto simp: le_imp_less_Suc length_dropWhile_le)

definition RemoveRedundantWhitespaces :: "string \<Rightarrow> string" where
  "RemoveRedundantWhitespaces query = collapse_ws query"

definition strip_word :: "string \<Rightarrow> string \<Rightarrow> string option" where
  "strip_word w s =
     (if length w \<le> length s \<and> map to_lower (take (length w) s) = w then Some (drop (length w) s) else None)"

definition strip_spaces1 :: "string \<Rightarrow> string option" where
  "strip_spaces1 s = (case s of [] \<Rightarrow> None | c # cs \<Rightarrow> if is_space c then Some (dropWhile is_space cs) else None)"

text \<open>\<open>refresh\s+every\s+'([^']+)'\<close> at the start of the text: the interval and the rest.\<close>

definition match_quoted :: "string \<Rightarrow> (string \<times> string) option" where
  "match_quoted s =
     (case s of [] \<Rightarrow> None
      | q # t \<Rightarrow>
          if q \<noteq> quote_char then None
          else
            (let body = takeWhile (\<lambda>c. c \<noteq> quote_char) t; r = dropWhile (\<lambda>c. c \<noteq> quote_char) t
             in if body = [] \<or> r = [] then None else Some (body, tl r)))"

definition match_refresh_at :: "string \<Rightarrow> (string \<times> string) option" where
  "match_refresh_at s =
     Option.bind (strip_word ''refresh'' s) (\<lambda>s1.
     Option.bind (strip_spaces1 s1) (\<lambda>s2.
     Option.bind (strip_word ''every'' s2) (\<lambda>s3.
     Option.bind (strip_spaces1 s3) match_quoted)))"

lemma strip_word_shorter: "strip_word w s = Some r \<Longrightarrow> length r \<le> length s"
  by (auto simp: strip_word_def split: if_splits)

lemma strip_spaces1_shorter: "strip_spaces1 s = Some r \<Longrightarrow> length r \<le> length s"
  by (auto simp: strip_spaces1_def le_SucI length_dropWhile_le split: list.splits if_splits)

lemma length_tl_dropWhile: "length (tl (dropWhile P t)) < Suc (length t)"
  using length_dropWhile_le [of P t] by simp

lemma match_quoted_shorter: "match_quoted s = Some (b, r) \<Longrightarrow> length r < length s"
  using length_tl_dropWhile [of "\<lambda>c. c \<noteq> quote_char" "tl s"]
  by (auto simp: match_quoted_def Let_def split: list.splits if_splits)

lemma match_refresh_at_shorter:
  assumes "match_refresh_at s = Some (b, r)"
  shows "length r < length s"
proof -
  obtain s1 where 1: "strip_word ''refresh'' s = Some s1"
    using assms by (cases "strip_word ''refresh'' s") (auto simp: match_refresh_at_def)
  obtain s2 where 2: "strip_spaces1 s1 = Some s2"
    using assms 1 by (cases "strip_spaces1 s1") (auto simp: match_refresh_at_def)
  obtain s3 where 3: "strip_word ''every'' s2 = Some s3"
    using assms 1 2 by (cases "strip_word ''every'' s2") (auto simp: match_refresh_at_def)
  obtain s4 where 4: "strip_spaces1 s3 = Some s4"
    using assms 1 2 3 by (cases "strip_spaces1 s3") (auto simp: match_refresh_at_def)
  have "match_quoted s4 = Some (b, r)"
    using assms 1 2 3 4 by (simp add: match_refresh_at_def)
  then have "length r < length s4" by (rule match_quoted_shorter)
  also have "\<dots> \<le> length s3" using 4 by (rule strip_spaces1_shorter)
  also have "\<dots> \<le> length s2" using 3 by (rule strip_word_shorter)
  also have "\<dots> \<le> length s1" using 2 by (rule strip_spaces1_shorter)
  also have "\<dots> \<le> length s" using 1 by (rule strip_word_shorter)
  finally show ?thesis .
qed

fun search_refresh :: "string \<Rightarrow> string option" where
  "search_refresh [] = None"
| "search_refresh (c # cs) =
     (case match_refresh_at (c # cs) of Some (b, _) \<Rightarrow> Some b | None \<Rightarrow> search_refresh cs)"

function remove_refresh :: "string \<Rightarrow> string" where
  "remove_refresh [] = []"
| "remove_refresh (c # cs) =
     (case match_refresh_at (c # cs) of Some (_, r) \<Rightarrow> remove_refresh r | None \<Rightarrow> c # remove_refresh cs)"
  by pat_completeness auto
termination
  by (relation "measure length") (auto dest: match_refresh_at_shorter)

text \<open>The result is the interval, \<open>-1\<close> when there is no clause; the query is changed only
  when there is one, and it is changed before the interval is parsed.\<close>

definition ExtractRefreshInterval :: "duckdb_env \<Rightarrow> string \<Rightarrow> string \<times> (interval_error + int)" where
  "ExtractRefreshInterval E query =
     (case search_refresh query of
        None \<Rightarrow> (query, Inr (-1))
      | Some interval_str \<Rightarrow>
          (RemoveRedundantWhitespaces (remove_refresh query), ParseRefreshInterval E interval_str))"

lemma ParseRefreshInterval_Inr:
  assumes "ParseRefreshInterval E s = Inr seconds"
  obtains digits unit k where "match_interval s = Some (digits, unit)"
    "k = 60 \<or> k = 3600 \<or> k = 86400" "seconds = int (digits_value digits) * k"
    "0 < digits_value digits" "seconds \<le> int64_max"
  using assms
  by (auto simp: ParseRefreshInterval_def mul_int64_def Let_def split: option.splits prod.splits if_splits)

end
