(* ===== verification/Compile_Facts.thy ===== *)
theory Compile_Facts
  imports Sql_Names
begin

text \<open>
  \<open>compile_facts.cpp\<close>: the hand-written JSON reader of the compile facts, the splitting
  of generated SQL into output rows (\<open>PushBucket\<close>) and the chunked emission of those
  rows. SQL dialects belong to the LPTS library: their type is a parameter and
  \<open>ParseSqlDialect\<close> an argument that fails with \<open>None\<close>.
\<close>

section \<open>Reading JSON fields\<close>

text \<open>\<open>json.find(needle)\<close>, as the text behind the first occurrence.\<close>

fun find_after :: "string \<Rightarrow> string \<Rightarrow> string option" where
  "find_after needle [] = (if needle = [] then Some [] else None)"
| "find_after needle (c # cs) =
     (if starts_with (c # cs) needle then Some (drop (length needle) (c # cs)) else find_after needle cs)"

fun json_string_body :: "string \<Rightarrow> string option" where
  "json_string_body [] = None"
| "json_string_body [c] = (if c = dquote_char then Some [] else None)"
| "json_string_body (c # d # cs) =
     (if c = backslash_char then
        map_option (\<lambda>v. (if d = CHR ''n'' then newline_char else d) # v) (json_string_body cs)
      else if c = dquote_char then Some []
      else map_option (\<lambda>v. c # v) (json_string_body (d # cs)))"

definition ExtractJsonString :: "string \<Rightarrow> string \<Rightarrow> string option" where
  "ExtractJsonString json key =
     Option.bind (find_after (dquote_char # key @ [dquote_char, CHR '':'', dquote_char]) json) json_string_body"

definition is_blank :: "char \<Rightarrow> bool" where
  "is_blank c \<longleftrightarrow> c = CHR '' '' \<or> c = CHR 0x09"

definition ExtractJsonBool :: "string \<Rightarrow> string \<Rightarrow> bool option" where
  "ExtractJsonBool json key =
     (case find_after (dquote_char # key @ [dquote_char, CHR '':'']) json of
        None \<Rightarrow> None
      | Some t \<Rightarrow>
          (let v = dropWhile is_blank t in
           if starts_with v ''true'' then Some True
           else if starts_with v ''false'' then Some False
           else None))"

text \<open>\<open>std::stoi\<close> throws, and the reader answers false, on a lone sign and outside the
  range of \<open>int\<close>.\<close>

definition ExtractJsonInt :: "string \<Rightarrow> string \<Rightarrow> int option" where
  "ExtractJsonInt json key =
     (case find_after (dquote_char # key @ [dquote_char, CHR '':'']) json of
        None \<Rightarrow> None
      | Some t \<Rightarrow>
          (let v = dropWhile is_blank t;
               signed = v \<noteq> [] \<and> (hd v = CHR ''-'' \<or> hd v = CHR ''+'');
               digits = takeWhile is_digit (if signed then tl v else v)
           in if digits = [] then None
              else
                (let n = (if signed \<and> hd v = CHR ''-'' then - int (digits_value digits)
                          else int (digits_value digits))
                 in if - (2 ^ 31) \<le> n \<and> n < 2 ^ 31 then Some n else None)))"

record 'd compile_facts =
  schema_version :: int
  target_dialect :: 'd
  compile_only :: bool
  force_view_delta_cascade :: bool

definition CURRENT_SCHEMA_VERSION :: int where "CURRENT_SCHEMA_VERSION = 1"

definition DefaultFacts :: "'d \<Rightarrow> 'd compile_facts" where
  "DefaultFacts dialect =
     \<lparr>schema_version = CURRENT_SCHEMA_VERSION, target_dialect = dialect, compile_only = False,
      force_view_delta_cascade = False\<rparr>"

datatype facts_error = MissingDialect | UnknownDialect string

definition ParseFactsJson :: "(string \<Rightarrow> 'd option) \<Rightarrow> string \<Rightarrow> facts_error + 'd compile_facts" where
  "ParseFactsJson parse_dialect json =
     (case ExtractJsonString json ''target_dialect'' of
        None \<Rightarrow> Inl MissingDialect
      | Some dialect_str \<Rightarrow>
          (case parse_dialect dialect_str of
             None \<Rightarrow> Inl (UnknownDialect dialect_str)
           | Some dialect \<Rightarrow>
               Inr ((DefaultFacts dialect)
                 \<lparr>schema_version := (case ExtractJsonInt json ''schema_version'' of
                      Some sv \<Rightarrow> sv | None \<Rightarrow> CURRENT_SCHEMA_VERSION),
                  compile_only := (case ExtractJsonBool json ''compile_only'' of
                      Some b \<Rightarrow> b | None \<Rightarrow> False),
                  force_view_delta_cascade := (case ExtractJsonBool json ''force_view_delta_cascade'' of
                      Some b \<Rightarrow> b | None \<Rightarrow> False)\<rparr>)))"

lemma json_string_body_escape:
  "json_string_body (json_escape v @ dquote_char # rest) = Some v"
proof (induction v)
  case Nil
  then show ?case by (cases rest) auto
next
  case (Cons c v)
  obtain d t where "json_escape v @ dquote_char # rest = d # t"
    by (cases "json_escape v") auto
  with Cons show ?case by auto
qed

lemma find_after_skip:
  "dquote_char \<notin> set p \<Longrightarrow> find_after (dquote_char # n) (p @ dquote_char # n @ s) = Some s"
  by (induction p) auto

section \<open>Splitting the generated SQL into rows\<close>

text \<open>\<open>in_quote\<close> is the open quote character, if any.\<close>

function bucket_loop :: "duckdb_env \<Rightarrow> char option \<Rightarrow> string \<Rightarrow> string \<Rightarrow> string list" where
  "bucket_loop E in_quote current [] =
     (let tail = Trim E current in if tail = [] then [] else [tail @ '';''])"
| "bucket_loop E in_quote current (c # cs) =
     (case in_quote of
        Some q \<Rightarrow>
          (if c = q then bucket_loop E None (current @ [c]) cs
           else if c = backslash_char \<and> cs \<noteq> [] then bucket_loop E in_quote (current @ [c, hd cs]) (tl cs)
           else bucket_loop E in_quote (current @ [c]) cs)
      | None \<Rightarrow>
          (if c = quote_char \<or> c = dquote_char then bucket_loop E (Some c) (current @ [c]) cs
           else if c = CHR '';'' then
             (let trimmed = Trim E current
              in (if trimmed = [] then [] else [trimmed @ '';'']) @ bucket_loop E None [] cs)
           else bucket_loop E None (current @ [c]) cs))"
  by pat_completeness auto
termination
  by (relation "measure (\<lambda>(E, q, cur, s). length s)") auto

declare bucket_loop.simps(2) [simp del]

definition PushBucket :: "duckdb_env \<Rightarrow> (string \<times> string) list \<Rightarrow> string \<Rightarrow> string \<Rightarrow> (string \<times> string) list" where
  "PushBucket E bd kind sql_block =
     (if sql_block = [] then bd else bd @ map (\<lambda>s. (kind, s)) (bucket_loop E None [] sql_block))"

text \<open>Text on which the two splitters of the code base agree: no backslash and no comment.\<close>

fun no_pair :: "char \<Rightarrow> char \<Rightarrow> string \<Rightarrow> bool" where
  "no_pair a b (c # d # cs) = (\<not> (c = a \<and> d = b) \<and> no_pair a b (d # cs))"
| "no_pair a b s = True"

definition plain_sql :: "string \<Rightarrow> bool" where
  "plain_sql s \<longleftrightarrow> backslash_char \<notin> set s \<and> no_pair CHR ''-'' CHR ''-'' s \<and> no_pair CHR ''/'' CHR ''*'' s"

lemma no_pair_tl: "no_pair a b (c # cs) \<Longrightarrow> no_pair a b cs"
  by (cases cs) auto

lemma plain_sql_tl: "plain_sql (c # cs) \<Longrightarrow> plain_sql cs"
  by (auto simp: plain_sql_def dest: no_pair_tl)

fun quote_mode :: "scan_mode \<Rightarrow> char option" where
  "quote_mode InSingleQuote = Some quote_char"
| "quote_mode InDoubleQuote = Some dquote_char"
| "quote_mode m = None"

lemma bucket_loop_in_quote:
  "bucket_loop E (Some q) cur (c # cs) =
     (if c = q then bucket_loop E None (cur @ [c]) cs
      else if c = backslash_char \<and> cs \<noteq> [] then bucket_loop E (Some q) (cur @ [c, hd cs]) (tl cs)
      else bucket_loop E (Some q) (cur @ [c]) cs)"
  by (subst bucket_loop.simps(2)) simp

lemma bucket_loop_open:
  "c = quote_char \<or> c = dquote_char \<Longrightarrow>
   bucket_loop E None cur (c # cs) = bucket_loop E (Some c) (cur @ [c]) cs"
  by (subst bucket_loop.simps(2)) simp

text \<open>A doubled quote inside a literal closes and reopens it.\<close>

lemma bucket_loop_doubled:
  "c = quote_char \<or> c = dquote_char \<Longrightarrow>
   bucket_loop E (Some c) cur (c # c # cs) = bucket_loop E (Some c) (cur @ [c, c]) cs"
  by (simp add: bucket_loop_in_quote bucket_loop_open del: bucket_loop.simps)

lemma scan_step_plain:
  "\<not> (c = CHR ''-'' \<and> n = CHR ''-'') \<Longrightarrow> \<not> (c = CHR ''/'' \<and> n = CHR ''*'') \<Longrightarrow>
   scan_step InCode c n = (if c = quote_char then (InSingleQuote, False)
     else if c = dquote_char then (InDoubleQuote, False) else (InCode, False))"
  by (auto simp: scan_step_def)

context duckdb_strings
begin

lemma trim_fragment: "Trim E s = TrimSQLFragment s"
  by (simp add: trim_both TrimSQLFragment_def)

lemma bucket_loop_split:
  "plain_sql s \<Longrightarrow> m \<in> {InCode, InSingleQuote, InDoubleQuote} \<Longrightarrow>
   bucket_loop E (quote_mode m) cur s = map (\<lambda>x. x @ '';'') (split_loop m cur s)"
proof (induction m cur s rule: split_loop.induct)
  case (1 m cur)
  then show ?case by (simp add: push_statement_def trim_fragment Let_def)
next
  case (2 m cur c cs)
  have pl: "plain_sql cs" using "2.prems"(1) by (rule plain_sql_tl)
  have nb: "c \<noteq> backslash_char" using "2.prems"(1) by (auto simp: plain_sql_def)
  have nc: "\<not> (c = CHR ''-'' \<and> next_char cs = CHR ''-'')" "\<not> (c = CHR ''/'' \<and> next_char cs = CHR ''*'')"
    using "2.prems"(1) by (cases cs; auto simp: plain_sql_def next_char_def)+
  show ?case
  proof (cases "m = InCode \<and> c = CHR '';''")
    case True
    have "bucket_loop E None [] cs = map (\<lambda>x. x @ '';'') (split_loop InCode [] cs)"
      using "2.IH"(1) [OF True pl] by simp
    with True show ?thesis
      by (simp add: bucket_loop.simps(2) split_loop.simps(2) push_statement_def trim_fragment Let_def)
  next
    case False
    obtain m' skip where st: "scan_step m c (next_char cs) = (m', skip)" by fastforce
    then have m': "m' \<in> {InCode, InSingleQuote, InDoubleQuote}"
      using "2.prems"(2) nc by (auto simp: scan_step_def split: if_splits)
    show ?thesis
    proof (cases skip)
      case True
      then obtain ds where cs: "cs = c # ds" and m: "m' = m" "quote_mode m = Some c"
        "c = quote_char \<or> c = dquote_char"
        using st nc "2.prems"(2) by (cases cs) (auto simp: scan_step_def next_char_def split: if_splits)
      have "bucket_loop E (quote_mode m') (cur @ c # take 1 cs) (drop 1 cs)
          = map (\<lambda>x. x @ '';'') (split_loop m' (cur @ c # take 1 cs) (drop 1 cs))"
        using "2.IH"(2) [OF False st [symmetric] refl True] pl m' plain_sql_tl cs by simp
      moreover have "bucket_loop E (quote_mode m) cur (c # cs) = bucket_loop E (Some c) (cur @ [c, c]) ds"
        using bucket_loop_doubled [OF m(3)] m(2) cs by simp
      ultimately show ?thesis using True cs m split_loop_step [OF False st] by simp
    next
      case ns: False
      have IH: "bucket_loop E (quote_mode m') (cur @ [c]) cs
          = map (\<lambda>x. x @ '';'') (split_loop m' (cur @ [c]) cs)"
        using "2.IH"(3) [OF False st [symmetric] refl ns] pl m' by simp
      have "bucket_loop E (quote_mode m) cur (c # cs) = bucket_loop E (quote_mode m') (cur @ [c]) cs"
      proof (cases "m = InCode")
        case True
        with st scan_step_plain [OF nc] have "(m', skip) = (if c = quote_char then (InSingleQuote, False)
            else if c = dquote_char then (InDoubleQuote, False) else (InCode, False))" by simp
        with True False show ?thesis
          by (cases "c = quote_char"; cases "c = dquote_char") (simp_all add: bucket_loop.simps(2))
      next
        case mq: False
        with "2.prems"(2) have "m = InSingleQuote \<or> m = InDoubleQuote" by blast
        with st ns nb show ?thesis
          by (elim disjE) (auto simp: bucket_loop_in_quote scan_step_def split: if_splits)
      qed
      then show ?thesis using ns IH split_loop_step [OF False st] by simp
    qed
  qed
qed

end

section \<open>Emitting the rows\<close>

text \<open>One call of \<open>OpenIvmCompileWithFactsExecute\<close>: up to \<open>vector_size\<close> rows from the
  stored offset, each with its index as \<open>stmt_order\<close>.\<close>

definition emit_chunk :: "nat \<Rightarrow> (string \<times> string) list \<Rightarrow> nat \<Rightarrow> (nat \<times> string \<times> string) list \<times> nat" where
  "emit_chunk vector_size rows offset =
     (let emitted = min vector_size (length rows - offset)
      in (map (\<lambda>k. (offset + k, rows ! (offset + k))) [0..<emitted], offset + emitted))"

text \<open>The caller asks for chunks until it gets an empty one.\<close>

function emit_all :: "nat \<Rightarrow> (string \<times> string) list \<Rightarrow> nat \<Rightarrow> (nat \<times> string \<times> string) list" where
  "emit_all vector_size rows offset =
     (let (chunk, offset') = emit_chunk vector_size rows offset
      in if chunk = [] then [] else chunk @ emit_all vector_size rows offset')"
  by pat_completeness auto
termination
  by (relation "measure (\<lambda>(v, rows, offset). length rows - offset)") (auto simp: emit_chunk_def Let_def)

declare emit_all.simps [simp del]

lemma emit_all_rows:
  "0 < vector_size \<Longrightarrow> offset \<le> length rows \<Longrightarrow>
   emit_all vector_size rows offset = map (\<lambda>k. (k, rows ! k)) [offset..<length rows]"
proof (induction vector_size rows offset rule: emit_all.induct)
  case (1 v rows offset)
  define e where "e = min v (length rows - offset)"
  have chunk: "fst (emit_chunk v rows offset) = map (\<lambda>k. (k, rows ! k)) [offset..<offset + e]"
    unfolding emit_chunk_def e_def [symmetric] Let_def
    by (auto simp: map_add_upt [symmetric] o_def intro: nth_equalityI)
  have off: "snd (emit_chunk v rows offset) = offset + e"
    by (simp add: emit_chunk_def e_def Let_def)
  show ?case
  proof (cases "e = 0")
    case True
    then have "offset = length rows" using "1.prems" by (auto simp: e_def)
    then show ?thesis by (subst emit_all.simps) (simp add: emit_chunk_def)
  next
    case False
    then have "fst (emit_chunk v rows offset) \<noteq> []" using chunk by simp
    then have "emit_all v rows (offset + e) = map (\<lambda>k. (k, rows ! k)) [offset + e..<length rows]"
      using "1.IH" [OF refl prod.collapse] off "1.prems" by (simp add: e_def)
    moreover have "[offset..<length rows] = [offset..<offset + e] @ [offset + e..<length rows]"
      using "1.prems" by (metis e_def le_add1 le_add_diff_inverse min.cobounded2 nat_add_left_cancel_le
          upt_add_eq_append)
    ultimately show ?thesis using \<open>fst (emit_chunk v rows offset) \<noteq> []\<close> chunk off
      by (subst emit_all.simps) (simp add: case_prod_beta)
  qed
qed

end
