(* ===== verification/Sql_Identifiers.thy ===== *)
theory Sql_Identifiers
  imports Sql_Names
begin

text \<open>
  The identifier scanners of \<open>core/sql_utils.cpp\<close> and what is built on them: reading
  plain and quoted segments, rewriting column references when a base column is renamed
  (\<open>RewriteColumnReferences\<close>), and reading the target name of a \<open>CREATE\<close> statement.
  A position is the suffix that starts there; a span keeps the suffixes at its two ends.
\<close>

definition IsIdentifierChar :: "char \<Rightarrow> bool" where
  "IsIdentifierChar c \<longleftrightarrow> is_alnum c \<or> c = CHR ''_''"

section \<open>Identifier segments\<close>

text \<open>Behind an opening double quote: the value and what follows the closing quote.\<close>

fun dquoted_value :: "string \<Rightarrow> (string \<times> string) option" where
  "dquoted_value [] = None"
| "dquoted_value [c] = (if c = dquote_char then Some ([], []) else None)"
| "dquoted_value (c # d # cs) =
     (if c = dquote_char \<and> d = dquote_char then map_option (\<lambda>(v, r). (dquote_char # v, r)) (dquoted_value cs)
      else if c = dquote_char then Some ([], d # cs)
      else map_option (\<lambda>(v, r). (c # v, r)) (dquoted_value (d # cs)))"

record IdentifierSegmentSpan =
  seg_start :: string
  seg_end :: string
  seg_value :: string

definition ReadIdentifierSegmentSpan :: "string \<Rightarrow> IdentifierSegmentSpan option" where
  "ReadIdentifierSegmentSpan s =
     (case s of [] \<Rightarrow> None
      | c # cs \<Rightarrow>
          if c = dquote_char then
            map_option (\<lambda>(v, r). \<lparr>seg_start = s, seg_end = r, seg_value = v\<rparr>) (dquoted_value cs)
          else if \<not> (is_alpha c \<or> c = CHR ''_'') then None
          else Some \<lparr>seg_start = s, seg_end = dropWhile IsIdentifierChar s,
                     seg_value = takeWhile IsIdentifierChar s\<rparr>)"

lemma dquoted_value_shorter: "dquoted_value s = Some (v, r) \<Longrightarrow> length r < length s"
  by (induction s arbitrary: v r rule: dquoted_value.induct) (fastforce split: if_splits)+

lemma dquoted_value_suffix: "dquoted_value s = Some (v, r) \<Longrightarrow> \<exists>p. s = p @ r"
proof (induction s arbitrary: v r rule: dquoted_value.induct)
  case (3 c d cs)
  show ?case
  proof (cases "c = dquote_char \<and> d = dquote_char")
    case True
    with "3.prems" obtain v' where "dquoted_value cs = Some (v', r)" by auto
    then obtain p where "cs = p @ r" using "3.IH"(1) True by blast
    then have "c # d # cs = (c # d # p) @ r" by simp
    then show ?thesis by blast
  next
    case False
    show ?thesis
    proof (cases "c = dquote_char")
      case True
      with False "3.prems" have "c # d # cs = [c] @ r" by auto
      then show ?thesis by blast
    next
      case nq: False
      with "3.prems" obtain v' where "dquoted_value (d # cs) = Some (v', r)" by auto
      then obtain p where "d # cs = p @ r" using "3.IH"(2) False nq by blast
      then have "c # d # cs = (c # p) @ r" by simp
      then show ?thesis by blast
    qed
  qed
qed (auto split: if_splits)

lemma ReadIdentifierSegmentSpan_props:
  assumes "ReadIdentifierSegmentSpan s = Some sg"
  shows "seg_start sg = s" "length (seg_end sg) < length s" "\<exists>p. s = p @ seg_end sg"
proof -
  obtain c cs where s: "s = c # cs"
    using assms by (cases s) (auto simp: ReadIdentifierSegmentSpan_def)
  show "seg_start sg = s" using assms s
    by (auto simp: ReadIdentifierSegmentSpan_def split: if_splits)
  show "length (seg_end sg) < length s" using assms s
    by (auto simp: ReadIdentifierSegmentSpan_def IsIdentifierChar_def is_alnum_def le_imp_less_Suc
        length_dropWhile_le split: if_splits dest: dquoted_value_shorter)
  show "\<exists>p. s = p @ seg_end sg"
  proof (cases "c = dquote_char")
    case True
    then obtain v where "dquoted_value cs = Some (v, seg_end sg)"
      using assms s by (auto simp: ReadIdentifierSegmentSpan_def)
    then obtain p where "cs = p @ seg_end sg" using dquoted_value_suffix by blast
    then have "s = (c # p) @ seg_end sg" using s by simp
    then show ?thesis by blast
  next
    case False
    then have "seg_end sg = dropWhile IsIdentifierChar s"
      using assms s by (auto simp: ReadIdentifierSegmentSpan_def split: if_splits)
    then show ?thesis by (metis takeWhile_dropWhile_id)
  qed
qed

text \<open>A quoted identifier is read back exactly, whatever follows unless it is a quote.\<close>

lemma dquoted_value_double:
  "(case rest of [] \<Rightarrow> True | c # _ \<Rightarrow> c \<noteq> dquote_char) \<Longrightarrow>
   dquoted_value (double_dquotes n @ dquote_char # rest) = Some (n, rest)"
proof (induction n)
  case Nil
  then show ?case by (cases rest) auto
next
  case (Cons c n)
  obtain d t where "double_dquotes n @ dquote_char # rest = d # t"
    by (cases "double_dquotes n") auto
  with Cons show ?case by auto
qed

definition identifier_ends :: "string \<Rightarrow> bool" where
  "identifier_ends rest \<longleftrightarrow>
     (case rest of [] \<Rightarrow> True | c # _ \<Rightarrow> c \<noteq> dquote_char \<and> \<not> IsIdentifierChar c)"

lemma takeWhile_all_append: "list_all P xs \<Longrightarrow> takeWhile P (xs @ ys) = xs @ takeWhile P ys"
  by (induction xs) auto

lemma dropWhile_all_append: "list_all P xs \<Longrightarrow> dropWhile P (xs @ ys) = dropWhile P ys"
  by (induction xs) auto

lemma takeWhile_ends: "identifier_ends rest \<Longrightarrow> takeWhile IsIdentifierChar rest = []"
  and dropWhile_ends: "identifier_ends rest \<Longrightarrow> dropWhile IsIdentifierChar rest = rest"
  by (cases rest; simp add: identifier_ends_def)+

lemma plain_name_chars: "plain_name n \<Longrightarrow> list_all IsIdentifierChar n"
  by (auto simp: plain_name_def IsIdentifierChar_def is_alnum_def split: list.splits
      elim: list.pred_mono_strong)

context duckdb_strings
begin

lemma read_quoted_identifier:
  assumes "identifier_ends rest"
  shows "ReadIdentifierSegmentSpan (QuoteIdentifier E n @ rest)
       = Some \<lparr>seg_start = QuoteIdentifier E n @ rest, seg_end = rest, seg_value = n\<rparr>"
proof (cases "QuoteIdentifier E n = quoted_name n")
  case True
  have "case rest of [] \<Rightarrow> True | c # _ \<Rightarrow> c \<noteq> dquote_char"
    using assms by (cases rest) (auto simp: identifier_ends_def)
  then show ?thesis
    by (simp add: True ReadIdentifierSegmentSpan_def quoted_name_def dquoted_value_double)
next
  case False
  then have q: "QuoteIdentifier E n = n" "plain_name n" using quote_forms [of n] by auto
  then obtain c cs where n: "n = c # cs" "is_alpha c \<or> c = CHR ''_''"
    by (cases n) (auto simp: plain_name_def)
  then have nd: "c \<noteq> dquote_char" by auto
  have "takeWhile IsIdentifierChar (n @ rest) = n" "dropWhile IsIdentifierChar (n @ rest) = rest"
    using plain_name_chars [OF q(2)] assms
    by (simp_all add: takeWhile_all_append dropWhile_all_append takeWhile_ends dropWhile_ends)
  moreover have "ReadIdentifierSegmentSpan (n @ rest) =
      Some \<lparr>seg_start = n @ rest, seg_end = dropWhile IsIdentifierChar (n @ rest),
            seg_value = takeWhile IsIdentifierChar (n @ rest)\<rparr>"
    unfolding n(1) using n(2) nd by (auto simp: ReadIdentifierSegmentSpan_def)
  ultimately show ?thesis by (simp add: q(1))
qed

end

section \<open>Qualified identifiers\<close>

text \<open>\<open>ReadQualifiedIdentifier\<close>: segments separated by dots; a dot that no segment follows is
  not part of the name.\<close>

function qualified_tail :: "string \<Rightarrow> string \<Rightarrow> string \<times> string" where
  "qualified_tail identifier s =
     (case s of
        [] \<Rightarrow> (identifier, s)
      | c # t \<Rightarrow>
          if c \<noteq> CHR ''.'' then (identifier, s)
          else (case ReadIdentifierSegmentSpan t of
                  None \<Rightarrow> (identifier, s)
                | Some sg \<Rightarrow> qualified_tail (identifier @ ''.'' @ seg_value sg) (seg_end sg)))"
  by pat_completeness auto
termination
  by (relation "measure (\<lambda>(i, s). length s)")
     (auto dest: ReadIdentifierSegmentSpan_props(2))

declare qualified_tail.simps [simp del]

definition ReadQualifiedIdentifier :: "string \<Rightarrow> (string \<times> string) option" where
  "ReadQualifiedIdentifier s =
     (case ReadIdentifierSegmentSpan s of
        None \<Rightarrow> None
      | Some sg \<Rightarrow> Some (qualified_tail (seg_value sg) (seg_end sg)))"

text \<open>\<open>ReadQualifiedIdentifierSpans\<close> keeps the spans of the segments instead.\<close>

function span_tail :: "IdentifierSegmentSpan list \<Rightarrow> string \<Rightarrow> IdentifierSegmentSpan list \<times> string" where
  "span_tail segments s =
     (case s of
        [] \<Rightarrow> (segments, s)
      | c # t \<Rightarrow>
          if c \<noteq> CHR ''.'' then (segments, s)
          else (case ReadIdentifierSegmentSpan t of
                  None \<Rightarrow> (segments, s)
                | Some sg \<Rightarrow> span_tail (segments @ [sg]) (seg_end sg)))"
  by pat_completeness auto
termination
  by (relation "measure (\<lambda>(i, s). length s)")
     (auto dest: ReadIdentifierSegmentSpan_props(2))

declare span_tail.simps [simp del]

definition ReadQualifiedIdentifierSpans ::
    "string \<Rightarrow> (IdentifierSegmentSpan list \<times> string) option" where
  "ReadQualifiedIdentifierSpans s =
     (case ReadIdentifierSegmentSpan s of
        None \<Rightarrow> None
      | Some sg \<Rightarrow> Some (span_tail [sg] (seg_end sg)))"

lemma qualified_tail_suffix: "qualified_tail i s = (j, r) \<Longrightarrow> \<exists>p. s = p @ r"
proof (induction i s arbitrary: j r rule: qualified_tail.induct)
  case (1 i s)
  show ?case
  proof (cases "\<exists>t sg. s = CHR ''.'' # t \<and> ReadIdentifierSegmentSpan t = Some sg")
    case True
    then obtain t sg where s: "s = CHR ''.'' # t" "ReadIdentifierSegmentSpan t = Some sg" by blast
    then have "\<exists>p. seg_end sg = p @ r"
      using 1 by (subst (asm) (2) qualified_tail.simps) simp
    moreover obtain q where "t = q @ seg_end sg"
      using ReadIdentifierSegmentSpan_props(3) [OF s(2)] by blast
    ultimately show ?thesis using s(1) by (metis append.assoc append_Cons)
  next
    case False
    then have "qualified_tail i s = (i, s)"
      by (subst qualified_tail.simps) (auto split: list.splits option.splits)
    with 1 show ?thesis by auto
  qed
qed

lemma ReadQualifiedIdentifier_suffix:
  assumes "ReadQualifiedIdentifier s = Some (i, r)"
  shows "\<exists>p. p \<noteq> [] \<and> s = p @ r"
proof -
  obtain sg where sg: "ReadIdentifierSegmentSpan s = Some sg" "qualified_tail (seg_value sg) (seg_end sg) = (i, r)"
    using assms by (auto simp: ReadQualifiedIdentifier_def split: option.splits)
  obtain q where "s = q @ seg_end sg" using ReadIdentifierSegmentSpan_props(3) [OF sg(1)] by blast
  moreover obtain p where "seg_end sg = p @ r" using qualified_tail_suffix [OF sg(2)] by blast
  ultimately have "s = (q @ p) @ r" by simp
  moreover have "length (seg_end sg) < length s" using ReadIdentifierSegmentSpan_props(2) [OF sg(1)] .
  ultimately show ?thesis using \<open>seg_end sg = p @ r\<close> by (intro exI [of _ "q @ p"]) auto
qed

end
