(* ===== verification/Sql_Rewrite.thy ===== *)
theory Sql_Rewrite
  imports Sql_Identifiers
begin

text \<open>
  \<open>SqlUtils::RewriteColumnReferences\<close> (\<open>core/sql_utils.cpp\<close>): renaming a base column in
  stored SQL. String literals and comments are copied, every qualified identifier is read
  with its spans, and its last segment is replaced when the name and the qualifier match.
\<close>

definition QualifierMatches :: "duckdb_env \<Rightarrow> IdentifierSegmentSpan list \<Rightarrow> string set \<Rightarrow> bool" where
  "QualifierMatches E segments qualifiers \<longleftrightarrow>
     1 < length segments \<and>
     list_ex (\<lambda>sg. Lower E (seg_value sg) \<in> qualifiers) (butlast segments)"

text \<open>One iteration of the loop on a non-empty suffix: the text it appends, the suffix it
  continues with and whether it replaced a name.\<close>

definition rewrite_token ::
    "duckdb_env \<Rightarrow> string \<Rightarrow> string \<Rightarrow> string set \<Rightarrow> bool \<Rightarrow> char \<Rightarrow> string \<Rightarrow> string \<times> string \<times> bool" where
  "rewrite_token E old_name new_name qualifiers allow_unqualified c cs =
     (let s = c # cs in
      if c = quote_char then (let (a, r) = CopySingleQuotedLiteral s in (a, r, False))
      else if c = CHR ''-'' \<and> cs \<noteq> [] \<and> hd cs = CHR ''-'' then
        (let (a, r) = CopyLineComment s in (a, r, False))
      else if c = CHR ''/'' \<and> cs \<noteq> [] \<and> hd cs = CHR ''*'' then
        (let (a, r) = CopyBlockComment s in (a, r, False))
      else if c \<noteq> dquote_char \<and> \<not> (is_alpha c \<or> c = CHR ''_'') then ([c], cs, False)
      else
        (case ReadQualifiedIdentifierSpans s of
           None \<Rightarrow> ([c], cs, False)
         | Some (segments, r) \<Rightarrow>
             (let sg = last segments;
                  replace = CIEquals E (seg_value sg) old_name \<and>
                    (length segments = 1 \<and> allow_unqualified \<or> QualifierMatches E segments qualifiers)
              in if \<not> replace then (take (length s - length r) s, r, False)
                 else (take (length s - length (seg_start sg)) s @ QuoteIdentifier E new_name
                         @ take (length (seg_end sg) - length r) (seg_end sg), r, True))))"

lemma span_tail_props:
  "span_tail gs s = (hs, r) \<Longrightarrow> length r \<le> length s \<and> (\<exists>p. s = p @ r)"
proof (induction gs s arbitrary: hs r rule: span_tail.induct)
  case (1 gs s)
  show ?case
  proof (cases "\<exists>t sg. s = CHR ''.'' # t \<and> ReadIdentifierSegmentSpan t = Some sg")
    case True
    then obtain t sg where s: "s = CHR ''.'' # t" "ReadIdentifierSegmentSpan t = Some sg" by blast
    have "span_tail (gs @ [sg]) (seg_end sg) = (hs, r)"
      using "1.prems" s by (subst (asm) span_tail.simps) simp
    then have "length r \<le> length (seg_end sg) \<and> (\<exists>p. seg_end sg = p @ r)"
      using "1.IH" s by simp
    moreover obtain q where "t = q @ seg_end sg"
      using ReadIdentifierSegmentSpan_props(3) [OF s(2)] by blast
    ultimately show ?thesis using s(1) by (metis append.assoc append_Cons length_append le_add2)
  next
    case False
    then have "span_tail gs s = (gs, s)"
      by (subst span_tail.simps) (auto split: list.splits option.splits)
    with 1 show ?thesis by auto
  qed
qed

lemma ReadQualifiedIdentifierSpans_props:
  assumes "ReadQualifiedIdentifierSpans s = Some (gs, r)"
  shows "length r < length s \<and> (\<exists>p. s = p @ r)"
proof -
  obtain sg where sg: "ReadIdentifierSegmentSpan s = Some sg" "span_tail [sg] (seg_end sg) = (gs, r)"
    using assms by (auto simp: ReadQualifiedIdentifierSpans_def split: option.splits)
  obtain q where "s = q @ seg_end sg" using ReadIdentifierSegmentSpan_props(3) [OF sg(1)] by blast
  moreover obtain p where "seg_end sg = p @ r" using span_tail_props [OF sg(2)] by blast
  ultimately have "s = (q @ p) @ r" by simp
  then show ?thesis
    using span_tail_props [OF sg(2)] ReadIdentifierSegmentSpan_props(2) [OF sg(1)] by (auto simp del: append_assoc)
qed

lemma rewrite_token_shorter:
  assumes "rewrite_token E old new qs allow c cs = (a, r, ch)"
  shows "length r \<le> length cs"
proof -
  consider (lit) "c = quote_char"
    | (line) "c = CHR ''-''" "cs \<noteq> []" "hd cs = CHR ''-''"
    | (block) "c = CHR ''/''" "cs \<noteq> []" "hd cs = CHR ''*''"
    | (other) "c \<noteq> quote_char" "\<not> (c = CHR ''-'' \<and> cs \<noteq> [] \<and> hd cs = CHR ''-'')"
        "\<not> (c = CHR ''/'' \<and> cs \<noteq> [] \<and> hd cs = CHR ''*'')"
    by blast
  then show ?thesis
  proof cases
    case lit
    then have "CopySingleQuotedLiteral (c # cs) = (a, r)"
      using assms by (auto simp: rewrite_token_def split: prod.splits)
    then show ?thesis by (rule copy_shorter)
  next
    case line
    then obtain d ds where "cs = d # ds" by (cases cs) auto
    moreover have "CopyLineComment (c # cs) = (a, r)"
      using assms line by (auto simp: rewrite_token_def split: prod.splits)
    ultimately show ?thesis using copy_shorter(2) by fastforce
  next
    case block
    then obtain d ds where "cs = d # ds" by (cases cs) auto
    moreover have "CopyBlockComment (c # cs) = (a, r)"
      using assms block by (auto simp: rewrite_token_def split: prod.splits)
    ultimately show ?thesis using copy_shorter(3) by fastforce
  next
    case other
    show ?thesis
    proof (cases "ReadQualifiedIdentifierSpans (c # cs)")
      case None
      with other assms show ?thesis by (auto simp: rewrite_token_def Let_def split: if_splits)
    next
      case (Some gr)
      obtain gs r' where gr: "gr = (gs, r')" by fastforce
      have "length r' < length (c # cs)"
        using ReadQualifiedIdentifierSpans_props Some gr by blast
      moreover have "r = cs \<or> r = r'"
        using assms other Some gr by (auto simp: rewrite_token_def Let_def split: if_splits)
      ultimately show ?thesis by auto
    qed
  qed
qed

lemma rewrite_token_unchanged:
  assumes "rewrite_token E old new qs allow c cs = (a, r, False)"
  shows "a @ r = c # cs"
proof -
  consider (lit) "c = quote_char"
    | (line) "c = CHR ''-''" "cs \<noteq> []" "hd cs = CHR ''-''"
    | (block) "c = CHR ''/''" "cs \<noteq> []" "hd cs = CHR ''*''"
    | (other) "c \<noteq> quote_char" "\<not> (c = CHR ''-'' \<and> cs \<noteq> [] \<and> hd cs = CHR ''-'')"
        "\<not> (c = CHR ''/'' \<and> cs \<noteq> [] \<and> hd cs = CHR ''*'')"
    by blast
  then show ?thesis
  proof cases
    case lit
    then have "CopySingleQuotedLiteral (c # cs) = (a, r)"
      using assms by (auto simp: rewrite_token_def split: prod.splits)
    then show ?thesis by (rule CopySingleQuotedLiteral_lossless)
  next
    case line
    then have "CopyLineComment (c # cs) = (a, r)"
      using assms by (auto simp: rewrite_token_def split: prod.splits)
    then show ?thesis by (rule CopyLineComment_lossless)
  next
    case block
    then have "CopyBlockComment (c # cs) = (a, r)"
      using assms by (auto simp: rewrite_token_def split: prod.splits)
    then show ?thesis by (rule CopyBlockComment_lossless)
  next
    case other
    show ?thesis
    proof (cases "ReadQualifiedIdentifierSpans (c # cs)")
      case None
      with other assms show ?thesis by (auto simp: rewrite_token_def Let_def split: if_splits)
    next
      case (Some gr)
      obtain gs r' where gr: "gr = (gs, r')" by fastforce
      then obtain p where "c # cs = p @ r'"
        using ReadQualifiedIdentifierSpans_props Some by blast
      then have "take (length (c # cs) - length r') (c # cs) @ r' = c # cs" by (rule take_suffix)
      moreover have "a = [c] \<and> r = cs \<or> a = take (length (c # cs) - length r') (c # cs) \<and> r = r'"
        using assms other Some gr by (auto simp: rewrite_token_def Let_def split: if_splits)
      ultimately show ?thesis by auto
    qed
  qed
qed

function rewrite_loop ::
    "duckdb_env \<Rightarrow> string \<Rightarrow> string \<Rightarrow> string set \<Rightarrow> bool \<Rightarrow> string \<Rightarrow> string \<times> bool" where
  "rewrite_loop E old_name new_name qualifiers allow_unqualified [] = ([], False)"
| "rewrite_loop E old_name new_name qualifiers allow_unqualified (c # cs) =
     (let (a, r, ch) = rewrite_token E old_name new_name qualifiers allow_unqualified c cs;
          (out, changed) = rewrite_loop E old_name new_name qualifiers allow_unqualified r
      in (a @ out, ch \<or> changed))"
  by pat_completeness auto
termination
  by (relation "measure (\<lambda>(E, old, new, qs, allow, s). length s)")
     (auto dest!: rewrite_token_shorter [OF sym])

declare rewrite_loop.simps(2) [simp del]

definition RewriteColumnReferences ::
    "duckdb_env \<Rightarrow> string \<Rightarrow> string \<Rightarrow> string \<Rightarrow> string set \<Rightarrow> bool \<Rightarrow> string \<times> bool" where
  "RewriteColumnReferences E sql old_name new_name qualifiers allow_unqualified =
     (let (rewritten, changed) = rewrite_loop E old_name new_name qualifiers allow_unqualified sql
      in (if changed then rewritten else sql, changed))"

lemma rewrite_loop_unchanged:
  "rewrite_loop E old new qs allow s = (out, False) \<Longrightarrow> out = s"
proof (induction E old new qs allow s arbitrary: out rule: rewrite_loop.induct)
  case (2 E old new qs allow c cs)
  obtain a r ch where t: "rewrite_token E old new qs allow c cs = (a, r, ch)"
    by (cases "rewrite_token E old new qs allow c cs") auto
  obtain out' ch' where l: "rewrite_loop E old new qs allow r = (out', ch')" by fastforce
  from "2.prems" t l have "\<not> ch" "\<not> ch'" "out = a @ out'"
    by (auto simp: rewrite_loop.simps(2))
  with "2.IH" [OF t [symmetric] refl] l rewrite_token_unchanged t show ?case by force
qed simp

text \<open>A string literal is copied whatever it contains.\<close>

lemma rewrite_loop_literal:
  assumes "case rest of [] \<Rightarrow> True | c # _ \<Rightarrow> c \<noteq> quote_char"
  shows "rewrite_loop E old new qs allow (quote_char # EscapeSingleQuotes v @ quote_char # rest)
       = (let (out, changed) = rewrite_loop E old new qs allow rest
          in (quote_char # EscapeSingleQuotes v @ quote_char # out, changed))"
proof -
  have "rewrite_token E old new qs allow quote_char (EscapeSingleQuotes v @ quote_char # rest)
      = (quote_char # EscapeSingleQuotes v @ [quote_char], rest, False)"
    using literal_body_escape [OF assms, of v]
    by (simp add: rewrite_token_def CopySingleQuotedLiteral_def)
  then show ?thesis by (simp add: rewrite_loop.simps(2) case_prod_beta)
qed

text \<open>A bare reference to the old name becomes a reference to the new one.\<close>

lemma span_tail_stop: "\<not> (\<exists>t. s = CHR ''.'' # t) \<Longrightarrow> span_tail gs s = (gs, s)"
  by (subst span_tail.simps) (auto split: list.splits)

context duckdb_strings
begin

lemma quote_head: "\<exists>c cs. QuoteIdentifier E n = c # cs \<and> (c = dquote_char \<or> is_alpha c \<or> c = CHR ''_'')"
  using quote_forms [of n] by (auto simp: quoted_name_def plain_name_def split: list.splits)

lemma rewrite_loop_reference:
  assumes "identifier_ends rest" "\<not> (\<exists>t. rest = CHR ''.'' # t)"
  shows "rewrite_loop E old new qs True (QuoteIdentifier E old @ rest)
       = (let (out, changed) = rewrite_loop E old new qs True rest
          in (QuoteIdentifier E new @ out, True))"
proof -
  obtain c cs where q: "QuoteIdentifier E old = c # cs" "c = dquote_char \<or> is_alpha c \<or> c = CHR ''_''"
    using quote_head by blast
  then have nq: "c \<noteq> quote_char" "c \<noteq> CHR ''-''" "c \<noteq> CHR ''/''"
    by (auto simp: is_alpha_def)
  define s where "s = QuoteIdentifier E old @ rest"
  have "ReadQualifiedIdentifierSpans s = Some ([\<lparr>seg_start = s, seg_end = rest, seg_value = old\<rparr>], rest)"
    using read_quoted_identifier [OF assms(1), of old] span_tail_stop [OF assms(2)]
    by (simp add: ReadQualifiedIdentifierSpans_def s_def)
  then have "rewrite_token E old new qs True c (cs @ rest) = (QuoteIdentifier E new, rest, True)"
    using q nq by (auto simp: rewrite_token_def s_def)
  then show ?thesis using q by (simp add: rewrite_loop.simps(2) case_prod_beta)
qed

end

end
