(* ===== verification/Sql_References.thy ===== *)
theory Sql_References
  imports Sql_Identifiers
begin

text \<open>
  Table references of \<open>core/sql_utils.cpp\<close>: \<open>CollectTableReferenceMatches\<close> finds the
  qualified names behind \<open>FROM\<close>, \<open>JOIN\<close>, \<open>UPDATE\<close> and \<open>INTO\<close> that name a
  table, and the replacement functions splice a text over the matches. Here positions are
  needed, so the scan carries the position \<open>i\<close> of its suffix.
\<close>

section \<open>Matching\<close>

definition IdentifierMatchesTable :: "duckdb_env \<Rightarrow> string \<Rightarrow> string \<Rightarrow> bool" where
  "IdentifierMatchesTable E identifier table_name =
     (if CIEquals E identifier table_name then True
      else if length identifier \<le> length table_name then False
      else
        (let start = length identifier - length table_name; suffix = drop start identifier
         in identifier ! (start - 1) = CHR ''.'' \<and> CIEquals E suffix table_name))"

definition IsIdentifierTokenStart :: "char \<Rightarrow> bool" where
  "IsIdentifierTokenStart c \<longleftrightarrow> is_alpha c \<or> c = CHR ''_'' \<or> c = dquote_char"

definition IsTableReferenceKeyword :: "duckdb_env \<Rightarrow> string \<Rightarrow> bool" where
  "IsTableReferenceKeyword E identifier \<longleftrightarrow>
     CIEquals E identifier ''from'' \<or> CIEquals E identifier ''join'' \<or>
     CIEquals E identifier ''update'' \<or> CIEquals E identifier ''into''"

text \<open>The number of bytes up to the parenthesis that brings \<open>depth\<close> to zero; \<open>depth\<close> is
  an unsigned 64-bit counter.\<close>

fun close_paren :: "nat \<Rightarrow> string \<Rightarrow> nat option" where
  "close_paren depth [] = None"
| "close_paren depth (c # cs) =
     (if c = CHR ''('' then map_option Suc (close_paren ((depth + 1) mod 2 ^ 64) cs)
      else if c = CHR '')'' then
        (let depth' = (depth + (2 ^ 64 - 1)) mod 2 ^ 64
         in if depth' = 0 then Some 1 else map_option Suc (close_paren depth' cs))
      else map_option Suc (close_paren depth cs))"

text \<open>\<open>ExtendPastTimeTravelClause\<close>: how many bytes behind the name belong to it.\<close>

definition ExtendPastTimeTravelClause :: "duckdb_env \<Rightarrow> string \<Rightarrow> nat" where
  "ExtendPastTimeTravelClause E rest =
     (let blanks = length (takeWhile is_space rest); at = dropWhile is_space rest
      in if \<not> CIStartsWith E at ''AT ('' then 0
         else (case close_paren 0 at of None \<Rightarrow> 0 | Some n \<Rightarrow> blanks + n))"

lemma ReadQualifiedIdentifier_shorter: "ReadQualifiedIdentifier s = Some (i, r) \<Longrightarrow> length r < length s"
  using ReadQualifiedIdentifier_suffix by fastforce

function collect_matches ::
    "duckdb_env \<Rightarrow> string \<Rightarrow> bool \<Rightarrow> bool \<Rightarrow> bool \<Rightarrow> nat \<Rightarrow> string \<Rightarrow> (nat \<times> nat) list" where
  "collect_matches E table time_travel in_single_quote expect_table i s =
     (case s of
        [] \<Rightarrow> []
      | c # cs \<Rightarrow>
          if c = quote_char then
            (if in_single_quote \<and> cs \<noteq> [] \<and> hd cs = quote_char
             then collect_matches E table time_travel in_single_quote expect_table (i + 2) (tl cs)
             else collect_matches E table time_travel (\<not> in_single_quote) expect_table (i + 1) cs)
          else
            (case if \<not> in_single_quote \<and> IsIdentifierTokenStart c then ReadQualifiedIdentifier s else None of
               Some (identifier, r) \<Rightarrow>
                 (let end = i + (length s - length r) in
                  if expect_table \<and> IdentifierMatchesTable E identifier table then
                    (let ext = (if time_travel then ExtendPastTimeTravelClause E r else 0)
                     in (i, end + ext)
                          # collect_matches E table time_travel in_single_quote False (end + ext) (drop ext r))
                  else collect_matches E table time_travel in_single_quote
                         (IsTableReferenceKeyword E identifier) end r)
             | None \<Rightarrow>
                 collect_matches E table time_travel in_single_quote
                   (if \<not> is_space c then False else expect_table) (i + 1) cs))"
  by pat_completeness auto

termination
  by (relation "measure (\<lambda>(E, t, tt, q, e, i, s). length s)")
     (auto simp: le_less_trans less_imp_diff_less split: if_splits
       dest!: ReadQualifiedIdentifier_shorter)

declare collect_matches.simps [simp del]

definition CollectTableReferenceMatches :: "duckdb_env \<Rightarrow> string \<Rightarrow> string \<Rightarrow> bool \<Rightarrow> (nat \<times> nat) list" where
  "CollectTableReferenceMatches E sql table_name include_time_travel_clause =
     (if table_name = [] then []
      else collect_matches E table_name include_time_travel_clause False False 0 sql)"

section \<open>Searching, counting and replacing\<close>

definition FindTableReference :: "duckdb_env \<Rightarrow> string \<Rightarrow> string \<Rightarrow> string" where
  "FindTableReference E sql table_name =
     (case CollectTableReferenceMatches E sql table_name False of
        [] \<Rightarrow> []
      | (s, e) # _ \<Rightarrow> take (e - s) (drop s sql))"

definition CountTableReferences :: "duckdb_env \<Rightarrow> string \<Rightarrow> string \<Rightarrow> nat" where
  "CountTableReferences E sql table_name = length (CollectTableReferenceMatches E sql table_name False)"

fun splice :: "string \<Rightarrow> string \<Rightarrow> nat \<Rightarrow> (nat \<times> nat) list \<Rightarrow> string" where
  "splice sql replacement last_end [] = drop last_end sql"
| "splice sql replacement last_end ((s, e) # ms) =
     take (s - last_end) (drop last_end sql) @ replacement @ splice sql replacement e ms"

definition ReplaceTableReferences :: "duckdb_env \<Rightarrow> string \<Rightarrow> string \<Rightarrow> string \<Rightarrow> string" where
  "ReplaceTableReferences E sql table_name replacement =
     (let matches = CollectTableReferenceMatches E sql table_name True
      in if matches = [] then sql else splice sql replacement 0 matches)"

definition ReplaceTableReferenceOccurrence ::
    "duckdb_env \<Rightarrow> string \<Rightarrow> string \<Rightarrow> nat \<Rightarrow> string \<Rightarrow> string \<times> bool" where
  "ReplaceTableReferenceOccurrence E sql table_name occurrence replacement =
     (let matches = CollectTableReferenceMatches E sql table_name True
      in if length matches \<le> occurrence then (sql, False)
         else (let (s, e) = matches ! occurrence
               in (take s sql @ replacement @ drop e sql, True)))"

definition ReplaceEachTableReference :: "duckdb_env \<Rightarrow> string \<Rightarrow> string \<Rightarrow> string \<Rightarrow> string list" where
  "ReplaceEachTableReference E sql table_name replacement =
     map (\<lambda>(s, e). take s sql @ replacement @ drop e sql)
       (CollectTableReferenceMatches E sql table_name False)"

section \<open>The matches are disjoint, ordered spans of the text\<close>

fun spans_between :: "nat \<Rightarrow> nat \<Rightarrow> (nat \<times> nat) list \<Rightarrow> bool" where
  "spans_between lo hi [] = True"
| "spans_between lo hi ((s, e) # ms) = (lo \<le> s \<and> s < e \<and> e \<le> hi \<and> spans_between e hi ms)"

lemma spans_between_mono: "spans_between lo hi ms \<Longrightarrow> lo' \<le> lo \<Longrightarrow> spans_between lo' hi ms"
  by (cases ms) auto

lemma close_paren_le: "close_paren d s = Some n \<Longrightarrow> n \<le> length s"
  by (induction d s arbitrary: n rule: close_paren.induct) (fastforce simp: Let_def split: if_splits)+

lemma ExtendPastTimeTravelClause_le: "ExtendPastTimeTravelClause E r \<le> length r"
proof -
  have "length (takeWhile is_space r) + length (dropWhile is_space r) = length r"
    by (metis length_append takeWhile_dropWhile_id)
  then show ?thesis
    by (auto simp: ExtendPastTimeTravelClause_def Let_def dest!: close_paren_le split: option.splits)
qed

lemma collect_matches_spans:
  "spans_between i (i + length s) (collect_matches E table tt q ex i s)"
proof (induction E table tt q ex i s rule: collect_matches.induct)
  case (1 E table tt q ex i s)
  show ?case
  proof (cases s)
    case Nil
    then show ?thesis by (simp add: collect_matches.simps)
  next
    case s: (Cons c cs)
    show ?thesis
    proof (cases "c = quote_char")
      case True
      show ?thesis
      proof (cases "q \<and> cs \<noteq> [] \<and> hd cs = quote_char")
        case dbl: True
        have "spans_between (i + 2) (i + 2 + length (tl cs)) (collect_matches E table tt q ex (i + 2) (tl cs))"
          using "1.IH"(1) [OF s True dbl] .
        moreover have "i + 2 + length (tl cs) = i + length s" using s dbl by (cases cs) auto
        moreover have "collect_matches E table tt q ex i s = collect_matches E table tt q ex (i + 2) (tl cs)"
          using s True dbl by (subst collect_matches.simps) simp
        ultimately show ?thesis using spans_between_mono [of "i + 2" _ _ i] by (metis le_add1)
      next
        case False
        have "spans_between (i + 1) (i + 1 + length cs) (collect_matches E table tt (\<not> q) ex (i + 1) cs)"
          using "1.IH"(2) [OF s True False] .
        moreover have "i + 1 + length cs = i + length s" using s by simp
        moreover have "collect_matches E table tt q ex i s = collect_matches E table tt (\<not> q) ex (i + 1) cs"
          using s True False by (subst collect_matches.simps) (simp del: de_Morgan_conj)
        ultimately show ?thesis using spans_between_mono [of "i + 1" _ _ i] by (metis le_add1)
      qed
    next
      case nq: False
      define rd where "rd = (if \<not> q \<and> IsIdentifierTokenStart c then ReadQualifiedIdentifier s else None)"
      show ?thesis
      proof (cases rd)
        case None
        have "spans_between (i + 1) (i + 1 + length cs)
            (collect_matches E table tt q (if \<not> is_space c then False else ex) (i + 1) cs)"
          using "1.IH"(3) [OF s nq None [unfolded rd_def]] .
        moreover have "i + 1 + length cs = i + length s" using s by simp
        moreover have "collect_matches E table tt q ex i s = collect_matches E table tt q
            (if \<not> is_space c then False else ex) (i + 1) cs"
          using s nq None by (subst collect_matches.simps) (simp add: rd_def [symmetric])
        ultimately show ?thesis using spans_between_mono [of "i + 1" _ _ i] by (metis le_add1)
      next
        case (Some ir)
        obtain ident r where ir: "ir = (ident, r)" by fastforce
        have rs: "length r < length s"
          using Some ir ReadQualifiedIdentifier_shorter by (auto simp: rd_def split: if_splits)
        note rd = Some [unfolded rd_def]
        define e where "e = i + (length s - length r)"
        show ?thesis
        proof (cases "ex \<and> IdentifierMatchesTable E ident table")
          case True
          define ext where "ext = (if tt then ExtendPastTimeTravelClause E r else 0)"
          have "ext \<le> length r" using ExtendPastTimeTravelClause_le by (simp add: ext_def)
          moreover from this have bnd: "i < e + ext" "e + ext \<le> i + length s" using rs by (auto simp: e_def)
          ultimately have len: "e + ext + length (drop ext r) = i + length s" using rs by (simp add: e_def)
          have "spans_between (e + ext) (e + ext + length (drop ext r))
              (collect_matches E table tt q False (e + ext) (drop ext r))"
            using "1.IH"(4) [OF s nq rd ir [symmetric] e_def True ext_def] .
          moreover have "collect_matches E table tt q ex i s =
              (i, e + ext) # collect_matches E table tt q False (e + ext) (drop ext r)"
            using s nq Some ir True
            by (subst collect_matches.simps) (simp add: rd_def [symmetric] e_def ext_def Let_def)
          ultimately show ?thesis using len bnd by simp
        next
          case False
          have "spans_between e (e + length r) (collect_matches E table tt q (IsTableReferenceKeyword E ident) e r)"
            using "1.IH"(5) [OF s nq rd ir [symmetric] e_def False] .
          moreover have "collect_matches E table tt q ex i s =
              collect_matches E table tt q (IsTableReferenceKeyword E ident) e r"
            using s nq Some ir False
            by (subst collect_matches.simps) (simp add: rd_def [symmetric] e_def Let_def del: de_Morgan_conj)
          moreover have "e + length r = i + length s" "i \<le> e" using rs by (auto simp: e_def)
          ultimately show ?thesis using spans_between_mono by metis
        qed
      qed
    qed
  qed
qed

lemma CollectTableReferenceMatches_spans:
  "spans_between 0 (length sql) (CollectTableReferenceMatches E sql table tt)"
  using collect_matches_spans [of 0 sql] by (simp add: CollectTableReferenceMatches_def)

text \<open>The length of the spliced text follows from the spans.\<close>

lemma splice_length:
  "spans_between lo (length sql) ms \<Longrightarrow> lo \<le> length sql \<Longrightarrow>
   int (length (splice sql r lo ms))
     = int (length sql) - int lo + (\<Sum>(s, e) \<leftarrow> ms. int (length r) - int (e - s))"
  by (induction sql r lo ms rule: splice.induct) auto

text \<open>Cutting the matched texts out and putting them back gives the text.\<close>

fun unmatched :: "string \<Rightarrow> nat \<Rightarrow> (nat \<times> nat) list \<Rightarrow> string list" where
  "unmatched sql lo [] = [drop lo sql]"
| "unmatched sql lo ((s, e) # ms) = take (s - lo) (drop lo sql) # unmatched sql e ms"

lemma splice_unmatched: "splice sql r lo ms = join_with r (unmatched sql lo ms)"
proof (induction sql r lo ms rule: splice.induct)
  case (2 sql r lo s e ms)
  obtain x xs where "unmatched sql e ms = x # xs"
    by (cases ms) auto
  with 2 show ?case by simp
qed simp

end
