(* ===== verification/Plan.thy ===== *)
theory Plan
  imports Constants
begin

text \<open>
  The logical plans that the planner of the database hands to OpenIVM. The plan classes
  belong to DuckDB; what is modelled is the shape that the OpenIVM sources read: an
  operator type, the operator's own data, its expressions and its children. A
  \<open>dynamic_cast\<close> that may fail is an optional field (\<open>join_type\<close> is present exactly for the
  classes derived from \<open>LogicalJoin\<close>); values computed by DuckDB itself (\<open>GetName\<close>,
  \<open>IsFoldable\<close>, \<open>GetColumnBindings\<close>) are fields. An operator's address is its path from the
  root of the plan.
\<close>

type_synonym ColumnBinding = "idx_t \<times> idx_t"

section \<open>Expressions\<close>

record expr_head =
  expr_alias :: string
  GetName :: string
  IsFoldable :: bool

datatype Expression =
    BoundColumnRef expr_head ColumnBinding
  | BoundFunction expr_head string bool "Expression list"
      \<comment> \<open>function name, whether its stability is \<open>CONSISTENT\<close>, arguments\<close>
  | BoundUnnest expr_head "Expression option"
  | BoundAggregate expr_head string bool "Expression list" "Expression option"
      \<comment> \<open>function name, \<open>IsDistinct\<close>, arguments, \<open>FILTER\<close>\<close>
  | BoundWindow expr_head "Expression list" "Expression list"
      \<comment> \<open>\<open>PARTITION BY\<close>, the other children\<close>
  | BoundCast expr_head Expression
  | OtherExpression expr_head "Expression list"

fun head_of :: "Expression \<Rightarrow> expr_head" where
  "head_of (BoundColumnRef h b) = h"
| "head_of (BoundFunction h f c es) = h"
| "head_of (BoundUnnest h e) = h"
| "head_of (BoundAggregate h f d es fi) = h"
| "head_of (BoundWindow h ps es) = h"
| "head_of (BoundCast h e) = h"
| "head_of (OtherExpression h es) = h"

definition opt_list :: "'a option \<Rightarrow> 'a list" where
  "opt_list x = (case x of None \<Rightarrow> [] | Some y \<Rightarrow> [y])"

text \<open>\<open>EnumerateChildren\<close>, and \<open>EnumerateExpression\<close>: the expression itself, then its
  children, recursively.\<close>

fun EnumerateChildren :: "Expression \<Rightarrow> Expression list" where
  "EnumerateChildren (BoundColumnRef h b) = []"
| "EnumerateChildren (BoundFunction h f c es) = es"
| "EnumerateChildren (BoundUnnest h e) = opt_list e"
| "EnumerateChildren (BoundAggregate h f d es fi) = es @ opt_list fi"
| "EnumerateChildren (BoundWindow h ps es) = ps @ es"
| "EnumerateChildren (BoundCast h e) = [e]"
| "EnumerateChildren (OtherExpression h es) = es"

lemma size_in_list: "x \<in> set xs \<Longrightarrow> size x \<le> size_list size xs"
  by (rule size_list_estimation') auto

lemma EnumerateChildren_size: "e \<in> set (EnumerateChildren x) \<Longrightarrow> size e < size x"
  by (cases x) (auto simp: opt_list_def split: option.splits dest!: size_in_list)

function EnumerateExpression :: "Expression \<Rightarrow> Expression list" where
  "EnumerateExpression e = e # concat (map EnumerateExpression (EnumerateChildren e))"
  by pat_completeness auto
termination by (relation "measure size") (auto dest: EnumerateChildren_size)

declare EnumerateExpression.simps [simp del]

section \<open>Operators\<close>

datatype LogicalOperatorType =
    LOGICAL_PROJECTION | LOGICAL_FILTER | LOGICAL_AGGREGATE_AND_GROUP_BY | LOGICAL_WINDOW
  | LOGICAL_UNNEST | LOGICAL_LIMIT | LOGICAL_ORDER_BY | LOGICAL_TOP_N | LOGICAL_DISTINCT
  | LOGICAL_SAMPLE | LOGICAL_PIVOT | LOGICAL_GET | LOGICAL_CHUNK_GET | LOGICAL_DELIM_GET
  | LOGICAL_EXPRESSION_GET | LOGICAL_DUMMY_SCAN | LOGICAL_EMPTY_RESULT | LOGICAL_CTE_REF
  | LOGICAL_JOIN | LOGICAL_DELIM_JOIN | LOGICAL_COMPARISON_JOIN | LOGICAL_ANY_JOIN
  | LOGICAL_CROSS_PRODUCT | LOGICAL_POSITIONAL_JOIN | LOGICAL_ASOF_JOIN | LOGICAL_DEPENDENT_JOIN
  | LOGICAL_UNION | LOGICAL_EXCEPT | LOGICAL_INTERSECT | LOGICAL_MATERIALIZED_CTE
  | LOGICAL_INSERT | LOGICAL_DELETE | LOGICAL_UPDATE | LOGICAL_CREATE_TABLE | LOGICAL_ALTER
  | LOGICAL_DROP | LOGICAL_OTHER nat
      \<comment> \<open>the operator types no OpenIVM source mentions\<close>

datatype JoinType =
    JOIN_LEFT | JOIN_RIGHT | JOIN_INNER | JOIN_OUTER | JOIN_SEMI | JOIN_ANTI | JOIN_MARK
  | JOIN_SINGLE | JOIN_RIGHT_SEMI | JOIN_RIGHT_ANTI | JOIN_INVALID

record JoinCondition =
  cond_left :: Expression
  cond_right :: Expression
  is_equal :: bool
    \<comment> \<open>\<open>comparison == ExpressionType::COMPARE_EQUAL\<close>\<close>

record op_info =
  table_index :: idx_t
  join_type :: "JoinType option"
  conditions :: "JoinCondition list"
  setop_all :: bool
  sample_seed_valid :: bool
  distinct_targets :: "Expression list"
  type_count :: nat
  groups :: "Expression list"
  grouping_sets :: nat
  group_index :: idx_t
  top_limit :: idx_t
  top_offset :: idx_t
  orders :: "(Expression \<times> bool) list"
  limit_val :: "idx_t option"
  offset_val :: "idx_t option"
  get_table :: "string option"
  function_name :: string
  get_names :: "string list"
  column_bindings :: "ColumnBinding list"
  base_columns :: "(ColumnBinding \<times> string option) list"

datatype LogicalOperator =
  LogicalOp (op_type: LogicalOperatorType) (op_info: op_info) (expressions: "Expression list")
    (children: "LogicalOperator list")

lemma children_size [termination_simp]: "c \<in> set (children op) \<Longrightarrow> size c < size op"
  by (cases op) (auto dest!: size_in_list)

lemma plan_induct [case_names LogicalOp]:
  assumes "\<And>t i es cs. (\<And>c. c \<in> set cs \<Longrightarrow> P c) \<Longrightarrow> P (LogicalOp t i es cs)"
  shows "P op"
  using assms by (rule LogicalOperator.induct)

text \<open>An operator with nothing set, from which concrete plans are built.\<close>

definition no_info :: op_info where
  "no_info = \<lparr>table_index = 0, join_type = None, conditions = [], setop_all = False,
     sample_seed_valid = False, distinct_targets = [], type_count = 0, groups = [],
     grouping_sets = 0, group_index = 0, top_limit = 0, top_offset = 0, orders = [],
     limit_val = None, offset_val = None, get_table = None, function_name = [],
     get_names = [], column_bindings = [], base_columns = []\<rparr>"

definition scan_of :: "string \<Rightarrow> idx_t \<Rightarrow> LogicalOperator" where
  "scan_of name index =
     LogicalOp LOGICAL_GET (no_info\<lparr>get_table := Some name, table_index := index\<rparr>) [] []"

definition join_of :: "JoinType \<Rightarrow> LogicalOperator \<Rightarrow> LogicalOperator \<Rightarrow> LogicalOperator" where
  "join_of jt l r = LogicalOp LOGICAL_COMPARISON_JOIN (no_info\<lparr>join_type := Some jt\<rparr>) [] [l, r]"

end
