(* ===== verification/Checker.thy ===== *)
theory Checker
  imports Plan
begin

text \<open>
  \<open>core/incremental_checker.cpp\<close>: one pass over the logical plan that decides whether a
  view can be maintained incrementally and records the facts the classifier needs. The
  result record is threaded through the traversal in the order the code visits the
  operators; each \<open>case\<close> of \<open>AnalyzeNode\<close> is a function of its own.
\<close>

record PlanAnalysis =
  incremental_compatible :: bool
  found_aggregation :: bool
  found_projection :: bool
  found_having :: bool
  found_distinct :: bool
  found_union_distinct :: bool
  found_minmax :: bool
  found_list :: bool
  found_filtered_list :: bool
  found_left_join :: bool
  found_full_outer :: bool
  found_semi_anti_join :: bool
  found_join :: bool
  found_delim_join :: bool
  found_single_join :: bool
  found_asof_join :: bool
  found_positional_join :: bool
  found_sample :: bool
  found_window :: bool
  found_top_k :: bool
  found_count_distinct :: bool
  found_grouping_sets :: bool
  found_nested_aggregate :: bool
  found_volatile_expression :: bool
  found_non_foldable_unnest :: bool
  found_unsupported_aggregate :: bool
  found_unsupported_filtered_aggregate :: bool
  found_unsupported_join_type :: bool
  found_unsupported_order_by :: bool
  found_unsupported_operator :: bool
  top_k_limit :: idx_t
  top_k_offset :: idx_t
  top_k_order_columns :: "string list"
  top_k_order_desc :: "bool list"
  aggregate_columns :: "string list"
  aggregate_types :: "string list"
  window_partition_columns :: "string list"
  window_partition_column_indexes :: "idx_t list"
  group_count :: nat
  group_index_of :: idx_t

definition InitialAnalysis :: PlanAnalysis where
  "InitialAnalysis = \<lparr>incremental_compatible = True, found_aggregation = False,
     found_projection = False, found_having = False, found_distinct = False,
     found_union_distinct = False, found_minmax = False, found_list = False,
     found_filtered_list = False, found_left_join = False, found_full_outer = False,
     found_semi_anti_join = False, found_join = False, found_delim_join = False,
     found_single_join = False, found_asof_join = False, found_positional_join = False,
     found_sample = False, found_window = False, found_top_k = False,
     found_count_distinct = False, found_grouping_sets = False, found_nested_aggregate = False,
     found_volatile_expression = False, found_non_foldable_unnest = False,
     found_unsupported_aggregate = False, found_unsupported_filtered_aggregate = False,
     found_unsupported_join_type = False, found_unsupported_order_by = False,
     found_unsupported_operator = False, top_k_limit = 0, top_k_offset = 0,
     top_k_order_columns = [], top_k_order_desc = [], aggregate_columns = [],
     aggregate_types = [], window_partition_columns = [], window_partition_column_indexes = [],
     group_count = 0, group_index_of = INVALID_INDEX\<rparr>"

section \<open>Expressions\<close>

definition GetSupportedAggregates :: "string list" where
  "GetSupportedAggregates = [''count_star'', ''count'', ''sum'', ''min'', ''max'', ''avg'', ''list'',
     ''stddev'', ''stddev_samp'', ''stddev_pop'', ''variance'', ''var_samp'', ''var_pop'',
     ''bool_and'', ''bool_or'', ''arg_min'', ''arg_max'']"

fun OrderByColumnName :: "Expression \<Rightarrow> string" where
  "OrderByColumnName (BoundColumnRef h b) = (if expr_alias h \<noteq> [] then expr_alias h else GetName h)"
| "OrderByColumnName e = []"

fun extract_order_loop :: "(Expression \<times> bool) list \<Rightarrow> PlanAnalysis \<Rightarrow> PlanAnalysis \<times> bool" where
  "extract_order_loop [] result = (result, True)"
| "extract_order_loop ((e, desc) # os) result =
     (let name = OrderByColumnName e
      in if name = [] then (result, False)
         else extract_order_loop os
           (result\<lparr>top_k_order_columns := top_k_order_columns result @ [name],
                   top_k_order_desc := top_k_order_desc result @ [desc]\<rparr>))"

definition ExtractOrderBy :: "(Expression \<times> bool) list \<Rightarrow> PlanAnalysis \<Rightarrow> PlanAnalysis \<times> bool" where
  "ExtractOrderBy os result =
     extract_order_loop os (result\<lparr>top_k_order_columns := [], top_k_order_desc := []\<rparr>)"

fun volatile_function :: "Expression \<Rightarrow> bool" where
  "volatile_function (BoundFunction h name consistent args) =
     (if starts_with name ''__internal_compress'' \<or> starts_with name ''__internal_decompress'' \<or>
         name = ''error''
      then False else \<not> consistent)"
| "volatile_function e = False"

definition HasVolatileExpression :: "Expression list \<Rightarrow> bool" where
  "HasVolatileExpression es = list_ex (\<lambda>e. list_ex volatile_function (EnumerateExpression e)) es"

fun non_foldable_unnest :: "Expression \<Rightarrow> bool" where
  "non_foldable_unnest (BoundUnnest h None) = True"
| "non_foldable_unnest (BoundUnnest h (Some c)) = (\<not> IsFoldable (head_of c))"
| "non_foldable_unnest e = False"

definition HasNonFoldableUnnestExpression :: "Expression list \<Rightarrow> bool" where
  "HasNonFoldableUnnestExpression es =
     list_ex (\<lambda>e. list_ex non_foldable_unnest (EnumerateExpression e)) es"

section \<open>The cases of the traversal\<close>

definition mark_volatile :: "Expression list \<Rightarrow> PlanAnalysis \<Rightarrow> PlanAnalysis" where
  "mark_volatile es result =
     (if HasVolatileExpression es
      then result\<lparr>incremental_compatible := False, found_volatile_expression := True\<rparr> else result)"

definition MergeCompatibilityAndNonLocalFacts :: "PlanAnalysis \<Rightarrow> PlanAnalysis \<Rightarrow> PlanAnalysis" where
  "MergeCompatibilityAndNonLocalFacts result body = result\<lparr>
     incremental_compatible := incremental_compatible result \<and> incremental_compatible body,
     found_volatile_expression := found_volatile_expression result \<or> found_volatile_expression body,
     found_non_foldable_unnest := found_non_foldable_unnest result \<or> found_non_foldable_unnest body,
     found_unsupported_aggregate := found_unsupported_aggregate result \<or> found_unsupported_aggregate body,
     found_unsupported_filtered_aggregate := found_unsupported_filtered_aggregate result \<or>
       found_unsupported_filtered_aggregate body,
     found_unsupported_join_type := found_unsupported_join_type result \<or> found_unsupported_join_type body,
     found_unsupported_order_by := found_unsupported_order_by result \<or> found_unsupported_order_by body,
     found_unsupported_operator := found_unsupported_operator result \<or> found_unsupported_operator body,
     found_asof_join := found_asof_join result \<or> found_asof_join body,
     found_positional_join := found_positional_join result \<or> found_positional_join body,
     found_sample := found_sample result \<or> found_sample body\<rparr>"

definition AnalyzeFilter :: "LogicalOperator \<Rightarrow> PlanAnalysis \<Rightarrow> PlanAnalysis" where
  "AnalyzeFilter node result =
     (let r = mark_volatile (expressions node) result
      in case children node of
           [] \<Rightarrow> r
         | c # _ \<Rightarrow> if op_type c = LOGICAL_AGGREGATE_AND_GROUP_BY then r\<lparr>found_having := True\<rparr> else r)"

definition AnalyzeProjection :: "LogicalOperator \<Rightarrow> PlanAnalysis \<Rightarrow> PlanAnalysis" where
  "AnalyzeProjection node result =
     (let r = mark_volatile (expressions node) (result\<lparr>found_projection := True\<rparr>)
      in if HasNonFoldableUnnestExpression (expressions node)
         then r\<lparr>incremental_compatible := False, found_non_foldable_unnest := True\<rparr> else r)"

definition AnalyzeUnion :: "LogicalOperator \<Rightarrow> PlanAnalysis \<Rightarrow> PlanAnalysis" where
  "AnalyzeUnion node result =
     mark_volatile (expressions node)
       (if \<not> setop_all (op_info node)
        then result\<lparr>found_distinct := True, found_union_distinct := True\<rparr> else result)"

definition AnalyzeSample :: "LogicalOperator \<Rightarrow> PlanAnalysis \<Rightarrow> PlanAnalysis" where
  "AnalyzeSample node result =
     (let r = result\<lparr>found_sample := True\<rparr>
      in if \<not> sample_seed_valid (op_info node)
         then r\<lparr>incremental_compatible := False, found_volatile_expression := True\<rparr> else r)"

text \<open>\<open>DISTINCT\<close> reads \<open>children[0]\<close> without a check; every such operator has a child.\<close>

definition AnalyzeDistinct :: "LogicalOperator \<Rightarrow> PlanAnalysis \<Rightarrow> PlanAnalysis" where
  "AnalyzeDistinct node result =
     (let r = mark_volatile (expressions node) (result\<lparr>found_distinct := True\<rparr>)
      in r\<lparr>aggregate_columns := aggregate_columns r @
           (if distinct_targets (op_info node) \<noteq> []
            then map (\<lambda>t. GetName (head_of t)) (distinct_targets (op_info node))
            else map (\<lambda>i. ''col'' @ nat_string i) [0 ..< type_count (op_info (hd (children node)))])\<rparr>)"

definition AnalyzeJoin :: "LogicalOperator \<Rightarrow> PlanAnalysis \<Rightarrow> PlanAnalysis" where
  "AnalyzeJoin node result =
     (let r = result\<lparr>found_join := True\<rparr>;
          r = (if op_type node = LOGICAL_ASOF_JOIN then r\<lparr>found_asof_join := True\<rparr> else r);
          r = (if op_type node \<in> {LOGICAL_DEPENDENT_JOIN, LOGICAL_DELIM_JOIN}
               then r\<lparr>found_delim_join := True\<rparr> else r)
      in case join_type (op_info node) of
           None \<Rightarrow> r
         | Some jt \<Rightarrow>
             (let r = (if jt \<notin> {JOIN_INNER, JOIN_LEFT, JOIN_RIGHT, JOIN_OUTER, JOIN_SEMI, JOIN_ANTI,
                                JOIN_MARK, JOIN_SINGLE}
                       then r\<lparr>incremental_compatible := False, found_unsupported_join_type := True\<rparr>
                       else r);
                  r = (if jt = JOIN_SINGLE then r\<lparr>found_single_join := True\<rparr> else r);
                  r = (if jt \<in> {JOIN_SEMI, JOIN_ANTI, JOIN_MARK}
                       then r\<lparr>found_semi_anti_join := True\<rparr> else r);
                  r = (if jt \<in> {JOIN_LEFT, JOIN_RIGHT, JOIN_OUTER}
                       then r\<lparr>found_left_join := True\<rparr> else r)
              in if jt = JOIN_OUTER then r\<lparr>found_full_outer := True\<rparr> else r))"

definition AnalyzePositionalJoin :: "PlanAnalysis \<Rightarrow> PlanAnalysis" where
  "AnalyzePositionalJoin result = result\<lparr>found_join := True, found_positional_join := True\<rparr>"

definition AnalyzeBoundAggregate :: "string \<Rightarrow> bool \<Rightarrow> bool \<Rightarrow> PlanAnalysis \<Rightarrow> PlanAnalysis" where
  "AnalyzeBoundAggregate name is_distinct has_filter result =
     (let scalar_subquery_first = (name = ''first'' \<and> group_index_of result \<noteq> INVALID_INDEX);
          r = (if name \<notin> set GetSupportedAggregates \<and> \<not> scalar_subquery_first
               then result\<lparr>incremental_compatible := False, found_unsupported_aggregate := True\<rparr>
               else result);
          r = (if is_distinct then r\<lparr>found_count_distinct := True\<rparr> else r);
          r = (if has_filter
               then (if name = ''list'' then r\<lparr>found_filtered_list := True\<rparr>
                     else r\<lparr>incremental_compatible := False,
                            found_unsupported_filtered_aggregate := True\<rparr>)
               else r);
          r = (if name \<in> {''min'', ''max'', ''arg_min'', ''arg_max''}
               then r\<lparr>found_minmax := True\<rparr> else r);
          r = (if name = ''list'' then r\<lparr>found_list := True\<rparr> else r)
      in if group_index_of r = INVALID_INDEX
         then r\<lparr>aggregate_types := aggregate_types r @ [name]\<rparr> else r)"

definition AnalyzeAggregateExpression :: "Expression \<Rightarrow> PlanAnalysis \<Rightarrow> PlanAnalysis" where
  "AnalyzeAggregateExpression e result =
     (case e of
        BoundAggregate h name is_distinct args filter_expr \<Rightarrow>
          AnalyzeBoundAggregate name is_distinct (filter_expr \<noteq> None) result
      | _ \<Rightarrow> result)"

definition AnalyzeAggregate :: "LogicalOperator \<Rightarrow> PlanAnalysis \<Rightarrow> PlanAnalysis" where
  "AnalyzeAggregate node result =
     (let agg = op_info node;
          r = result\<lparr>found_aggregation := True\<rparr>;
          r = (if 1 < grouping_sets agg then r\<lparr>found_grouping_sets := True\<rparr> else r);
          r = fold AnalyzeAggregateExpression (expressions node) r;
          r = mark_volatile (groups agg) r
      in if group_index_of r = INVALID_INDEX
         then r\<lparr>group_count := length (groups agg), group_index_of := group_index agg\<rparr>
         else r\<lparr>found_nested_aggregate := True\<rparr>)"

fun partition_column :: "Expression \<Rightarrow> string \<times> idx_t" where
  "partition_column (BoundColumnRef h (t, c)) =
     (if expr_alias h = [] then GetName h else expr_alias h, c)"
| "partition_column e = (GetName (head_of e), INVALID_INDEX)"

definition AddPartition :: "Expression \<Rightarrow> PlanAnalysis \<Rightarrow> PlanAnalysis" where
  "AddPartition part r =
     (let (col_name, col_index) = partition_column part
      in if col_name \<in> set (window_partition_columns r) then r
         else r\<lparr>window_partition_columns := window_partition_columns r @ [col_name],
                window_partition_column_indexes := window_partition_column_indexes r @ [col_index]\<rparr>)"

fun AnalyzeWindowExpression :: "Expression \<Rightarrow> PlanAnalysis \<Rightarrow> PlanAnalysis" where
  "AnalyzeWindowExpression (BoundWindow h partitions others) r = fold AddPartition partitions r"
| "AnalyzeWindowExpression e r = r"

definition AnalyzeWindow :: "LogicalOperator \<Rightarrow> PlanAnalysis \<Rightarrow> PlanAnalysis" where
  "AnalyzeWindow node result =
     fold AnalyzeWindowExpression (expressions node)
       (mark_volatile (expressions node) (result\<lparr>found_window := True\<rparr>))"

definition AnalyzeTopN :: "LogicalOperator \<Rightarrow> PlanAnalysis \<Rightarrow> PlanAnalysis" where
  "AnalyzeTopN node result =
     (let r = result\<lparr>found_top_k := True, top_k_limit := top_limit (op_info node),
                     top_k_offset := top_offset (op_info node)\<rparr>;
          (r, ok) = ExtractOrderBy (orders (op_info node)) r
      in if ok then r else r\<lparr>incremental_compatible := False, found_unsupported_order_by := True\<rparr>)"

definition AnalyzeOrderBy :: "LogicalOperator \<Rightarrow> PlanAnalysis \<Rightarrow> PlanAnalysis" where
  "AnalyzeOrderBy node result =
     (if top_k_order_columns result = [] then fst (ExtractOrderBy (orders (op_info node)) result)
      else result)"

definition AnalyzeLimit :: "LogicalOperator \<Rightarrow> PlanAnalysis \<Rightarrow> PlanAnalysis" where
  "AnalyzeLimit node result =
     (let r = result\<lparr>found_top_k := True\<rparr>;
          r = (case limit_val (op_info node) of None \<Rightarrow> r | Some n \<Rightarrow> r\<lparr>top_k_limit := n\<rparr>)
      in case offset_val (op_info node) of None \<Rightarrow> r | Some n \<Rightarrow> r\<lparr>top_k_offset := n\<rparr>)"

text \<open>What the \<open>switch\<close> does for an operator before its children are visited.\<close>

definition analyze_here :: "LogicalOperator \<Rightarrow> PlanAnalysis \<Rightarrow> PlanAnalysis" where
  "analyze_here node result =
     (let t = op_type node in
      if t \<in> {LOGICAL_CREATE_TABLE, LOGICAL_INSERT, LOGICAL_DUMMY_SCAN, LOGICAL_GET,
              LOGICAL_EXPRESSION_GET, LOGICAL_CHUNK_GET, LOGICAL_DELIM_GET, LOGICAL_CTE_REF,
              LOGICAL_MATERIALIZED_CTE} then result
      else if t = LOGICAL_UNNEST then mark_volatile (expressions node) result
      else if t = LOGICAL_FILTER then AnalyzeFilter node result
      else if t = LOGICAL_PROJECTION then AnalyzeProjection node result
      else if t = LOGICAL_UNION then AnalyzeUnion node result
      else if t = LOGICAL_SAMPLE then AnalyzeSample node result
      else if t = LOGICAL_DISTINCT then AnalyzeDistinct node result
      else if t \<in> {LOGICAL_COMPARISON_JOIN, LOGICAL_ASOF_JOIN, LOGICAL_ANY_JOIN,
                   LOGICAL_DEPENDENT_JOIN, LOGICAL_DELIM_JOIN, LOGICAL_JOIN, LOGICAL_CROSS_PRODUCT}
        then AnalyzeJoin node result
      else if t = LOGICAL_POSITIONAL_JOIN then AnalyzePositionalJoin result
      else if t = LOGICAL_AGGREGATE_AND_GROUP_BY then AnalyzeAggregate node result
      else if t = LOGICAL_WINDOW then AnalyzeWindow node result
      else if t = LOGICAL_TOP_N then AnalyzeTopN node result
      else if t = LOGICAL_ORDER_BY then AnalyzeOrderBy node result
      else if t = LOGICAL_LIMIT then AnalyzeLimit node result
      else result\<lparr>incremental_compatible := False, found_unsupported_operator := True\<rparr>)"

function AnalyzeNode :: "LogicalOperator \<Rightarrow> PlanAnalysis \<Rightarrow> PlanAnalysis" where
  "AnalyzeNode node result =
     (if op_type node = LOGICAL_MATERIALIZED_CTE then
        (case children node of
           body # outer # _ \<Rightarrow>
             (let r = AnalyzeNode outer result;
                  outer_passthrough = (\<not> found_aggregation r \<and> \<not> found_distinct r \<and> \<not> found_join r)
              in if outer_passthrough then AnalyzeNode body r
                 else MergeCompatibilityAndNonLocalFacts r (AnalyzeNode body InitialAnalysis))
         | _ \<Rightarrow> result)
      else if op_type node \<in> {LOGICAL_TOP_N, LOGICAL_ORDER_BY, LOGICAL_LIMIT} then
        (case children node of
           [] \<Rightarrow> analyze_here node result
         | c # _ \<Rightarrow> AnalyzeNode c (analyze_here node result))
      else fold AnalyzeNode (children node) (analyze_here node result))"
  by pat_completeness auto
termination
  by (relation "measure (size \<circ> fst)") (auto intro: children_size)

declare AnalyzeNode.simps [simp del]

definition AnalyzePlan :: "LogicalOperator \<Rightarrow> PlanAnalysis" where
  "AnalyzePlan plan = AnalyzeNode plan InitialAnalysis"

definition ValidateIncrementalPlan :: "LogicalOperator \<Rightarrow> bool" where
  "ValidateIncrementalPlan plan = incremental_compatible (AnalyzePlan plan)"

section \<open>The verdict and its reasons\<close>

text \<open>A plan is refused exactly when one of the seven reason flags is raised.\<close>

definition reason_found :: "PlanAnalysis \<Rightarrow> bool" where
  "reason_found r \<longleftrightarrow>
     found_volatile_expression r \<or> found_non_foldable_unnest r \<or> found_unsupported_aggregate r \<or>
     found_unsupported_filtered_aggregate r \<or> found_unsupported_join_type r \<or>
     found_unsupported_order_by r \<or> found_unsupported_operator r"

definition coherent :: "PlanAnalysis \<Rightarrow> bool" where
  "coherent r \<longleftrightarrow> (\<not> incremental_compatible r \<longleftrightarrow> reason_found r)"

lemmas coherence = coherent_def reason_found_def

lemma coherent_frame [simp]:
  "coherent (r\<lparr>found_aggregation := x0\<rparr>) = coherent r"
  "coherent (r\<lparr>found_projection := x1\<rparr>) = coherent r"
  "coherent (r\<lparr>found_having := x2\<rparr>) = coherent r"
  "coherent (r\<lparr>found_distinct := x3\<rparr>) = coherent r"
  "coherent (r\<lparr>found_union_distinct := x4\<rparr>) = coherent r"
  "coherent (r\<lparr>found_minmax := x5\<rparr>) = coherent r"
  "coherent (r\<lparr>found_list := x6\<rparr>) = coherent r"
  "coherent (r\<lparr>found_filtered_list := x7\<rparr>) = coherent r"
  "coherent (r\<lparr>found_left_join := x8\<rparr>) = coherent r"
  "coherent (r\<lparr>found_full_outer := x9\<rparr>) = coherent r"
  "coherent (r\<lparr>found_semi_anti_join := x10\<rparr>) = coherent r"
  "coherent (r\<lparr>found_join := x11\<rparr>) = coherent r"
  "coherent (r\<lparr>found_delim_join := x12\<rparr>) = coherent r"
  "coherent (r\<lparr>found_single_join := x13\<rparr>) = coherent r"
  "coherent (r\<lparr>found_asof_join := x14\<rparr>) = coherent r"
  "coherent (r\<lparr>found_positional_join := x15\<rparr>) = coherent r"
  "coherent (r\<lparr>found_sample := x16\<rparr>) = coherent r"
  "coherent (r\<lparr>found_window := x17\<rparr>) = coherent r"
  "coherent (r\<lparr>found_top_k := x18\<rparr>) = coherent r"
  "coherent (r\<lparr>found_count_distinct := x19\<rparr>) = coherent r"
  "coherent (r\<lparr>found_grouping_sets := x20\<rparr>) = coherent r"
  "coherent (r\<lparr>found_nested_aggregate := x21\<rparr>) = coherent r"
  "coherent (r\<lparr>top_k_limit := x22\<rparr>) = coherent r"
  "coherent (r\<lparr>top_k_offset := x23\<rparr>) = coherent r"
  "coherent (r\<lparr>top_k_order_columns := x24\<rparr>) = coherent r"
  "coherent (r\<lparr>top_k_order_desc := x25\<rparr>) = coherent r"
  "coherent (r\<lparr>aggregate_columns := x26\<rparr>) = coherent r"
  "coherent (r\<lparr>aggregate_types := x27\<rparr>) = coherent r"
  "coherent (r\<lparr>window_partition_columns := x28\<rparr>) = coherent r"
  "coherent (r\<lparr>window_partition_column_indexes := x29\<rparr>) = coherent r"
  "coherent (r\<lparr>group_count := x30\<rparr>) = coherent r"
  "coherent (r\<lparr>group_index_of := x31\<rparr>) = coherent r"
  by (simp_all add: coherence)

lemma coherent_refused [simp]:
  "coherent (r\<lparr>incremental_compatible := False, found_volatile_expression := True\<rparr>)"
  "coherent (r\<lparr>incremental_compatible := False, found_non_foldable_unnest := True\<rparr>)"
  "coherent (r\<lparr>incremental_compatible := False, found_unsupported_aggregate := True\<rparr>)"
  "coherent (r\<lparr>incremental_compatible := False, found_unsupported_filtered_aggregate := True\<rparr>)"
  "coherent (r\<lparr>incremental_compatible := False, found_unsupported_join_type := True\<rparr>)"
  "coherent (r\<lparr>incremental_compatible := False, found_unsupported_order_by := True\<rparr>)"
  "coherent (r\<lparr>incremental_compatible := False, found_unsupported_operator := True\<rparr>)"
  by (simp_all add: coherence)

lemma coherent_mark_volatile [simp]: "coherent r \<Longrightarrow> coherent (mark_volatile es r)"
  by (simp add: mark_volatile_def)

lemma coherent_extract_loop: "coherent r \<Longrightarrow> coherent (fst (extract_order_loop os r))"
  by (induction os r rule: extract_order_loop.induct) (simp_all add: Let_def)

lemma coherent_ExtractOrderBy: "coherent r \<Longrightarrow> coherent (fst (ExtractOrderBy os r))"
  unfolding ExtractOrderBy_def by (rule coherent_extract_loop) simp

lemma coherent_AnalyzeBoundAggregate:
  "coherent r \<Longrightarrow> coherent (AnalyzeBoundAggregate name d f r)"
  unfolding AnalyzeBoundAggregate_def Let_def by simp

lemma coherent_AnalyzeAggregateExpression:
  "coherent r \<Longrightarrow> coherent (AnalyzeAggregateExpression e r)"
  by (simp add: AnalyzeAggregateExpression_def coherent_AnalyzeBoundAggregate split: Expression.splits)

lemma fold_invariant: "P r \<Longrightarrow> (\<And>x r. x \<in> set xs \<Longrightarrow> P r \<Longrightarrow> P (f x r)) \<Longrightarrow> P (fold f xs r)"
  by (induction xs arbitrary: r) auto

lemma coherent_AnalyzeAggregate: "coherent r \<Longrightarrow> coherent (AnalyzeAggregate node r)"
proof -
  assume r: "coherent r"
  define r1 where "r1 = (let r = r\<lparr>found_aggregation := True\<rparr>
     in if 1 < grouping_sets (op_info node) then r\<lparr>found_grouping_sets := True\<rparr> else r)"
  have "coherent r1" using r by (simp add: r1_def Let_def)
  then have "coherent (fold AnalyzeAggregateExpression (expressions node) r1)"
    by (rule fold_invariant [where P = coherent]) (rule coherent_AnalyzeAggregateExpression)
  then have "coherent (mark_volatile (groups (op_info node))
      (fold AnalyzeAggregateExpression (expressions node) r1))" by simp
  then show ?thesis
    unfolding AnalyzeAggregate_def r1_def Let_def by simp
qed

lemma coherent_AddPartition: "coherent r \<Longrightarrow> coherent (AddPartition p r)"
  by (simp add: AddPartition_def split: prod.split)

lemma coherent_AnalyzeWindow: "coherent r \<Longrightarrow> coherent (AnalyzeWindow node r)"
proof -
  have step: "coherent r \<Longrightarrow> coherent (AnalyzeWindowExpression e r)" for e r
    by (cases e) (auto intro: fold_invariant [where P = coherent] coherent_AddPartition)
  assume "coherent r"
  then have "coherent (r\<lparr>found_window := True\<rparr>)" by simp
  then show ?thesis
    unfolding AnalyzeWindow_def by (intro fold_invariant [where P = coherent] step coherent_mark_volatile)
qed

lemma coherent_AnalyzeTopN: "coherent r \<Longrightarrow> coherent (AnalyzeTopN node r)"
proof -
  define r1 where "r1 = r\<lparr>found_top_k := True, top_k_limit := top_limit (op_info node),
      top_k_offset := top_offset (op_info node)\<rparr>"
  obtain r2 ok where r2: "ExtractOrderBy (orders (op_info node)) r1 = (r2, ok)" by fastforce
  assume "coherent r"
  then have "coherent r1" by (simp add: r1_def)
  from coherent_ExtractOrderBy [OF this, of "orders (op_info node)"] have "coherent r2" by (simp add: r2)
  then have "coherent (if ok then r2 else r2\<lparr>incremental_compatible := False, found_unsupported_order_by := True\<rparr>)"
    by simp
  moreover have "AnalyzeTopN node r =
      (if ok then r2 else r2\<lparr>incremental_compatible := False, found_unsupported_order_by := True\<rparr>)"
    unfolding AnalyzeTopN_def Let_def r1_def [symmetric] r2 by simp
  ultimately show ?thesis by simp
qed

lemma coherent_MergeCompatibility:
  "coherent r \<Longrightarrow> coherent b \<Longrightarrow> coherent (MergeCompatibilityAndNonLocalFacts r b)"
  unfolding coherence MergeCompatibilityAndNonLocalFacts_def by simp blast

lemma coherent_AnalyzeJoin: "coherent r \<Longrightarrow> coherent (AnalyzeJoin node r)"
  unfolding AnalyzeJoin_def Let_def by (simp split: option.split)

lemma coherent_analyze_here: "coherent r \<Longrightarrow> coherent (analyze_here node r)"
proof -
  assume r: "coherent r"
  have "coherent (AnalyzeFilter node r)"
    unfolding AnalyzeFilter_def Let_def using r by (simp split: list.split)
  moreover have "coherent (AnalyzeProjection node r)"
    unfolding AnalyzeProjection_def Let_def using r by simp
  moreover have "coherent (AnalyzeUnion node r)"
    unfolding AnalyzeUnion_def using r by simp
  moreover have "coherent (AnalyzeSample node r)"
    unfolding AnalyzeSample_def Let_def using r by simp
  moreover have "coherent (AnalyzeDistinct node r)"
    unfolding AnalyzeDistinct_def Let_def using r by simp
  moreover have "coherent (AnalyzePositionalJoin r)"
    unfolding AnalyzePositionalJoin_def using r by simp
  moreover have "coherent (AnalyzeOrderBy node r)"
    using r by (simp add: AnalyzeOrderBy_def coherent_ExtractOrderBy)
  moreover have "coherent (AnalyzeLimit node r)"
    unfolding AnalyzeLimit_def Let_def using r by (simp split: option.split)
  moreover have "coherent (r\<lparr>incremental_compatible := False, found_unsupported_operator := True\<rparr>)"
    by simp
  ultimately show ?thesis
    using r coherent_AnalyzeJoin [OF r] coherent_AnalyzeAggregate [OF r] coherent_AnalyzeWindow [OF r]
      coherent_AnalyzeTopN [OF r] coherent_mark_volatile [OF r]
    unfolding analyze_here_def Let_def by presburger
qed

lemma coherent_InitialAnalysis: "coherent InitialAnalysis"
  by (simp add: InitialAnalysis_def coherence)

lemma coherent_AnalyzeNode: "coherent r \<Longrightarrow> coherent (AnalyzeNode node r)"
proof (induction node r rule: AnalyzeNode.induct)
  case (1 node r)
  show ?case
  proof (cases "op_type node = LOGICAL_MATERIALIZED_CTE")
    case cte: True
    show ?thesis
    proof (cases "\<exists>body outer rest. children node = body # outer # rest")
      case True
      then obtain body outer rest where cs: "children node = body # outer # rest" by blast
      have r1: "coherent (AnalyzeNode outer r)" using 1 cte cs by simp
      have "coherent (AnalyzeNode body (AnalyzeNode outer r))"
        if "\<not> found_aggregation (AnalyzeNode outer r) \<and> \<not> found_distinct (AnalyzeNode outer r) \<and>
            \<not> found_join (AnalyzeNode outer r)"
        using "1.IH"(2) [OF cte cs refl refl refl that r1] .
      moreover have "coherent (AnalyzeNode body InitialAnalysis)"
        if "\<not> (\<not> found_aggregation (AnalyzeNode outer r) \<and> \<not> found_distinct (AnalyzeNode outer r) \<and>
            \<not> found_join (AnalyzeNode outer r))"
        using "1.IH"(3) [OF cte cs refl refl refl that coherent_InitialAnalysis] .
      ultimately show ?thesis
        using cte cs coherent_MergeCompatibility [OF r1]
        by (subst AnalyzeNode.simps) (simp add: Let_def del: de_Morgan_conj)
    next
      case False
      then have "AnalyzeNode node r = r"
        using cte by (subst AnalyzeNode.simps) (auto split: list.split)
      with 1 show ?thesis by simp
    qed
  next
    case nocte: False
    show ?thesis
    proof (cases "op_type node \<in> {LOGICAL_TOP_N, LOGICAL_ORDER_BY, LOGICAL_LIMIT}")
      case True
      show ?thesis
      proof (cases "children node")
        case Nil
        with nocte True coherent_analyze_here [OF "1.prems"] show ?thesis
          by (subst AnalyzeNode.simps) simp
      next
        case (Cons c cs)
        have "coherent (AnalyzeNode c (analyze_here node r))"
          using "1.IH"(4) [OF nocte True Cons coherent_analyze_here [OF "1.prems"]] .
        with nocte True Cons show ?thesis by (subst AnalyzeNode.simps) simp
      qed
    next
      case False
      have "coherent (fold AnalyzeNode (children node) (analyze_here node r))"
        by (rule fold_invariant [where P = coherent]) (use 1 nocte False coherent_analyze_here in \<open>auto\<close>)
      with nocte False show ?thesis by (subst AnalyzeNode.simps) simp
    qed
  qed
qed

section \<open>What an accepted plan looks like\<close>

function plan_operators :: "LogicalOperator \<Rightarrow> LogicalOperator list" where
  "plan_operators op = op # concat (map plan_operators (children op))"
  by pat_completeness auto
termination by (relation "measure size") (auto intro: children_size)

declare plan_operators.simps [simp del]

text \<open>The number of children the operator classes of the database have.\<close>

definition arity_ok :: "LogicalOperator \<Rightarrow> bool" where
  "arity_ok op \<longleftrightarrow>
     (op_type op = LOGICAL_MATERIALIZED_CTE \<longrightarrow> length (children op) = 2) \<and>
     (op_type op \<in> {LOGICAL_TOP_N, LOGICAL_ORDER_BY, LOGICAL_LIMIT} \<longrightarrow> length (children op) = 1)"

fun aggregate_ok :: "Expression \<Rightarrow> bool" where
  "aggregate_ok (BoundAggregate h name d args fi) =
     ((name \<in> set GetSupportedAggregates \<or> name = ''first'') \<and> (fi \<noteq> None \<longrightarrow> name = ''list''))"
| "aggregate_ok e = True"

definition operator_ok :: "LogicalOperator \<Rightarrow> bool" where
  "operator_ok op \<longleftrightarrow>
     op_type op \<in> {LOGICAL_CREATE_TABLE, LOGICAL_INSERT, LOGICAL_DUMMY_SCAN, LOGICAL_GET,
       LOGICAL_EXPRESSION_GET, LOGICAL_CHUNK_GET, LOGICAL_DELIM_GET, LOGICAL_CTE_REF,
       LOGICAL_MATERIALIZED_CTE, LOGICAL_UNNEST, LOGICAL_FILTER, LOGICAL_PROJECTION, LOGICAL_UNION,
       LOGICAL_SAMPLE, LOGICAL_DISTINCT, LOGICAL_COMPARISON_JOIN, LOGICAL_ASOF_JOIN,
       LOGICAL_ANY_JOIN, LOGICAL_DEPENDENT_JOIN, LOGICAL_DELIM_JOIN, LOGICAL_JOIN,
       LOGICAL_CROSS_PRODUCT, LOGICAL_POSITIONAL_JOIN, LOGICAL_AGGREGATE_AND_GROUP_BY,
       LOGICAL_WINDOW, LOGICAL_TOP_N, LOGICAL_ORDER_BY, LOGICAL_LIMIT} \<and>
     (op_type op \<in> {LOGICAL_UNNEST, LOGICAL_FILTER, LOGICAL_PROJECTION, LOGICAL_UNION,
        LOGICAL_DISTINCT, LOGICAL_WINDOW} \<longrightarrow> \<not> HasVolatileExpression (expressions op)) \<and>
     (op_type op = LOGICAL_PROJECTION \<longrightarrow> \<not> HasNonFoldableUnnestExpression (expressions op)) \<and>
     (op_type op = LOGICAL_SAMPLE \<longrightarrow> sample_seed_valid (op_info op)) \<and>
     (op_type op \<in> {LOGICAL_COMPARISON_JOIN, LOGICAL_ASOF_JOIN, LOGICAL_ANY_JOIN,
        LOGICAL_DEPENDENT_JOIN, LOGICAL_DELIM_JOIN, LOGICAL_JOIN, LOGICAL_CROSS_PRODUCT} \<longrightarrow>
        join_type (op_info op) \<notin> {Some JOIN_RIGHT_SEMI, Some JOIN_RIGHT_ANTI, Some JOIN_INVALID}) \<and>
     (op_type op = LOGICAL_AGGREGATE_AND_GROUP_BY \<longrightarrow>
        list_all aggregate_ok (expressions op) \<and> \<not> HasVolatileExpression (groups (op_info op))) \<and>
     (op_type op = LOGICAL_TOP_N \<longrightarrow> list_all (\<lambda>(e, d). OrderByColumnName e \<noteq> []) (orders (op_info op)))"

lemma compatible_mark_volatile [simp]:
  "incremental_compatible (mark_volatile es r) \<longleftrightarrow> incremental_compatible r \<and> \<not> HasVolatileExpression es"
  by (simp add: mark_volatile_def)

lemma compatible_extract_loop:
  "incremental_compatible (fst (extract_order_loop os r)) = incremental_compatible r"
  "snd (extract_order_loop os r) = list_all (\<lambda>(e, d). OrderByColumnName e \<noteq> []) os"
  by (induction os r rule: extract_order_loop.induct) (simp_all add: Let_def)

lemma compatible_ExtractOrderBy [simp]:
  "incremental_compatible (fst (ExtractOrderBy os r)) = incremental_compatible r"
  "snd (ExtractOrderBy os r) = list_all (\<lambda>(e, d). OrderByColumnName e \<noteq> []) os"
  by (simp_all add: ExtractOrderBy_def compatible_extract_loop)

lemma compatible_AnalyzeBoundAggregate:
  "incremental_compatible (AnalyzeBoundAggregate name d f r) \<Longrightarrow>
     incremental_compatible r \<and> (name \<in> set GetSupportedAggregates \<or> name = ''first'') \<and>
     (f \<longrightarrow> name = ''list'')"
  unfolding AnalyzeBoundAggregate_def Let_def by (simp split: if_split_asm)

lemma compatible_AnalyzeAggregateExpression:
  "incremental_compatible (AnalyzeAggregateExpression e r) \<Longrightarrow> incremental_compatible r \<and> aggregate_ok e"
  by (cases e) (auto simp: AnalyzeAggregateExpression_def dest: compatible_AnalyzeBoundAggregate)

lemma compatible_fold:
  assumes "\<And>x r. x \<in> set xs \<Longrightarrow> incremental_compatible (f x r) \<Longrightarrow> incremental_compatible r \<and> P x"
  shows "incremental_compatible (fold f xs r) \<Longrightarrow> incremental_compatible r \<and> list_all P xs"
  using assms
proof (induction xs arbitrary: r)
  case (Cons x xs)
  then show ?case by (metis fold_simps(2) list.pred_inject(2) list.set_intros(1) list.set_intros(2))
qed simp

lemma compatible_AnalyzeAggregate:
  assumes "incremental_compatible (AnalyzeAggregate node r)"
  shows "incremental_compatible r \<and> list_all aggregate_ok (expressions node) \<and>
         \<not> HasVolatileExpression (groups (op_info node))"
proof -
  define r1 where "r1 = (let r = r\<lparr>found_aggregation := True\<rparr>
     in if 1 < grouping_sets (op_info node) then r\<lparr>found_grouping_sets := True\<rparr> else r)"
  have "incremental_compatible (mark_volatile (groups (op_info node))
      (fold AnalyzeAggregateExpression (expressions node) r1))"
    using assms unfolding AnalyzeAggregate_def r1_def Let_def by (simp split: if_split_asm)
  then have "incremental_compatible (fold AnalyzeAggregateExpression (expressions node) r1)"
    and "\<not> HasVolatileExpression (groups (op_info node))" by simp_all
  moreover from this(1) have "incremental_compatible r1 \<and> list_all aggregate_ok (expressions node)"
    using compatible_fold [of "expressions node" AnalyzeAggregateExpression aggregate_ok]
      compatible_AnalyzeAggregateExpression by blast
  moreover have "incremental_compatible r1 = incremental_compatible r" by (simp add: r1_def Let_def)
  ultimately show ?thesis by simp
qed

lemma compatible_AnalyzeWindow:
  assumes "incremental_compatible (AnalyzeWindow node r)"
  shows "incremental_compatible r \<and> \<not> HasVolatileExpression (expressions node)"
proof -
  have part: "incremental_compatible (AddPartition p r) = incremental_compatible r" for p r
    by (simp add: AddPartition_def split: prod.split)
  have "incremental_compatible (fold AddPartition ps r) = incremental_compatible r" for ps r
    by (induction ps arbitrary: r) (simp_all add: part)
  then have "incremental_compatible (AnalyzeWindowExpression e r) = incremental_compatible r" for e r
    by (cases e) simp_all
  then have "incremental_compatible (fold AnalyzeWindowExpression es r) = incremental_compatible r" for es r
    by (induction es arbitrary: r) simp_all
  with assms show ?thesis by (simp add: AnalyzeWindow_def)
qed

lemma compatible_AnalyzeJoin:
  assumes "incremental_compatible (AnalyzeJoin node r)"
  shows "incremental_compatible r \<and>
    join_type (op_info node) \<notin> {Some JOIN_RIGHT_SEMI, Some JOIN_RIGHT_ANTI, Some JOIN_INVALID}"
proof (cases "join_type (op_info node)")
  case None
  with assms show ?thesis unfolding AnalyzeJoin_def Let_def by (simp split: if_split_asm)
next
  case (Some jt)
  with assms show ?thesis
    unfolding AnalyzeJoin_def Let_def by (cases jt) (simp_all split: if_split_asm)
qed

lemma compatible_AnalyzeTopN:
  "incremental_compatible (AnalyzeTopN node r) \<Longrightarrow>
     incremental_compatible r \<and> list_all (\<lambda>(e, d). OrderByColumnName e \<noteq> []) (orders (op_info node))"
  unfolding AnalyzeTopN_def Let_def
  by (simp add: case_prod_beta split: if_split_asm)

lemma compatible_analyze_here:
  assumes "incremental_compatible (analyze_here node r)"
  shows "incremental_compatible r \<and> operator_ok node"
proof -
  have "incremental_compatible (AnalyzeFilter node r) \<Longrightarrow>
      incremental_compatible r \<and> \<not> HasVolatileExpression (expressions node)"
    unfolding AnalyzeFilter_def Let_def by (simp split: list.split_asm if_split_asm)
  moreover have "incremental_compatible (AnalyzeProjection node r) \<Longrightarrow>
      incremental_compatible r \<and> \<not> HasVolatileExpression (expressions node) \<and>
      \<not> HasNonFoldableUnnestExpression (expressions node)"
    unfolding AnalyzeProjection_def Let_def by (simp split: if_split_asm)
  moreover have "incremental_compatible (AnalyzeUnion node r) \<Longrightarrow>
      incremental_compatible r \<and> \<not> HasVolatileExpression (expressions node)"
    unfolding AnalyzeUnion_def by (simp split: if_split_asm)
  moreover have "incremental_compatible (AnalyzeSample node r) \<Longrightarrow>
      incremental_compatible r \<and> sample_seed_valid (op_info node)"
    unfolding AnalyzeSample_def Let_def by (simp split: if_split_asm)
  moreover have "incremental_compatible (AnalyzeDistinct node r) \<Longrightarrow>
      incremental_compatible r \<and> \<not> HasVolatileExpression (expressions node)"
    unfolding AnalyzeDistinct_def Let_def by simp
  moreover have "incremental_compatible (AnalyzePositionalJoin r) = incremental_compatible r"
    by (simp add: AnalyzePositionalJoin_def)
  moreover have "incremental_compatible (AnalyzeOrderBy node r) = incremental_compatible r"
    by (simp add: AnalyzeOrderBy_def)
  moreover have "incremental_compatible (AnalyzeLimit node r) = incremental_compatible r"
    unfolding AnalyzeLimit_def Let_def by (simp split: option.split)
  moreover note here = assms [unfolded analyze_here_def Let_def]
  ultimately show ?thesis
    using compatible_AnalyzeJoin [of node r] compatible_AnalyzeAggregate [of node r]
      compatible_AnalyzeWindow [of node r] compatible_AnalyzeTopN [of node r]
    by (cases "op_type node") (simp_all add: operator_ok_def)
qed

lemma plan_operators_iff:
  "list_all P (plan_operators op) \<longleftrightarrow> P op \<and> (\<forall>c \<in> set (children op). list_all P (plan_operators c))"
  by (subst plan_operators.simps) (auto simp: list_all_iff)

lemma operator_ok_CTE: "op_type op = LOGICAL_MATERIALIZED_CTE \<Longrightarrow> operator_ok op"
  by (simp add: operator_ok_def)

lemma compatible_AnalyzeNode:
  "incremental_compatible (AnalyzeNode node r) \<Longrightarrow> list_all arity_ok (plan_operators node) \<Longrightarrow>
     incremental_compatible r \<and> list_all operator_ok (plan_operators node)"
proof (induction node r rule: AnalyzeNode.induct)
  case (1 node r)
  have arity: "arity_ok node" "c \<in> set (children node) \<Longrightarrow> list_all arity_ok (plan_operators c)" for c
    using "1.prems"(2) plan_operators_iff by blast+
  show ?case
  proof (cases "op_type node = LOGICAL_MATERIALIZED_CTE")
    case cte: True
    then obtain body outer where cs: "children node = [body, outer]"
      using arity(1) by (auto simp: arity_ok_def length_Suc_conv numeral_2_eq_2)
    define r1 where "r1 = AnalyzeNode outer r"
    have ab: "list_all arity_ok (plan_operators body)" "list_all arity_ok (plan_operators outer)"
      using arity(2) cs by simp_all
    have "incremental_compatible r1 \<and> list_all operator_ok (plan_operators body)"
    proof (cases "\<not> found_aggregation r1 \<and> \<not> found_distinct r1 \<and> \<not> found_join r1")
      case True
      then have "incremental_compatible (AnalyzeNode body r1)"
        using "1.prems"(1) cte cs unfolding r1_def by (subst (asm) AnalyzeNode.simps) (simp add: Let_def)
      with "1.IH"(2) [OF cte cs refl r1_def refl True _ ab(1)] show ?thesis by simp
    next
      case False
      then have "incremental_compatible (MergeCompatibilityAndNonLocalFacts r1 (AnalyzeNode body InitialAnalysis))"
        using "1.prems"(1) cte cs unfolding r1_def
        by (subst (asm) AnalyzeNode.simps) (simp add: Let_def del: de_Morgan_conj)
      then have "incremental_compatible r1" "incremental_compatible (AnalyzeNode body InitialAnalysis)"
        by (simp_all add: MergeCompatibilityAndNonLocalFacts_def)
      with "1.IH"(3) [OF cte cs refl r1_def refl False _ ab(1)] show ?thesis by simp
    qed
    moreover from this have "incremental_compatible r \<and> list_all operator_ok (plan_operators outer)"
      using "1.IH"(1) [OF cte cs refl _ ab(2)] by (simp add: r1_def)
    ultimately show ?thesis using cs operator_ok_CTE [OF cte] by (subst plan_operators_iff) simp
  next
    case nocte: False
    show ?thesis
    proof (cases "op_type node \<in> {LOGICAL_TOP_N, LOGICAL_ORDER_BY, LOGICAL_LIMIT}")
      case True
      then obtain c where c: "children node = [c]"
        using arity(1) by (auto simp: arity_ok_def length_Suc_conv)
      have "incremental_compatible (AnalyzeNode c (analyze_here node r))"
        using "1.prems"(1) nocte True c by (subst (asm) AnalyzeNode.simps) simp
      then have "incremental_compatible (analyze_here node r) \<and> list_all operator_ok (plan_operators c)"
        using "1.IH"(4) [OF nocte True c] arity(2) c by simp
      with compatible_analyze_here show ?thesis by (subst plan_operators_iff) (use c in auto)
    next
      case False
      have "incremental_compatible (fold AnalyzeNode (children node) (analyze_here node r))"
        using "1.prems"(1) nocte False by (subst (asm) AnalyzeNode.simps) simp
      then have "incremental_compatible (analyze_here node r) \<and>
          list_all (\<lambda>c. list_all operator_ok (plan_operators c)) (children node)"
        by (rule compatible_fold [rotated]) (use "1.IH"(5) [OF nocte False] arity(2) in blast)
      with compatible_analyze_here show ?thesis by (subst plan_operators_iff) (auto simp: list_all_iff)
    qed
  qed
qed

section \<open>Properties\<close>

text \<open>The plan analysis refuses incremental maintenance exactly when it has recorded
  one of the seven reasons, so the classifier can always name why a view falls back to full
  refresh.\<close>

theorem verdict_has_reason:
  "ValidateIncrementalPlan plan = (\<not> reason_found (AnalyzePlan plan))"
  using coherent_AnalyzeNode [OF coherent_InitialAnalysis, of plan]
  by (auto simp: ValidateIncrementalPlan_def AnalyzePlan_def coherent_def)


lemmas analysis_eval = ValidateIncrementalPlan_def AnalyzePlan_def AnalyzeNode.simps analyze_here_def
  InitialAnalysis_def plan_operators.simps arity_ok_def no_info_def scan_of_def join_of_def
  AnalyzeJoin_def AnalyzeAggregate_def AnalyzeAggregateExpression_def AnalyzeBoundAggregate_def
  mark_volatile_def HasVolatileExpression_def GetSupportedAggregates_def Let_def


text \<open>A plan that sums a volatile function.\<close>

definition sum_random_plan :: LogicalOperator where
  "sum_random_plan =
     LogicalOp LOGICAL_AGGREGATE_AND_GROUP_BY (no_info\<lparr>group_index := 5\<rparr>)
       [BoundAggregate \<lparr>expr_alias = [], GetName = ''sum'', IsFoldable = False\<rparr> ''sum'' False
          [BoundFunction \<lparr>expr_alias = [], GetName = ''random'', IsFoldable = False\<rparr> ''random'' False []]
          None]
       [scan_of ''events'' 0]"

text \<open>The expressions of an aggregate are not among those the checker reads: a view over
  \<open>sum(random())\<close> is accepted for incremental maintenance.\<close>

theorem volatile_aggregate_accepted:
  "ValidateIncrementalPlan sum_random_plan \<and> HasVolatileExpression (expressions sum_random_plan)"
  by (simp add: analysis_eval sum_random_plan_def EnumerateExpression.simps)

end
