(* ===== verification/View_Model.thy ===== *)
theory View_Model
  imports Checker
begin

text \<open>
  The data of the view classifier and the delta model: \<open>core/ivm_view_classifier.hpp\<close>, the
  plan facts of \<open>core/parser_plan_helpers.hpp\<close> and the auxiliary-state metadata of
  \<open>core/refresh_metadata.hpp\<close>. The constants of a scoped enumeration carry a prefix
  (\<open>Kind_JOIN\<close> is \<open>DeltaModelNodeKind::JOIN\<close>), and so do record fields whose C++ name occurs
  in several structs.
\<close>

section \<open>Enumerations\<close>

datatype DeltaStrategyReason =
    Why_UNION_OVER_AGGREGATE | Why_UNION_DISTINCT_GROUP_RECOMPUTE
  | Why_JOIN_KEY_GROUP_FALLBACK | Why_DELIM_AGGREGATE_GROUP_FALLBACK
  | Why_SCALAR_DELIM_PROJECTION_GROUP_FALLBACK | Why_JOIN_AGGREGATE_PROJECTION_FALLBACK
  | Why_NESTED_AGGREGATE_GROUP_FALLBACK | Why_REPEATED_CTE_AGGREGATE_GROUP_FALLBACK
  | Why_SEMI_ANTI_AGGREGATE_GROUP_FALLBACK | Why_OUTER_JOIN_AGGREGATE_RECOMPUTE
  | Why_ASOF_CURRENT_DIFF_RECOMPUTE | Why_SAMPLE_CURRENT_DIFF_RECOMPUTE
  | Why_POSITIONAL_CURRENT_DIFF_RECOMPUTE

datatype DeltaModelFeature =
    Feature_LINEAR | Feature_BILINEAR | Feature_OUTER_JOIN_STATEFUL
  | Feature_AGGREGATE_LINEAR | Feature_AGGREGATE_NON_LINEAR | Feature_AGGREGATE_HAVING
  | Feature_COUNT_DISTINCT_STATEFUL | Feature_FILTERED_LIST_STATEFUL
  | Feature_GROUPING_SETS_STATEFUL | Feature_DISTINCT_STATEFUL
  | Feature_WINDOW_AFFECTED_PARTITION | Feature_SEMI_ANTI_STATEFUL | Feature_ASOF_STATEFUL
  | Feature_SAMPLE_GLOBAL_RECOMPUTE | Feature_POSITIONAL_GLOBAL_RECOMPUTE
  | Feature_CURRENT_DIFF_RECOMPUTE | Feature_FULL_ONLY

datatype DeltaModelNodeKind =
    Kind_SCAN | Kind_FILTER | Kind_PROJECT | Kind_JOIN | Kind_AGGREGATE | Kind_WINDOW
  | Kind_DISTINCT | Kind_SEMI_ANTI | Kind_UNION | Kind_TOP_K | Kind_UNNEST | Kind_ASOF_JOIN
  | Kind_POSITIONAL_JOIN | Kind_SAMPLE | Kind_CTE | Kind_CONSTANT | Kind_OTHER

datatype DeltaRuleKind =
    Rule_LINEAR | Rule_PRODUCT | Rule_STATEFUL | Rule_NON_LINEAR | Rule_FULL_ONLY

datatype DeltaMaintenanceMode =
    Mode_DELTA_ONLY | Mode_DELTA_WITH_STATE | Mode_AFFECTED_DOMAIN_RECOMPUTE
  | Mode_FULL_RECOMPUTE

datatype DeltaMaintenanceStateKind =
    State_NONE | State_CURRENT_RELATION | State_MV_DATA | State_AUX_TABLE

datatype DeltaUnsupportedReason =
    No_UNSUPPORTED_SET_OPERATION | No_UNSUPPORTED_PIVOT | No_UNSUPPORTED_FUNCTION
  | No_UNSUPPORTED_UNNEST | No_UNSUPPORTED_AGGREGATE | No_UNSUPPORTED_FILTERED_AGGREGATE
  | No_UNSUPPORTED_JOIN_TYPE | No_UNSUPPORTED_ORDER_BY | No_UNSUPPORTED_OPERATOR
  | No_GROUPING_SETS_NO_KEYS | No_FILTERED_LIST_NO_KEYS | No_SEMI_ANTI_WITH_AGGREGATE
  | No_SEMI_ANTI_MISSING_AUX | No_UNRECOGNIZED_PATTERN

datatype DeltaUpdateSemantics =
    Upd_APPEND_ONLY_SAFE | Upd_DELETE_SENSITIVE | Upd_UPDATE_SENSITIVE
  | Upd_MINMAX_INSERT_ONLY_SAFE | Upd_PROJECTION_DELETE_SKIP_SAFE
  | Upd_AGGREGATE_DELETE_SKIP_SAFE

datatype DeltaAuxStateKind =
    Aux_DISTINCT_COUNT | Aux_FILTERED_GROUP_COUNT | Aux_SEMI_ANTI_MATCH

datatype DeltaAffectedDomainKind =
    Domain_GROUP | Domain_WINDOW_PARTITION | Domain_PROJECTION_KEY
  | Domain_SEMI_ANTI_PREDICATE

datatype DeltaLineageKind =
    Lineage_WINDOW_PARTITION | Lineage_PROJECTION_KEY | Lineage_SEMI_ANTI_PREDICATE

fun DeltaStrategyReasonName :: "DeltaStrategyReason \<Rightarrow> string" where
  "DeltaStrategyReasonName Why_UNION_OVER_AGGREGATE = ''UNION_OVER_AGGREGATE''"
| "DeltaStrategyReasonName Why_UNION_DISTINCT_GROUP_RECOMPUTE = ''UNION_DISTINCT_GROUP_RECOMPUTE''"
| "DeltaStrategyReasonName Why_JOIN_KEY_GROUP_FALLBACK = ''JOIN_KEY_GROUP_FALLBACK''"
| "DeltaStrategyReasonName Why_DELIM_AGGREGATE_GROUP_FALLBACK = ''DELIM_AGGREGATE_GROUP_FALLBACK''"
| "DeltaStrategyReasonName Why_SCALAR_DELIM_PROJECTION_GROUP_FALLBACK = ''SCALAR_DELIM_PROJECTION_GROUP_FALLBACK''"
| "DeltaStrategyReasonName Why_JOIN_AGGREGATE_PROJECTION_FALLBACK = ''JOIN_AGGREGATE_PROJECTION_FALLBACK''"
| "DeltaStrategyReasonName Why_NESTED_AGGREGATE_GROUP_FALLBACK = ''NESTED_AGGREGATE_GROUP_FALLBACK''"
| "DeltaStrategyReasonName Why_REPEATED_CTE_AGGREGATE_GROUP_FALLBACK = ''REPEATED_CTE_AGGREGATE_GROUP_FALLBACK''"
| "DeltaStrategyReasonName Why_SEMI_ANTI_AGGREGATE_GROUP_FALLBACK = ''SEMI_ANTI_AGGREGATE_GROUP_FALLBACK''"
| "DeltaStrategyReasonName Why_OUTER_JOIN_AGGREGATE_RECOMPUTE = ''OUTER_JOIN_AGGREGATE_RECOMPUTE''"
| "DeltaStrategyReasonName Why_ASOF_CURRENT_DIFF_RECOMPUTE = ''ASOF_CURRENT_DIFF_RECOMPUTE''"
| "DeltaStrategyReasonName Why_SAMPLE_CURRENT_DIFF_RECOMPUTE = ''SAMPLE_CURRENT_DIFF_RECOMPUTE''"
| "DeltaStrategyReasonName Why_POSITIONAL_CURRENT_DIFF_RECOMPUTE = ''POSITIONAL_CURRENT_DIFF_RECOMPUTE''"

fun DeltaModelFeatureName :: "DeltaModelFeature \<Rightarrow> string" where
  "DeltaModelFeatureName Feature_LINEAR = ''LINEAR''"
| "DeltaModelFeatureName Feature_BILINEAR = ''BILINEAR''"
| "DeltaModelFeatureName Feature_OUTER_JOIN_STATEFUL = ''OUTER_JOIN_STATEFUL''"
| "DeltaModelFeatureName Feature_AGGREGATE_LINEAR = ''AGGREGATE_LINEAR''"
| "DeltaModelFeatureName Feature_AGGREGATE_NON_LINEAR = ''AGGREGATE_NON_LINEAR''"
| "DeltaModelFeatureName Feature_AGGREGATE_HAVING = ''AGGREGATE_HAVING''"
| "DeltaModelFeatureName Feature_COUNT_DISTINCT_STATEFUL = ''COUNT_DISTINCT_STATEFUL''"
| "DeltaModelFeatureName Feature_FILTERED_LIST_STATEFUL = ''FILTERED_LIST_STATEFUL''"
| "DeltaModelFeatureName Feature_GROUPING_SETS_STATEFUL = ''GROUPING_SETS_STATEFUL''"
| "DeltaModelFeatureName Feature_DISTINCT_STATEFUL = ''DISTINCT_STATEFUL''"
| "DeltaModelFeatureName Feature_WINDOW_AFFECTED_PARTITION = ''WINDOW_AFFECTED_PARTITION''"
| "DeltaModelFeatureName Feature_SEMI_ANTI_STATEFUL = ''SEMI_ANTI_STATEFUL''"
| "DeltaModelFeatureName Feature_ASOF_STATEFUL = ''ASOF_STATEFUL''"
| "DeltaModelFeatureName Feature_SAMPLE_GLOBAL_RECOMPUTE = ''SAMPLE_GLOBAL_RECOMPUTE''"
| "DeltaModelFeatureName Feature_POSITIONAL_GLOBAL_RECOMPUTE = ''POSITIONAL_GLOBAL_RECOMPUTE''"
| "DeltaModelFeatureName Feature_CURRENT_DIFF_RECOMPUTE = ''CURRENT_DIFF_RECOMPUTE''"
| "DeltaModelFeatureName Feature_FULL_ONLY = ''FULL_ONLY''"

fun DeltaModelNodeKindName :: "DeltaModelNodeKind \<Rightarrow> string" where
  "DeltaModelNodeKindName Kind_SCAN = ''SCAN''"
| "DeltaModelNodeKindName Kind_FILTER = ''FILTER''"
| "DeltaModelNodeKindName Kind_PROJECT = ''PROJECT''"
| "DeltaModelNodeKindName Kind_JOIN = ''JOIN''"
| "DeltaModelNodeKindName Kind_AGGREGATE = ''AGGREGATE''"
| "DeltaModelNodeKindName Kind_WINDOW = ''WINDOW''"
| "DeltaModelNodeKindName Kind_DISTINCT = ''DISTINCT''"
| "DeltaModelNodeKindName Kind_SEMI_ANTI = ''SEMI_ANTI''"
| "DeltaModelNodeKindName Kind_UNION = ''UNION''"
| "DeltaModelNodeKindName Kind_TOP_K = ''TOP_K''"
| "DeltaModelNodeKindName Kind_UNNEST = ''UNNEST''"
| "DeltaModelNodeKindName Kind_ASOF_JOIN = ''ASOF_JOIN''"
| "DeltaModelNodeKindName Kind_POSITIONAL_JOIN = ''POSITIONAL_JOIN''"
| "DeltaModelNodeKindName Kind_SAMPLE = ''SAMPLE''"
| "DeltaModelNodeKindName Kind_CTE = ''CTE''"
| "DeltaModelNodeKindName Kind_CONSTANT = ''CONSTANT''"
| "DeltaModelNodeKindName Kind_OTHER = ''OTHER''"

fun DeltaRuleKindName :: "DeltaRuleKind \<Rightarrow> string" where
  "DeltaRuleKindName Rule_LINEAR = ''LINEAR''"
| "DeltaRuleKindName Rule_PRODUCT = ''PRODUCT''"
| "DeltaRuleKindName Rule_STATEFUL = ''STATEFUL''"
| "DeltaRuleKindName Rule_NON_LINEAR = ''NON_LINEAR''"
| "DeltaRuleKindName Rule_FULL_ONLY = ''FULL_ONLY''"

fun DeltaUnsupportedReasonName :: "DeltaUnsupportedReason \<Rightarrow> string" where
  "DeltaUnsupportedReasonName No_UNSUPPORTED_SET_OPERATION = ''UNSUPPORTED_SET_OPERATION''"
| "DeltaUnsupportedReasonName No_UNSUPPORTED_PIVOT = ''UNSUPPORTED_PIVOT''"
| "DeltaUnsupportedReasonName No_UNSUPPORTED_FUNCTION = ''UNSUPPORTED_FUNCTION''"
| "DeltaUnsupportedReasonName No_UNSUPPORTED_UNNEST = ''UNSUPPORTED_UNNEST''"
| "DeltaUnsupportedReasonName No_UNSUPPORTED_AGGREGATE = ''UNSUPPORTED_AGGREGATE''"
| "DeltaUnsupportedReasonName No_UNSUPPORTED_FILTERED_AGGREGATE = ''UNSUPPORTED_FILTERED_AGGREGATE''"
| "DeltaUnsupportedReasonName No_UNSUPPORTED_JOIN_TYPE = ''UNSUPPORTED_JOIN_TYPE''"
| "DeltaUnsupportedReasonName No_UNSUPPORTED_ORDER_BY = ''UNSUPPORTED_ORDER_BY''"
| "DeltaUnsupportedReasonName No_UNSUPPORTED_OPERATOR = ''UNSUPPORTED_OPERATOR''"
| "DeltaUnsupportedReasonName No_GROUPING_SETS_NO_KEYS = ''GROUPING_SETS_NO_KEYS''"
| "DeltaUnsupportedReasonName No_FILTERED_LIST_NO_KEYS = ''FILTERED_LIST_NO_KEYS''"
| "DeltaUnsupportedReasonName No_SEMI_ANTI_WITH_AGGREGATE = ''SEMI_ANTI_WITH_AGGREGATE''"
| "DeltaUnsupportedReasonName No_SEMI_ANTI_MISSING_AUX = ''SEMI_ANTI_MISSING_AUX''"
| "DeltaUnsupportedReasonName No_UNRECOGNIZED_PATTERN = ''UNRECOGNIZED_PATTERN''"

fun DeltaUpdateSemanticsName :: "DeltaUpdateSemantics \<Rightarrow> string" where
  "DeltaUpdateSemanticsName Upd_APPEND_ONLY_SAFE = ''APPEND_ONLY_SAFE''"
| "DeltaUpdateSemanticsName Upd_DELETE_SENSITIVE = ''DELETE_SENSITIVE''"
| "DeltaUpdateSemanticsName Upd_UPDATE_SENSITIVE = ''UPDATE_SENSITIVE''"
| "DeltaUpdateSemanticsName Upd_MINMAX_INSERT_ONLY_SAFE = ''MINMAX_INSERT_ONLY_SAFE''"
| "DeltaUpdateSemanticsName Upd_PROJECTION_DELETE_SKIP_SAFE = ''PROJECTION_DELETE_SKIP_SAFE''"
| "DeltaUpdateSemanticsName Upd_AGGREGATE_DELETE_SKIP_SAFE = ''AGGREGATE_DELETE_SKIP_SAFE''"

fun DeltaAffectedDomainKindName :: "DeltaAffectedDomainKind \<Rightarrow> string" where
  "DeltaAffectedDomainKindName Domain_GROUP = ''GROUP''"
| "DeltaAffectedDomainKindName Domain_WINDOW_PARTITION = ''WINDOW_PARTITION''"
| "DeltaAffectedDomainKindName Domain_PROJECTION_KEY = ''PROJECTION_KEY''"
| "DeltaAffectedDomainKindName Domain_SEMI_ANTI_PREDICATE = ''SEMI_ANTI_PREDICATE''"

fun DeltaMaintenanceModeName :: "DeltaMaintenanceMode \<Rightarrow> string" where
  "DeltaMaintenanceModeName Mode_DELTA_ONLY = ''DELTA_ONLY''"
| "DeltaMaintenanceModeName Mode_DELTA_WITH_STATE = ''DELTA_WITH_STATE''"
| "DeltaMaintenanceModeName Mode_AFFECTED_DOMAIN_RECOMPUTE = ''AFFECTED_DOMAIN_RECOMPUTE''"
| "DeltaMaintenanceModeName Mode_FULL_RECOMPUTE = ''FULL_RECOMPUTE''"

fun DeltaMaintenanceStateKindName :: "DeltaMaintenanceStateKind \<Rightarrow> string" where
  "DeltaMaintenanceStateKindName State_NONE = ''NONE''"
| "DeltaMaintenanceStateKindName State_CURRENT_RELATION = ''CURRENT_RELATION''"
| "DeltaMaintenanceStateKindName State_MV_DATA = ''MV_DATA''"
| "DeltaMaintenanceStateKindName State_AUX_TABLE = ''AUX_TABLE''"

section \<open>Structures\<close>

record DeltaNodeMaintenance =
  mode :: DeltaMaintenanceMode
  maintenance_state :: DeltaMaintenanceStateKind

record DeltaAffectedDomain =
  domain_kind :: DeltaAffectedDomainKind
  domain_node_id :: idx_t
  key_columns :: "string list"
  domain_source_tables :: "string list"
  delta_local :: bool
  needs_base_lookup :: bool

record DeltaLineageFact =
  fact_kind :: DeltaLineageKind
  fact_node_id :: idx_t
  fact_source_table :: string
  fact_source_occurrence :: idx_t
  source_column :: string
  output_column :: string
  lookup_table :: string
  lookup_column :: string
  lookup_output_column :: string

text \<open>\<open>plan_node\<close> is the operator the node was built for, given by its path.\<close>

record DeltaModelNode =
  node_id :: idx_t
  kind :: DeltaModelNodeKind
  rule :: DeltaRuleKind
  plan_node :: "nat list option"
  node_children :: "idx_t list"
  source_table :: string
  source_occurrence :: idx_t
  source_table_index :: idx_t
  source_tables :: "string list"
  output_columns :: "string list"
  hidden_columns :: "string list"
  affected_key_columns :: "string list"
  maintenance :: DeltaNodeMaintenance
  node_update_semantics :: "DeltaUpdateSemantics list"
  node_unsupported_reasons :: "DeltaUnsupportedReason list"
  required_aux_states :: "DeltaAuxStateKind list"
  node_affected_domains :: "DeltaAffectedDomain list"
  node_lineage_facts :: "DeltaLineageFact list"

record DistinctAuxMeta =
  distinct_aux_table :: string
  distinct_cols :: "string list"
  distinct_source_exprs :: "string list"
  distinct_input_sql :: string
  distinct_source :: string
  distinct_filter :: string
  sum_arg :: string
  sum_out :: string

record SemiAntiAuxMeta =
  semi_aux_table :: string
  semi_join_type :: string
  left_table :: string
  left_alias :: string
  right_table :: string
  right_alias :: string
  predicate :: string
  post_filter :: string
  left_cols :: "string list"
  left_exprs :: "string list"
  output_cols :: "string list"

record FilteredGroupCountAuxRequirement =
  filtered_aux_table :: string
  filtered_source :: string
  group_col :: string
  sum_col :: string
  source_group_expr :: string
  source_sum_expr :: string
  output_col :: string
  comparison_op :: string
  threshold_sql :: string
  create_source :: string

record WindowPartitionLineageOp =
  op_kind :: string
  op_output_col :: string
  op_source :: string
  op_source_col :: string
  op_lookup :: string
  op_lookup_col :: string
  op_lookup_out :: string

record ProjectionKeyLineageStep =
  step_table :: string
  step_occurrence :: idx_t
  step_lookup_col :: string
  step_lookup_out :: string

record ProjectionKeyLineageArm =
  arm_source :: string
  arm_occurrence :: idx_t
  arm_source_col :: string
  arm_steps :: "ProjectionKeyLineageStep list"

record ProjectionKeyLineage =
  lineage_output_col :: string
  key_source :: string
  key_occurrence :: idx_t
  key_col :: string
  arms :: "ProjectionKeyLineageArm list"

section \<open>Plan facts and the view model\<close>

record ProjectionSourceOccurrence =
  occ_table :: string
  occurrence :: idx_t
  occ_table_index :: idx_t

text \<open>The members of \<open>CreateMVPlanFacts\<close> that the classifier and the delta model read
  themselves. \<open>occurrence_by_index\<close> keeps the last entry of a key, as the map of the code
  does.\<close>

record CreateMVPlanFacts =
  root :: "LogicalOperator option"
  analysis :: PlanAnalysis
  source_table_info :: "string list"
  first_projection :: "LogicalOperator option"
  first_comparison_join :: "LogicalOperator option"
  occurrence_by_index :: "(idx_t \<times> ProjectionSourceOccurrence) list"
  source_occurrences :: "ProjectionSourceOccurrence list"
  has_union_before_aggregate :: bool
  has_unsupported_set_operation :: bool
  has_pivot :: bool

record DeltaViewModelInput =
  facts :: CreateMVPlanFacts
  output_names :: "string list"
  distinct_aux_candidate :: "DistinctAuxMeta option"
  filtered_group_count_aux_candidate :: "FilteredGroupCountAuxRequirement option"
  semi_anti_aux_candidate :: "SemiAntiAuxMeta option"
  has_unsupported_incremental_construct :: bool
  keep_window_join_partitions :: bool
  stored_query_has_aggregate_filter :: bool
  stored_query_has_top_k :: bool
  has_hidden_minmax_having :: bool
  has_computed_minmax_aggregate_projection :: bool
  has_ducklake_source :: bool

text \<open>An auxiliary-state member whose \<open>aux_table\<close> is empty is absent; \<open>HasDistinctAux\<close> and
  its siblings test that.\<close>

record DeltaViewModel =
  model_type :: RefreshType
  strategy_reasons :: "DeltaStrategyReason list"
  group_columns :: "string list"
  model_window_columns :: "string list"
  model_aggregate_types :: "string list"
  features :: "DeltaModelFeature list"
  unsupported_reasons :: "DeltaUnsupportedReason list"
  update_semantics :: "DeltaUpdateSemantics list"
  nodes :: "DeltaModelNode list"
  affected_domains :: "DeltaAffectedDomain list"
  lineage_facts :: "DeltaLineageFact list"
  window_lineage_ops :: "WindowPartitionLineageOp list"
  projection_lineage :: ProjectionKeyLineage
  root_node :: idx_t
  full_outer_join_cols :: string
  group_recompute_affected_mode :: GroupRecomputeAffectedMode
  distinct_aux :: DistinctAuxMeta
  filtered_group_count_aux :: FilteredGroupCountAuxRequirement
  semi_anti_aux :: SemiAntiAuxMeta
  has_minmax_metadata :: bool
  distinct_at_top :: bool
  union_distinct_over_agg :: bool
  has_projection_lineage :: bool
  warn_unsupported_incremental :: bool
  warn_unrecognized_pattern :: bool

definition EmptyProjectionLineage :: ProjectionKeyLineage where
  "EmptyProjectionLineage = \<lparr>lineage_output_col = [], key_source = [], key_occurrence = 0,
     key_col = [], arms = []\<rparr>"

definition EmptyDistinctAux :: DistinctAuxMeta where
  "EmptyDistinctAux = \<lparr>distinct_aux_table = [], distinct_cols = [], distinct_source_exprs = [],
     distinct_input_sql = [], distinct_source = [], distinct_filter = [], sum_arg = [], sum_out = []\<rparr>"

definition EmptySemiAntiAux :: SemiAntiAuxMeta where
  "EmptySemiAntiAux = \<lparr>semi_aux_table = [], semi_join_type = [], left_table = [], left_alias = [],
     right_table = [], right_alias = [], predicate = [], post_filter = [], left_cols = [],
     left_exprs = [], output_cols = []\<rparr>"

definition EmptyFilteredGroupCountAux :: FilteredGroupCountAuxRequirement where
  "EmptyFilteredGroupCountAux = \<lparr>filtered_aux_table = [], filtered_source = [], group_col = [],
     sum_col = [], source_group_expr = [], source_sum_expr = [], output_col = [],
     comparison_op = [], threshold_sql = [], create_source = []\<rparr>"

definition InitialModel :: DeltaViewModel where
  "InitialModel = \<lparr>model_type = FULL_REFRESH, strategy_reasons = [], group_columns = [],
     model_window_columns = [], model_aggregate_types = [], features = [],
     unsupported_reasons = [], update_semantics = [], nodes = [], affected_domains = [],
     lineage_facts = [], window_lineage_ops = [], projection_lineage = EmptyProjectionLineage,
     root_node = INVALID_INDEX, full_outer_join_cols = [],
     group_recompute_affected_mode = SOURCE_DELTA, distinct_aux = EmptyDistinctAux,
     filtered_group_count_aux = EmptyFilteredGroupCountAux, semi_anti_aux = EmptySemiAntiAux,
     has_minmax_metadata = False, distinct_at_top = False, union_distinct_over_agg = False,
     has_projection_lineage = False, warn_unsupported_incremental = False,
     warn_unrecognized_pattern = False\<rparr>"

definition HasDistinctAux :: "DeltaViewModel \<Rightarrow> bool" where
  "HasDistinctAux model = (distinct_aux_table (distinct_aux model) \<noteq> [])"

definition HasFilteredGroupCountAux :: "DeltaViewModel \<Rightarrow> bool" where
  "HasFilteredGroupCountAux model = (filtered_aux_table (filtered_group_count_aux model) \<noteq> [])"

definition HasSemiAntiAux :: "DeltaViewModel \<Rightarrow> bool" where
  "HasSemiAntiAux model = (semi_aux_table (semi_anti_aux model) \<noteq> [])"

definition HasFeature :: "DeltaViewModel \<Rightarrow> DeltaModelFeature \<Rightarrow> bool" where
  "HasFeature model feature \<longleftrightarrow> feature \<in> set (features model)"

definition LineageEntryCount :: "DeltaViewModel \<Rightarrow> idx_t" where
  "LineageEntryCount model =
     (if window_lineage_ops model \<noteq> [] then 1 else 0) + (if has_projection_lineage model then 1 else 0)"

definition add_feature :: "DeltaModelFeature \<Rightarrow> DeltaViewModel \<Rightarrow> DeltaViewModel" where
  "add_feature f model = model\<lparr>features := add_unique (features model) f\<rparr>"

definition add_reason :: "DeltaStrategyReason \<Rightarrow> DeltaViewModel \<Rightarrow> DeltaViewModel" where
  "add_reason r model = model\<lparr>strategy_reasons := add_unique (strategy_reasons model) r\<rparr>"

definition add_unsupported :: "DeltaUnsupportedReason \<Rightarrow> DeltaViewModel \<Rightarrow> DeltaViewModel" where
  "add_unsupported r model = model\<lparr>unsupported_reasons := add_unique (unsupported_reasons model) r\<rparr>"

definition add_semantics :: "DeltaUpdateSemantics \<Rightarrow> DeltaViewModel \<Rightarrow> DeltaViewModel" where
  "add_semantics u model = model\<lparr>update_semantics := add_unique (update_semantics model) u\<rparr>"

end
