(* ===== verification/Classifier.thy ===== *)
theory Classifier
  imports View_Model
begin

text \<open>
  \<open>core/ivm_view_classifier.cpp\<close>: from the plan facts to the refresh strategy. The model is
  threaded through the builder functions in the order \<open>BuildDeltaViewModel\<close> calls them. The
  column-lineage helpers of \<open>core/parser_plan_helpers.cpp\<close> that the classifier calls are the
  record \<open>plan_helpers\<close>, an argument of the definitions that use them.
\<close>

record plan_helpers =
  DeriveGroupColumnNames :: "CreateMVPlanFacts \<Rightarrow> idx_t \<Rightarrow> nat \<Rightarrow> string list \<Rightarrow> string list"
  DeriveScalarDelimKeyColumnNames :: "CreateMVPlanFacts \<Rightarrow> string list \<Rightarrow> string list"
  DeriveAggregateGroupColumnNames :: "CreateMVPlanFacts \<Rightarrow> string list \<Rightarrow> bool \<Rightarrow> string list"
  ResolveAggregateGroupColumnsThroughJoinKeys ::
    "CreateMVPlanFacts \<Rightarrow> string list \<Rightarrow> string list \<Rightarrow> string list"
  ResolveWindowPartitionOutputNames ::
    "CreateMVPlanFacts \<Rightarrow> string list \<Rightarrow> string list \<Rightarrow> string list"
  OuterJoinAggregateNeedsRecompute :: "CreateMVPlanFacts \<Rightarrow> idx_t \<Rightarrow> bool"
  ExtractFullOuterJoinMetadata :: "CreateMVPlanFacts \<Rightarrow> string"

definition step_if :: "bool \<Rightarrow> ('a \<Rightarrow> 'a) \<Rightarrow> 'a \<Rightarrow> 'a" where
  "step_if b f x = (if b then f x else x)"

section \<open>Group columns\<close>

definition AddVisibleGroupNames :: "duckdb_env \<Rightarrow> string list \<Rightarrow> string list \<Rightarrow> string list" where
  "AddVisibleGroupNames E cols names = cols @ filter (\<lambda>n. \<not> IsInternalColumn E n) names"

text \<open>The \<open>while\<close> loop over suffixes; \<open>fuel\<close> bounds the number of rounds, and
  \<open>unused_name_fresh\<close> shows that as many rounds as there are seen names are enough.\<close>

fun unused_name :: "nat \<Rightarrow> string list \<Rightarrow> string \<Rightarrow> nat \<Rightarrow> string \<Rightarrow> string" where
  "unused_name 0 seen name suffix candidate = candidate"
| "unused_name (Suc fuel) seen name suffix candidate =
     (if candidate \<in> set seen
      then unused_name fuel seen name (suffix + 1) (name @ ''_'' @ nat_string suffix)
      else candidate)"

fun dedup_loop :: "duckdb_env \<Rightarrow> string list \<Rightarrow> string list \<Rightarrow> string list" where
  "dedup_loop E seen [] = []"
| "dedup_loop E seen (name # names) =
     (if IsInternalColumn E name then name # dedup_loop E seen names
      else (let candidate = unused_name (length seen) seen name 1 name
            in candidate # dedup_loop E (candidate # seen) names))"

definition DeduplicateGroupColumns :: "duckdb_env \<Rightarrow> string list \<Rightarrow> string list" where
  "DeduplicateGroupColumns E cols = dedup_loop E [] cols"

fun AddJoinKeyColumn :: "Expression \<Rightarrow> ColumnBinding list \<Rightarrow> ColumnBinding list" where
  "AddJoinKeyColumn (BoundColumnRef h b) keys = b # keys"
| "AddJoinKeyColumn e keys = keys"

definition join_key_cols :: "LogicalOperator \<Rightarrow> ColumnBinding list" where
  "join_key_cols join = fold (\<lambda>c keys. AddJoinKeyColumn (cond_right c) (AddJoinKeyColumn (cond_left c) keys))
     (conditions (op_info join)) []"

definition join_key_name :: "duckdb_env \<Rightarrow> expr_head \<Rightarrow> nat \<Rightarrow> string list \<Rightarrow> string" where
  "join_key_name E h expr_i names =
     (if expr_alias h \<noteq> [] then expr_alias h
      else if expr_i < length names \<and> names ! expr_i \<noteq> [] \<and> \<not> IsInternalColumn E (names ! expr_i)
      then names ! expr_i
      else GetName h)"

fun add_join_keys ::
    "duckdb_env \<Rightarrow> ColumnBinding list \<Rightarrow> string list \<Rightarrow> nat \<Rightarrow> Expression list \<Rightarrow>
     DeltaViewModel \<Rightarrow> DeltaViewModel" where
  "add_join_keys E keys names expr_i [] model = model"
| "add_join_keys E keys names expr_i (BoundColumnRef h b # es) model =
     (let col_name = join_key_name E h expr_i names
      in add_join_keys E keys names (expr_i + 1) es
        (if b \<in> set keys \<and> \<not> IsInternalColumn E col_name \<and>
            \<not> list_ex (\<lambda>existing. CIEquals E existing col_name) (group_columns model)
         then add_reason Why_JOIN_KEY_GROUP_FALLBACK
                (model\<lparr>group_columns := group_columns model @ [col_name]\<rparr>)
         else model))"
| "add_join_keys E keys names expr_i (e # es) model = add_join_keys E keys names (expr_i + 1) es model"

definition AddJoinKeyGroupColumns ::
    "duckdb_env \<Rightarrow> CreateMVPlanFacts \<Rightarrow> string list \<Rightarrow> DeltaViewModel \<Rightarrow> DeltaViewModel" where
  "AddJoinKeyGroupColumns E fs names model =
     (case (first_projection fs, first_comparison_join fs) of
        (Some proj, Some join) \<Rightarrow> add_join_keys E (join_key_cols join) names 0 (expressions proj) model
      | _ \<Rightarrow> model)"

text \<open>\<open>BuildGroupColumns\<close> in its stages: the columns of the main case, four fallbacks that
  apply while no column has been found, and the join-key and reason bookkeeping.\<close>

definition has_union_over_agg :: "CreateMVPlanFacts \<Rightarrow> bool" where
  "has_union_over_agg fs = (found_aggregation (analysis fs) \<and> has_union_before_aggregate fs)"

definition main_group_columns ::
    "duckdb_env \<Rightarrow> plan_helpers \<Rightarrow> CreateMVPlanFacts \<Rightarrow> string list \<Rightarrow> DeltaViewModel \<Rightarrow> DeltaViewModel" where
  "main_group_columns E H fs names model =
     (let a = analysis fs;
          derived = DeriveGroupColumnNames H fs (group_index_of a) (group_count a) names
      in if union_distinct_over_agg model then model\<lparr>group_columns := derived\<rparr>
         else if found_union_distinct a \<and> \<not> found_aggregation a then
           (let m = model\<lparr>group_columns := AddVisibleGroupNames E (group_columns model) names\<rparr>
            in step_if (group_columns m \<noteq> []) (add_reason Why_UNION_DISTINCT_GROUP_RECOMPUTE) m)
         else if distinct_at_top model then model\<lparr>group_columns := aggregate_columns a\<rparr>
         else if found_distinct a \<and> aggregate_columns a = []
           then model\<lparr>group_columns := aggregate_columns a\<rparr>
         else if group_count a > 0 \<and> group_index_of a \<noteq> INVALID_INDEX
           then model\<lparr>group_columns := derived\<rparr>
         else model)"

definition delim_aggregate_columns ::
    "duckdb_env \<Rightarrow> CreateMVPlanFacts \<Rightarrow> string list \<Rightarrow> DeltaViewModel \<Rightarrow> DeltaViewModel" where
  "delim_aggregate_columns E fs names model =
     (let a = analysis fs in
      if found_delim_join a \<and> found_aggregation a \<and> group_columns model = [] \<and>
         length names > length (aggregate_types a)
      then (let m = model\<lparr>group_columns := group_columns model @
                     filter (\<lambda>n. n \<noteq> [] \<and> \<not> IsInternalColumn E n)
                       (take (length names - length (aggregate_types a)) names)\<rparr>
            in step_if (group_columns m \<noteq> []) (add_reason Why_DELIM_AGGREGATE_GROUP_FALLBACK) m)
      else model)"

definition fallback_columns ::
    "duckdb_env \<Rightarrow> bool \<Rightarrow> string list \<Rightarrow> DeltaStrategyReason \<Rightarrow> DeltaViewModel \<Rightarrow> DeltaViewModel" where
  "fallback_columns E guard derived reason model =
     (if guard \<and> group_columns model = [] then
        (let before = length (group_columns model);
             m = model\<lparr>group_columns := AddVisibleGroupNames E (group_columns model) derived\<rparr>
         in step_if (length (group_columns m) > before) (add_reason reason) m)
      else model)"

definition join_columns ::
    "duckdb_env \<Rightarrow> plan_helpers \<Rightarrow> CreateMVPlanFacts \<Rightarrow> string list \<Rightarrow> DeltaViewModel \<Rightarrow> DeltaViewModel" where
  "join_columns E H fs names model =
     (let a = analysis fs;
          m = (if \<not> found_asof_join a \<and> found_join a \<and> group_count a > 0 \<and> \<not> has_union_over_agg fs
               then AddJoinKeyGroupColumns E fs names model else model);
          m = (if \<not> found_asof_join a \<and> found_join a \<and> found_aggregation a \<and> group_columns m \<noteq> []
               then m\<lparr>group_columns := ResolveAggregateGroupColumnsThroughJoinKeys H fs (group_columns m) names\<rparr>
               else m)
      in step_if (found_join a \<and> found_aggregation a \<and> group_columns m \<noteq> [] \<and>
           length names > length (group_columns m) + length (model_aggregate_types m))
           (add_reason Why_JOIN_AGGREGATE_PROJECTION_FALLBACK) m)"

definition BuildGroupColumns ::
    "duckdb_env \<Rightarrow> plan_helpers \<Rightarrow> CreateMVPlanFacts \<Rightarrow> string list \<Rightarrow> DeltaViewModel \<Rightarrow> DeltaViewModel" where
  "BuildGroupColumns E H fs names model =
     (let a = analysis fs;
          m = model\<lparr>union_distinct_over_agg := has_union_over_agg fs \<and>
                (found_union_distinct a \<or> (found_distinct a \<and> distinct_at_top model))\<rparr>;
          m = main_group_columns E H fs names m;
          m = delim_aggregate_columns E fs names m;
          m = fallback_columns E (found_delim_join a \<and> found_single_join a \<and> \<not> found_aggregation a)
                (DeriveScalarDelimKeyColumnNames H fs names) Why_SCALAR_DELIM_PROJECTION_GROUP_FALLBACK m;
          m = fallback_columns E (found_nested_aggregate a)
                (DeriveAggregateGroupColumnNames H fs names False) Why_NESTED_AGGREGATE_GROUP_FALLBACK m;
          m = fallback_columns E (found_aggregation a)
                (DeriveAggregateGroupColumnNames H fs names True) Why_REPEATED_CTE_AGGREGATE_GROUP_FALLBACK m;
          m = m\<lparr>group_columns := DeduplicateGroupColumns E (group_columns m)\<rparr>;
          m = join_columns E H fs names m;
          m = step_if (has_union_over_agg fs) (add_reason Why_UNION_OVER_AGGREGATE) m;
          m = step_if (found_nested_aggregate a) (add_reason Why_NESTED_AGGREGATE_GROUP_FALLBACK) m
      in step_if (found_semi_anti_join a \<and> found_aggregation a \<and> group_columns m \<noteq> [])
           (add_reason Why_SEMI_ANTI_AGGREGATE_GROUP_FALLBACK) m)"

section \<open>Unsupported constructs and features\<close>

definition BuildUnsupportedReasons ::
    "CreateMVPlanFacts \<Rightarrow> DeltaViewModelInput \<Rightarrow> DeltaViewModel \<Rightarrow> DeltaViewModel" where
  "BuildUnsupportedReasons fs input model =
     (let a = analysis fs;
          no_keys = (group_columns model = []);
          m = step_if (CreateMVPlanFacts.has_unsupported_set_operation fs)
                (add_unsupported No_UNSUPPORTED_SET_OPERATION) model;
          m = step_if (has_pivot fs) (add_unsupported No_UNSUPPORTED_PIVOT) m;
          m = step_if (found_volatile_expression a) (add_unsupported No_UNSUPPORTED_FUNCTION) m;
          m = step_if (found_non_foldable_unnest a) (add_unsupported No_UNSUPPORTED_UNNEST) m;
          m = step_if (found_unsupported_aggregate a) (add_unsupported No_UNSUPPORTED_AGGREGATE) m;
          m = step_if (found_unsupported_filtered_aggregate a)
                (add_unsupported No_UNSUPPORTED_FILTERED_AGGREGATE) m;
          m = step_if (found_unsupported_join_type a) (add_unsupported No_UNSUPPORTED_JOIN_TYPE) m;
          m = step_if (found_unsupported_order_by a) (add_unsupported No_UNSUPPORTED_ORDER_BY) m;
          m = step_if (found_unsupported_operator a) (add_unsupported No_UNSUPPORTED_OPERATOR) m;
          m = step_if (found_grouping_sets a \<and> no_keys) (add_unsupported No_GROUPING_SETS_NO_KEYS) m;
          m = step_if (found_filtered_list a \<and> no_keys) (add_unsupported No_FILTERED_LIST_NO_KEYS) m;
          m = step_if (found_semi_anti_join a \<and> found_aggregation a \<and> no_keys)
                (add_unsupported No_SEMI_ANTI_WITH_AGGREGATE) m;
          m = step_if (found_semi_anti_join a \<and> \<not> found_aggregation a \<and>
                semi_anti_aux_candidate input = None) (add_unsupported No_SEMI_ANTI_MISSING_AUX) m
      in step_if (\<not> incremental_compatible a \<and> unsupported_reasons m = [])
           (add_unsupported No_UNSUPPORTED_OPERATOR) m)"

definition PlanFeatures :: "PlanAnalysis \<Rightarrow> DeltaViewModel \<Rightarrow> DeltaViewModel" where
  "PlanFeatures a model =
     (let m = step_if (unsupported_reasons model \<noteq> []) (add_feature Feature_FULL_ONLY) model;
          m = step_if (found_projection a \<or>
                (\<not> found_aggregation a \<and> \<not> found_join a \<and> \<not> found_window a)) (add_feature Feature_LINEAR) m;
          m = step_if (found_join a \<and> \<not> found_left_join a \<and> \<not> found_full_outer a \<and>
                \<not> found_semi_anti_join a \<and> \<not> found_asof_join a \<and> \<not> found_positional_join a)
                (add_feature Feature_BILINEAR) m;
          m = step_if (found_asof_join a) (add_feature Feature_ASOF_STATEFUL) m;
          m = step_if (found_sample a) (add_feature Feature_SAMPLE_GLOBAL_RECOMPUTE) m;
          m = step_if (found_positional_join a) (add_feature Feature_POSITIONAL_GLOBAL_RECOMPUTE) m;
          m = step_if (found_left_join a \<or> found_full_outer a) (add_feature Feature_OUTER_JOIN_STATEFUL) m;
          m = step_if (found_aggregation a)
                (add_feature
                  (if found_minmax a \<or> found_count_distinct a \<or> found_list a \<or> found_filtered_list a
                   then Feature_AGGREGATE_NON_LINEAR else Feature_AGGREGATE_LINEAR)) m;
          m = step_if (found_having a) (add_feature Feature_AGGREGATE_HAVING) m;
          m = step_if (found_count_distinct a) (add_feature Feature_COUNT_DISTINCT_STATEFUL) m;
          m = step_if (found_filtered_list a) (add_feature Feature_FILTERED_LIST_STATEFUL) m;
          m = step_if (found_grouping_sets a) (add_feature Feature_GROUPING_SETS_STATEFUL) m
      in step_if (found_window a \<and> model_window_columns m \<noteq> [])
           (add_feature Feature_WINDOW_AFFECTED_PARTITION) m)"

definition BuildModelFeatures ::
    "PlanAnalysis \<Rightarrow> DeltaViewModelInput \<Rightarrow> DeltaViewModel \<Rightarrow> DeltaViewModel" where
  "BuildModelFeatures a input model =
     (let m = PlanFeatures a model
      in if \<not> HasFeature m Feature_FULL_ONLY then
           (let m = step_if (distinct_aux_candidate input \<noteq> None) (add_feature Feature_DISTINCT_STATEFUL) m
            in step_if (semi_anti_aux_candidate input \<noteq> None) (add_feature Feature_SEMI_ANTI_STATEFUL) m)
         else m)"

section \<open>The strategy\<close>

definition IsAggregateRefreshType :: "RefreshType \<Rightarrow> bool" where
  "IsAggregateRefreshType t \<longleftrightarrow> t = SIMPLE_AGGREGATE \<or> t = AGGREGATE_GROUP \<or> t = RefreshType.AGGREGATE_HAVING"

definition select_current_diff :: "DeltaStrategyReason \<Rightarrow> DeltaViewModel \<Rightarrow> DeltaViewModel" where
  "select_current_diff reason model =
     add_reason reason (add_feature Feature_CURRENT_DIFF_RECOMPUTE
       (model\<lparr>model_type := CURRENT_DIFF_RECOMPUTE\<rparr>))"

definition SelectRefreshType ::
    "PlanAnalysis \<Rightarrow> DeltaViewModelInput \<Rightarrow> DeltaViewModel \<Rightarrow> DeltaViewModel" where
  "SelectRefreshType a input model =
     (let has_argminmax = list_ex (\<lambda>t. t = ''arg_min'' \<or> t = ''arg_max'') (aggregate_types a);
          keys = (group_columns model \<noteq> []);
          as_type = (\<lambda>t. model\<lparr>model_type := t\<rparr>)
      in
      if has_unsupported_incremental_construct input then as_type FULL_REFRESH
      else if \<not> incremental_compatible a then (as_type FULL_REFRESH)\<lparr>warn_unsupported_incremental := True\<rparr>
      else if found_sample a then select_current_diff Why_SAMPLE_CURRENT_DIFF_RECOMPUTE model
      else if found_positional_join a then select_current_diff Why_POSITIONAL_CURRENT_DIFF_RECOMPUTE model
      else if found_asof_join a \<and> found_window a \<and> model_window_columns model \<noteq> []
        then as_type WINDOW_PARTITION
      else if found_asof_join a \<and> found_aggregation a \<and> keys
        then add_reason Why_ASOF_CURRENT_DIFF_RECOMPUTE (as_type GROUP_RECOMPUTE)
      else if found_asof_join a then select_current_diff Why_ASOF_CURRENT_DIFF_RECOMPUTE model
      else if found_window a then as_type WINDOW_PARTITION
      else if found_grouping_sets a then as_type (if \<not> keys then FULL_REFRESH else GROUP_RECOMPUTE)
      else if found_semi_anti_join a \<and> found_aggregation a
        then as_type (if \<not> keys then FULL_REFRESH else GROUP_RECOMPUTE)
      else if found_semi_anti_join a \<and> \<not> found_aggregation a
        then as_type (if HasFeature model Feature_SEMI_ANTI_STATEFUL then SEMI_ANTI_RECOMPUTE
                      else FULL_REFRESH)
      else if found_filtered_list a \<and> keys then as_type GROUP_RECOMPUTE
      else if found_filtered_list a then as_type FULL_REFRESH
      else if found_count_distinct a \<and> keys then as_type GROUP_RECOMPUTE
      else if found_distinct a \<and> \<not> distinct_at_top model \<and> found_aggregation a
        then as_type (if HasFeature model Feature_DISTINCT_STATEFUL then DISTINCT_INCREMENTAL
                      else GROUP_RECOMPUTE)
      else if union_distinct_over_agg model \<and> keys then as_type GROUP_RECOMPUTE
      else if found_union_distinct a \<and> \<not> found_aggregation a \<and> keys then as_type GROUP_RECOMPUTE
      else if found_distinct a \<and> distinct_at_top model \<and> keys then as_type AGGREGATE_GROUP
      else if strategy_reasons model \<noteq> [] \<and> keys then as_type GROUP_RECOMPUTE
      else if found_having a \<and> found_aggregation a \<and>
          (has_hidden_minmax_having input \<or> has_computed_minmax_aggregate_projection input) \<and> keys
        then as_type GROUP_RECOMPUTE
      else if found_having a \<and> found_aggregation a \<and> has_argminmax \<and> keys then as_type GROUP_RECOMPUTE
      else if found_having a \<and> found_aggregation a \<and> keys then as_type RefreshType.AGGREGATE_HAVING
      else if found_aggregation a \<and> keys then as_type AGGREGATE_GROUP
      else if found_aggregation a \<and> \<not> keys then as_type SIMPLE_AGGREGATE
      else if found_projection a \<and> \<not> found_aggregation a then as_type SIMPLE_PROJECTION
      else (as_type FULL_REFRESH)\<lparr>warn_unrecognized_pattern := True\<rparr>)"

definition SelectGroupRecomputeAffectedMode :: "DeltaViewModelInput \<Rightarrow> DeltaViewModel \<Rightarrow> DeltaViewModel" where
  "SelectGroupRecomputeAffectedMode input model =
     (if model_type model \<noteq> GROUP_RECOMPUTE then model\<lparr>group_recompute_affected_mode := SOURCE_DELTA\<rparr>
      else
        (let a = analysis (facts input);
             aggregate_filter_join = (stored_query_has_aggregate_filter input \<and> found_join a)
         in if found_asof_join a \<or> stored_query_has_top_k input \<or> aggregate_filter_join \<or>
               (stored_query_has_aggregate_filter input \<and> has_ducklake_source input)
            then model\<lparr>group_recompute_affected_mode := CURRENT_DIFF\<rparr>
            else if stored_query_has_aggregate_filter input
            then model\<lparr>group_recompute_affected_mode := SOURCE_DELTA_RELAX_AGGREGATE_FILTER\<rparr>
            else model\<lparr>group_recompute_affected_mode := SOURCE_DELTA\<rparr>))"

text \<open>\<open>AttachAuxRequirements\<close> dereferences the candidate; its assertions that there is one
  are the lemmas \<open>distinct_candidate_present\<close> and \<open>semi_anti_candidate_present\<close> below.\<close>

definition AttachAuxRequirements :: "DeltaViewModelInput \<Rightarrow> DeltaViewModel \<Rightarrow> DeltaViewModel" where
  "AttachAuxRequirements input model =
     (let m = (if model_type model = DISTINCT_INCREMENTAL
               then model\<lparr>distinct_aux := the (distinct_aux_candidate input)\<rparr> else model);
          m = (case filtered_group_count_aux_candidate input of
                 Some c \<Rightarrow> if model_type m = SIMPLE_AGGREGATE then m\<lparr>filtered_group_count_aux := c\<rparr> else m
               | None \<Rightarrow> m)
      in if model_type m = SEMI_ANTI_RECOMPUTE
         then m\<lparr>semi_anti_aux := the (semi_anti_aux_candidate input)\<rparr> else m)"

definition BuildUpdateSemantics :: "PlanAnalysis \<Rightarrow> DeltaViewModel \<Rightarrow> DeltaViewModel" where
  "BuildUpdateSemantics a model =
     (let m = step_if (model_type model \<noteq> FULL_REFRESH)
                (add_semantics Upd_UPDATE_SENSITIVE \<circ> add_semantics Upd_DELETE_SENSITIVE) model;
          m = step_if (model_type m = SIMPLE_PROJECTION)
                (add_semantics Upd_PROJECTION_DELETE_SKIP_SAFE \<circ> add_semantics Upd_APPEND_ONLY_SAFE) m;
          m = step_if (IsAggregateRefreshType (model_type m) \<and> \<not> found_count_distinct a \<and>
                \<not> found_list a \<and> \<not> found_filtered_list a)
                (add_semantics Upd_AGGREGATE_DELETE_SKIP_SAFE \<circ> add_semantics Upd_APPEND_ONLY_SAFE) m
      in step_if (found_minmax a \<and> \<not> found_count_distinct a \<and> \<not> found_list a)
           (add_semantics Upd_MINMAX_INSERT_ONLY_SAFE) m)"

definition IsDistinctAtTop :: "duckdb_env \<Rightarrow> PlanAnalysis \<Rightarrow> string list \<Rightarrow> bool" where
  "IsDistinctAtTop E a names =
     (if \<not> found_distinct a \<or> aggregate_columns a = [] \<or> names = [] then False
      else list_all (\<lambda>target. Lower E target \<in> set (map (Lower E) names)) (aggregate_columns a))"

text \<open>\<open>BuildDeltaViewModel\<close> up to the nodes of the delta model: the preparation, the choice
  of the strategy, and what depends on the choice.\<close>

definition InitialColumns ::
    "duckdb_env \<Rightarrow> plan_helpers \<Rightarrow> DeltaViewModelInput \<Rightarrow> DeltaViewModel" where
  "InitialColumns E H input =
     (let fs = facts input; a = analysis fs; names = output_names input;
          m = InitialModel\<lparr>model_aggregate_types := aggregate_types a,
                model_window_columns :=
                  ResolveWindowPartitionOutputNames H fs (window_partition_columns a) names\<rparr>;
          m = (if \<not> keep_window_join_partitions input then m\<lparr>model_window_columns := []\<rparr> else m)
      in m\<lparr>has_minmax_metadata := found_minmax a \<or> found_count_distinct a \<or> found_list a,
           distinct_at_top := IsDistinctAtTop E a names\<rparr>)"

definition MarkOuterJoin :: "plan_helpers \<Rightarrow> CreateMVPlanFacts \<Rightarrow> DeltaViewModel \<Rightarrow> DeltaViewModel" where
  "MarkOuterJoin H fs model =
     (let a = analysis fs;
          m = (if (found_left_join a \<or> found_full_outer a) \<and> found_aggregation a \<and>
                  OuterJoinAggregateNeedsRecompute H fs (group_index_of a)
               then add_reason Why_OUTER_JOIN_AGGREGATE_RECOMPUTE (model\<lparr>has_minmax_metadata := True\<rparr>)
               else model)
      in if found_full_outer a then m\<lparr>full_outer_join_cols := ExtractFullOuterJoinMetadata H fs\<rparr> else m)"

definition PrepareModel ::
    "duckdb_env \<Rightarrow> plan_helpers \<Rightarrow> DeltaViewModelInput \<Rightarrow> DeltaViewModel" where
  "PrepareModel E H input =
     BuildModelFeatures (analysis (facts input)) input
       (BuildUnsupportedReasons (facts input) input
         (MarkOuterJoin H (facts input)
           (BuildGroupColumns E H (facts input) (output_names input) (InitialColumns E H input))))"

definition FinishModel :: "DeltaViewModelInput \<Rightarrow> DeltaViewModel \<Rightarrow> DeltaViewModel" where
  "FinishModel input model =
     (let m = SelectGroupRecomputeAffectedMode input model;
          m = step_if (warn_unrecognized_pattern m)
                (add_feature Feature_FULL_ONLY \<circ> add_unsupported No_UNRECOGNIZED_PATTERN) m;
          m = AttachAuxRequirements input m
      in BuildUpdateSemantics (analysis (facts input)) m)"

definition ClassifyView ::
    "duckdb_env \<Rightarrow> plan_helpers \<Rightarrow> DeltaViewModelInput \<Rightarrow> DeltaViewModel" where
  "ClassifyView E H input =
     FinishModel input (SelectRefreshType (analysis (facts input)) input (PrepareModel E H input))"

section \<open>What the stages leave alone\<close>

lemma add_frame [simp]:
  "model_type (add_feature f m) = model_type m"
  "model_type (add_reason r m) = model_type m"
  "model_type (add_unsupported u m) = model_type m"
  "model_type (add_semantics s m) = model_type m"
  "group_columns (add_feature f m) = group_columns m"
  "group_columns (add_reason r m) = group_columns m"
  "group_columns (add_unsupported u m) = group_columns m"
  "group_columns (add_semantics s m) = group_columns m"
  "features (add_reason r m) = features m"
  "features (add_unsupported u m) = features m"
  "features (add_semantics s m) = features m"
  "set (features (add_feature f m)) = insert f (set (features m))"
  "unsupported_reasons (add_feature f m) = unsupported_reasons m"
  "unsupported_reasons (add_reason r m) = unsupported_reasons m"
  "unsupported_reasons (add_semantics s m) = unsupported_reasons m"
  "set (unsupported_reasons (add_unsupported u m)) = insert u (set (unsupported_reasons m))"
  "unsupported_reasons (add_unsupported u m) \<noteq> []"
  "distinct_aux (add_feature f m) = distinct_aux m"
  "distinct_aux (add_unsupported u m) = distinct_aux m"
  "distinct_aux (add_semantics s m) = distinct_aux m"
  "distinct_aux (add_reason r m) = distinct_aux m"
  "semi_anti_aux (add_feature f m) = semi_anti_aux m"
  "semi_anti_aux (add_unsupported u m) = semi_anti_aux m"
  "semi_anti_aux (add_semantics s m) = semi_anti_aux m"
  "semi_anti_aux (add_reason r m) = semi_anti_aux m"
  "distinct_at_top (add_feature f m) = distinct_at_top m"
  "distinct_at_top (add_unsupported u m) = distinct_at_top m"
  "distinct_at_top (add_semantics s m) = distinct_at_top m"
  "distinct_at_top (add_reason r m) = distinct_at_top m"
  "model_window_columns (add_feature f m) = model_window_columns m"
  "model_window_columns (add_unsupported u m) = model_window_columns m"
  "model_window_columns (add_semantics s m) = model_window_columns m"
  "model_window_columns (add_reason r m) = model_window_columns m"
  "nodes (add_feature f m) = nodes m"
  "nodes (add_unsupported u m) = nodes m"
  "nodes (add_semantics s m) = nodes m"
  "nodes (add_reason r m) = nodes m"
  "affected_domains (add_feature f m) = affected_domains m"
  "affected_domains (add_unsupported u m) = affected_domains m"
  "affected_domains (add_semantics s m) = affected_domains m"
  "affected_domains (add_reason r m) = affected_domains m"
  "lineage_facts (add_feature f m) = lineage_facts m"
  "lineage_facts (add_unsupported u m) = lineage_facts m"
  "lineage_facts (add_semantics s m) = lineage_facts m"
  "lineage_facts (add_reason r m) = lineage_facts m"
  by (simp_all add: add_feature_def add_reason_def add_unsupported_def add_semantics_def)

lemma step_if_apply [simp]: "step_if True f x = f x" "step_if False f x = x"
  by (simp_all add: step_if_def)

lemma step_if_frame [simp]:
  "model_type (step_if b (add_feature k) m) = model_type m"
  "group_columns (step_if b (add_feature k) m) = group_columns m"
  "unsupported_reasons (step_if b (add_feature k) m) = unsupported_reasons m"
  "distinct_aux (step_if b (add_feature k) m) = distinct_aux m"
  "semi_anti_aux (step_if b (add_feature k) m) = semi_anti_aux m"
  "distinct_at_top (step_if b (add_feature k) m) = distinct_at_top m"
  "model_window_columns (step_if b (add_feature k) m) = model_window_columns m"
  "nodes (step_if b (add_feature k) m) = nodes m"
  "affected_domains (step_if b (add_feature k) m) = affected_domains m"
  "lineage_facts (step_if b (add_feature k) m) = lineage_facts m"
  "model_type (step_if b (add_reason y) m) = model_type m"
  "group_columns (step_if b (add_reason y) m) = group_columns m"
  "features (step_if b (add_reason y) m) = features m"
  "unsupported_reasons (step_if b (add_reason y) m) = unsupported_reasons m"
  "distinct_aux (step_if b (add_reason y) m) = distinct_aux m"
  "semi_anti_aux (step_if b (add_reason y) m) = semi_anti_aux m"
  "distinct_at_top (step_if b (add_reason y) m) = distinct_at_top m"
  "model_window_columns (step_if b (add_reason y) m) = model_window_columns m"
  "nodes (step_if b (add_reason y) m) = nodes m"
  "affected_domains (step_if b (add_reason y) m) = affected_domains m"
  "lineage_facts (step_if b (add_reason y) m) = lineage_facts m"
  "model_type (step_if b (add_unsupported u) m) = model_type m"
  "group_columns (step_if b (add_unsupported u) m) = group_columns m"
  "features (step_if b (add_unsupported u) m) = features m"
  "distinct_aux (step_if b (add_unsupported u) m) = distinct_aux m"
  "semi_anti_aux (step_if b (add_unsupported u) m) = semi_anti_aux m"
  "distinct_at_top (step_if b (add_unsupported u) m) = distinct_at_top m"
  "model_window_columns (step_if b (add_unsupported u) m) = model_window_columns m"
  "nodes (step_if b (add_unsupported u) m) = nodes m"
  "affected_domains (step_if b (add_unsupported u) m) = affected_domains m"
  "lineage_facts (step_if b (add_unsupported u) m) = lineage_facts m"
  "model_type (step_if b (add_semantics s) m) = model_type m"
  "group_columns (step_if b (add_semantics s) m) = group_columns m"
  "features (step_if b (add_semantics s) m) = features m"
  "unsupported_reasons (step_if b (add_semantics s) m) = unsupported_reasons m"
  "distinct_aux (step_if b (add_semantics s) m) = distinct_aux m"
  "semi_anti_aux (step_if b (add_semantics s) m) = semi_anti_aux m"
  "distinct_at_top (step_if b (add_semantics s) m) = distinct_at_top m"
  "model_window_columns (step_if b (add_semantics s) m) = model_window_columns m"
  "nodes (step_if b (add_semantics s) m) = nodes m"
  "affected_domains (step_if b (add_semantics s) m) = affected_domains m"
  "lineage_facts (step_if b (add_semantics s) m) = lineage_facts m"
  "model_type (step_if b (add_semantics s \<circ> add_semantics t) m) = model_type m"
  "group_columns (step_if b (add_semantics s \<circ> add_semantics t) m) = group_columns m"
  "features (step_if b (add_semantics s \<circ> add_semantics t) m) = features m"
  "unsupported_reasons (step_if b (add_semantics s \<circ> add_semantics t) m) = unsupported_reasons m"
  "distinct_aux (step_if b (add_semantics s \<circ> add_semantics t) m) = distinct_aux m"
  "semi_anti_aux (step_if b (add_semantics s \<circ> add_semantics t) m) = semi_anti_aux m"
  "distinct_at_top (step_if b (add_semantics s \<circ> add_semantics t) m) = distinct_at_top m"
  "model_window_columns (step_if b (add_semantics s \<circ> add_semantics t) m) = model_window_columns m"
  "nodes (step_if b (add_semantics s \<circ> add_semantics t) m) = nodes m"
  "affected_domains (step_if b (add_semantics s \<circ> add_semantics t) m) = affected_domains m"
  "lineage_facts (step_if b (add_semantics s \<circ> add_semantics t) m) = lineage_facts m"
  "model_type (step_if b (add_feature k \<circ> add_unsupported u) m) = model_type m"
  "group_columns (step_if b (add_feature k \<circ> add_unsupported u) m) = group_columns m"
  "distinct_aux (step_if b (add_feature k \<circ> add_unsupported u) m) = distinct_aux m"
  "semi_anti_aux (step_if b (add_feature k \<circ> add_unsupported u) m) = semi_anti_aux m"
  "distinct_at_top (step_if b (add_feature k \<circ> add_unsupported u) m) = distinct_at_top m"
  "model_window_columns (step_if b (add_feature k \<circ> add_unsupported u) m) = model_window_columns m"
  "nodes (step_if b (add_feature k \<circ> add_unsupported u) m) = nodes m"
  "affected_domains (step_if b (add_feature k \<circ> add_unsupported u) m) = affected_domains m"
  "lineage_facts (step_if b (add_feature k \<circ> add_unsupported u) m) = lineage_facts m"
  by (simp_all add: step_if_def)

lemma BuildUpdateSemantics_frame [simp]:
  "model_type (BuildUpdateSemantics a m) = model_type m"
  "group_columns (BuildUpdateSemantics a m) = group_columns m"
  "features (BuildUpdateSemantics a m) = features m"
  "unsupported_reasons (BuildUpdateSemantics a m) = unsupported_reasons m"
  "distinct_aux (BuildUpdateSemantics a m) = distinct_aux m"
  "semi_anti_aux (BuildUpdateSemantics a m) = semi_anti_aux m"
  "distinct_at_top (BuildUpdateSemantics a m) = distinct_at_top m"
  "model_window_columns (BuildUpdateSemantics a m) = model_window_columns m"
  "nodes (BuildUpdateSemantics a m) = nodes m"
  "affected_domains (BuildUpdateSemantics a m) = affected_domains m"
  "lineage_facts (BuildUpdateSemantics a m) = lineage_facts m"
  unfolding BuildUpdateSemantics_def Let_def by simp_all

lemma AttachAuxRequirements_frame [simp]:
  "model_type (AttachAuxRequirements input m) = model_type m"
  "group_columns (AttachAuxRequirements input m) = group_columns m"
  "features (AttachAuxRequirements input m) = features m"
  "unsupported_reasons (AttachAuxRequirements input m) = unsupported_reasons m"
  "distinct_at_top (AttachAuxRequirements input m) = distinct_at_top m"
  "model_window_columns (AttachAuxRequirements input m) = model_window_columns m"
  "nodes (AttachAuxRequirements input m) = nodes m"
  "affected_domains (AttachAuxRequirements input m) = affected_domains m"
  "lineage_facts (AttachAuxRequirements input m) = lineage_facts m"
  unfolding AttachAuxRequirements_def Let_def by (simp_all split: option.split)

lemma SelectGroupRecomputeAffectedMode_frame [simp]:
  "model_type (SelectGroupRecomputeAffectedMode input m) = model_type m"
  "group_columns (SelectGroupRecomputeAffectedMode input m) = group_columns m"
  "features (SelectGroupRecomputeAffectedMode input m) = features m"
  "unsupported_reasons (SelectGroupRecomputeAffectedMode input m) = unsupported_reasons m"
  "distinct_aux (SelectGroupRecomputeAffectedMode input m) = distinct_aux m"
  "semi_anti_aux (SelectGroupRecomputeAffectedMode input m) = semi_anti_aux m"
  "distinct_at_top (SelectGroupRecomputeAffectedMode input m) = distinct_at_top m"
  "model_window_columns (SelectGroupRecomputeAffectedMode input m) = model_window_columns m"
  "nodes (SelectGroupRecomputeAffectedMode input m) = nodes m"
  "affected_domains (SelectGroupRecomputeAffectedMode input m) = affected_domains m"
  "lineage_facts (SelectGroupRecomputeAffectedMode input m) = lineage_facts m"
  unfolding SelectGroupRecomputeAffectedMode_def Let_def by simp_all

lemma FinishModel_frame [simp]:
  "model_type (FinishModel input m) = model_type m"
  "group_columns (FinishModel input m) = group_columns m"
  "distinct_at_top (FinishModel input m) = distinct_at_top m"
  "model_window_columns (FinishModel input m) = model_window_columns m"
  unfolding FinishModel_def Let_def by simp_all

lemma if_frame: "g x = c \<Longrightarrow> g y = c \<Longrightarrow> g (if b then x else y) = c"
  by simp

lemma SelectRefreshType_frame [simp]:
  "group_columns (SelectRefreshType a input m) = group_columns m"
  "distinct_at_top (SelectRefreshType a input m) = distinct_at_top m"
  "unsupported_reasons (SelectRefreshType a input m) = unsupported_reasons m"
  "model_window_columns (SelectRefreshType a input m) = model_window_columns m"
  unfolding SelectRefreshType_def select_current_diff_def Let_def
     apply (intro if_frame [where g = group_columns]; simp)
    apply (intro if_frame [where g = distinct_at_top]; simp)
   apply (intro if_frame [where g = unsupported_reasons]; simp)
  apply (intro if_frame [where g = model_window_columns]; simp)
  done

section \<open>Facts about the choice\<close>

lemma if_cases: "(b \<Longrightarrow> Q x) \<Longrightarrow> (\<not> b \<Longrightarrow> Q y) \<Longrightarrow> Q (if b then x else y)"
  by simp

lemmas select_unfold = SelectRefreshType_def select_current_diff_def Let_def

lemma select_full_refresh:
  "model_type (SelectRefreshType a input m) = FULL_REFRESH \<longrightarrow>
     has_unsupported_incremental_construct input \<or> \<not> incremental_compatible a \<or>
     (found_grouping_sets a \<and> group_columns m = []) \<or>
     (found_semi_anti_join a \<and> found_aggregation a \<and> group_columns m = []) \<or>
     (found_semi_anti_join a \<and> \<not> found_aggregation a \<and> \<not> HasFeature m Feature_SEMI_ANTI_STATEFUL) \<or>
     (found_filtered_list a \<and> group_columns m = []) \<or>
     warn_unrecognized_pattern (SelectRefreshType a input m)"
  (is "?Q (SelectRefreshType a input m)")
  unfolding select_unfold by (intro if_cases [where Q = ?Q]; simp; blast?)

lemma select_keys:
  "model_type (SelectRefreshType a input m) \<in> {AGGREGATE_GROUP, RefreshType.AGGREGATE_HAVING} \<longrightarrow>
     group_columns m \<noteq> []"
  (is "?Q (SelectRefreshType a input m)")
  unfolding select_unfold by (intro if_cases [where Q = ?Q]; simp)

lemma select_group_recompute:
  "model_type (SelectRefreshType a input m) = GROUP_RECOMPUTE \<longrightarrow>
     group_columns m \<noteq> [] \<or>
     (found_distinct a \<and> \<not> distinct_at_top m \<and> found_aggregation a \<and>
      \<not> HasFeature m Feature_DISTINCT_STATEFUL)"
  (is "?Q (SelectRefreshType a input m)")
  unfolding select_unfold by (intro if_cases [where Q = ?Q]; simp)

lemma select_incremental:
  "model_type (SelectRefreshType a input m) \<noteq> FULL_REFRESH \<longrightarrow>
     incremental_compatible a \<and> \<not> has_unsupported_incremental_construct input"
  (is "?Q (SelectRefreshType a input m)")
  unfolding select_unfold by (intro if_cases [where Q = ?Q]; simp)

lemma select_nonlocal:
  "found_asof_join a \<or> found_positional_join a \<or> found_sample a \<longrightarrow>
     model_type (SelectRefreshType a input m)
       \<in> {FULL_REFRESH, CURRENT_DIFF_RECOMPUTE, WINDOW_PARTITION, GROUP_RECOMPUTE}"
  (is "?Q (SelectRefreshType a input m)")
  unfolding select_unfold by (intro if_cases [where Q = ?Q]; simp)

lemma select_aux:
  "(model_type (SelectRefreshType a input m) = DISTINCT_INCREMENTAL \<longrightarrow>
      HasFeature m Feature_DISTINCT_STATEFUL) \<and>
   (model_type (SelectRefreshType a input m) = SEMI_ANTI_RECOMPUTE \<longrightarrow>
      HasFeature m Feature_SEMI_ANTI_STATEFUL)"
  (is "?Q (SelectRefreshType a input m)")
  unfolding select_unfold by (intro if_cases [where Q = ?Q]; simp)

lemma select_window:
  "model_type (SelectRefreshType a input m) = WINDOW_PARTITION \<longrightarrow> found_window a"
  (is "?Q (SelectRefreshType a input m)")
  unfolding select_unfold by (intro if_cases [where Q = ?Q]; simp)

lemma select_aggregation:
  "model_type (SelectRefreshType a input m) \<in> {SIMPLE_AGGREGATE, RefreshType.AGGREGATE_HAVING} \<longrightarrow>
     found_aggregation a"
  (is "?Q (SelectRefreshType a input m)")
  unfolding select_unfold by (intro if_cases [where Q = ?Q]; simp)

lemma select_features:
  "set (features m) \<subseteq> set (features (SelectRefreshType a input m)) \<and>
   set (features (SelectRefreshType a input m)) \<subseteq> insert Feature_CURRENT_DIFF_RECOMPUTE (set (features m))"
  (is "?Q (SelectRefreshType a input m)")
  unfolding select_unfold by (intro if_cases [where Q = ?Q]; simp; blast?)

section \<open>Facts about the preparation\<close>

lemma add_join_keys_frame [simp]:
  "features (add_join_keys E keys names i es m) = features m"
  "unsupported_reasons (add_join_keys E keys names i es m) = unsupported_reasons m"
  "model_window_columns (add_join_keys E keys names i es m) = model_window_columns m"
  "distinct_at_top (add_join_keys E keys names i es m) = distinct_at_top m"
  by (induction E keys names i es m rule: add_join_keys.induct) (simp_all add: Let_def)

lemma group_stage_frame [simp]:
  "features (main_group_columns E H fs names m) = features m"
  "unsupported_reasons (main_group_columns E H fs names m) = unsupported_reasons m"
  "model_window_columns (main_group_columns E H fs names m) = model_window_columns m"
  "distinct_at_top (main_group_columns E H fs names m) = distinct_at_top m"
  "features (delim_aggregate_columns E fs names m) = features m"
  "unsupported_reasons (delim_aggregate_columns E fs names m) = unsupported_reasons m"
  "model_window_columns (delim_aggregate_columns E fs names m) = model_window_columns m"
  "distinct_at_top (delim_aggregate_columns E fs names m) = distinct_at_top m"
  "features (fallback_columns E g d r m) = features m"
  "unsupported_reasons (fallback_columns E g d r m) = unsupported_reasons m"
  "model_window_columns (fallback_columns E g d r m) = model_window_columns m"
  "distinct_at_top (fallback_columns E g d r m) = distinct_at_top m"
  "features (join_columns E H fs names m) = features m"
  "unsupported_reasons (join_columns E H fs names m) = unsupported_reasons m"
  "model_window_columns (join_columns E H fs names m) = model_window_columns m"
  "distinct_at_top (join_columns E H fs names m) = distinct_at_top m"
  unfolding main_group_columns_def delim_aggregate_columns_def fallback_columns_def join_columns_def
    AddJoinKeyGroupColumns_def Let_def
  by (simp_all split: option.split)

lemma let_frame: "g x = c \<Longrightarrow> (\<And>y. g y = c \<Longrightarrow> g (f y) = c) \<Longrightarrow> g (let y = x in f y) = c"
  by simp

lemma BuildGroupColumns_frame [simp]:
  "features (BuildGroupColumns E H fs names m) = features m"
  "unsupported_reasons (BuildGroupColumns E H fs names m) = unsupported_reasons m"
  "model_window_columns (BuildGroupColumns E H fs names m) = model_window_columns m"
  "distinct_at_top (BuildGroupColumns E H fs names m) = distinct_at_top m"
  unfolding BuildGroupColumns_def Let_def [of "analysis fs"]
     apply (intro let_frame [where g = features]; simp)
    apply (intro let_frame [where g = unsupported_reasons]; simp)
   apply (intro let_frame [where g = model_window_columns]; simp)
  apply (intro let_frame [where g = distinct_at_top]; simp)
  done

lemma MarkOuterJoin_frame [simp]:
  "features (MarkOuterJoin H fs m) = features m"
  "unsupported_reasons (MarkOuterJoin H fs m) = unsupported_reasons m"
  "group_columns (MarkOuterJoin H fs m) = group_columns m"
  "model_window_columns (MarkOuterJoin H fs m) = model_window_columns m"
  "distinct_at_top (MarkOuterJoin H fs m) = distinct_at_top m"
  unfolding MarkOuterJoin_def Let_def by simp_all

lemma BuildUnsupportedReasons_frame [simp]:
  "features (BuildUnsupportedReasons fs input m) = features m"
  "group_columns (BuildUnsupportedReasons fs input m) = group_columns m"
  "model_window_columns (BuildUnsupportedReasons fs input m) = model_window_columns m"
  "distinct_at_top (BuildUnsupportedReasons fs input m) = distinct_at_top m"
  unfolding BuildUnsupportedReasons_def Let_def by simp_all

lemma set_unsupported_step [simp]:
  "set (unsupported_reasons (step_if b (add_unsupported u) m)) =
     (if b then insert u (set (unsupported_reasons m)) else set (unsupported_reasons m))"
  by simp

lemma unsupported_step_empty [simp]:
  "unsupported_reasons (step_if b (add_unsupported u) m) = [] \<longleftrightarrow> \<not> b \<and> unsupported_reasons m = []"
  by (cases b) simp_all

text \<open>No reason is recorded exactly when nothing of the list below holds.\<close>

lemma BuildUnsupportedReasons_empty:
  "unsupported_reasons (BuildUnsupportedReasons fs input m) = [] \<longleftrightarrow>
     unsupported_reasons m = [] \<and> \<not> CreateMVPlanFacts.has_unsupported_set_operation fs \<and> \<not> has_pivot fs \<and>
     \<not> reason_found (analysis fs) \<and> incremental_compatible (analysis fs) \<and>
     \<not> (group_columns m = [] \<and> (found_grouping_sets (analysis fs) \<or> found_filtered_list (analysis fs) \<or>
          (found_semi_anti_join (analysis fs) \<and> found_aggregation (analysis fs)))) \<and>
     \<not> (found_semi_anti_join (analysis fs) \<and> \<not> found_aggregation (analysis fs) \<and>
         semi_anti_aux_candidate input = None)"
  unfolding BuildUnsupportedReasons_def Let_def unsupported_step_empty reason_found_def by blast

lemma HasFeature_step [simp]:
  "HasFeature (step_if b (add_feature g) m) f \<longleftrightarrow> (b \<and> f = g) \<or> HasFeature m f"
  by (cases b) (simp_all add: HasFeature_def)

lemma PlanFeatures_frame [simp]:
  "group_columns (PlanFeatures a m) = group_columns m"
  "unsupported_reasons (PlanFeatures a m) = unsupported_reasons m"
  "model_window_columns (PlanFeatures a m) = model_window_columns m"
  "distinct_at_top (PlanFeatures a m) = distinct_at_top m"
  unfolding PlanFeatures_def Let_def by simp_all

lemma PlanFeatures_facts:
  assumes "features m = []"
  shows "HasFeature (PlanFeatures a m) Feature_FULL_ONLY \<longleftrightarrow> unsupported_reasons m \<noteq> []"
    and "\<not> HasFeature (PlanFeatures a m) Feature_DISTINCT_STATEFUL"
    and "\<not> HasFeature (PlanFeatures a m) Feature_SEMI_ANTI_STATEFUL"
    and "HasFeature (PlanFeatures a m) Feature_WINDOW_AFFECTED_PARTITION \<longleftrightarrow>
           found_window a \<and> model_window_columns m \<noteq> []"
    and "\<not> HasFeature (PlanFeatures a m) Feature_CURRENT_DIFF_RECOMPUTE"
proof -
  have none: "\<not> HasFeature m f" for f using assms by (simp add: HasFeature_def)
  show "HasFeature (PlanFeatures a m) Feature_FULL_ONLY \<longleftrightarrow> unsupported_reasons m \<noteq> []"
    unfolding PlanFeatures_def Let_def HasFeature_step by (simp add: none)
  show "\<not> HasFeature (PlanFeatures a m) Feature_DISTINCT_STATEFUL"
    unfolding PlanFeatures_def Let_def HasFeature_step by (simp add: none)
  show "\<not> HasFeature (PlanFeatures a m) Feature_SEMI_ANTI_STATEFUL"
    unfolding PlanFeatures_def Let_def HasFeature_step by (simp add: none)
  show "HasFeature (PlanFeatures a m) Feature_WINDOW_AFFECTED_PARTITION \<longleftrightarrow>
      found_window a \<and> model_window_columns m \<noteq> []"
    unfolding PlanFeatures_def Let_def HasFeature_step by (simp add: none)
  show "\<not> HasFeature (PlanFeatures a m) Feature_CURRENT_DIFF_RECOMPUTE"
    unfolding PlanFeatures_def Let_def HasFeature_step by (simp add: none)
qed

lemma BuildModelFeatures_frame [simp]:
  "group_columns (BuildModelFeatures a input m) = group_columns m"
  "unsupported_reasons (BuildModelFeatures a input m) = unsupported_reasons m"
  "model_window_columns (BuildModelFeatures a input m) = model_window_columns m"
  "distinct_at_top (BuildModelFeatures a input m) = distinct_at_top m"
  unfolding BuildModelFeatures_def Let_def by simp_all

lemma BuildModelFeatures_facts:
  assumes "features m = []"
  shows "HasFeature (BuildModelFeatures a input m) Feature_FULL_ONLY \<longleftrightarrow> unsupported_reasons m \<noteq> []"
    and "HasFeature (BuildModelFeatures a input m) Feature_DISTINCT_STATEFUL \<longleftrightarrow>
           unsupported_reasons m = [] \<and> distinct_aux_candidate input \<noteq> None"
    and "HasFeature (BuildModelFeatures a input m) Feature_SEMI_ANTI_STATEFUL \<longleftrightarrow>
           unsupported_reasons m = [] \<and> semi_anti_aux_candidate input \<noteq> None"
    and "HasFeature (BuildModelFeatures a input m) Feature_WINDOW_AFFECTED_PARTITION \<longleftrightarrow>
           found_window a \<and> model_window_columns m \<noteq> []"
  using PlanFeatures_facts [OF assms, of a] unfolding BuildModelFeatures_def Let_def by auto

lemma InitialColumns_empty [simp]:
  "features (InitialColumns E H input) = []"
  "unsupported_reasons (InitialColumns E H input) = []"
  unfolding InitialColumns_def Let_def by (simp_all add: InitialModel_def)

lemma PrepareModel_features:
  "HasFeature (PrepareModel E H input) Feature_FULL_ONLY \<longleftrightarrow> unsupported_reasons (PrepareModel E H input) \<noteq> []"
  "HasFeature (PrepareModel E H input) Feature_DISTINCT_STATEFUL \<longleftrightarrow>
     unsupported_reasons (PrepareModel E H input) = [] \<and> distinct_aux_candidate input \<noteq> None"
  "HasFeature (PrepareModel E H input) Feature_SEMI_ANTI_STATEFUL \<longleftrightarrow>
     unsupported_reasons (PrepareModel E H input) = [] \<and> semi_anti_aux_candidate input \<noteq> None"
  unfolding PrepareModel_def by (simp_all add: BuildModelFeatures_facts)

lemma PrepareModel_unsupported_empty:
  "unsupported_reasons (PrepareModel E H input) = [] \<longleftrightarrow>
     \<not> CreateMVPlanFacts.has_unsupported_set_operation (facts input) \<and> \<not> has_pivot (facts input) \<and>
     \<not> reason_found (analysis (facts input)) \<and> incremental_compatible (analysis (facts input)) \<and>
     \<not> (group_columns (PrepareModel E H input) = [] \<and>
         (found_grouping_sets (analysis (facts input)) \<or> found_filtered_list (analysis (facts input)) \<or>
          (found_semi_anti_join (analysis (facts input)) \<and> found_aggregation (analysis (facts input))))) \<and>
     \<not> (found_semi_anti_join (analysis (facts input)) \<and> \<not> found_aggregation (analysis (facts input)) \<and>
         semi_anti_aux_candidate input = None)"
  unfolding PrepareModel_def by (simp add: BuildUnsupportedReasons_empty)

section \<open>Names of group columns are made unique\<close>

lemma nat_string_inject: "nat_string m = nat_string n \<Longrightarrow> m = n"
  by (metis digits_value_nat_string)

lemma unused_name_seen:
  "unused_name fuel seen name suffix candidate \<in> set seen \<Longrightarrow>
     candidate \<in> set seen \<and> (\<forall>k < fuel. name @ ''_'' @ nat_string (suffix + k) \<in> set seen)"
proof (induction fuel seen name suffix candidate rule: unused_name.induct)
  case (2 fuel seen name suffix candidate)
  have seen: "candidate \<in> set seen" using "2.prems" by (auto split: if_split_asm)
  then have IH: "name @ ''_'' @ nat_string suffix \<in> set seen"
      "\<forall>k < fuel. name @ ''_'' @ nat_string (suffix + 1 + k) \<in> set seen"
    using 2 by simp_all
  have "name @ ''_'' @ nat_string (suffix + k) \<in> set seen" if "k < Suc fuel" for k
    using IH that by (cases k) simp_all
  with seen show ?case by blast
qed simp

lemma unused_name_fresh: "unused_name (length seen) seen name 1 name \<notin> set seen"
proof
  let ?n = "length seen"
  let ?c = "\<lambda>k. name @ ''_'' @ nat_string (1 + k)"
  assume "unused_name ?n seen name 1 name \<in> set seen"
  from unused_name_seen [OF this] have sub: "insert name (?c ` {..< ?n}) \<subseteq> set seen" by blast
  have "inj_on ?c {..< ?n}" by (auto intro!: inj_onI dest: nat_string_inject)
  then have "card (insert name (?c ` {..< ?n})) = Suc ?n" by (subst card_insert_disjoint) (auto simp: card_image)
  moreover have "card (insert name (?c ` {..< ?n})) \<le> card (set seen)" by (rule card_mono) (use sub in auto)
  ultimately show False using card_length [of seen] by simp
qed

lemma dedup_loop_distinct:
  "list_all (\<lambda>n. \<not> IsInternalColumn E n) names \<Longrightarrow>
     distinct (dedup_loop E seen names) \<and> set (dedup_loop E seen names) \<inter> set seen = {}"
proof (induction E seen names rule: dedup_loop.induct)
  case (2 E seen name names)
  then show ?case using unused_name_fresh [of seen name] by (auto simp: Let_def)
qed simp

section \<open>Properties\<close>

lemma FinishModel_reasons:
  "set (unsupported_reasons (FinishModel input m)) =
     set (unsupported_reasons m) \<union> (if warn_unrecognized_pattern m then {No_UNRECOGNIZED_PATTERN} else {})"
  "set (features (FinishModel input m)) =
     set (features m) \<union> (if warn_unrecognized_pattern m then {Feature_FULL_ONLY} else {})"
proof -
  have "warn_unrecognized_pattern (SelectGroupRecomputeAffectedMode input m) = warn_unrecognized_pattern m"
    unfolding SelectGroupRecomputeAffectedMode_def Let_def by simp
  then show
    "set (unsupported_reasons (FinishModel input m)) =
       set (unsupported_reasons m) \<union> (if warn_unrecognized_pattern m then {No_UNRECOGNIZED_PATTERN} else {})"
    "set (features (FinishModel input m)) =
       set (features m) \<union> (if warn_unrecognized_pattern m then {Feature_FULL_ONLY} else {})"
    unfolding FinishModel_def Let_def by (auto simp: step_if_def)
qed

section \<open>Concrete views\<close>

definition sample_helpers :: plan_helpers where
  "sample_helpers = \<lparr>DeriveGroupColumnNames = (\<lambda>fs i n names. take n names),
     DeriveScalarDelimKeyColumnNames = (\<lambda>fs names. []),
     DeriveAggregateGroupColumnNames = (\<lambda>fs names first. []),
     ResolveAggregateGroupColumnsThroughJoinKeys = (\<lambda>fs cols names. cols),
     ResolveWindowPartitionOutputNames = (\<lambda>fs cols names. cols),
     OuterJoinAggregateNeedsRecompute = (\<lambda>fs i. False),
     ExtractFullOuterJoinMetadata = (\<lambda>fs. [])\<rparr>"

definition facts_of :: "LogicalOperator \<Rightarrow> CreateMVPlanFacts" where
  "facts_of plan = \<lparr>root = Some plan, analysis = AnalyzePlan plan, source_table_info = [],
     first_projection = None, first_comparison_join = None, occurrence_by_index = [],
     source_occurrences = [], has_union_before_aggregate = False,
     has_unsupported_set_operation = False, has_pivot = False\<rparr>"

definition input_of :: "LogicalOperator \<Rightarrow> string list \<Rightarrow> DeltaViewModelInput" where
  "input_of plan names = \<lparr>facts = facts_of plan, output_names = names,
     distinct_aux_candidate = None, filtered_group_count_aux_candidate = None,
     semi_anti_aux_candidate = None, has_unsupported_incremental_construct = False,
     keep_window_join_partitions = True, stored_query_has_aggregate_filter = False,
     stored_query_has_top_k = False, has_hidden_minmax_having = False,
     has_computed_minmax_aggregate_projection = False, has_ducklake_source = False\<rparr>"

definition count_by_region :: LogicalOperator where
  "count_by_region =
     (let h = \<lparr>expr_alias = [], GetName = ''region'', IsFoldable = False\<rparr> in
      LogicalOp LOGICAL_AGGREGATE_AND_GROUP_BY
        (no_info\<lparr>group_index := 5, groups := [BoundColumnRef h (0, 0)]\<rparr>)
        [BoundAggregate h ''count_star'' False [] None] [scan_of ''orders'' 0])"

lemmas classify_eval = ClassifyView_def FinishModel_def PrepareModel_def InitialColumns_def
  BuildModelFeatures_def PlanFeatures_def BuildUnsupportedReasons_def MarkOuterJoin_def
  BuildGroupColumns_def main_group_columns_def delim_aggregate_columns_def fallback_columns_def
  join_columns_def SelectRefreshType_def SelectGroupRecomputeAffectedMode_def
  AttachAuxRequirements_def BuildUpdateSemantics_def IsDistinctAtTop_def has_union_over_agg_def
  DeduplicateGroupColumns_def select_current_diff_def HasFeature_def add_feature_def add_reason_def
  add_unsupported_def add_semantics_def add_unique_def InitialModel_def IsInternalColumn_def
  IsAggregateRefreshType_def sample_helpers_def facts_of_def input_of_def INVALID_INDEX_def

lemma classify_count_by_region:
  "model_type (ClassifyView ref_env sample_helpers (input_of count_by_region [''region'', ''n''])) =
     AGGREGATE_GROUP"
  "group_columns (ClassifyView ref_env sample_helpers (input_of count_by_region [''region'', ''n''])) =
     [''region'']"
  by (simp_all add: classify_eval analysis_eval count_by_region_def EnumerateExpression.simps ref_env_def)

lemma classify_unknown_operator:
  "model_type (ClassifyView ref_env sample_helpers (input_of (LogicalOp (LOGICAL_OTHER 0) no_info [] []) [''x'']))
     = FULL_REFRESH"
  by (simp add: classify_eval analysis_eval ref_env_def)

section \<open>The choice of the strategy\<close>



text \<open>A strategy other than full refresh is only selected for an accepted plan, so every
  operator of the view's plan is one that delta maintenance supports.\<close>

theorem incremental_view_supported:
  assumes "model_type (ClassifyView E H input) \<noteq> FULL_REFRESH"
    and "analysis (facts input) = AnalyzePlan plan" and "list_all arity_ok (plan_operators plan)"
  shows "list_all operator_ok (plan_operators plan)"
proof -
  have "incremental_compatible (analysis (facts input))"
    using assms(1) select_incremental [of "analysis (facts input)" input "PrepareModel E H input"]
    by (simp add: ClassifyView_def)
  then have "incremental_compatible (AnalyzeNode plan InitialAnalysis)"
    using assms(2) by (simp add: AnalyzePlan_def)
  from compatible_AnalyzeNode [OF this assms(3)] show ?thesis by simp
qed

theorem incremental_view_supported_witness:
  "list_all operator_ok (plan_operators count_by_region)"
proof (rule incremental_view_supported
    [of ref_env sample_helpers "input_of count_by_region [''region'', ''n'']"])
  show "list_all arity_ok (plan_operators count_by_region)"
    by (simp add: count_by_region_def plan_operators.simps arity_ok_def scan_of_def Let_def)
qed (simp_all add: classify_count_by_region, simp add: input_of_def facts_of_def)

text \<open>Operators whose delta rules refuse to run (as-of joins, positional joins and
  samples) are never given a strategy that compiles a delta plan: such a view is refreshed
  in full, by diffing, by partition or by group recomputation.\<close>

theorem nonlocal_never_delta_compiled:
  assumes "found_asof_join (analysis (facts input)) \<or> found_positional_join (analysis (facts input)) \<or>
           found_sample (analysis (facts input))"
  shows "model_type (ClassifyView E H input)
           \<in> {FULL_REFRESH, CURRENT_DIFF_RECOMPUTE, WINDOW_PARTITION, GROUP_RECOMPUTE}"
  using select_nonlocal [of "analysis (facts input)" input "PrepareModel E H input"] assms
  by (simp add: ClassifyView_def)

theorem nonlocal_never_delta_compiled_witness:
  "model_type (ClassifyView ref_env sample_helpers
     (input_of (LogicalOp LOGICAL_SAMPLE (no_info\<lparr>sample_seed_valid := True\<rparr>) [] [scan_of ''t'' 0]) [''x'']))
     \<in> {FULL_REFRESH, CURRENT_DIFF_RECOMPUTE, WINDOW_PARTITION, GROUP_RECOMPUTE}"
  by (rule nonlocal_never_delta_compiled)
    (simp add: input_of_def facts_of_def analysis_eval AnalyzeSample_def)

text \<open>The merge strategies have keys to merge on. \<open>AGGREGATE_GROUP\<close> and
  \<open>AGGREGATE_HAVING\<close> always come with group columns; \<open>GROUP_RECOMPUTE\<close> comes with group
  columns unless the view aggregates over an inner \<open>DISTINCT\<close>.\<close>

theorem keyed_strategies_have_keys:
  assumes "model_type (ClassifyView E H input)
             \<in> {AGGREGATE_GROUP, RefreshType.AGGREGATE_HAVING, GROUP_RECOMPUTE}"
  shows "group_columns (ClassifyView E H input) \<noteq> [] \<or>
         (model_type (ClassifyView E H input) = GROUP_RECOMPUTE \<and>
          found_distinct (analysis (facts input)) \<and> found_aggregation (analysis (facts input)) \<and>
          \<not> distinct_at_top (ClassifyView E H input))"
  using assms select_keys [of "analysis (facts input)" input "PrepareModel E H input"]
    select_group_recompute [of "analysis (facts input)" input "PrepareModel E H input"]
  by (auto simp: ClassifyView_def)

theorem keyed_strategies_have_keys_witness:
  "group_columns (ClassifyView ref_env sample_helpers (input_of count_by_region [''region'', ''n''])) \<noteq> []"
  using keyed_strategies_have_keys [of ref_env sample_helpers "input_of count_by_region [''region'', ''n'']"]
  by (simp only: classify_count_by_region) simp

text \<open>An auxiliary-state strategy always has its state. When the strategy is
  \<open>DISTINCT_INCREMENTAL\<close> or \<open>SEMI_ANTI_RECOMPUTE\<close> the caller supplied the candidate, so the
  assertions of \<open>AttachAuxRequirements\<close> hold, and the model carries exactly that candidate.\<close>

theorem aux_strategy_has_state:
  "(model_type (ClassifyView E H input) = DISTINCT_INCREMENTAL \<longrightarrow>
      distinct_aux_candidate input = Some (distinct_aux (ClassifyView E H input))) \<and>
   (model_type (ClassifyView E H input) = SEMI_ANTI_RECOMPUTE \<longrightarrow>
      semi_anti_aux_candidate input = Some (semi_anti_aux (ClassifyView E H input)))"
proof -
  define p where "p = PrepareModel E H input"
  define s where "s = SelectRefreshType (analysis (facts input)) input p"
  have view: "ClassifyView E H input = FinishModel input s"
    by (simp add: ClassifyView_def p_def s_def)
  have aux: "distinct_aux (AttachAuxRequirements input m) = the (distinct_aux_candidate input)"
    if "model_type m = DISTINCT_INCREMENTAL" for m
    using that unfolding AttachAuxRequirements_def Let_def by (simp split: option.split)
  have semi: "semi_anti_aux (AttachAuxRequirements input m) = the (semi_anti_aux_candidate input)"
    if "model_type m = SEMI_ANTI_RECOMPUTE" for m
    using that unfolding AttachAuxRequirements_def Let_def by (simp split: option.split)
  have "distinct_aux_candidate input \<noteq> None" if "model_type s = DISTINCT_INCREMENTAL"
    using that select_aux [of "analysis (facts input)" input p] PrepareModel_features(2) [of E H input]
    unfolding s_def p_def by blast
  moreover have "semi_anti_aux_candidate input \<noteq> None" if "model_type s = SEMI_ANTI_RECOMPUTE"
    using that select_aux [of "analysis (facts input)" input p] PrepareModel_features(3) [of E H input]
    unfolding s_def p_def by blast
  ultimately show ?thesis
    unfolding view by (auto simp: FinishModel_def Let_def aux semi)
qed

definition sample_semi_aux :: SemiAntiAuxMeta where
  "sample_semi_aux = EmptySemiAntiAux\<lparr>semi_aux_table := ''openivm_semi_anti_state_v''\<rparr>"

definition semi_join_input :: DeltaViewModelInput where
  "semi_join_input =
     (input_of (join_of JOIN_SEMI (scan_of ''orders'' 0) (scan_of ''paid'' 1)) [''id''])
       \<lparr>semi_anti_aux_candidate := Some sample_semi_aux\<rparr>"

theorem aux_strategy_has_state_witness:
  "model_type (ClassifyView ref_env sample_helpers semi_join_input) = SEMI_ANTI_RECOMPUTE \<and>
   semi_anti_aux (ClassifyView ref_env sample_helpers semi_join_input) = sample_semi_aux"
proof -
  have "model_type (ClassifyView ref_env sample_helpers semi_join_input) = SEMI_ANTI_RECOMPUTE"
    by (simp add: semi_join_input_def classify_eval analysis_eval ref_env_def)
  with aux_strategy_has_state [of ref_env sample_helpers semi_join_input] show ?thesis
    by (simp add: semi_join_input_def)
qed

text \<open>Deduplication makes visible group columns pairwise distinct, and the search for an
  unused suffix ends within as many rounds as there are names already taken.\<close>

theorem group_columns_distinct:
  assumes "list_all (\<lambda>n. \<not> IsInternalColumn E n) names"
  shows "distinct (DeduplicateGroupColumns E names)"
  using dedup_loop_distinct [OF assms] by (simp add: DeduplicateGroupColumns_def)

theorem group_columns_distinct_witness:
  "distinct (DeduplicateGroupColumns ref_env [''id'', ''id'', ''id_1''])"
  by (rule group_columns_distinct) (simp add: IsInternalColumn_def ref_env_def)

end
