(* ===== verification/Delta_Model.thy ===== *)
theory Delta_Model
  imports Classifier "HOL-Library.List_Lexorder" "HOL-Library.Char_ord"
begin

text \<open>
  \<open>core/ivm_delta_model.cpp\<close>: the intermediate representation of a view's plan. One node per
  operator, in post-order, with its kind, delta rule, maintenance and auxiliary state; the
  affected domains; the column lineage; and the invariants that the code asserts
  (\<open>ValidateDeltaViewModelInvariants\<close>). The root of the plan is the operator with the empty
  path, so \<open>op == facts.root\<close> is \<open>path = []\<close>.
\<close>

section \<open>Names\<close>

definition ContainsStringCI :: "duckdb_env \<Rightarrow> string list \<Rightarrow> string \<Rightarrow> bool" where
  "ContainsStringCI E vals candidate = list_ex (\<lambda>v. CIEquals E v candidate) vals"

definition AddStringCI :: "duckdb_env \<Rightarrow> string \<Rightarrow> string list \<Rightarrow> string list" where
  "AddStringCI E candidate vals =
     (if candidate \<noteq> [] \<and> \<not> ContainsStringCI E vals candidate then vals @ [candidate] else vals)"

definition AddOutputColumnName ::
    "duckdb_env \<Rightarrow> string \<Rightarrow> string list \<times> string list \<Rightarrow> string list \<times> string list" where
  "AddOutputColumnName E name cols =
     (if name = [] then cols
      else (let (visible, hidden) = cols in
        if IsInternalColumn E name then (visible, AddStringCI E name hidden)
        else (AddStringCI E name visible, hidden)))"

definition SplitOutputColumns ::
    "duckdb_env \<Rightarrow> string list \<Rightarrow> string list \<times> string list \<Rightarrow> string list \<times> string list" where
  "SplitOutputColumns E input cols = fold (AddOutputColumnName E) input cols"

definition AddExpressionNames ::
    "duckdb_env \<Rightarrow> Expression list \<Rightarrow> string list \<times> string list \<Rightarrow> string list \<times> string list" where
  "AddExpressionNames E es cols =
     fold (\<lambda>e. AddOutputColumnName E
       (if expr_alias (head_of e) = [] then GetName (head_of e) else expr_alias (head_of e))) es cols"

definition SourceTablesFromFacts :: "duckdb_env \<Rightarrow> CreateMVPlanFacts \<Rightarrow> string list" where
  "SourceTablesFromFacts E fs =
     (let tables = fold (\<lambda>oc. AddStringCI E (occ_table oc)) (source_occurrences fs) []
      in if tables = [] then sort_key (Lower E) (fold (AddStringCI E) (source_table_info fs) [])
         else tables)"

definition SourceTablesFromChildren :: "duckdb_env \<Rightarrow> DeltaViewModel \<Rightarrow> idx_t list \<Rightarrow> string list" where
  "SourceTablesFromChildren E model ids =
     fold (\<lambda>id tables. if id \<ge> length (nodes model) then tables
             else fold (AddStringCI E) (source_tables (nodes model ! id)) tables) ids []"

section \<open>Kinds, rules and maintenance\<close>

definition NodeKindForOperator :: "LogicalOperator \<Rightarrow> DeltaModelNodeKind" where
  "NodeKindForOperator op =
     (case op_type op of
        LOGICAL_GET \<Rightarrow> Kind_SCAN
      | LOGICAL_FILTER \<Rightarrow> Kind_FILTER
      | LOGICAL_PROJECTION \<Rightarrow> Kind_PROJECT
      | LOGICAL_AGGREGATE_AND_GROUP_BY \<Rightarrow> Kind_AGGREGATE
      | LOGICAL_WINDOW \<Rightarrow> Kind_WINDOW
      | LOGICAL_DISTINCT \<Rightarrow> Kind_DISTINCT
      | LOGICAL_UNION \<Rightarrow> Kind_UNION
      | LOGICAL_TOP_N \<Rightarrow> Kind_TOP_K
      | LOGICAL_LIMIT \<Rightarrow> Kind_TOP_K
      | LOGICAL_ORDER_BY \<Rightarrow> Kind_TOP_K
      | LOGICAL_UNNEST \<Rightarrow> Kind_UNNEST
      | LOGICAL_ASOF_JOIN \<Rightarrow> Kind_ASOF_JOIN
      | LOGICAL_POSITIONAL_JOIN \<Rightarrow> Kind_POSITIONAL_JOIN
      | LOGICAL_SAMPLE \<Rightarrow> Kind_SAMPLE
      | LOGICAL_DUMMY_SCAN \<Rightarrow> Kind_CONSTANT
      | LOGICAL_EXPRESSION_GET \<Rightarrow> Kind_CONSTANT
      | LOGICAL_CHUNK_GET \<Rightarrow> Kind_CONSTANT
      | LOGICAL_CTE_REF \<Rightarrow> Kind_CTE
      | LOGICAL_MATERIALIZED_CTE \<Rightarrow> Kind_CTE
      | t \<Rightarrow>
          (if t \<in> {LOGICAL_COMPARISON_JOIN, LOGICAL_ANY_JOIN, LOGICAL_DEPENDENT_JOIN,
                   LOGICAL_DELIM_JOIN, LOGICAL_JOIN, LOGICAL_CROSS_PRODUCT}
           then (if join_type (op_info op) \<in> {Some JOIN_SEMI, Some JOIN_ANTI, Some JOIN_MARK}
                 then Kind_SEMI_ANTI else Kind_JOIN)
           else Kind_OTHER))"

definition RuleKindForNode ::
    "DeltaModelNodeKind \<Rightarrow> LogicalOperator \<Rightarrow> DeltaViewModel \<Rightarrow> PlanAnalysis \<Rightarrow> DeltaRuleKind" where
  "RuleKindForNode k op model a =
     (if unsupported_reasons model \<noteq> [] then Rule_FULL_ONLY
      else if k \<in> {Kind_SCAN, Kind_FILTER, Kind_PROJECT, Kind_UNION, Kind_UNNEST, Kind_CTE, Kind_CONSTANT}
        then Rule_LINEAR
      else if k = Kind_JOIN then
        (if join_type (op_info op) \<in> {Some JOIN_LEFT, Some JOIN_RIGHT, Some JOIN_OUTER}
         then Rule_STATEFUL else Rule_PRODUCT)
      else if k = Kind_ASOF_JOIN then Rule_STATEFUL
      else if k \<in> {Kind_POSITIONAL_JOIN, Kind_SAMPLE} then Rule_NON_LINEAR
      else if k = Kind_AGGREGATE then
        (if found_minmax a \<or> found_count_distinct a \<or> found_list a \<or> found_filtered_list a
         then Rule_NON_LINEAR else Rule_STATEFUL)
      else if k \<in> {Kind_WINDOW, Kind_DISTINCT, Kind_SEMI_ANTI, Kind_TOP_K} then Rule_STATEFUL
      else Rule_FULL_ONLY)"

definition AddNodeAuxRequirements :: "DeltaViewModel \<Rightarrow> DeltaModelNode \<Rightarrow> DeltaModelNode" where
  "AddNodeAuxRequirements model node =
     (let n = step_if (HasDistinctAux model \<and> kind node = Kind_DISTINCT)
                (\<lambda>n. n\<lparr>required_aux_states := add_unique (required_aux_states n) Aux_DISTINCT_COUNT\<rparr>) node;
          n = step_if (HasFilteredGroupCountAux model \<and> kind node = Kind_AGGREGATE)
                (\<lambda>n. n\<lparr>required_aux_states := add_unique (required_aux_states n) Aux_FILTERED_GROUP_COUNT\<rparr>) n
      in step_if (HasSemiAntiAux model \<and> kind node = Kind_SEMI_ANTI)
           (\<lambda>n. n\<lparr>required_aux_states := add_unique (required_aux_states n) Aux_SEMI_ANTI_MATCH\<rparr>) n)"

definition reason_concerns :: "DeltaUnsupportedReason \<Rightarrow> DeltaModelNodeKind \<Rightarrow> bool" where
  "reason_concerns reason k =
     (case reason of
        No_UNSUPPORTED_UNNEST \<Rightarrow> k = Kind_UNNEST
      | No_UNSUPPORTED_AGGREGATE \<Rightarrow> k = Kind_AGGREGATE
      | No_UNSUPPORTED_FILTERED_AGGREGATE \<Rightarrow> k = Kind_AGGREGATE
      | No_GROUPING_SETS_NO_KEYS \<Rightarrow> k = Kind_AGGREGATE
      | No_FILTERED_LIST_NO_KEYS \<Rightarrow> k = Kind_AGGREGATE
      | No_UNSUPPORTED_JOIN_TYPE \<Rightarrow> k = Kind_JOIN \<or> k = Kind_SEMI_ANTI
      | No_SEMI_ANTI_WITH_AGGREGATE \<Rightarrow> k = Kind_SEMI_ANTI
      | No_SEMI_ANTI_MISSING_AUX \<Rightarrow> k = Kind_SEMI_ANTI
      | No_UNSUPPORTED_ORDER_BY \<Rightarrow> k = Kind_TOP_K
      | _ \<Rightarrow> False)"

definition AddNodeUnsupportedReasons :: "DeltaViewModel \<Rightarrow> DeltaModelNode \<Rightarrow> DeltaModelNode" where
  "AddNodeUnsupportedReasons model node =
     fold (\<lambda>reason n. if reason_concerns reason (kind n)
             then n\<lparr>node_unsupported_reasons := add_unique (node_unsupported_reasons n) reason\<rparr> else n)
       (unsupported_reasons model) node"

definition add_node_semantics :: "DeltaUpdateSemantics list \<Rightarrow> DeltaModelNode \<Rightarrow> DeltaModelNode" where
  "add_node_semantics us node =
     node\<lparr>node_update_semantics := foldl add_unique (node_update_semantics node) us\<rparr>"

definition AddNodeUpdateSemantics :: "duckdb_env \<Rightarrow> DeltaViewModel \<Rightarrow> DeltaModelNode \<Rightarrow> DeltaModelNode" where
  "AddNodeUpdateSemantics E model node =
     (if rule node = Rule_FULL_ONLY then node
      else
        (let n = step_if (kind node = Kind_PROJECT)
                   (add_node_semantics [Upd_APPEND_ONLY_SAFE, Upd_PROJECTION_DELETE_SKIP_SAFE]) node;
             n = step_if (kind node = Kind_AGGREGATE \<and> HasFeature model Feature_AGGREGATE_LINEAR)
                   (add_node_semantics [Upd_APPEND_ONLY_SAFE, Upd_AGGREGATE_DELETE_SKIP_SAFE]) n;
             n = step_if (kind node = Kind_AGGREGATE \<and> HasFeature model Feature_AGGREGATE_NON_LINEAR \<and>
                   HasFeature model Feature_COUNT_DISTINCT_STATEFUL)
                   (add_node_semantics [Upd_DELETE_SENSITIVE, Upd_UPDATE_SENSITIVE]) n;
             n = step_if (kind node = Kind_AGGREGATE \<and>
                   (ContainsStringCI E (model_aggregate_types model) ''min'' \<or>
                    ContainsStringCI E (model_aggregate_types model) ''max''))
                   (add_node_semantics [Upd_MINMAX_INSERT_ONLY_SAFE]) n
         in step_if (kind node \<in> {Kind_JOIN, Kind_ASOF_JOIN, Kind_POSITIONAL_JOIN, Kind_SAMPLE,
                       Kind_WINDOW, Kind_DISTINCT, Kind_SEMI_ANTI})
              (add_node_semantics [Upd_DELETE_SENSITIVE, Upd_UPDATE_SENSITIVE]) n))"

definition NodeHasAuxState :: "DeltaModelNode \<Rightarrow> bool" where
  "NodeHasAuxState node = (required_aux_states node \<noteq> [])"

definition maintain :: "DeltaMaintenanceMode \<Rightarrow> DeltaMaintenanceStateKind \<Rightarrow> DeltaNodeMaintenance" where
  "maintain md st = \<lparr>mode = md, maintenance_state = st\<rparr>"

definition BuildNodeMaintenance :: "DeltaViewModel \<Rightarrow> DeltaModelNode \<Rightarrow> DeltaNodeMaintenance" where
  "BuildNodeMaintenance model node =
     (if rule node = Rule_FULL_ONLY \<or> node_unsupported_reasons node \<noteq> []
      then maintain Mode_FULL_RECOMPUTE State_NONE
      else
        (let k = kind node in
         if k \<in> {Kind_SCAN, Kind_FILTER, Kind_PROJECT, Kind_UNION, Kind_UNNEST, Kind_CTE, Kind_CONSTANT}
           then maintain Mode_DELTA_ONLY State_NONE
         else if k = Kind_JOIN then maintain Mode_DELTA_WITH_STATE State_CURRENT_RELATION
         else if k \<in> {Kind_ASOF_JOIN, Kind_POSITIONAL_JOIN, Kind_SAMPLE}
           then maintain Mode_AFFECTED_DOMAIN_RECOMPUTE State_MV_DATA
         else if k = Kind_AGGREGATE then
           (if model_type model = GROUP_RECOMPUTE
            then maintain Mode_AFFECTED_DOMAIN_RECOMPUTE State_MV_DATA
            else maintain Mode_DELTA_WITH_STATE
                   (if NodeHasAuxState node then State_AUX_TABLE else State_MV_DATA))
         else if k = Kind_WINDOW then maintain Mode_AFFECTED_DOMAIN_RECOMPUTE State_MV_DATA
         else if k \<in> {Kind_DISTINCT, Kind_SEMI_ANTI} then
           (if NodeHasAuxState node then maintain Mode_DELTA_WITH_STATE State_AUX_TABLE
            else maintain Mode_AFFECTED_DOMAIN_RECOMPUTE State_MV_DATA)
         else if k = Kind_TOP_K then maintain Mode_AFFECTED_DOMAIN_RECOMPUTE State_MV_DATA
         else maintain Mode_FULL_RECOMPUTE State_NONE))"

section \<open>Building the nodes\<close>

definition EmptyNode :: DeltaModelNode where
  "EmptyNode = \<lparr>node_id = INVALID_INDEX, kind = Kind_OTHER, rule = Rule_FULL_ONLY, plan_node = None,
     node_children = [], source_table = [], source_occurrence = INVALID_INDEX,
     source_table_index = INVALID_INDEX, source_tables = [], output_columns = [],
     hidden_columns = [], affected_key_columns = [],
     maintenance = maintain Mode_FULL_RECOMPUTE State_NONE, node_update_semantics = [],
     node_unsupported_reasons = [], required_aux_states = [], node_affected_domains = [],
     node_lineage_facts = []\<rparr>"

definition set_columns :: "(string list \<times> string list \<Rightarrow> string list \<times> string list) \<Rightarrow>
    DeltaModelNode \<Rightarrow> DeltaModelNode" where
  "set_columns f node =
     (let (visible, hidden) = f (output_columns node, hidden_columns node)
      in node\<lparr>output_columns := visible, hidden_columns := hidden\<rparr>)"

definition scan_source :: "duckdb_env \<Rightarrow> CreateMVPlanFacts \<Rightarrow> LogicalOperator \<Rightarrow> DeltaModelNode \<Rightarrow> DeltaModelNode" where
  "scan_source E fs op node =
     (case map_of (occurrence_by_index fs) (table_index (op_info op)) of
        None \<Rightarrow> node
      | Some oc \<Rightarrow> node\<lparr>source_table := occ_table oc, source_occurrence := occurrence oc,
          source_table_index := occ_table_index oc,
          source_tables := AddStringCI E (occ_table oc) (source_tables node)\<rparr>)"

definition MakeModelNode ::
    "duckdb_env \<Rightarrow> CreateMVPlanFacts \<Rightarrow> string list \<Rightarrow> nat list \<Rightarrow> LogicalOperator \<Rightarrow> idx_t list \<Rightarrow>
     DeltaViewModel \<Rightarrow> DeltaModelNode" where
  "MakeModelNode E fs names path op ids model =
     (let k = NodeKindForOperator op;
          n = EmptyNode\<lparr>kind := k, rule := RuleKindForNode k op model (analysis fs),
                plan_node := Some path, node_children := ids,
                source_tables := SourceTablesFromChildren E model ids\<rparr>;
          n = AddNodeAuxRequirements model n;
          n = AddNodeUnsupportedReasons model n;
          n = AddNodeUpdateSemantics E model n;
          n = (if k = Kind_SCAN then
                 set_columns (SplitOutputColumns E (get_names (op_info op))) (scan_source E fs op n)
               else if k \<in> {Kind_PROJECT, Kind_WINDOW, Kind_DISTINCT, Kind_TOP_K}
               then set_columns (AddExpressionNames E (expressions op)) n else n);
          n = step_if (k = Kind_AGGREGATE)
                (\<lambda>n. set_columns (AddExpressionNames E (expressions op) \<circ>
                   SplitOutputColumns E (group_columns model))
                   (n\<lparr>affected_key_columns := group_columns model\<rparr>)) n;
          n = step_if (k = Kind_WINDOW) (\<lambda>n. n\<lparr>affected_key_columns := model_window_columns model\<rparr>) n
      in step_if (path = []) (set_columns (SplitOutputColumns E names)) n)"

definition AddModelNode :: "DeltaModelNode \<Rightarrow> DeltaViewModel \<Rightarrow> DeltaViewModel \<times> idx_t" where
  "AddModelNode node model =
     (let id = length (nodes model)
      in (model\<lparr>nodes := nodes model @ [node\<lparr>node_id := id\<rparr>]\<rparr>, id))"

fun BuildModelNodeForPlan ::
    "duckdb_env \<Rightarrow> CreateMVPlanFacts \<Rightarrow> string list \<Rightarrow> nat list \<Rightarrow> LogicalOperator \<Rightarrow>
     DeltaViewModel \<Rightarrow> DeltaViewModel \<times> idx_t"
  and build_children ::
    "duckdb_env \<Rightarrow> CreateMVPlanFacts \<Rightarrow> string list \<Rightarrow> nat list \<Rightarrow> nat \<Rightarrow> LogicalOperator list \<Rightarrow>
     DeltaViewModel \<Rightarrow> DeltaViewModel \<times> idx_t list" where
  "BuildModelNodeForPlan E fs names path (LogicalOp t i es cs) model =
     (let (model', ids) = build_children E fs names path 0 cs model
      in AddModelNode (MakeModelNode E fs names path (LogicalOp t i es cs) ids model') model')"
| "build_children E fs names path i [] model = (model, [])"
| "build_children E fs names path i (c # cs) model =
     (let (model', id) = BuildModelNodeForPlan E fs names (path @ [i]) c model;
          (model'', ids) = build_children E fs names path (i + 1) cs model'
      in (model'', if id \<noteq> INVALID_INDEX then id # ids else ids))"

definition RefreshDeltaNodeMaintenance :: "DeltaViewModel \<Rightarrow> DeltaViewModel" where
  "RefreshDeltaNodeMaintenance model =
     model\<lparr>nodes := map (\<lambda>n. n\<lparr>maintenance := BuildNodeMaintenance model n\<rparr>) (nodes model)\<rparr>"

definition BuildDeltaModelNodes ::
    "duckdb_env \<Rightarrow> CreateMVPlanFacts \<Rightarrow> string list \<Rightarrow> DeltaViewModel \<Rightarrow> DeltaViewModel" where
  "BuildDeltaModelNodes E fs names model =
     (let m = model\<lparr>nodes := []\<rparr>;
          (m, id) = (case root fs of
             None \<Rightarrow> (m, INVALID_INDEX)
           | Some op \<Rightarrow> BuildModelNodeForPlan E fs names [] op m)
      in RefreshDeltaNodeMaintenance (m\<lparr>root_node := id\<rparr>))"

section \<open>Affected domains and lineage\<close>

definition FindFirstNodeId :: "DeltaViewModel \<Rightarrow> DeltaModelNodeKind \<Rightarrow> idx_t" where
  "FindFirstNodeId model k =
     (case filter (\<lambda>n. kind n = k) (nodes model) of [] \<Rightarrow> INVALID_INDEX | n # _ \<Rightarrow> node_id n)"

text \<open>The scan loop: with an occurrence the first node of that occurrence, without one the
  only matching node.\<close>

definition FindSourceScanNodeId :: "duckdb_env \<Rightarrow> DeltaViewModel \<Rightarrow> string \<Rightarrow> idx_t \<Rightarrow> idx_t" where
  "FindSourceScanNodeId E model table occ =
     (let scans = filter (\<lambda>n. kind n = Kind_SCAN \<and> CIEquals E (source_table n) table) (nodes model)
      in if occ \<noteq> INVALID_INDEX then
           (case filter (\<lambda>n. source_occurrence n = occ) scans of
              [] \<Rightarrow> INVALID_INDEX | n # _ \<Rightarrow> node_id n)
         else (case scans of [n] \<Rightarrow> node_id n | _ \<Rightarrow> INVALID_INDEX))"

definition FindRootOrFirstNodeId :: "DeltaViewModel \<Rightarrow> DeltaModelNodeKind \<Rightarrow> idx_t" where
  "FindRootOrFirstNodeId model k =
     (if root_node model \<noteq> INVALID_INDEX \<and> root_node model < length (nodes model) \<and>
         kind (nodes model ! root_node model) = k
      then root_node model else FindFirstNodeId model k)"

definition AddLineageFact :: "duckdb_env \<Rightarrow> DeltaLineageFact \<Rightarrow> DeltaViewModel \<Rightarrow> DeltaViewModel" where
  "AddLineageFact E lf model =
     (let f = lf\<lparr>fact_node_id :=
                FindSourceScanNodeId E model (fact_source_table lf) (fact_source_occurrence lf)\<rparr>;
          id = fact_node_id f;
          m = (if id \<noteq> INVALID_INDEX \<and> id < length (nodes model)
               then model\<lparr>nodes := (nodes model)[id := (nodes model ! id)
                      \<lparr>node_lineage_facts := node_lineage_facts (nodes model ! id) @ [f]\<rparr>]\<rparr>
               else model)
      in m\<lparr>lineage_facts := lineage_facts m @ [f]\<rparr>)"

definition same_domain :: "duckdb_env \<Rightarrow> DeltaAffectedDomain \<Rightarrow> DeltaAffectedDomain \<Rightarrow> bool" where
  "same_domain E x y \<longleftrightarrow>
     domain_kind x = domain_kind y \<and> list_all2 (CIEquals E) (key_columns x) (key_columns y)"

definition AddAffectedDomain :: "duckdb_env \<Rightarrow> DeltaAffectedDomain \<Rightarrow> DeltaViewModel \<Rightarrow> DeltaViewModel" where
  "AddAffectedDomain E new_domain model =
     (if list_ex (\<lambda>existing. same_domain E existing new_domain) (affected_domains model) then model
      else
        (let id = domain_node_id new_domain;
             m = (if id \<noteq> INVALID_INDEX \<and> id < length (nodes model)
                  then model\<lparr>nodes := (nodes model)[id := (nodes model ! id)
                         \<lparr>node_affected_domains := node_affected_domains (nodes model ! id) @ [new_domain]\<rparr>]\<rparr>
                  else model)
         in m\<lparr>affected_domains := affected_domains m @ [new_domain]\<rparr>))"

definition group_domain :: "duckdb_env \<Rightarrow> CreateMVPlanFacts \<Rightarrow> DeltaViewModel \<Rightarrow> DeltaAffectedDomain" where
  "group_domain E fs model = \<lparr>domain_kind = Domain_GROUP,
     domain_node_id = FindRootOrFirstNodeId model Kind_AGGREGATE,
     key_columns = group_columns model, domain_source_tables = SourceTablesFromFacts E fs,
     delta_local = (\<not> found_join (analysis fs) \<and> length (source_occurrences fs) \<le> 1),
     needs_base_lookup = found_join (analysis fs)\<rparr>"

definition semi_anti_domain :: "duckdb_env \<Rightarrow> DeltaViewModel \<Rightarrow> DeltaAffectedDomain" where
  "semi_anti_domain E model = \<lparr>domain_kind = Domain_SEMI_ANTI_PREDICATE,
     domain_node_id = FindFirstNodeId model Kind_SEMI_ANTI,
     key_columns = left_cols (semi_anti_aux model),
     domain_source_tables = AddStringCI E (right_table (semi_anti_aux model))
       (AddStringCI E (left_table (semi_anti_aux model)) []),
     delta_local = False, needs_base_lookup = True\<rparr>"

definition BuildDeltaModelBaseAffectedDomains ::
    "duckdb_env \<Rightarrow> CreateMVPlanFacts \<Rightarrow> DeltaViewModel \<Rightarrow> DeltaViewModel" where
  "BuildDeltaModelBaseAffectedDomains E fs model =
     (let m = (if group_columns model \<noteq> [] then AddAffectedDomain E (group_domain E fs model) model
               else model)
      in if HasSemiAntiAux m then AddAffectedDomain E (semi_anti_domain E m) m else m)"

section \<open>The asserted invariants\<close>

definition node_valid :: "DeltaViewModel \<Rightarrow> DeltaModelNode \<Rightarrow> bool" where
  "node_valid model node \<longleftrightarrow>
     node_id node < length (nodes model) \<and> plan_node node \<noteq> None \<and>
     (kind node = Kind_SCAN \<and> source_table node \<noteq> [] \<longrightarrow>
        source_occurrence node \<noteq> INVALID_INDEX \<and> source_table_index node \<noteq> INVALID_INDEX) \<and>
     (rule node = Rule_FULL_ONLY \<longrightarrow> mode (maintenance node) = Mode_FULL_RECOMPUTE) \<and>
     list_all (\<lambda>d. domain_node_id d = node_id node) (node_affected_domains node) \<and>
     list_all (\<lambda>f. fact_node_id f = node_id node) (node_lineage_facts node)"

definition structure_valid :: "DeltaViewModel \<Rightarrow> bool" where
  "structure_valid model \<longleftrightarrow>
     (root_node model = INVALID_INDEX \<or> root_node model < length (nodes model)) \<and>
     list_all (node_valid model) (nodes model) \<and>
     list_all (\<lambda>d. domain_node_id d = INVALID_INDEX \<or> domain_node_id d < length (nodes model))
       (affected_domains model) \<and>
     list_all (\<lambda>f. fact_node_id f = INVALID_INDEX \<or> fact_node_id f < length (nodes model))
       (lineage_facts model)"

definition ValidateDeltaViewModelInvariants :: "DeltaViewModel \<Rightarrow> bool" where
  "ValidateDeltaViewModelInvariants model \<longleftrightarrow>
     (HasFeature model Feature_DISTINCT_STATEFUL \<longrightarrow> HasDistinctAux model) \<and>
     (HasFeature model Feature_SEMI_ANTI_STATEFUL \<longrightarrow> HasSemiAntiAux model) \<and>
     (HasFeature model Feature_WINDOW_AFFECTED_PARTITION \<longrightarrow> model_window_columns model \<noteq> []) \<and>
     (model_type model = DISTINCT_INCREMENTAL \<longrightarrow> HasFeature model Feature_DISTINCT_STATEFUL) \<and>
     (model_type model = SEMI_ANTI_RECOMPUTE \<longrightarrow> HasFeature model Feature_SEMI_ANTI_STATEFUL) \<and>
     structure_valid model"

definition BuildDeltaViewModel ::
    "duckdb_env \<Rightarrow> plan_helpers \<Rightarrow> DeltaViewModelInput \<Rightarrow> DeltaViewModel" where
  "BuildDeltaViewModel E H input =
     BuildDeltaModelBaseAffectedDomains E (facts input)
       (BuildDeltaModelNodes E (facts input) (output_names input) (ClassifyView E H input))"

section \<open>Lineage\<close>

text \<open>\<open>BuildWindowPartitionLineageOps\<close> returns its success, the operations and the direct
  operations; \<open>BuildProjectionKeyLineage\<close> an optional lineage.\<close>

record lineage_helpers =
  BuildWindowPartitionLineageOps :: "CreateMVPlanFacts \<Rightarrow> string list \<Rightarrow>
    bool \<times> WindowPartitionLineageOp list \<times> WindowPartitionLineageOp list"
  BuildProjectionKeyLineage :: "CreateMVPlanFacts \<Rightarrow> string list \<Rightarrow> ProjectionKeyLineage option"

definition WindowLineageCoversAllSources ::
    "duckdb_env \<Rightarrow> WindowPartitionLineageOp list \<Rightarrow> CreateMVPlanFacts \<Rightarrow> bool" where
  "WindowLineageCoversAllSources E ops fs =
     (let covered = map (\<lambda>p. Lower E (op_source p)) ops
      in list_all (\<lambda>oc. Lower E (occ_table oc) \<in> set covered) (source_occurrences fs) \<and> covered \<noteq> [])"

definition AsofRightSourceTables :: "duckdb_env \<Rightarrow> DeltaViewModel \<Rightarrow> string list" where
  "AsofRightSourceTables E model =
     fold (\<lambda>node tables.
         if kind node \<noteq> Kind_ASOF_JOIN \<or> length (node_children node) < 2 then tables
         else (let right = node_children node ! 1
               in if right \<ge> length (nodes model) then tables
                  else fold (AddStringCI E) (source_tables (nodes model ! right)) tables))
       (nodes model) []"

definition AsofWindowPartitionReadsRightSideDirectly ::
    "duckdb_env \<Rightarrow> WindowPartitionLineageOp list \<Rightarrow> DeltaViewModel \<Rightarrow> bool" where
  "AsofWindowPartitionReadsRightSideDirectly E ops model =
     (let rhs = AsofRightSourceTables E model
      in if rhs = [] then False
         else list_ex (\<lambda>p. op_kind p = ''direct'' \<and> ContainsStringCI E rhs (op_source p)) ops)"

definition EmptyFact :: DeltaLineageFact where
  "EmptyFact = \<lparr>fact_kind = Lineage_WINDOW_PARTITION, fact_node_id = INVALID_INDEX,
     fact_source_table = [], fact_source_occurrence = INVALID_INDEX, source_column = [],
     output_column = [], lookup_table = [], lookup_column = [], lookup_output_column = []\<rparr>"

definition window_fact :: "WindowPartitionLineageOp \<Rightarrow> DeltaLineageFact" where
  "window_fact p = EmptyFact\<lparr>fact_source_table := op_source p, source_column := op_source_col p,
     output_column := op_output_col p, lookup_table := op_lookup p, lookup_column := op_lookup_col p,
     lookup_output_column := op_lookup_out p\<rparr>"

definition window_domain :: "duckdb_env \<Rightarrow> DeltaViewModel \<Rightarrow> DeltaAffectedDomain" where
  "window_domain E model =
     (let lookups = list_ex (\<lambda>p. op_kind p = ''lookup'') (window_lineage_ops model)
      in \<lparr>domain_kind = Domain_WINDOW_PARTITION, domain_node_id = FindFirstNodeId model Kind_WINDOW,
          key_columns = model_window_columns model,
          domain_source_tables = fold (\<lambda>p. AddStringCI E (op_source p)) (window_lineage_ops model) [],
          delta_local = (\<not> lookups), needs_base_lookup = lookups\<rparr>)"

definition projection_fact :: "ProjectionKeyLineage \<Rightarrow> ProjectionKeyLineageArm \<Rightarrow> DeltaLineageFact" where
  "projection_fact lin arm =
     (let f = EmptyFact\<lparr>fact_kind := Lineage_PROJECTION_KEY, fact_source_table := arm_source arm,
            fact_source_occurrence := arm_occurrence arm, source_column := arm_source_col arm,
            output_column := lineage_output_col lin\<rparr>
      in if arm_steps arm = [] then f
         else f\<lparr>lookup_table := step_table (last (arm_steps arm)),
               lookup_column := step_lookup_col (last (arm_steps arm)),
               lookup_output_column := step_lookup_out (last (arm_steps arm))\<rparr>)"

definition projection_domain :: "duckdb_env \<Rightarrow> DeltaViewModel \<Rightarrow> ProjectionKeyLineage \<Rightarrow> DeltaAffectedDomain" where
  "projection_domain E model lin =
     (let lookups = list_ex (\<lambda>arm. arm_steps arm \<noteq> []) (arms lin)
      in \<lparr>domain_kind = Domain_PROJECTION_KEY, domain_node_id = FindRootOrFirstNodeId model Kind_PROJECT,
          key_columns = [lineage_output_col lin],
          domain_source_tables = fold (\<lambda>arm. AddStringCI E (arm_source arm)) (arms lin) [],
          delta_local = (\<not> lookups), needs_base_lookup = lookups\<rparr>)"

definition ResetLineage :: "DeltaViewModel \<Rightarrow> DeltaViewModel" where
  "ResetLineage model = model\<lparr>window_lineage_ops := [], has_projection_lineage := False,
     projection_lineage := EmptyProjectionLineage, lineage_facts := [],
     nodes := map (\<lambda>n. n\<lparr>node_lineage_facts := []\<rparr>) (nodes model)\<rparr>"

definition PopulateDeltaViewModelLineage ::
    "duckdb_env \<Rightarrow> lineage_helpers \<Rightarrow> CreateMVPlanFacts \<Rightarrow> string list \<Rightarrow> DeltaViewModel \<Rightarrow> DeltaViewModel" where
  "PopulateDeltaViewModelLineage E L fs names model =
     (let m = ResetLineage model; a = analysis fs in
      if model_type m = WINDOW_PARTITION then
        (let (has_lineage, ops, direct) = BuildWindowPartitionLineageOps L fs (model_window_columns m);
             m = m\<lparr>window_lineage_ops := ops\<rparr>
         in if found_asof_join a \<and>
               (\<not> has_lineage \<or> AsofWindowPartitionReadsRightSideDirectly E direct m \<or>
                \<not> WindowLineageCoversAllSources E ops fs)
            then add_reason Why_ASOF_CURRENT_DIFF_RECOMPUTE
                   (add_feature Feature_CURRENT_DIFF_RECOMPUTE
                     (m\<lparr>model_type := CURRENT_DIFF_RECOMPUTE, window_lineage_ops := []\<rparr>))
            else if has_lineage
            then AddAffectedDomain E (window_domain E m) (fold (\<lambda>p. AddLineageFact E (window_fact p)) ops m)
            else m)
      else
        (let m = (if model_type m = SIMPLE_PROJECTION \<and> \<not> found_left_join a \<and> \<not> found_full_outer a then
                    (case BuildProjectionKeyLineage L fs names of
                       None \<Rightarrow> m
                     | Some lin \<Rightarrow>
                         (let m = m\<lparr>projection_lineage := lin, has_projection_lineage := True\<rparr>
                          in AddAffectedDomain E (projection_domain E m lin)
                               (fold (\<lambda>arm. AddLineageFact E (projection_fact lin arm)) (arms lin) m)))
                  else m)
         in if HasSemiAntiAux m then
              fold (\<lambda>col. AddLineageFact E (EmptyFact\<lparr>fact_kind := Lineage_SEMI_ANTI_PREDICATE,
                     fact_source_table := left_table (semi_anti_aux m), source_column := col,
                     output_column := col\<rparr>)) (left_cols (semi_anti_aux m)) m
            else m))"

section \<open>The profile line\<close>

definition count_mode :: "DeltaViewModel \<Rightarrow> DeltaMaintenanceMode \<Rightarrow> nat" where
  "count_mode model md = length (filter (\<lambda>n. mode (maintenance n) = md) (nodes model))"

definition BuildDeltaViewModelProfileDetail :: "DeltaViewModel \<Rightarrow> string" where
  "BuildDeltaViewModelProfileDetail model =
     (let scans = length (filter (\<lambda>n. kind n = Kind_SCAN \<and> source_occurrence n \<noteq> INVALID_INDEX) (nodes model))
      in ''refresh_type='' @ RefreshTypeName (model_type model) @
         ''; group_cols='' @ nat_string (length (group_columns model)) @
         ''; model_nodes='' @ nat_string (length (nodes model)) @
         ''; group_recompute_mode='' @ GroupRecomputeAffectedModeName (group_recompute_affected_mode model) @
         ''; scan_occurrences='' @ nat_string scans @
         ''; model_domains='' @ nat_string (length (affected_domains model)) @
         ''; node_domains='' @ nat_string (sum_list (map (\<lambda>n. length (node_affected_domains n)) (nodes model))) @
         ''; lineage_entries='' @ nat_string (LineageEntryCount model) @
         ''; node_lineage='' @ nat_string (sum_list (map (\<lambda>n. length (node_lineage_facts n)) (nodes model))) @
         ''; node_semantics='' @ nat_string (sum_list (map (\<lambda>n. length (node_update_semantics n)) (nodes model))) @
         ''; node_unsupported='' @ nat_string (sum_list (map (\<lambda>n. length (node_unsupported_reasons n)) (nodes model))) @
         ''; delta_only_nodes='' @ nat_string (count_mode model Mode_DELTA_ONLY) @
         ''; delta_state_nodes='' @ nat_string (count_mode model Mode_DELTA_WITH_STATE) @
         ''; affected_recompute_nodes='' @ nat_string (count_mode model Mode_AFFECTED_DOMAIN_RECOMPUTE) @
         ''; full_recompute_nodes='' @ nat_string (count_mode model Mode_FULL_RECOMPUTE))"

section \<open>A node as it is built\<close>

definition fresh_node :: "CreateMVPlanFacts \<Rightarrow> nat list \<Rightarrow> LogicalOperator \<Rightarrow> idx_t list \<Rightarrow> DeltaModelNode \<Rightarrow> bool" where
  "fresh_node fs path op ids n \<longleftrightarrow>
     kind n = NodeKindForOperator op \<and> plan_node n = Some path \<and> node_children n = ids \<and>
     node_affected_domains n = [] \<and> node_lineage_facts n = [] \<and>
     (source_table n \<noteq> [] \<longrightarrow> (\<exists>oc \<in> snd ` set (occurrence_by_index fs).
        source_occurrence n = occurrence oc \<and> source_table_index n = occ_table_index oc))"

lemma fresh_node_set_columns [simp]: "fresh_node fs path op ids (set_columns f n) = fresh_node fs path op ids n"
  by (simp add: set_columns_def fresh_node_def split: prod.split)

lemma fresh_node_semantics [simp]:
  "fresh_node fs path op ids (AddNodeUpdateSemantics E model n) = fresh_node fs path op ids n"
proof -
  have step: "fresh_node fs path op ids (step_if b (add_node_semantics us) m) = fresh_node fs path op ids m"
    "kind (step_if b (add_node_semantics us) m) = kind m" for b us m
    by (simp_all add: step_if_def add_node_semantics_def fresh_node_def)
  show ?thesis unfolding AddNodeUpdateSemantics_def Let_def by (simp add: step)
qed

lemma fresh_node_reasons [simp]:
  "fresh_node fs path op ids (AddNodeUnsupportedReasons model n) = fresh_node fs path op ids n"
proof -
  have "fresh_node fs path op ids (fold (\<lambda>reason n. if reason_concerns reason (kind n)
      then n\<lparr>node_unsupported_reasons := add_unique (node_unsupported_reasons n) reason\<rparr> else n) rs n)
      = fresh_node fs path op ids n" for rs
    by (induction rs arbitrary: n) (simp_all add: fresh_node_def)
  then show ?thesis by (simp add: AddNodeUnsupportedReasons_def)
qed

lemma fresh_node_aux [simp]:
  "fresh_node fs path op ids (AddNodeAuxRequirements model n) = fresh_node fs path op ids n"
  unfolding AddNodeAuxRequirements_def Let_def
  by (simp add: step_if_def fresh_node_def)

lemma fresh_node_scan: "fresh_node fs path op ids n \<Longrightarrow> fresh_node fs path op ids (scan_source E fs op' n)"
proof (cases "map_of (occurrence_by_index fs) (table_index (op_info op'))")
  case (Some oc)
  then have "oc \<in> snd ` set (occurrence_by_index fs)" by (force dest: map_of_SomeD)
  then show "fresh_node fs path op ids n \<Longrightarrow> fresh_node fs path op ids (scan_source E fs op' n)"
    by (auto simp: scan_source_def fresh_node_def Some)
qed (simp add: scan_source_def)

lemma MakeModelNode_fresh: "fresh_node fs path op ids (MakeModelNode E fs names path op ids model)"
proof -
  define k where "k = NodeKindForOperator op"
  have "fresh_node fs path op ids (EmptyNode\<lparr>kind := k, rule := r, plan_node := Some path,
      node_children := ids, source_tables := ts\<rparr>)" for r ts
    by (simp add: fresh_node_def EmptyNode_def k_def)
  then have "fresh_node fs path op ids (AddNodeUpdateSemantics E model (AddNodeUnsupportedReasons model
      (AddNodeAuxRequirements model (EmptyNode\<lparr>kind := k, rule := r, plan_node := Some path,
        node_children := ids, source_tables := ts\<rparr>))))" for r ts
    by simp
  note base = this fresh_node_scan [OF this]
  have keys: "fresh_node fs path op ids n \<Longrightarrow> fresh_node fs path op ids (n\<lparr>affected_key_columns := ks\<rparr>)" for n ks
    by (simp add: fresh_node_def)
  show ?thesis
    unfolding MakeModelNode_def Let_def k_def [symmetric] step_if_def
    by (intro if_cases [where Q = "fresh_node fs path op ids"]
        fresh_node_set_columns [THEN iffD2] base keys)
qed

section \<open>One node per operator, in post-order\<close>

fun post_order :: "nat list \<Rightarrow> LogicalOperator \<Rightarrow> (nat list \<times> LogicalOperator) list"
  and post_order_list :: "nat list \<Rightarrow> nat \<Rightarrow> LogicalOperator list \<Rightarrow> (nat list \<times> LogicalOperator) list" where
  "post_order path (LogicalOp t i es cs) = post_order_list path 0 cs @ [(path, LogicalOp t i es cs)]"
| "post_order_list path i [] = []"
| "post_order_list path i (c # cs) = post_order (path @ [i]) c @ post_order_list path (i + 1) cs"

lemma post_order_length:
  "length (post_order path op) = length (plan_operators op)"
  "length (post_order_list path i cs) = length (concat (map plan_operators cs))"
  by (induction path op and path i cs rule: post_order_post_order_list.induct)
    (simp_all, subst plan_operators.simps, simp)

text \<open>The node at position \<open>i\<close> stands for the operator at a path, and its children are the
  earlier nodes of the operator's children, in their order.\<close>

definition node_at :: "CreateMVPlanFacts \<Rightarrow> DeltaModelNode list \<Rightarrow> nat \<Rightarrow> nat list \<times> LogicalOperator \<Rightarrow> bool" where
  "node_at fs ns i po \<longleftrightarrow>
     node_id (ns ! i) = i \<and> fresh_node fs (fst po) (snd po) (node_children (ns ! i)) (ns ! i) \<and>
     length (node_children (ns ! i)) = length (children (snd po)) \<and>
     (\<forall>k < length (children (snd po)). node_children (ns ! i) ! k < i \<and>
        plan_node (ns ! (node_children (ns ! i) ! k)) = Some (fst po @ [k]))"

definition nodes_for ::
    "CreateMVPlanFacts \<Rightarrow> DeltaModelNode list \<Rightarrow> DeltaModelNode list \<Rightarrow> (nat list \<times> LogicalOperator) list \<Rightarrow> bool" where
  "nodes_for fs pre new po \<longleftrightarrow>
     length new = length po \<and> (\<forall>j < length po. node_at fs (pre @ new) (length pre + j) (po ! j))"

lemma node_at_append:
  assumes "i < length ns" "node_at fs ns i po"
  shows "node_at fs (ns @ ms) i po"
  using assms by (auto simp: node_at_def nth_append)

lemma nodes_for_append:
  assumes "nodes_for fs pre new1 po1" "nodes_for fs (pre @ new1) new2 po2"
  shows "nodes_for fs pre (new1 @ new2) (po1 @ po2)"
  unfolding nodes_for_def
proof (intro conjI allI impI)
  show "length (new1 @ new2) = length (po1 @ po2)" using assms by (simp add: nodes_for_def)
  fix j assume j: "j < length (po1 @ po2)"
  show "node_at fs (pre @ (new1 @ new2)) (length pre + j) ((po1 @ po2) ! j)"
  proof (cases "j < length po1")
    case True
    then have "node_at fs (pre @ new1) (length pre + j) (po1 ! j)" using assms(1) by (simp add: nodes_for_def)
    from node_at_append [OF _ this, of new2] show ?thesis
      using True assms(1) by (simp add: nodes_for_def nth_append)
  next
    case False
    define j' where "j' = j - length po1"
    have "j' < length po2" using j False by (simp add: j'_def)
    then have "node_at fs ((pre @ new1) @ new2) (length (pre @ new1) + j') (po2 ! j')"
      using assms(2) by (simp add: nodes_for_def)
    moreover have "length (pre @ new1) + j' = length pre + j"
      using False assms(1) by (simp add: nodes_for_def j'_def)
    ultimately show ?thesis using False by (simp add: nth_append j'_def)
  qed
qed

lemma BuildModelNodeForPlan_nodes:
  "length (nodes model) + length (post_order path op) < INVALID_INDEX \<Longrightarrow>
     (\<exists>new. BuildModelNodeForPlan E fs names path op model
        = (model\<lparr>nodes := nodes model @ new\<rparr>, length (nodes model) + length new - 1) \<and>
      nodes_for fs (nodes model) new (post_order path op))"
  "length (nodes model) + length (post_order_list path i cs) < INVALID_INDEX \<Longrightarrow>
     (\<exists>new ids. build_children E fs names path i cs model
        = (model\<lparr>nodes := nodes model @ new\<rparr>, ids) \<and>
      nodes_for fs (nodes model) new (post_order_list path i cs) \<and> length ids = length cs \<and>
      (\<forall>k < length cs. ids ! k < length (nodes model) + length new \<and>
         plan_node ((nodes model @ new) ! (ids ! k)) = Some (path @ [i + k])))"
proof (induction E fs names path op model and E fs names path i cs model
    rule: BuildModelNodeForPlan_build_children.induct)
  case (1 E fs names path t inf es cs model)
  obtain new ids where bc: "build_children E fs names path 0 cs model = (model\<lparr>nodes := nodes model @ new\<rparr>, ids)"
    and nf: "nodes_for fs (nodes model) new (post_order_list path 0 cs)"
    and ids: "length ids = length cs" "\<forall>k < length cs. ids ! k < length (nodes model) + length new \<and>
      plan_node ((nodes model @ new) ! (ids ! k)) = Some (path @ [k])"
    using 1 by auto
  define m where "m = model\<lparr>nodes := nodes model @ new\<rparr>"
  define n where "n = (MakeModelNode E fs names path (LogicalOp t inf es cs) ids m)
    \<lparr>node_id := length (nodes model) + length new\<rparr>"
  have fresh: "fresh_node fs path (LogicalOp t inf es cs) ids n"
    using MakeModelNode_fresh [of fs path "LogicalOp t inf es cs" ids E names m]
    by (simp add: fresh_node_def n_def)
  then have "node_at fs (nodes model @ new @ [n]) (length (nodes model) + length new) (path, LogicalOp t inf es cs)"
    using ids by (auto simp: node_at_def nth_append fresh_node_def n_def)
  then have "nodes_for fs (nodes model @ new) [n] [(path, LogicalOp t inf es cs)]"
    by (simp add: nodes_for_def)
  from nodes_for_append [OF nf this]
  have "nodes_for fs (nodes model) (new @ [n]) (post_order path (LogicalOp t inf es cs))" by simp
  moreover have "BuildModelNodeForPlan E fs names path (LogicalOp t inf es cs) model
      = (model\<lparr>nodes := nodes model @ (new @ [n])\<rparr>, length (nodes model) + length (new @ [n]) - 1)"
    by (simp add: bc AddModelNode_def Let_def m_def n_def)
  ultimately show ?case by blast
next
  case (2 E fs names path i model)
  then show ?case by (simp add: nodes_for_def)
next
  case (3 E fs names path i c cs model)
  have len: "length (nodes model) + length (post_order (path @ [i]) c) < INVALID_INDEX"
    using "3.prems" by simp
  obtain new1 where b1: "BuildModelNodeForPlan E fs names (path @ [i]) c model
        = (model\<lparr>nodes := nodes model @ new1\<rparr>, length (nodes model) + length new1 - 1)"
    and nf1: "nodes_for fs (nodes model) new1 (post_order (path @ [i]) c)"
    using "3.IH"(1) [OF len] by blast
  define m where "m = model\<lparr>nodes := nodes model @ new1\<rparr>"
  define id where "id = length (nodes model) + length new1 - 1"
  have l1: "length new1 = length (post_order (path @ [i]) c)" using nf1 by (simp add: nodes_for_def)
  have ne: "new1 \<noteq> []" using l1 by (cases c) auto
  have "length (nodes m) + length (post_order_list path (i + 1) cs) < INVALID_INDEX"
    using "3.prems" l1 by (simp add: m_def)
  then obtain new2 ids where b2: "build_children E fs names path (i + 1) cs m
        = (m\<lparr>nodes := nodes m @ new2\<rparr>, ids)"
    and nf2: "nodes_for fs (nodes m) new2 (post_order_list path (i + 1) cs)"
    and l2: "length ids = length cs"
    and ids: "\<forall>k < length cs. ids ! k < length (nodes m) + length new2 \<and>
         plan_node ((nodes m @ new2) ! (ids ! k)) = Some (path @ [i + 1 + k])"
    using "3.IH"(2) [OF b1 [symmetric, folded m_def id_def] refl] by (auto simp: m_def id_def)
  have last: "node_at fs (nodes model @ new1) id (path @ [i], c)"
  proof -
    have "post_order (path @ [i]) c ! (length new1 - 1) = (path @ [i], c)"
      unfolding l1 by (cases c) (simp add: nth_append)
    moreover have "length new1 - 1 < length (post_order (path @ [i]) c)" using ne l1 by (cases new1) simp_all
    ultimately show ?thesis
      using nf1 ne unfolding nodes_for_def id_def
      by (metis Nat.add_diff_assoc length_greater_0_conv less_eq_Suc_le One_nat_def)
  qed
  have id: "id < length (nodes model) + length new1" "id \<noteq> INVALID_INDEX"
    using ne [folded length_greater_0_conv] len l1 unfolding id_def by linarith+
  have "nodes_for fs (nodes model) (new1 @ new2) (post_order_list path i (c # cs))"
    using nodes_for_append [OF nf1] nf2 by (simp add: m_def)
  moreover have "build_children E fs names path i (c # cs) model
      = (model\<lparr>nodes := nodes model @ (new1 @ new2)\<rparr>, id # ids)"
    using b1 b2 id(2) by (simp add: m_def id_def Let_def)
  moreover have "(id # ids) ! k < length (nodes model) + length (new1 @ new2) \<and>
      plan_node ((nodes model @ (new1 @ new2)) ! ((id # ids) ! k)) = Some (path @ [i + k])"
    if "k < length (c # cs)" for k
  proof (cases k)
    case 0
    have "plan_node ((nodes model @ new1) ! id) = Some (path @ [i])"
      using last by (simp add: node_at_def fresh_node_def)
    then have "plan_node (((nodes model @ new1) @ new2) ! id) = Some (path @ [i])"
      using id(1) by (subst nth_append) simp
    with 0 id(1) show ?thesis by simp
  next
    case (Suc k')
    with that ids show ?thesis by (auto simp: m_def)
  qed
  ultimately show ?case using l2 by (intro exI [of _ "new1 @ new2"] exI [of _ "id # ids"]) simp
qed

section \<open>The structural invariant\<close>

definition ids_are_positions :: "DeltaViewModel \<Rightarrow> bool" where
  "ids_are_positions model \<longleftrightarrow> (\<forall>i < length (nodes model). node_id (nodes model ! i) = i)"

definition model_inv :: "DeltaViewModel \<Rightarrow> bool" where
  "model_inv model \<longleftrightarrow> structure_valid model \<and> ids_are_positions model"

lemma structure_valid_nth:
  "structure_valid m \<Longrightarrow> i < length (nodes m) \<Longrightarrow> node_valid m (nodes m ! i)"
  by (simp add: structure_valid_def list_all_length)

lemma node_valid_frame: "length (nodes m') = length (nodes m) \<Longrightarrow> node_valid m' n = node_valid m n"
  by (simp add: node_valid_def)

lemma FindFirstNodeId_bound:
  assumes "model_inv m" shows "FindFirstNodeId m k = INVALID_INDEX \<or> FindFirstNodeId m k < length (nodes m)"
proof (cases "filter (\<lambda>n. kind n = k) (nodes m)")
  case (Cons n ns)
  then have "n \<in> set (filter (\<lambda>n. kind n = k) (nodes m))" by simp
  then have "n \<in> set (nodes m)" by simp
  then have "node_id n < length (nodes m)"
    using assms by (auto simp: model_inv_def structure_valid_def list_all_iff node_valid_def)
  then show ?thesis by (simp add: FindFirstNodeId_def Cons)
qed (simp add: FindFirstNodeId_def)

lemma FindRootOrFirstNodeId_bound:
  "model_inv m \<Longrightarrow> FindRootOrFirstNodeId m k = INVALID_INDEX \<or> FindRootOrFirstNodeId m k < length (nodes m)"
  using FindFirstNodeId_bound [of m k] by (auto simp: FindRootOrFirstNodeId_def)

lemma FindSourceScanNodeId_bound:
  assumes "model_inv m"
  shows "FindSourceScanNodeId E m t occ = INVALID_INDEX \<or> FindSourceScanNodeId E m t occ < length (nodes m)"
proof -
  define scans where "scans = filter (\<lambda>n. kind n = Kind_SCAN \<and> CIEquals E (source_table n) t) (nodes m)"
  have "set scans \<subseteq> set (nodes m)" by (auto simp: scans_def)
  moreover have "n \<in> set (nodes m) \<Longrightarrow> node_id n < length (nodes m)" for n
    using assms by (auto simp: model_inv_def structure_valid_def list_all_iff node_valid_def)
  ultimately have b: "n \<in> set scans \<Longrightarrow> node_id n < length (nodes m)" for n by blast
  show ?thesis
  proof (cases "occ = INVALID_INDEX")
    case True
    then show ?thesis
      unfolding FindSourceScanNodeId_def Let_def scans_def [symmetric]
      by (auto split: list.split intro: b)
  next
    case False
    show ?thesis
    proof (cases "filter (\<lambda>n. source_occurrence n = occ) scans")
      case (Cons x xs)
      then have "x \<in> set (filter (\<lambda>n. source_occurrence n = occ) scans)" by simp
      then have "node_id x < length (nodes m)" by (intro b) simp
      then show ?thesis
        using False Cons unfolding FindSourceScanNodeId_def Let_def scans_def [symmetric] by simp
    qed (use False in \<open>simp add: FindSourceScanNodeId_def scans_def [symmetric]\<close>)
  qed
qed

text \<open>Attaching a domain or a fact to a node keeps the invariant.\<close>

lemma update_node_inv:
  assumes inv: "model_inv m" and nid: "nid < length (nodes m)"
    and n: "node_valid m n" "node_id n = nid"
  shows "model_inv (m\<lparr>nodes := (nodes m)[nid := n]\<rparr>)"
proof -
  let ?m = "m\<lparr>nodes := (nodes m)[nid := n]\<rparr>"
  have "node_valid ?m (nodes ?m ! i)" if "i < length (nodes m)" for i
    using n structure_valid_nth [of m i] inv that
    by (cases "i = nid") (simp_all add: node_valid_frame [of ?m m] model_inv_def)
  moreover have "ids_are_positions ?m"
    using inv n(2) nid by (simp add: ids_are_positions_def model_inv_def nth_list_update)
  ultimately show ?thesis
    using inv by (simp add: model_inv_def structure_valid_def list_all_length)
qed

lemma AddAffectedDomain_inv:
  assumes inv: "model_inv m" and d: "domain_node_id d = INVALID_INDEX \<or> domain_node_id d < length (nodes m)"
  shows "model_inv (AddAffectedDomain E d m)"
proof (cases "list_ex (\<lambda>x. same_domain E x d) (affected_domains m)")
  case True
  with inv show ?thesis by (simp add: AddAffectedDomain_def)
next
  case False
  define id where "id = domain_node_id d"
  define m' where "m' = (if id \<noteq> INVALID_INDEX \<and> id < length (nodes m)
      then m\<lparr>nodes := (nodes m)[id := (nodes m ! id)
             \<lparr>node_affected_domains := node_affected_domains (nodes m ! id) @ [d]\<rparr>]\<rparr> else m)"
  have "model_inv m'"
  proof (cases "id \<noteq> INVALID_INDEX \<and> id < length (nodes m)")
    case True
    have v: "node_valid m (nodes m ! id)" "node_id (nodes m ! id) = id"
      using inv True structure_valid_nth by (auto simp: model_inv_def ids_are_positions_def)
    have "model_inv (m\<lparr>nodes := (nodes m)[id := (nodes m ! id)
             \<lparr>node_affected_domains := node_affected_domains (nodes m ! id) @ [d]\<rparr>]\<rparr>)"
      by (rule update_node_inv) (use inv True v in \<open>auto simp: node_valid_def id_def\<close>)
    with True show ?thesis by (simp add: m'_def)
  next
    case False
    then show ?thesis using inv by (simp add: m'_def del: de_Morgan_conj)
  qed
  moreover have "length (nodes m') = length (nodes m)" "affected_domains m' = affected_domains m"
    by (simp_all add: m'_def)
  moreover have "AddAffectedDomain E d m = m'\<lparr>affected_domains := affected_domains m' @ [d]\<rparr>"
    using False by (simp add: AddAffectedDomain_def Let_def m'_def id_def)
  ultimately show ?thesis
    using d by (simp add: model_inv_def structure_valid_def node_valid_def ids_are_positions_def list_all_iff)
qed

lemma AddLineageFact_inv:
  assumes inv: "model_inv m" shows "model_inv (AddLineageFact E lf m)"
proof -
  define id where "id = FindSourceScanNodeId E m (fact_source_table lf) (fact_source_occurrence lf)"
  define f where "f = lf\<lparr>fact_node_id := id\<rparr>"
  define m' where "m' = (if id \<noteq> INVALID_INDEX \<and> id < length (nodes m)
      then m\<lparr>nodes := (nodes m)[id := (nodes m ! id)
             \<lparr>node_lineage_facts := node_lineage_facts (nodes m ! id) @ [f]\<rparr>]\<rparr> else m)"
  have "model_inv m'"
  proof (cases "id \<noteq> INVALID_INDEX \<and> id < length (nodes m)")
    case True
    have v: "node_valid m (nodes m ! id)" "node_id (nodes m ! id) = id"
      using inv True structure_valid_nth by (auto simp: model_inv_def ids_are_positions_def)
    have "model_inv (m\<lparr>nodes := (nodes m)[id := (nodes m ! id)
             \<lparr>node_lineage_facts := node_lineage_facts (nodes m ! id) @ [f]\<rparr>]\<rparr>)"
      by (rule update_node_inv) (use inv True v in \<open>auto simp: node_valid_def f_def\<close>)
    with True show ?thesis by (simp add: m'_def)
  next
    case False
    then show ?thesis using inv by (simp add: m'_def del: de_Morgan_conj)
  qed
  moreover have "length (nodes m') = length (nodes m)" "lineage_facts m' = lineage_facts m"
    by (simp_all add: m'_def)
  moreover have "AddLineageFact E lf m = m'\<lparr>lineage_facts := lineage_facts m' @ [f]\<rparr>"
    by (simp add: AddLineageFact_def Let_def m'_def f_def id_def)
  moreover have "fact_node_id f = INVALID_INDEX \<or> fact_node_id f < length (nodes m)"
    using FindSourceScanNodeId_bound [OF inv] by (simp add: f_def id_def)
  ultimately show ?thesis
    by (simp add: model_inv_def structure_valid_def node_valid_def ids_are_positions_def list_all_iff)
qed

section \<open>The built model satisfies the invariant\<close>

definition occurrences_ok :: "CreateMVPlanFacts \<Rightarrow> bool" where
  "occurrences_ok fs \<longleftrightarrow> list_all (\<lambda>(i, oc). occurrence oc \<noteq> INVALID_INDEX \<and>
     occ_table_index oc \<noteq> INVALID_INDEX) (occurrence_by_index fs)"

definition plan_small :: "CreateMVPlanFacts \<Rightarrow> bool" where
  "plan_small fs \<longleftrightarrow> (case root fs of None \<Rightarrow> True | Some op \<Rightarrow> length (plan_operators op) < INVALID_INDEX)"

lemma BuildNodeMaintenance_full_only:
  "rule n = Rule_FULL_ONLY \<Longrightarrow> mode (BuildNodeMaintenance m n) = Mode_FULL_RECOMPUTE"
  by (simp add: BuildNodeMaintenance_def maintain_def)

lemma BuildDeltaModelNodes_shape:
  assumes "root fs = Some op" "length (plan_operators op) < INVALID_INDEX"
  obtains new where "nodes_for fs [] new (post_order [] op)"
    "BuildDeltaModelNodes E fs names model =
       RefreshDeltaNodeMaintenance (model\<lparr>nodes := new, root_node := length new - 1\<rparr>)"
proof -
  have "length (nodes (model\<lparr>nodes := []\<rparr>)) + length (post_order [] op) < INVALID_INDEX"
    using assms(2) by (simp add: post_order_length)
  from BuildModelNodeForPlan_nodes(1) [OF this, of E fs names] obtain new where
    "BuildModelNodeForPlan E fs names [] op (model\<lparr>nodes := []\<rparr>) = (model\<lparr>nodes := new\<rparr>, length new - 1)"
    "nodes_for fs [] new (post_order [] op)" by auto
  with that show ?thesis by (simp add: BuildDeltaModelNodes_def assms(1) Let_def)
qed

lemma BuildDeltaModelNodes_inv:
  assumes "occurrences_ok fs" "plan_small fs" "affected_domains model = []" "lineage_facts model = []"
  shows "model_inv (BuildDeltaModelNodes E fs names model)"
proof (cases "root fs")
  case None
  then show ?thesis using assms(3, 4)
    by (simp add: BuildDeltaModelNodes_def RefreshDeltaNodeMaintenance_def Let_def model_inv_def
        structure_valid_def ids_are_positions_def)
next
  case (Some op)
  then have small: "length (plan_operators op) < INVALID_INDEX" using assms(2) by (simp add: plan_small_def)
  from BuildDeltaModelNodes_shape [OF Some small] obtain new where
    nf: "nodes_for fs [] new (post_order [] op)" and
    eq: "BuildDeltaModelNodes E fs names model =
       RefreshDeltaNodeMaintenance (model\<lparr>nodes := new, root_node := length new - 1\<rparr>)" by blast
  have at: "node_at fs new i (post_order [] op ! i)" if "i < length new" for i
    using nf that by (simp add: nodes_for_def)
  have "length new \<noteq> 0" using nf by (cases op) (simp add: nodes_for_def)
  moreover have "node_valid m (n\<lparr>maintenance := BuildNodeMaintenance m' n\<rparr>)"
    if "n = new ! i" "i < length new" "length (nodes m) = length new" for m m' n i
  proof -
    have "fresh_node fs (fst (post_order [] op ! i)) (snd (post_order [] op ! i)) (node_children n) n"
      and "node_id n = i" using at [OF that(2)] that(1) by (simp_all add: node_at_def)
    then show ?thesis
      using assms(1) that(2, 3) BuildNodeMaintenance_full_only [of n]
      by (auto simp: node_valid_def fresh_node_def occurrences_ok_def list_all_iff)
  qed
  moreover have "node_id (new ! i) = i" if "i < length new" for i using at [OF that] by (simp add: node_at_def)
  ultimately show ?thesis
    unfolding eq model_inv_def structure_valid_def ids_are_positions_def RefreshDeltaNodeMaintenance_def
    using assms(3, 4) by (auto simp: list_all_length)
qed

lemma BaseAffectedDomains_inv:
  "model_inv m \<Longrightarrow> model_inv (BuildDeltaModelBaseAffectedDomains E fs m)"
proof -
  assume inv: "model_inv m"
  define m1 where "m1 = (if group_columns m \<noteq> [] then AddAffectedDomain E (group_domain E fs m) m else m)"
  have "model_inv m1"
    unfolding m1_def
    using inv AddAffectedDomain_inv [OF inv] FindRootOrFirstNodeId_bound [OF inv]
    by (simp add: group_domain_def)
  with AddAffectedDomain_inv [OF this] FindFirstNodeId_bound [OF this] show ?thesis
    unfolding BuildDeltaModelBaseAffectedDomains_def m1_def [symmetric] Let_def
    by (simp add: semi_anti_domain_def)
qed

section \<open>What domains and lineage leave alone\<close>

lemma AddAffectedDomain_frame [simp]:
  "model_type (AddAffectedDomain E d m) = model_type m"
  "group_columns (AddAffectedDomain E d m) = group_columns m"
  "features (AddAffectedDomain E d m) = features m"
  "distinct_aux (AddAffectedDomain E d m) = distinct_aux m"
  "semi_anti_aux (AddAffectedDomain E d m) = semi_anti_aux m"
  "model_window_columns (AddAffectedDomain E d m) = model_window_columns m"
  "unsupported_reasons (AddAffectedDomain E d m) = unsupported_reasons m"
  unfolding AddAffectedDomain_def Let_def by simp_all

lemma AddLineageFact_frame [simp]:
  "model_type (AddLineageFact E lf m) = model_type m"
  "group_columns (AddLineageFact E lf m) = group_columns m"
  "features (AddLineageFact E lf m) = features m"
  "distinct_aux (AddLineageFact E lf m) = distinct_aux m"
  "semi_anti_aux (AddLineageFact E lf m) = semi_anti_aux m"
  "model_window_columns (AddLineageFact E lf m) = model_window_columns m"
  "unsupported_reasons (AddLineageFact E lf m) = unsupported_reasons m"
  "affected_domains (AddLineageFact E lf m) = affected_domains m"
  unfolding AddLineageFact_def Let_def by simp_all

lemma lineage_fold_frame [simp]:
  "model_type (fold (\<lambda>x. AddLineageFact E (f x)) xs m) = model_type m"
  "group_columns (fold (\<lambda>x. AddLineageFact E (f x)) xs m) = group_columns m"
  "features (fold (\<lambda>x. AddLineageFact E (f x)) xs m) = features m"
  "distinct_aux (fold (\<lambda>x. AddLineageFact E (f x)) xs m) = distinct_aux m"
  "semi_anti_aux (fold (\<lambda>x. AddLineageFact E (f x)) xs m) = semi_anti_aux m"
  "model_window_columns (fold (\<lambda>x. AddLineageFact E (f x)) xs m) = model_window_columns m"
  "unsupported_reasons (fold (\<lambda>x. AddLineageFact E (f x)) xs m) = unsupported_reasons m"
  "affected_domains (fold (\<lambda>x. AddLineageFact E (f x)) xs m) = affected_domains m"
  by (induction xs arbitrary: m) simp_all

lemma BaseAffectedDomains_frame [simp]:
  "model_type (BuildDeltaModelBaseAffectedDomains E fs m) = model_type m"
  "group_columns (BuildDeltaModelBaseAffectedDomains E fs m) = group_columns m"
  "features (BuildDeltaModelBaseAffectedDomains E fs m) = features m"
  "distinct_aux (BuildDeltaModelBaseAffectedDomains E fs m) = distinct_aux m"
  "semi_anti_aux (BuildDeltaModelBaseAffectedDomains E fs m) = semi_anti_aux m"
  "model_window_columns (BuildDeltaModelBaseAffectedDomains E fs m) = model_window_columns m"
  "unsupported_reasons (BuildDeltaModelBaseAffectedDomains E fs m) = unsupported_reasons m"
  unfolding BuildDeltaModelBaseAffectedDomains_def Let_def by simp_all

lemma BuildDeltaModelNodes_frame [simp]:
  "model_type (BuildDeltaModelNodes E fs names m) = model_type m"
  "group_columns (BuildDeltaModelNodes E fs names m) = group_columns m"
  "features (BuildDeltaModelNodes E fs names m) = features m"
  "distinct_aux (BuildDeltaModelNodes E fs names m) = distinct_aux m"
  "semi_anti_aux (BuildDeltaModelNodes E fs names m) = semi_anti_aux m"
  "model_window_columns (BuildDeltaModelNodes E fs names m) = model_window_columns m"
  "unsupported_reasons (BuildDeltaModelNodes E fs names m) = unsupported_reasons m"
  "affected_domains (BuildDeltaModelNodes E fs names m) = affected_domains m"
  "lineage_facts (BuildDeltaModelNodes E fs names m) = lineage_facts m"
proof -
  have only_nodes: "\<exists>new. fst (BuildModelNodeForPlan E fs names path op m) = m\<lparr>nodes := new\<rparr>"
    "\<exists>new. fst (build_children E fs names path i cs m) = m\<lparr>nodes := new\<rparr>" for path op i cs m
  proof (induction E fs names path op m and E fs names path i cs m
      rule: BuildModelNodeForPlan_build_children.induct)
    case (1 E fs names path t inf es cs m)
    then obtain new where "fst (build_children E fs names path 0 cs m) = m\<lparr>nodes := new\<rparr>" by blast
    then show ?case by (auto simp: AddModelNode_def Let_def split: prod.split)
  next
    case (2 E fs names path i m)
    then show ?case by (auto intro: exI [of _ "nodes m"])
  next
    case (3 E fs names path i c cs m)
    obtain m' x where b: "BuildModelNodeForPlan E fs names (path @ [i]) c m = (m', x)" by fastforce
    obtain new where "m' = m\<lparr>nodes := new\<rparr>" using "3.IH"(1) b by auto
    moreover obtain new' where "fst (build_children E fs names path (i + 1) cs m') = m'\<lparr>nodes := new'\<rparr>"
      using "3.IH"(2) [OF b [symmetric] refl] by blast
    ultimately show ?case using b by (auto simp: Let_def split: prod.split)
  qed
  show "model_type (BuildDeltaModelNodes E fs names m) = model_type m"
    "group_columns (BuildDeltaModelNodes E fs names m) = group_columns m"
    "features (BuildDeltaModelNodes E fs names m) = features m"
    "distinct_aux (BuildDeltaModelNodes E fs names m) = distinct_aux m"
    "semi_anti_aux (BuildDeltaModelNodes E fs names m) = semi_anti_aux m"
    "model_window_columns (BuildDeltaModelNodes E fs names m) = model_window_columns m"
    "unsupported_reasons (BuildDeltaModelNodes E fs names m) = unsupported_reasons m"
    "affected_domains (BuildDeltaModelNodes E fs names m) = affected_domains m"
    "lineage_facts (BuildDeltaModelNodes E fs names m) = lineage_facts m"
    unfolding BuildDeltaModelNodes_def RefreshDeltaNodeMaintenance_def Let_def
    using only_nodes(1) [of "[]" "the (root fs)" "m\<lparr>nodes := []\<rparr>"]
    by (auto split: option.split prod.split)
qed

lemma FinishModel_domains [simp]:
  "affected_domains (FinishModel input m) = affected_domains m"
  "lineage_facts (FinishModel input m) = lineage_facts m"
  unfolding FinishModel_def Let_def by simp_all

lemma stage_domains [simp]:
  "affected_domains (main_group_columns E H fs names m) = affected_domains m"
  "lineage_facts (main_group_columns E H fs names m) = lineage_facts m"
  "affected_domains (delim_aggregate_columns E fs names m) = affected_domains m"
  "lineage_facts (delim_aggregate_columns E fs names m) = lineage_facts m"
  "affected_domains (fallback_columns E g d r m) = affected_domains m"
  "lineage_facts (fallback_columns E g d r m) = lineage_facts m"
  unfolding main_group_columns_def delim_aggregate_columns_def fallback_columns_def Let_def by simp_all

lemma add_join_keys_domains [simp]:
  "affected_domains (add_join_keys E keys names i es m) = affected_domains m"
  "lineage_facts (add_join_keys E keys names i es m) = lineage_facts m"
  by (induction E keys names i es m rule: add_join_keys.induct) (simp_all add: Let_def)

lemma join_columns_domains [simp]:
  "affected_domains (join_columns E H fs names m) = affected_domains m"
  "lineage_facts (join_columns E H fs names m) = lineage_facts m"
  unfolding join_columns_def AddJoinKeyGroupColumns_def Let_def by (simp_all split: option.split)

lemma BuildGroupColumns_domains [simp]:
  "affected_domains (BuildGroupColumns E H fs names m) = affected_domains m"
  "lineage_facts (BuildGroupColumns E H fs names m) = lineage_facts m"
  unfolding BuildGroupColumns_def Let_def [of "analysis fs"]
   apply (intro let_frame [where g = affected_domains]; simp)
  apply (intro let_frame [where g = lineage_facts]; simp)
  done

lemma PrepareModel_domains [simp]:
  "affected_domains (PrepareModel E H input) = []"
  "lineage_facts (PrepareModel E H input) = []"
  unfolding PrepareModel_def BuildModelFeatures_def PlanFeatures_def BuildUnsupportedReasons_def
    MarkOuterJoin_def InitialColumns_def Let_def
  by (simp_all add: InitialModel_def)

lemma SelectRefreshType_domains [simp]:
  "affected_domains (SelectRefreshType a input m) = affected_domains m"
  "lineage_facts (SelectRefreshType a input m) = lineage_facts m"
  unfolding SelectRefreshType_def select_current_diff_def Let_def
   apply (intro if_frame [where g = affected_domains]; simp)
  apply (intro if_frame [where g = lineage_facts]; simp)
  done

lemma ClassifyView_domains [simp]:
  "affected_domains (ClassifyView E H input) = []" "lineage_facts (ClassifyView E H input) = []"
  by (simp_all add: ClassifyView_def)

section \<open>Strategy and features agree\<close>

lemma ClassifyView_features:
  "model_type (ClassifyView E H input) = DISTINCT_INCREMENTAL \<Longrightarrow>
     HasFeature (ClassifyView E H input) Feature_DISTINCT_STATEFUL"
  "model_type (ClassifyView E H input) = SEMI_ANTI_RECOMPUTE \<Longrightarrow>
     HasFeature (ClassifyView E H input) Feature_SEMI_ANTI_STATEFUL"
  "HasFeature (ClassifyView E H input) Feature_WINDOW_AFFECTED_PARTITION \<Longrightarrow>
     model_window_columns (ClassifyView E H input) \<noteq> []"
proof -
  define p where "p = PrepareModel E H input"
  define s where "s = SelectRefreshType (analysis (facts input)) input p"
  have view: "ClassifyView E H input = FinishModel input s" by (simp add: ClassifyView_def p_def s_def)
  have more: "set (features p) \<subseteq> set (features (FinishModel input s))"
    using select_features [of p "analysis (facts input)" input] by (auto simp: FinishModel_reasons s_def)
  have less: "set (features (FinishModel input s)) \<subseteq>
      set (features p) \<union> {Feature_CURRENT_DIFF_RECOMPUTE, Feature_FULL_ONLY}"
    using select_features [of p "analysis (facts input)" input] by (auto simp: FinishModel_reasons s_def)
  show "model_type (ClassifyView E H input) = DISTINCT_INCREMENTAL \<Longrightarrow>
     HasFeature (ClassifyView E H input) Feature_DISTINCT_STATEFUL"
    using select_aux [of "analysis (facts input)" input p] more
    by (auto simp: view s_def HasFeature_def)
  show "model_type (ClassifyView E H input) = SEMI_ANTI_RECOMPUTE \<Longrightarrow>
     HasFeature (ClassifyView E H input) Feature_SEMI_ANTI_STATEFUL"
    using select_aux [of "analysis (facts input)" input p] more
    by (auto simp: view s_def HasFeature_def)
  assume "HasFeature (ClassifyView E H input) Feature_WINDOW_AFFECTED_PARTITION"
  then have "HasFeature p Feature_WINDOW_AFFECTED_PARTITION"
    using less by (auto simp: view HasFeature_def)
  then have "model_window_columns p \<noteq> []"
    unfolding p_def PrepareModel_def by (subst (asm) BuildModelFeatures_facts) simp_all
  then show "model_window_columns (ClassifyView E H input) \<noteq> []" by (simp add: view s_def)
qed

lemma HasFeature_frame:
  "features m = features m' \<Longrightarrow> HasFeature m f = HasFeature m' f"
  by (simp add: HasFeature_def)

text \<open>The assertions whose truth depends on what the caller supplied.\<close>

definition aux_assertions :: "DeltaViewModel \<Rightarrow> bool" where
  "aux_assertions m \<longleftrightarrow>
     (HasFeature m Feature_DISTINCT_STATEFUL \<longrightarrow> HasDistinctAux m) \<and>
     (HasFeature m Feature_SEMI_ANTI_STATEFUL \<longrightarrow> HasSemiAntiAux m)"

lemma Validate_iff:
  assumes "features m = features v" "model_type m = model_type v"
    "model_window_columns m = model_window_columns v" "v = ClassifyView E H input" "structure_valid m"
  shows "ValidateDeltaViewModelInvariants m \<longleftrightarrow> aux_assertions m"
  using assms(5) ClassifyView_features [of E H input, folded assms(4)]
    HasFeature_frame [OF assms(1)] assms(2, 3)
  unfolding ValidateDeltaViewModelInvariants_def aux_assertions_def by metis

lemma AddLineageFact_length [simp]: "length (nodes (AddLineageFact E lf m)) = length (nodes m)"
  unfolding AddLineageFact_def Let_def by simp

lemma lineage_fold_inv:
  "model_inv m \<Longrightarrow> model_inv (fold (\<lambda>x. AddLineageFact E (f x)) xs m)"
  "length (nodes (fold (\<lambda>x. AddLineageFact E (f x)) xs m)) = length (nodes m)"
  by (induction xs arbitrary: m) (simp_all add: AddLineageFact_inv)

lemma ResetLineage_inv: "model_inv m \<Longrightarrow> model_inv (ResetLineage m)"
  by (auto simp: ResetLineage_def model_inv_def structure_valid_def ids_are_positions_def
      node_valid_def list_all_length)

lemma ResetLineage_frame [simp]:
  "model_type (ResetLineage m) = model_type m"
  "features (ResetLineage m) = features m"
  "distinct_aux (ResetLineage m) = distinct_aux m"
  "semi_anti_aux (ResetLineage m) = semi_anti_aux m"
  "model_window_columns (ResetLineage m) = model_window_columns m"
  by (simp_all add: ResetLineage_def)

text \<open>A change that touches neither nodes, domains, facts nor the root keeps the invariant.\<close>

lemma model_inv_frame:
  assumes "nodes m' = nodes m" "affected_domains m' = affected_domains m"
    "lineage_facts m' = lineage_facts m" "root_node m' = root_node m"
  shows "model_inv m' = model_inv m"
proof -
  have "node_valid m' = node_valid m" using assms by (intro ext node_valid_frame) simp
  with assms show ?thesis by (simp add: model_inv_def structure_valid_def ids_are_positions_def)
qed

definition lineage_outcome :: "DeltaViewModel \<Rightarrow> DeltaViewModel \<Rightarrow> bool" where
  "lineage_outcome m m' \<longleftrightarrow> model_inv m' \<and>
     distinct_aux m' = distinct_aux m \<and> semi_anti_aux m' = semi_anti_aux m \<and>
     model_window_columns m' = model_window_columns m \<and>
     (model_type m' = model_type m \<and> features m' = features m \<or>
      model_type m' = CURRENT_DIFF_RECOMPUTE \<and>
      set (features m') = insert Feature_CURRENT_DIFF_RECOMPUTE (set (features m)))"

lemma PopulateWindow_outcome:
  assumes inv: "model_inv m" and window: "model_type m = WINDOW_PARTITION"
  shows "lineage_outcome m (PopulateDeltaViewModelLineage E L fs names m)"
proof -
  obtain has_lineage ops direct where b: "BuildWindowPartitionLineageOps L fs (model_window_columns m)
      = (has_lineage, ops, direct)" by (metis prod_cases3)
  define m0 where "m0 = (ResetLineage m)\<lparr>window_lineage_ops := ops\<rparr>"
  have inv0: "model_inv m0"
    using ResetLineage_inv [OF inv] model_inv_frame [of m0 "ResetLineage m"] by (simp add: m0_def)
  define fallback where "fallback \<longleftrightarrow> found_asof_join (analysis fs) \<and>
      (\<not> has_lineage \<or> AsofWindowPartitionReadsRightSideDirectly E direct m0 \<or>
       \<not> WindowLineageCoversAllSources E ops fs)"
  define m1 where "m1 = add_reason Why_ASOF_CURRENT_DIFF_RECOMPUTE
      (add_feature Feature_CURRENT_DIFF_RECOMPUTE
        (m0\<lparr>model_type := CURRENT_DIFF_RECOMPUTE, window_lineage_ops := []\<rparr>))"
  define m2 where "m2 = AddAffectedDomain E (window_domain E m0)
      (fold (\<lambda>p. AddLineageFact E (window_fact p)) ops m0)"
  have eq: "PopulateDeltaViewModelLineage E L fs names m
      = (if fallback then m1 else if has_lineage then m2 else m0)"
    unfolding PopulateDeltaViewModelLineage_def Let_def
    by (simp add: window b m0_def m1_def m2_def fallback_def)
  have "model_inv m1"
    using inv0 model_inv_frame [of m1 m0] by (simp add: m1_def add_reason_def add_feature_def)
  moreover have "model_inv m2"
    unfolding m2_def
    by (rule AddAffectedDomain_inv [OF lineage_fold_inv(1) [OF inv0]])
      (use FindFirstNodeId_bound [OF inv0, of Kind_WINDOW] in
        \<open>simp add: window_domain_def Let_def lineage_fold_inv(2)\<close>)
  ultimately show ?thesis
    unfolding eq lineage_outcome_def using inv0
    by (simp add: m0_def m1_def m2_def HasDistinctAux_def HasSemiAntiAux_def)
qed

lemma PopulateOther_outcome:
  assumes inv: "model_inv m" and other: "model_type m \<noteq> WINDOW_PARTITION"
  shows "lineage_outcome m (PopulateDeltaViewModelLineage E L fs names m)"
proof -
  define m0 where "m0 = ResetLineage m"
  have inv0: "model_inv m0" using ResetLineage_inv [OF inv] by (simp add: m0_def)
  define project where "project = (\<lambda>lin. let m = m0\<lparr>projection_lineage := lin, has_projection_lineage := True\<rparr>
      in AddAffectedDomain E (projection_domain E m lin)
           (fold (\<lambda>arm. AddLineageFact E (projection_fact lin arm)) (arms lin) m))"
  define m1 where "m1 = (if model_type m0 = SIMPLE_PROJECTION \<and> \<not> found_left_join (analysis fs) \<and>
      \<not> found_full_outer (analysis fs)
      then (case BuildProjectionKeyLineage L fs names of None \<Rightarrow> m0 | Some lin \<Rightarrow> project lin) else m0)"
  have proj: "lineage_outcome m (project lin)" for lin
  proof -
    define mp where "mp = m0\<lparr>projection_lineage := lin, has_projection_lineage := True\<rparr>"
    have inv1: "model_inv mp" using inv0 model_inv_frame [of mp m0] by (simp add: mp_def)
    have "model_inv (project lin)"
      unfolding project_def mp_def [symmetric] Let_def
      by (rule AddAffectedDomain_inv [OF lineage_fold_inv(1) [OF inv1]])
        (use FindRootOrFirstNodeId_bound [OF inv1, of Kind_PROJECT] in
          \<open>simp add: projection_domain_def Let_def lineage_fold_inv(2)\<close>)
    then show ?thesis by (simp add: lineage_outcome_def project_def m0_def Let_def)
  qed
  have out1: "lineage_outcome m m1"
  proof -
    have "lineage_outcome m m0" using inv0 by (simp add: lineage_outcome_def m0_def)
    then show ?thesis unfolding m1_def using proj by (simp split: option.split)
  qed
  have eq: "PopulateDeltaViewModelLineage E L fs names m
      = (if HasSemiAntiAux m1 then
              fold (\<lambda>col. AddLineageFact E (EmptyFact\<lparr>fact_kind := Lineage_SEMI_ANTI_PREDICATE,
                     fact_source_table := left_table (semi_anti_aux m1), source_column := col,
                     output_column := col\<rparr>)) (left_cols (semi_anti_aux m1)) m1
            else m1)"
    unfolding PopulateDeltaViewModelLineage_def m1_def project_def m0_def Let_def
    using other by (simp only: ResetLineage_frame if_False)
  show ?thesis
    unfolding eq using out1 by (simp add: lineage_outcome_def lineage_fold_inv(1))
qed

section \<open>Properties\<close>

definition mirrors_plan :: "DeltaModelNode list \<Rightarrow> LogicalOperator \<Rightarrow> bool" where
  "mirrors_plan ns op \<longleftrightarrow> length ns = length (plan_operators op) \<and>
     (\<forall>i < length ns. case post_order [] op ! i of (path, q) \<Rightarrow>
        node_id (ns ! i) = i \<and> kind (ns ! i) = NodeKindForOperator q \<and>
        plan_node (ns ! i) = Some path \<and>
        length (node_children (ns ! i)) = length (children q) \<and>
        (\<forall>k < length (children q). node_children (ns ! i) ! k < i \<and>
           plan_node (ns ! (node_children (ns ! i) ! k)) = Some (path @ [k])))"

lemma mirrors_plan_map:
  assumes "mirrors_plan ns op"
    and same: "\<And>n. node_id (g n) = node_id n \<and> kind (g n) = kind n \<and> plan_node (g n) = plan_node n \<and>
           node_children (g n) = node_children n"
  shows "mirrors_plan (map g ns) op"
  unfolding mirrors_plan_def
proof (intro conjI allI impI)
  show "length (map g ns) = length (plan_operators op)" using assms(1) by (simp add: mirrors_plan_def)
  fix i assume i: "i < length (map g ns)"
  obtain path q where po: "post_order [] op ! i = (path, q)" by fastforce
  have nm: "map g ns ! j = g (ns ! j)" if "j \<le> i" for j using that i by simp
  have at: "node_id (ns ! i) = i" "kind (ns ! i) = NodeKindForOperator q" "plan_node (ns ! i) = Some path"
      "length (node_children (ns ! i)) = length (children q)"
    and kids: "\<forall>k < length (children q). node_children (ns ! i) ! k < i \<and>
        plan_node (ns ! (node_children (ns ! i) ! k)) = Some (path @ [k])"
    using assms(1) i po by (auto simp: mirrors_plan_def)
  show "case post_order [] op ! i of (path, q) \<Rightarrow>
        node_id (map g ns ! i) = i \<and> kind (map g ns ! i) = NodeKindForOperator q \<and>
        plan_node (map g ns ! i) = Some path \<and>
        length (node_children (map g ns ! i)) = length (children q) \<and>
        (\<forall>k < length (children q). node_children (map g ns ! i) ! k < i \<and>
           plan_node (map g ns ! (node_children (map g ns ! i) ! k)) = Some (path @ [k]))"
    using at kids by (simp add: po same nm [OF order_refl] nm [OF less_imp_le])
qed

text \<open>The delta model mirrors the plan. It has exactly one node per operator, in
  post-order; a node's id is its position, its kind is that of its operator, its children are
  the earlier nodes of the operator's children in their order, and the root node is the last
  one.\<close>

theorem delta_model_mirrors_plan:
  assumes "root fs = Some op" "length (plan_operators op) < INVALID_INDEX"
  shows "mirrors_plan (nodes (BuildDeltaModelNodes E fs names model)) op \<and>
         root_node (BuildDeltaModelNodes E fs names model) = length (plan_operators op) - 1"
proof -
  obtain new where nf: "nodes_for fs [] new (post_order [] op)" and
    eq: "BuildDeltaModelNodes E fs names model =
       RefreshDeltaNodeMaintenance (model\<lparr>nodes := new, root_node := length new - 1\<rparr>)"
    using BuildDeltaModelNodes_shape [OF assms] by blast
  have len: "length new = length (plan_operators op)" using nf by (simp add: nodes_for_def post_order_length)
  have "node_at fs new i (post_order [] op ! i)" if "i < length new" for i
    using nf that by (simp add: nodes_for_def)
  then have "mirrors_plan new op"
    using len by (auto simp: mirrors_plan_def node_at_def fresh_node_def split: prod.split)
  then have "mirrors_plan (map (\<lambda>n. n\<lparr>maintenance := f n\<rparr>) new) op" for f
    by (rule mirrors_plan_map) simp
  then show ?thesis by (simp add: eq RefreshDeltaNodeMaintenance_def len)
qed

theorem delta_model_mirrors_plan_witness:
  "mirrors_plan (nodes (BuildDeltaModelNodes ref_env (facts_of count_by_region) [''region''] InitialModel))
     count_by_region"
  by (rule delta_model_mirrors_plan [THEN conjunct1])
    (simp_all add: facts_of_def count_by_region_def plan_operators.simps scan_of_def INVALID_INDEX_def Let_def)



definition windowed_semi_join_input :: DeltaViewModelInput where
  "windowed_semi_join_input =
     (input_of (LogicalOp LOGICAL_WINDOW no_info []
        [join_of JOIN_SEMI (scan_of ''orders'' 0) (scan_of ''paid'' 1)]) [''id''])
       \<lparr>semi_anti_aux_candidate := Some sample_semi_aux\<rparr>"

text \<open>The assertion about semi-join state is not always true: a window over a semi join
  whose candidate the caller supplied is maintained by partition, the candidate is not
  attached, and the \<open>SEMI_ANTI_STATEFUL\<close> feature stays without state.\<close>

theorem unused_candidate_breaks_assertion:
  "model_type (BuildDeltaViewModel ref_env sample_helpers windowed_semi_join_input) = WINDOW_PARTITION \<and>
   \<not> ValidateDeltaViewModelInvariants
       (BuildDeltaViewModel ref_env sample_helpers windowed_semi_join_input)"
proof -
  define v where "v = ClassifyView ref_env sample_helpers windowed_semi_join_input"
  have v: "model_type v = WINDOW_PARTITION" "HasFeature v Feature_SEMI_ANTI_STATEFUL"
      "semi_aux_table (semi_anti_aux v) = []"
    by (simp_all add: v_def windowed_semi_join_input_def classify_eval analysis_eval ref_env_def
        AnalyzeWindow_def EmptySemiAntiAux_def)
  have "features (BuildDeltaViewModel ref_env sample_helpers windowed_semi_join_input) = features v"
    "semi_anti_aux (BuildDeltaViewModel ref_env sample_helpers windowed_semi_join_input) = semi_anti_aux v"
    "model_type (BuildDeltaViewModel ref_env sample_helpers windowed_semi_join_input) = model_type v"
    by (simp_all add: BuildDeltaViewModel_def v_def)
  with v show ?thesis
    by (simp add: ValidateDeltaViewModelInvariants_def HasSemiAntiAux_def HasFeature_def)
qed

text \<open>No affected domain is recorded twice: adding domains keeps any two recorded domains
  apart in kind or in some key column.\<close>

theorem affected_domains_unique:
  assumes "sorted_wrt (\<lambda>x y. \<not> same_domain E x y) (affected_domains model)"
  shows "sorted_wrt (\<lambda>x y. \<not> same_domain E x y) (affected_domains (AddAffectedDomain E d model))"
  using assms by (auto simp: AddAffectedDomain_def Let_def sorted_wrt_append list_ex_iff)

theorem affected_domains_unique_witness:
  "sorted_wrt (\<lambda>x y. \<not> same_domain ref_env x y)
     (affected_domains (AddAffectedDomain ref_env (semi_anti_domain ref_env InitialModel) InitialModel))"
  by (rule affected_domains_unique) (simp add: InitialModel_def)

end
