(* ===== verification/Zset.thy ===== *)
theory Zset
  imports Main
begin

text \<open>
  Z-sets: the abstract content of base tables and delta tables. A relation is a list of rows
  with integer multiplicities (\<open>openivm_multiplicity\<close>); its meaning is the weight of each
  row. The theory has the operators the delta rules use (filter, map, union, product with a
  condition, scaling, compaction), the linearity facts about them, and the inclusion-exclusion
  and telescoping identities for functions that are additive in each argument.
\<close>

type_synonym 'r zset = "('r \<times> int) list"

definition zsum :: "'r zset \<Rightarrow> ('r \<Rightarrow> int) \<Rightarrow> int" where
  "zsum z h = (\<Sum>(x, w) \<leftarrow> z. w * h x)"

definition weight :: "'r zset \<Rightarrow> 'r \<Rightarrow> int" where
  "weight z r = zsum z (\<lambda>x. if x = r then 1 else 0)"

definition zeq :: "'r zset \<Rightarrow> 'r zset \<Rightarrow> bool" where
  "zeq a b \<longleftrightarrow> (\<forall>r. weight a r = weight b r)"

text \<open>\<open>plus_delta old delta new\<close>: the delta leads from the old content to the new one.\<close>

definition plus_delta :: "'r zset \<Rightarrow> 'r zset \<Rightarrow> 'r zset \<Rightarrow> bool" where
  "plus_delta old delta new \<longleftrightarrow> (\<forall>r. weight new r = weight old r + weight delta r)"

section \<open>Operators\<close>

definition zfilter :: "('r \<Rightarrow> bool) \<Rightarrow> 'r zset \<Rightarrow> 'r zset" where
  "zfilter p z = filter (\<lambda>(x, w). p x) z"

definition zmap :: "('r \<Rightarrow> 's) \<Rightarrow> 'r zset \<Rightarrow> 's zset" where
  "zmap f z = map (\<lambda>(x, w). (f x, w)) z"

definition zscale :: "int \<Rightarrow> 'r zset \<Rightarrow> 'r zset" where
  "zscale k z = map (\<lambda>(x, w). (x, k * w)) z"

definition zbind :: "('r \<Rightarrow> 's list) \<Rightarrow> 'r zset \<Rightarrow> 's zset" where
  "zbind f z = concat (map (\<lambda>(x, w). map (\<lambda>y. (y, w)) (f x)) z)"

definition zjoin :: "('r list \<Rightarrow> 'r list \<Rightarrow> bool) \<Rightarrow> 'r list zset \<Rightarrow> 'r list zset \<Rightarrow> 'r list zset" where
  "zjoin c a b = concat (map (\<lambda>(x, v). map (\<lambda>(y, w). (x @ y, v * w)) (zfilter (c x) b)) a)"

lemma zsum_Nil [simp]: "zsum [] h = 0" by (simp add: zsum_def)

lemma zsum_Cons [simp]: "zsum ((x, w) # z) h = w * h x + zsum z h" by (simp add: zsum_def)

lemma zsum_append [simp]: "zsum (a @ b) h = zsum a h + zsum b h" by (simp add: zsum_def)

lemma zsum_concat: "zsum (concat zs) h = (\<Sum>z \<leftarrow> zs. zsum z h)" by (induction zs) simp_all

lemma zsum_zero [simp]: "zsum z (\<lambda>x. 0) = 0" by (induction z) auto

lemma zsum_zscale [simp]: "zsum (zscale k z) h = k * zsum z h"
  by (induction z) (auto simp: zscale_def algebra_simps)

lemma zsum_zfilter [simp]: "zsum (zfilter p z) h = zsum z (\<lambda>x. if p x then h x else 0)"
  by (induction z) (auto simp: zfilter_def)

lemma zsum_zmap [simp]: "zsum (zmap f z) h = zsum z (h \<circ> f)"
  by (induction z) (auto simp: zmap_def)

lemma zsum_zbind [simp]: "zsum (zbind f z) h = zsum z (\<lambda>x. \<Sum>y \<leftarrow> f x. h y)"
proof (induction z)
  case (Cons p z)
  obtain x w where p: "p = (x, w)" by fastforce
  have "zsum (map (\<lambda>y. (y, w)) ys) h = w * (\<Sum>y \<leftarrow> ys. h y)" for ys
    by (induction ys) (simp_all add: algebra_simps)
  with Cons show ?case by (simp add: zbind_def p)
qed (simp add: zbind_def)

lemma zsum_zjoin:
  "zsum (zjoin c a b) h = zsum a (\<lambda>x. zsum b (\<lambda>y. if c x y then h (x @ y) else 0))"
proof (induction a)
  case (Cons p a)
  obtain x v where p: "p = (x, v)" by fastforce
  have "zsum (map (\<lambda>(y, w). (x @ y, v * w)) (zfilter (c x) b)) h
      = v * zsum b (\<lambda>y. if c x y then h (x @ y) else 0)"
    by (induction b) (auto simp: zfilter_def algebra_simps)
  with Cons show ?case by (simp add: zjoin_def p)
qed (simp add: zjoin_def)

lemma zsum_add: "zsum z (\<lambda>x. f x + g x) = zsum z f + zsum z g"
  by (induction z) (auto simp: algebra_simps)

section \<open>Sums depend on the weights only\<close>

lemma zsum_support:
  assumes "finite S" "fst ` set z \<subseteq> S"
  shows "zsum z h = (\<Sum>r \<in> S. weight z r * h r)"
  using assms(2)
proof (induction z)
  case Nil
  then show ?case by (simp add: weight_def)
next
  case (Cons p z)
  obtain x w where p: "p = (x, w)" by fastforce
  have x: "x \<in> S" using Cons.prems by (simp add: p)
  have "(\<Sum>r \<in> S. weight (p # z) r * h r)
      = (\<Sum>r \<in> S. (if x = r then w * h r else 0) + weight z r * h r)"
    by (rule sum.cong) (auto simp: p weight_def algebra_simps)
  also have "\<dots> = w * h x + (\<Sum>r \<in> S. weight z r * h r)"
    using assms(1) x by (simp add: sum.distrib sum.delta)
  finally show ?case using Cons by (simp add: p)
qed

lemma zsum_plus_delta:
  assumes "plus_delta x y z" shows "zsum z h = zsum x h + zsum y h"
proof -
  define S where "S = fst ` set x \<union> fst ` set y \<union> fst ` set z"
  have fin: "finite S" by (simp add: S_def)
  have "zsum z h = (\<Sum>r \<in> S. weight z r * h r)" "zsum x h = (\<Sum>r \<in> S. weight x r * h r)"
    "zsum y h = (\<Sum>r \<in> S. weight y r * h r)"
    by (rule zsum_support [OF fin]; auto simp: S_def)+
  with assms show ?thesis by (simp add: plus_delta_def algebra_simps sum.distrib)
qed

lemma zsum_cong_zeq: "zeq a b \<Longrightarrow> zsum a h = zsum b h"
  using zsum_plus_delta [of b "[]" a h] by (simp add: zeq_def plus_delta_def weight_def)

lemma plus_delta_zsum: "plus_delta x y z \<longleftrightarrow> (\<forall>h. zsum z h = zsum x h + zsum y h)"
proof
  show "plus_delta x y z \<Longrightarrow> \<forall>h. zsum z h = zsum x h + zsum y h" using zsum_plus_delta by blast
  show "\<forall>h. zsum z h = zsum x h + zsum y h \<Longrightarrow> plus_delta x y z"
    by (simp only: plus_delta_def weight_def) simp
qed

lemma zeq_zsum: "zeq a b \<longleftrightarrow> (\<forall>h. zsum a h = zsum b h)"
proof
  show "zeq a b \<Longrightarrow> \<forall>h. zsum a h = zsum b h" using zsum_cong_zeq by blast
  show "\<forall>h. zsum a h = zsum b h \<Longrightarrow> zeq a b" by (simp only: zeq_def weight_def) simp
qed

section \<open>Compaction\<close>

text \<open>Summing the multiplicities of equal rows and dropping the rows whose sum is zero.\<close>

definition zcompact :: "'r zset \<Rightarrow> 'r zset" where
  "zcompact z = filter (\<lambda>(r, w). w \<noteq> 0) (map (\<lambda>r. (r, weight z r)) (remdups (map fst z)))"

lemma zsum_drop_zero: "zsum (filter (\<lambda>(r, w). w \<noteq> 0) z) h = zsum z h"
  by (induction z) auto

lemma zcompact_zeq: "zeq (zcompact z) z"
  unfolding zeq_zsum
proof
  fix h
  have "zsum (map (\<lambda>r. (r, weight z r)) rs) h = (\<Sum>r \<leftarrow> rs. weight z r * h r)" for rs
    by (induction rs) simp_all
  then have "zsum (zcompact z) h = (\<Sum>r \<leftarrow> remdups (map fst z). weight z r * h r)"
    by (simp add: zcompact_def zsum_drop_zero)
  also have "\<dots> = (\<Sum>r \<in> fst ` set z. weight z r * h r)"
    by (simp add: sum_list_distinct_conv_sum_set)
  also have "\<dots> = zsum z h" by (rule zsum_support [symmetric]) simp_all
  finally show "zsum (zcompact z) h = zsum z h" .
qed

lemma zcompact_distinct: "distinct (map fst (zcompact z))"
proof -
  have "map fst (zcompact z) = filter (\<lambda>r. weight z r \<noteq> 0) (remdups (map fst z))"
    by (simp add: zcompact_def filter_map comp_def)
  then show ?thesis by simp
qed

section \<open>Additive functions of several relations\<close>

definition additive :: "nat \<Rightarrow> ((nat \<Rightarrow> 'r zset) \<Rightarrow> int) \<Rightarrow> bool" where
  "additive n F \<longleftrightarrow> (\<forall>i < n. \<forall>d x y z. plus_delta x y z \<longrightarrow>
     F (d(i := z)) = F (d(i := x)) + F (d(i := y)))"

lemma additiveD: "additive n F \<Longrightarrow> i < n \<Longrightarrow> plus_delta x y z \<Longrightarrow>
    F (d(i := z)) = F (d(i := x)) + F (d(i := y))"
  unfolding additive_def by blast

lemma additive_empty: "additive n F \<Longrightarrow> i < n \<Longrightarrow> F (d(i := [])) = 0"
  using additiveD [of n F i "[]" "[]" "[]" d] by (simp add: plus_delta_def weight_def)

lemma additive_zero:
  assumes "additive n F" "i < n" "\<forall>r. weight (d i) r = 0"
  shows "F d = 0"
proof -
  have "plus_delta [] [] (d i)" using assms(3) by (simp add: plus_delta_def weight_def)
  from additiveD [OF assms(1, 2) this, of d] additive_empty [OF assms(1, 2), of d] show ?thesis by simp
qed

fun CountBits :: "nat \<Rightarrow> nat" where
  "CountBits n = (if n = 0 then 0 else n mod 2 + CountBits (n div 2))"

declare CountBits.simps [simp del]

lemma CountBits_0 [simp]: "CountBits 0 = 0" by (subst CountBits.simps) simp

lemma CountBits_step: "CountBits n = n mod 2 + CountBits (n div 2)"
  by (subst CountBits.simps) simp

lemma CountBits_high: "m < 2 ^ k \<Longrightarrow> CountBits (2 ^ k + m) = CountBits m + 1"
proof (induction k arbitrary: m)
  case 0
  then show ?case by (simp add: CountBits_step [of "Suc 0"])
next
  case (Suc k)
  have "m div 2 < 2 ^ k" using Suc.prems by simp
  moreover have "(2 ^ Suc k + m) mod 2 = m mod 2" "(2 ^ Suc k + m) div 2 = 2 ^ k + m div 2" by simp_all
  ultimately show ?case
    using Suc.IH CountBits_step [of m] CountBits_step [of "2 ^ Suc k + m"] by simp
qed

definition mask_sign :: "nat \<Rightarrow> int" where
  "mask_sign m = (if even (CountBits m) then 1 else - 1)"

lemma mask_sign_high: "m < 2 ^ k \<Longrightarrow> mask_sign (2 ^ k + m) = - mask_sign m"
  by (simp add: mask_sign_def CountBits_high)

definition choose_leaf :: "nat \<Rightarrow> (nat \<Rightarrow> 'a) \<Rightarrow> (nat \<Rightarrow> 'a) \<Rightarrow> nat \<Rightarrow> 'a" where
  "choose_leaf m on off i = (if bit m i then on i else off i)"

lemma bit_high:
  fixes m :: nat
  assumes "m < 2 ^ k"
  shows "bit (2 ^ k + m) k" "\<not> bit m k" "i < k \<Longrightarrow> bit (2 ^ k + m) i = bit m i"
proof -
  have "(2 ^ k + m) div 2 ^ k = 1" using assms by (simp add: div_add_self1)
  then show "bit (2 ^ k + m) k" by (simp add: bit_iff_odd)
  show "\<not> bit m k" using assms by (simp add: bit_iff_odd)
  assume i: "i < k"
  then obtain j where k: "k = i + Suc j" by (metis add_Suc_right less_imp_Suc_add)
  have "(2 ^ k + m) div 2 ^ i = 2 * 2 ^ j + m div 2 ^ i"
    unfolding k power_add by simp
  then show "bit (2 ^ k + m) i = bit m i" by (simp add: bit_iff_odd)
qed

lemma bit_below:
  fixes m :: nat
  assumes "m < 2 ^ n" "bit m k" shows "k < n"
proof (rule ccontr)
  assume "\<not> k < n"
  then have "(2 :: nat) ^ n \<le> 2 ^ k" by (intro power_increasing) simp_all
  with assms show False using bit_high(2) [of m k] by simp
qed

lemma sum_masks_Suc:
  fixes f :: "nat \<Rightarrow> int"
  shows "(\<Sum>m < 2 ^ Suc k. f m) = (\<Sum>m < 2 ^ k. f m) + (\<Sum>m < 2 ^ k. f (2 ^ k + m))"
proof -
  have "{..< 2 ^ Suc k} = {..< 2 ^ k} \<union> {2 ^ k ..< 2 ^ k + 2 ^ k :: nat}" by auto
  then have "(\<Sum>m < 2 ^ Suc k. f m) = (\<Sum>m < 2 ^ k. f m) + (\<Sum>m = 2 ^ k ..< 2 ^ k + 2 ^ k. f m)"
    by (simp add: sum.union_disjoint ivl_disj_int)
  also have "(\<Sum>m = 2 ^ k ..< 2 ^ k + 2 ^ k. f m) = (\<Sum>m < 2 ^ k. f (2 ^ k + m))"
    using sum.shift_bounds_nat_ivl [of f 0 "2 ^ k" "2 ^ k"] by (simp add: atLeast0LessThan add.commute)
  finally show ?thesis .
qed

text \<open>The signed sum over all masks, where only the leaves of \<open>C\<close> have a delta: a mask with
  another leaf contributes nothing, and the function is additive in the leaves of \<open>C\<close>.\<close>

definition within :: "nat \<Rightarrow> nat set \<Rightarrow> nat \<Rightarrow> bool" where
  "within k C m \<longleftrightarrow> (\<forall>i < k. bit m i \<longrightarrow> i \<in> C)"

lemma inclusion_exclusion:
  assumes F: "\<And>i d x y z. i < n \<Longrightarrow> i \<in> C \<Longrightarrow> plus_delta x y z \<Longrightarrow>
      F (d(i := z)) = F (d(i := x)) + F (d(i := y))"
    and delta: "\<And>i. i < n \<Longrightarrow> i \<in> C \<Longrightarrow> plus_delta (old i) (dl i) (nw i)" and k: "k \<le> n"
  shows "(\<Sum>m < 2 ^ k. mask_sign m *
            (if within k C m then F (\<lambda>i. if i < k then choose_leaf m dl nw i else d i) else 0))
           = F (\<lambda>i. if i < k then (if i \<in> C then old i else nw i) else d i)"
  using k
proof (induction k arbitrary: d)
  case 0
  then show ?case by (simp add: mask_sign_def within_def)
next
  case (Suc k)
  define g where "g = (\<lambda>m d i. if i < k then choose_leaf m dl nw i else d i)"
  define T where "T = (\<lambda>d m. if within k C m then F (g m d) else (0::int))"
  have IH: "(\<Sum>m < 2 ^ k. mask_sign m * T d m) = F (\<lambda>i. if i < k then (if i \<in> C then old i else nw i) else d i)" for d
    using Suc.IH [of d] Suc.prems unfolding T_def g_def by simp
  have low: "(\<lambda>i. if i < Suc k then choose_leaf m dl nw i else d i) = g m (d(k := nw k))"
      "within (Suc k) C m = within k C m" if "m < 2 ^ k" for m
    using bit_high(2) [OF that] by (auto simp: g_def choose_leaf_def fun_eq_iff less_Suc_eq within_def)
  have high: "(\<lambda>i. if i < Suc k then choose_leaf (2 ^ k + m) dl nw i else d i) = g m (d(k := dl k))"
      "within (Suc k) C (2 ^ k + m) = (k \<in> C \<and> within k C m)" if "m < 2 ^ k" for m
    using bit_high(1, 3) [OF that]
    by (auto simp: g_def choose_leaf_def fun_eq_iff less_Suc_eq within_def)
  have upd: "g m (d(k := z)) = (g m d)(k := z)" for m z by (auto simp: g_def fun_eq_iff)
  have "(\<Sum>m < 2 ^ Suc k. mask_sign m *
          (if within (Suc k) C m then F (\<lambda>i. if i < Suc k then choose_leaf m dl nw i else d i) else 0))
      = (\<Sum>m < 2 ^ k. mask_sign m * T (d(k := nw k)) m)
        + (\<Sum>m < 2 ^ k. - mask_sign m * (if k \<in> C then T (d(k := dl k)) m else 0))"
    unfolding sum_masks_Suc T_def
    by (rule arg_cong2 [where f = "(+)"]; rule sum.cong [OF refl]) (simp_all add: low high mask_sign_high)
  also have "\<dots> = (\<Sum>m < 2 ^ k. mask_sign m * T (d(k := if k \<in> C then old k else nw k)) m)"
  proof (cases "k \<in> C")
    case True
    have "T (d(k := nw k)) m = T (d(k := old k)) m + T (d(k := dl k)) m" for m
      unfolding T_def upd using F [OF _ True delta] True Suc.prems by simp
    with True show ?thesis by (simp add: sum.distrib [symmetric] algebra_simps)
  qed simp
  also have "\<dots> = F (\<lambda>i. if i < k then (if i \<in> C then old i else nw i)
                        else (d(k := if k \<in> C then old k else nw k)) i)"
    by (rule IH)
  also have "(\<lambda>i. if i < k then (if i \<in> C then old i else nw i)
                 else (d(k := if k \<in> C then old k else nw k)) i)
      = (\<lambda>i. if i < Suc k then (if i \<in> C then old i else nw i) else d i)"
    by (auto simp: fun_eq_iff less_Suc_eq)
  finally show ?case .
qed

text \<open>Changing one leaf after the other, where only the leaves of \<open>C\<close> have a delta.\<close>

lemma telescoping:
  fixes F :: "(nat \<Rightarrow> 'r zset) \<Rightarrow> int"
  assumes F: "\<And>i d. i < n \<Longrightarrow>
      F (d(i := nw i)) = F (d(i := old i)) + (if i \<in> C then F (d(i := dl i)) else 0)"
    and k: "k \<le> n"
  shows "(\<Sum>i < k. if i \<in> C then F (\<lambda>j. if j < i then nw j else if j = i then dl j else old j) else 0)
           = F (\<lambda>j. if j < k then nw j else old j) - F old"
  using k
proof (induction k)
  case (Suc k)
  let ?d = "\<lambda>j. if j < k then nw j else old j"
  have "?d(k := nw k) = (\<lambda>j. if j < Suc k then nw j else old j)" "?d(k := old k) = ?d"
    "?d(k := dl k) = (\<lambda>j. if j < k then nw j else if j = k then dl j else old j)"
    by (auto simp: fun_eq_iff less_Suc_eq)
  with F [of k ?d] Suc show ?case by auto
qed simp

end
