(* ===== verification/Join_Leaves.thy ===== *)
theory Join_Leaves
  imports Plan Zset
begin

text \<open>
  The shape of a join tree in \<open>delta/operators/join.cpp\<close>: its leaves with their paths, the
  checks on join types, the demotion of outer joins, and which leaves are constant. A join
  operator always has two children; \<open>path\<close> lists child positions from the root.
\<close>

section \<open>Leaves\<close>

record JoinLeafInfo =
  leaf_path :: "nat list"
  leaf_is_get :: bool
  leaf_node :: LogicalOperator
  is_right_of_left_join :: bool

definition is_join_node :: "LogicalOperatorType \<Rightarrow> bool" where
  "is_join_node t \<longleftrightarrow> t \<in> {LOGICAL_COMPARISON_JOIN, LOGICAL_CROSS_PRODUCT, LOGICAL_ANY_JOIN}"

definition outer_side :: "LogicalOperatorType \<Rightarrow> op_info \<Rightarrow> JoinType list \<Rightarrow> bool" where
  "outer_side t oi jts \<longleftrightarrow> t \<in> {LOGICAL_COMPARISON_JOIN, LOGICAL_ANY_JOIN} \<and>
     (case join_type oi of None \<Rightarrow> False | Some jt \<Rightarrow> jt \<in> set jts)"

fun CollectJoinLeaves :: "LogicalOperator \<Rightarrow> nat list \<Rightarrow> bool \<Rightarrow> JoinLeafInfo list" where
  "CollectJoinLeaves (LogicalOp t oi es cs) path right =
     (if is_join_node t then
        (case cs of
           l # r # _ \<Rightarrow>
             CollectJoinLeaves l (path @ [0]) (right \<or> outer_side t oi [JOIN_RIGHT, JOIN_OUTER]) @
             CollectJoinLeaves r (path @ [1]) (right \<or> outer_side t oi [JOIN_LEFT, JOIN_OUTER])
         | _ \<Rightarrow> [])
      else [\<lparr>leaf_path = path, leaf_is_get = (t = LOGICAL_GET), leaf_node = LogicalOp t oi es cs,
             is_right_of_left_join = right\<rparr>])"

fun FindGetInSubtree :: "LogicalOperator \<Rightarrow> LogicalOperator option" where
  "FindGetInSubtree (LogicalOp t oi es cs) =
     (if t = LOGICAL_GET then Some (LogicalOp t oi es cs)
      else (case cs of [c] \<Rightarrow> FindGetInSubtree c | _ \<Rightarrow> None))"

definition GetLeafScan :: "JoinLeafInfo \<Rightarrow> LogicalOperator option" where
  "GetLeafScan leaf = (if leaf_is_get leaf then Some (leaf_node leaf) else FindGetInSubtree (leaf_node leaf))"

fun IsConstantLeafSubtree :: "LogicalOperator \<Rightarrow> bool" where
  "IsConstantLeafSubtree (LogicalOp t oi es cs) =
     (if t = LOGICAL_GET then get_table oi = None
      else if t \<in> {LOGICAL_CHUNK_GET, LOGICAL_DUMMY_SCAN, LOGICAL_EXPRESSION_GET, LOGICAL_UNNEST} then True
      else if cs = [] then False
      else list_all IsConstantLeafSubtree cs)"

fun GetNodeAtPath :: "LogicalOperator \<Rightarrow> nat list \<Rightarrow> LogicalOperator option" where
  "GetNodeAtPath op [] = Some op"
| "GetNodeAtPath op (step # path) =
     (if step < length (children op) then GetNodeAtPath (children op ! step) path else None)"

section \<open>Join types\<close>

datatype join_error = UnsupportedJoinType JoinType

text \<open>A \<open>LOGICAL_COMPARISON_JOIN\<close> always is a \<open>LogicalComparisonJoin\<close>, so its join type is
  present.\<close>

definition verify_here :: "LogicalOperatorType \<Rightarrow> op_info \<Rightarrow> join_error + bool" where
  "verify_here t oi =
     (if t \<noteq> LOGICAL_COMPARISON_JOIN then Inr False
      else (case join_type oi of
         None \<Rightarrow> Inr False
       | Some jt \<Rightarrow>
           (if jt \<in> {JOIN_LEFT, JOIN_RIGHT, JOIN_OUTER} then Inr True
            else if jt \<notin> {JOIN_INNER, JOIN_MARK, JOIN_SEMI, JOIN_ANTI, JOIN_RIGHT_SEMI, JOIN_RIGHT_ANTI}
            then Inl (UnsupportedJoinType jt) else Inr False)))"

fun VerifyJoinTypes :: "LogicalOperator \<Rightarrow> join_error + bool"
  and verify_children :: "LogicalOperator list \<Rightarrow> bool \<Rightarrow> join_error + bool" where
  "VerifyJoinTypes (LogicalOp t oi es cs) =
     (case verify_here t oi of Inl e \<Rightarrow> Inl e | Inr has_left \<Rightarrow> verify_children cs has_left)"
| "verify_children [] has_left = Inr has_left"
| "verify_children (c # cs) has_left =
     (case VerifyJoinTypes c of
        Inl e \<Rightarrow> Inl e
      | Inr found \<Rightarrow> verify_children cs (has_left \<or> found))"

section \<open>Demotion of outer joins\<close>

definition demote_info :: "bool \<Rightarrow> op_info \<Rightarrow> op_info" where
  "demote_info demote oi = (if demote then oi\<lparr>join_type := Some JOIN_INNER\<rparr> else oi)"

fun DemoteLeftJoins :: "LogicalOperator \<Rightarrow> LogicalOperator" where
  "DemoteLeftJoins (LogicalOp t oi es cs) =
     LogicalOp t
       (demote_info (t = LOGICAL_COMPARISON_JOIN \<and>
          join_type oi \<in> {Some JOIN_LEFT, Some JOIN_RIGHT, Some JOIN_OUTER}) oi)
       es (map DemoteLeftJoins cs)"

definition SubtreeHasDeltaLeaf :: "JoinLeafInfo list \<Rightarrow> nat \<Rightarrow> nat list \<Rightarrow> bool" where
  "SubtreeHasDeltaLeaf leaves m prefix =
     list_ex (\<lambda>i. bit m i \<and> length prefix \<le> length (leaf_path (leaves ! i)) \<and>
                  take (length prefix) (leaf_path (leaves ! i)) = prefix) [0 ..< length leaves]"

definition demote_for_mask :: "JoinLeafInfo list \<Rightarrow> nat \<Rightarrow> nat list \<Rightarrow> LogicalOperatorType \<Rightarrow> op_info \<Rightarrow> bool" where
  "demote_for_mask leaves m path t oi =
     (t = LOGICAL_COMPARISON_JOIN \<and>
      (let left_has_delta = SubtreeHasDeltaLeaf leaves m (path @ [0]);
           right_has_delta = SubtreeHasDeltaLeaf leaves m (path @ [1])
       in case join_type oi of
            Some JOIN_LEFT \<Rightarrow> right_has_delta
          | Some JOIN_RIGHT \<Rightarrow> left_has_delta
          | Some JOIN_OUTER \<Rightarrow> left_has_delta \<or> right_has_delta
          | _ \<Rightarrow> False))"

fun DemoteLeftJoinsForMaskRec :: "JoinLeafInfo list \<Rightarrow> nat \<Rightarrow> nat list \<Rightarrow> LogicalOperator \<Rightarrow> LogicalOperator"
  and demote_children ::
    "JoinLeafInfo list \<Rightarrow> nat \<Rightarrow> nat list \<Rightarrow> nat \<Rightarrow> LogicalOperator list \<Rightarrow> LogicalOperator list" where
  "DemoteLeftJoinsForMaskRec leaves m path (LogicalOp t oi es cs) =
     LogicalOp t (demote_info (demote_for_mask leaves m path t oi) oi) es
       (demote_children leaves m path 0 cs)"
| "demote_children leaves m path i [] = []"
| "demote_children leaves m path i (c # cs) =
     DemoteLeftJoinsForMaskRec leaves m (path @ [i]) c # demote_children leaves m path (i + 1) cs"

definition DemoteLeftJoinsForMask :: "LogicalOperator \<Rightarrow> JoinLeafInfo list \<Rightarrow> nat \<Rightarrow> LogicalOperator" where
  "DemoteLeftJoinsForMask node leaves m = DemoteLeftJoinsForMaskRec leaves m [] node"

section \<open>Facts about the leaves\<close>

lemma CollectJoinLeaves_paths:
  "leaf \<in> set (CollectJoinLeaves op path right) \<Longrightarrow>
     \<exists>q. leaf_path leaf = path @ q \<and> GetNodeAtPath op q = Some (leaf_node leaf)"
proof (induction op path right rule: CollectJoinLeaves.induct)
  case (1 t oi es cs path right)
  show ?case
  proof (cases "is_join_node t")
    case False
    with "1.prems" show ?thesis by (intro exI [of _ "[]"]) simp
  next
    case True
    show ?thesis
    proof (cases "\<exists>l r rest. cs = l # r # rest")
      case two: True
      then obtain l r rest where cs: "cs = l # r # rest" by blast
      consider "leaf \<in> set (CollectJoinLeaves l (path @ [0]) (right \<or> outer_side t oi [JOIN_RIGHT, JOIN_OUTER]))"
        | "leaf \<in> set (CollectJoinLeaves r (path @ [1]) (right \<or> outer_side t oi [JOIN_LEFT, JOIN_OUTER]))"
        using "1.prems" True cs by auto
      then show ?thesis
      proof cases
        case 1
        from "1.IH"(1) [OF True cs refl this] obtain q where
          "leaf_path leaf = (path @ [0]) @ q" "GetNodeAtPath l q = Some (leaf_node leaf)" by blast
        then show ?thesis by (intro exI [of _ "0 # q"]) (simp add: cs)
      next
        case 2
        from "1.IH"(2) [OF True cs refl this] obtain q where
          "leaf_path leaf = (path @ [1]) @ q" "GetNodeAtPath r q = Some (leaf_node leaf)" by blast
        then show ?thesis by (intro exI [of _ "1 # q"]) (simp add: cs)
      qed
    next
      case False
      with "1.prems" True show ?thesis by (auto split: list.split_asm)
    qed
  qed
qed

end
