(* ===== verification/Join_Semantics.thy ===== *)
theory Join_Semantics
  imports Join_Leaves
begin

text \<open>
  What a join tree computes. A row of a join is the list of its leaves' rows, each tagged with
  the position of its leaf (left to right, as \<open>CollectJoinLeaves\<close> lists them); a leaf that an
  outer join pads with NULLs is absent. Expressions and conditions that are not equalities
  belong to the database and are parameters. The theory proves when the result is additive in
  a leaf, and what the demotion of outer joins does to a term whose leaf is a delta.
\<close>

section \<open>Evaluation\<close>

type_synonym 'l jrow = "(nat \<times> 'l) list"

record ('l, 'v) row_semantics =
  eval_expr :: "Expression \<Rightarrow> 'l jrow \<Rightarrow> 'v option"
  other_comparison :: "JoinCondition \<Rightarrow> 'l jrow \<Rightarrow> bool"
  any_condition :: "op_info \<Rightarrow> 'l jrow \<Rightarrow> bool"

definition cond_holds :: "('l, 'v) row_semantics \<Rightarrow> JoinCondition \<Rightarrow> 'l jrow \<Rightarrow> bool" where
  "cond_holds S c row =
     (if is_equal c then eval_expr S (cond_left c) row \<noteq> None \<and>
                         eval_expr S (cond_left c) row = eval_expr S (cond_right c) row
      else other_comparison S c row)"

definition join_condition ::
  "('l, 'v) row_semantics \<Rightarrow> LogicalOperatorType \<Rightarrow> op_info \<Rightarrow> 'l jrow \<Rightarrow> 'l jrow \<Rightarrow> bool" where
  "join_condition S t oi x y =
     (if t = LOGICAL_CROSS_PRODUCT then True
      else if t = LOGICAL_ANY_JOIN then any_condition S oi (x @ y)
      else list_all (\<lambda>c. cond_holds S c (x @ y)) (conditions oi))"

definition effective_type :: "LogicalOperatorType \<Rightarrow> op_info \<Rightarrow> JoinType" where
  "effective_type t oi =
     (if t = LOGICAL_CROSS_PRODUCT then JOIN_INNER
      else (case join_type oi of None \<Rightarrow> JOIN_INNER | Some jt \<Rightarrow> jt))"

text \<open>The rows of one side without a partner on the other.\<close>

definition unmatched_rows :: "('r list \<Rightarrow> 'r list \<Rightarrow> bool) \<Rightarrow> 'r list zset \<Rightarrow> 'r list zset \<Rightarrow> 'r list zset" where
  "unmatched_rows c a b = zfilter (\<lambda>x. zsum b (\<lambda>y. if c x y then 1 else 0) = 0) a"

definition join_rows ::
  "JoinType \<Rightarrow> ('r list \<Rightarrow> 'r list \<Rightarrow> bool) \<Rightarrow> 'r list zset \<Rightarrow> 'r list zset \<Rightarrow> 'r list zset" where
  "join_rows jt c a b = zjoin c a b
     @ (if jt \<in> {JOIN_LEFT, JOIN_OUTER} then unmatched_rows c a b else [])
     @ (if jt \<in> {JOIN_RIGHT, JOIN_OUTER} then unmatched_rows (\<lambda>y x. c x y) b a else [])"

text \<open>The join types of the theory: an inner join, or one of the three outer joins. The types
  that keep one side only (semi, anti, mark) have rules of their own.\<close>

definition plain_type :: "JoinType \<Rightarrow> bool" where
  "plain_type jt \<longleftrightarrow> jt \<in> {JOIN_INNER, JOIN_LEFT, JOIN_RIGHT, JOIN_OUTER}"

fun leaf_count :: "LogicalOperator \<Rightarrow> nat" where
  "leaf_count (LogicalOp t oi es cs) =
     (if is_join_node t then (case cs of l # r # _ \<Rightarrow> leaf_count l + leaf_count r | _ \<Rightarrow> 0) else 1)"

fun eval_join :: "('l, 'v) row_semantics \<Rightarrow> (nat \<Rightarrow> 'l zset) \<Rightarrow> nat \<Rightarrow> LogicalOperator \<Rightarrow> 'l jrow zset" where
  "eval_join S d n (LogicalOp t oi es cs) =
     (if is_join_node t then
        (case cs of
           l # r # _ \<Rightarrow>
             join_rows (effective_type t oi) (join_condition S t oi) (eval_join S d n l)
               (eval_join S d (n + leaf_count l) r)
         | _ \<Rightarrow> [])
      else zmap (\<lambda>x. [(n, x)]) (d n))"

lemma join_tree_cases [case_names leaf join degenerate]:
  fixes op :: LogicalOperator
  obtains (leaf) t oi es cs where "op = LogicalOp t oi es cs" "\<not> is_join_node t"
  | (join) t oi es l r rest where "op = LogicalOp t oi es (l # r # rest)" "is_join_node t"
  | (degenerate) t oi es cs where "op = LogicalOp t oi es cs" "is_join_node t" "length cs < 2"
proof -
  obtain t oi es cs where op: "op = LogicalOp t oi es cs" by (cases op) blast
  show thesis
  proof (cases "is_join_node t")
    case True
    consider l r rest where "cs = l # r # rest" | "length cs < 2"
      by (cases cs; cases "tl cs") auto
    then show thesis by cases (use op True join degenerate in blast)+
  qed (use op leaf in blast)
qed

lemma join_tree_induct [case_names leaf join degenerate]:
  assumes "\<And>t oi es cs. \<not> is_join_node t \<Longrightarrow> P (LogicalOp t oi es cs)"
    and "\<And>t oi es l r rest. is_join_node t \<Longrightarrow> P l \<Longrightarrow> P r \<Longrightarrow> P (LogicalOp t oi es (l # r # rest))"
    and "\<And>t oi es cs. is_join_node t \<Longrightarrow> length cs < 2 \<Longrightarrow> P (LogicalOp t oi es cs)"
  shows "P op"
proof (induction op rule: plan_induct)
  case (LogicalOp t oi es cs)
  show ?case
  proof (cases "LogicalOp t oi es cs" rule: join_tree_cases)
    case (join t oi es l r rest)
    then show ?thesis using assms(2) LogicalOp by simp
  qed (use assms in auto)
qed

lemma short_list_simps:
  "length cs < 2 \<Longrightarrow> (case cs of l # r # rest \<Rightarrow> f l r rest | _ \<Rightarrow> z) = z"
  by (cases cs; cases "tl cs") auto

named_theorems join_simps \<open>the two-child equations of the functions on join trees\<close>

lemma leaf_count_join [join_simps]:
  "is_join_node t \<Longrightarrow> leaf_count (LogicalOp t oi es (l # r # rest)) = leaf_count l + leaf_count r"
  "\<not> is_join_node t \<Longrightarrow> leaf_count (LogicalOp t oi es cs) = 1"
  "is_join_node t \<Longrightarrow> length cs < 2 \<Longrightarrow> leaf_count (LogicalOp t oi es cs) = 0"
  by (simp_all add: short_list_simps)

lemma eval_join_join [join_simps]:
  "is_join_node t \<Longrightarrow> eval_join S d n (LogicalOp t oi es (l # r # rest)) =
     join_rows (effective_type t oi) (join_condition S t oi) (eval_join S d n l)
               (eval_join S d (n + leaf_count l) r)"
  "\<not> is_join_node t \<Longrightarrow> eval_join S d n (LogicalOp t oi es cs) = zmap (\<lambda>x. [(n, x)]) (d n)"
  "is_join_node t \<Longrightarrow> length cs < 2 \<Longrightarrow> eval_join S d n (LogicalOp t oi es cs) = []"
  by (simp_all add: short_list_simps)

lemma CollectJoinLeaves_join [join_simps]:
  "is_join_node t \<Longrightarrow> CollectJoinLeaves (LogicalOp t oi es (l # r # rest)) path right =
     CollectJoinLeaves l (path @ [0]) (right \<or> outer_side t oi [JOIN_RIGHT, JOIN_OUTER]) @
     CollectJoinLeaves r (path @ [1]) (right \<or> outer_side t oi [JOIN_LEFT, JOIN_OUTER])"
  "\<not> is_join_node t \<Longrightarrow> CollectJoinLeaves (LogicalOp t oi es cs) path right =
     [\<lparr>leaf_path = path, leaf_is_get = (t = LOGICAL_GET), leaf_node = LogicalOp t oi es cs,
       is_right_of_left_join = right\<rparr>]"
  "is_join_node t \<Longrightarrow> length cs < 2 \<Longrightarrow> CollectJoinLeaves (LogicalOp t oi es cs) path right = []"
  by (simp_all add: short_list_simps)

declare leaf_count.simps [simp del] eval_join.simps [simp del] CollectJoinLeaves.simps [simp del]

lemma CollectJoinLeaves_length [simp]: "length (CollectJoinLeaves op path right) = leaf_count op"
  by (induction op arbitrary: path right rule: join_tree_induct) (simp_all add: join_simps)

section \<open>Sums over joins\<close>

lemma zsum_unmatched_rows:
  "zsum (unmatched_rows c a b) h
     = zsum a (\<lambda>x. if zsum b (\<lambda>y. if c x y then 1 else 0) = 0 then h x else 0)"
  by (simp add: unmatched_rows_def)

lemma zsum_join_rows:
  "zsum (join_rows jt c a b) h =
     zsum a (\<lambda>x. zsum b (\<lambda>y. if c x y then h (x @ y) else 0))
     + (if jt \<in> {JOIN_LEFT, JOIN_OUTER}
        then zsum a (\<lambda>x. if zsum b (\<lambda>y. if c x y then 1 else 0) = 0 then h x else 0) else 0)
     + (if jt \<in> {JOIN_RIGHT, JOIN_OUTER}
        then zsum b (\<lambda>y. if zsum a (\<lambda>x. if c x y then 1 else 0) = 0 then h y else 0) else 0)"
  by (simp add: join_rows_def zsum_zjoin zsum_unmatched_rows)

lemma zsum_fun_eq: "zeq a b \<Longrightarrow> zsum a = zsum b"
  by (rule ext) (rule zsum_cong_zeq)

lemma join_rows_zeq: "zeq a a' \<Longrightarrow> zeq b b' \<Longrightarrow> zeq (join_rows jt c a b) (join_rows jt c a' b')"
  unfolding zeq_zsum zsum_join_rows by simp

lemma eval_join_zeq:
  assumes "\<And>i. n \<le> i \<Longrightarrow> i < n + leaf_count op \<Longrightarrow> zeq (d i) (d' i)"
  shows "zeq (eval_join S d n op) (eval_join S d' n op)"
  using assms
proof (induction op arbitrary: n rule: join_tree_induct)
  case (leaf t oi es cs)
  then have "zeq (d n) (d' n)" by (simp add: join_simps)
  with leaf.hyps show ?case by (simp add: join_simps zeq_zsum)
next
  case (join t oi es l r rest)
  have "zeq (eval_join S d n l) (eval_join S d' n l)"
    by (rule join.IH(1)) (use join.prems join.hyps in \<open>simp add: join_simps\<close>)
  moreover have "zeq (eval_join S d (n + leaf_count l) r) (eval_join S d' (n + leaf_count l) r)"
    by (rule join.IH(2)) (use join.prems join.hyps in \<open>simp add: join_simps\<close>)
  ultimately show ?case using join.hyps by (simp add: join_simps join_rows_zeq)
qed (simp add: join_simps zeq_def)

lemma eval_join_cong:
  assumes "\<And>i. n \<le> i \<Longrightarrow> i < n + leaf_count op \<Longrightarrow> d i = d' i"
  shows "eval_join S d n op = eval_join S d' n op"
  using assms
proof (induction op arbitrary: n rule: join_tree_induct)
  case (join t oi es l r rest)
  have "eval_join S d n l = eval_join S d' n l"
    by (rule join.IH(1)) (use join.prems join.hyps in \<open>simp add: join_simps\<close>)
  moreover have "eval_join S d (n + leaf_count l) r = eval_join S d' (n + leaf_count l) r"
    by (rule join.IH(2)) (use join.prems join.hyps in \<open>simp add: join_simps\<close>)
  ultimately show ?case using join.hyps by (simp add: join_simps)
qed (simp_all add: join_simps)

section \<open>Leaves that no outer join pads\<close>

text \<open>\<open>linear_in i n op\<close>: no join above leaf \<open>i\<close> supplies NULLs on the side of the leaf. This is
  the negation of the flag \<open>is_right_of_left_join\<close> that \<open>CollectJoinLeaves\<close> computes.\<close>

fun linear_in :: "nat \<Rightarrow> nat \<Rightarrow> LogicalOperator \<Rightarrow> bool" where
  "linear_in i n (LogicalOp t oi es cs) =
     (if is_join_node t then
        (case cs of
           l # r # _ \<Rightarrow>
             (if i < n + leaf_count l
              then effective_type t oi \<notin> {JOIN_RIGHT, JOIN_OUTER} \<and> linear_in i n l
              else effective_type t oi \<notin> {JOIN_LEFT, JOIN_OUTER} \<and> linear_in i (n + leaf_count l) r)
         | _ \<Rightarrow> True)
      else True)"

lemma linear_in_join [join_simps]:
  "is_join_node t \<Longrightarrow> linear_in i n (LogicalOp t oi es (l # r # rest)) =
     (if i < n + leaf_count l
      then effective_type t oi \<notin> {JOIN_RIGHT, JOIN_OUTER} \<and> linear_in i n l
      else effective_type t oi \<notin> {JOIN_LEFT, JOIN_OUTER} \<and> linear_in i (n + leaf_count l) r)"
  "\<not> is_join_node t \<Longrightarrow> linear_in i n (LogicalOp t oi es cs)"
  "is_join_node t \<Longrightarrow> length cs < 2 \<Longrightarrow> linear_in i n (LogicalOp t oi es cs)"
  by (simp_all add: short_list_simps)

declare linear_in.simps [simp del]

lemma outer_side_effective:
  assumes "is_join_node t" "JOIN_INNER \<notin> set jts"
  shows "outer_side t oi jts \<longleftrightarrow> effective_type t oi \<in> set jts"
  using assms by (auto simp: outer_side_def effective_type_def is_join_node_def split: option.splits)

lemma is_right_of_left_join_iff:
  "i < leaf_count op \<Longrightarrow>
     is_right_of_left_join (CollectJoinLeaves op path right ! i) \<longleftrightarrow> right \<or> \<not> linear_in (n + i) n op"
proof (induction op arbitrary: i n path right rule: join_tree_induct)
  case (join t oi es l r rest)
  have side: "outer_side t oi [JOIN_RIGHT, JOIN_OUTER] \<longleftrightarrow> effective_type t oi \<in> {JOIN_RIGHT, JOIN_OUTER}"
    "outer_side t oi [JOIN_LEFT, JOIN_OUTER] \<longleftrightarrow> effective_type t oi \<in> {JOIN_LEFT, JOIN_OUTER}"
    using join.hyps by (simp_all add: outer_side_effective)
  show ?case
  proof (cases "i < leaf_count l")
    case True
    then show ?thesis
      using join.IH(1) [OF True, where n = n] join.hyps side by (auto simp: join_simps nth_append)
  next
    case False
    then have i: "i - leaf_count l < leaf_count r" "n + leaf_count l + (i - leaf_count l) = n + i"
      using join.prems join.hyps by (simp_all add: join_simps)
    show ?thesis
      using join.IH(2) [OF i(1), where n = "n + leaf_count l"] i(2) join.hyps side False
      by (auto simp: join_simps nth_append)
  qed
qed (simp_all add: join_simps)

text \<open>The result is additive in such a leaf.\<close>

lemma eval_join_additive:
  assumes "n \<le> i" "i < n + leaf_count op" "linear_in i n op" "plus_delta x y z"
  shows "zsum (eval_join S (d(i := z)) n op) h
       = zsum (eval_join S (d(i := x)) n op) h + zsum (eval_join S (d(i := y)) n op) h"
  using assms(1-3)
proof (induction op arbitrary: n h rule: join_tree_induct)
  case (leaf t oi es cs)
  then have "i = n" by (simp add: join_simps)
  then show ?case using leaf.hyps zsum_plus_delta [OF assms(4)] by (simp add: join_simps)
next
  case (join t oi es l r rest)
  let ?k = "n + leaf_count l"
  show ?case
  proof (cases "i < ?k")
    case True
    have r: "eval_join S (d(i := w)) ?k r = eval_join S d ?k r" for w
      by (rule eval_join_cong) (use True in auto)
    have lin: "effective_type t oi \<notin> {JOIN_RIGHT, JOIN_OUTER}" "linear_in i n l"
      using join.prems join.hyps True by (auto simp: join_simps)
    have IH: "zsum (eval_join S (d(i := z)) n l) g
       = zsum (eval_join S (d(i := x)) n l) g + zsum (eval_join S (d(i := y)) n l) g" for g
      using join.IH(1) join.prems(1) True lin(2) .
    show ?thesis
      using join.hyps lin(1) unfolding eval_join_join(1) [OF join.hyps] r zsum_join_rows
      by (simp only: IH) simp
  next
    case False
    have l: "eval_join S (d(i := w)) n l = eval_join S d n l" for w
      by (rule eval_join_cong) (use False in auto)
    have lin: "effective_type t oi \<notin> {JOIN_LEFT, JOIN_OUTER}" "linear_in i ?k r"
      using join.prems join.hyps False by (auto simp: join_simps)
    have IH: "zsum (eval_join S (d(i := z)) ?k r) g
       = zsum (eval_join S (d(i := x)) ?k r) g + zsum (eval_join S (d(i := y)) ?k r) g" for g
      by (rule join.IH(2)) (use False join.prems join.hyps lin(2) in \<open>simp_all add: join_simps\<close>)
    show ?thesis
      using join.hyps lin(1) unfolding eval_join_join(1) [OF join.hyps] l zsum_join_rows
      by (simp only: IH zsum_add) simp
  qed
qed (simp_all add: join_simps)

section \<open>Terms: the demoted tree over delta leaves\<close>

definition has_delta :: "nat \<Rightarrow> nat \<Rightarrow> nat \<Rightarrow> bool" where
  "has_delta m n k \<longleftrightarrow> (\<exists>i. n \<le> i \<and> i < n + k \<and> bit m i)"

text \<open>The type a join has in the term of mask \<open>m\<close>: an outer join whose NULL-supplying side
  holds a delta leaf becomes an inner join.\<close>

definition term_type :: "nat \<Rightarrow> bool \<Rightarrow> bool \<Rightarrow> LogicalOperatorType \<Rightarrow> op_info \<Rightarrow> JoinType" where
  "term_type m left_delta right_delta t oi =
     (if t = LOGICAL_COMPARISON_JOIN \<and>
         (effective_type t oi = JOIN_LEFT \<and> right_delta \<or>
          effective_type t oi = JOIN_RIGHT \<and> left_delta \<or>
          effective_type t oi = JOIN_OUTER \<and> (left_delta \<or> right_delta))
      then JOIN_INNER else effective_type t oi)"

fun eval_term :: "('l, 'v) row_semantics \<Rightarrow> nat \<Rightarrow> (nat \<Rightarrow> 'l zset) \<Rightarrow> nat \<Rightarrow> LogicalOperator \<Rightarrow> 'l jrow zset" where
  "eval_term S m d n (LogicalOp t oi es cs) =
     (if is_join_node t then
        (case cs of
           l # r # _ \<Rightarrow>
             join_rows (term_type m (has_delta m n (leaf_count l))
                          (has_delta m (n + leaf_count l) (leaf_count r)) t oi)
               (join_condition S t oi) (eval_term S m d n l) (eval_term S m d (n + leaf_count l) r)
         | _ \<Rightarrow> [])
      else zmap (\<lambda>x. [(n, x)]) (d n))"

lemma eval_term_join [join_simps]:
  "is_join_node t \<Longrightarrow> eval_term S m d n (LogicalOp t oi es (l # r # rest)) =
     join_rows (term_type m (has_delta m n (leaf_count l))
                  (has_delta m (n + leaf_count l) (leaf_count r)) t oi)
       (join_condition S t oi) (eval_term S m d n l) (eval_term S m d (n + leaf_count l) r)"
  "\<not> is_join_node t \<Longrightarrow> eval_term S m d n (LogicalOp t oi es cs) = zmap (\<lambda>x. [(n, x)]) (d n)"
  "is_join_node t \<Longrightarrow> length cs < 2 \<Longrightarrow> eval_term S m d n (LogicalOp t oi es cs) = []"
  by (simp_all add: short_list_simps)

declare eval_term.simps [simp del]

definition under_path :: "nat list \<Rightarrow> JoinLeafInfo \<Rightarrow> bool" where
  "under_path p leaf \<longleftrightarrow> length p \<le> length (leaf_path leaf) \<and> take (length p) (leaf_path leaf) = p"

lemma under_path_iff: "under_path p leaf \<longleftrightarrow> (\<exists>q. leaf_path leaf = p @ q)"
  by (metis append_eq_conv_conj append_take_drop_id le_add1 length_append under_path_def)

lemma under_path_append: "under_path (p @ q) leaf \<Longrightarrow> under_path p leaf"
  by (auto simp: under_path_iff)

lemma under_path_sibling: "under_path (p @ [i]) leaf \<Longrightarrow> under_path (p @ [j]) leaf \<Longrightarrow> i = j"
  by (auto simp: under_path_iff)

lemma leaves_under_path: "leaf \<in> set (CollectJoinLeaves op p right) \<Longrightarrow> under_path p leaf"
  using CollectJoinLeaves_paths [of leaf op p right] by (auto simp: under_path_iff)

lemma SubtreeHasDeltaLeaf_range:
  assumes leaves: "leaves = pre @ mid @ post" and n: "length pre = n"
    and "\<And>leaf. leaf \<in> set pre \<union> set post \<Longrightarrow> \<not> under_path p leaf"
    and "\<And>leaf. leaf \<in> set mid \<Longrightarrow> under_path p leaf"
  shows "SubtreeHasDeltaLeaf leaves m p \<longleftrightarrow> has_delta m n (length mid)"
proof -
  have "under_path p (leaves ! i) \<longleftrightarrow> n \<le> i \<and> i < n + length mid" if "i < length leaves" for i
  proof -
    consider "i < n" | "n \<le> i" "i < n + length mid" | "n + length mid \<le> i" by linarith
    then show ?thesis
    proof cases
      case 1
      then have "leaves ! i \<in> set pre" using leaves n by (simp add: nth_append)
      with 1 assms(3) show ?thesis by auto
    next
      case 2
      then have "leaves ! i = mid ! (i - n)" using leaves n by (auto simp: nth_append)
      with 2 assms(4) show ?thesis by simp
    next
      case 3
      then have "leaves ! i = post ! (i - n - length mid)" "i - n - length mid < length post"
        using leaves n that by (auto simp: nth_append)
      with 3 assms(3) show ?thesis by (metis UnCI nth_mem not_le)
    qed
  qed
  moreover have "n + length mid \<le> length leaves" using leaves n by simp
  ultimately show ?thesis
    unfolding SubtreeHasDeltaLeaf_def has_delta_def list_ex_iff under_path_def [symmetric]
    by fastforce
qed

lemma is_join_node_comparison [simp]: "is_join_node LOGICAL_COMPARISON_JOIN"
  by (simp add: is_join_node_def)

lemma leaf_count_demoted [simp]: "leaf_count (DemoteLeftJoinsForMaskRec leaves m p op) = leaf_count op"
proof (induction op arbitrary: p rule: join_tree_induct)
  case (degenerate t oi es cs)
  then show ?case by (cases cs; cases "tl cs") (simp_all add: join_simps)
qed (simp_all add: join_simps)

lemma join_condition_demoted:
  "join_condition S t (demote_info (demote_for_mask leaves m p t oi) oi) = join_condition S t oi"
proof (cases "demote_for_mask leaves m p t oi")
  case True
  then have "t = LOGICAL_COMPARISON_JOIN" by (simp add: demote_for_mask_def)
  then show ?thesis by (intro ext) (simp add: join_condition_def demote_info_def)
qed (simp add: demote_info_def)

lemma effective_type_demoted:
  assumes "SubtreeHasDeltaLeaf leaves m (p @ [0]) = a" "SubtreeHasDeltaLeaf leaves m (p @ [1]) = b"
  shows "effective_type t (demote_info (demote_for_mask leaves m p t oi) oi) = term_type m a b t oi"
  using assms
  by (auto simp: demote_info_def demote_for_mask_def term_type_def effective_type_def Let_def
      split: option.splits JoinType.splits)

text \<open>Trees of inner and outer joins whose outer joins are comparison joins, the ones that
  \<open>VerifyJoinTypes\<close> and the demotion look at.\<close>

fun supported_tree :: "LogicalOperator \<Rightarrow> bool" where
  "supported_tree (LogicalOp t oi es cs) =
     (if is_join_node t then
        (case cs of
           l # r # _ \<Rightarrow>
             plain_type (effective_type t oi) \<and>
             (effective_type t oi \<in> {JOIN_LEFT, JOIN_RIGHT, JOIN_OUTER} \<longrightarrow> t = LOGICAL_COMPARISON_JOIN) \<and>
             supported_tree l \<and> supported_tree r
         | _ \<Rightarrow> True)
      else True)"

lemma supported_tree_join [join_simps]:
  "is_join_node t \<Longrightarrow> supported_tree (LogicalOp t oi es (l # r # rest)) \<longleftrightarrow>
     plain_type (effective_type t oi) \<and>
     (effective_type t oi \<in> {JOIN_LEFT, JOIN_RIGHT, JOIN_OUTER} \<longrightarrow> t = LOGICAL_COMPARISON_JOIN) \<and>
     supported_tree l \<and> supported_tree r"
  "\<not> is_join_node t \<Longrightarrow> supported_tree (LogicalOp t oi es cs)"
  "is_join_node t \<Longrightarrow> length cs < 2 \<Longrightarrow> supported_tree (LogicalOp t oi es cs)"
  by (simp_all add: short_list_simps)

declare supported_tree.simps [simp del]

text \<open>The side that a join pads with NULLs.\<close>

definition pads_left :: "JoinType \<Rightarrow> bool" where "pads_left jt \<longleftrightarrow> jt \<in> {JOIN_RIGHT, JOIN_OUTER}"
definition pads_right :: "JoinType \<Rightarrow> bool" where "pads_right jt \<longleftrightarrow> jt \<in> {JOIN_LEFT, JOIN_OUTER}"

fun pads_no_delta :: "nat \<Rightarrow> nat \<Rightarrow> LogicalOperator \<Rightarrow> bool" where
  "pads_no_delta m n (LogicalOp t oi es cs) =
     (if is_join_node t then
        (case cs of
           l # r # _ \<Rightarrow>
             (pads_left (effective_type t oi) \<longrightarrow> \<not> has_delta m n (leaf_count l)) \<and>
             (pads_right (effective_type t oi) \<longrightarrow> \<not> has_delta m (n + leaf_count l) (leaf_count r)) \<and>
             pads_no_delta m n l \<and> pads_no_delta m (n + leaf_count l) r
         | _ \<Rightarrow> True)
      else True)"

lemma pads_no_delta_join [join_simps]:
  "is_join_node t \<Longrightarrow> pads_no_delta m n (LogicalOp t oi es (l # r # rest)) \<longleftrightarrow>
     (pads_left (effective_type t oi) \<longrightarrow> \<not> has_delta m n (leaf_count l)) \<and>
     (pads_right (effective_type t oi) \<longrightarrow> \<not> has_delta m (n + leaf_count l) (leaf_count r)) \<and>
     pads_no_delta m n l \<and> pads_no_delta m (n + leaf_count l) r"
  "\<not> is_join_node t \<Longrightarrow> pads_no_delta m n (LogicalOp t oi es cs)"
  "is_join_node t \<Longrightarrow> length cs < 2 \<Longrightarrow> pads_no_delta m n (LogicalOp t oi es cs)"
  by (simp_all add: short_list_simps)

declare pads_no_delta.simps [simp del]

lemma term_type_pads:
  assumes "effective_type t oi \<in> {JOIN_LEFT, JOIN_RIGHT, JOIN_OUTER} \<longrightarrow> t = LOGICAL_COMPARISON_JOIN"
  shows "pads_left (term_type m a b t oi) \<Longrightarrow> \<not> a" "pads_right (term_type m a b t oi) \<Longrightarrow> \<not> b"
  using assms by (auto simp: term_type_def pads_left_def pads_right_def split: if_splits)

text \<open>The demoted tree evaluates as the term does, and where every outer join can be demoted, no
  join of it pads a side that holds a delta leaf.\<close>

lemma demoted_tree:
  assumes "leaves = pre @ CollectJoinLeaves op p right @ post" "length pre = n"
    and "\<And>leaf. leaf \<in> set pre \<union> set post \<Longrightarrow> \<not> under_path p leaf"
  shows "eval_join S d n (DemoteLeftJoinsForMaskRec leaves m p op) = eval_term S m d n op \<and>
    (supported_tree op \<longrightarrow> pads_no_delta m n (DemoteLeftJoinsForMaskRec leaves m p op))"
  using assms
proof (induction op arbitrary: pre post n p right rule: join_tree_induct)
  case (leaf t oi es cs)
  then show ?case by (simp add: join_simps)
next
  case (degenerate t oi es cs)
  then show ?case by (cases cs; cases "tl cs") (simp_all add: join_simps)
next
  case (join t oi es l r rest)
  define A where "A = CollectJoinLeaves l (p @ [0]) (right \<or> outer_side t oi [JOIN_RIGHT, JOIN_OUTER])"
  define B where "B = CollectJoinLeaves r (p @ [1]) (right \<or> outer_side t oi [JOIN_LEFT, JOIN_OUTER])"
  have A: "under_path (p @ [0]) x" if "x \<in> set A" for x using that leaves_under_path by (simp add: A_def)
  have B: "under_path (p @ [1]) x" if "x \<in> set B" for x using that leaves_under_path by (simp add: B_def)
  have split: "leaves = pre @ A @ (B @ post)" "leaves = (pre @ A) @ B @ post"
    using join.prems(1) join.hyps by (simp_all add: join_simps A_def B_def)
  have out0: "\<not> under_path (p @ [0]) x" if "x \<in> set pre \<union> set (B @ post)" for x
    using that join.prems(3) [of x] B under_path_append [of p "[0]"] under_path_sibling [of p 0 x 1] by auto
  have out1: "\<not> under_path (p @ [1]) x" if "x \<in> set (pre @ A) \<union> set post" for x
    using that join.prems(3) [of x] A under_path_append [of p "[1]"] under_path_sibling [of p 0 x 1] by auto
  have len: "length A = leaf_count l" "length B = leaf_count r" by (simp_all add: A_def B_def)
  let ?a = "has_delta m n (leaf_count l)" and ?b = "has_delta m (n + leaf_count l) (leaf_count r)"
  have L: "eval_join S d n (DemoteLeftJoinsForMaskRec leaves m (p @ [0]) l) = eval_term S m d n l \<and>
      (supported_tree l \<longrightarrow> pads_no_delta m n (DemoteLeftJoinsForMaskRec leaves m (p @ [0]) l))"
    by (rule join.IH(1) [OF split(1) [unfolded A_def] join.prems(2)]) (rule out0)
  have R: "eval_join S d (n + leaf_count l) (DemoteLeftJoinsForMaskRec leaves m (p @ [1]) r)
      = eval_term S m d (n + leaf_count l) r \<and>
      (supported_tree r \<longrightarrow>
         pads_no_delta m (n + leaf_count l) (DemoteLeftJoinsForMaskRec leaves m (p @ [1]) r))"
    by (rule join.IH(2) [OF split(2) [unfolded B_def]]) (use join.prems(2) len out1 in auto)
  have "SubtreeHasDeltaLeaf leaves m (p @ [0]) = has_delta m n (leaf_count l)"
    using SubtreeHasDeltaLeaf_range [OF split(1) join.prems(2) out0 A] len by simp
  moreover have "SubtreeHasDeltaLeaf leaves m (p @ [1]) = has_delta m (n + leaf_count l) (leaf_count r)"
    using SubtreeHasDeltaLeaf_range [OF split(2) _ out1 B, of "n + leaf_count l"] len join.prems(2) by simp
  ultimately have ty: "effective_type t (demote_info (demote_for_mask leaves m p t oi) oi) = term_type m ?a ?b t oi"
    by (rule effective_type_demoted)
  have pads: "(pads_left (term_type m ?a ?b t oi) \<longrightarrow> \<not> ?a) \<and> (pads_right (term_type m ?a ?b t oi) \<longrightarrow> \<not> ?b)"
    if "supported_tree (LogicalOp t oi es (l # r # rest))"
    using term_type_pads [of t oi m ?a ?b] that [unfolded supported_tree_join(1) [OF join.hyps]] by blast
  have "supported_tree (LogicalOp t oi es (l # r # rest)) \<longrightarrow>
      pads_no_delta m n (DemoteLeftJoinsForMaskRec leaves m p (LogicalOp t oi es (l # r # rest)))"
  proof
    assume dem: "supported_tree (LogicalOp t oi es (l # r # rest))"
    then have "supported_tree l" "supported_tree r" using join.hyps by (simp_all add: join_simps)
    then show "pads_no_delta m n (DemoteLeftJoinsForMaskRec leaves m p (LogicalOp t oi es (l # r # rest)))"
      using L R join.hyps pads [OF dem] by (simp add: join_simps ty)
  qed
  moreover have "eval_join S d n (DemoteLeftJoinsForMaskRec leaves m p (LogicalOp t oi es (l # r # rest)))
      = eval_term S m d n (LogicalOp t oi es (l # r # rest))"
    using L R join.hyps by (simp add: join_simps join_condition_demoted ty)
  ultimately show ?case by blast
qed

lemma eval_DemoteLeftJoinsForMask:
  "eval_join S d 0 (DemoteLeftJoinsForMask op (CollectJoinLeaves op [] False) m) = eval_term S m d 0 op"
  unfolding DemoteLeftJoinsForMask_def
  by (rule demoted_tree [where pre = "[]" and post = "[]", THEN conjunct1]) simp_all

lemma DemoteLeftJoinsForMask_pads:
  "supported_tree op \<Longrightarrow>
     pads_no_delta m 0 (DemoteLeftJoinsForMask op (CollectJoinLeaves op [] False) m)"
  unfolding DemoteLeftJoinsForMask_def
  by (rule demoted_tree [where pre = "[]" and post = "[]", THEN conjunct2, rule_format]) simp_all


lemma eval_term_zero:
  assumes "n \<le> i" "i < n + leaf_count op" "bit m i" "supported_tree op" "zeq (d i) []"
  shows "zeq (eval_term S m d n op) []"
  using assms(1,2,4)
proof (induction op arbitrary: n rule: join_tree_induct)
  case (leaf t oi es cs)
  then have "i = n" by (simp add: join_simps)
  then show ?case using leaf.hyps assms(5) by (simp add: join_simps zeq_zsum)
next
  case (join t oi es l r rest)
  let ?jt = "term_type m (has_delta m n (leaf_count l)) (has_delta m (n + leaf_count l) (leaf_count r)) t oi"
  have dem: "supported_tree l" "supported_tree r"
    "effective_type t oi \<in> {JOIN_LEFT, JOIN_RIGHT, JOIN_OUTER} \<longrightarrow> t = LOGICAL_COMPARISON_JOIN"
    using join.prems join.hyps by (simp_all add: join_simps)
  note pads = term_type_pads [OF dem(3)]
  show ?case
  proof (cases "i < n + leaf_count l")
    case True
    then have "has_delta m n (leaf_count l)" using join.prems assms(3) by (auto simp: has_delta_def)
    then have "\<not> pads_left ?jt" using pads(1) by blast
    moreover have "zeq (eval_term S m d n l) []"
      using join.IH(1) join.prems(1) True dem(1) .
    ultimately show ?thesis
      using join.hyps by (simp add: join_simps zeq_zsum zsum_join_rows pads_left_def)
  next
    case False
    then have "has_delta m (n + leaf_count l) (leaf_count r)"
      using join.prems join.hyps assms(3) unfolding has_delta_def
      by (intro exI [of _ i]) (simp add: join_simps)
    then have "\<not> pads_right ?jt" using pads(2) by blast
    moreover have "zeq (eval_term S m d (n + leaf_count l) r) []"
      by (rule join.IH(2)) (use join.prems join.hyps False dem(2) in \<open>simp_all add: join_simps\<close>)
    ultimately show ?thesis
      using join.hyps by (simp add: join_simps zeq_zsum zsum_join_rows pads_right_def)
  qed
qed (simp add: join_simps zeq_def)

text \<open>When all delta leaves of the mask are padded by no join, nothing is demoted.\<close>

lemma eval_term_linear:
  assumes "\<And>i. n \<le> i \<Longrightarrow> i < n + leaf_count op \<Longrightarrow> bit m i \<Longrightarrow> linear_in i n op"
  shows "eval_term S m d n op = eval_join S d n op"
  using assms
proof (induction op arbitrary: n rule: join_tree_induct)
  case (join t oi es l r rest)
  let ?k = "n + leaf_count l"
  have lin: "if i < ?k then effective_type t oi \<notin> {JOIN_RIGHT, JOIN_OUTER} \<and> linear_in i n l
      else effective_type t oi \<notin> {JOIN_LEFT, JOIN_OUTER} \<and> linear_in i ?k r"
    if "n \<le> i" "i < ?k + leaf_count r" "bit m i" for i
    using join.prems [of i] that join.hyps by (simp add: join_simps)
  have "eval_term S m d n l = eval_join S d n l" by (rule join.IH(1)) (use lin in force)
  moreover have "eval_term S m d ?k r = eval_join S d ?k r" by (rule join.IH(2)) (use lin in force)
  moreover have "has_delta m n (leaf_count l) \<Longrightarrow> effective_type t oi \<notin> {JOIN_RIGHT, JOIN_OUTER}"
    using lin unfolding has_delta_def by force
  moreover have right: "effective_type t oi \<notin> {JOIN_LEFT, JOIN_OUTER}" if delta: "has_delta m ?k (leaf_count r)"
  proof -
    obtain i where "?k \<le> i" "i < ?k + leaf_count r" "bit m i" using delta by (auto simp: has_delta_def)
    with lin [of i] show ?thesis by simp
  qed
  have "term_type m (has_delta m n (leaf_count l)) (has_delta m ?k (leaf_count r)) t oi = effective_type t oi"
    using calculation(3) right by (auto simp: term_type_def)
  ultimately show ?case using join.hyps by (simp add: join_simps)
qed (simp_all add: join_simps)

section \<open>The signed sum of all terms\<close>

text \<open>Leaves outside \<open>C\<close> did not change; leaves of \<open>C\<close> are padded by no join. Then the terms
  of all non-empty masks add up to the change of the join.\<close>

lemma signed_terms_sum:
  assumes N: "leaf_count op = N" and dem: "supported_tree op"
    and delta: "\<And>i. i < N \<Longrightarrow> plus_delta (old i) (dl i) (cur i)"
    and unchanged: "\<And>i. i < N \<Longrightarrow> i \<notin> C \<Longrightarrow> zeq (dl i) []"
    and linear: "\<And>i. i < N \<Longrightarrow> i \<in> C \<Longrightarrow> linear_in i 0 op"
  shows "(\<Sum>m \<in> {1 ..< 2 ^ N}. - mask_sign m * zsum (eval_term S m (choose_leaf m dl cur) 0 op) h)
       = zsum (eval_join S cur 0 op) h - zsum (eval_join S old 0 op) h"
proof -
  define F where "F = (\<lambda>d. zsum (eval_join S d 0 op) h)"
  define T where "T = (\<lambda>m. zsum (eval_term S m (choose_leaf m dl cur) 0 op) h)"
  define G where "G = (\<lambda>m. if within N C m then F (\<lambda>i. if i < N then choose_leaf m dl cur i else cur i) else 0)"
  have cut: "F (\<lambda>i. if i < N then f i else g i) = F f" for f g
    unfolding F_def by (rule arg_cong [where f = "\<lambda>z. zsum z h"], rule eval_join_cong) (use N in simp)
  have TG: "T m = G m" for m
  proof (cases "within N C m")
    case True
    have "eval_term S m (choose_leaf m dl cur) 0 op = eval_join S (choose_leaf m dl cur) 0 op"
      by (rule eval_term_linear) (use True linear N in \<open>auto simp: within_def\<close>)
    with True show ?thesis by (simp add: T_def G_def cut) (simp add: F_def)
  next
    case False
    then obtain i where i: "i < N" "bit m i" "i \<notin> C" by (auto simp: within_def)
    have "zeq (eval_term S m (choose_leaf m dl cur) 0 op) []"
      by (rule eval_term_zero [where i = i]) (use i unchanged N dem in \<open>simp_all add: choose_leaf_def\<close>)
    with False show ?thesis by (simp add: T_def G_def zeq_zsum)
  qed
  have "(\<Sum>m < 2 ^ N. mask_sign m * G m)
      = F (\<lambda>i. if i < N then (if i \<in> C then old i else cur i) else cur i)"
    unfolding G_def
  proof (rule inclusion_exclusion)
    show "F (d(i := z)) = F (d(i := x)) + F (d(i := y))"
      if "i < N" "i \<in> C" "plus_delta x y z" for i d x y z
      unfolding F_def by (rule eval_join_additive) (use that linear N in simp_all)
    show "plus_delta (old i) (dl i) (cur i)" if "i < N" "i \<in> C" for i using delta that by blast
  qed simp
  also have "\<dots> = F (\<lambda>i. if i \<in> C then old i else cur i)" by (rule cut)
  also have "\<dots> = F old"
  proof -
    have "zeq ((\<lambda>i. if i \<in> C then old i else cur i) i) (old i)" if "i < N" for i
      using delta [OF that] unchanged [OF that]
      by (auto simp: zeq_zsum plus_delta_zsum)
    then show ?thesis
      unfolding F_def by (intro zsum_cong_zeq eval_join_zeq) (use N in simp)
  qed
  finally have all: "(\<Sum>m < 2 ^ N. mask_sign m * G m) = F old" .
  have zero: "G 0 = F cur"
    using cut [of "choose_leaf 0 dl cur" cur] by (simp add: G_def within_def choose_leaf_def [abs_def])
  have "{..< 2 ^ N} = insert 0 {1 ..< 2 ^ N :: nat}" by auto
  then have "(\<Sum>m < 2 ^ N. mask_sign m * G m) = mask_sign 0 * G 0 + (\<Sum>m = 1 ..< 2 ^ N. mask_sign m * G m)"
    by simp
  then have "(\<Sum>m = 1 ..< 2 ^ N. mask_sign m * G m) = F old - F cur"
    using all zero by (simp add: mask_sign_def)
  then have "(\<Sum>m = 1 ..< 2 ^ N. - mask_sign m * G m) = F cur - F old"
    by (simp add: sum_negf)
  then show ?thesis using TG unfolding T_def F_def by simp
qed

end
