(* ===== verification/Join_Delta.thy ===== *)
theory Join_Delta
  imports Join_Semantics Sql_Names "HOL-Library.Word"
begin

text \<open>
  The inclusion-exclusion delta of a join (\<open>delta/operators/join.cpp\<close>,
  \<open>include/delta/operators/join_key_probe.hpp\<close>): what the delta tables report about each leaf,
  foreign-key pruning, key probes, and the terms built for the masks that are not pruned.
  The answers of the queries that the code runs are parameters. At most 16 leaves are
  accepted, so a mask of leaves is a natural number read bit by bit.
\<close>

unbundle bit_operations_syntax

section \<open>Queries and settings\<close>

record JoinColumnRef =
  leaf_index :: nat
  ref_scan :: "LogicalOperator option"
  ref_table :: string
  ref_delta :: string
  ref_column :: string
  ref_last_update :: string

definition no_column_ref :: JoinColumnRef where
  "no_column_ref = \<lparr>leaf_index = 0, ref_scan = None, ref_table = [], ref_delta = [], ref_column = [],
     ref_last_update = []\<rparr>"

text \<open>\<open>last_update_of view delta\<close>: no row or an error is \<open>None\<close>, a NULL is \<open>Some None\<close>.
  \<open>delta_counts delta since base\<close>: pending rows, pending deletes, rows of the base table.
  \<open>fk_targets\<close>: the tables that the foreign keys of a table reference, in the order of its
  constraints. The two match queries ask whether some pending key has a partner.\<close>

record join_queries =
  last_update_of :: "string \<Rightarrow> string \<Rightarrow> string option option"
  delta_counts :: "string \<Rightarrow> string \<Rightarrow> string \<Rightarrow> (int \<times> int \<times> int) option"
  fk_targets :: "string \<Rightarrow> string list"
  base_match :: "JoinColumnRef \<Rightarrow> string \<Rightarrow> JoinColumnRef \<Rightarrow> string \<Rightarrow> bool option"
  delta_match :: "JoinColumnRef \<Rightarrow> string \<Rightarrow> JoinColumnRef \<Rightarrow> string \<Rightarrow> bool option"

record join_settings =
  fk_pruning :: bool
  skip_empty_deltas :: bool
  ducklake_nterm :: bool
  compile_only_mode :: bool

section \<open>Masks\<close>

definition mask_of :: "bool list \<Rightarrow> nat" where
  "mask_of bs = horner_sum of_bool 2 bs"

definition without :: "nat \<Rightarrow> nat \<Rightarrow> nat" where
  "without a b = a XOR (a AND b)"

lemma bit_mask_of [simp]: "bit (mask_of bs) i \<longleftrightarrow> i < length bs \<and> bs ! i"
  by (simp add: mask_of_def bit_horner_sum_bit_iff)

lemma bit_without [simp]: "bit (without a b) i \<longleftrightarrow> bit a i \<and> \<not> bit b i"
  by (auto simp: without_def bit_simps)

lemma masks_meet: "a AND b \<noteq> 0 \<longleftrightarrow> (\<exists>i. bit a i \<and> bit (b :: nat) i)"
  by (metis bit_0_eq bit_and_iff bit_eqI bot_apply bot_bool_def)

section \<open>Delta status\<close>

record DeltaStatus =
  insert_only_mask :: nat
  empty_mask :: nat
  constant_mask :: nat
  tiny_mask :: nat

record leaf_status =
  insert_only :: bool
  empty_delta :: bool
  constant_leaf :: bool
  tiny_delta :: bool

definition no_status :: leaf_status where
  "no_status = \<lparr>insert_only = False, empty_delta = False, constant_leaf = False, tiny_delta = False\<rparr>"

definition constant_status :: leaf_status where
  "constant_status = \<lparr>insert_only = True, empty_delta = True, constant_leaf = True, tiny_delta = False\<rparr>"

definition tiny_limit :: "int \<Rightarrow> int" where
  "tiny_limit base_count = max 8 ((base_count + 19) div 20)"

definition count_status :: "int \<times> int \<times> int \<Rightarrow> leaf_status" where
  "count_status = (\<lambda>(total_count, delete_count, base_count).
     if total_count = 0 then no_status\<lparr>empty_delta := True, insert_only := True\<rparr>
     else no_status\<lparr>tiny_delta := total_count \<le> tiny_limit base_count,
                    insert_only := delete_count = 0\<rparr>)"

definition leaf_table :: "JoinLeafInfo \<Rightarrow> string option" where
  "leaf_table leaf = Option.bind (GetLeafScan leaf) (\<lambda>get. get_table (op_info get))"

definition value_to_string :: "string option \<Rightarrow> string" where
  "value_to_string v = (case v of None \<Rightarrow> ''NULL'' | Some s \<Rightarrow> s)"

definition detect_leaf :: "join_queries \<Rightarrow> string \<Rightarrow> JoinLeafInfo \<Rightarrow> leaf_status" where
  "detect_leaf q view leaf =
     (case GetLeafScan leaf of
        None \<Rightarrow> if IsConstantLeafSubtree (leaf_node leaf) then constant_status else no_status
      | Some get \<Rightarrow>
          (case get_table (op_info get) of
             None \<Rightarrow> constant_status
           | Some table \<Rightarrow>
               (case last_update_of q view (DeltaName table) of
                  None \<Rightarrow> no_status
                | Some since \<Rightarrow>
                    (case delta_counts q (DeltaName table) (value_to_string since) table of
                       None \<Rightarrow> no_status
                     | Some counts \<Rightarrow> count_status counts))))"

definition DetectDeltaStatus :: "join_queries \<Rightarrow> string \<Rightarrow> JoinLeafInfo list \<Rightarrow> DeltaStatus" where
  "DetectDeltaStatus q view leaves =
     (let st = map (detect_leaf q view) leaves
      in \<lparr>insert_only_mask = mask_of (map insert_only st), empty_mask = mask_of (map empty_delta st),
          constant_mask = mask_of (map constant_leaf st), tiny_mask = mask_of (map tiny_delta st)\<rparr>)"

section \<open>Foreign keys\<close>

record FKRelation =
  fk_leaf :: nat
  pk_leaf :: nat

text \<open>The map from table names to leaves keeps the last leaf of a name.\<close>

definition table_to_leaf :: "JoinLeafInfo list \<Rightarrow> string \<Rightarrow> nat option" where
  "table_to_leaf leaves = fold (\<lambda>i m. case leaf_table (leaves ! i) of None \<Rightarrow> m | Some table \<Rightarrow> m(table \<mapsto> i))
     [0 ..< length leaves] Map.empty"

definition leaf_relations :: "join_queries \<Rightarrow> (string \<Rightarrow> nat option) \<Rightarrow> nat \<Rightarrow> JoinLeafInfo \<Rightarrow> FKRelation list" where
  "leaf_relations q targets i leaf =
     (case leaf_table leaf of
        None \<Rightarrow> []
      | Some table \<Rightarrow>
          List.map_filter
            (\<lambda>target. map_option (\<lambda>pk. \<lparr>fk_leaf = i, pk_leaf = pk\<rparr>) (targets target))
            (fk_targets q table))"

definition DetectFKRelations :: "join_queries \<Rightarrow> JoinLeafInfo list \<Rightarrow> FKRelation list" where
  "DetectFKRelations q leaves =
     concat (map (\<lambda>i. leaf_relations q (table_to_leaf leaves) i (leaves ! i)) [0 ..< length leaves])"

definition ComputeSkipBits :: "FKRelation list \<Rightarrow> nat \<Rightarrow> nat" where
  "ComputeSkipBits relations only =
     fold (\<lambda>fk bits. if bit only (pk_leaf fk) then bits OR 2 ^ pk_leaf fk else bits) relations 0"

section \<open>Key probes\<close>

record DeltaJoinKeyProbe =
  other_leaf :: nat
  delta_column :: string
  other_column :: string

definition DeltaJoinBindingKey :: "ColumnBinding \<Rightarrow> 64 word" where
  "DeltaJoinBindingKey b = of_nat (fst b) XOR of_nat (snd b) * 0x9e3779b97f4a7c15"

fun TryGetDeltaJoinColumnRef :: "Expression \<Rightarrow> ColumnBinding option" where
  "TryGetDeltaJoinColumnRef (BoundCast h e) = TryGetDeltaJoinColumnRef e"
| "TryGetDeltaJoinColumnRef (BoundColumnRef h b) = Some b"
| "TryGetDeltaJoinColumnRef _ = None"

text \<open>The first position of a list of bindings with the key of \<open>b\<close>, and what is paired with it.\<close>

definition find_binding :: "ColumnBinding \<Rightarrow> (ColumnBinding \<times> 'a) list \<Rightarrow> 'a option" where
  "find_binding b entries =
     map_option snd (List.find (\<lambda>e. DeltaJoinBindingKey (fst e) = DeltaJoinBindingKey b) entries)"

function ResolveLeafBindingToBaseColumn :: "LogicalOperator \<Rightarrow> ColumnBinding \<Rightarrow> (string \<times> string) option" where
  "ResolveLeafBindingToBaseColumn (LogicalOp t oi es cs) binding =
     (if t = LOGICAL_GET then
        (case get_table oi of
           None \<Rightarrow> None
         | Some table \<Rightarrow>
             (case find_binding binding (base_columns oi) of
                Some (Some column) \<Rightarrow> Some (table, column)
              | _ \<Rightarrow> None))
      else if t = LOGICAL_PROJECTION \<and> cs \<noteq> [] then
        (case find_binding binding (zip (column_bindings oi) es) of
           None \<Rightarrow> None
         | Some e \<Rightarrow>
             (case TryGetDeltaJoinColumnRef e of
                None \<Rightarrow> None
              | Some child_binding \<Rightarrow> ResolveLeafBindingToBaseColumn (hd cs) child_binding))
      else
        (case cs of
           [c] \<Rightarrow>
             (case find_binding binding (zip (column_bindings oi) (column_bindings (op_info c))) of
                Some child_binding \<Rightarrow> ResolveLeafBindingToBaseColumn c child_binding
              | None \<Rightarrow> ResolveLeafBindingToBaseColumn c binding)
         | _ \<Rightarrow> None))"
  by pat_completeness auto
termination
  by (relation "measure (\<lambda>(op, b). size op)") (auto dest!: size_in_list simp: neq_Nil_conv)

declare ResolveLeafBindingToBaseColumn.simps [simp del]

text \<open>The scan and the last refresh of a leaf; a leaf without one has the empty reference.\<close>

definition leaf_ref :: "join_queries \<Rightarrow> string \<Rightarrow> nat \<Rightarrow> JoinLeafInfo \<Rightarrow> JoinColumnRef" where
  "leaf_ref q view i leaf =
     (case leaf_table leaf of
        None \<Rightarrow> no_column_ref
      | Some table \<Rightarrow>
          (case last_update_of q view (DeltaName table) of
             Some (Some since) \<Rightarrow>
               \<lparr>leaf_index = i, ref_scan = GetLeafScan leaf, ref_table = table, ref_delta = DeltaName table,
                ref_column = [], ref_last_update = since\<rparr>
           | _ \<Rightarrow> no_column_ref))"

definition leaf_columns ::
  "duckdb_env \<Rightarrow> join_queries \<Rightarrow> string \<Rightarrow> nat \<Rightarrow> JoinLeafInfo \<Rightarrow> (64 word \<times> JoinColumnRef) list" where
  "leaf_columns E q view i leaf =
     (let ref = leaf_ref q view i leaf
      in if ref_delta ref = [] then []
         else List.map_filter
           (\<lambda>b. case ResolveLeafBindingToBaseColumn (leaf_node leaf) b of
                  Some (table, column) \<Rightarrow>
                    (if CIEquals E table (ref_table ref)
                     then Some (DeltaJoinBindingKey b, ref\<lparr>ref_column := column\<rparr>) else None)
                | None \<Rightarrow> None)
           (column_bindings (op_info (leaf_node leaf))))"

definition ColumnRefs ::
  "duckdb_env \<Rightarrow> join_queries \<Rightarrow> string \<Rightarrow> JoinLeafInfo list \<Rightarrow> 64 word \<Rightarrow> JoinColumnRef option" where
  "ColumnRefs E q view leaves =
     map_of (rev (concat (map (\<lambda>i. leaf_columns E q view i (leaves ! i)) [0 ..< length leaves])))"

text \<open>The probes of one equality: one for each of its two leaves.\<close>

definition condition_probes ::
  "(64 word \<Rightarrow> JoinColumnRef option) \<Rightarrow> JoinCondition \<Rightarrow> (nat \<times> DeltaJoinKeyProbe) list" where
  "condition_probes refs c =
     (if \<not> is_equal c then []
      else (case (TryGetDeltaJoinColumnRef (cond_left c), TryGetDeltaJoinColumnRef (cond_right c)) of
         (Some lb, Some rb) \<Rightarrow>
           (case (refs (DeltaJoinBindingKey lb), refs (DeltaJoinBindingKey rb)) of
              (Some left, Some right) \<Rightarrow>
                (if leaf_index left = leaf_index right then []
                 else [(leaf_index left, \<lparr>other_leaf = leaf_index right, delta_column = ref_column left,
                                         other_column = ref_column right\<rparr>),
                       (leaf_index right, \<lparr>other_leaf = leaf_index left, delta_column = ref_column right,
                                          other_column = ref_column left\<rparr>)])
            | _ \<Rightarrow> [])
       | _ \<Rightarrow> []))"

fun collect_probes ::
  "(64 word \<Rightarrow> JoinColumnRef option) \<Rightarrow> LogicalOperator \<Rightarrow> (nat \<times> DeltaJoinKeyProbe) list" where
  "collect_probes refs (LogicalOp t oi es cs) =
     (if t = LOGICAL_COMPARISON_JOIN \<and> join_type oi = Some JOIN_INNER
      then concat (map (condition_probes refs) (conditions oi)) else [])
     @ concat (map (collect_probes refs) cs)"

definition CollectDeltaJoinKeyProbes ::
  "(64 word \<Rightarrow> JoinColumnRef option) \<Rightarrow> LogicalOperator \<Rightarrow> nat \<Rightarrow> DeltaJoinKeyProbe list" where
  "CollectDeltaJoinKeyProbes refs op i = map snd (filter (\<lambda>(j, p). j = i) (collect_probes refs op))"

definition DeltaKeyHasBaseMatch :: "join_queries \<Rightarrow> JoinColumnRef \<Rightarrow> string \<Rightarrow> JoinColumnRef \<Rightarrow> string \<Rightarrow> bool" where
  "DeltaKeyHasBaseMatch q d dc other oc = (case base_match q d dc other oc of None \<Rightarrow> True | Some b \<Rightarrow> b)"

definition DeltaKeyHasDeltaMatch :: "join_queries \<Rightarrow> JoinColumnRef \<Rightarrow> string \<Rightarrow> JoinColumnRef \<Rightarrow> string \<Rightarrow> bool" where
  "DeltaKeyHasDeltaMatch q d dc other oc = (case delta_match q d dc other oc of None \<Rightarrow> True | Some b \<Rightarrow> b)"

text \<open>Whether the probe shows that the term of mask \<open>m\<close>, whose leaf \<open>i\<close> is a delta, is empty.\<close>

definition probe_empty ::
  "join_queries \<Rightarrow> JoinColumnRef list \<Rightarrow> nat \<Rightarrow> nat \<Rightarrow> DeltaJoinKeyProbe \<Rightarrow> bool" where
  "probe_empty q refs m i p =
     (let other = refs ! other_leaf p
      in if ref_last_update other = [] then False
         else if bit m (other_leaf p) then
           i \<le> other_leaf p \<and> \<not> DeltaKeyHasDeltaMatch q (refs ! i) (delta_column p) other (other_column p)
         else \<not> DeltaKeyHasBaseMatch q (refs ! i) (delta_column p) other (other_column p))"

definition key_domain_empty ::
  "join_queries \<Rightarrow> JoinColumnRef list \<Rightarrow> (nat \<Rightarrow> DeltaJoinKeyProbe list) \<Rightarrow> nat \<Rightarrow> bool" where
  "key_domain_empty q refs probes m =
     list_ex (\<lambda>i. bit m i \<and> ref_last_update (refs ! i) \<noteq> [] \<and> list_ex (probe_empty q refs m i) (probes i))
       [0 ..< length refs]"

section \<open>Which masks are built\<close>

definition non_empty_mask :: "DeltaStatus \<Rightarrow> nat \<Rightarrow> nat" where
  "non_empty_mask st n = without (without (2 ^ n - 1) (empty_mask st)) (constant_mask st)"

definition fk_skip_bits :: "join_settings \<Rightarrow> join_queries \<Rightarrow> DeltaStatus \<Rightarrow> JoinLeafInfo list \<Rightarrow> nat" where
  "fk_skip_bits cfg q st leaves =
     (if fk_pruning cfg \<and> CountBits (non_empty_mask st (length leaves)) = 1
      then ComputeSkipBits (DetectFKRelations q leaves) (insert_only_mask st) else 0)"

definition skipped_empty_mask :: "join_settings \<Rightarrow> DeltaStatus \<Rightarrow> nat" where
  "skipped_empty_mask cfg st =
     (if \<not> skip_empty_deltas cfg then 0
      else if compile_only_mode cfg then empty_mask st AND constant_mask st else empty_mask st)"

definition key_probe_enabled :: "join_settings \<Rightarrow> DeltaStatus \<Rightarrow> nat \<Rightarrow> bool \<Rightarrow> bool" where
  "key_probe_enabled cfg st n has_left_join =
     (let changed = non_empty_mask st n
      in skip_empty_deltas cfg \<and> \<not> has_left_join \<and>
         (CountBits changed = 1 \<or> (changed \<noteq> 0 \<and> without changed (tiny_mask st) = 0)))"

definition leaf_refs :: "join_queries \<Rightarrow> string \<Rightarrow> JoinLeafInfo list \<Rightarrow> JoinColumnRef list" where
  "leaf_refs q view leaves = map (\<lambda>i. leaf_ref q view i (leaves ! i)) [0 ..< length leaves]"

definition pruned_mask ::
  "duckdb_env \<Rightarrow> join_settings \<Rightarrow> join_queries \<Rightarrow> string \<Rightarrow> LogicalOperator \<Rightarrow> JoinLeafInfo list \<Rightarrow> bool \<Rightarrow> nat \<Rightarrow> bool" where
  "pruned_mask E cfg q view plan leaves has_left_join m =
     (let st = DetectDeltaStatus q view leaves
      in m AND fk_skip_bits cfg q st leaves \<noteq> 0 \<or>
         m AND skipped_empty_mask cfg st \<noteq> 0 \<or>
         (key_probe_enabled cfg st (length leaves) has_left_join \<and>
          key_domain_empty q (leaf_refs q view leaves)
            (CollectDeltaJoinKeyProbes (ColumnRefs E q view leaves) plan) m))"

section \<open>Terms\<close>

text \<open>A delta leaf is a scan of the delta table, or the compiled delta of the leaf's subtree.\<close>

datatype delta_leaf = DeltaGet LogicalOperator | CopiedSubtree LogicalOperator

record delta_term =
  term_plan :: LogicalOperator
  term_deltas :: "(nat \<times> delta_leaf) list"
  term_sign :: int

definition delta_leaf_of :: "JoinLeafInfo \<Rightarrow> delta_leaf" where
  "delta_leaf_of leaf = (if leaf_is_get leaf then DeltaGet (leaf_node leaf) else CopiedSubtree (leaf_node leaf))"

definition build_term :: "LogicalOperator \<Rightarrow> JoinLeafInfo list \<Rightarrow> bool \<Rightarrow> nat \<Rightarrow> delta_term" where
  "build_term plan leaves has_left_join m =
     (let deltas = filter (bit m) [0 ..< length leaves]
      in \<lparr>term_plan = (if has_left_join then DemoteLeftJoinsForMask plan leaves m else plan),
          term_deltas = map (\<lambda>i. (i, delta_leaf_of (leaves ! i))) deltas,
          term_sign = (if even (length deltas) then - 1 else 1)\<rparr>)"

definition BuildInclusionExclusionTerms ::
  "duckdb_env \<Rightarrow> join_settings \<Rightarrow> join_queries \<Rightarrow> string \<Rightarrow> LogicalOperator \<Rightarrow> JoinLeafInfo list \<Rightarrow> bool \<Rightarrow> delta_term list" where
  "BuildInclusionExclusionTerms E cfg q view plan leaves has_left_join =
     map (build_term plan leaves has_left_join)
       (filter (\<lambda>m. \<not> pruned_mask E cfg q view plan leaves has_left_join m) [1 ..< 2 ^ length leaves])"

text \<open>What a term computes: the product of its leaves, the delta leaves read from the pending
  changes and the others from the current contents, times the sign. A union adds the terms up.\<close>

definition eval_delta_term ::
  "('l, 'v) row_semantics \<Rightarrow> (nat \<Rightarrow> 'l zset) \<Rightarrow> (nat \<Rightarrow> 'l zset) \<Rightarrow> delta_term \<Rightarrow> 'l jrow zset" where
  "eval_delta_term S deltas current t =
     zscale (term_sign t)
       (eval_join S (\<lambda>i. if i \<in> fst ` set (term_deltas t) then deltas i else current i) 0 (term_plan t))"

definition eval_terms ::
  "('l, 'v) row_semantics \<Rightarrow> (nat \<Rightarrow> 'l zset) \<Rightarrow> (nat \<Rightarrow> 'l zset) \<Rightarrow> delta_term list \<Rightarrow> 'l jrow zset" where
  "eval_terms S deltas current ts = concat (map (eval_delta_term S deltas current) ts)"

end
