(* ===== verification/Join_Correct.thy ===== *)
theory Join_Correct
  imports Join_Delta
begin

text \<open>
  Correctness of the inclusion-exclusion delta of a join: the terms that are built add up to
  the change of the join result, and the masks that are pruned contribute nothing, under the
  stated meaning of the queries that the code runs.
\<close>

section \<open>The built terms\<close>

lemma CountBits_filter: "m < 2 ^ n \<Longrightarrow> CountBits m = length (filter (bit m) [0 ..< n])"
proof (induction n arbitrary: m)
  case (Suc n)
  show ?case
  proof (cases "m < 2 ^ n")
    case True
    then have "\<not> bit m n" by (rule bit_high(2))
    with Suc.IH [OF True] show ?thesis by simp
  next
    case False
    then obtain k where m: "m = 2 ^ n + k" "k < 2 ^ n"
      using Suc.prems by (metis add_diff_inverse_nat add_less_cancel_left mult_2 power_Suc)
    have "filter (bit m) [0 ..< n] = filter (bit k) [0 ..< n]"
      by (rule filter_cong) (use bit_high(3) [OF m(2)] m(1) in auto)
    with Suc.IH [OF m(2)] bit_high(1) [OF m(2)] show ?thesis
      by (simp add: m(1) CountBits_high [OF m(2)])
  qed
qed simp

text \<open>No join of the tree is an outer join.\<close>

fun all_inner :: "LogicalOperator \<Rightarrow> bool" where
  "all_inner (LogicalOp t oi es cs) =
     (if is_join_node t then
        (case cs of
           l # r # _ \<Rightarrow> effective_type t oi = JOIN_INNER \<and> all_inner l \<and> all_inner r
         | _ \<Rightarrow> True)
      else True)"

lemma all_inner_join [join_simps]:
  "is_join_node t \<Longrightarrow> all_inner (LogicalOp t oi es (l # r # rest)) \<longleftrightarrow>
     effective_type t oi = JOIN_INNER \<and> all_inner l \<and> all_inner r"
  "\<not> is_join_node t \<Longrightarrow> all_inner (LogicalOp t oi es cs)"
  "is_join_node t \<Longrightarrow> length cs < 2 \<Longrightarrow> all_inner (LogicalOp t oi es cs)"
  by (simp_all add: short_list_simps)

declare all_inner.simps [simp del]

lemma all_inner_linear: "all_inner op \<Longrightarrow> linear_in i n op"
  by (induction op arbitrary: n rule: join_tree_induct) (simp_all add: join_simps)

lemma verify_children_True: "verify_children cs True \<noteq> Inr False"
  by (induction cs) (auto split: sum.splits)

lemma verify_children_False:
  "verify_children cs has_left = Inr False \<Longrightarrow> \<not> has_left \<and> (\<forall>c \<in> set cs. VerifyJoinTypes c = Inr False)"
proof (induction cs arbitrary: has_left)
  case (Cons c cs)
  then show ?case by (auto split: sum.splits)
qed simp

lemma VerifyJoinTypes_inner:
  "VerifyJoinTypes op = Inr False \<Longrightarrow> supported_tree op \<Longrightarrow> all_inner op"
proof (induction op rule: join_tree_induct)
  case (join t oi es l r rest)
  from join.prems(1) obtain b where here: "verify_here t oi = Inr b"
    and kids: "verify_children (l # r # rest) b = Inr False" by (auto split: sum.splits)
  from verify_children_False [OF kids] have b: "\<not> b"
    and lr: "VerifyJoinTypes l = Inr False" "VerifyJoinTypes r = Inr False" by auto
  have sup: "plain_type (effective_type t oi)" "supported_tree l" "supported_tree r"
    "effective_type t oi \<in> {JOIN_LEFT, JOIN_RIGHT, JOIN_OUTER} \<longrightarrow> t = LOGICAL_COMPARISON_JOIN"
    using join.prems(2) join.hyps by (simp_all add: join_simps)
  have "effective_type t oi = JOIN_INNER"
  proof (rule ccontr)
    assume "effective_type t oi \<noteq> JOIN_INNER"
    then have "effective_type t oi \<in> {JOIN_LEFT, JOIN_RIGHT, JOIN_OUTER}"
      using sup(1) by (auto simp: plain_type_def)
    with sup(4) here b show False
      by (auto simp: verify_here_def effective_type_def split: option.splits)
  qed
  with join sup lr show ?case by (simp add: join_simps)
qed (simp_all add: join_simps)

lemma eval_build_term:
  assumes "leaves = CollectJoinLeaves plan [] False" "m < 2 ^ length leaves"
    and "VerifyJoinTypes plan = Inr has_left" "supported_tree plan"
  shows "zsum (eval_delta_term S dl cur (build_term plan leaves has_left m)) h
       = - mask_sign m * zsum (eval_term S m (choose_leaf m dl cur) 0 plan) h"
proof -
  let ?t = "build_term plan leaves has_left m"
  have len: "length leaves = leaf_count plan" using assms(1) by simp
  have sign: "term_sign ?t = - mask_sign m"
    using CountBits_filter [OF assms(2)] by (simp add: build_term_def mask_sign_def Let_def)
  have leaf: "(if i \<in> fst ` set (term_deltas ?t) then dl i else cur i) = choose_leaf m dl cur i"
    if "i < leaf_count plan" for i
    using that len by (auto simp: build_term_def Let_def choose_leaf_def image_iff)
  have tree: "eval_join S d 0 (term_plan ?t) = eval_term S m d 0 plan" for d
  proof (cases has_left)
    case True
    then show ?thesis using eval_DemoteLeftJoinsForMask assms(1) by (simp add: build_term_def Let_def)
  next
    case False
    then have "VerifyJoinTypes plan = Inr False" using assms(3) by simp
    then have "all_inner plan" using assms(4) by (rule VerifyJoinTypes_inner)
    with False show ?thesis by (simp add: build_term_def Let_def eval_term_linear all_inner_linear)
  qed
  have "leaf_count (term_plan ?t) = leaf_count plan"
    by (simp add: build_term_def Let_def DemoteLeftJoinsForMask_def)
  then have "eval_join S (\<lambda>i. if i \<in> fst ` set (term_deltas ?t) then dl i else cur i) 0 (term_plan ?t)
      = eval_join S (choose_leaf m dl cur) 0 (term_plan ?t)"
    by (intro eval_join_cong) (use leaf in simp)
  then show ?thesis by (simp add: eval_delta_term_def sign tree)
qed

section \<open>Rows of inner joins\<close>

lemma zjoin_iff:
  "(row, w) \<in> set (zjoin c a b) \<longleftrightarrow>
     (\<exists>x v y u. (x, v) \<in> set a \<and> (y, u) \<in> set b \<and> c x y \<and> row = x @ y \<and> w = v * u)"
  by (fastforce simp: zjoin_def zfilter_def)

definition leaf_rows :: "(nat \<Rightarrow> 'l zset) \<Rightarrow> nat \<Rightarrow> 'l set" where
  "leaf_rows d i = fst ` set (d i)"

lemma inner_row:
  assumes "all_inner op" "(row, w) \<in> set (eval_join S d n op)"
  shows "map fst row = [n ..< n + leaf_count op] \<and> (\<forall>(i, x) \<in> set row. x \<in> leaf_rows d i)"
  using assms
proof (induction op arbitrary: n row w rule: join_tree_induct)
  case (leaf t oi es cs)
  then show ?case by (force simp: join_simps zmap_def leaf_rows_def)
next
  case (join t oi es l r rest)
  have inner: "effective_type t oi = JOIN_INNER" "all_inner l" "all_inner r"
    using join.prems(1) join.hyps by (simp_all add: join_simps)
  from join.prems(2) join.hyps inner(1) obtain x v y u where
    xy: "(x, v) \<in> set (eval_join S d n l)" "(y, u) \<in> set (eval_join S d (n + leaf_count l) r)" "row = x @ y"
    by (auto simp: join_simps join_rows_def zjoin_iff)
  from join.IH(1) [OF inner(2) xy(1)] join.IH(2) [OF inner(3) xy(2)] xy(3) join.hyps
    upt_add_eq_append [of n "n + leaf_count l" "leaf_count r"]
  show ?case by (auto simp: join_simps add.assoc)
qed (simp_all add: join_simps)

lemma inner_row_entry:
  assumes "all_inner op" "(row, w) \<in> set (eval_join S d n op)" "n \<le> i" "i < n + leaf_count op"
  shows "\<exists>x. (i, x) \<in> set row \<and> map_of row i = Some x \<and> x \<in> leaf_rows d i"
proof -
  have row: "map fst row = [n ..< n + leaf_count op]" "\<forall>(i, x) \<in> set row. x \<in> leaf_rows d i"
    using inner_row [OF assms(1,2)] by auto
  have "i \<in> fst ` set row" using row(1) assms(3,4) by (metis atLeastLessThan_iff list.set_map set_upt)
  then obtain x where x: "(i, x) \<in> set row" by auto
  moreover have "distinct (map fst row)" by (simp add: row(1))
  ultimately show ?thesis using row(2) by auto
qed

lemma no_rows_zeq: "(\<And>row w. (row, w) \<notin> set z) \<Longrightarrow> zeq z []"
  by (cases z) (auto simp: zeq_def)

section \<open>Key probes\<close>

text \<open>What the database promises: a column reference reads the column of its leaf's row. The
  planner binds the columns of a join condition below the join; a leaf is a plan of its own
  whose joins do not refer to the leaves of the tree.\<close>

definition reads_columns ::
  "('l, 'v) row_semantics \<Rightarrow> (64 word \<Rightarrow> JoinColumnRef option) \<Rightarrow> (nat \<Rightarrow> string \<Rightarrow> 'l \<Rightarrow> 'v option) \<Rightarrow> bool" where
  "reads_columns S refs colv \<longleftrightarrow>
     (\<forall>h b ref row x. refs (DeltaJoinBindingKey b) = Some ref \<and> map_of row (leaf_index ref) = Some x \<longrightarrow>
        eval_expr S (BoundColumnRef h b) row = colv (leaf_index ref) (ref_column ref) x)"

definition plain_key :: "Expression \<Rightarrow> bool" where
  "plain_key e = (case e of BoundCast h e \<Rightarrow> False | _ \<Rightarrow> True)"

definition key_scoped :: "(64 word \<Rightarrow> JoinColumnRef option) \<Rightarrow> nat \<Rightarrow> nat \<Rightarrow> Expression \<Rightarrow> bool" where
  "key_scoped refs n k e \<longleftrightarrow>
     (case TryGetDeltaJoinColumnRef e of
        None \<Rightarrow> True
      | Some b \<Rightarrow> (case refs (DeltaJoinBindingKey b) of
                     None \<Rightarrow> True
                   | Some ref \<Rightarrow> n \<le> leaf_index ref \<and> leaf_index ref < n + k))"

fun well_scoped :: "(64 word \<Rightarrow> JoinColumnRef option) \<Rightarrow> nat \<Rightarrow> LogicalOperator \<Rightarrow> bool" where
  "well_scoped refs n (LogicalOp t oi es cs) =
     (if is_join_node t then
        (case cs of
           l # r # rest \<Rightarrow>
             list_all (\<lambda>c. key_scoped refs n (leaf_count l + leaf_count r) (cond_left c) \<and>
                           key_scoped refs n (leaf_count l + leaf_count r) (cond_right c) \<and>
                           plain_key (cond_left c) \<and> plain_key (cond_right c)) (conditions oi) \<and>
             well_scoped refs n l \<and> well_scoped refs (n + leaf_count l) r \<and>
             list_all (\<lambda>c. collect_probes refs c = []) rest
         | _ \<Rightarrow> collect_probes refs (LogicalOp t oi es cs) = [])
      else collect_probes refs (LogicalOp t oi es cs) = [])"

lemma well_scoped_join [join_simps]:
  "is_join_node t \<Longrightarrow> well_scoped refs n (LogicalOp t oi es (l # r # rest)) \<longleftrightarrow>
     list_all (\<lambda>c. key_scoped refs n (leaf_count l + leaf_count r) (cond_left c) \<and>
                   key_scoped refs n (leaf_count l + leaf_count r) (cond_right c) \<and>
                   plain_key (cond_left c) \<and> plain_key (cond_right c)) (conditions oi) \<and>
     well_scoped refs n l \<and> well_scoped refs (n + leaf_count l) r \<and>
     list_all (\<lambda>c. collect_probes refs c = []) rest"
  "\<not> is_join_node t \<Longrightarrow> well_scoped refs n (LogicalOp t oi es cs) \<longleftrightarrow>
     collect_probes refs (LogicalOp t oi es cs) = []"
  "is_join_node t \<Longrightarrow> length cs < 2 \<Longrightarrow> well_scoped refs n (LogicalOp t oi es cs) \<longleftrightarrow>
     collect_probes refs (LogicalOp t oi es cs) = []"
  by (simp_all add: short_list_simps)

declare well_scoped.simps [simp del]

definition same_key :: "(nat \<Rightarrow> string \<Rightarrow> 'l \<Rightarrow> 'v option) \<Rightarrow> nat \<Rightarrow> string \<Rightarrow> 'l \<Rightarrow> nat \<Rightarrow> string \<Rightarrow> 'l \<Rightarrow> bool" where
  "same_key colv i c x j c' y \<longleftrightarrow> colv i c x \<noteq> None \<and> colv i c x = colv j c' y"

lemma plain_key_ref: "plain_key e \<Longrightarrow> TryGetDeltaJoinColumnRef e = Some b \<Longrightarrow> \<exists>h. e = BoundColumnRef h b"
  by (cases e) (auto simp: plain_key_def)

lemma condition_probesE:
  assumes "(i, p) \<in> set (condition_probes refs c)"
  obtains lb rb left right where "is_equal c"
    "TryGetDeltaJoinColumnRef (cond_left c) = Some lb" "TryGetDeltaJoinColumnRef (cond_right c) = Some rb"
    "refs (DeltaJoinBindingKey lb) = Some left" "refs (DeltaJoinBindingKey rb) = Some right"
    "i = leaf_index left \<and> other_leaf p = leaf_index right \<and> delta_column p = ref_column left
       \<and> other_column p = ref_column right \<or>
     i = leaf_index right \<and> other_leaf p = leaf_index left \<and> delta_column p = ref_column right
       \<and> other_column p = ref_column left"
proof -
  have eq: "is_equal c" using assms by (simp add: condition_probes_def split: if_splits)
  obtain lb where lb: "TryGetDeltaJoinColumnRef (cond_left c) = Some lb"
    using assms eq by (cases "TryGetDeltaJoinColumnRef (cond_left c)") (auto simp: condition_probes_def)
  obtain rb where rb: "TryGetDeltaJoinColumnRef (cond_right c) = Some rb"
    using assms eq lb by (cases "TryGetDeltaJoinColumnRef (cond_right c)") (auto simp: condition_probes_def)
  obtain left where left: "refs (DeltaJoinBindingKey lb) = Some left"
    using assms eq lb rb by (cases "refs (DeltaJoinBindingKey lb)") (auto simp: condition_probes_def)
  obtain right where right: "refs (DeltaJoinBindingKey rb) = Some right"
    using assms eq lb rb left by (cases "refs (DeltaJoinBindingKey rb)") (auto simp: condition_probes_def)
  show thesis
    by (rule that [OF eq lb rb left right])
      (use assms eq lb rb left right in \<open>auto simp: condition_probes_def split: if_splits\<close>)
qed

text \<open>Every row of the join satisfies the equalities behind the collected probes.\<close>

lemma collected_probe_holds:
  assumes "reads_columns S refs colv" "well_scoped refs n op" "all_inner op"
    and "(i, p) \<in> set (collect_probes refs op)" "(row, w) \<in> set (eval_join S d n op)"
  shows "\<exists>x y. (i, x) \<in> set row \<and> (other_leaf p, y) \<in> set row \<and>
    same_key colv i (delta_column p) x (other_leaf p) (other_column p) y"
  using assms(2-)
proof (induction op arbitrary: n row w rule: join_tree_induct)
  case (join t oi es l r rest)
  have inner: "effective_type t oi = JOIN_INNER" "all_inner l" "all_inner r"
    using join.prems(2) join.hyps by (simp_all add: join_simps)
  have sc: "well_scoped refs n l" "well_scoped refs (n + leaf_count l) r"
    "list_all (\<lambda>c. collect_probes refs c = []) rest"
    using join.prems(1) join.hyps by (simp_all add: join_simps)
  from join.prems(4) join.hyps inner(1) obtain x v y u where
    xy: "(x, v) \<in> set (eval_join S d n l)" "(y, u) \<in> set (eval_join S d (n + leaf_count l) r)"
      "join_condition S t oi x y" "row = x @ y"
    by (auto simp: join_simps join_rows_def zjoin_iff)
  consider c where "t = LOGICAL_COMPARISON_JOIN" "c \<in> set (conditions oi)" "(i, p) \<in> set (condition_probes refs c)"
    | "(i, p) \<in> set (collect_probes refs l)" | "(i, p) \<in> set (collect_probes refs r)"
    using join.prems(3) sc(3) by (auto simp: list_all_iff split: if_splits)
  then show ?case
  proof cases
    case 1
    obtain lb rb left right where c: "is_equal c"
        "TryGetDeltaJoinColumnRef (cond_left c) = Some lb" "TryGetDeltaJoinColumnRef (cond_right c) = Some rb"
        "refs (DeltaJoinBindingKey lb) = Some left" "refs (DeltaJoinBindingKey rb) = Some right"
      and ip: "i = leaf_index left \<and> other_leaf p = leaf_index right \<and> delta_column p = ref_column left
                 \<and> other_column p = ref_column right \<or>
               i = leaf_index right \<and> other_leaf p = leaf_index left \<and> delta_column p = ref_column right
                 \<and> other_column p = ref_column left"
      using 1(3) by (rule condition_probesE)
    have scoped: "key_scoped refs n (leaf_count l + leaf_count r) (cond_left c)"
        "key_scoped refs n (leaf_count l + leaf_count r) (cond_right c)"
        "plain_key (cond_left c)" "plain_key (cond_right c)"
      using join.prems(1) join.hyps 1(2) by (auto simp: join_simps list_all_iff)
    obtain hl hr where e: "cond_left c = BoundColumnRef hl lb" "cond_right c = BoundColumnRef hr rb"
      using plain_key_ref scoped(3,4) c(2,3) by blast
    have "n \<le> leaf_index left" "leaf_index left < n + (leaf_count l + leaf_count r)"
        "n \<le> leaf_index right" "leaf_index right < n + (leaf_count l + leaf_count r)"
      using scoped(1,2) c by (simp_all add: key_scoped_def)
    then have range: "n \<le> leaf_index left" "leaf_index left < n + leaf_count (LogicalOp t oi es (l # r # rest))"
        "n \<le> leaf_index right" "leaf_index right < n + leaf_count (LogicalOp t oi es (l # r # rest))"
      using join.hyps by (simp_all add: join_simps)
    obtain a where a: "(leaf_index left, a) \<in> set row" "map_of row (leaf_index left) = Some a"
      using inner_row_entry [OF join.prems(2,4) range(1,2)] by blast
    obtain b where b: "(leaf_index right, b) \<in> set row" "map_of row (leaf_index right) = Some b"
      using inner_row_entry [OF join.prems(2,4) range(3,4)] by blast
    have "cond_holds S c row" using xy(3,4) 1(1,2) by (simp add: join_condition_def list_all_iff)
    moreover have "eval_expr S (cond_left c) row = colv (leaf_index left) (ref_column left) a"
        "eval_expr S (cond_right c) row = colv (leaf_index right) (ref_column right) b"
      unfolding e using assms(1) c(4,5) a(2) b(2) unfolding reads_columns_def by blast+
    ultimately have eq: "same_key colv (leaf_index left) (ref_column left) a (leaf_index right) (ref_column right) b"
      using c(1) unfolding cond_holds_def same_key_def by metis
    then have "same_key colv (leaf_index right) (ref_column right) b (leaf_index left) (ref_column left) a"
      unfolding same_key_def by metis
    with eq ip a(1) b(1) show ?thesis by metis
  next
    case 2
    from join.IH(1) [OF sc(1) inner(2) 2 xy(1)] xy(4) show ?thesis by auto
  next
    case 3
    from join.IH(2) [OF sc(2) inner(3) 3 xy(2)] xy(4) show ?thesis by auto
  qed
qed (simp_all add: join_simps)

definition sound_matches ::
  "join_queries \<Rightarrow> JoinColumnRef list \<Rightarrow> (nat \<Rightarrow> string \<Rightarrow> 'l \<Rightarrow> 'v option) \<Rightarrow>
   (nat \<Rightarrow> 'l zset) \<Rightarrow> (nat \<Rightarrow> 'l zset) \<Rightarrow> bool" where
  "sound_matches q refs colv dl cur \<longleftrightarrow>
     (\<forall>i c j c'. i < length refs \<and> j < length refs \<and> i \<noteq> j \<longrightarrow>
        (base_match q (refs ! i) c (refs ! j) c' = Some False \<longrightarrow>
           (\<forall>x \<in> leaf_rows dl i. \<forall>y \<in> leaf_rows cur j. \<not> same_key colv i c x j c' y)) \<and>
        (delta_match q (refs ! i) c (refs ! j) c' = Some False \<longrightarrow>
           (\<forall>x \<in> leaf_rows dl i. \<forall>y \<in> leaf_rows dl j. \<not> same_key colv i c x j c' y)))"

lemma inner_row_value:
  assumes "all_inner op" "(row, w) \<in> set (eval_join S d n op)" "(i, x) \<in> set row"
  shows "x \<in> leaf_rows d i" "n \<le> i" "i < n + leaf_count op"
proof -
  have row: "map fst row = [n ..< n + leaf_count op]" "\<forall>(i, x) \<in> set row. x \<in> leaf_rows d i"
    using inner_row [OF assms(1,2)] by auto
  show "x \<in> leaf_rows d i" using row(2) assms(3) by auto
  have "i \<in> set (map fst row)" using assms(3) by force
  then show "n \<le> i" "i < n + leaf_count op" by (simp_all add: row(1))
qed

lemma leaf_rows_choose:
  "leaf_rows (choose_leaf m dl cur) i = (if bit m i then leaf_rows dl i else leaf_rows cur i)"
  by (simp add: leaf_rows_def choose_leaf_def)

lemma condition_probes_distinct: "(i, p) \<in> set (condition_probes refs c) \<Longrightarrow> i \<noteq> other_leaf p"
  by (auto simp: condition_probes_def split: if_splits option.splits)

lemma collect_probes_distinct: "(i, p) \<in> set (collect_probes refs op) \<Longrightarrow> i \<noteq> other_leaf p"
  by (induction op rule: plan_induct) (auto dest: condition_probes_distinct split: if_splits)

lemma probe_no_rows:
  assumes "reads_columns S crefs colv" "well_scoped crefs 0 op" "all_inner op"
    and "(i, p) \<in> set (collect_probes crefs op)"
    and "i < leaf_count op \<Longrightarrow> other_leaf p < leaf_count op \<Longrightarrow>
      \<forall>x \<in> leaf_rows d i. \<forall>y \<in> leaf_rows d (other_leaf p).
        \<not> same_key colv i (delta_column p) x (other_leaf p) (other_column p) y"
  shows "zeq (eval_join S d 0 op) []"
proof (rule no_rows_zeq)
  fix row w
  show "(row, w) \<notin> set (eval_join S d 0 op)"
  proof
    assume row: "(row, w) \<in> set (eval_join S d 0 op)"
    obtain x y where xy: "(i, x) \<in> set row" "(other_leaf p, y) \<in> set row"
        "same_key colv i (delta_column p) x (other_leaf p) (other_column p) y"
      using collected_probe_holds [OF assms(1-4) row] by blast
    note entry = inner_row_value [OF assms(3) row]
    show False using assms(5) entry [OF xy(1)] entry [OF xy(2)] xy(3) by auto
  qed
qed

lemma probe_empty_no_rows:
  assumes "reads_columns S crefs colv" "well_scoped crefs 0 op" "all_inner op"
    and refs: "length refs = leaf_count op" and sound: "sound_matches q refs colv dl cur"
    and empty: "key_domain_empty q refs (CollectDeltaJoinKeyProbes crefs op) m"
  shows "zeq (eval_join S (choose_leaf m dl cur) 0 op) []"
proof -
  obtain i p where i: "bit m i" "probe_empty q refs m i p" "(i, p) \<in> set (collect_probes crefs op)"
    using empty by (auto simp: key_domain_empty_def list_ex_iff CollectDeltaJoinKeyProbes_def)
  have "\<not> same_key colv i (delta_column p) x (other_leaf p) (other_column p) y"
    if "i < leaf_count op" "other_leaf p < leaf_count op"
      "x \<in> leaf_rows (choose_leaf m dl cur) i" "y \<in> leaf_rows (choose_leaf m dl cur) (other_leaf p)" for x y
    using i(2) sound [unfolded sound_matches_def, rule_format, of i "other_leaf p" "delta_column p" "other_column p"]
      i(1) that refs collect_probes_distinct [OF i(3)]
    by (auto simp: probe_empty_def DeltaKeyHasDeltaMatch_def DeltaKeyHasBaseMatch_def Let_def leaf_rows_choose
        split: option.split_asm if_split_asm)
  then show ?thesis by (intro probe_no_rows [OF assms(1-3) i(3)]) blast
qed

section \<open>Empty deltas\<close>

text \<open>What the counts of the delta tables mean: a constant leaf never changes, and a leaf whose
  table has no pending row did not change.\<close>

definition sound_counts :: "join_queries \<Rightarrow> string \<Rightarrow> JoinLeafInfo list \<Rightarrow> (nat \<Rightarrow> 'l zset) \<Rightarrow> bool" where
  "sound_counts q view leaves dl \<longleftrightarrow>
     (\<forall>i < length leaves.
        (leaf_table (leaves ! i) = None \<and>
         (GetLeafScan (leaves ! i) \<noteq> None \<or> IsConstantLeafSubtree (leaf_node (leaves ! i))) \<longrightarrow> zeq (dl i) []) \<and>
        (\<forall>table since deletes base.
           leaf_table (leaves ! i) = Some table \<and> last_update_of q view (DeltaName table) = Some since \<and>
           delta_counts q (DeltaName table) (value_to_string since) table = Some (0, deletes, base) \<longrightarrow>
           zeq (dl i) []))"

lemma empty_mask_zeq:
  assumes "sound_counts q view leaves dl" "bit (empty_mask (DetectDeltaStatus q view leaves)) i"
  shows "zeq (dl i) []"
proof -
  have i: "i < length leaves" "empty_delta (detect_leaf q view (leaves ! i))"
    using assms(2) by (auto simp: DetectDeltaStatus_def Let_def)
  show ?thesis
  proof (cases "leaf_table (leaves ! i)")
    case None
    with i(2) have "GetLeafScan (leaves ! i) \<noteq> None \<or> IsConstantLeafSubtree (leaf_node (leaves ! i))"
      by (auto simp: detect_leaf_def leaf_table_def no_status_def split: option.split_asm if_split_asm)
    with None i(1) assms(1) show ?thesis unfolding sound_counts_def by blast
  next
    case (Some table)
    with i(2) obtain since deletes base where
      "last_update_of q view (DeltaName table) = Some since"
      "delta_counts q (DeltaName table) (value_to_string since) table = Some (0, deletes, base)"
      by (auto simp: detect_leaf_def leaf_table_def no_status_def count_status_def bind_eq_Some_conv
          split: option.split_asm if_split_asm)
    with Some i(1) assms(1) show ?thesis unfolding sound_counts_def by blast
  qed
qed

section \<open>Foreign keys\<close>

text \<open>A foreign key between two leaves: its columns, whether the tree joins on them, and what
  the database enforces. The referenced keys are unique and every reference has its target.\<close>

definition joins_on ::
  "('l, 'v) row_semantics \<Rightarrow> LogicalOperator \<Rightarrow> nat \<Rightarrow> ('l \<Rightarrow> 'k option) \<Rightarrow> nat \<Rightarrow> ('l \<Rightarrow> 'k option) \<Rightarrow> bool" where
  "joins_on S op f fkv p pkv \<longleftrightarrow>
     (\<forall>d row w x y. (row, w) \<in> set (eval_join S d 0 op) \<and> (f, x) \<in> set row \<and> (p, y) \<in> set row \<longrightarrow>
        fkv x \<noteq> None \<and> fkv x = pkv y)"

definition referential ::
  "('l \<Rightarrow> 'k option) \<Rightarrow> 'l set \<Rightarrow> ('l \<Rightarrow> 'k option) \<Rightarrow> 'l set \<Rightarrow> 'l set \<Rightarrow> bool" where
  "referential fkv referencing pkv referenced inserted \<longleftrightarrow>
     (\<forall>x \<in> referencing. fkv x \<noteq> None \<longrightarrow> (\<exists>y \<in> referenced. pkv y = fkv x)) \<and>
     (\<forall>y \<in> inserted. \<forall>y' \<in> referenced. pkv y \<noteq> pkv y')"

lemma bit_ComputeSkipBits:
  "bit (ComputeSkipBits rs only) i \<longleftrightarrow> (\<exists>fk \<in> set rs. pk_leaf fk = i \<and> bit only i)"
proof -
  have "bit (fold (\<lambda>fk bits. if bit only (pk_leaf fk) then bits OR 2 ^ pk_leaf fk else bits) rs acc) i
      \<longleftrightarrow> bit acc i \<or> (\<exists>fk \<in> set rs. pk_leaf fk = i \<and> bit only i)" for acc :: nat
    by (induction rs arbitrary: acc) (auto simp: bit_or_iff bit_exp_iff)
  then show ?thesis by (simp add: ComputeSkipBits_def)
qed

lemma leaf_relations_fk: "fk \<in> set (leaf_relations q targets i leaf) \<Longrightarrow> fk_leaf fk = i"
  by (auto simp: leaf_relations_def List.map_filter_def split: option.splits)

lemma DetectFKRelations_fk: "fk \<in> set (DetectFKRelations q leaves) \<Longrightarrow> fk_leaf fk < length leaves"
  by (auto simp: DetectFKRelations_def dest!: leaf_relations_fk)

lemma fk_no_rows:
  assumes "all_inner op" "f < leaf_count op" "p < leaf_count op" "\<not> bit m f" "bit m p"
    and "joins_on S op f fkv p pkv"
    and "referential fkv (leaf_rows cur f) pkv referenced (leaf_rows dl p)"
  shows "zeq (eval_join S (choose_leaf m dl cur) 0 op) []"
proof (rule no_rows_zeq)
  fix row w
  show "(row, w) \<notin> set (eval_join S (choose_leaf m dl cur) 0 op)"
  proof
    assume row: "(row, w) \<in> set (eval_join S (choose_leaf m dl cur) 0 op)"
    obtain x where x: "(f, x) \<in> set row" "x \<in> leaf_rows cur f"
      using inner_row_entry [OF assms(1) row, of f] assms(2,4) by (auto simp: leaf_rows_choose)
    obtain y where y: "(p, y) \<in> set row" "y \<in> leaf_rows dl p"
      using inner_row_entry [OF assms(1) row, of p] assms(3,5) by (auto simp: leaf_rows_choose)
    have "fkv x \<noteq> None" "fkv x = pkv y"
      using assms(6) row x(1) y(1) unfolding joins_on_def by blast+
    with assms(7) x(2) y(2) show False unfolding referential_def by metis
  qed
qed

lemma CountBits_one:
  assumes "CountBits m = 1" "m < 2 ^ n" "bit m i" "bit m j" shows "i = j"
proof -
  have lt: "k < n" if "bit m k" for k using bit_below [OF assms(2) that] .
  have "length (filter (bit m) [0 ..< n]) = 1" using CountBits_filter [OF assms(2)] assms(1) by simp
  then obtain a where a: "filter (bit m) [0 ..< n] = [a]" by (auto simp: length_Suc_conv)
  have "k = a" if "bit m k" for k
  proof -
    have "k \<in> set (filter (bit m) [0 ..< n])" using that lt [OF that] by simp
    then show ?thesis by (simp add: a)
  qed
  with assms(3,4) show ?thesis by metis
qed

section \<open>The terms are the delta\<close>

text \<open>What the pruning by foreign keys relies on, for every relation that the code detects.\<close>

definition fk_sound ::
  "('l, 'v) row_semantics \<Rightarrow> LogicalOperator \<Rightarrow> (FKRelation \<Rightarrow> 'l \<Rightarrow> 'k option) \<Rightarrow>
   (FKRelation \<Rightarrow> 'l \<Rightarrow> 'k option) \<Rightarrow> (nat \<Rightarrow> 'l zset) \<Rightarrow> (nat \<Rightarrow> 'l zset) \<Rightarrow> (nat \<Rightarrow> 'l zset) \<Rightarrow>
   FKRelation \<Rightarrow> bool" where
  "fk_sound S plan fkv pkv old dl cur fk \<longleftrightarrow>
     fk_leaf fk \<noteq> pk_leaf fk \<and> pk_leaf fk < leaf_count plan \<and>
     joins_on S plan (fk_leaf fk) (fkv fk) (pk_leaf fk) (pkv fk) \<and>
     referential (fkv fk) (leaf_rows cur (fk_leaf fk)) (pkv fk) (leaf_rows old (pk_leaf fk))
       (leaf_rows dl (pk_leaf fk))"

lemma bit_non_empty_mask:
  "bit (non_empty_mask st n) i \<longleftrightarrow> i < n \<and> \<not> bit (empty_mask st) i \<and> \<not> bit (constant_mask st) i"
proof -
  have "bit (2 ^ n - 1 :: nat) i \<longleftrightarrow> i < n"
    unfolding mask_eq_exp_minus_1 [symmetric] by (simp add: bit_mask_iff)
  then show ?thesis unfolding non_empty_mask_def by auto
qed

lemma constant_is_empty:
  "bit (constant_mask (DetectDeltaStatus q view leaves)) i \<Longrightarrow>
     bit (empty_mask (DetectDeltaStatus q view leaves)) i"
  by (auto simp: DetectDeltaStatus_def Let_def detect_leaf_def no_status_def constant_status_def
      count_status_def split: option.split_asm if_split_asm)

lemma non_empty_mask_less: "non_empty_mask st n < 2 ^ n"
proof -
  have "bit (non_empty_mask st n) i \<Longrightarrow> i < n" for i by (simp add: bit_non_empty_mask)
  then have "take_bit n (non_empty_mask st n) = non_empty_mask st n"
    by (intro bit_eqI) (auto simp: bit_take_bit_iff)
  then show ?thesis by (metis take_bit_nat_less_exp)
qed

lemma pruned_term_zero:
  assumes leaves: "leaves = CollectJoinLeaves plan [] False"
    and types: "VerifyJoinTypes plan = Inr has_left" "supported_tree plan"
    and counts: "sound_counts q view leaves dl"
    and probes: "sound_matches q (leaf_refs q view leaves) colv dl cur"
      "reads_columns S (ColumnRefs E q view leaves) colv" "well_scoped (ColumnRefs E q view leaves) 0 plan"
    and fk: "fk_pruning cfg \<Longrightarrow> \<not> has_left \<and> (\<forall>fk \<in> set (DetectFKRelations q leaves).
               bit (insert_only_mask (DetectDeltaStatus q view leaves)) (pk_leaf fk) \<longrightarrow>
               fk_sound S plan fkv pkv old dl cur fk)"
    and m: "m < 2 ^ length leaves" and pruned: "pruned_mask E cfg q view plan leaves has_left m"
  shows "zeq (eval_term S m (choose_leaf m dl cur) 0 plan) []"
proof -
  define st where "st = DetectDeltaStatus q view leaves"
  have len: "length leaves = leaf_count plan" using leaves by simp
  have small: "i < leaf_count plan" if "bit m i" for i
    using bit_below [OF m that] len by simp
  have zero: "zeq (eval_term S m (choose_leaf m dl cur) 0 plan) []" if "bit m i" "bit (empty_mask st) i" for i
    by (rule eval_term_zero [OF _ _ that(1) types(2)])
      (use that small empty_mask_zeq [OF counts, of i] in \<open>simp_all add: choose_leaf_def st_def\<close>)
  have inner: "all_inner plan" if "\<not> has_left"
    by (rule VerifyJoinTypes_inner [OF _ types(2)]) (use types(1) that in simp)
  have flat: "eval_term S m d 0 plan = eval_join S d 0 plan" if "\<not> has_left" for d
    by (rule eval_term_linear) (rule all_inner_linear [OF inner [OF that]])
  consider (fk) i where "bit m i" "bit (fk_skip_bits cfg q st leaves) i"
    | (empty) i where "bit m i" "bit (skipped_empty_mask cfg st) i"
    | (key) "key_probe_enabled cfg st (length leaves) has_left"
        "key_domain_empty q (leaf_refs q view leaves)
            (CollectDeltaJoinKeyProbes (ColumnRefs E q view leaves) plan) m"
    using pruned unfolding pruned_mask_def Let_def masks_meet st_def by blast
  then show ?thesis
  proof cases
    case fk
    then have on: "fk_pruning cfg" "CountBits (non_empty_mask st (length leaves)) = 1"
      by (auto simp: fk_skip_bits_def split: if_splits)
    with fk(2) obtain r where r: "r \<in> set (DetectFKRelations q leaves)" "pk_leaf r = i"
        "bit (insert_only_mask st) i"
      by (auto simp: fk_skip_bits_def bit_ComputeSkipBits)
    have no_left: "\<not> has_left" and sound: "fk_sound S plan fkv pkv old dl cur r"
      using assms(8) on(1) r by (auto simp: st_def)
    show ?thesis
    proof (cases "\<exists>j. bit m j \<and> bit (empty_mask st) j")
      case True
      then show ?thesis using zero by blast
    next
      case False
      then have "bit (non_empty_mask st (length leaves)) j" if "bit m j" for j
        using that small [OF that] len constant_is_empty by (auto simp: bit_non_empty_mask st_def)
      then have "j = i" if "bit m j" for j
        using CountBits_one [OF on(2) non_empty_mask_less] that fk(1) by blast
      then have "\<not> bit m (fk_leaf r)" using sound r(2) by (auto simp: fk_sound_def)
      moreover have "fk_leaf r < leaf_count plan" using DetectFKRelations_fk [OF r(1)] len by simp
      ultimately have "zeq (eval_join S (choose_leaf m dl cur) 0 plan) []"
        using fk_no_rows [OF inner [OF no_left], of "fk_leaf r" "pk_leaf r"] sound fk(1) r(2)
        unfolding fk_sound_def by blast
      then show ?thesis by (simp add: flat [OF no_left])
    qed
  next
    case empty
    then show ?thesis using zero by (auto simp: skipped_empty_mask_def bit_and_iff split: if_splits)
  next
    case key
    then have no_left: "\<not> has_left" by (simp add: key_probe_enabled_def Let_def)
    have "zeq (eval_join S (choose_leaf m dl cur) 0 plan) []"
      by (rule probe_empty_no_rows [OF probes(2,3) inner [OF no_left] _ probes(1) key(2)])
        (simp add: leaf_refs_def len)
    then show ?thesis by (simp add: flat [OF no_left])
  qed
qed

lemma zsum_eval_terms:
  "zsum (eval_terms S dl cur ts) h = (\<Sum>t \<leftarrow> ts. zsum (eval_delta_term S dl cur t) h)"
  by (simp add: eval_terms_def zsum_concat comp_def)

lemma sum_list_filter_zero:
  fixes f :: "'a \<Rightarrow> int"
  shows "(\<And>x. x \<in> set xs \<Longrightarrow> \<not> P x \<Longrightarrow> f x = 0) \<Longrightarrow> (\<Sum>x \<leftarrow> filter P xs. f x) = (\<Sum>x \<leftarrow> xs. f x)"
  by (induction xs) auto

end
