(* ===== verification/Join_Properties.thy ===== *)
theory Join_Properties
  imports Join_Correct
begin

text \<open>
  The properties of the join delta with their concrete instances: the terms are the delta, no
  term pads a delta leaf with NULLs, and the inputs on which pruning loses rows.
\<close>

section \<open>The sum of the terms\<close>

text \<open>What a join needs so that its terms are its delta: the answers of the queries mean what
  they say, the conditions read the columns they name, and no changed leaf is on a side that
  an outer join pads. \<open>colv\<close> are the values of the columns, \<open>fkv\<close> and \<open>pkv\<close> those of the keys.\<close>

definition join_sound ::
  "('l, 'v) row_semantics \<Rightarrow> duckdb_env \<Rightarrow> join_settings \<Rightarrow> join_queries \<Rightarrow> string \<Rightarrow> LogicalOperator \<Rightarrow>
   (nat \<Rightarrow> string \<Rightarrow> 'l \<Rightarrow> 'v option) \<Rightarrow> (FKRelation \<Rightarrow> 'l \<Rightarrow> 'k option) \<Rightarrow>
   (FKRelation \<Rightarrow> 'l \<Rightarrow> 'k option) \<Rightarrow> (nat \<Rightarrow> 'l zset) \<Rightarrow> (nat \<Rightarrow> 'l zset) \<Rightarrow> (nat \<Rightarrow> 'l zset) \<Rightarrow> bool \<Rightarrow> bool" where
  "join_sound S E cfg q view plan colv fkv pkv old dl cur has_left \<longleftrightarrow>
     (let leaves = CollectJoinLeaves plan [] False
      in VerifyJoinTypes plan = Inr has_left \<and> supported_tree plan \<and>
         (\<forall>i < length leaves. is_right_of_left_join (leaves ! i) \<longrightarrow> zeq (dl i) []) \<and>
         sound_counts q view leaves dl \<and>
         sound_matches q (leaf_refs q view leaves) colv dl cur \<and>
         reads_columns S (ColumnRefs E q view leaves) colv \<and> well_scoped (ColumnRefs E q view leaves) 0 plan \<and>
         (fk_pruning cfg \<longrightarrow> \<not> has_left \<and> (\<forall>fk \<in> set (DetectFKRelations q leaves).
            bit (insert_only_mask (DetectDeltaStatus q view leaves)) (pk_leaf fk) \<longrightarrow>
            fk_sound S plan fkv pkv old dl cur fk)))"

lemma join_terms_sum:
  assumes leaves: "leaves = CollectJoinLeaves plan [] False"
    and delta: "\<And>i. i < length leaves \<Longrightarrow> plus_delta (old i) (dl i) (cur i)"
    and sound: "join_sound S E cfg q view plan colv fkv pkv old dl cur has_left"
  shows "plus_delta (eval_join S old 0 plan)
           (eval_terms S dl cur (BuildInclusionExclusionTerms E cfg q view plan leaves has_left))
           (eval_join S cur 0 plan)"
  unfolding plus_delta_zsum
proof
  fix h
  have types: "VerifyJoinTypes plan = Inr has_left" "supported_tree plan"
    and unpadded: "\<And>i. i < length leaves \<Longrightarrow> is_right_of_left_join (leaves ! i) \<Longrightarrow> zeq (dl i) []"
    and counts: "sound_counts q view leaves dl"
    and probes: "sound_matches q (leaf_refs q view leaves) colv dl cur"
      "reads_columns S (ColumnRefs E q view leaves) colv" "well_scoped (ColumnRefs E q view leaves) 0 plan"
    and fk: "fk_pruning cfg \<Longrightarrow> \<not> has_left \<and> (\<forall>fk \<in> set (DetectFKRelations q leaves).
               bit (insert_only_mask (DetectDeltaStatus q view leaves)) (pk_leaf fk) \<longrightarrow>
               fk_sound S plan fkv pkv old dl cur fk)"
    using sound unfolding leaves join_sound_def Let_def by blast+
  let ?N = "length leaves"
  let ?f = "\<lambda>m. - mask_sign m * zsum (eval_term S m (choose_leaf m dl cur) 0 plan) h"
  have len: "leaf_count plan = ?N" using leaves by simp
  have "zsum (eval_terms S dl cur (BuildInclusionExclusionTerms E cfg q view plan leaves has_left)) h
      = (\<Sum>m \<leftarrow> filter (\<lambda>m. \<not> pruned_mask E cfg q view plan leaves has_left m) [1 ..< 2 ^ ?N]. ?f m)"
    unfolding zsum_eval_terms BuildInclusionExclusionTerms_def map_map comp_def
    by (rule arg_cong [where f = sum_list], rule map_cong [OF refl], rule eval_build_term [OF leaves _ types]) simp
  also have "\<dots> = (\<Sum>m \<leftarrow> [1 ..< 2 ^ ?N]. ?f m)"
  proof (rule sum_list_filter_zero)
    fix m assume "m \<in> set [1 ..< 2 ^ ?N]" "\<not> \<not> pruned_mask E cfg q view plan leaves has_left m"
    then have "zeq (eval_term S m (choose_leaf m dl cur) 0 plan) []"
      using pruned_term_zero [OF leaves types counts probes fk] by simp
    then show "?f m = 0" by (simp add: zeq_zsum)
  qed
  also have "\<dots> = (\<Sum>m \<in> {1 ..< 2 ^ ?N}. ?f m)" by (simp add: sum_list_distinct_conv_sum_set)
  also have "\<dots> = zsum (eval_join S cur 0 plan) h - zsum (eval_join S old 0 plan) h"
  proof (rule signed_terms_sum [where C = "{i. linear_in i 0 plan}"])
    show "zeq (dl i) []" if "i < ?N" "i \<notin> {i. linear_in i 0 plan}" for i
      using unpadded [OF that(1)] that is_right_of_left_join_iff [of i plan "[]" False 0] leaves by simp
  qed (use len types delta in auto)
  finally show "zsum (eval_join S cur 0 plan) h = zsum (eval_join S old 0 plan) h
      + zsum (eval_terms S dl cur (BuildInclusionExclusionTerms E cfg q view plan leaves has_left)) h"
    by simp
qed

section \<open>The properties\<close>

text \<open>C1: The delta of a join. The signed terms that \<open>BuildInclusionExclusionTerms\<close> builds, after
  skipping terms with empty deltas, terms whose keys have no partner and (with foreign keys)
  terms over new referenced rows, add up to exactly the change of the join result, provided
  that the leaves that changed are not on a side that an outer join pads. The hypotheses state
  what the answers to the queries mean, that the conditions read the columns they name, and
  that a foreign key used for pruning is enforced and is what the tree joins on.\<close>

theorem join_terms_are_delta:
  assumes leaves: "leaves = CollectJoinLeaves plan [] False"
    and types: "VerifyJoinTypes plan = Inr has_left" "supported_tree plan"
    and delta: "\<And>i. i < length leaves \<Longrightarrow> plus_delta (old i) (dl i) (cur i)"
    and unpadded: "\<And>i. i < length leaves \<Longrightarrow> is_right_of_left_join (leaves ! i) \<Longrightarrow> zeq (dl i) []"
    and counts: "sound_counts q view leaves dl"
    and probes: "sound_matches q (leaf_refs q view leaves) colv dl cur"
      "reads_columns S (ColumnRefs E q view leaves) colv" "well_scoped (ColumnRefs E q view leaves) 0 plan"
    and fk: "fk_pruning cfg \<Longrightarrow> \<not> has_left \<and> (\<forall>fk \<in> set (DetectFKRelations q leaves).
               bit (insert_only_mask (DetectDeltaStatus q view leaves)) (pk_leaf fk) \<longrightarrow>
               fk_sound S plan fkv pkv old dl cur fk)"
  shows "plus_delta (eval_join S old 0 plan)
           (eval_terms S dl cur (BuildInclusionExclusionTerms E cfg q view plan leaves has_left))
           (eval_join S cur 0 plan)"
proof (rule join_terms_sum [OF leaves delta])
  show "join_sound S E cfg q view plan colv fkv pkv old dl cur has_left"
    using types unpadded counts probes fk unfolding leaves join_sound_def Let_def by blast
qed

lemma all_inner_pads: "all_inner op \<Longrightarrow> pads_no_delta m n op"
  by (induction op arbitrary: n rule: join_tree_induct) (simp_all add: join_simps pads_left_def pads_right_def)


section \<open>A concrete join\<close>


text \<open>A concrete join for the witnesses: orders and customers, joined on a key. A row is its
  key; the tables have the table indices 0 and 1.\<close>

definition col :: "nat \<Rightarrow> Expression" where
  "col t = BoundColumnRef \<lparr>expr_alias = [], GetName = [], IsFoldable = False\<rparr> (t, 0)"

definition key_scan :: "string \<Rightarrow> nat \<Rightarrow> LogicalOperator" where
  "key_scan name t = LogicalOp LOGICAL_GET
     (no_info\<lparr>get_table := Some name, table_index := t, column_bindings := [(t, 0)],
              base_columns := [((t, 0), Some ''k'')]\<rparr>) [] []"

definition orders_join :: "JoinType \<Rightarrow> LogicalOperator" where
  "orders_join jt = LogicalOp LOGICAL_COMPARISON_JOIN
     (no_info\<lparr>join_type := Some jt,
        conditions := [\<lparr>cond_left = col 0, cond_right = col 1, is_equal = True\<rparr>]\<rparr>) []
     [key_scan ''orders'' 0, key_scan ''customer'' 1]"

definition key_rows :: "(nat, nat) row_semantics" where
  "key_rows = \<lparr>
     eval_expr = (\<lambda>e row. case e of
       BoundColumnRef h b \<Rightarrow>
         (if DeltaJoinBindingKey b = 0 then map_of row 0
          else if DeltaJoinBindingKey b = 1 then map_of row 1 else None)
     | _ \<Rightarrow> None),
     other_comparison = (\<lambda>c row. False), any_condition = (\<lambda>oi row. False)\<rparr>"

text \<open>Queries about two tables: pending rows of each, and the foreign key from orders.\<close>

definition key_queries :: "nat \<Rightarrow> nat \<Rightarrow> string list \<Rightarrow> bool option \<Rightarrow> join_queries" where
  "key_queries pending0 pending1 targets match = \<lparr>
     last_update_of = (\<lambda>view delta. Some (Some ''2024-01-01'')),
     delta_counts = (\<lambda>delta since base.
       Some (if base = ''orders'' then (int pending0, 0, 10) else (int pending1, 0, 10))),
     fk_targets = (\<lambda>table. if table = ''orders'' then targets else []),
     base_match = (\<lambda>d dc other oc. match), delta_match = (\<lambda>d dc other oc. None)\<rparr>"

definition default_settings :: join_settings where
  "default_settings = \<lparr>fk_pruning = True, skip_empty_deltas = True, ducklake_nterm = True,
     compile_only_mode = False\<rparr>"

lemma binding_keys [simp]:
  "DeltaJoinBindingKey (0, 0) = 0" "DeltaJoinBindingKey (Suc 0, 0) = 1" "DeltaJoinBindingKey (1, 0) = 1"
  by (simp_all add: DeltaJoinBindingKey_def)

lemmas example_eval = orders_join_def key_scan_def col_def no_info_def is_join_node_def
  key_queries_def default_settings_def CollectJoinLeaves.simps outer_side_def GetLeafScan_def leaf_table_def
  
lemma orders_leaves:
  "CollectJoinLeaves (orders_join jt) [] False =
     [\<lparr>leaf_path = [0], leaf_is_get = True, leaf_node = key_scan ''orders'' 0,
       is_right_of_left_join = jt \<in> {JOIN_RIGHT, JOIN_OUTER}\<rparr>,
      \<lparr>leaf_path = [1], leaf_is_get = True, leaf_node = key_scan ''customer'' 1,
       is_right_of_left_join = jt \<in> {JOIN_LEFT, JOIN_OUTER}\<rparr>]"
  by (auto simp: example_eval)

lemma orders_refs:
  "ColumnRefs ref_env (key_queries a b fks m) view (CollectJoinLeaves (orders_join jt) [] False) k =
     (if k = 0 then Some \<lparr>leaf_index = 0, ref_scan = Some (key_scan ''orders'' 0), ref_table = ''orders'',
          ref_delta = DeltaName ''orders'', ref_column = ''k'', ref_last_update = ''2024-01-01''\<rparr>
      else if k = 1 then Some \<lparr>leaf_index = 1, ref_scan = Some (key_scan ''customer'' 1), ref_table = ''customer'',
          ref_delta = DeltaName ''customer'', ref_column = ''k'', ref_last_update = ''2024-01-01''\<rparr>
      else None)"
  unfolding orders_leaves
  by (simp add: ColumnRefs_def leaf_columns_def leaf_ref_def example_eval DeltaName_def Let_def
     ResolveLeafBindingToBaseColumn.simps find_binding_def List.map_filter_simps DELTA_PREFIX_def
     ref_env_def)

lemma orders_counts:
  "DetectDeltaStatus (key_queries a b fks m) view (CollectJoinLeaves (orders_join jt) [] False) =
    \<lparr>insert_only_mask = 3, empty_mask = (if a = 0 then 1 else 0) + (if b = 0 then 2 else 0),
     constant_mask = 0,
     tiny_mask = (if 0 < a \<and> a \<le> 8 then 1 else 0) + (if 0 < b \<and> b \<le> 8 then 2 else 0)\<rparr>"
  unfolding orders_leaves
  by (simp add: DetectDeltaStatus_def detect_leaf_def example_eval count_status_def tiny_limit_def
     no_status_def mask_of_def)

lemma orders_relations:
  "DetectFKRelations (key_queries a b fks m) (CollectJoinLeaves (orders_join jt) [] False) =
    (concat (map (\<lambda>f. if f = ''orders'' then [\<lparr>fk_leaf = 0, pk_leaf = 0\<rparr>] else
                  if f = ''customer'' then [\<lparr>fk_leaf = 0, pk_leaf = 1\<rparr>] else []) fks))"
  unfolding orders_leaves
  apply (simp add: DetectFKRelations_def leaf_relations_def table_to_leaf_def example_eval)
  apply (induction fks) apply (auto simp: List.map_filter_simps)
  done

lemma orders_shape:
  "leaf_count (orders_join jt) = 2" "supported_tree (orders_join jt) \<longleftrightarrow> plain_type jt"
  "VerifyJoinTypes (orders_join jt) = (if plain_type jt then Inr (jt \<noteq> JOIN_INNER) else VerifyJoinTypes (orders_join jt))"
  by (auto simp: orders_join_def key_scan_def join_simps is_join_node_def effective_type_def no_info_def
      verify_here_def plain_type_def)

definition same_order_key :: "nat jrow \<Rightarrow> nat jrow \<Rightarrow> bool" where
  "same_order_key x y \<longleftrightarrow> map_of (x @ y) 0 \<noteq> None \<and> map_of (x @ y) 0 = map_of (x @ y) 1"

lemma orders_condition:
  "join_condition key_rows LOGICAL_COMPARISON_JOIN
      (no_info\<lparr>join_type := Some jt,
        conditions := [\<lparr>cond_left = col 0, cond_right = col 1, is_equal = True\<rparr>]\<rparr>) = same_order_key"
  by (intro ext) (simp add: join_condition_def cond_holds_def key_rows_def col_def same_order_key_def
      del: not_None_eq)

lemma orders_eval:
  "eval_join key_rows d 0 (orders_join jt) =
     join_rows jt same_order_key (zmap (\<lambda>x. [(0, x)]) (d 0)) (zmap (\<lambda>x. [(1, x)]) (d 1))"
  unfolding orders_join_def key_scan_def
  by (subst eval_join_join(1)) (simp_all only: orders_condition, simp_all add: join_simps is_join_node_def effective_type_def)

lemma orders_rows:
  "(row, w) \<in> set (eval_join key_rows d 0 (orders_join JOIN_INNER)) \<Longrightarrow> \<exists>x. row = [(0, x), (1, x)]"
  unfolding orders_eval by (auto simp: join_rows_def zjoin_iff zmap_def same_order_key_def)

lemma orders_reads:
  "reads_columns key_rows (ColumnRefs ref_env (key_queries a b fks m) view
     (CollectJoinLeaves (orders_join jt) [] False)) (\<lambda>i c x. Some x)"
  by (auto simp: reads_columns_def orders_refs key_rows_def)

lemma orders_scoped:
  "refs 0 = Some r0 \<Longrightarrow> refs 1 = Some r1 \<Longrightarrow> leaf_index r0 = 0 \<Longrightarrow> leaf_index r1 = 1 \<Longrightarrow>
     well_scoped refs 0 (orders_join jt)"
  by (simp add: orders_join_def key_scan_def join_simps is_join_node_def key_scoped_def
      plain_key_def col_def no_info_def)

lemma orders_joins_on: "joins_on key_rows (orders_join JOIN_INNER) 0 Some 1 Some"
  unfolding joins_on_def using orders_rows by fastforce

definition old_orders :: "nat \<Rightarrow> nat zset" where
  "old_orders i = (if i = 0 then [(1, 1)] else [(1, 1), (2, 1)])"

definition new_order :: "nat \<Rightarrow> nat zset" where
  "new_order i = (if i = 0 then [(2, 1)] else [])"

definition cur_orders :: "nat \<Rightarrow> nat zset" where
  "cur_orders i = [(1, 1), (2, 1)]"

theorem join_terms_are_delta_witness:
  "plus_delta (eval_join key_rows old_orders 0 (orders_join JOIN_INNER))
     (eval_terms key_rows new_order cur_orders
       (BuildInclusionExclusionTerms ref_env default_settings (key_queries 1 0 [''customer''] (Some True)) ''v''
          (orders_join JOIN_INNER) (CollectJoinLeaves (orders_join JOIN_INNER) [] False) False))
     (eval_join key_rows cur_orders 0 (orders_join JOIN_INNER))"
proof (rule join_terms_are_delta [where colv = "\<lambda>i c x. Some x" and fkv = "\<lambda>fk. Some" and pkv = "\<lambda>fk. Some"])
  let ?q = "key_queries 1 0 [''customer''] (Some True)"
  show "plus_delta (old_orders i) (new_order i) (cur_orders i)" for i
    by (simp add: old_orders_def new_order_def cur_orders_def plus_delta_def weight_def)
  show "zeq (new_order i) []"
    if "i < length (CollectJoinLeaves (orders_join JOIN_INNER) [] False)"
      "is_right_of_left_join (CollectJoinLeaves (orders_join JOIN_INNER) [] False ! i)" for i
    using that by (auto simp: orders_leaves less_Suc_eq)
  show "sound_counts ?q ''v'' (CollectJoinLeaves (orders_join JOIN_INNER) [] False) new_order"
    by (auto simp: sound_counts_def orders_leaves less_Suc_eq leaf_table_def GetLeafScan_def key_scan_def
        key_queries_def new_order_def zeq_def)
  show "sound_matches ?q (leaf_refs ?q ''v'' (CollectJoinLeaves (orders_join JOIN_INNER) [] False))
     (\<lambda>i c x. Some x) new_order cur_orders"
    by (simp add: sound_matches_def key_queries_def)
  show "\<not> False \<and> (\<forall>fk \<in> set (DetectFKRelations ?q (CollectJoinLeaves (orders_join JOIN_INNER) [] False)).
     bit (insert_only_mask (DetectDeltaStatus ?q ''v'' (CollectJoinLeaves (orders_join JOIN_INNER) [] False)))
       (pk_leaf fk) \<longrightarrow>
     fk_sound key_rows (orders_join JOIN_INNER) (\<lambda>fk. Some) (\<lambda>fk. Some) old_orders new_order cur_orders fk)" if "fk_pruning default_settings"
    using orders_joins_on
    by (simp add: orders_relations fk_sound_def orders_shape referential_def leaf_rows_def old_orders_def
        new_order_def cur_orders_def)
qed (simp_all add: orders_shape plain_type_def orders_reads orders_refs orders_scoped)


lemma masks_of_two: "[1 ..< 2 ^ 2] = [1, 2, 3 :: nat]"
  by (simp add: upt_rec)

lemma skip_bits_orders:
  "fk_skip_bits default_settings (key_queries 0 (Suc b) [''customer''] m)
     (DetectDeltaStatus (key_queries 0 (Suc b) [''customer''] m) view (CollectJoinLeaves (orders_join jt) [] False))
     (CollectJoinLeaves (orders_join jt) [] False) = 2"
  by (simp add: fk_skip_bits_def orders_counts orders_relations ComputeSkipBits_def non_empty_mask_def without_def
      default_settings_def CountBits.simps orders_shape bit_0)

definition old_customers :: "nat \<Rightarrow> nat zset" where
  "old_customers i = [(1, 1)]"

definition new_customer :: "nat \<Rightarrow> nat zset" where
  "new_customer i = (if i = 1 then [(2, 1)] else [])"

definition cur_customers :: "nat \<Rightarrow> nat zset" where
  "cur_customers i = (if i = 1 then [(1, 1), (2, 1)] else [(1, 1)])"

text \<open>C16: Foreign-key pruning is not restricted to inner joins. With a foreign key from orders to
  customer, a new customer without orders is a new row of \<open>orders RIGHT JOIN customer\<close>, but no
  term is built for it, so the view misses the row.\<close>

theorem fk_pruning_loses_outer_rows:
  "BuildInclusionExclusionTerms ref_env default_settings (key_queries 0 1 [''customer''] m) view
     (orders_join JOIN_RIGHT) (CollectJoinLeaves (orders_join JOIN_RIGHT) [] False) True = [] \<and>
   plus_delta (old_customers i) (new_customer i) (cur_customers i) \<and>
   \<not> zeq (eval_join key_rows cur_customers 0 (orders_join JOIN_RIGHT))
       (eval_join key_rows old_customers 0 (orders_join JOIN_RIGHT))"
proof (intro conjI)
  have "pruned_mask ref_env default_settings (key_queries 0 1 [''customer''] m) view (orders_join JOIN_RIGHT)
      (CollectJoinLeaves (orders_join JOIN_RIGHT) [] False) True k" if "k \<in> set [1, 2, 3]" for k
    using that skip_bits_orders [of 0 m view JOIN_RIGHT]
    by (auto simp: pruned_mask_def Let_def skipped_empty_mask_def orders_counts default_settings_def)
  then show "BuildInclusionExclusionTerms ref_env default_settings (key_queries 0 1 [''customer''] m) view
     (orders_join JOIN_RIGHT) (CollectJoinLeaves (orders_join JOIN_RIGHT) [] False) True = []"
    unfolding BuildInclusionExclusionTerms_def CollectJoinLeaves_length orders_shape(1) masks_of_two
    by (simp only: list.set insert_iff empty_iff) simp
  show "plus_delta (old_customers i) (new_customer i) (cur_customers i)"
    by (simp add: plus_delta_def weight_def old_customers_def new_customer_def cur_customers_def)
  have "weight (eval_join key_rows cur_customers 0 (orders_join JOIN_RIGHT)) [(1, 2)] = 1"
    "weight (eval_join key_rows old_customers 0 (orders_join JOIN_RIGHT)) [(1, 2)] = 0"
    by (simp_all add: orders_eval weight_def zsum_join_rows cur_customers_def old_customers_def zmap_def
        same_order_key_def)
  then show "\<not> zeq (eval_join key_rows cur_customers 0 (orders_join JOIN_RIGHT))
       (eval_join key_rows old_customers 0 (orders_join JOIN_RIGHT))"
    unfolding zeq_def by (metis one_neq_zero)
qed



text \<open>A left join with a condition that is no comparison: \<open>VerifyJoinTypes\<close> does not see it.\<close>

definition any_left_join :: LogicalOperator where
  "any_left_join = LogicalOp LOGICAL_ANY_JOIN (no_info\<lparr>join_type := Some JOIN_LEFT\<rparr>) []
     [key_scan ''orders'' 0, key_scan ''customer'' 1]"

text \<open>Outer joins with an arbitrary condition (\<open>LOGICAL_ANY_JOIN\<close>) are not demoted: the left
  join is taken for an inner one, and the term of a change on its right pads the delta leaf.\<close>

theorem any_left_join_not_demoted:
  "VerifyJoinTypes any_left_join = Inr False \<and>
   map is_right_of_left_join (CollectJoinLeaves any_left_join [] False) = [False, True] \<and>
   \<not> pads_no_delta 2 0 (term_plan (build_term any_left_join (CollectJoinLeaves any_left_join [] False) False 2))"
  by (auto simp: any_left_join_def key_scan_def verify_here_def join_simps is_join_node_def outer_side_def
      effective_type_def pads_right_def has_delta_def build_term_def Let_def no_info_def bit_iff_odd
      intro: exI [of _ "1 :: nat"])

section \<open>Probes through casts\<close>

text \<open>The order's key is cast before the comparison, here to the multiple of ten below it, as a
  cast from a timestamp to its date truncates.\<close>

definition cast_join :: LogicalOperator where
  "cast_join = LogicalOp LOGICAL_COMPARISON_JOIN
     (no_info\<lparr>join_type := Some JOIN_INNER,
        conditions := [\<lparr>cond_left = BoundCast \<lparr>expr_alias = [], GetName = [], IsFoldable = False\<rparr> (col 0),
                         cond_right = col 1, is_equal = True\<rparr>]\<rparr>) []
     [key_scan ''orders'' 0, key_scan ''customer'' 1]"

definition cast_rows :: "(nat, nat) row_semantics" where
  "cast_rows = key_rows\<lparr>eval_expr := (\<lambda>e row. case e of
       BoundCast h e' \<Rightarrow> map_option (\<lambda>n. n - n mod 10) (eval_expr key_rows e' row)
     | _ \<Rightarrow> eval_expr key_rows e row)\<rparr>"

definition old_days :: "nat \<Rightarrow> nat zset" where "old_days i = (if i = 0 then [] else [(10, 1)])"
definition new_day :: "nat \<Rightarrow> nat zset" where "new_day i = (if i = 0 then [(15, 1)] else [])"
definition cur_days :: "nat \<Rightarrow> nat zset" where "cur_days i = (if i = 0 then [(15, 1)] else [(10, 1)])"

lemma cast_leaves: "CollectJoinLeaves cast_join [] False = CollectJoinLeaves (orders_join JOIN_INNER) [] False"
  by (simp add: cast_join_def orders_join_def key_scan_def join_simps is_join_node_def outer_side_def no_info_def)

lemma cast_probes:
  "collect_probes (ColumnRefs ref_env (key_queries a b fks m) view (CollectJoinLeaves (orders_join JOIN_INNER) [] False))
     cast_join =
   [(0, \<lparr>other_leaf = 1, delta_column = ''k'', other_column = ''k''\<rparr>),
    (1, \<lparr>other_leaf = 0, delta_column = ''k'', other_column = ''k''\<rparr>)]"
  by (simp add: cast_join_def key_scan_def condition_probes_def col_def no_info_def orders_refs
      del: One_nat_def)

text \<open>A key probe looks through casts and compares the uncast columns. The pending order of
  key 15 has no customer of key 15, so the probe is answered truthfully and its term is
  dropped, but the cast of the key matches customer 10 and the join gains a row.\<close>

theorem key_probe_ignores_casts:
  "sound_matches (key_queries 1 0 [] (Some False))
     (leaf_refs (key_queries 1 0 [] (Some False)) view (CollectJoinLeaves cast_join [] False))
     (\<lambda>i c x. Some x) new_day cur_days \<and>
   BuildInclusionExclusionTerms ref_env default_settings (key_queries 1 0 [] (Some False)) view
     cast_join (CollectJoinLeaves cast_join [] False) False = [] \<and>
   eval_join cast_rows old_days 0 cast_join = [] \<and>
   eval_join cast_rows cur_days 0 cast_join = [([(0, 15), (1, 10)], 1)]"
proof (intro conjI)
  let ?q = "key_queries 1 0 [] (Some False)"
  let ?leaves = "CollectJoinLeaves (orders_join JOIN_INNER) [] False"
  have len: "length ?leaves = 2" by (simp add: orders_shape)
  show "sound_matches ?q (leaf_refs ?q view (CollectJoinLeaves cast_join [] False)) (\<lambda>i c x. Some x) new_day cur_days"
  proof -
    have two: "length (leaf_refs ?q view (CollectJoinLeaves cast_join [] False)) = 2"
      by (simp only: leaf_refs_def cast_leaves length_map length_upt len)
    have "\<not> same_key (\<lambda>i c x. Some x) i c x j c' y"
      if "x \<in> leaf_rows new_day i" "y \<in> leaf_rows cur_days j" "i < 2" "j < 2" "i \<noteq> j" for i j x y and c c' :: string
      using that by (auto simp: leaf_rows_def new_day_def cur_days_def same_key_def split: if_splits)
    then show ?thesis
      unfolding sound_matches_def two by (simp add: key_queries_def)
  qed
  have skipped: "skipped_empty_mask default_settings (DetectDeltaStatus ?q view ?leaves) = 2"
    by (simp add: skipped_empty_mask_def orders_counts default_settings_def)
  have changed: "non_empty_mask (DetectDeltaStatus ?q view ?leaves) 2 = 1"
  proof (rule bit_eqI)
    have masks: "empty_mask (DetectDeltaStatus ?q view ?leaves) = 2"
      "constant_mask (DetectDeltaStatus ?q view ?leaves) = 0" by (simp_all add: orders_counts)
    show "bit (non_empty_mask (DetectDeltaStatus ?q view ?leaves) 2) i = bit (1 :: nat) i" for i
      unfolding bit_non_empty_mask by (auto simp: masks bit_1_iff bit_2_iff simp del: One_nat_def)
  qed
  have "CountBits 1 = 1" by (simp add: CountBits_step [of "Suc 0"])
  then have enabled: "key_probe_enabled default_settings (DetectDeltaStatus ?q view ?leaves) 2 False"
    unfolding key_probe_enabled_def changed by (simp add: default_settings_def)
  have refs: "map ref_last_update (leaf_refs ?q view ?leaves) = [''2024-01-01'', ''2024-01-01'']"
    unfolding leaf_refs_def len by (simp add: upt_rec) (simp add: orders_leaves leaf_ref_def leaf_table_def GetLeafScan_def
       key_scan_def key_queries_def)
  have "key_domain_empty ?q (leaf_refs ?q view ?leaves)
      (CollectDeltaJoinKeyProbes (ColumnRefs ref_env ?q view ?leaves) cast_join) 1"
  proof -
    obtain r0 r1 where r: "leaf_refs ?q view ?leaves = [r0, r1]"
        "ref_last_update r0 \<noteq> []" "ref_last_update r1 \<noteq> []"
      using refs by (auto simp: map_eq_Cons_conv)
    show ?thesis
      unfolding r(1) key_domain_empty_def CollectDeltaJoinKeyProbes_def cast_probes
      using r(2,3) by (simp add: probe_empty_def Let_def DeltaKeyHasBaseMatch_def key_queries_def bit_0 upt_rec)
  qed
  then have "pruned_mask ref_env default_settings ?q view cast_join ?leaves False k" if "k \<in> set [1, 2, 3]" for k
    using that enabled unfolding pruned_mask_def Let_def len skipped
    by (auto simp del: One_nat_def)
  then show "BuildInclusionExclusionTerms ref_env default_settings ?q view
     cast_join (CollectJoinLeaves cast_join [] False) False = []"
    unfolding cast_leaves BuildInclusionExclusionTerms_def CollectJoinLeaves_length orders_shape(1) masks_of_two
    by (simp only: list.set insert_iff empty_iff) simp
  show "eval_join cast_rows old_days 0 cast_join = []" 
    by (simp add: cast_join_def key_scan_def join_simps is_join_node_def effective_type_def old_days_def zmap_def
       join_rows_def zjoin_def)
  show "eval_join cast_rows cur_days 0 cast_join = [([(0, 15), (1, 10)], 1)]"
    by (simp add: cast_join_def key_scan_def join_simps is_join_node_def effective_type_def cur_days_def zmap_def
       join_rows_def zjoin_def no_info_def zfilter_def join_condition_def cond_holds_def cast_rows_def key_rows_def
       col_def)
qed

end
