(* ===== verification/Ducklake_Terms.thy ===== *)
theory Ducklake_Terms
  imports Join_Correct
begin

text \<open>
  Joins over DuckLake tables (\<open>delta/operators/ducklake_join.cpp\<close>): one term per leaf, with the
  leaves before it at the current and the leaves after it at the last refreshed snapshot; and
  the choice between the two ways of building terms (\<open>CompileJoinDelta\<close> of
  \<open>delta/operators/join.cpp\<close>). The answers of the database are parameters.
\<close>

section \<open>Queries\<close>

text \<open>\<open>last_snapshot view table\<close>: no row or an error is \<open>None\<close>, a NULL is \<open>Some None\<close>.
  \<open>scan_snapshot\<close> and \<open>scan_columns\<close> read a scan: its snapshot, and the names of its column ids
  (none for a virtual column). \<open>snapshot_activity\<close> is the metadata probe (no answer when it is
  not ok), \<open>changes_exist\<close> the query on the change feed.\<close>

record ducklake_queries =
  last_snapshot :: "string \<Rightarrow> string \<Rightarrow> int option option"
  scan_snapshot :: "LogicalOperator \<Rightarrow> int option"
  scan_columns :: "LogicalOperator \<Rightarrow> string option list"
  snapshot_activity :: "string \<Rightarrow> int \<Rightarrow> int \<Rightarrow> bool option"
  changes_exist :: "string \<Rightarrow> int \<Rightarrow> int \<Rightarrow> bool option"
  ducklake_key_match :: "nat \<Rightarrow> string \<Rightarrow> nat \<Rightarrow> string \<Rightarrow> int \<Rightarrow> bool option"

datatype compile_error =
    NoLeaves
  | TooManyTables
  | UnsupportedJoin join_error
  | NoSnapshot string

section \<open>Snapshots\<close>

record snapshot_leaf =
  snap_table :: string
  old_snapshot :: int
  current_snapshot :: int

definition is_ducklake_scan :: "LogicalOperator \<Rightarrow> bool" where
  "is_ducklake_scan get \<longleftrightarrow> function_name (op_info get) = ''ducklake_scan''"

definition leaf_snapshot :: "ducklake_queries \<Rightarrow> string \<Rightarrow> LogicalOperator \<Rightarrow> compile_error + snapshot_leaf" where
  "leaf_snapshot q view get =
     (let table = (case get_table (op_info get) of None \<Rightarrow> [] | Some t \<Rightarrow> t)
      in case last_snapshot q view table of
           Some (Some old) \<Rightarrow>
             Inr \<lparr>snap_table = table, old_snapshot = old,
                  current_snapshot = (if is_ducklake_scan get
                                      then (case scan_snapshot q get of None \<Rightarrow> - 1 | Some s \<Rightarrow> s) else - 1)\<rparr>
         | _ \<Rightarrow> Inl (NoSnapshot table))"

fun collect_snapshots :: "ducklake_queries \<Rightarrow> string \<Rightarrow> LogicalOperator list \<Rightarrow> compile_error + snapshot_leaf list" where
  "collect_snapshots q view [] = Inr []"
| "collect_snapshots q view (get # gets) =
     (case leaf_snapshot q view get of
        Inl e \<Rightarrow> Inl e
      | Inr s \<Rightarrow> (case collect_snapshots q view gets of Inl e \<Rightarrow> Inl e | Inr ss \<Rightarrow> Inr (s # ss)))"

definition empty_table_delta :: "ducklake_queries \<Rightarrow> snapshot_leaf \<Rightarrow> bool" where
  "empty_table_delta q s =
     (if current_snapshot s < 0 then False
      else if old_snapshot s = current_snapshot s then True
      else (case snapshot_activity q (snap_table s) (old_snapshot s) (current_snapshot s) of
              Some has_changes \<Rightarrow> \<not> has_changes
            | None \<Rightarrow> changes_exist q (snap_table s) (old_snapshot s) (current_snapshot s) = Some False))"

section \<open>Key probes\<close>

text \<open>The columns are paired with the bindings of the scan, and with the output bindings of the
  leaf, by position.\<close>

definition ducklake_columns ::
  "ducklake_queries \<Rightarrow> nat \<Rightarrow> JoinLeafInfo \<Rightarrow> (64 word \<times> JoinColumnRef) list" where
  "ducklake_columns q i leaf =
     (case GetLeafScan leaf of
        None \<Rightarrow> []
      | Some get \<Rightarrow>
          (let columns = take (length (column_bindings (op_info get))) (scan_columns q get);
               refs = (\<lambda>bs. List.map_filter
                 (\<lambda>(b, column). map_option (\<lambda>c. (DeltaJoinBindingKey b, no_column_ref\<lparr>leaf_index := i, ref_column := c\<rparr>)) column)
                 (zip bs columns))
           in refs (column_bindings (op_info get)) @ refs (column_bindings (op_info (leaf_node leaf)))))"

definition DucklakeColumnRefs ::
  "ducklake_queries \<Rightarrow> JoinLeafInfo list \<Rightarrow> 64 word \<Rightarrow> JoinColumnRef option" where
  "DucklakeColumnRefs q leaves =
     map_of (rev (concat (map (\<lambda>i. ducklake_columns q i (leaves ! i)) [0 ..< length leaves])))"

definition DuckLakeDeltaKeyHasMatch :: "ducklake_queries \<Rightarrow> nat \<Rightarrow> string \<Rightarrow> nat \<Rightarrow> string \<Rightarrow> int \<Rightarrow> bool" where
  "DuckLakeDeltaKeyHasMatch q i c j c' snapshot =
     (case ducklake_key_match q i c j c' snapshot of None \<Rightarrow> True | Some b \<Rightarrow> b)"

definition ducklake_key_empty ::
  "ducklake_queries \<Rightarrow> snapshot_leaf list \<Rightarrow> (nat \<Rightarrow> DeltaJoinKeyProbe list) \<Rightarrow> nat \<Rightarrow> bool" where
  "ducklake_key_empty q snaps probes i =
     (current_snapshot (snaps ! i) \<ge> 0 \<and>
      list_ex (\<lambda>p. \<not> DuckLakeDeltaKeyHasMatch q i (delta_column p) (other_leaf p) (other_column p)
                       (if other_leaf p > i then old_snapshot (snaps ! other_leaf p) else - 1)) (probes i))"

section \<open>Terms\<close>

record ducklake_term =
  duck_plan :: LogicalOperator
  duck_delta :: "nat \<times> delta_leaf"
  duck_pinned :: "(nat \<times> int) list"

definition skipped_leaf ::
  "bool \<Rightarrow> bool \<Rightarrow> ducklake_queries \<Rightarrow> LogicalOperator \<Rightarrow> JoinLeafInfo list \<Rightarrow> snapshot_leaf list \<Rightarrow> nat \<Rightarrow> bool" where
  "skipped_leaf skip_empty has_left_join q plan leaves snaps i =
     (skip_empty \<and>
      (empty_table_delta q (snaps ! i) \<or>
       (\<not> has_left_join \<and>
        ducklake_key_empty q snaps (CollectDeltaJoinKeyProbes (DucklakeColumnRefs q leaves) plan) i)))"

definition pinned_leaves ::
  "ducklake_queries \<Rightarrow> JoinLeafInfo list \<Rightarrow> snapshot_leaf list \<Rightarrow> nat \<Rightarrow> (nat \<times> int) list" where
  "pinned_leaves q leaves snaps i =
     map (\<lambda>j. (j, old_snapshot (snaps ! j)))
       (filter (\<lambda>j. case GetLeafScan (leaves ! j) of
                       None \<Rightarrow> False
                     | Some get \<Rightarrow> is_ducklake_scan get \<and> scan_snapshot q get \<noteq> None)
          [i + 1 ..< length leaves])"

definition ducklake_term_of ::
  "bool \<Rightarrow> ducklake_queries \<Rightarrow> LogicalOperator \<Rightarrow> JoinLeafInfo list \<Rightarrow> snapshot_leaf list \<Rightarrow> nat \<Rightarrow> ducklake_term" where
  "ducklake_term_of has_left_join q plan leaves snaps i =
     \<lparr>duck_plan = (if has_left_join \<and> is_right_of_left_join (leaves ! i) then DemoteLeftJoins plan else plan),
      duck_delta = (i, delta_leaf_of (leaves ! i)),
      duck_pinned = pinned_leaves q leaves snaps i\<rparr>"

definition BuildDuckLakeJoinTerms ::
  "bool \<Rightarrow> ducklake_queries \<Rightarrow> string \<Rightarrow> LogicalOperator \<Rightarrow> JoinLeafInfo list \<Rightarrow> bool \<Rightarrow>
   compile_error + ducklake_term list" where
  "BuildDuckLakeJoinTerms skip_empty q view plan leaves has_left_join =
     (case collect_snapshots q view (List.map_filter GetLeafScan leaves) of
        Inl e \<Rightarrow> Inl e
      | Inr snaps \<Rightarrow>
          Inr (map (ducklake_term_of has_left_join q plan leaves snaps)
            (filter (\<lambda>i. \<not> skipped_leaf skip_empty has_left_join q plan leaves snaps i) [0 ..< length leaves])))"

text \<open>What a term computes: \<open>at_snapshot i s\<close> is the content of leaf \<open>i\<close> at snapshot \<open>s\<close>.\<close>

definition eval_ducklake_term ::
  "('l, 'v) row_semantics \<Rightarrow> (nat \<Rightarrow> 'l zset) \<Rightarrow> (nat \<Rightarrow> 'l zset) \<Rightarrow> (nat \<Rightarrow> int \<Rightarrow> 'l zset) \<Rightarrow>
   ducklake_term \<Rightarrow> 'l jrow zset" where
  "eval_ducklake_term S deltas current at_snapshot t =
     eval_join S
       (\<lambda>j. if j = fst (duck_delta t) then deltas j
            else (case map_of (duck_pinned t) j of Some s \<Rightarrow> at_snapshot j s | None \<Rightarrow> current j))
       0 (duck_plan t)"

definition eval_ducklake_terms ::
  "('l, 'v) row_semantics \<Rightarrow> (nat \<Rightarrow> 'l zset) \<Rightarrow> (nat \<Rightarrow> 'l zset) \<Rightarrow> (nat \<Rightarrow> int \<Rightarrow> 'l zset) \<Rightarrow>
   ducklake_term list \<Rightarrow> 'l jrow zset" where
  "eval_ducklake_terms S deltas current at_snapshot ts =
     concat (map (eval_ducklake_term S deltas current at_snapshot) ts)"

section \<open>Choosing how to build the terms\<close>

datatype join_terms =
    InclusionExclusionTerms "delta_term list"
  | DuckLakeTerms "ducklake_term list"

definition all_ducklake :: "join_settings \<Rightarrow> JoinLeafInfo list \<Rightarrow> bool" where
  "all_ducklake cfg leaves =
     (ducklake_nterm cfg \<and>
      list_all (\<lambda>leaf. case GetLeafScan leaf of None \<Rightarrow> False | Some get \<Rightarrow> is_ducklake_scan get) leaves)"

definition CompileJoinDelta ::
  "duckdb_env \<Rightarrow> join_settings \<Rightarrow> join_queries \<Rightarrow> ducklake_queries \<Rightarrow> string \<Rightarrow> LogicalOperator \<Rightarrow>
   compile_error + join_terms" where
  "CompileJoinDelta E cfg q dq view plan =
     (case VerifyJoinTypes plan of
        Inl e \<Rightarrow> Inl (UnsupportedJoin e)
      | Inr has_left_join \<Rightarrow>
          (let leaves = CollectJoinLeaves plan [] False
           in if leaves = [] then Inl NoLeaves
              else if MAX_JOIN_TABLES < length leaves then Inl TooManyTables
              else if all_ducklake cfg leaves then
                (case BuildDuckLakeJoinTerms (skip_empty_deltas cfg) dq view plan leaves has_left_join of
                   Inl e \<Rightarrow> Inl e
                 | Inr ts \<Rightarrow> Inr (DuckLakeTerms ts))
              else Inr (InclusionExclusionTerms
                          (BuildInclusionExclusionTerms E cfg q view plan leaves has_left_join))))"

end
