(* ===== verification/Ducklake_Correct.thy ===== *)
theory Ducklake_Correct
  imports Ducklake_Terms Join_Properties
begin

text \<open>
  Correctness of the telescoping terms of DuckLake joins, and the two places where they differ
  from the comments and the inclusion-exclusion rule.
\<close>

section \<open>Lemmas\<close>

lemma eval_join_linear_zero:
  assumes "i < leaf_count op" "linear_in i 0 op" "supported_tree op" "zeq (d i) []"
  shows "zeq (eval_join S d 0 op) []"
proof -
  have "eval_term S (2 ^ i) d 0 op = eval_join S d 0 op"
    by (rule eval_term_linear) (use assms(2) in \<open>simp add: bit_exp_iff\<close>)
  moreover have "zeq (eval_term S (2 ^ i) d 0 op) []"
    by (rule eval_term_zero [where i = i]) (use assms in \<open>simp_all add: bit_exp_iff\<close>)
  ultimately show ?thesis by simp
qed

lemma effective_type_DemoteLeft:
  "supported_tree (LogicalOp t oi es (l # r # rest)) \<Longrightarrow> is_join_node t \<Longrightarrow>
     effective_type t (demote_info (t = LOGICAL_COMPARISON_JOIN \<and>
          join_type oi \<in> {Some JOIN_LEFT, Some JOIN_RIGHT, Some JOIN_OUTER}) oi) = JOIN_INNER"
  by (auto simp: join_simps demote_info_def effective_type_def plain_type_def split: option.splits)

lemma DemoteLeftJoins_inner: "supported_tree op \<Longrightarrow> all_inner (DemoteLeftJoins op)"
proof (induction op rule: join_tree_induct)
  case (join t oi es l r rest)
  have "supported_tree l" "supported_tree r" using join.prems join.hyps by (simp_all add: join_simps)
  with join.IH join.hyps effective_type_DemoteLeft [OF join.prems join.hyps] show ?case
    by (simp add: join_simps)
next
  case (degenerate t oi es cs)
  then show ?case by (cases cs; cases "tl cs") (simp_all add: join_simps)
qed (simp add: join_simps)

lemma all_inner_supported: "all_inner op \<Longrightarrow> supported_tree op"
  by (induction op rule: join_tree_induct) (simp_all add: join_simps plain_type_def)

lemma leaf_count_DemoteLeftJoins [simp]: "leaf_count (DemoteLeftJoins op) = leaf_count op"
proof (induction op rule: join_tree_induct)
  case (degenerate t oi es cs)
  then show ?case by (cases cs; cases "tl cs") (simp_all add: join_simps)
qed (simp_all add: join_simps)

lemma demoted_zero:
  assumes "supported_tree op" "i < leaf_count op" "zeq (d i) []"
  shows "zeq (eval_join S d 0 (DemoteLeftJoins op)) []"
proof -
  have "all_inner (DemoteLeftJoins op)" by (rule DemoteLeftJoins_inner [OF assms(1)])
  then show ?thesis
    by (intro eval_join_linear_zero [where i = i]) (simp_all add: assms all_inner_linear all_inner_supported)
qed

lemma collect_snapshots_nth:
  "collect_snapshots q view gets = Inr snaps \<Longrightarrow>
     length snaps = length gets \<and> (\<forall>i < length gets. leaf_snapshot q view (gets ! i) = Inr (snaps ! i))"
proof (induction gets arbitrary: snaps)
  case (Cons get gets)
  then obtain s ss where "leaf_snapshot q view get = Inr s" "collect_snapshots q view gets = Inr ss" "snaps = s # ss"
    by (auto split: sum.splits)
  with Cons.IH [of ss] show ?case by (auto simp: nth_Cons split: nat.splits)
qed simp

lemma map_filter_total:
  "(\<And>x. x \<in> set xs \<Longrightarrow> f x \<noteq> None) \<Longrightarrow> List.map_filter f xs = map (\<lambda>x. the (f x)) xs"
  by (induction xs) (auto simp: List.map_filter_simps split: option.splits)

lemma map_of_graph: "map_of (map (\<lambda>j. (j, f j)) xs) j = (if j \<in> set xs then Some (f j) else None)"
  by (induction xs) auto

section \<open>What the database promises\<close>

text \<open>Leaf \<open>i\<close> reads one DuckLake table: at the snapshot of the last refresh it has the old
  content; equal snapshots and answers of the change probes mean that nothing changed.\<close>

definition sound_snapshots ::
  "ducklake_queries \<Rightarrow> string \<Rightarrow> JoinLeafInfo list \<Rightarrow> (nat \<Rightarrow> 'l zset) \<Rightarrow> (nat \<Rightarrow> 'l zset) \<Rightarrow>
   (nat \<Rightarrow> int \<Rightarrow> 'l zset) \<Rightarrow> bool" where
  "sound_snapshots q view leaves old dl at_snapshot \<longleftrightarrow>
     (\<forall>i < length leaves. \<forall>get s. GetLeafScan (leaves ! i) = Some get \<and> leaf_snapshot q view get = Inr s \<longrightarrow>
        scan_snapshot q get \<noteq> None \<and> 0 \<le> old_snapshot s \<and> at_snapshot i (old_snapshot s) = old i \<and>
        (old_snapshot s = current_snapshot s \<or>
         snapshot_activity q (snap_table s) (old_snapshot s) (current_snapshot s) = Some False \<or>
         changes_exist q (snap_table s) (old_snapshot s) (current_snapshot s) = Some False \<longrightarrow> zeq (dl i) []))"

definition sound_ducklake_matches ::
  "ducklake_queries \<Rightarrow> nat \<Rightarrow> (nat \<Rightarrow> string \<Rightarrow> 'l \<Rightarrow> 'v option) \<Rightarrow> (nat \<Rightarrow> 'l zset) \<Rightarrow> (nat \<Rightarrow> 'l zset) \<Rightarrow>
   (nat \<Rightarrow> int \<Rightarrow> 'l zset) \<Rightarrow> bool" where
  "sound_ducklake_matches q n colv dl cur at_snapshot \<longleftrightarrow>
     (\<forall>i c j c' s. i < n \<and> j < n \<and> i \<noteq> j \<and> ducklake_key_match q i c j c' s = Some False \<longrightarrow>
        (\<forall>x \<in> leaf_rows dl i. \<forall>y \<in> (if s < 0 then leaf_rows cur j else leaf_rows (\<lambda>j. at_snapshot j s) j).
           \<not> same_key colv i c x j c' y))"

section \<open>The terms are the delta\<close>

lemma ducklake_scans:
  assumes "all_ducklake cfg leaves" "BuildDuckLakeJoinTerms skip q view plan leaves has_left = Inr ts"
  obtains snaps where "length snaps = length leaves"
    "\<And>i. i < length leaves \<Longrightarrow> \<exists>get. GetLeafScan (leaves ! i) = Some get \<and> is_ducklake_scan get \<and>
        leaf_snapshot q view get = Inr (snaps ! i)"
    "ts = map (ducklake_term_of has_left q plan leaves snaps)
            (filter (\<lambda>i. \<not> skipped_leaf skip has_left q plan leaves snaps i) [0 ..< length leaves])"
proof -
  have scans: "\<exists>get. GetLeafScan leaf = Some get \<and> is_ducklake_scan get" if "leaf \<in> set leaves" for leaf
    using assms(1) that by (auto simp: all_ducklake_def list_all_iff split: option.splits)
  then have gets: "List.map_filter GetLeafScan leaves = map (\<lambda>leaf. the (GetLeafScan leaf)) leaves"
    by (intro map_filter_total) force
  obtain snaps where snaps: "collect_snapshots q view (map (\<lambda>leaf. the (GetLeafScan leaf)) leaves) = Inr snaps"
    and ts: "ts = map (ducklake_term_of has_left q plan leaves snaps)
            (filter (\<lambda>i. \<not> skipped_leaf skip has_left q plan leaves snaps i) [0 ..< length leaves])"
    using assms(2) by (auto simp: BuildDuckLakeJoinTerms_def gets split: sum.splits)
  show thesis
  proof (rule that [OF _ _ ts])
    show "length snaps = length leaves" using collect_snapshots_nth [OF snaps] by simp
    show "\<exists>get. GetLeafScan (leaves ! i) = Some get \<and> is_ducklake_scan get \<and>
        leaf_snapshot q view get = Inr (snaps ! i)" if "i < length leaves" for i
      using collect_snapshots_nth [OF snaps] scans [of "leaves ! i"] that by force
  qed
qed

text \<open>The content a term sees at leaf \<open>j\<close>: current before its own leaf, old after it.\<close>

definition telescope :: "(nat \<Rightarrow> 'l zset) \<Rightarrow> (nat \<Rightarrow> 'l zset) \<Rightarrow> (nat \<Rightarrow> 'l zset) \<Rightarrow> nat \<Rightarrow> nat \<Rightarrow> 'l zset" where
  "telescope cur dl old i j = (if j < i then cur j else if j = i then dl j else old j)"

lemma eval_ducklake_term_of:
  assumes len: "length leaves = leaf_count plan" and i: "i < length leaves"
    and snaps: "\<And>i. i < length leaves \<Longrightarrow> \<exists>get. GetLeafScan (leaves ! i) = Some get \<and>
        is_ducklake_scan get \<and> leaf_snapshot q view get = Inr (snaps ! i)"
    and sound: "sound_snapshots q view leaves old dl at_snapshot"
  shows "eval_ducklake_term S dl cur at_snapshot (ducklake_term_of has_left q plan leaves snaps i)
       = eval_join S (telescope cur dl old i) 0
           (if has_left \<and> is_right_of_left_join (leaves ! i) then DemoteLeftJoins plan else plan)"
proof -
  have all: "(case GetLeafScan (leaves ! j) of None \<Rightarrow> False
      | Some get \<Rightarrow> is_ducklake_scan get \<and> scan_snapshot q get \<noteq> None) \<and> at_snapshot j (old_snapshot (snaps ! j)) = old j"
    if "j < length leaves" for j
    using snaps [OF that] sound that unfolding sound_snapshots_def by fastforce
  then have "filter (\<lambda>j. case GetLeafScan (leaves ! j) of None \<Rightarrow> False
      | Some get \<Rightarrow> is_ducklake_scan get \<and> scan_snapshot q get \<noteq> None) [i + 1 ..< length leaves]
      = [i + 1 ..< length leaves]"
    by (intro filter_True) auto
  then have pinned: "map_of (pinned_leaves q leaves snaps i) j =
      (if i < j \<and> j < length leaves then Some (old_snapshot (snaps ! j)) else None)" for j
    by (simp only: pinned_leaves_def map_of_graph) auto
  show ?thesis
    unfolding eval_ducklake_term_def
  proof (simp only: ducklake_term_of_def ducklake_term.simps fst_conv, rule eval_join_cong)
    fix j
    assume "j < 0 + leaf_count (if has_left \<and> is_right_of_left_join (leaves ! i) then DemoteLeftJoins plan else plan)"
    then have "j < length leaves" using len by (simp split: if_splits)
    then show "(if j = i then dl j else case map_of (pinned_leaves q leaves snaps i) j of
           Some s \<Rightarrow> at_snapshot j s | None \<Rightarrow> cur j) = telescope cur dl old i j"
      using all [of j] by (auto simp: pinned telescope_def)
  qed
qed



section \<open>Concrete DuckLake joins\<close>

definition lake_scan :: "string \<Rightarrow> nat \<Rightarrow> ColumnBinding list \<Rightarrow> LogicalOperator" where
  "lake_scan name t bindings = LogicalOp LOGICAL_GET
     (no_info\<lparr>get_table := Some name, table_index := t, column_bindings := bindings,
              function_name := ''ducklake_scan''\<rparr>) [] []"

definition key_condition :: "ColumnBinding \<Rightarrow> ColumnBinding \<Rightarrow> JoinCondition" where
  "key_condition a b = \<lparr>
     cond_left = BoundColumnRef \<lparr>expr_alias = [], GetName = [], IsFoldable = False\<rparr> a,
     cond_right = BoundColumnRef \<lparr>expr_alias = [], GetName = [], IsFoldable = False\<rparr> b, is_equal = True\<rparr>"

definition lake_join :: "JoinType \<Rightarrow> JoinCondition \<Rightarrow> LogicalOperator \<Rightarrow> LogicalOperator \<Rightarrow> LogicalOperator" where
  "lake_join jt c l r = LogicalOp LOGICAL_COMPARISON_JOIN
     (no_info\<lparr>join_type := Some jt, conditions := [c]\<rparr>) [] [l, r]"

definition lake_orders :: "LogicalOperator" where
  "lake_orders = lake_join JOIN_INNER (key_condition (0, 0) (1, 0))
     (lake_scan ''orders'' 0 [(0, 0)]) (lake_scan ''customer'' 1 [(1, 0)])"

definition lake_queries :: "string option list \<Rightarrow> bool option \<Rightarrow> ducklake_queries" where
  "lake_queries columns match = \<lparr>
     last_snapshot = (\<lambda>view table. Some (Some 1)), scan_snapshot = (\<lambda>get. Some 2),
     scan_columns = (\<lambda>get. if get_table (op_info get) = Some ''orders'' then columns else [Some ''k'']),
     snapshot_activity = (\<lambda>table a b. Some (table = ''orders'')), changes_exist = (\<lambda>table a b. None),
     ducklake_key_match = (\<lambda>i c j c' s. match)\<rparr>"

lemmas lake_eval = lake_join_def lake_scan_def is_join_node_def join_simps outer_side_def effective_type_def
  key_condition_def

lemma lake_orders_leaves:
  "CollectJoinLeaves lake_orders [] False =
     [\<lparr>leaf_path = [0], leaf_is_get = True, leaf_node = lake_scan ''orders'' 0 [(0, 0)],
       is_right_of_left_join = False\<rparr>,
      \<lparr>leaf_path = [1], leaf_is_get = True, leaf_node = lake_scan ''customer'' 1 [(1, 0)],
       is_right_of_left_join = False\<rparr>]"
  by (simp add: lake_orders_def lake_eval)

lemma lake_orders_refs:
  "DucklakeColumnRefs (lake_queries [Some ''k''] m) (CollectJoinLeaves lake_orders [] False) k =
     (if k = 0 then Some (no_column_ref\<lparr>leaf_index := 0, ref_column := ''k''\<rparr>)
      else if k = 1 then Some (no_column_ref\<lparr>leaf_index := 1, ref_column := ''k''\<rparr>) else None)"
  unfolding lake_orders_leaves
  by (simp add: DucklakeColumnRefs_def ducklake_columns_def GetLeafScan_def lake_scan_def lake_queries_def
      List.map_filter_simps Let_def)



section \<open>Where the rule goes wrong\<close>

text \<open>A leaf that swaps the two columns of its scan: \<open>SELECT b, a FROM orders\<close>, joined on \<open>b\<close>.\<close>

definition swapped_leaf :: LogicalOperator where
  "swapped_leaf = LogicalOp LOGICAL_PROJECTION (no_info\<lparr>column_bindings := [(5, 0), (5, 1)]\<rparr>)
     [cond_left (key_condition (0, 1) (0, 0)), cond_left (key_condition (0, 0) (0, 0))]
     [lake_scan ''orders'' 0 [(0, 0), (0, 1)]]"

definition swapped_join :: LogicalOperator where
  "swapped_join = lake_join JOIN_INNER (key_condition (5, 0) (1, 0)) swapped_leaf
     (lake_scan ''customer'' 1 [(1, 0)])"

definition swapped_queries :: ducklake_queries where
  "swapped_queries = (lake_queries [Some ''a'', Some ''b''] None)
     \<lparr>ducklake_key_match := (\<lambda>i c j c' s. if i = 0 \<and> c = ''a'' then Some False else None)\<rparr>"

text \<open>A row of orders is the pair of \<open>a\<close> and \<open>b\<close>, a row of customer has its key first.\<close>

definition pair_column :: "nat \<Rightarrow> string \<Rightarrow> nat \<times> nat \<Rightarrow> nat option" where
  "pair_column i c x = (if i = 0 \<and> c = ''b'' then Some (snd x) else Some (fst x))"

definition pair_rows :: "(nat \<times> nat, nat) row_semantics" where
  "pair_rows = \<lparr>
     eval_expr = (\<lambda>e row. case e of
       BoundColumnRef h b \<Rightarrow>
         (if b = (5, 0) then map_option snd (map_of row 0)
          else if b = (1, 0) then map_option fst (map_of row 1) else None)
     | _ \<Rightarrow> None),
     other_comparison = (\<lambda>c row. False), any_condition = (\<lambda>oi row. False)\<rparr>"

definition pair_old :: "nat \<Rightarrow> (nat \<times> nat) zset" where "pair_old i = (if i = 0 then [] else [((1, 0), 1)])"
definition pair_new :: "nat \<Rightarrow> (nat \<times> nat) zset" where "pair_new i = (if i = 0 then [((7, 1), 1)] else [])"
definition pair_cur :: "nat \<Rightarrow> (nat \<times> nat) zset" where
  "pair_cur i = (if i = 0 then [((7, 1), 1)] else [((1, 0), 1)])"

lemma swapped_leaves:
  "CollectJoinLeaves swapped_join [] False =
     [\<lparr>leaf_path = [0], leaf_is_get = False, leaf_node = swapped_leaf, is_right_of_left_join = False\<rparr>,
      \<lparr>leaf_path = [1], leaf_is_get = True, leaf_node = lake_scan ''customer'' 1 [(1, 0)],
       is_right_of_left_join = False\<rparr>]"
  by (simp add: swapped_join_def swapped_leaf_def lake_eval)

lemma swapped_keys [simp]: "DeltaJoinBindingKey (5, 0) = 5" by (simp add: DeltaJoinBindingKey_def)

lemma swapped_refs:
  "DucklakeColumnRefs swapped_queries (CollectJoinLeaves swapped_join [] False) 5
     = Some (no_column_ref\<lparr>leaf_index := 0, ref_column := ''a''\<rparr>)"
  "DucklakeColumnRefs swapped_queries (CollectJoinLeaves swapped_join [] False) 1
     = Some (no_column_ref\<lparr>leaf_index := 1, ref_column := ''k''\<rparr>)"
  unfolding swapped_leaves
  by (simp_all add: DucklakeColumnRefs_def ducklake_columns_def GetLeafScan_def swapped_leaf_def lake_scan_def
      swapped_queries_def lake_queries_def List.map_filter_simps Let_def DeltaJoinBindingKey_def)

lemma swapped_probes:
  assumes "refs 5 = Some r0" "refs 1 = Some r1" "leaf_index r0 \<noteq> leaf_index r1"
  shows "collect_probes refs swapped_join =
   [(leaf_index r0, \<lparr>other_leaf = leaf_index r1, delta_column = ref_column r0, other_column = ref_column r1\<rparr>),
    (leaf_index r1, \<lparr>other_leaf = leaf_index r0, delta_column = ref_column r1, other_column = ref_column r0\<rparr>)]"
  using assms
  by (simp add: swapped_join_def lake_join_def key_condition_def condition_probes_def swapped_leaf_def lake_scan_def)

text \<open>The DuckLake key probe takes the columns of a leaf by position. Behind a projection that
  reorders them it asks about the wrong column: the answer is truthful, the only term is
  dropped, and the new row of the join is lost.\<close>

theorem ducklake_probe_takes_columns_by_position:
  "sound_ducklake_matches swapped_queries 2 pair_column pair_new pair_cur (\<lambda>i s. pair_old i) \<and>
   BuildDuckLakeJoinTerms True swapped_queries ''v'' swapped_join (CollectJoinLeaves swapped_join [] False) False
     = Inr [] \<and>
   eval_join pair_rows pair_old 0 swapped_join = [] \<and>
   eval_join pair_rows pair_cur 0 swapped_join = [([(0, (7, 1)), (1, (1, 0))], 1)]"
proof (intro conjI)
  show "sound_ducklake_matches swapped_queries 2 pair_column pair_new pair_cur (\<lambda>i s. pair_old i)"
    by (auto simp: sound_ducklake_matches_def swapped_queries_def leaf_rows_def pair_new_def pair_cur_def pair_old_def
        same_key_def pair_column_def split: if_splits)
  let ?refs = "DucklakeColumnRefs swapped_queries (CollectJoinLeaves swapped_join [] False)"
  have probes: "CollectDeltaJoinKeyProbes ?refs swapped_join 0
      = [\<lparr>other_leaf = 1, delta_column = ''a'', other_column = ''k''\<rparr>]"
    using swapped_probes [OF swapped_refs] by (simp add: CollectDeltaJoinKeyProbes_def no_column_ref_def)
  define snaps where "snaps = [\<lparr>snap_table = ''orders'', old_snapshot = 1, current_snapshot = 2\<rparr>,
      \<lparr>snap_table = ''customer'', old_snapshot = 1, current_snapshot = 2\<rparr>]"
  have collected: "collect_snapshots swapped_queries ''v''
      (List.map_filter GetLeafScan (CollectJoinLeaves swapped_join [] False)) = Inr snaps"
    unfolding swapped_leaves
    by (simp add: GetLeafScan_def List.map_filter_simps leaf_snapshot_def swapped_queries_def lake_queries_def
       swapped_leaf_def lake_scan_def is_ducklake_scan_def Let_def snaps_def)
  have "ducklake_key_empty swapped_queries snaps (CollectDeltaJoinKeyProbes ?refs swapped_join) 0"
    unfolding ducklake_key_empty_def probes
    by (simp add: snaps_def DuckLakeDeltaKeyHasMatch_def swapped_queries_def)
  moreover have "empty_table_delta swapped_queries (snaps ! 1)"
    by (simp add: snaps_def empty_table_delta_def swapped_queries_def lake_queries_def)
  ultimately have "skipped_leaf True False swapped_queries swapped_join (CollectJoinLeaves swapped_join [] False) snaps i"
    if "i \<in> set [0 ..< 2]" for i
    using that by (auto simp: skipped_leaf_def less_Suc_eq numeral_2_eq_2)
  then have "filter (\<lambda>i. \<not> skipped_leaf True False swapped_queries swapped_join
      (CollectJoinLeaves swapped_join [] False) snaps i) [0 ..< 2] = []"
    by (intro filter_False) blast
  moreover have "length (CollectJoinLeaves swapped_join [] False) = 2"
    unfolding swapped_leaves by simp
  ultimately show "BuildDuckLakeJoinTerms True swapped_queries ''v'' swapped_join
      (CollectJoinLeaves swapped_join [] False) False = Inr []"
    unfolding BuildDuckLakeJoinTerms_def collected by (simp only: sum.case list.map)
  show "eval_join pair_rows pair_old 0 swapped_join = []"
    by (simp add: swapped_join_def swapped_leaf_def lake_eval join_rows_def pair_old_def zjoin_def zmap_def)
  show "eval_join pair_rows pair_cur 0 swapped_join = [([(0, (7, 1)), (1, (1, 0))], 1)]"
    by (simp add: swapped_join_def swapped_leaf_def lake_eval join_rows_def pair_cur_def zjoin_def zmap_def zfilter_def
        join_condition_def cond_holds_def pair_rows_def no_info_def)
qed

text \<open>A chain of two left joins over one key: orders with their customers, then their payments.\<close>

definition chain_join :: LogicalOperator where
  "chain_join = lake_join JOIN_LEFT (key_condition (0, 0) (2, 0))
     (lake_join JOIN_LEFT (key_condition (0, 0) (1, 0)) (lake_scan ''orders'' 0 [(0, 0)])
        (lake_scan ''customer'' 1 [(1, 0)]))
     (lake_scan ''payment'' 2 [(2, 0)])"

definition chain_rows :: "(nat, nat) row_semantics" where
  "chain_rows = \<lparr>
     eval_expr = (\<lambda>e row. case e of BoundColumnRef h b \<Rightarrow> map_of row (fst b) | _ \<Rightarrow> None),
     other_comparison = (\<lambda>c row. False), any_condition = (\<lambda>oi row. False)\<rparr>"

definition chain_content :: "nat \<Rightarrow> nat zset" where
  "chain_content i = (if i = 1 then [] else [(4, 1)])"

lemma has_delta_exp: "has_delta (2 ^ k) n c \<longleftrightarrow> n \<le> k \<and> k < n + c"
  by (auto simp: has_delta_def bit_exp_iff)

text \<open>DuckLake terms demote every outer join of the plan. For a new payment of an order without
  customer, the term of the payments has no row, while the demotion by mask that
  \<open>join.cpp\<close> prescribes for such chains keeps the order's row.\<close>

theorem ducklake_demotes_too_much:
  "eval_join chain_rows chain_content 0
     (duck_plan (ducklake_term_of True q chain_join (CollectJoinLeaves chain_join [] False) snaps 2)) = [] \<and>
   eval_join chain_rows chain_content 0
     (DemoteLeftJoinsForMask chain_join (CollectJoinLeaves chain_join [] False) (2 ^ 2))
     = [([(0, 4), (2, 4)], 1)]"
proof (intro conjI)
  have right: "is_right_of_left_join (CollectJoinLeaves chain_join [] False ! 2)"
    by (simp add: chain_join_def lake_eval no_info_def)
  show "eval_join chain_rows chain_content 0
     (duck_plan (ducklake_term_of True q chain_join (CollectJoinLeaves chain_join [] False) snaps 2)) = []"
    using right
    by (simp add: ducklake_term_of_def chain_join_def lake_eval demote_info_def join_rows_def zjoin_def
        chain_content_def zmap_def zfilter_def no_info_def)
  have bits: "has_delta (2 ^ 2) 0 1 = False" "has_delta (2 ^ 2) 1 1 = False" "has_delta (2 ^ 2) 2 1 = True"
    "has_delta (2 ^ 2) 0 2 = False"
    by (simp_all only: has_delta_exp) simp_all
  show "eval_join chain_rows chain_content 0
     (DemoteLeftJoinsForMask chain_join (CollectJoinLeaves chain_join [] False) (2 ^ 2))
     = [([(0, 4), (2, 4)], 1)]"
    unfolding eval_DemoteLeftJoinsForMask
    using bits
    by (simp add: chain_join_def lake_eval term_type_def join_rows_def zjoin_def unmatched_rows_def
        chain_content_def zmap_def zfilter_def no_info_def join_condition_def cond_holds_def chain_rows_def
        numeral_2_eq_2)
qed


section \<open>Size of the compiled delta\<close>

definition term_count :: "join_terms \<Rightarrow> nat" where
  "term_count ts = (case ts of InclusionExclusionTerms us \<Rightarrow> length us | DuckLakeTerms us \<Rightarrow> length us)"

text \<open>The leaves whose deltas each term reads.\<close>

definition term_leaves :: "join_terms \<Rightarrow> nat list list" where
  "term_leaves ts = (case ts of
     InclusionExclusionTerms us \<Rightarrow> map (\<lambda>t. map fst (term_deltas t)) us
   | DuckLakeTerms us \<Rightarrow> map (\<lambda>t. [fst (duck_delta t)]) us)"

lemma mask_has_leaf:
  assumes "m \<in> set [1 ..< 2 ^ n]" shows "filter (bit m) [0 ..< n] \<noteq> []"
proof
  assume "filter (bit m) [0 ..< n] = []"
  then have "\<not> bit m i" for i
    using assms bit_below [of m n i] by (auto simp: filter_empty_conv)
  then have "m = 0" by (metis bit_0_eq bit_eqI bot_apply bot_bool_def)
  with assms show False by simp
qed

lemma inclusion_exclusion_leaves:
  "map (\<lambda>t. map fst (term_deltas t)) (BuildInclusionExclusionTerms E cfg q view plan leaves has_left)
     = map (\<lambda>m. filter (bit m) [0 ..< length leaves])
         (filter (\<lambda>m. \<not> pruned_mask E cfg q view plan leaves has_left m) [1 ..< 2 ^ length leaves])"
  by (simp add: BuildInclusionExclusionTerms_def build_term_def Let_def comp_def)

lemma mask_leaves_inj:
  assumes "m < 2 ^ n" "k < 2 ^ n" "filter (bit m) [0 ..< n] = filter (bit k) [0 ..< n]"
  shows "m = (k :: nat)"
proof (rule bit_eqI)
  fix i
  have "i \<in> set (filter (bit m) [0 ..< n]) \<longleftrightarrow> i \<in> set (filter (bit k) [0 ..< n])" by (simp add: assms(3))
  then show "bit m i = bit k i" using bit_below [OF assms(1)] bit_below [OF assms(2)] by auto
qed

lemma inclusion_exclusion_shape:
  fixes E cfg q view plan leaves has_left
  defines "ls \<equiv> map (\<lambda>t. map fst (term_deltas t)) (BuildInclusionExclusionTerms E cfg q view plan leaves has_left)"
  shows "length ls \<le> 2 ^ length leaves - 1" "distinct ls"
    "l \<in> set ls \<Longrightarrow> l \<noteq> [] \<and> distinct l \<and> (\<forall>i \<in> set l. i < length leaves)"
proof -
  let ?ms = "filter (\<lambda>m. \<not> pruned_mask E cfg q view plan leaves has_left m) [1 ..< 2 ^ length leaves]"
  have ls: "ls = map (\<lambda>m. filter (bit m) [0 ..< length leaves]) ?ms"
    unfolding ls_def by (rule inclusion_exclusion_leaves)
  show "length ls \<le> 2 ^ length leaves - 1"
    unfolding ls using length_filter_le [of _ "[1 ..< 2 ^ length leaves]"] by (simp add: le_diff_conv)
  have "inj_on (\<lambda>m. filter (bit m) [0 ..< length leaves]) (set ?ms)"
    by (intro inj_onI mask_leaves_inj) auto
  then show "distinct ls" unfolding ls by (simp add: distinct_map)
  show "l \<noteq> [] \<and> distinct l \<and> (\<forall>i \<in> set l. i < length leaves)" if "l \<in> set ls"
  proof -
    have "l \<in> (\<lambda>m. filter (bit m) [0 ..< length leaves]) ` set ?ms"
      using that unfolding ls set_map .
    then obtain m where "m \<in> set ?ms" and l: "l = filter (bit m) [0 ..< length leaves]"
      by (elim imageE)
    then have "m \<in> set [1 ..< 2 ^ length leaves]" by simp
    from mask_has_leaf [OF this] show ?thesis by (simp add: l)
  qed
qed

lemma ducklake_shape:
  assumes "all_ducklake cfg leaves" "BuildDuckLakeJoinTerms skip q view plan leaves has_left = Inr us"
  shows "length us \<le> length leaves" "distinct (map (\<lambda>t. [fst (duck_delta t)]) us)"
    "l \<in> set (map (\<lambda>t. [fst (duck_delta t)]) us) \<Longrightarrow> l \<noteq> [] \<and> distinct l \<and> (\<forall>i \<in> set l. i < length leaves)"
proof -
  obtain P f where us: "us = map f (filter P [0 ..< length leaves])" "\<And>i. fst (duck_delta (f i)) = i"
    by (rule ducklake_scans [OF assms]) (auto simp: ducklake_term_of_def)
  then have leaves: "map (\<lambda>t. [fst (duck_delta t)]) us = map (\<lambda>i. [i]) (filter P [0 ..< length leaves])"
    by (simp add: comp_def)
  show "length us \<le> length leaves" using length_filter_le [of P "[0 ..< length leaves]"] by (simp add: us(1))
  show "distinct (map (\<lambda>t. [fst (duck_delta t)]) us)" unfolding leaves by (simp add: distinct_map inj_on_def)
  show "l \<noteq> [] \<and> distinct l \<and> (\<forall>i \<in> set l. i < length leaves)"
    if "l \<in> set (map (\<lambda>t. [fst (duck_delta t)]) us)" using that unfolding leaves by auto
qed

text \<open>C18: A compiled join delta is bounded and well formed. It has at most \<open>2^16 - 1\<close> terms, at most
  one per leaf over DuckLake tables; every term reads the deltas of a non-empty list of distinct
  leaves of the join, and no two terms read the same ones.\<close>

theorem compiled_join_bounded:
  assumes "CompileJoinDelta E cfg q dq view plan = Inr ts"
  shows "1 \<le> leaf_count plan \<and> leaf_count plan \<le> 16 \<and> term_count ts \<le> 2 ^ leaf_count plan - 1 \<and>
    distinct (term_leaves ts) \<and>
    (\<forall>ls \<in> set (term_leaves ts). ls \<noteq> [] \<and> distinct ls \<and> (\<forall>l \<in> set ls. l < leaf_count plan))"
proof -
  let ?leaves = "CollectJoinLeaves plan [] False"
  obtain has_left where "VerifyJoinTypes plan = Inr has_left"
    using assms by (auto simp: CompileJoinDelta_def split: sum.splits)
  note compile = assms [unfolded CompileJoinDelta_def this sum.case Let_def]
  have "?leaves \<noteq> []" "leaf_count plan \<le> 16"
    using compile by (auto simp: MAX_JOIN_TABLES_def not_less split: if_splits)
  then have size: "1 \<le> leaf_count plan" "leaf_count plan \<le> 16"
    using CollectJoinLeaves_length [of plan "[]" False] by (cases ?leaves; simp)+
  consider (ie) "ts = InclusionExclusionTerms (BuildInclusionExclusionTerms E cfg q view plan ?leaves has_left)"
    | (lake) us where "all_ducklake cfg ?leaves" "ts = DuckLakeTerms us"
        "BuildDuckLakeJoinTerms (skip_empty_deltas cfg) dq view plan ?leaves has_left = Inr us"
    using compile by (auto split: if_splits sum.splits)
  then show ?thesis
  proof cases
    case ie
    then show ?thesis
      using size inclusion_exclusion_shape [where E = E and cfg = cfg and q = q and view = view and plan = plan
        and leaves = ?leaves and has_left = has_left]
      by (simp add: term_count_def term_leaves_def)
  next
    case lake
    have "leaf_count plan \<le> 2 ^ leaf_count plan - 1"
      using less_exp [of "leaf_count plan"] by linarith
    then show ?thesis
      using size ducklake_shape [OF lake(1,3)] by (simp add: lake(2) term_count_def term_leaves_def)
  qed
qed

theorem compiled_join_bounded_witness:
  "\<exists>ts. CompileJoinDelta ref_env default_settings (key_queries 1 0 [] None) (lake_queries [] None) ''v''
      (orders_join JOIN_INNER) = Inr ts \<and> term_count ts \<le> 3 \<and> distinct (term_leaves ts)"
proof -
  have "\<not> all_ducklake default_settings (CollectJoinLeaves (orders_join JOIN_INNER) [] False)"
    unfolding orders_leaves
    by (simp add: all_ducklake_def GetLeafScan_def key_scan_def is_ducklake_scan_def no_info_def)
  then obtain ts where ts: "CompileJoinDelta ref_env default_settings (key_queries 1 0 [] None) (lake_queries [] None)
      ''v'' (orders_join JOIN_INNER) = Inr ts"
    using orders_leaves [of JOIN_INNER]
    by (simp add: CompileJoinDelta_def orders_shape plain_type_def Let_def MAX_JOIN_TABLES_def)
  with compiled_join_bounded [OF ts] show ?thesis by (auto simp: orders_shape)
qed

end
