(* ===== verification/Locks.thy ===== *)
theory Locks
  imports Sql_Names "HOL-Library.List_Lexorder" "HOL-Library.Char_ord"
begin

text \<open>
  \<open>core/refresh_locks.cpp\<close>: the mutexes of views and of delta tables, the guards of
  \<open>core/refresh_locks.hpp\<close>, and the sessions that take them: a refresh
  (\<open>RefreshViewLocked\<close> of \<open>upsert/refresh.cpp\<close>), the rules of \<open>rules/refresh_insert_rule.cpp\<close> and
  \<open>rules/schema_evolution.cpp\<close>, and the daemon. A session is the list of what it does to the
  mutexes; threads interleave freely.
\<close>

section \<open>The mutex tables\<close>

type_synonym thread = nat

text \<open>A mutex is the thread that holds it; the maps create a mutex on its first use.\<close>

record lock_tables =
  view_mutexes :: "string \<rightharpoonup> thread option"
  delta_mutexes :: "string \<rightharpoonup> thread option"

definition no_mutexes :: lock_tables where
  "no_mutexes = \<lparr>view_mutexes = Map.empty, delta_mutexes = Map.empty\<rparr>"

definition GetViewMutex :: "string \<Rightarrow> lock_tables \<Rightarrow> thread option \<times> lock_tables" where
  "GetViewMutex view_name s =
     (case view_mutexes s view_name of
        Some entry \<Rightarrow> (entry, s)
      | None \<Rightarrow> (None, s\<lparr>view_mutexes := (view_mutexes s)(view_name \<mapsto> None)\<rparr>))"

definition GetDeltaMutex :: "string \<Rightarrow> lock_tables \<Rightarrow> thread option \<times> lock_tables" where
  "GetDeltaMutex delta_table_name s =
     (case delta_mutexes s delta_table_name of
        Some entry \<Rightarrow> (entry, s)
      | None \<Rightarrow> (None, s\<lparr>delta_mutexes := (delta_mutexes s)(delta_table_name \<mapsto> None)\<rparr>))"

text \<open>A blocking lock has no result while another thread holds the mutex.\<close>

definition LockView :: "thread \<Rightarrow> string \<Rightarrow> lock_tables \<Rightarrow> lock_tables option" where
  "LockView t view_name s =
     (case GetViewMutex view_name s of
        (None, s') \<Rightarrow> Some (s'\<lparr>view_mutexes := (view_mutexes s')(view_name \<mapsto> Some t)\<rparr>)
      | (Some holder, s') \<Rightarrow> None)"

definition TryLockView :: "thread \<Rightarrow> string \<Rightarrow> lock_tables \<Rightarrow> bool \<times> lock_tables" where
  "TryLockView t view_name s =
     (case GetViewMutex view_name s of
        (None, s') \<Rightarrow> (True, s'\<lparr>view_mutexes := (view_mutexes s')(view_name \<mapsto> Some t)\<rparr>)
      | (Some holder, s') \<Rightarrow> (False, s'))"

definition UnlockView :: "string \<Rightarrow> lock_tables \<Rightarrow> lock_tables" where
  "UnlockView view_name s =
     (let s' = snd (GetViewMutex view_name s)
      in s'\<lparr>view_mutexes := (view_mutexes s')(view_name \<mapsto> None)\<rparr>)"

definition LockDelta :: "thread \<Rightarrow> string \<Rightarrow> lock_tables \<Rightarrow> lock_tables option" where
  "LockDelta t delta_table_name s =
     (case GetDeltaMutex delta_table_name s of
        (None, s') \<Rightarrow> Some (s'\<lparr>delta_mutexes := (delta_mutexes s')(delta_table_name \<mapsto> Some t)\<rparr>)
      | (Some holder, s') \<Rightarrow> None)"

definition UnlockDelta :: "string \<Rightarrow> lock_tables \<Rightarrow> lock_tables" where
  "UnlockDelta delta_table_name s =
     (let s' = snd (GetDeltaMutex delta_table_name s)
      in s'\<lparr>delta_mutexes := (delta_mutexes s')(delta_table_name \<mapsto> None)\<rparr>)"

section \<open>Both kinds of mutexes as one\<close>

datatype mutex_name = ViewMutex string | DeltaMutex string

fun mutex_owner :: "lock_tables \<Rightarrow> mutex_name \<Rightarrow> thread option" where
  "mutex_owner s (ViewMutex v) = Option.bind (view_mutexes s v) (\<lambda>m. m)"
| "mutex_owner s (DeltaMutex d) = Option.bind (delta_mutexes s d) (\<lambda>m. m)"

fun lock_mutex :: "thread \<Rightarrow> mutex_name \<Rightarrow> lock_tables \<Rightarrow> lock_tables option" where
  "lock_mutex t (ViewMutex v) s = LockView t v s"
| "lock_mutex t (DeltaMutex d) s = LockDelta t d s"

fun unlock_mutex :: "mutex_name \<Rightarrow> lock_tables \<Rightarrow> lock_tables" where
  "unlock_mutex (ViewMutex v) s = UnlockView v s"
| "unlock_mutex (DeltaMutex d) s = UnlockDelta d s"

text \<open>The contract of a table of mutexes, and what follows for the mutexes a thread holds.\<close>

locale mutex_table =
  fixes owner :: "'s \<Rightarrow> 'm \<Rightarrow> nat option"
    and lock :: "nat \<Rightarrow> 'm \<Rightarrow> 's \<Rightarrow> 's option"
    and unlock :: "'m \<Rightarrow> 's \<Rightarrow> 's"
  assumes lock_blocks: "lock t m s = None \<longleftrightarrow> owner s m \<noteq> None"
    and lock_owner: "lock t m s = Some s' \<Longrightarrow> owner s' m' = (if m' = m then Some t else owner s m')"
    and unlock_owner: "owner (unlock m s) m' = (if m' = m then None else owner s m')"
begin

lemma lock_succeeds: "(\<exists>s'. lock t m s = Some s') \<longleftrightarrow> owner s m = None"
  using lock_blocks [of t m s] by auto

lemma lock_free: "lock t m s = Some s' \<Longrightarrow> owner s m = None"
  using lock_blocks [of t m s] by auto

lemma held_lock:
  "lock t m s = Some s' \<Longrightarrow>
     {k. owner s' k = Some u} = (if u = t then insert m {k. owner s k = Some u} else {k. owner s k = Some u})"
  using lock_free [of t m s s'] by (auto simp: lock_owner split: if_splits)

lemma held_unlock:
  "{k. owner (unlock m s) k = Some u} = {k. owner s k = Some u} - {m}"
  by (auto simp: unlock_owner split: if_splits)

lemma held_by_one: "owner s m = Some t \<Longrightarrow> owner s m = Some u \<Longrightarrow> t = u"
  by simp

end

interpretation refresh_locks: mutex_table mutex_owner lock_mutex unlock_mutex
proof unfold_locales
  fix t m s s' m'
  show "lock_mutex t m s = None \<longleftrightarrow> mutex_owner s m \<noteq> None"
    by (cases m) (auto simp: LockView_def LockDelta_def GetViewMutex_def GetDeltaMutex_def
        split: option.splits)
  show "mutex_owner (unlock_mutex m s) m' = (if m' = m then None else mutex_owner s m')"
    by (cases m; cases m') (auto simp: UnlockView_def UnlockDelta_def GetViewMutex_def GetDeltaMutex_def
        Let_def split: option.splits)
  assume "lock_mutex t m s = Some s'"
  then show "mutex_owner s' m' = (if m' = m then Some t else mutex_owner s m')"
    by (cases m; cases m') (auto simp: LockView_def LockDelta_def GetViewMutex_def GetDeltaMutex_def
        split: option.splits)
qed

lemma TryLockView_lock:
  "TryLockView t v s = (b, s') \<Longrightarrow>
     (if b then lock_mutex t (ViewMutex v) s = Some s'
      else mutex_owner s (ViewMutex v) \<noteq> None \<and> (\<forall>m. mutex_owner s' m = mutex_owner s m))"
  by (auto simp: TryLockView_def LockView_def GetViewMutex_def split: option.splits if_splits prod.splits)

section \<open>The order of the locks\<close>

text \<open>Views come before delta tables, delta tables in the order of their names (\<open>std::sort\<close>).\<close>

instantiation mutex_name :: linorder
begin

fun less_eq_mutex_name :: "mutex_name \<Rightarrow> mutex_name \<Rightarrow> bool" where
  "less_eq_mutex_name (ViewMutex v) (ViewMutex w) = (v \<le> w)"
| "less_eq_mutex_name (ViewMutex v) (DeltaMutex d) = True"
| "less_eq_mutex_name (DeltaMutex d) (ViewMutex v) = False"
| "less_eq_mutex_name (DeltaMutex d) (DeltaMutex e) = (d \<le> e)"

definition less_mutex_name :: "mutex_name \<Rightarrow> mutex_name \<Rightarrow> bool" where
  "less_mutex_name m n \<longleftrightarrow> m \<le> n \<and> \<not> n \<le> (m :: mutex_name)"

instance
proof
  fix l m n :: mutex_name
  show "m < n \<longleftrightarrow> m \<le> n \<and> \<not> n \<le> m" by (rule less_mutex_name_def)
  show "m \<le> m" by (cases m) simp_all
  show "l \<le> m \<Longrightarrow> m \<le> n \<Longrightarrow> l \<le> n" by (cases l; cases m; cases n) auto
  show "m \<le> n \<Longrightarrow> n \<le> m \<Longrightarrow> m = n" by (cases m; cases n) auto
  show "m \<le> n \<or> n \<le> m" by (cases m; cases n) auto
qed

end

lemma mutex_less [simp]:
  "ViewMutex v < DeltaMutex d" "DeltaMutex d < DeltaMutex e \<longleftrightarrow> d < e"
  "ViewMutex v < ViewMutex w \<longleftrightarrow> v < w"
  by (auto simp: less_mutex_name_def)

section \<open>Sessions\<close>

datatype lock_action =
    Acquire mutex_name
  | Release mutex_name
  | TryView string "lock_action list"

text \<open>\<open>ViewLockGuard\<close> and \<open>DeltaLockGuard\<close> around a body.\<close>

definition ViewLockGuard :: "string \<Rightarrow> lock_action list \<Rightarrow> lock_action list" where
  "ViewLockGuard view_name body =
     [Acquire (ViewMutex view_name)] @ body @ [Release (ViewMutex view_name)]"

definition DeltaLockGuard :: "string \<Rightarrow> lock_action list \<Rightarrow> lock_action list" where
  "DeltaLockGuard delta_table_name body =
     [Acquire (DeltaMutex delta_table_name)] @ body @ [Release (DeltaMutex delta_table_name)]"

text \<open>A refresh takes its view, then its delta tables sorted and without repetition.\<close>

definition sorted_delta_tables :: "string list \<Rightarrow> string list" where
  "sorted_delta_tables delta_table_names = remdups_adj (sort delta_table_names)"

definition RefreshSession :: "string \<Rightarrow> string list \<Rightarrow> lock_action list" where
  "RefreshSession view_name delta_table_names =
     ViewLockGuard view_name
       (let ds = map DeltaMutex (sorted_delta_tables delta_table_names)
        in map Acquire ds @ map Release ds)"

text \<open>A statement on a base table writes its delta rows under the lock of the delta table.\<close>

definition WriteSession :: "string \<Rightarrow> lock_action list" where
  "WriteSession table_name = DeltaLockGuard (DeltaName table_name) []"

text \<open>Dropping a view and its dependents, and renaming a column, lock one view at a time.\<close>

definition ViewsSession :: "string list \<Rightarrow> lock_action list" where
  "ViewsSession view_names = concat (map (\<lambda>v. ViewLockGuard v []) view_names)"

text \<open>The daemon looks whether the view is busy (\<open>TryViewLockGuard\<close>) and skips it if so; otherwise
  it lets the view go and runs \<open>PRAGMA refresh\<close>.\<close>

definition DaemonSession :: "string \<Rightarrow> string list \<Rightarrow> lock_action list" where
  "DaemonSession view_name delta_table_names =
     [TryView view_name (RefreshSession view_name delta_table_names)]"

section \<open>Interleaving\<close>

record lock_system =
  mutexes :: lock_tables
  todo :: "thread \<Rightarrow> lock_action list"

inductive lock_step :: "lock_system \<Rightarrow> lock_system \<Rightarrow> bool" where
  acquire: "todo s t = Acquire m # rest \<Longrightarrow> lock_mutex t m (mutexes s) = Some ms \<Longrightarrow>
     lock_step s (s\<lparr>mutexes := ms, todo := (todo s)(t := rest)\<rparr>)"
| release: "todo s t = Release m # rest \<Longrightarrow>
     lock_step s (s\<lparr>mutexes := unlock_mutex m (mutexes s), todo := (todo s)(t := rest)\<rparr>)"
| try_taken: "todo s t = TryView v body # rest \<Longrightarrow> TryLockView t v (mutexes s) = (True, ms) \<Longrightarrow>
     lock_step s (s\<lparr>mutexes := ms, todo := (todo s)(t := Release (ViewMutex v) # body @ rest)\<rparr>)"
| try_busy: "todo s t = TryView v body # rest \<Longrightarrow> TryLockView t v (mutexes s) = (False, ms) \<Longrightarrow>
     lock_step s (s\<lparr>mutexes := ms, todo := (todo s)(t := rest)\<rparr>)"

inductive lock_run :: "lock_system \<Rightarrow> lock_system \<Rightarrow> bool" where
  stay: "lock_run s s"
| go: "lock_run s s' \<Longrightarrow> lock_step s' s'' \<Longrightarrow> lock_run s s''"

text \<open>The sessions of the program, one after another in a thread.\<close>

inductive program_session :: "lock_action list \<Rightarrow> bool" where
  idle: "program_session []"
| refresh: "program_session s \<Longrightarrow> program_session (RefreshSession v ds @ s)"
| writing: "program_session s \<Longrightarrow> program_session (WriteSession table @ s)"
| locking: "program_session s \<Longrightarrow> program_session (ViewsSession vs @ s)"
| daemon: "program_session s \<Longrightarrow> program_session (DaemonSession v ds @ s)"

definition start_system :: "(thread \<Rightarrow> lock_action list) \<Rightarrow> lock_system" where
  "start_system sessions = \<lparr>mutexes = no_mutexes, todo = sessions\<rparr>"

text \<open>What a thread may do with the mutexes it holds: it takes only later ones, and lets
  go of all of them in the end.\<close>

fun disciplined :: "mutex_name set \<Rightarrow> lock_action list \<Rightarrow> bool" where
  "disciplined H [] \<longleftrightarrow> H = {}"
| "disciplined H (Acquire m # rest) \<longleftrightarrow> (\<forall>h \<in> H. h < m) \<and> disciplined (insert m H) rest"
| "disciplined H (Release m # rest) \<longleftrightarrow> m \<in> H \<and> disciplined (H - {m}) rest"
| "disciplined H (TryView v body # rest) \<longleftrightarrow> H = {} \<and> disciplined {} body \<and> disciplined {} rest"

lemma disciplined_append:
  "disciplined H as \<Longrightarrow> disciplined {} bs \<Longrightarrow> disciplined H (as @ bs)"
  by (induction H as rule: disciplined.induct) auto

lemma strict_remdups_adj: "sorted xs \<Longrightarrow> sorted_wrt (<) (remdups_adj xs)"
  by (induction xs rule: remdups_adj.induct) (auto simp: order.strict_iff_order)

lemma sorted_delta_tables_less: "sorted_wrt (<) (sorted_delta_tables ds)"
  by (simp add: sorted_delta_tables_def strict_remdups_adj)

lemma set_sorted_delta_tables: "set (sorted_delta_tables ds) = set ds"
  by (simp add: sorted_delta_tables_def)

lemma disciplined_releases:
  "disciplined H rest \<Longrightarrow> distinct ds \<Longrightarrow> set ds \<inter> H = {} \<Longrightarrow>
     disciplined (set ds \<union> H) (map Release ds @ rest)"
proof (induction ds)
  case (Cons d ds)
  then have "insert d (set ds \<union> H) - {d} = set ds \<union> H" by auto
  with Cons show ?case by simp
qed simp

lemma disciplined_acquires:
  "disciplined (set ds \<union> H) rest \<Longrightarrow> sorted_wrt (<) ds \<Longrightarrow> \<forall>h \<in> H. \<forall>d \<in> set ds. h < d \<Longrightarrow>
     disciplined H (map Acquire ds @ rest)"
  by (induction ds arbitrary: H) auto

lemma disciplined_refresh: "disciplined {} (RefreshSession v ds)"
proof -
  let ?ds = "map DeltaMutex (sorted_delta_tables ds)"
  have less: "sorted_wrt (<) ?ds" using sorted_delta_tables_less [of ds] by (simp add: sorted_wrt_map)
  then have "distinct ?ds" by (simp add: strict_sorted_iff)
  then have "disciplined (set ?ds \<union> {ViewMutex v}) (map Release ?ds @ [Release (ViewMutex v)])"
    by (intro disciplined_releases) auto
  then have "disciplined {ViewMutex v} (map Acquire ?ds @ map Release ?ds @ [Release (ViewMutex v)])"
    by (intro disciplined_acquires less) auto
  then show ?thesis by (simp add: RefreshSession_def ViewLockGuard_def Let_def)
qed

lemma disciplined_views: "disciplined {} (ViewsSession vs)"
  by (induction vs) (auto simp: ViewsSession_def ViewLockGuard_def)

lemma disciplined_write: "disciplined {} (WriteSession table)"
  by (simp add: WriteSession_def DeltaLockGuard_def)

lemma program_session_disciplined: "program_session s \<Longrightarrow> disciplined {} s"
  by (induction rule: program_session.induct)
    (simp_all add: disciplined_append disciplined_refresh disciplined_views disciplined_write DaemonSession_def)

section \<open>Invariant and progress\<close>

definition held :: "lock_system \<Rightarrow> thread \<Rightarrow> mutex_name set" where
  "held s t = {m. mutex_owner (mutexes s) m = Some t}"

definition lock_inv :: "lock_system \<Rightarrow> bool" where
  "lock_inv s \<longleftrightarrow> (\<forall>t. disciplined (held s t) (todo s t)) \<and> finite {t. todo s t \<noteq> []}"

lemma lock_inv_step:
  assumes "lock_step s s'" "lock_inv s" shows "lock_inv s'"
  using assms
proof (induction rule: lock_step.induct)
  case (acquire s t m rest ms)
  let ?s = "s\<lparr>mutexes := ms, todo := (todo s)(t := rest)\<rparr>"
  have held: "held ?s u = (if u = t then insert m (held s u) else held s u)" for u
    using refresh_locks.held_lock [OF acquire(2)] by (simp add: held_def)
  have "{u. todo ?s u \<noteq> []} \<subseteq> {u. todo s u \<noteq> []}" using acquire(1) by auto
  then have "finite {u. todo ?s u \<noteq> []}"
    using acquire(3) unfolding lock_inv_def by (blast intro: finite_subset)
  moreover have "disciplined (held s t) (Acquire m # rest)" using acquire(1,3) by (metis lock_inv_def)
  ultimately show ?case using acquire(3) by (auto simp: lock_inv_def held)
next
  case (release s t m rest)
  let ?s = "s\<lparr>mutexes := unlock_mutex m (mutexes s), todo := (todo s)(t := rest)\<rparr>"
  have mine: "disciplined (held s t) (Release m # rest)" using release by (metis lock_inv_def)
  then have "m \<notin> held s u" if "u \<noteq> t" for u using that by (auto simp: held_def)
  then have held: "held ?s u = (if u = t then held s u - {m} else held s u)" for u
    using refresh_locks.held_unlock [of m "mutexes s" u] by (auto simp: held_def)
  have "{u. todo ?s u \<noteq> []} \<subseteq> {u. todo s u \<noteq> []}" using release(1) by auto
  then have "finite {u. todo ?s u \<noteq> []}"
    using release(2) unfolding lock_inv_def by (blast intro: finite_subset)
  with mine show ?case using release(2) by (auto simp: lock_inv_def held)
next
  case (try_taken s t v body rest ms)
  let ?s = "s\<lparr>mutexes := ms, todo := (todo s)(t := Release (ViewMutex v) # body @ rest)\<rparr>"
  have "lock_mutex t (ViewMutex v) (mutexes s) = Some ms" using TryLockView_lock [OF try_taken(2)] by simp
  then have held: "held ?s u = (if u = t then insert (ViewMutex v) (held s u) else held s u)" for u
    using refresh_locks.held_lock [of t "ViewMutex v" "mutexes s" ms u] by (simp add: held_def)
  have "{u. todo ?s u \<noteq> []} \<subseteq> insert t {u. todo s u \<noteq> []}" by auto
  then have "finite {u. todo ?s u \<noteq> []}"
    using try_taken(3) unfolding lock_inv_def by (meson finite_insert finite_subset)
  moreover have "disciplined (held s t) (TryView v body # rest)" using try_taken(1,3) by (metis lock_inv_def)
  ultimately show ?case using try_taken(3) by (auto simp: lock_inv_def held disciplined_append)
next
  case (try_busy s t v body rest ms)
  let ?s = "s\<lparr>mutexes := ms, todo := (todo s)(t := rest)\<rparr>"
  have held: "held ?s u = held s u" for u
    using TryLockView_lock [OF try_busy(2)] by (simp add: held_def)
  have "{u. todo ?s u \<noteq> []} \<subseteq> {u. todo s u \<noteq> []}" using try_busy(1) by auto
  then have "finite {u. todo ?s u \<noteq> []}"
    using try_busy(3) unfolding lock_inv_def by (blast intro: finite_subset)
  moreover have "disciplined (held s t) (TryView v body # rest)" using try_busy(1,3) by (metis lock_inv_def)
  ultimately show ?case using try_busy(3) by (auto simp: lock_inv_def held)
qed

lemma lock_inv_run: "lock_run s s' \<Longrightarrow> lock_inv s \<Longrightarrow> lock_inv s'"
  by (induction rule: lock_run.induct) (auto intro: lock_inv_step)

lemma lock_inv_start:
  "(\<And>t. program_session (sessions t)) \<Longrightarrow> finite {t. sessions t \<noteq> []} \<Longrightarrow> lock_inv (start_system sessions)"
proof -
  assume sessions: "\<And>t. program_session (sessions t)" and "finite {t. sessions t \<noteq> []}"
  moreover have "mutex_owner no_mutexes m = None" for m by (cases m) (simp_all add: no_mutexes_def)
  ultimately show ?thesis
    by (simp add: lock_inv_def start_system_def held_def program_session_disciplined)
qed

text \<open>A thread that cannot move waits for a mutex that another one holds.\<close>

lemma blocked_waits:
  assumes "lock_inv s" "\<nexists>s'. lock_step s s'" "todo s t \<noteq> []"
  obtains m rest u where "todo s t = Acquire m # rest" "mutex_owner (mutexes s) m = Some u"
    "\<forall>h \<in> held s t. h < m"
proof -
  obtain a rest where todo: "todo s t = a # rest" using assms(3) by (cases "todo s t") auto
  show thesis
  proof (cases a)
    case (Acquire m)
    have "lock_mutex t m (mutexes s) = None"
      using assms(2) todo Acquire by (cases "lock_mutex t m (mutexes s)") (auto intro: lock_step.acquire)
    then obtain u where "mutex_owner (mutexes s) m = Some u" using refresh_locks.lock_blocks by blast
    moreover have "disciplined (held s t) (Acquire m # rest)"
      using assms(1) todo Acquire unfolding lock_inv_def by metis
    ultimately show thesis using that todo Acquire by auto
  next
    case (Release m)
    with todo assms(2) show thesis by (auto intro: lock_step.release)
  next
    case (TryView v body)
    obtain b ms where "TryLockView t v (mutexes s) = (b, ms)" by (cases "TryLockView t v (mutexes s)") auto
    with todo assms(2) TryView show thesis
      by (cases b) (auto intro: lock_step.try_taken lock_step.try_busy)
  qed
qed

lemma some_step:
  assumes "lock_inv s" "todo s t \<noteq> []"
  shows "\<exists>s'. lock_step s s'"
proof (rule ccontr)
  assume stuck: "\<nexists>s'. lock_step s s'"
  define W where "W = {m. \<exists>t rest. todo s t = Acquire m # rest}"
  let ?wanted = "\<lambda>t. case todo s t of Acquire m # rest \<Rightarrow> m | _ \<Rightarrow> ViewMutex []"
  have "m \<in> ?wanted ` {t. todo s t \<noteq> []}" if W: "m \<in> W" for m
  proof -
    obtain t rest where "todo s t = Acquire m # rest" using W by (auto simp: W_def)
    then show ?thesis by (intro image_eqI [of _ _ t]) simp_all
  qed
  then have "W \<subseteq> ?wanted ` {t. todo s t \<noteq> []}" by blast
  then have "finite W" using assms(1) unfolding lock_inv_def by (blast intro: finite_surj)
  moreover obtain m0 rest0 u0 where "todo s t = Acquire m0 # rest0"
    by (rule blocked_waits [OF assms(1) stuck assms(2)])
  then have "m0 \<in> W" by (auto simp: W_def)
  ultimately have "Max W \<in> W" by (intro Max_in) auto
  then obtain t' rest' where t': "todo s t' = Acquire (Max W) # rest'" by (auto simp: W_def)
  obtain m u rest where "todo s t' = Acquire m # rest" and u: "mutex_owner (mutexes s) m = Some u"
    by (rule blocked_waits [OF assms(1) stuck, of t']) (use t' in auto)
  with t' have holds: "Max W \<in> held s u" by (simp add: held_def)
  then have "todo s u \<noteq> []"
    using assms(1) unfolding lock_inv_def by (metis disciplined.simps(1) empty_iff)
  then obtain m' rest'' where "todo s u = Acquire m' # rest''" "\<forall>h \<in> held s u. h < m'"
    by (rule blocked_waits [OF assms(1) stuck])
  then have "m' \<in> W" "Max W < m'" using holds by (auto simp: W_def)
  then show False using Max_ge [OF \<open>finite W\<close>] by (meson leD)
qed

text \<open>Every step uses up part of a session.\<close>

fun action_weight :: "lock_action \<Rightarrow> nat" where
  "action_weight (Acquire m) = 1"
| "action_weight (Release m) = 1"
| "action_weight (TryView v body) = 2 + sum_list (map action_weight body)"

definition session_weight :: "lock_action list \<Rightarrow> nat" where
  "session_weight as = sum_list (map action_weight as)"

definition remaining :: "lock_system \<Rightarrow> nat" where
  "remaining s = (\<Sum>t \<in> {t. todo s t \<noteq> []}. session_weight (todo s t))"

lemma session_weight_simps [simp]:
  "session_weight [] = 0"
  "session_weight (a # as) = action_weight a + session_weight as"
  "session_weight (as @ bs) = session_weight as + session_weight bs"
  by (simp_all add: session_weight_def)

lemma step_moves:
  "lock_step s s' \<Longrightarrow> \<exists>t as. todo s t \<noteq> [] \<and> todo s' = (todo s)(t := as) \<and> session_weight as < session_weight (todo s t)"
proof (induction rule: lock_step.induct)
  case (try_taken s t v body rest ms)
  then show ?case
    by (intro exI [of _ t] exI [of _ "Release (ViewMutex v) # body @ rest"]) (simp add: session_weight_def)
next
  case (try_busy s t v body rest ms)
  then show ?case by (intro exI [of _ t] exI [of _ rest]) simp
qed (auto intro!: exI)

lemma remaining_step:
  assumes "lock_step s s'" "lock_inv s" shows "remaining s' < remaining s"
proof -
  obtain t as where t: "todo s t \<noteq> []" "todo s' = (todo s)(t := as)" "session_weight as < session_weight (todo s t)"
    using step_moves [OF assms(1)] by blast
  let ?T = "{t. todo s t \<noteq> []}"
  have fin: "finite ?T" using assms(2) by (simp add: lock_inv_def)
  have "remaining s' = (\<Sum>u \<in> ?T. session_weight (todo s' u))"
    unfolding remaining_def by (rule sum.mono_neutral_left [OF fin]) (use t in \<open>auto split: if_splits\<close>)
  also have "\<dots> < (\<Sum>u \<in> ?T. session_weight (todo s u))"
    by (rule sum_strict_mono_ex1 [OF fin]) (use t in auto)
  finally show ?thesis by (simp add: remaining_def)
qed

section \<open>Properties\<close>

text \<open>C22: No deadlock. Whatever refreshes, writes, drops and daemon checks run concurrently, as long
  as a thread has something left to do, some thread can take a step.\<close>

theorem sessions_never_deadlock:
  assumes "\<And>t. program_session (sessions t)" "finite {t. sessions t \<noteq> []}"
    and "lock_run (start_system sessions) s" "todo s t \<noteq> []"
  shows "\<exists>s'. lock_step s s'"
  using some_step lock_inv_run lock_inv_start assms by blast


theorem sessions_never_deadlock_witness:
  "\<exists>s. lock_step (start_system (\<lambda>t. if t = 0 then RefreshSession ''v'' [''b'', ''a'', ''b''] else [])) s"
proof (rule sessions_never_deadlock)
  let ?sessions = "\<lambda>t :: thread. if t = 0 then RefreshSession ''v'' [''b'', ''a'', ''b''] else []"
  show "program_session (?sessions t)" for t
    using program_session.refresh [OF program_session.idle, of "''v''" "[''b'', ''a'', ''b'']"]
    by (simp add: program_session.idle)
  show "finite {t. ?sessions t \<noteq> []}" by (rule finite_subset [of _ "{0}"]) auto
  show "lock_run (start_system ?sessions) (start_system ?sessions)" by (rule lock_run.stay)
  show "todo (start_system ?sessions) 0 \<noteq> []"
    by (simp add: start_system_def RefreshSession_def ViewLockGuard_def)
qed

lemma lock_run_trans: "lock_run s' s'' \<Longrightarrow> lock_run s s' \<Longrightarrow> lock_run s s''"
  by (induction rule: lock_run.induct) (auto intro: lock_run.go)

text \<open>C23: Every session completes. From every state that the sessions of the program can reach,
  all of them can be run to their end, and then no mutex is held; no scheduling can put this
  off for more steps than the sessions have left, because every step uses one up.\<close>

theorem sessions_complete:
  assumes "\<And>t. program_session (sessions t)" "finite {t. sessions t \<noteq> []}"
    and "lock_run (start_system sessions) s"
  shows "(\<exists>s'. lock_run s s' \<and> (\<forall>t. todo s' t = []) \<and> (\<forall>m. mutex_owner (mutexes s') m = None)) \<and>
    (\<forall>s'. lock_step s s' \<longrightarrow> remaining s' < remaining s)"
proof
  have "lock_inv s" using lock_inv_run lock_inv_start assms by blast
  then show "\<forall>s'. lock_step s s' \<longrightarrow> remaining s' < remaining s" by (blast intro: remaining_step)
  show "\<exists>s'. lock_run s s' \<and> (\<forall>t. todo s' t = []) \<and> (\<forall>m. mutex_owner (mutexes s') m = None)"
    using \<open>lock_inv s\<close>
  proof (induction "remaining s" arbitrary: s rule: less_induct)
    case less
    show ?case
    proof (cases "\<exists>t. todo s t \<noteq> []")
      case True
      then obtain s' where s': "lock_step s s'" using some_step [OF less.prems] by blast
      with less.prems have "remaining s' < remaining s" "lock_inv s'"
        by (auto intro: remaining_step lock_inv_step)
      from less.hyps [OF this] obtain s'' where "lock_run s' s''" "\<forall>t. todo s'' t = []"
        "\<forall>m. mutex_owner (mutexes s'') m = None" by blast
      moreover have "lock_run s s'" using s' by (blast intro: lock_run.intros)
      ultimately show ?thesis by (blast intro: lock_run_trans)
    next
      case False
      then have "held s t = {}" for t using less.prems unfolding lock_inv_def by (metis disciplined.simps(1))
      then have "mutex_owner (mutexes s) m \<noteq> Some t" for m t by (auto simp: held_def)
      then have "mutex_owner (mutexes s) m = None" for m by (cases "mutex_owner (mutexes s) m") auto
      with False show ?thesis by (blast intro: lock_run.stay)
    qed
  qed
qed

theorem sessions_complete_witness:
  "\<exists>s'. lock_run (start_system (\<lambda>t. if t = 0 then WriteSession ''t'' else [])) s' \<and> (\<forall>t. todo s' t = [])"
proof -
  let ?sessions = "\<lambda>t :: thread. if t = 0 then WriteSession ''t'' else []"
  have "program_session (?sessions t)" for t
    using program_session.writing [OF program_session.idle, of "''t''"] by (simp add: program_session.idle)
  moreover have "finite {t. ?sessions t \<noteq> []}" by (rule finite_subset [of _ "{0}"]) auto
  ultimately show ?thesis using sessions_complete [OF _ _ lock_run.stay, of ?sessions] by blast
qed

declare mutex_owner.simps [simp del] lock_mutex.simps [simp del] unlock_mutex.simps [simp del]

end
