(* ===== verification/Refresh_Protocol.thy ===== *)
theory Refresh_Protocol
  imports Locks "HOL-Library.Multiset"
begin

text \<open>
  The protocol that keeps delta rows and refreshes in step: a statement on a base table logs its
  delta row under the lock of the delta table (\<open>rules/refresh_insert_rule.cpp\<close>); a refresh
  takes its locks, applies the rows at or after the view's cursor \<open>last_update\<close>, deletes rows
  that no view needs any more and moves the cursor (\<open>RefreshViewLocked\<close>, and the statements
  assembled at the end of \<open>GenerateRefreshSQL\<close>); a refresh across catalogs does this in
  separate transactions, with the flag \<open>refresh_in_progress\<close> for recovery. The clock is the
  \<open>now()\<close> of transactions; it advances between two of them.
\<close>

section \<open>State\<close>

record 'r delta_row =
  openivm_timestamp :: nat
  data_columns :: 'r

datatype 'r activity =
    Idle
  | WritingDelta string "'r delta_row"
  | ChainedRefresh string "'r delta_row"
  | Refreshing string nat
  | CrossRefreshing string nat
  | CrossApplied string
  | Recovering string nat

text \<open>\<open>executing\<close> holds the statements that have logged their delta row and not finished yet.
  \<open>logged\<close> and \<open>applied\<close> record, for the properties, every delta row ever committed and the rows
  that a view contains.\<close>

record 'r refresh_state =
  held_mutexes :: lock_tables
  activity :: "thread \<Rightarrow> 'r activity"
  clock :: nat
  base_rows :: "string \<Rightarrow> 'r multiset"
  executing :: "string \<Rightarrow> 'r multiset"
  delta_rows :: "string \<Rightarrow> 'r delta_row list"
  last_update :: "string \<Rightarrow> string \<Rightarrow> nat"
  in_progress :: "string \<Rightarrow> bool"
  logged :: "string \<Rightarrow> 'r delta_row list"
  applied :: "string \<Rightarrow> string \<Rightarrow> 'r multiset"

text \<open>The rows of \<open>openivm_delta_tables\<close>: the views, and the delta tables of each.\<close>

record tracking =
  tracked_views :: "string list"
  sources :: "string \<Rightarrow> string list"

definition contents :: "'r delta_row list \<Rightarrow> 'r multiset" where
  "contents rows = mset (map data_columns rows)"

section \<open>The statements of a refresh\<close>

text \<open>The delta scan keeps rows with \<open>openivm_timestamp >= last_update\<close>.\<close>

definition delta_scan :: "'r refresh_state \<Rightarrow> string \<Rightarrow> string \<Rightarrow> 'r delta_row list" where
  "delta_scan s v dt = filter (\<lambda>r. last_update s v dt \<le> openivm_timestamp r) (delta_rows s dt)"

definition cursors :: "tracking \<Rightarrow> 'r refresh_state \<Rightarrow> string \<Rightarrow> nat list" where
  "cursors T s dt = map (\<lambda>v. last_update s v dt) (filter (\<lambda>v. dt \<in> set (sources T v)) (tracked_views T))"

text \<open>\<open>DELETE ... WHERE openivm_timestamp < (SELECT MIN(last_update) ...)\<close>; the minimum of no rows
  is NULL and deletes nothing.\<close>

definition BuildDeltaCleanupSQL :: "tracking \<Rightarrow> 'r refresh_state \<Rightarrow> string \<Rightarrow> 'r delta_row list" where
  "BuildDeltaCleanupSQL T s dt =
     (if cursors T s dt = [] then delta_rows s dt
      else filter (\<lambda>r. \<not> openivm_timestamp r < Min (set (cursors T s dt))) (delta_rows s dt))"

definition clean_sources :: "tracking \<Rightarrow> string \<Rightarrow> 'r refresh_state \<Rightarrow> 'r refresh_state" where
  "clean_sources T v s =
     s\<lparr>delta_rows := (\<lambda>dt. if dt \<in> set (sources T v) then BuildDeltaCleanupSQL T s dt else delta_rows s dt)\<rparr>"

text \<open>\<open>COALESCE((SELECT MAX(openivm_timestamp) + INTERVAL '1 microsecond' ...), now())\<close>\<close>

definition next_cursor :: "nat \<Rightarrow> 'r delta_row list \<Rightarrow> nat" where
  "next_cursor now rows = (if rows = [] then now else Max (openivm_timestamp ` set rows) + 1)"

definition advance_cursors :: "tracking \<Rightarrow> string \<Rightarrow> nat \<Rightarrow> 'r refresh_state \<Rightarrow> 'r refresh_state" where
  "advance_cursors T v now s =
     s\<lparr>last_update := (last_update s)(v :=
        (\<lambda>dt. if dt \<in> set (sources T v) then next_cursor now (delta_rows s dt) else last_update s v dt))\<rparr>"

definition apply_deltas :: "tracking \<Rightarrow> string \<Rightarrow> 'r refresh_state \<Rightarrow> 'r refresh_state" where
  "apply_deltas T v s =
     s\<lparr>applied := (applied s)(v :=
        (\<lambda>dt. if dt \<in> set (sources T v) then applied s v dt + contents (delta_scan s v dt) else applied s v dt))\<rparr>"

text \<open>One transaction: the rows are applied and cleaned up, then the cursors move.\<close>

definition incremental_refresh :: "tracking \<Rightarrow> string \<Rightarrow> nat \<Rightarrow> 'r refresh_state \<Rightarrow> 'r refresh_state" where
  "incremental_refresh T v now s = advance_cursors T v now (clean_sources T v (apply_deltas T v s))"

text \<open>\<open>BuildRecomputeQuery\<close>: the view is computed from the base tables, the cursors move to
  \<open>now()\<close>, then rows are cleaned up.\<close>

definition BuildRecomputeQuery :: "tracking \<Rightarrow> string \<Rightarrow> nat \<Rightarrow> 'r refresh_state \<Rightarrow> 'r refresh_state" where
  "BuildRecomputeQuery T v now s =
     clean_sources T v
       (s\<lparr>applied := (applied s)(v := (\<lambda>dt. if dt \<in> set (sources T v) then base_rows s dt else applied s v dt)),
          last_update := (last_update s)(v := (\<lambda>dt. if dt \<in> set (sources T v) then now else last_update s v dt))\<rparr>)"

section \<open>Locks of a refresh\<close>

definition refresh_mutexes :: "tracking \<Rightarrow> string \<Rightarrow> mutex_name list" where
  "refresh_mutexes T v = ViewMutex v # map DeltaMutex (sorted_delta_tables (sources T v))"

fun lock_all :: "thread \<Rightarrow> mutex_name list \<Rightarrow> lock_tables \<Rightarrow> lock_tables option" where
  "lock_all t [] ms = Some ms"
| "lock_all t (m # rest) ms = (case lock_mutex t m ms of None \<Rightarrow> None | Some ms' \<Rightarrow> lock_all t rest ms')"

definition unlock_all :: "mutex_name list \<Rightarrow> lock_tables \<Rightarrow> lock_tables" where
  "unlock_all names ms = fold unlock_mutex names ms"

section \<open>Steps\<close>

text \<open>What the code allows beyond statements that succeed and refreshes that run between them: a
  refresh writes the delta rows of its view, which other views read; a statement fails or is
  rolled back after its delta row was logged; a view is recomputed while a statement has
  logged its row and not changed the table yet; a recovery fails.\<close>

datatype hazard = ChainedWrite | Rollback | RecomputeDuringStatement | FailedRecovery

definition set_activity :: "thread \<Rightarrow> 'r activity \<Rightarrow> 'r refresh_state \<Rightarrow> 'r refresh_state" where
  "set_activity t a s = s\<lparr>activity := (activity s)(t := a)\<rparr>"

definition log_row :: "string \<Rightarrow> 'r delta_row \<Rightarrow> 'r refresh_state \<Rightarrow> 'r refresh_state" where
  "log_row dt r s =
     s\<lparr>delta_rows := (delta_rows s)(dt := delta_rows s dt @ [r]), logged := (logged s)(dt := logged s dt @ [r])\<rparr>"

definition release_view :: "tracking \<Rightarrow> string \<Rightarrow> thread \<Rightarrow> 'r refresh_state \<Rightarrow> 'r refresh_state" where
  "release_view T v t s =
     s\<lparr>held_mutexes := unlock_all (refresh_mutexes T v) (held_mutexes s), activity := (activity s)(t := Idle)\<rparr>"

definition quiet :: "tracking \<Rightarrow> hazard set \<Rightarrow> string \<Rightarrow> 'r refresh_state \<Rightarrow> bool" where
  "quiet T H v s \<longleftrightarrow> RecomputeDuringStatement \<in> H \<or> (\<forall>dt \<in> set (sources T v). executing s dt = {#})"

text \<open>\<open>refresh_fail\<close> is a rolled back refresh, and also the refresh that \<open>TrySkipEmptyRefresh\<close> skips
  because nothing is pending. The two parts of a recovery across catalogs are one step.\<close>

inductive refresh_step :: "tracking \<Rightarrow> hazard set \<Rightarrow> 'r refresh_state \<Rightarrow> 'r refresh_state \<Rightarrow> bool"
  for T :: tracking and H :: "hazard set" where
  write_begin: "activity s t = Idle \<Longrightarrow> clock s < now \<Longrightarrow>
     lock_mutex t (DeltaMutex dt) (held_mutexes s) = Some ms \<Longrightarrow>
     refresh_step T H s
       (set_activity t (WritingDelta dt \<lparr>openivm_timestamp = now, data_columns = r\<rparr>)
         (s\<lparr>held_mutexes := ms, clock := now\<rparr>))"
| write_commit: "activity s t = WritingDelta dt r \<Longrightarrow>
     refresh_step T H s
       (set_activity t Idle
         (log_row dt r (s\<lparr>held_mutexes := unlock_mutex (DeltaMutex dt) (held_mutexes s),
                          executing := (executing s)(dt := add_mset (data_columns r) (executing s dt))\<rparr>)))"
| statement_commit: "r \<in># executing s dt \<Longrightarrow>
     refresh_step T H s
       (s\<lparr>executing := (executing s)(dt := executing s dt - {#r#}),
          base_rows := (base_rows s)(dt := add_mset r (base_rows s dt))\<rparr>)"
| statement_rollback: "Rollback \<in> H \<Longrightarrow> r \<in># executing s dt \<Longrightarrow>
     refresh_step T H s (s\<lparr>executing := (executing s)(dt := executing s dt - {#r#})\<rparr>)"
| chained_begin: "ChainedWrite \<in> H \<Longrightarrow> activity s t = Idle \<Longrightarrow> clock s < now \<Longrightarrow>
     refresh_step T H s
       (set_activity t (ChainedRefresh dt \<lparr>openivm_timestamp = now, data_columns = r\<rparr>) (s\<lparr>clock := now\<rparr>))"
| chained_commit: "activity s t = ChainedRefresh dt r \<Longrightarrow>
     refresh_step T H s
       (set_activity t Idle
         (log_row dt r (s\<lparr>base_rows := (base_rows s)(dt := add_mset (data_columns r) (base_rows s dt))\<rparr>)))"
| refresh_begin: "activity s t = Idle \<Longrightarrow> v \<in> set (tracked_views T) \<Longrightarrow> \<not> in_progress s v \<Longrightarrow> clock s < now \<Longrightarrow>
     lock_all t (refresh_mutexes T v) (held_mutexes s) = Some ms \<Longrightarrow>
     refresh_step T H s (set_activity t (Refreshing v now) (s\<lparr>held_mutexes := ms, clock := now\<rparr>))"
| refresh_commit: "activity s t = Refreshing v now \<Longrightarrow>
     refresh_step T H s (release_view T v t (incremental_refresh T v now s))"
| recompute_commit: "activity s t = Refreshing v now \<Longrightarrow> quiet T H v s \<Longrightarrow>
     refresh_step T H s (release_view T v t (BuildRecomputeQuery T v now s))"
| refresh_fail: "activity s t = Refreshing v now \<Longrightarrow> refresh_step T H s (release_view T v t s)"
| cross_begin: "activity s t = Idle \<Longrightarrow> v \<in> set (tracked_views T) \<Longrightarrow> \<not> in_progress s v \<Longrightarrow> clock s < now \<Longrightarrow>
     lock_all t (refresh_mutexes T v) (held_mutexes s) = Some ms \<Longrightarrow>
     refresh_step T H s
       (set_activity t (CrossRefreshing v now)
         (s\<lparr>held_mutexes := ms, clock := now, in_progress := (in_progress s)(v := True)\<rparr>))"
| cross_data: "activity s t = CrossRefreshing v now \<Longrightarrow>
     refresh_step T H s (set_activity t (CrossApplied v) (apply_deltas T v s))"
| cross_post: "activity s t = CrossApplied v \<Longrightarrow> clock s < now \<Longrightarrow>
     refresh_step T H s
       (release_view T v t
         ((advance_cursors T v now s)\<lparr>clock := now, in_progress := (in_progress s)(v := False)\<rparr>))"
| cross_fail: "activity s t = CrossRefreshing v now \<or> activity s t = CrossApplied v \<Longrightarrow>
     refresh_step T H s (release_view T v t s)"
| recover_begin: "activity s t = Idle \<Longrightarrow> v \<in> set (tracked_views T) \<Longrightarrow> in_progress s v \<Longrightarrow> clock s < now \<Longrightarrow>
     lock_all t (refresh_mutexes T v) (held_mutexes s) = Some ms \<Longrightarrow>
     refresh_step T H s
       (set_activity t (Recovering v now)
         (s\<lparr>held_mutexes := ms, clock := now, in_progress := (in_progress s)(v := False)\<rparr>))"
| recover_commit: "activity s t = Recovering v now \<Longrightarrow> quiet T H v s \<Longrightarrow>
     refresh_step T H s (release_view T v t (BuildRecomputeQuery T v now s))"
| recover_fail: "FailedRecovery \<in> H \<Longrightarrow> activity s t = Recovering v now \<Longrightarrow>
     refresh_step T H s (release_view T v t s)"

definition initial_state :: "'r refresh_state" where
  "initial_state =
     \<lparr>held_mutexes = no_mutexes, activity = (\<lambda>t. Idle), clock = 0, base_rows = (\<lambda>dt. {#}),
      executing = (\<lambda>dt. {#}), delta_rows = (\<lambda>dt. []), last_update = (\<lambda>v dt. 0), in_progress = (\<lambda>v. False),
      logged = (\<lambda>dt. []), applied = (\<lambda>v dt. {#})\<rparr>"

inductive reachable :: "tracking \<Rightarrow> hazard set \<Rightarrow> 'r refresh_state \<Rightarrow> bool" for T :: tracking and H :: "hazard set" where
  start: "reachable T H initial_state"
| step: "reachable T H s \<Longrightarrow> refresh_step T H s s' \<Longrightarrow> reachable T H s'"

end
