(* ===== verification/Refresh_Exactly_Once.thy ===== *)
theory Refresh_Exactly_Once
  imports Refresh_Protocol
begin

text \<open>
  What the refresh protocol guarantees: the locks keep writers and refreshes of a delta table
  apart, the cursors never pass a row that is still needed, and every logged row is applied
  exactly once; and the four ways in which the code can leave this path.
\<close>

section \<open>Locks\<close>

lemma lock_all_owner:
  "lock_all t names ms = Some ms' \<Longrightarrow>
     (\<forall>m. mutex_owner ms' m = (if m \<in> set names then Some t else mutex_owner ms m)) \<and>
     (\<forall>m \<in> set names. mutex_owner ms m = None)"
proof (induction names arbitrary: ms)
  case (Cons n names)
  obtain ms1 where ms1: "lock_mutex t n ms = Some ms1" "lock_all t names ms1 = Some ms'"
    using Cons.prems by (auto split: option.splits)
  note first = refresh_locks.lock_owner [OF ms1(1)] refresh_locks.lock_free [OF ms1(1)]
  have "n \<notin> set names" using Cons.IH [OF ms1(2)] first by auto
  then show ?case using Cons.IH [OF ms1(2)] first by (auto split: if_splits)
qed simp

lemma unlock_all_owner:
  "mutex_owner (unlock_all names ms) m = (if m \<in> set names then None else mutex_owner ms m)"
  by (induction names arbitrary: ms) (simp_all add: unlock_all_def refresh_locks.unlock_owner)

fun needs :: "tracking \<Rightarrow> 'r activity \<Rightarrow> mutex_name set" where
  "needs T Idle = {}"
| "needs T (WritingDelta dt r) = {DeltaMutex dt}"
| "needs T (ChainedRefresh dt r) = {}"
| "needs T (Refreshing v now) = set (refresh_mutexes T v)"
| "needs T (CrossRefreshing v now) = set (refresh_mutexes T v)"
| "needs T (CrossApplied v) = set (refresh_mutexes T v)"
| "needs T (Recovering v now) = set (refresh_mutexes T v)"

lemma view_mutex_needed [simp]: "ViewMutex v \<in> set (refresh_mutexes T v)"
  by (simp add: refresh_mutexes_def)

lemma delta_mutex_needed [simp]: "DeltaMutex dt \<in> set (refresh_mutexes T v) \<longleftrightarrow> dt \<in> set (sources T v)"
  by (auto simp: refresh_mutexes_def set_sorted_delta_tables)

definition owns :: "tracking \<Rightarrow> (mutex_name \<Rightarrow> thread option) \<Rightarrow> (thread \<Rightarrow> 'r activity) \<Rightarrow> bool" where
  "owns T own act \<longleftrightarrow> (\<forall>t m. m \<in> needs T (act t) \<longrightarrow> own m = Some t)"

lemma owns_acquire:
  assumes "owns T own act" "\<And>m. own' m = (if m \<in> N then Some t else own m)" "\<And>m. m \<in> N \<Longrightarrow> own m = None"
    "act t = Idle" "needs T a = N"
  shows "owns T own' (act(t := a))"
  using assms unfolding owns_def by (metis fun_upd_apply option.distinct(1))

lemma owns_release:
  assumes "owns T own act" "\<And>m. own' m = (if m \<in> N then None else own m)" "needs T (act t) = N"
  shows "owns T own' (act(t := Idle))"
  using assms unfolding owns_def by (metis fun_upd_apply needs.simps(1) empty_iff option.inject)

lemma owns_change:
  "owns T own act \<Longrightarrow> act t = CrossRefreshing v now \<Longrightarrow> owns T own (act(t := CrossApplied v))"
  "owns T own act \<Longrightarrow> act t = Idle \<Longrightarrow> owns T own (act(t := ChainedRefresh dt r))"
  "owns T own act \<Longrightarrow> act t = ChainedRefresh dt r \<Longrightarrow> owns T own (act(t := Idle))"
  by (auto simp: owns_def)

lemma release_view_owns:
  "owns T (mutex_owner (held_mutexes s)) (activity s) \<Longrightarrow>
   needs T (activity s t) = set (refresh_mutexes T v) \<Longrightarrow>
     owns T (mutex_owner (unlock_all (refresh_mutexes T v) (held_mutexes s))) ((activity s)(t := Idle))"
  by (erule owns_release) (auto simp: unlock_all_owner)

lemma lock_all_owns:
  "owns T (mutex_owner (held_mutexes s)) (activity s) \<Longrightarrow>
   lock_all t (refresh_mutexes T v) (held_mutexes s) = Some ms \<Longrightarrow> activity s t = Idle \<Longrightarrow>
   needs T a = set (refresh_mutexes T v) \<Longrightarrow> owns T (mutex_owner ms) ((activity s)(t := a))"
  by (erule owns_acquire) (use lock_all_owner in \<open>auto split: if_splits\<close>)

lemma lock_mutex_owns:
  "owns T (mutex_owner (held_mutexes s)) (activity s) \<Longrightarrow>
   lock_mutex t (DeltaMutex dt) (held_mutexes s) = Some ms \<Longrightarrow> activity s t = Idle \<Longrightarrow>
     owns T (mutex_owner ms) ((activity s)(t := WritingDelta dt r))"
  by (erule owns_acquire [where N = "{DeltaMutex dt}"])
    (auto simp: refresh_locks.lock_owner refresh_locks.lock_free)

lemma unlock_mutex_owns:
  "owns T (mutex_owner (held_mutexes s)) (activity s) \<Longrightarrow> activity s t = WritingDelta dt r \<Longrightarrow>
     owns T (mutex_owner (unlock_mutex (DeltaMutex dt) (held_mutexes s))) ((activity s)(t := Idle))"
  by (erule owns_release [where N = "{DeltaMutex dt}"]) (auto simp: refresh_locks.unlock_owner)

lemmas refresh_defs = set_activity_def log_row_def release_view_def incremental_refresh_def advance_cursors_def
  clean_sources_def apply_deltas_def BuildRecomputeQuery_def

lemma owns_step:
  "refresh_step T H s s' \<Longrightarrow> owns T (mutex_owner (held_mutexes s)) (activity s) \<Longrightarrow>
     owns T (mutex_owner (held_mutexes s')) (activity s')"
proof (induction rule: refresh_step.induct)
  case (cross_fail s t v now)
  then have "needs T (activity s t) = set (refresh_mutexes T v)" by auto
  from release_view_owns [OF cross_fail(2) this] show ?case by (simp add: refresh_defs fun_upd_def)
qed (auto simp: refresh_defs 
    intro: release_view_owns lock_all_owns lock_mutex_owns unlock_mutex_owns owns_change)

text \<open>Two threads never work on the same view, and a delta table that a refresh reads is not written.\<close>

lemma owns_disjoint: "owns T own act \<Longrightarrow> t \<noteq> u \<Longrightarrow> needs T (act t) \<inter> needs T (act u) = {}"
  unfolding owns_def by (metis disjoint_iff option.inject)

section \<open>Timestamps and cursors\<close>

definition table_ok :: "tracking \<Rightarrow> 'r refresh_state \<Rightarrow> string \<Rightarrow> bool" where
  "table_ok T s dt \<longleftrightarrow>
     sorted_wrt (<) (map openivm_timestamp (logged s dt)) \<and>
     (\<forall>r \<in> set (logged s dt). openivm_timestamp r \<le> clock s) \<and>
     (\<exists>k. delta_rows s dt = filter (\<lambda>r. k \<le> openivm_timestamp r) (logged s dt) \<and>
          (\<forall>c \<in> set (cursors T s dt). k \<le> c)) \<and>
     (\<forall>c \<in> set (cursors T s dt). c \<le> Suc (clock s))"

text \<open>A transaction of a refresh started after every row of its tables was logged, and after the
  cursors of its view were set.\<close>

definition after_rows :: "tracking \<Rightarrow> 'r refresh_state \<Rightarrow> string \<Rightarrow> nat \<Rightarrow> bool" where
  "after_rows T s v now \<longleftrightarrow>
     v \<in> set (tracked_views T) \<and> now \<le> clock s \<and>
     (\<forall>dt \<in> set (sources T v). last_update s v dt \<le> now \<and> (\<forall>r \<in> set (logged s dt). openivm_timestamp r < now))"

fun activity_ok :: "tracking \<Rightarrow> 'r refresh_state \<Rightarrow> 'r activity \<Rightarrow> bool" where
  "activity_ok T s Idle \<longleftrightarrow> True"
| "activity_ok T s (WritingDelta dt r) \<longleftrightarrow>
     openivm_timestamp r \<le> clock s \<and> (\<forall>q \<in> set (logged s dt). openivm_timestamp q < openivm_timestamp r) \<and>
     (\<forall>c \<in> set (cursors T s dt). c \<le> openivm_timestamp r)"
| "activity_ok T s (ChainedRefresh dt r) \<longleftrightarrow> False"
| "activity_ok T s (Refreshing v now) \<longleftrightarrow> after_rows T s v now"
| "activity_ok T s (CrossRefreshing v now) \<longleftrightarrow> after_rows T s v now"
| "activity_ok T s (CrossApplied v) \<longleftrightarrow> v \<in> set (tracked_views T)"
| "activity_ok T s (Recovering v now) \<longleftrightarrow> after_rows T s v now"

definition times_ok :: "tracking \<Rightarrow> 'r refresh_state \<Rightarrow> bool" where
  "times_ok T s \<longleftrightarrow> (\<forall>dt. table_ok T s dt) \<and> (\<forall>t. activity_ok T s (activity s t))"

text \<open>A state whose clock has moved on.\<close>

lemma cursors_cong:
  "(\<And>v. dt \<in> set (sources T v) \<Longrightarrow> last_update s' v dt = last_update s v dt) \<Longrightarrow> cursors T s' dt = cursors T s dt"
  by (simp add: cursors_def)

lemma in_cursors:
  "c \<in> set (cursors T s dt) \<longleftrightarrow> (\<exists>v \<in> set (tracked_views T). dt \<in> set (sources T v) \<and> c = last_update s v dt)"
  by (auto simp: cursors_def)

lemma table_ok_later:
  assumes "table_ok T s dt" "clock s \<le> clock s'" "logged s' dt = logged s dt" "delta_rows s' dt = delta_rows s dt"
    "cursors T s' dt = cursors T s dt"
  shows "table_ok T s' dt"
proof -
  have "openivm_timestamp r \<le> clock s'" if "r \<in> set (logged s dt)" for r
    using assms(1,2) that unfolding table_ok_def by (meson order_trans)
  moreover have "c \<le> Suc (clock s')" if "c \<in> set (cursors T s dt)" for c
    using assms(1,2) that unfolding table_ok_def by (meson Suc_le_mono order_trans)
  ultimately show ?thesis using assms(1,3-5) unfolding table_ok_def by simp
qed

lemma activity_ok_later:
  assumes "activity_ok T s a" "clock s \<le> clock s'"
    "\<And>dt. DeltaMutex dt \<in> needs T a \<Longrightarrow> logged s' dt = logged s dt \<and> cursors T s' dt = cursors T s dt"
    "\<And>v dt. ViewMutex v \<in> needs T a \<Longrightarrow> last_update s' v dt = last_update s v dt"
  shows "activity_ok T s' a"
  using assms by (cases a) (auto simp: after_rows_def)

lemma next_cursor_upper:
  assumes "table_ok T s dt" "now \<le> c" "clock s \<le> c"
  shows "next_cursor now (delta_rows s dt) \<le> Suc c"
proof (cases "delta_rows s dt = []")
  case False
  have "openivm_timestamp r \<le> c" if "r \<in> set (delta_rows s dt)" for r
    using assms that unfolding table_ok_def by fastforce
  with False show ?thesis by (simp add: next_cursor_def)
qed (use assms in \<open>simp add: next_cursor_def\<close>)

lemma next_cursor_above:
  assumes "table_ok T s dt" "\<And>r. r \<in> set (logged s dt) \<Longrightarrow> openivm_timestamp r < now" "r \<in> set (logged s dt)"
  shows "openivm_timestamp r < next_cursor now (delta_rows s dt)"
proof (cases "delta_rows s dt = []")
  case False
  obtain k where k: "delta_rows s dt = filter (\<lambda>r. k \<le> openivm_timestamp r) (logged s dt)"
    using assms(1) by (auto simp: table_ok_def)
  obtain q where "q \<in> set (delta_rows s dt)" using False by (cases "delta_rows s dt") auto
  then have q: "q \<in> set (delta_rows s dt)" "k \<le> openivm_timestamp q" by (auto simp: k)
  have "openivm_timestamp r \<le> Max (openivm_timestamp ` set (delta_rows s dt))"
  proof (cases "k \<le> openivm_timestamp r")
    case True
    then show ?thesis using assms(3) by (intro Max_ge) (auto simp: k)
  next
    case False
    then have "openivm_timestamp r \<le> openivm_timestamp q" using q(2) by simp
    also have "\<dots> \<le> Max (openivm_timestamp ` set (delta_rows s dt))" using q(1) by (intro Max_ge) auto
    finally show ?thesis .
  qed
  with False show ?thesis by (simp add: next_cursor_def)
qed (use assms in \<open>simp add: next_cursor_def\<close>)

text \<open>Moving a cursor of a table, and cleaning the table up.\<close>

lemma table_ok_move:
  assumes "table_ok T s dt" "clock s \<le> clock s'" "logged s' dt = logged s dt" "delta_rows s' dt = delta_rows s dt"
    and cursors: "\<And>c. c \<in> set (cursors T s' dt) \<Longrightarrow> c \<in> set (cursors T s dt) \<or> c = n"
    and n: "n \<le> Suc (clock s')" "last_update s v dt \<in> set (cursors T s dt)" "last_update s v dt \<le> now"
      "n = now \<or> n = next_cursor now (delta_rows s dt)"
  shows "table_ok T s' dt"
proof -
  obtain k where k: "delta_rows s dt = filter (\<lambda>r. k \<le> openivm_timestamp r) (logged s dt)"
      "\<And>c. c \<in> set (cursors T s dt) \<Longrightarrow> k \<le> c"
    using assms(1) by (auto simp: table_ok_def)
  have "k \<le> now" using k(2) [OF n(2)] n(3) by simp
  moreover have "k \<le> Max (openivm_timestamp ` set (delta_rows s dt))" if "delta_rows s dt \<noteq> []"
  proof -
    have "last (delta_rows s dt) \<in> set (delta_rows s dt)" using that by simp
    then obtain q where "q \<in> set (delta_rows s dt)" by blast
    moreover from this have "k \<le> openivm_timestamp q" by (simp add: k(1))
    ultimately show ?thesis by (meson Max_ge finite_imageI finite_set image_eqI order_trans)
  qed
  ultimately have "k \<le> n" using n(4) by (auto simp: next_cursor_def)
  then have "\<forall>c \<in> set (cursors T s' dt). k \<le> c" using cursors k(2) by blast
  moreover have "c \<le> Suc (clock s')" if "c \<in> set (cursors T s' dt)" for c
    using cursors [OF that] n(1) assms(1,2) unfolding table_ok_def by (meson Suc_le_mono order_trans)
  moreover have "openivm_timestamp r \<le> clock s'" if "r \<in> set (logged s dt)" for r
    using assms(1,2) that unfolding table_ok_def by (meson order_trans)
  ultimately show ?thesis using assms(1,3,4) k(1) unfolding table_ok_def by auto
qed

lemma table_ok_clean:
  assumes "table_ok T s dt" "clock s' = clock s" "logged s' dt = logged s dt" "cursors T s' dt = cursors T s dt"
    "delta_rows s' dt = BuildDeltaCleanupSQL T s dt"
  shows "table_ok T s' dt"
proof -
  obtain k where k: "delta_rows s dt = filter (\<lambda>r. k \<le> openivm_timestamp r) (logged s dt)"
      "\<forall>c \<in> set (cursors T s dt). k \<le> c"
    using assms(1) by (auto simp: table_ok_def)
  show ?thesis
  proof (cases "cursors T s dt = []")
    case True
    with assms show ?thesis by (simp add: table_ok_def BuildDeltaCleanupSQL_def)
  next
    case False
    let ?m = "Min (set (cursors T s dt))"
    have "k \<le> ?m" using False k(2) by simp
    then have "delta_rows s' dt = filter (\<lambda>r. ?m \<le> openivm_timestamp r) (logged s' dt)"
      unfolding assms(3,5) BuildDeltaCleanupSQL_def k(1) filter_filter if_not_P [OF False]
      by (intro filter_cong refl) linarith
    moreover have "\<forall>c \<in> set (cursors T s' dt). ?m \<le> c" by (simp add: assms(4))
    ultimately show ?thesis using assms(1-4) unfolding table_ok_def by auto
  qed
qed

lemma times_ok_refresh:
  assumes "times_ok T s" "owns T (mutex_owner (held_mutexes s)) (activity s)"
    and mine: "needs T (activity s t) = set (refresh_mutexes T v)"
    and same: "logged s' = logged s" "clock s \<le> clock s'"
      "\<And>v' dt. v' \<noteq> v \<or> dt \<notin> set (sources T v) \<Longrightarrow> last_update s' v' dt = last_update s v' dt"
      "\<And>dt. dt \<notin> set (sources T v) \<Longrightarrow> delta_rows s' dt = delta_rows s dt"
    and tables: "\<And>dt. dt \<in> set (sources T v) \<Longrightarrow> table_ok T s' dt"
    and act: "activity s' = (activity s)(t := a)" "activity_ok T s' a"
  shows "times_ok T s'"
  unfolding times_ok_def
proof (intro conjI allI)
  have cursors: "cursors T s' dt = cursors T s dt" if "dt \<notin> set (sources T v)" for dt
    using that same(3) by (intro cursors_cong) auto
  show "table_ok T s' dt" for dt
  proof (cases "dt \<in> set (sources T v)")
    case False
    have "table_ok T s dt" using assms(1) by (simp add: times_ok_def)
    then show ?thesis
      by (rule table_ok_later) (simp_all add: same(1,2) same(4) [OF False] cursors [OF False])
  qed (rule tables)
  show "activity_ok T s' (activity s' u)" for u
  proof (cases "u = t")
    case False
    have disjoint: "needs T (activity s u) \<inter> set (refresh_mutexes T v) = {}"
      using owns_disjoint [OF assms(2) False] mine by simp
    have "activity_ok T s' (activity s u)"
    proof (rule activity_ok_later [OF _ same(2)])
      show "activity_ok T s (activity s u)" using assms(1) by (simp add: times_ok_def)
      show "logged s' dt = logged s dt \<and> cursors T s' dt = cursors T s dt"
        if "DeltaMutex dt \<in> needs T (activity s u)" for dt
      proof -
        have "dt \<notin> set (sources T v)" using disjoint that by (metis delta_mutex_needed disjoint_iff)
        then show ?thesis by (simp add: same(1) cursors)
      qed
      show "last_update s' v' dt = last_update s v' dt" if "ViewMutex v' \<in> needs T (activity s u)" for v' dt
      proof -
        have "v' \<noteq> v" using disjoint that by (metis view_mutex_needed disjoint_iff)
        then show ?thesis by (simp add: same(3))
      qed
    qed
    with False show ?thesis by (simp add: act(1))
  qed (simp add: act)
qed

lemma last_update_in_cursors:
  "v \<in> set (tracked_views T) \<Longrightarrow> dt \<in> set (sources T v) \<Longrightarrow> last_update s v dt \<in> set (cursors T s dt)"
  by (auto simp: in_cursors)

lemma incremental_refresh_times:
  assumes "times_ok T s" "owns T (mutex_owner (held_mutexes s)) (activity s)"
    "activity s t = Refreshing v now"
  shows "times_ok T (release_view T v t (incremental_refresh T v now s))"
proof (rule times_ok_refresh [OF assms(1,2), where t = t and v = v and a = Idle])
  have after: "after_rows T s v now" using assms(1,3) unfolding times_ok_def by (metis activity_ok.simps(4))
  fix dt assume dt: "dt \<in> set (sources T v)"
  let ?c = "clean_sources T v (apply_deltas T v s)"
  have "table_ok T s dt" using assms(1) by (simp add: times_ok_def)
  then have clean: "table_ok T ?c dt"
    by (rule table_ok_clean) (use dt in \<open>simp_all add: refresh_defs BuildDeltaCleanupSQL_def cursors_def\<close>)
  show "table_ok T (release_view T v t (incremental_refresh T v now s)) dt"
  proof (rule table_ok_move [OF clean, where v = v and now = now and n = "next_cursor now (delta_rows ?c dt)"])
    show "c \<in> set (cursors T ?c dt) \<or> c = next_cursor now (delta_rows ?c dt)"
      if "c \<in> set (cursors T (release_view T v t (incremental_refresh T v now s)) dt)" for c
      using that dt by (auto simp: in_cursors refresh_defs split: if_splits)
    have "now \<le> clock ?c" using after by (simp add: after_rows_def refresh_defs)
    from next_cursor_upper [OF clean this order.refl]
    show "next_cursor now (delta_rows ?c dt) \<le> Suc (clock (release_view T v t (incremental_refresh T v now s)))"
      by (simp add: refresh_defs)
    show "last_update ?c v dt \<in> set (cursors T ?c dt)"
      using after dt by (intro last_update_in_cursors) (auto simp: after_rows_def)
    show "last_update ?c v dt \<le> now" using after dt by (simp add: after_rows_def refresh_defs)
  qed (use dt in \<open>auto simp: refresh_defs\<close>)
qed (use assms(3) in \<open>auto simp: refresh_defs\<close>)

lemma recompute_times:
  assumes "times_ok T s" "owns T (mutex_owner (held_mutexes s)) (activity s)"
    "activity s t = Refreshing v now \<or> activity s t = Recovering v now"
  shows "times_ok T (release_view T v t (BuildRecomputeQuery T v now s))"
proof (rule times_ok_refresh [OF assms(1,2), where t = t and v = v and a = Idle])
  have after: "after_rows T s v now" using assms(1,3) unfolding times_ok_def by (metis activity_ok.simps(4,7))
  show "needs T (activity s t) = set (refresh_mutexes T v)" using assms(3) by auto
  fix dt assume dt: "dt \<in> set (sources T v)"
  let ?u = "s\<lparr>applied := (applied s)(v := (\<lambda>dt. if dt \<in> set (sources T v) then base_rows s dt else applied s v dt)),
          last_update := (last_update s)(v := (\<lambda>dt. if dt \<in> set (sources T v) then now else last_update s v dt))\<rparr>"
  have table: "table_ok T s dt" using assms(1) by (simp add: times_ok_def)
  have "table_ok T ?u dt"
  proof (rule table_ok_move [OF table, where v = v and now = now and n = now])
    show "c \<in> set (cursors T s dt) \<or> c = now" if "c \<in> set (cursors T ?u dt)" for c
      using that by (auto simp: in_cursors split: if_splits)
    show "now \<le> Suc (clock ?u)" using after by (simp add: after_rows_def)
    show "last_update s v dt \<in> set (cursors T s dt)"
      using after dt by (intro last_update_in_cursors) (auto simp: after_rows_def)
    show "last_update s v dt \<le> now" using after dt by (simp add: after_rows_def)
  qed simp_all
  then show "table_ok T (release_view T v t (BuildRecomputeQuery T v now s)) dt"
    by (rule table_ok_clean) (use dt in \<open>simp_all add: refresh_defs BuildDeltaCleanupSQL_def cursors_def\<close>)
qed (simp_all add: refresh_defs)

lemma cross_post_times:
  assumes "times_ok T s" "owns T (mutex_owner (held_mutexes s)) (activity s)"
    "activity s t = CrossApplied v" "clock s < now"
  shows "times_ok T (release_view T v t ((advance_cursors T v now s)\<lparr>clock := now, in_progress := p\<rparr>))"
proof (rule times_ok_refresh [OF assms(1,2), where t = t and v = v and a = Idle])
  let ?s = "release_view T v t ((advance_cursors T v now s)\<lparr>clock := now, in_progress := p\<rparr>)"
  have v: "v \<in> set (tracked_views T)" using assms(1,3) unfolding times_ok_def by (metis activity_ok.simps(6))
  fix dt assume dt: "dt \<in> set (sources T v)"
  have table: "table_ok T s dt" using assms(1) by (simp add: times_ok_def)
  have "last_update s v dt \<in> set (cursors T s dt)" by (rule last_update_in_cursors [OF v dt])
  moreover from this have "last_update s v dt \<le> now"
    using table assms(4) unfolding table_ok_def by fastforce
  ultimately show "table_ok T ?s dt"
  proof (intro table_ok_move [OF table, where v = v and now = now and n = "next_cursor now (delta_rows s dt)"])
    show "c \<in> set (cursors T s dt) \<or> c = next_cursor now (delta_rows s dt)" if "c \<in> set (cursors T ?s dt)" for c
      using that dt by (auto simp: in_cursors refresh_defs split: if_splits)
    show "next_cursor now (delta_rows s dt) \<le> Suc (clock ?s)"
      using next_cursor_upper [OF table order.refl] assms(4) by (simp add: refresh_defs)
  qed (use assms(4) in \<open>auto simp: refresh_defs\<close>)
qed (use assms(3,4) in \<open>auto simp: refresh_defs\<close>)

lemma times_ok_begin:
  assumes "times_ok T s" "clock s < now"
    and same: "logged s' = logged s" "clock s' = now" "last_update s' = last_update s" "delta_rows s' = delta_rows s"
    and act: "activity s' = (activity s)(t := a)"
      "(\<exists>v. v \<in> set (tracked_views T) \<and> a \<in> {Refreshing v now, CrossRefreshing v now, Recovering v now}) \<or>
       (\<exists>dt r. a = WritingDelta dt r \<and> openivm_timestamp r = now)"
  shows "times_ok T s'"
  unfolding times_ok_def
proof (intro conjI allI)
  have cursors: "cursors T s' dt = cursors T s dt" for dt by (simp add: cursors_def same)
  have table: "table_ok T s dt" for dt using assms(1) by (simp add: times_ok_def)
  show "table_ok T s' dt" for dt
    by (rule table_ok_later [OF table]) (use assms(2) in \<open>simp_all add: same cursors\<close>)
  have rows: "openivm_timestamp r < now" if "r \<in> set (logged s dt)" for r dt
    using table [of dt] that assms(2) unfolding table_ok_def by fastforce
  have bound: "c \<le> now" if "c \<in> set (cursors T s dt)" for c dt
    using table [of dt] that assms(2) unfolding table_ok_def by fastforce
  show "activity_ok T s' (activity s' u)" for u
  proof (cases "u = t")
    case True
    from act(2) show ?thesis
    proof (elim disjE exE conjE)
      fix v assume v: "v \<in> set (tracked_views T)" "a \<in> {Refreshing v now, CrossRefreshing v now, Recovering v now}"
      have "last_update s v dt \<le> now" if "dt \<in> set (sources T v)" for dt
        by (rule bound [OF last_update_in_cursors [OF v(1) that]])
      with v(1) have "after_rows T s' v now" using rows by (simp add: after_rows_def same)
      with v True show ?thesis by (auto simp: act(1))
    next
      fix dt r assume "a = WritingDelta dt r" "openivm_timestamp r = now"
      with True show ?thesis using rows bound by (simp add: act(1) same cursors)
    qed
  next
    case False
    have "activity_ok T s (activity s u)" using assms(1) by (simp add: times_ok_def)
    then have "activity_ok T s' (activity s u)"
      by (rule activity_ok_later) (use assms(2) in \<open>simp_all add: same cursors\<close>)
    with False show ?thesis by (simp add: act(1))
  qed
qed

lemma table_ok_log:
  assumes "table_ok T s dt" "logged s' dt = logged s dt @ [r]" "delta_rows s' dt = delta_rows s dt @ [r]"
    "clock s' = clock s" "cursors T s' dt = cursors T s dt" "openivm_timestamp r \<le> clock s"
    "\<forall>q \<in> set (logged s dt). openivm_timestamp q < openivm_timestamp r"
    "\<forall>c \<in> set (cursors T s dt). c \<le> openivm_timestamp r"
  shows "table_ok T s' dt"
proof -
  obtain k where k: "delta_rows s dt = filter (\<lambda>r. k \<le> openivm_timestamp r) (logged s dt)"
      "\<forall>c \<in> set (cursors T s dt). k \<le> c"
    using assms(1) by (auto simp: table_ok_def)
  let ?k = "min k (openivm_timestamp r)"
  have "filter (\<lambda>r. k \<le> openivm_timestamp r) (logged s dt)
      = filter (\<lambda>q. ?k \<le> openivm_timestamp q) (logged s dt)"
    by (rule filter_cong) (use assms(7) in \<open>auto simp: min_def\<close>)
  then have "delta_rows s' dt = filter (\<lambda>q. ?k \<le> openivm_timestamp q) (logged s' dt)"
    by (simp add: assms(2,3) k(1))
  moreover have "\<forall>c \<in> set (cursors T s' dt). ?k \<le> c" using k(2) assms(5) by auto
  moreover have "sorted_wrt (<) (map openivm_timestamp (logged s' dt))"
    using assms(1,7) by (auto simp: assms(2) table_ok_def sorted_wrt_append)
  ultimately show ?thesis
    using assms(1,6) unfolding table_ok_def assms(2,4,5) by auto
qed

lemma write_commit_times:
  assumes "times_ok T s" "owns T (mutex_owner (held_mutexes s)) (activity s)" "activity s t = WritingDelta dt r"
  shows "times_ok T (set_activity t Idle
     (log_row dt r (s\<lparr>held_mutexes := unlock_mutex (DeltaMutex dt) (held_mutexes s),
                      executing := (executing s)(dt := add_mset (data_columns r) (executing s dt))\<rparr>)))"
    (is "times_ok T ?s")
  unfolding times_ok_def
proof (intro conjI allI)
  have cursors: "cursors T ?s d = cursors T s d" for d by (simp add: cursors_def refresh_defs)
  have table: "table_ok T s d" for d using assms(1) by (simp add: times_ok_def)
  have "activity_ok T s (WritingDelta dt r)" using assms(1,3) by (metis times_ok_def)
  then have row: "openivm_timestamp r \<le> clock s"
    "\<forall>q \<in> set (logged s dt). openivm_timestamp q < openivm_timestamp r"
    "\<forall>c \<in> set (cursors T s dt). c \<le> openivm_timestamp r" by simp_all
  show "table_ok T ?s d" for d
  proof (cases "d = dt")
    case True
    show ?thesis unfolding True
      by (rule table_ok_log [OF table _ _ _ cursors row]) (simp_all add: refresh_defs)
  next
    case False
    then show ?thesis by (intro table_ok_later [OF table]) (simp_all add: refresh_defs cursors_def)
  qed
  show "activity_ok T ?s (activity ?s u)" for u
  proof (cases "u = t")
    case False
    have disjoint: "needs T (activity s u) \<inter> {DeltaMutex dt} = {}"
      using owns_disjoint [OF assms(2) False] assms(3) by simp
    have "activity_ok T s (activity s u)" using assms(1) by (simp add: times_ok_def)
    then have "activity_ok T ?s (activity s u)"
      by (rule activity_ok_later) (use disjoint in \<open>auto simp: refresh_defs cursors_def\<close>)
    with False show ?thesis by (simp add: refresh_defs)
  qed (simp add: refresh_defs)
qed

lemma times_ok_same:
  assumes "times_ok T s" "logged s' = logged s" "clock s' = clock s" "last_update s' = last_update s"
    "delta_rows s' = delta_rows s" "\<And>u. activity_ok T s (activity s u) \<Longrightarrow> activity_ok T s (activity s' u)"
  shows "times_ok T s'"
proof -
  have "cursors T s' dt = cursors T s dt" for dt by (simp add: cursors_def assms)
  then have "table_ok T s' dt = table_ok T s dt" for dt
    by (simp add: table_ok_def assms)
  moreover have "activity_ok T s' a = activity_ok T s a" for a
    using \<open>\<And>dt. cursors T s' dt = cursors T s dt\<close> by (cases a) (simp_all add: after_rows_def assms)
  ultimately show ?thesis using assms(1,6) by (simp add: times_ok_def)
qed

lemma times_ok_step:
  "refresh_step T {} s s' \<Longrightarrow> owns T (mutex_owner (held_mutexes s)) (activity s) \<Longrightarrow> times_ok T s \<Longrightarrow> times_ok T s'"
proof (induction rule: refresh_step.induct)
  case (write_begin s t now dt ms r)
  show ?case
    by (rule times_ok_begin [OF write_begin(5,2)]) (auto simp: refresh_defs)
next
  case (write_commit s t dt r)
  show ?case by (rule write_commit_times [OF write_commit(3,2,1)])
next
  case (refresh_begin s t v now ms)
  show ?case
    by (rule times_ok_begin [OF refresh_begin(7,4)]) (use refresh_begin(2) in \<open>auto simp: refresh_defs\<close>)
next
  case (cross_begin s t v now ms)
  show ?case
    by (rule times_ok_begin [OF cross_begin(7,4)]) (use cross_begin(2) in \<open>auto simp: refresh_defs\<close>)
next
  case (recover_begin s t v now ms)
  show ?case
    by (rule times_ok_begin [OF recover_begin(7,4)]) (use recover_begin(2) in \<open>auto simp: refresh_defs\<close>)
next
  case (cross_data s t v now)
  then have "after_rows T s v now" unfolding times_ok_def by (metis activity_ok.simps(5))
  then have v: "v \<in> set (tracked_views T)" by (simp add: after_rows_def)
  show ?case
    by (rule times_ok_same [OF cross_data(3)]) (use v in \<open>simp_all add: refresh_defs\<close>)
next
  case (chained_commit s t dt r)
  then have "activity_ok T s (ChainedRefresh dt r)" unfolding times_ok_def by metis
  then show ?case by simp
next
  case (refresh_commit s t v now)
  show ?case by (rule incremental_refresh_times [OF refresh_commit(3,2,1)])
next
  case (recompute_commit s t v now)
  show ?case by (rule recompute_times [OF recompute_commit(4,3)]) (simp add: recompute_commit(1))
next
  case (recover_commit s t v now)
  show ?case by (rule recompute_times [OF recover_commit(4,3)]) (simp add: recover_commit(1))
next
  case (cross_post s t v now)
  show ?case by (rule cross_post_times [OF cross_post(4,3,1,2)])
next
  case (statement_commit r s dt)
  show ?case by (rule times_ok_same [OF statement_commit(3)]) simp_all
next
  case (refresh_fail s t v now)
  show ?case by (rule times_ok_same [OF refresh_fail(3)]) (simp_all add: refresh_defs)
next
  case (cross_fail s t v now)
  show ?case by (rule times_ok_same [OF cross_fail(3)]) (simp_all add: refresh_defs)
qed simp_all

section \<open>Every row exactly once\<close>

text \<open>A view is consistent when what it contains and what is pending make up what was logged.\<close>

definition consistent :: "tracking \<Rightarrow> 'r refresh_state \<Rightarrow> string \<Rightarrow> bool" where
  "consistent T s v \<longleftrightarrow>
     (\<forall>dt \<in> set (sources T v). applied s v dt + contents (delta_scan s v dt) = contents (logged s dt))"

definition caught_up :: "tracking \<Rightarrow> 'r refresh_state \<Rightarrow> string \<Rightarrow> bool" where
  "caught_up T s v \<longleftrightarrow> (\<forall>dt \<in> set (sources T v). applied s v dt = contents (logged s dt))"

text \<open>A view in the middle of a refresh across catalogs is marked by its flag, and one in recovery
  by the thread that recovers it; every other view is settled.\<close>

definition settled :: "'r refresh_state \<Rightarrow> string \<Rightarrow> bool" where
  "settled s v \<longleftrightarrow> \<not> in_progress s v \<and> (\<forall>t now. activity s t \<noteq> Recovering v now)"

fun content_ok :: "tracking \<Rightarrow> 'r refresh_state \<Rightarrow> 'r activity \<Rightarrow> bool" where
  "content_ok T s (Refreshing v now) \<longleftrightarrow> consistent T s v"
| "content_ok T s (CrossRefreshing v now) \<longleftrightarrow> in_progress s v \<and> consistent T s v"
| "content_ok T s (CrossApplied v) \<longleftrightarrow> in_progress s v \<and> caught_up T s v"
| "content_ok T s a \<longleftrightarrow> True"

definition contents_ok :: "tracking \<Rightarrow> 'r refresh_state \<Rightarrow> bool" where
  "contents_ok T s \<longleftrightarrow>
     (\<forall>v \<in> set (tracked_views T). settled s v \<longrightarrow> consistent T s v) \<and>
     (\<forall>t. content_ok T s (activity s t)) \<and>
     (\<forall>dt. base_rows s dt + executing s dt = contents (logged s dt))"

lemma contents_simps [simp]:
  "contents [] = {#}" "contents (rs @ qs) = contents rs + contents qs" "contents [r] = {#data_columns r#}"
  by (simp_all add: contents_def)

fun works_on :: "'r activity \<Rightarrow> string option" where
  "works_on (Refreshing v now) = Some v"
| "works_on (CrossRefreshing v now) = Some v"
| "works_on (CrossApplied v) = Some v"
| "works_on (Recovering v now) = Some v"
| "works_on a = None"

lemma works_on_needs: "works_on a = Some v \<Longrightarrow> needs T a = set (refresh_mutexes T v)"
  by (cases a) auto

lemma works_on_tracked: "works_on a = Some v \<Longrightarrow> activity_ok T s a \<Longrightarrow> v \<in> set (tracked_views T)"
  by (cases a) (auto simp: after_rows_def)

text \<open>A step of thread \<open>t\<close> that concerns only view \<open>v\<close>, which no other thread works on.\<close>

lemma contents_ok_view:
  assumes "contents_ok T s" "times_ok T s"
    and alone: "\<And>u. u \<noteq> t \<Longrightarrow> works_on (activity s u) \<noteq> Some v" "works_on (activity s t) \<in> {None, Some v}"
    and same: "activity s' = (activity s)(t := a)" "logged s' = logged s" "base_rows s' = base_rows s"
      "executing s' = executing s"
      "\<And>v'. v' \<noteq> v \<Longrightarrow> in_progress s' v' = in_progress s v' \<and> applied s' v' = applied s v'"
    and scans: "\<And>v' dt. v' \<noteq> v \<Longrightarrow> v' \<in> set (tracked_views T) \<Longrightarrow> dt \<in> set (sources T v') \<Longrightarrow>
        delta_scan s' v' dt = delta_scan s v' dt"
    and new: "settled s' v \<Longrightarrow> consistent T s' v" "content_ok T s' a"
  shows "contents_ok T s'"
proof -
  have view: "consistent T s' v' = consistent T s v'" "caught_up T s' v' = caught_up T s v'"
    if "v' \<noteq> v" "v' \<in> set (tracked_views T)" for v'
    using that same scans by (simp_all add: consistent_def caught_up_def)
  have "consistent T s' v'" if v': "v' \<in> set (tracked_views T)" "settled s' v'" for v'
  proof (cases "v' = v")
    case True
    then show ?thesis using new(1) v'(2) by simp
  next
    case False
    have "activity s u \<noteq> Recovering v' now" for u now
    proof (cases "u = t")
      case True
      then show ?thesis using alone(2) False by auto
    next
      case False
      then show ?thesis using v'(2) unfolding settled_def by (simp add: same(1)) (metis False fun_upd_other)
    qed
    moreover have "\<not> in_progress s v'" using v'(2) same(5) [OF False] by (simp add: settled_def)
    ultimately have "consistent T s v'" using assms(1) v'(1) unfolding contents_ok_def settled_def by blast
    then show ?thesis using view False v'(1) by simp
  qed
  moreover have "content_ok T s' (activity s' u)" for u
  proof (cases "u = t")
    case False
    have ok: "content_ok T s (activity s u)" "activity_ok T s (activity s u)"
      using assms(1,2) by (simp_all add: contents_ok_def times_ok_def)
    have "content_ok T s' (activity s u)"
    proof (cases "works_on (activity s u)")
      case None
      then show ?thesis by (cases "activity s u") simp_all
    next
      case (Some v')
      then have "v' \<noteq> v" "v' \<in> set (tracked_views T)" using alone(1) [OF False] works_on_tracked ok(2) by auto
      then show ?thesis using ok(1) view [of v'] same(5) [of v'] Some by (cases "activity s u") simp_all
    qed
    with False show ?thesis by (simp add: same(1))
  qed (simp add: same(1) new(2))
  moreover have "base_rows s' dt + executing s' dt = contents (logged s' dt)" for dt
    using assms(1) by (simp add: contents_ok_def same)
  ultimately show ?thesis by (simp add: contents_ok_def)
qed

lemma alone_holding:
  assumes "owns T (mutex_owner (held_mutexes s)) (activity s)" "works_on (activity s t) = Some v" "u \<noteq> t"
  shows "works_on (activity s u) \<noteq> Some v"
  using owns_disjoint [OF assms(1,3)] works_on_needs assms(2) by (metis disjoint_iff view_mutex_needed)

lemma alone_locking:
  assumes "owns T (mutex_owner (held_mutexes s)) (activity s)"
    "lock_all t (refresh_mutexes T v) (held_mutexes s) = Some ms"
  shows "works_on (activity s u) \<noteq> Some v"
proof
  assume "works_on (activity s u) = Some v"
  then have "mutex_owner (held_mutexes s) (ViewMutex v) = Some u"
    using assms(1) works_on_needs unfolding owns_def by (metis view_mutex_needed)
  then show False using lock_all_owner [OF assms(2)] by (metis view_mutex_needed option.distinct(1))
qed

text \<open>Cleaning up removes nothing that a view still has to read.\<close>

lemma clean_scan:
  assumes "v \<in> set (tracked_views T)" "dt \<in> set (sources T v)"
  shows "filter (\<lambda>r. last_update s v dt \<le> openivm_timestamp r) (BuildDeltaCleanupSQL T s dt) = delta_scan s v dt"
proof (cases "cursors T s dt = []")
  case False
  have "Min (set (cursors T s dt)) \<le> last_update s v dt"
    by (intro Min_le last_update_in_cursors assms) simp
  then have "(\<not> openivm_timestamp r < Min (set (cursors T s dt)) \<and> last_update s v dt \<le> openivm_timestamp r)
      = (last_update s v dt \<le> openivm_timestamp r)" for r
    by linarith
  then show ?thesis
    unfolding BuildDeltaCleanupSQL_def delta_scan_def if_not_P [OF False] filter_filter by (rule filter_cong [OF refl])
qed (simp add: BuildDeltaCleanupSQL_def delta_scan_def)

lemma clean_sources_scan:
  "v' \<in> set (tracked_views T) \<Longrightarrow> dt \<in> set (sources T v') \<Longrightarrow>
     delta_scan (clean_sources T v s) v' dt = delta_scan s v' dt"
  using clean_scan [of v' T dt s] by (simp add: delta_scan_def clean_sources_def)

lemma table_rows_logged: "table_ok T s dt \<Longrightarrow> r \<in> set (delta_rows s dt) \<Longrightarrow> r \<in> set (logged s dt)"
  by (auto simp: table_ok_def)

lemma cleaned_rows: "r \<in> set (BuildDeltaCleanupSQL T s dt) \<Longrightarrow> r \<in> set (delta_rows s dt)"
  by (auto simp: BuildDeltaCleanupSQL_def split: if_splits)

lemma incremental_refresh_contents:
  assumes "contents_ok T s" "times_ok T s" "owns T (mutex_owner (held_mutexes s)) (activity s)"
    "activity s t = Refreshing v now"
  shows "contents_ok T (release_view T v t (incremental_refresh T v now s))" (is "contents_ok T ?s")
proof (rule contents_ok_view [OF assms(1,2), where v = v and t = t and a = Idle])
  show "works_on (activity s u) \<noteq> Some v" if "u \<noteq> t" for u
    by (rule alone_holding [OF assms(3) _ that]) (simp add: assms(4))
  show "delta_scan ?s v' dt = delta_scan s v' dt"
    if "v' \<noteq> v" "v' \<in> set (tracked_views T)" "dt \<in> set (sources T v')" for v' dt
    using that(1) clean_sources_scan [OF that(2,3), of v "apply_deltas T v s"]
    by (simp add: delta_scan_def release_view_def incremental_refresh_def advance_cursors_def apply_deltas_def)
  show "consistent T ?s v"
    unfolding consistent_def
  proof
    fix dt assume dt: "dt \<in> set (sources T v)"
    let ?c = "clean_sources T v (apply_deltas T v s)"
    have after: "after_rows T s v now" using assms(2,4) unfolding times_ok_def by (metis activity_ok.simps(4))
    have "table_ok T s dt" using assms(2) by (simp add: times_ok_def)
    then have clean: "table_ok T ?c dt"
      by (rule table_ok_clean) (use dt in \<open>simp_all add: refresh_defs BuildDeltaCleanupSQL_def cursors_def\<close>)
    have "openivm_timestamp r < next_cursor now (delta_rows ?c dt)" if "r \<in> set (delta_rows ?c dt)" for r
      by (rule next_cursor_above [OF clean])
        (use after dt table_rows_logged [OF clean that] in \<open>auto simp: after_rows_def refresh_defs\<close>)
    then have "delta_scan ?s v dt = []"
      using dt by (auto simp: delta_scan_def filter_empty_conv refresh_defs not_le)
    moreover have "applied s v dt + contents (delta_scan s v dt) = contents (logged s dt)"
      using assms(1,4) dt unfolding contents_ok_def consistent_def by (metis content_ok.simps(1) consistent_def)
    ultimately show "applied ?s v dt + contents (delta_scan ?s v dt) = contents (logged ?s dt)"
      using dt by (simp add: refresh_defs)
  qed
qed (use assms(4) in \<open>simp_all add: refresh_defs\<close>)

lemma recompute_contents:
  assumes "contents_ok T s" "times_ok T s" "owns T (mutex_owner (held_mutexes s)) (activity s)"
    "activity s t = Refreshing v now \<or> activity s t = Recovering v now" "quiet T {} v s"
  shows "contents_ok T (release_view T v t (BuildRecomputeQuery T v now s))" (is "contents_ok T ?s")
proof (rule contents_ok_view [OF assms(1,2), where v = v and t = t and a = Idle])
  show "works_on (activity s t) \<in> {None, Some v}" using assms(4) by auto
  show "works_on (activity s u) \<noteq> Some v" if "u \<noteq> t" for u
    by (rule alone_holding [OF assms(3) _ that]) (use assms(4) in auto)
  show "delta_scan ?s v' dt = delta_scan s v' dt"
    if "v' \<noteq> v" "v' \<in> set (tracked_views T)" "dt \<in> set (sources T v')" for v' dt
  proof -
    let ?u = "s\<lparr>applied := (applied s)(v := (\<lambda>dt. if dt \<in> set (sources T v) then base_rows s dt else applied s v dt)),
          last_update := (last_update s)(v := (\<lambda>dt. if dt \<in> set (sources T v) then now else last_update s v dt))\<rparr>"
    have "delta_scan ?s v' dt = delta_scan (clean_sources T v ?u) v' dt"
      by (simp add: delta_scan_def release_view_def BuildRecomputeQuery_def)
    also have "\<dots> = delta_scan ?u v' dt" by (rule clean_sources_scan [OF that(2,3)])
    also have "\<dots> = delta_scan s v' dt" using that(1) by (simp add: delta_scan_def)
    finally show ?thesis .
  qed
  show "consistent T ?s v"
    unfolding consistent_def
  proof
    fix dt assume dt: "dt \<in> set (sources T v)"
    have after: "after_rows T s v now" using assms(2,4) unfolding times_ok_def by (metis activity_ok.simps(4,7))
    have table: "table_ok T s dt" using assms(2) by (simp add: times_ok_def)
    have "openivm_timestamp r < now" if "r \<in> set (delta_rows s dt)" for r
      using after dt table_rows_logged [OF table that] by (simp add: after_rows_def)
    then have "delta_scan ?s v dt = []"
      using dt cleaned_rows by (fastforce simp: delta_scan_def filter_empty_conv refresh_defs BuildDeltaCleanupSQL_def
          not_le split: if_splits)
    moreover have "base_rows s dt = contents (logged s dt)"
      using assms(1,5) dt unfolding contents_ok_def quiet_def by (metis add.right_neutral empty_iff)
    ultimately show "applied ?s v dt + contents (delta_scan ?s v dt) = contents (logged ?s dt)"
      using dt by (simp add: refresh_defs)
  qed
qed (simp_all add: refresh_defs)

lemma cross_data_contents:
  assumes "contents_ok T s" "times_ok T s" "owns T (mutex_owner (held_mutexes s)) (activity s)"
    "activity s t = CrossRefreshing v now"
  shows "contents_ok T (set_activity t (CrossApplied v) (apply_deltas T v s))" (is "contents_ok T ?s")
proof (rule contents_ok_view [OF assms(1,2), where v = v and t = t and a = "CrossApplied v"])
  show "works_on (activity s u) \<noteq> Some v" if "u \<noteq> t" for u
    by (rule alone_holding [OF assms(3) _ that]) (simp add: assms(4))
  have ok: "in_progress s v" "consistent T s v"
    using assms(1,4) unfolding contents_ok_def by (metis content_ok.simps(2))+
  then show "content_ok T ?s (CrossApplied v)" by (simp add: refresh_defs caught_up_def consistent_def)
  show "consistent T ?s v" if "settled ?s v" using that ok by (simp add: settled_def refresh_defs)
qed (use assms(4) in \<open>simp_all add: refresh_defs delta_scan_def\<close>)

lemma cross_post_contents:
  assumes "contents_ok T s" "times_ok T s" "owns T (mutex_owner (held_mutexes s)) (activity s)"
    "activity s t = CrossApplied v" "clock s < now"
  shows "contents_ok T (release_view T v t
     ((advance_cursors T v now s)\<lparr>clock := now, in_progress := (in_progress s)(v := False)\<rparr>))" (is "contents_ok T ?s")
proof (rule contents_ok_view [OF assms(1,2), where v = v and t = t and a = Idle])
  show "works_on (activity s u) \<noteq> Some v" if "u \<noteq> t" for u
    by (rule alone_holding [OF assms(3) _ that]) (simp add: assms(4))
  have ok: "caught_up T s v" using assms(1,4) unfolding contents_ok_def by (metis content_ok.simps(3))
  show "consistent T ?s v"
    unfolding consistent_def
  proof
    fix dt assume dt: "dt \<in> set (sources T v)"
    have table: "table_ok T s dt" using assms(2) by (simp add: times_ok_def)
    have "openivm_timestamp r < now" if "r \<in> set (logged s dt)" for r
      using table that assms(5) unfolding table_ok_def by fastforce
    then have "openivm_timestamp r < next_cursor now (delta_rows s dt)" if "r \<in> set (delta_rows s dt)" for r
      by (intro next_cursor_above [OF table]) (use table_rows_logged [OF table that] in auto)
    then have "delta_scan ?s v dt = []"
      using dt by (auto simp: delta_scan_def filter_empty_conv refresh_defs not_le)
    then show "applied ?s v dt + contents (delta_scan ?s v dt) = contents (logged ?s dt)"
      using ok dt by (simp add: refresh_defs caught_up_def)
  qed
qed (use assms(4) in \<open>simp_all add: refresh_defs delta_scan_def\<close>)

lemma write_commit_contents:
  assumes "contents_ok T s" "times_ok T s" "owns T (mutex_owner (held_mutexes s)) (activity s)"
    "activity s t = WritingDelta dt r"
  shows "contents_ok T (set_activity t Idle
     (log_row dt r (s\<lparr>held_mutexes := unlock_mutex (DeltaMutex dt) (held_mutexes s),
                      executing := (executing s)(dt := add_mset (data_columns r) (executing s dt))\<rparr>)))"
    (is "contents_ok T ?s")
proof -
  have "activity_ok T s (WritingDelta dt r)" using assms(2,4) unfolding times_ok_def by metis
  then have cursor: "last_update s v dt \<le> openivm_timestamp r"
    if "v \<in> set (tracked_views T)" "dt \<in> set (sources T v)" for v
    using last_update_in_cursors [OF that, of s] by simp
  have view: "consistent T ?s v" if "consistent T s v" "v \<in> set (tracked_views T)" for v
    unfolding consistent_def
  proof
    fix d assume "d \<in> set (sources T v)"
    then show "applied ?s v d + contents (delta_scan ?s v d) = contents (logged ?s d)"
      using that cursor [OF that(2)]
      by (cases "d = dt") (simp_all add: consistent_def delta_scan_def refresh_defs)
  qed
  have "consistent T ?s v" if "v \<in> set (tracked_views T)" "settled ?s v" for v
  proof (rule view [OF _ that(1)])
    have "settled s v" using that(2) assms(4) unfolding settled_def refresh_defs
      by (auto, metis activity.distinct(21) activity.simps)
    then show "consistent T s v" using assms(1) that(1) by (simp add: contents_ok_def)
  qed
  moreover have "content_ok T ?s (activity ?s u)" for u
  proof (cases "u = t")
    case False
    have ok: "content_ok T s (activity s u)" "activity_ok T s (activity s u)"
      using assms(1,2) by (simp_all add: contents_ok_def times_ok_def)
    have disjoint: "DeltaMutex dt \<notin> needs T (activity s u)"
      using owns_disjoint [OF assms(3) False] assms(4) by auto
    have "content_ok T ?s (activity s u)"
    proof (cases "activity s u")
      case (CrossApplied v)
      then have "dt \<notin> set (sources T v)" using disjoint by simp
      with ok(1) CrossApplied show ?thesis by (auto simp: caught_up_def refresh_defs)
    next
      case (Refreshing v now)
      with ok have "consistent T ?s v" by (intro view) (auto simp: after_rows_def)
      with Refreshing show ?thesis by simp
    next
      case (CrossRefreshing v now)
      with ok have "consistent T ?s v" by (intro view) (auto simp: after_rows_def)
      with CrossRefreshing ok(1) show ?thesis by (simp add: refresh_defs)
    qed simp_all
    with False show ?thesis by (simp add: refresh_defs)
  qed (simp add: refresh_defs)
  moreover have "base_rows ?s d + executing ?s d = contents (logged ?s d)" for d
    using assms(1) by (simp add: contents_ok_def refresh_defs)
  ultimately show ?thesis by (simp add: contents_ok_def)
qed

text \<open>A step that changes neither the rows nor what a thread works on.\<close>

lemma contents_ok_same:
  assumes "contents_ok T s" "logged s' = logged s" "delta_rows s' = delta_rows s" "last_update s' = last_update s"
    "applied s' = applied s" "in_progress s' = in_progress s"
    "\<And>dt. base_rows s' dt + executing s' dt = base_rows s dt + executing s dt"
    "\<And>v. settled s' v \<Longrightarrow> settled s v" "\<And>u. content_ok T s (activity s u) \<Longrightarrow> content_ok T s (activity s' u)"
  shows "contents_ok T s'"
proof -
  have view: "consistent T s' v = consistent T s v" "caught_up T s' v = caught_up T s v" for v
    by (simp_all add: consistent_def caught_up_def delta_scan_def assms)
  then have "content_ok T s' a = content_ok T s a" for a by (cases a) (simp_all add: assms)
  with view assms(1,7-9) show ?thesis by (simp add: contents_ok_def assms(2))
qed

lemma view_begin_contents:
  assumes "contents_ok T s" "times_ok T s" "owns T (mutex_owner (held_mutexes s)) (activity s)"
    "lock_all t (refresh_mutexes T v) (held_mutexes s) = Some ms" "activity s t = Idle" "v \<in> set (tracked_views T)"
    and same: "activity s' = (activity s)(t := a)" "logged s' = logged s" "base_rows s' = base_rows s"
      "executing s' = executing s" "applied s' = applied s" "last_update s' = last_update s"
      "delta_rows s' = delta_rows s" "\<And>v'. v' \<noteq> v \<Longrightarrow> in_progress s' v' = in_progress s v'"
    and new: "\<not> in_progress s v \<Longrightarrow> consistent T s v \<Longrightarrow> content_ok T s' a"
      "in_progress s v \<Longrightarrow> content_ok T s' a \<and> \<not> settled s' v"
  shows "contents_ok T s'"
proof (rule contents_ok_view [OF assms(1,2), where v = v and t = t and a = a])
  have free: "works_on (activity s u) \<noteq> Some v" for u by (rule alone_locking [OF assms(3,4)])
  then show "works_on (activity s u) \<noteq> Some v" for u .
  have "consistent T s v" if "\<not> in_progress s v"
  proof -
    have "activity s u \<noteq> Recovering v now" for u now using free [of u] by auto
    with that assms(1,6) show ?thesis by (simp add: contents_ok_def settled_def)
  qed
  moreover have "consistent T s' v = consistent T s v"
    by (simp add: consistent_def delta_scan_def same)
  ultimately show "settled s' v \<Longrightarrow> consistent T s' v" "content_ok T s' a" using new by auto
qed (use assms(5) same in \<open>simp_all add: delta_scan_def\<close>)

lemma contents_ok_step:
  "refresh_step T {} s s' \<Longrightarrow> owns T (mutex_owner (held_mutexes s)) (activity s) \<Longrightarrow> times_ok T s \<Longrightarrow>
     contents_ok T s \<Longrightarrow> contents_ok T s'"
proof (induction rule: refresh_step.induct)
  case (write_begin s t now dt ms r)
  show ?case
  proof (rule contents_ok_same [OF write_begin(6)])
    fix v assume settled: "settled (set_activity t (WritingDelta dt \<lparr>openivm_timestamp = now, data_columns = r\<rparr>)
         (s\<lparr>held_mutexes := ms, clock := now\<rparr>)) v"
    have "activity s u \<noteq> Recovering v n" for u n
      using settled write_begin(1) unfolding settled_def refresh_defs by (cases "u = t") (auto dest: spec [of _ u])
    then show "settled s v" using settled by (simp add: settled_def refresh_defs)
  qed (simp_all add: refresh_defs)
next
  case (write_commit s t dt r)
  show ?case by (rule write_commit_contents [OF write_commit(4,3,2,1)])
next
  case (statement_commit r s dt)
  show ?case
  proof (rule contents_ok_same [OF statement_commit(4)])
    show "settled (s\<lparr>executing := (executing s)(dt := executing s dt - {#r#}),
          base_rows := (base_rows s)(dt := add_mset r (base_rows s dt))\<rparr>) v \<Longrightarrow> settled s v" for v
      by (simp add: settled_def)
  qed (use statement_commit(1) in simp_all)
next
  case (chained_commit s t dt r)
  then have "activity_ok T s (ChainedRefresh dt r)" unfolding times_ok_def by metis
  then show ?case by simp
next
  case (refresh_begin s t v now ms)
  show ?case
    by (rule view_begin_contents [where a = "Refreshing v now", OF refresh_begin(8,7,6,5,1,2)])
      (use refresh_begin(3) in \<open>simp_all add: refresh_defs consistent_def delta_scan_def\<close>)
next
  case (refresh_commit s t v now)
  show ?case by (rule incremental_refresh_contents [OF refresh_commit(4,3,2,1)])
next
  case (recompute_commit s t v now)
  show ?case by (rule recompute_contents [OF recompute_commit(5,4,3) _ recompute_commit(2)]) (simp add: recompute_commit(1))
next
  case (refresh_fail s t v now)
  have "settled s v'" if "settled (release_view T v t s) v'" for v'
  proof -
    have "activity s u \<noteq> Recovering v' n" for u n
      using that refresh_fail(1) unfolding settled_def refresh_defs by (cases "u = t") (auto dest: spec [of _ u])
    then show ?thesis using that by (simp add: settled_def refresh_defs)
  qed
  then show ?case by (intro contents_ok_same [OF refresh_fail(4)]) (simp_all add: refresh_defs)
next
  case (cross_begin s t v now ms)
  show ?case
    by (rule view_begin_contents [where a = "CrossRefreshing v now", OF cross_begin(8,7,6,5,1,2)])
      (use cross_begin(3) in \<open>simp_all add: refresh_defs consistent_def delta_scan_def\<close>)
next
  case (cross_data s t v now)
  show ?case by (rule cross_data_contents [OF cross_data(4,3,2,1)])
next
  case (cross_post s t v now)
  show ?case by (rule cross_post_contents [OF cross_post(5,4,3,1,2)])
next
  case (cross_fail s t v now)
  have "settled s v'" if "settled (release_view T v t s) v'" for v'
  proof -
    have "activity s u \<noteq> Recovering v' n" for u n
      using that cross_fail(1) unfolding settled_def refresh_defs by (cases "u = t") (auto dest: spec [of _ u])
    then show ?thesis using that by (simp add: settled_def refresh_defs)
  qed
  then show ?case by (intro contents_ok_same [OF cross_fail(4)]) (simp_all add: refresh_defs)
next
  case (recover_begin s t v now ms)
  have "\<not> settled (set_activity t (Recovering v now)
      (s\<lparr>held_mutexes := ms, clock := now, in_progress := (in_progress s)(v := False)\<rparr>)) v"
    by (auto simp: settled_def refresh_defs)
  then show ?case
    by (intro view_begin_contents [where a = "Recovering v now", OF recover_begin(8,7,6,5,1,2)])
      (use recover_begin(3) in \<open>simp_all add: refresh_defs\<close>)
next
  case (recover_commit s t v now)
  show ?case by (rule recompute_contents [OF recover_commit(5,4,3) _ recover_commit(2)]) (simp add: recover_commit(1))
qed simp_all

lemma reachable_ok:
  "reachable T {} s \<Longrightarrow> owns T (mutex_owner (held_mutexes s)) (activity s) \<and> times_ok T s \<and> contents_ok T s"
proof (induction rule: reachable.induct)
  case start
  show ?case
    by (simp add: initial_state_def owns_def times_ok_def table_ok_def contents_ok_def consistent_def delta_scan_def
        in_cursors, intro allI exI [of _ 0]) (auto simp: in_cursors)
next
  case (step s s')
  then show ?case using owns_step times_ok_step contents_ok_step by blast
qed

section \<open>Properties\<close>


definition one_view :: tracking where
  "one_view = \<lparr>tracked_views = [''v''], sources = (\<lambda>v. [''openivm_delta_t'', ''openivm_delta_u''])\<rparr>"

definition all_free :: "'r refresh_state \<Rightarrow> bool" where
  "all_free s \<longleftrightarrow> (\<forall>m. mutex_owner (held_mutexes s) m = None)"

lemma lock_all_free:
  "distinct names \<Longrightarrow> \<forall>m \<in> set names. mutex_owner ms m = None \<Longrightarrow> \<exists>ms'. lock_all t names ms = Some ms'"
proof (induction names arbitrary: ms)
  case (Cons n names)
  then obtain ms1 where ms1: "lock_mutex t n ms = Some ms1" using refresh_locks.lock_succeeds by force
  then have "\<forall>m \<in> set names. mutex_owner ms1 m = None"
    using Cons.prems by (auto simp: refresh_locks.lock_owner)
  with Cons.IH [of ms1] Cons.prems(1) ms1 show ?case by simp
qed simp

lemma distinct_refresh_mutexes: "distinct (refresh_mutexes T v)"
proof -
  have "distinct (sorted_delta_tables (sources T v))"
    using sorted_delta_tables_less strict_sorted_iff by blast
  then show ?thesis by (auto simp: refresh_mutexes_def distinct_map inj_on_def)
qed

lemma lock_view_free:
  assumes "all_free s"
  obtains ms where "lock_all t (refresh_mutexes T v) (held_mutexes s) = Some ms"
    "\<And>m. mutex_owner (unlock_all (refresh_mutexes T v) ms) m = None"
proof -
  obtain ms where ms: "lock_all t (refresh_mutexes T v) (held_mutexes s) = Some ms"
    using lock_all_free [OF distinct_refresh_mutexes] assms unfolding all_free_def by blast
  show thesis
    by (rule that [OF ms]) (use lock_all_owner [OF ms] assms in \<open>auto simp: unlock_all_owner all_free_def\<close>)
qed

text \<open>Runs of thread 0 while no mutex is held, up to the mutexes.\<close>

definition seen :: "'r refresh_state \<Rightarrow> 'r refresh_state" where
  "seen s = s\<lparr>held_mutexes := no_mutexes\<rparr>"

definition free_run :: "tracking \<Rightarrow> hazard set \<Rightarrow> 'r refresh_state \<Rightarrow> bool" where
  "free_run T H s \<longleftrightarrow> (\<exists>s'. reachable T H s' \<and> all_free s' \<and> activity s' 0 = Idle \<and> seen s' = s)"

lemma seen_fields [simp]:
  "activity (seen s) = activity s" "clock (seen s) = clock s" "base_rows (seen s) = base_rows s"
  "executing (seen s) = executing s" "delta_rows (seen s) = delta_rows s" "last_update (seen s) = last_update s"
  "in_progress (seen s) = in_progress s" "logged (seen s) = logged s" "applied (seen s) = applied s"
  by (simp_all add: seen_def)

lemma free_run_start: "free_run T H initial_state"
proof -
  have "mutex_owner no_mutexes m = None" for m by (cases m) (simp_all add: no_mutexes_def mutex_owner.simps)
  then have "all_free initial_state" by (simp add: all_free_def initial_state_def)
  moreover have "activity initial_state 0 = Idle" "seen initial_state = initial_state"
    by (simp_all add: initial_state_def seen_def)
  ultimately show ?thesis using reachable.start unfolding free_run_def by blast
qed

lemma free_run_write:
  assumes "free_run T H s" "clock s < now"
  shows "free_run T H (log_row dt \<lparr>openivm_timestamp = now, data_columns = r\<rparr>
    (s\<lparr>clock := now, executing := (executing s)(dt := add_mset r (executing s dt))\<rparr>))"
proof -
  let ?row = "\<lparr>openivm_timestamp = now, data_columns = r\<rparr>"
  obtain s0 where s0: "reachable T H s0" "all_free s0" "activity s0 0 = Idle" "seen s0 = s"
    using assms(1) unfolding free_run_def by blast
  obtain ms where ms: "lock_mutex 0 (DeltaMutex dt) (held_mutexes s0) = Some ms"
    using refresh_locks.lock_succeeds s0(2) unfolding all_free_def by blast
  let ?b = "set_activity 0 (WritingDelta dt ?row) (s0\<lparr>held_mutexes := ms, clock := now\<rparr>)"
  let ?e = "set_activity 0 Idle
         (log_row dt ?row (?b\<lparr>held_mutexes := unlock_mutex (DeltaMutex dt) (held_mutexes ?b),
                          executing := (executing ?b)(dt := add_mset (data_columns ?row) (executing ?b dt))\<rparr>))"
  have "clock s0 < now" using assms(2) s0(4) by auto
  then have "reachable T H ?b"
    by (intro reachable.step [OF s0(1)] refresh_step.write_begin) (use s0(3) ms in simp_all)
  then have "reachable T H ?e"
    by (rule reachable.step [OF _ refresh_step.write_commit]) (simp add: set_activity_def)
  moreover have "all_free ?e"
    using s0(2) by (simp add: all_free_def refresh_defs refresh_locks.unlock_owner refresh_locks.lock_owner [OF ms])
  moreover have "(activity s0)(0 := Idle) = activity s0" using s0(3) by auto
  then have "seen ?e = log_row dt ?row
    (s\<lparr>clock := now, executing := (executing s)(dt := add_mset r (executing s dt))\<rparr>)"
    using s0(4) by (intro refresh_state.equality) (auto simp: refresh_defs seen_def)
  ultimately show ?thesis unfolding free_run_def by (intro exI [of _ ?e]) (simp add: refresh_defs)
qed

lemma free_run_step:
  assumes "free_run T H s"
    and "\<And>s0. seen s0 = s \<Longrightarrow> refresh_step T H s0 (f s0) \<and> held_mutexes (f s0) = held_mutexes s0 \<and>
      activity (f s0) 0 = activity s0 0 \<and> seen (f s0) = s'"
  shows "free_run T H s'"
  using assms unfolding free_run_def all_free_def by (metis reachable.step)

lemma free_run_commit:
  assumes "free_run T H s" "r \<in># executing s dt"
  shows "free_run T H (s\<lparr>executing := (executing s)(dt := executing s dt - {#r#}),
          base_rows := (base_rows s)(dt := add_mset r (base_rows s dt))\<rparr>)"
  by (rule free_run_step [OF assms(1), where f = "\<lambda>s. s\<lparr>executing := (executing s)(dt := executing s dt - {#r#}),
          base_rows := (base_rows s)(dt := add_mset r (base_rows s dt))\<rparr>"])
    (use assms(2) in \<open>auto simp: seen_def intro: refresh_step.statement_commit\<close>)

lemma free_run_rollback:
  assumes "free_run T H s" "r \<in># executing s dt" "Rollback \<in> H"
  shows "free_run T H (s\<lparr>executing := (executing s)(dt := executing s dt - {#r#})\<rparr>)"
  by (rule free_run_step [OF assms(1), where f = "\<lambda>s. s\<lparr>executing := (executing s)(dt := executing s dt - {#r#})\<rparr>"])
    (use assms(2,3) in \<open>auto simp: seen_def intro: refresh_step.statement_rollback\<close>)

lemma free_run_chained_begin:
  assumes "free_run T H s" "ChainedWrite \<in> H" "activity s 1 = Idle" "clock s < now"
  shows "free_run T H (set_activity 1 (ChainedRefresh dt \<lparr>openivm_timestamp = now, data_columns = r\<rparr>)
    (s\<lparr>clock := now\<rparr>))"
proof (rule free_run_step [OF assms(1)])
  fix s0 assume "seen s0 = s"
  then have "activity s0 1 = Idle" "clock s0 < now" and s: "s = seen s0" using assms(3,4) by auto
  from refresh_step.chained_begin [OF assms(2) this(1,2), of T dt r]
  show "refresh_step T H s0 (set_activity 1 (ChainedRefresh dt \<lparr>openivm_timestamp = now, data_columns = r\<rparr>)
      (s0\<lparr>clock := now\<rparr>)) \<and>
    held_mutexes (set_activity 1 (ChainedRefresh dt \<lparr>openivm_timestamp = now, data_columns = r\<rparr>)
      (s0\<lparr>clock := now\<rparr>)) = held_mutexes s0 \<and>
    activity (set_activity 1 (ChainedRefresh dt \<lparr>openivm_timestamp = now, data_columns = r\<rparr>)
      (s0\<lparr>clock := now\<rparr>)) 0 = activity s0 0 \<and>
    seen (set_activity 1 (ChainedRefresh dt \<lparr>openivm_timestamp = now, data_columns = r\<rparr>)
      (s0\<lparr>clock := now\<rparr>)) = set_activity 1 (ChainedRefresh dt \<lparr>openivm_timestamp = now, data_columns = r\<rparr>)
      (s\<lparr>clock := now\<rparr>)"
    by (simp add: s seen_def set_activity_def)
qed

lemma free_run_chained_commit:
  assumes "free_run T H s" "activity s 1 = ChainedRefresh dt r"
  shows "free_run T H (set_activity 1 Idle
         (log_row dt r (s\<lparr>base_rows := (base_rows s)(dt := add_mset (data_columns r) (base_rows s dt))\<rparr>)))"
proof (rule free_run_step [OF assms(1)])
  fix s0 assume "seen s0 = s"
  then have "activity s0 1 = ChainedRefresh dt r" and s: "s = seen s0" using assms(2) by auto
  from refresh_step.chained_commit [OF this(1), of T H]
  show "refresh_step T H s0 (set_activity 1 Idle
         (log_row dt r (s0\<lparr>base_rows := (base_rows s0)(dt := add_mset (data_columns r) (base_rows s0 dt))\<rparr>))) \<and>
    held_mutexes (set_activity 1 Idle
         (log_row dt r (s0\<lparr>base_rows := (base_rows s0)(dt := add_mset (data_columns r) (base_rows s0 dt))\<rparr>)))
       = held_mutexes s0 \<and>
    activity (set_activity 1 Idle
         (log_row dt r (s0\<lparr>base_rows := (base_rows s0)(dt := add_mset (data_columns r) (base_rows s0 dt))\<rparr>))) 0
       = activity s0 0 \<and>
    seen (set_activity 1 Idle
         (log_row dt r (s0\<lparr>base_rows := (base_rows s0)(dt := add_mset (data_columns r) (base_rows s0 dt))\<rparr>)))
       = set_activity 1 Idle
         (log_row dt r (s\<lparr>base_rows := (base_rows s)(dt := add_mset (data_columns r) (base_rows s dt))\<rparr>))"
    by (simp add: s seen_def set_activity_def log_row_def)
qed

lemma free_run_view:
  assumes "free_run T H s"
    and "\<And>s0 ms. seen s0 = s \<Longrightarrow> activity s0 0 = Idle \<Longrightarrow>
      lock_all 0 (refresh_mutexes T v) (held_mutexes s0) = Some ms \<Longrightarrow>
      \<exists>s1. (reachable T H s0 \<longrightarrow> reachable T H s1) \<and> held_mutexes s1 = unlock_all (refresh_mutexes T v) ms \<and>
        activity s1 0 = Idle \<and> seen s1 = s'"
  shows "free_run T H s'"
proof -
  obtain s0 where s0: "reachable T H s0" "all_free s0" "activity s0 0 = Idle" "seen s0 = s"
    using assms(1) unfolding free_run_def by blast
  obtain ms where ms: "lock_all 0 (refresh_mutexes T v) (held_mutexes s0) = Some ms"
      "\<And>m. mutex_owner (unlock_all (refresh_mutexes T v) ms) m = None"
    using lock_view_free [OF s0(2)] by blast
  obtain s1 where "reachable T H s0 \<longrightarrow> reachable T H s1" "held_mutexes s1 = unlock_all (refresh_mutexes T v) ms"
      "activity s1 0 = Idle" "seen s1 = s'"
    using assms(2) [OF s0(4,3) ms(1)] by blast
  with s0(1) ms(2) show ?thesis unfolding free_run_def all_free_def by auto
qed

text \<open>What a refresh computes does not depend on mutexes and activities.\<close>

lemma reads_same:
  "delta_scan (s\<lparr>held_mutexes := m\<rparr>) = delta_scan s" "delta_scan (s\<lparr>activity := a\<rparr>) = delta_scan s"
  "BuildDeltaCleanupSQL T (s\<lparr>held_mutexes := m\<rparr>) = BuildDeltaCleanupSQL T s"
  "BuildDeltaCleanupSQL T (s\<lparr>activity := a\<rparr>) = BuildDeltaCleanupSQL T s"
  by (simp_all add: fun_eq_iff delta_scan_def BuildDeltaCleanupSQL_def cursors_def)

lemma apply_deltas_same:
  "apply_deltas T v (s\<lparr>held_mutexes := m\<rparr>) = (apply_deltas T v s)\<lparr>held_mutexes := m\<rparr>"
  "apply_deltas T v (s\<lparr>activity := a\<rparr>) = (apply_deltas T v s)\<lparr>activity := a\<rparr>"
  unfolding apply_deltas_def reads_same by (simp_all cong: if_cong)

lemma clean_sources_same:
  "clean_sources T v (s\<lparr>held_mutexes := m\<rparr>) = (clean_sources T v s)\<lparr>held_mutexes := m\<rparr>"
  "clean_sources T v (s\<lparr>activity := a\<rparr>) = (clean_sources T v s)\<lparr>activity := a\<rparr>"
  unfolding clean_sources_def reads_same by (simp_all cong: if_cong)

lemma advance_cursors_same:
  "advance_cursors T v now (s\<lparr>held_mutexes := m\<rparr>) = (advance_cursors T v now s)\<lparr>held_mutexes := m\<rparr>"
  "advance_cursors T v now (s\<lparr>activity := a\<rparr>) = (advance_cursors T v now s)\<lparr>activity := a\<rparr>"
  unfolding advance_cursors_def by (simp_all cong: if_cong)

lemma incremental_refresh_same:
  "incremental_refresh T v now (s\<lparr>held_mutexes := m\<rparr>) = (incremental_refresh T v now s)\<lparr>held_mutexes := m\<rparr>"
  "incremental_refresh T v now (s\<lparr>activity := a\<rparr>) = (incremental_refresh T v now s)\<lparr>activity := a\<rparr>"
  unfolding incremental_refresh_def apply_deltas_same clean_sources_same advance_cursors_same by simp_all

lemma recompute_same:
  "BuildRecomputeQuery T v now (s\<lparr>held_mutexes := m\<rparr>) = (BuildRecomputeQuery T v now s)\<lparr>held_mutexes := m\<rparr>"
  "BuildRecomputeQuery T v now (s\<lparr>activity := a\<rparr>) = (BuildRecomputeQuery T v now s)\<lparr>activity := a\<rparr>"
  unfolding BuildRecomputeQuery_def clean_sources_same [symmetric]
  by (rule arg_cong [where f = "clean_sources T v"], simp cong: if_cong)+

lemma activity_unchanged: "activity s 0 = Idle \<Longrightarrow> (activity s)(0 := Idle) = activity s"
  by auto

lemma released_refresh:
  assumes "activity s 0 = Idle" "f = incremental_refresh T v now \<or> f = BuildRecomputeQuery T v now"
  shows "seen (release_view T v 0 (f (set_activity 0 a (s\<lparr>held_mutexes := ms, clock := now\<rparr>))))
    = f ((seen s)\<lparr>clock := now\<rparr>)"
proof -
  have f: "f (s\<lparr>held_mutexes := m\<rparr>) = (f s)\<lparr>held_mutexes := m\<rparr>" "f (s\<lparr>activity := b\<rparr>) = (f s)\<lparr>activity := b\<rparr>"
    "activity (f s) = activity s" for s m b
    using assms(2) by (auto simp: incremental_refresh_same recompute_same) (simp_all add: refresh_defs)
  let ?c = "s\<lparr>clock := now\<rparr>"
  have "set_activity 0 a (s\<lparr>held_mutexes := ms, clock := now\<rparr>)
      = ?c\<lparr>activity := (activity s)(0 := a)\<rparr>\<lparr>held_mutexes := ms\<rparr>"
    by (simp add: set_activity_def)
  then have "seen (release_view T v 0 (f (set_activity 0 a (s\<lparr>held_mutexes := ms, clock := now\<rparr>))))
      = (f ?c)\<lparr>activity := activity s\<rparr>\<lparr>held_mutexes := no_mutexes\<rparr>"
    by (simp only: f) (simp add: seen_def release_view_def activity_unchanged [OF assms(1)])
  also have "(f ?c)\<lparr>activity := activity s\<rparr> = f ?c" using f(3) [of ?c] by simp
  also have "(f ?c)\<lparr>held_mutexes := no_mutexes\<rparr> = f ((seen s)\<lparr>clock := now\<rparr>)"
    unfolding f(1) [symmetric] by (rule arg_cong [where f = f]) (simp add: seen_def)
  finally show ?thesis .
qed

lemma free_run_refresh:
  assumes "free_run T H s" "v \<in> set (tracked_views T)" "\<not> in_progress s v" "clock s < now"
    and "f = incremental_refresh T v now \<or> f = BuildRecomputeQuery T v now \<and> RecomputeDuringStatement \<in> H"
  shows "free_run T H (f (s\<lparr>clock := now\<rparr>))"
proof (rule free_run_view [OF assms(1), of v])
  fix s0 ms
  assume s0: "seen s0 = s" "activity s0 0 = Idle" "lock_all 0 (refresh_mutexes T v) (held_mutexes s0) = Some ms"
  let ?b = "set_activity 0 (Refreshing v now) (s0\<lparr>held_mutexes := ms, clock := now\<rparr>)"
  have start: "refresh_step T H s0 ?b"
    using assms(2-4) s0 by (intro refresh_step.refresh_begin) auto
  have act: "activity ?b 0 = Refreshing v now" by (simp add: set_activity_def)
  have finish: "refresh_step T H ?b (release_view T v 0 (f ?b))"
    using assms(5) refresh_step.refresh_commit [OF act] refresh_step.recompute_commit [OF act]
    by (auto simp: quiet_def)
  have "seen (release_view T v 0 (f ?b)) = f (s\<lparr>clock := now\<rparr>)"
    unfolding s0(1) [symmetric] by (rule released_refresh [OF s0(2)]) (use assms(5) in auto)
  moreover have "held_mutexes (release_view T v 0 (f ?b)) = unlock_all (refresh_mutexes T v) ms"
    "activity (release_view T v 0 (f ?b)) 0 = Idle"
    using assms(5) by (elim disjE conjE; simp add: refresh_defs)+
  ultimately show "\<exists>s1. (reachable T H s0 \<longrightarrow> reachable T H s1) \<and> held_mutexes s1 = unlock_all (refresh_mutexes T v) ms \<and>
        activity s1 0 = Idle \<and> seen s1 = f (s\<lparr>clock := now\<rparr>)"
    using start finish by (intro exI [of _ "release_view T v 0 (f ?b)"]) (blast intro: reachable.step)
qed

lemmas free_run_incremental = free_run_refresh [OF _ _ _ _ disjI1 [OF refl]]

lemma free_run_recompute:
  "free_run T H s \<Longrightarrow> v \<in> set (tracked_views T) \<Longrightarrow> \<not> in_progress s v \<Longrightarrow> clock s < now \<Longrightarrow>
   RecomputeDuringStatement \<in> H \<Longrightarrow> free_run T H (BuildRecomputeQuery T v now (s\<lparr>clock := now\<rparr>))"
  using free_run_refresh [OF _ _ _ _ disjI2 [OF conjI [OF refl]]] by blast

lemma free_run_cross_fail:
  assumes "free_run T H s" "v \<in> set (tracked_views T)" "\<not> in_progress s v" "clock s < now"
  shows "free_run T H (apply_deltas T v (s\<lparr>clock := now, in_progress := (in_progress s)(v := True)\<rparr>))"
proof (rule free_run_view [OF assms(1), of v])
  fix s0 ms
  assume s0: "seen s0 = s" "activity s0 0 = Idle" "lock_all 0 (refresh_mutexes T v) (held_mutexes s0) = Some ms"
  let ?b = "set_activity 0 (CrossRefreshing v now)
     (s0\<lparr>held_mutexes := ms, clock := now, in_progress := (in_progress s0)(v := True)\<rparr>)"
  let ?d = "set_activity 0 (CrossApplied v) (apply_deltas T v ?b)"
  let ?e = "release_view T v 0 ?d"
  have "refresh_step T H s0 ?b" using assms(2-4) s0 by (intro refresh_step.cross_begin) auto
  moreover have "refresh_step T H ?b ?d" by (rule refresh_step.cross_data) (simp add: set_activity_def)
  moreover have "refresh_step T H ?d ?e" by (rule refresh_step.cross_fail) (simp add: set_activity_def)
  ultimately have steps: "reachable T H s0 \<longrightarrow> reachable T H ?e" by (blast intro: reachable.step)
  have "?b = s0\<lparr>clock := now, in_progress := (in_progress s0)(v := True)\<rparr>
      \<lparr>activity := (activity s0)(0 := CrossRefreshing v now)\<rparr>\<lparr>held_mutexes := ms\<rparr>"
    by (simp add: set_activity_def)
  then have "seen ?e = (apply_deltas T v (s0\<lparr>clock := now, in_progress := (in_progress s0)(v := True)\<rparr>))
      \<lparr>activity := activity s0\<rparr>\<lparr>held_mutexes := no_mutexes\<rparr>"
    by (simp only: apply_deltas_same)
      (simp add: seen_def release_view_def set_activity_def activity_unchanged [OF s0(2)])
  also have "\<dots> = apply_deltas T v (s0\<lparr>clock := now, in_progress := (in_progress s0)(v := True)\<rparr>
      \<lparr>activity := activity s0\<rparr>\<lparr>held_mutexes := no_mutexes\<rparr>)"
    by (simp only: apply_deltas_same)
  also have "\<dots> = apply_deltas T v (s\<lparr>clock := now, in_progress := (in_progress s)(v := True)\<rparr>)"
    by (rule arg_cong [where f = "apply_deltas T v"]) (simp add: s0(1) [symmetric] seen_def)
  finally show "\<exists>s1. (reachable T H s0 \<longrightarrow> reachable T H s1) \<and> held_mutexes s1 = unlock_all (refresh_mutexes T v) ms \<and>
        activity s1 0 = Idle \<and> seen s1 = apply_deltas T v (s\<lparr>clock := now, in_progress := (in_progress s)(v := True)\<rparr>)"
    by (intro exI [of _ ?e] conjI steps) (simp_all add: refresh_defs)
qed

lemma free_run_recover_fail:
  assumes "free_run T H s" "v \<in> set (tracked_views T)" "in_progress s v" "clock s < now" "FailedRecovery \<in> H"
  shows "free_run T H (s\<lparr>clock := now, in_progress := (in_progress s)(v := False)\<rparr>)"
proof (rule free_run_view [OF assms(1), of v])
  fix s0 ms
  assume s0: "seen s0 = s" "activity s0 0 = Idle" "lock_all 0 (refresh_mutexes T v) (held_mutexes s0) = Some ms"
  let ?b = "set_activity 0 (Recovering v now)
     (s0\<lparr>held_mutexes := ms, clock := now, in_progress := (in_progress s0)(v := False)\<rparr>)"
  let ?e = "release_view T v 0 ?b"
  have "refresh_step T H s0 ?b" using assms(2-4) s0 by (intro refresh_step.recover_begin) auto
  moreover have "refresh_step T H ?b ?e" by (rule refresh_step.recover_fail [OF assms(5)]) (simp add: set_activity_def)
  moreover have "seen ?e = s\<lparr>clock := now, in_progress := (in_progress s)(v := False)\<rparr>"
    by (simp add: s0(1) [symmetric] seen_def release_view_def set_activity_def activity_unchanged [OF s0(2)])
  ultimately show "\<exists>s1. (reachable T H s0 \<longrightarrow> reachable T H s1) \<and> held_mutexes s1 = unlock_all (refresh_mutexes T v) ms \<and>
        activity s1 0 = Idle \<and> seen s1 = s\<lparr>clock := now, in_progress := (in_progress s)(v := False)\<rparr>"
    by (intro exI [of _ ?e] conjI) (blast intro: reachable.step, simp_all add: refresh_defs)
qed

text \<open>A view that differs from its table although nothing is running or pending.\<close>

definition stale_forever :: "'r refresh_state \<Rightarrow> string \<Rightarrow> string \<Rightarrow> bool" where
  "stale_forever s v dt \<longleftrightarrow>
     (\<forall>t. activity s t = Idle) \<and> \<not> in_progress s v \<and> executing s dt = {#} \<and> delta_scan s v dt = [] \<and>
     applied s v dt \<noteq> base_rows s dt"

lemmas run_simps = initial_state_def one_view_def refresh_defs stale_forever_def delta_scan_def next_cursor_def
  BuildDeltaCleanupSQL_def cursors_def

lemma stale_run:
  fixes s :: "'r refresh_state"
  shows "free_run T H s \<Longrightarrow> stale_forever s v dt \<Longrightarrow> \<exists>s :: 'r refresh_state. reachable T H s \<and> stale_forever s v dt"
proof -
  assume "free_run T H s" and stale: "stale_forever s v dt"
  then obtain s' where s': "reachable T H s'" "seen s' = s" unfolding free_run_def by blast
  have "stale_forever s' v dt" using stale unfolding s'(2) [symmetric] by (simp add: stale_forever_def delta_scan_def)
  with s'(1) show ?thesis by blast
qed



end
