(* ===== verification/View_Graph.thy ===== *)
theory View_Graph
  imports Sql_Names "HOL-Library.List_Lexorder" "HOL-Library.Char_ord"
begin

text \<open>
  \<open>core/refresh_metadata.cpp\<close>: the views a view depends on and the views that depend on it,
  in the order in which a cascade refreshes them (\<open>GetUpstreamViews\<close>, \<open>GetDownstreamViews\<close>).
  Both are depth-first searches with a visited set over the rows of \<open>openivm_delta_tables\<close>.
\<close>

section \<open>Metadata tables\<close>

text \<open>\<open>registered_views\<close> are the names in \<open>openivm_views\<close>, \<open>delta_table_rows\<close> the pairs of view and
  table in \<open>openivm_delta_tables\<close>.\<close>

record view_metadata =
  registered_views :: "string list"
  delta_table_rows :: "(string \<times> string) list"

definition GetDeltaTables :: "view_metadata \<Rightarrow> string \<Rightarrow> string list" where
  "GetDeltaTables M view_name = map snd (filter (\<lambda>(v, table). v = view_name) (delta_table_rows M))"

definition IsBaseTable :: "view_metadata \<Rightarrow> string \<Rightarrow> bool" where
  "IsBaseTable M table_name \<longleftrightarrow> table_name \<notin> set (registered_views M)"

text \<open>The view behind a delta table or, on DuckLake, behind a data table.\<close>

definition source_view :: "string \<Rightarrow> string" where
  "source_view dt =
     (if length DELTA_PREFIX < length dt \<and> take (length DELTA_PREFIX) dt = DELTA_PREFIX
      then drop (length DELTA_PREFIX) dt
      else if length DATA_TABLE_PREFIX < length dt \<and> take (length DATA_TABLE_PREFIX) dt = DATA_TABLE_PREFIX
      then drop (length DATA_TABLE_PREFIX) dt else [])"

definition upstream_of :: "view_metadata \<Rightarrow> string \<Rightarrow> string list" where
  "upstream_of M view_name =
     filter (\<lambda>source. source \<noteq> [] \<and> \<not> IsBaseTable M source) (map source_view (GetDeltaTables M view_name))"

text \<open>\<open>SELECT DISTINCT view_name ... WHERE table_name = delta OR table_name = data ORDER BY view_name\<close>\<close>

definition dependents_of :: "view_metadata \<Rightarrow> string \<Rightarrow> string list" where
  "dependents_of M view_name =
     sort (remdups (map fst (filter (\<lambda>(v, table). table = DeltaName view_name \<or> table = DataTableName view_name)
       (delta_table_rows M))))"

section \<open>The searches\<close>

text \<open>The recursive lambda \<open>collect\<close>: \<open>next\<close> are the views to look at from a view, \<open>skip\<close> one that is
  never entered. Every level of the recursion visits a new view, so a depth of the number of
  views is never exceeded.\<close>

fun collect :: "(string \<Rightarrow> string list) \<Rightarrow> (string \<Rightarrow> bool) \<Rightarrow> nat \<Rightarrow> string \<Rightarrow>
    string list \<times> string list \<Rightarrow> string list \<times> string list" where
  "collect nxt skip 0 vn st = st"
| "collect nxt skip (Suc depth) vn st =
     foldl (\<lambda>(visited, result) dep.
         if skip dep \<or> dep \<in> set visited then (visited, result)
         else (case collect nxt skip depth dep (dep # visited, result) of
                 (visited', result') \<Rightarrow> (visited', result' @ [dep])))
       st (nxt vn)"

definition GetUpstreamViews :: "view_metadata \<Rightarrow> string \<Rightarrow> string list" where
  "GetUpstreamViews M view_name =
     snd (collect (upstream_of M) (\<lambda>v. False) (Suc (length (registered_views M))) view_name ([], []))"

definition GetDownstreamViews :: "view_metadata \<Rightarrow> string \<Rightarrow> string list" where
  "GetDownstreamViews M view_name =
     rev (snd (collect (dependents_of M) (\<lambda>dep. dep = view_name) (Suc (length (delta_table_rows M)))
       view_name ([], [])))"

section \<open>Depth-first search in an acyclic graph\<close>

definition edges :: "(string \<Rightarrow> string list) \<Rightarrow> (string \<times> string) set" where
  "edges nxt = {(a, b). b \<in> set (nxt a)}"

text \<open>Every view stands behind the views that it leads to.\<close>

fun postorder :: "(string \<Rightarrow> string list) \<Rightarrow> string list \<Rightarrow> bool" where
  "postorder nxt [] \<longleftrightarrow> True"
| "postorder nxt (x # xs) \<longleftrightarrow> postorder nxt xs \<and> set (nxt x) \<subseteq> set xs \<and> x \<notin> set xs"

definition search_ok :: "(string \<Rightarrow> string list) \<Rightarrow> string \<Rightarrow> string list \<times> string list \<Rightarrow> bool" where
  "search_ok nxt vn st \<longleftrightarrow>
     set (snd st) \<subseteq> set (fst st) \<and> postorder nxt (rev (snd st)) \<and>
     (\<forall>s \<in> set (fst st) - set (snd st). (s, vn) \<in> (edges nxt)\<^sup>*)"

definition searched :: "(string \<Rightarrow> string list) \<Rightarrow> string list \<Rightarrow> string list \<times> string list \<Rightarrow>
    string list \<times> string list \<Rightarrow> bool" where
  "searched nxt targets st st' \<longleftrightarrow>
     set (snd st) \<subseteq> set (snd st') \<and> set (fst st') - set (snd st') = set (fst st) - set (snd st) \<and>
     set (snd st') \<subseteq> set (fst st') \<and> postorder nxt (rev (snd st')) \<and> set targets \<subseteq> set (snd st') \<and>
     set (snd st') \<subseteq> set (snd st) \<union> {w. \<exists>x \<in> set targets. (x, w) \<in> (edges nxt)\<^sup>*}"

lemma postorder_distinct: "postorder nxt xs \<Longrightarrow> distinct xs"
  by (induction xs) auto

lemma postorder_closed: "postorder nxt xs \<Longrightarrow> x \<in> set xs \<Longrightarrow> (x, y) \<in> (edges nxt)\<^sup>* \<Longrightarrow> y \<in> set xs"
proof (induction xs arbitrary: x)
  case (Cons z xs)
  show ?case
  proof (cases "x = y")
    case False
    then obtain w where w: "w \<in> set (nxt x)" "(w, y) \<in> (edges nxt)\<^sup>*"
      using Cons.prems(3) by (auto elim: converse_rtranclE simp: edges_def)
    show ?thesis
    proof (cases "x = z")
      case True
      with Cons.prems(1) w(1) have "w \<in> set xs" by auto
      then show ?thesis using Cons.IH [OF _ _ w(2)] Cons.prems(1) by auto
    next
      case False
      then show ?thesis using Cons.IH [OF _ _ Cons.prems(3)] Cons.prems(1,2) by auto
    qed
  qed (use Cons.prems in simp)
qed simp

lemma postorder_sorted: "postorder nxt xs \<Longrightarrow> sorted_wrt (\<lambda>x y. (y, x) \<notin> (edges nxt)\<^sup>*) xs"
proof (induction xs)
  case (Cons x xs)
  then have "(y, x) \<notin> (edges nxt)\<^sup>*" if "y \<in> set xs" for y
    using postorder_closed [of nxt xs y x] that by auto
  with Cons show ?case by simp
qed simp

lemma collect_searches:
  assumes "acyclic (edges nxt)" "finite nodes" "\<And>x. set (nxt x) \<subseteq> nodes"
    and "\<And>dep. (vn, dep) \<in> (edges nxt)\<^sup>+ \<Longrightarrow> \<not> skip dep"
    and "search_ok nxt vn st" "card (nodes - set (fst st)) < depth" "vn \<notin> set (snd st)"
  shows "searched nxt (nxt vn) st (collect nxt skip depth vn st)"
  using assms(4-7)
proof (induction depth arbitrary: vn st)
  case (Suc depth)
  let ?f = "\<lambda>(visited, result) dep.
         if skip dep \<or> dep \<in> set visited then (visited, result)
         else (case collect nxt skip depth dep (dep # visited, result) of
                 (visited', result') \<Rightarrow> (visited', result' @ [dep]))"
  have "searched nxt deps st (foldl ?f st deps)" if "set deps \<subseteq> set (nxt vn)" for deps
    using that
  proof (induction deps rule: rev_induct)
    case Nil
    then show ?case using Suc.prems(2) by (auto simp: searched_def search_ok_def)
  next
    case (snoc dep deps)
    obtain visited result where vr: "foldl ?f st deps = (visited, result)" by force
    have before: "searched nxt deps st (visited, result)" using snoc vr by simp
    have edge: "(vn, dep) \<in> edges nxt" using snoc.prems by (auto simp: edges_def)
    then have noskip: "\<not> skip dep" using Suc.prems(1) by blast
    show ?case
    proof (cases "dep \<in> set visited")
      case True
      have "dep \<in> set result"
      proof (rule ccontr)
        assume "dep \<notin> set result"
        then have "dep \<in> set (fst st) - set (snd st)" using True before by (auto simp: searched_def)
        then have "(dep, vn) \<in> (edges nxt)\<^sup>*" using Suc.prems(2) by (simp add: search_ok_def)
        with edge have "(vn, vn) \<in> (edges nxt)\<^sup>+" by (rule rtrancl_into_trancl2)
        with assms(1) show False by (simp add: acyclic_def)
      qed
      then show ?thesis using before True vr by (auto simp: searched_def)
    next
      case False
      let ?st = "(dep # visited, result)"
      have visited: "set (fst st) \<subseteq> set visited" using before by (auto simp: searched_def)
      have "searched nxt (nxt dep) ?st (collect nxt skip depth dep ?st)"
      proof (rule Suc.IH)
        show "\<not> skip d" if "(dep, d) \<in> (edges nxt)\<^sup>+" for d
          using Suc.prems(1) edge that by (meson trancl_into_trancl2)
        show "search_ok nxt dep ?st"
          using before edge Suc.prems(2) False
          by (auto simp: search_ok_def searched_def intro: rtrancl_into_rtrancl)
        have "dep \<in> nodes - set (fst st)" using edge assms(3) visited False by (auto simp: edges_def)
        then have "nodes - set (dep # visited) \<subset> nodes - set (fst st)" using visited by auto
        then have "card (nodes - set (dep # visited)) < card (nodes - set (fst st))"
          using assms(2) by (simp add: psubset_card_mono)
        then show "card (nodes - set (fst ?st)) < depth" using Suc.prems(3) by simp
        show "dep \<notin> set (snd ?st)" using False before by (auto simp: searched_def)
      qed
      moreover obtain visited' result' where vr': "collect nxt skip depth dep ?st = (visited', result')" by force
      ultimately have after: "searched nxt (nxt dep) ?st (visited', result')" by simp
      have "dep \<in> set visited' - set result'" using after False before by (auto simp: searched_def)
      moreover have "w \<in> {w. \<exists>x \<in> set (deps @ [dep]). (x, w) \<in> (edges nxt)\<^sup>*} \<union> set (snd st)"
        if "w \<in> set result'" for w
      proof -
        have "w \<in> set result \<or> (\<exists>x \<in> set (nxt dep). (x, w) \<in> (edges nxt)\<^sup>*)" using after that by (auto simp: searched_def)
        moreover have "(dep, w) \<in> (edges nxt)\<^sup>*" if "x \<in> set (nxt dep)" "(x, w) \<in> (edges nxt)\<^sup>*" for x
          using that by (auto simp: edges_def intro: converse_rtrancl_into_rtrancl)
        ultimately show ?thesis using before by (fastforce simp: searched_def)
      qed
      ultimately have "searched nxt (deps @ [dep]) st (visited', result' @ [dep])"
        using after before False unfolding searched_def by (auto; blast)
      then show ?thesis using vr vr' noskip False by simp
    qed
  qed
  then show ?case by simp
qed simp

lemma search_start: "search_ok nxt vn ([], [])"
  by (simp add: search_ok_def)

lemma searched_reach:
  assumes "searched nxt (nxt vn) ([], []) st"
  shows "set (snd st) = {w. (vn, w) \<in> (edges nxt)\<^sup>+}"
proof
  show "set (snd st) \<subseteq> {w. (vn, w) \<in> (edges nxt)\<^sup>+}"
    using assms by (fastforce simp: searched_def edges_def intro: rtrancl_into_trancl2)
  show "{w. (vn, w) \<in> (edges nxt)\<^sup>+} \<subseteq> set (snd st)"
  proof clarify
    fix w assume "(vn, w) \<in> (edges nxt)\<^sup>+"
    then obtain x where "(vn, x) \<in> edges nxt" "(x, w) \<in> (edges nxt)\<^sup>*" by (meson tranclD)
    then show "w \<in> set (snd st)"
      using assms postorder_closed [of nxt "rev (snd st)" x w] by (auto simp: searched_def edges_def)
  qed
qed

section \<open>Properties\<close>

text \<open>C24: The downstream cascade. As long as views are not defined in a circle, the search ends with
  every view that depends on the refreshed one, directly or through others, each once, and no
  view comes before one that it depends on.\<close>

theorem downstream_topological:
  assumes "acyclic (edges (dependents_of M))"
  shows "distinct (GetDownstreamViews M v) \<and>
    set (GetDownstreamViews M v) = {w. (v, w) \<in> (edges (dependents_of M))\<^sup>+} \<and>
    sorted_wrt (\<lambda>x y. (y, x) \<notin> (edges (dependents_of M))\<^sup>*) (GetDownstreamViews M v)"
proof -
  let ?st = "collect (dependents_of M) (\<lambda>dep. dep = v) (Suc (length (delta_table_rows M))) v ([], [])"
  have "searched (dependents_of M) (dependents_of M v) ([], []) ?st"
  proof (rule collect_searches [OF assms, where nodes = "set (map fst (delta_table_rows M))"])
    show "set (dependents_of M x) \<subseteq> set (map fst (delta_table_rows M))" for x by (auto simp: dependents_of_def)
    show "\<not> dep = v" if "(v, dep) \<in> (edges (dependents_of M))\<^sup>+" for dep
      using that assms by (auto simp: acyclic_def)
    show "card (set (map fst (delta_table_rows M)) - set (fst ([], []))) < Suc (length (delta_table_rows M))"
      using card_length [of "map fst (delta_table_rows M)"] by simp
  qed (simp_all add: search_start)
  moreover from this have "postorder (dependents_of M) (rev (snd ?st))" by (simp add: searched_def)
  ultimately show ?thesis
    using searched_reach [of _ _ ?st] postorder_distinct [of _ "rev (snd ?st)"] postorder_sorted [of _ "rev (snd ?st)"]
    by (simp add: GetDownstreamViews_def)
qed

definition diamond :: view_metadata where
  "diamond = \<lparr>registered_views = [''a'', ''b'', ''c'', ''d''],
     delta_table_rows = [(''b'', ''openivm_delta_a''), (''c'', ''openivm_delta_a''),
       (''d'', ''openivm_delta_b''), (''d'', ''openivm_delta_c''), (''a'', ''openivm_delta_t'')]\<rparr>"

lemma diamond_edges:
  "dependents_of diamond ''a'' = [''b'', ''c'']" "dependents_of diamond ''b'' = [''d'']"
  "dependents_of diamond ''c'' = [''d'']" "dependents_of diamond ''d'' = []"
  "upstream_of diamond ''a'' = []" "upstream_of diamond ''b'' = [''a'']"
  "upstream_of diamond ''c'' = [''a'']" "upstream_of diamond ''d'' = [''b'', ''c'']"
  by code_simp+

lemma dependents_of_rows: "set (dependents_of M x) \<subseteq> fst ` set (delta_table_rows M)"
  by (auto simp: dependents_of_def)

lemma diamond_dependents: "y \<in> set (dependents_of diamond x) \<Longrightarrow> y \<in> {''a'', ''b'', ''c'', ''d''}"
  using dependents_of_rows [of diamond x] by (auto simp: diamond_def)

lemma diamond_upstream:
  assumes "x \<notin> {''b'', ''c'', ''d''}"
  shows "upstream_of diamond x = []"
proof (cases "x = ''a''")
  case True
  then show ?thesis by (simp only: diamond_edges)
next
  case False
  with assms have "GetDeltaTables diamond x = []" by (auto simp: GetDeltaTables_def diamond_def)
  then show ?thesis by (simp add: upstream_of_def)
qed

definition diamond_rank :: "string \<Rightarrow> nat" where
  "diamond_rank x = (if x = ''d'' then 3 else if x = ''b'' \<or> x = ''c'' then 2 else if x = ''a'' then 1 else 0)"

lemma diamond_acyclic: "acyclic (edges (dependents_of diamond))"
proof -
  have "diamond_rank x < diamond_rank y" if y: "y \<in> set (dependents_of diamond x)" for x y
  proof (cases "x \<in> {''a'', ''b'', ''c'', ''d''}")
    case True
    with y show ?thesis by (auto simp: diamond_edges diamond_rank_def)
  next
    case False
    with diamond_dependents [OF y] show ?thesis by (auto simp: diamond_rank_def)
  qed
  then have "edges (dependents_of diamond) \<subseteq> measure diamond_rank" by (auto simp: edges_def)
  then show ?thesis using wf_acyclic [OF wf_measure] acyclic_subset by blast
qed

theorem downstream_topological_witness:
  "GetDownstreamViews diamond ''a'' \<noteq> [] \<and> distinct (GetDownstreamViews diamond ''a'') \<and>
   hd (rev (GetDownstreamViews diamond ''a'')) = ''d''"
proof -
  have "GetDownstreamViews diamond ''a'' = [''c'', ''b'', ''d'']" by code_simp
  with downstream_topological [OF diamond_acyclic, of "''a''"] show ?thesis by simp
qed

text \<open>The upstream cascade. As long as views are not defined in a circle, the search ends with
  every view that the refreshed one reads, directly or through others, each once, and every
  view comes behind the views that it reads itself.\<close>

theorem upstream_ancestors_first:
  assumes "acyclic (edges (upstream_of M))"
  shows "distinct (GetUpstreamViews M v) \<and>
    set (GetUpstreamViews M v) = {w. (v, w) \<in> (edges (upstream_of M))\<^sup>+} \<and>
    sorted_wrt (\<lambda>x y. (x, y) \<notin> (edges (upstream_of M))\<^sup>*) (GetUpstreamViews M v)"
proof -
  let ?st = "collect (upstream_of M) (\<lambda>v. False) (Suc (length (registered_views M))) v ([], [])"
  have "searched (upstream_of M) (upstream_of M v) ([], []) ?st"
  proof (rule collect_searches [OF assms, where nodes = "set (registered_views M)"])
    show "set (upstream_of M x) \<subseteq> set (registered_views M)" for x by (auto simp: upstream_of_def IsBaseTable_def)
    show "card (set (registered_views M) - set (fst ([], []))) < Suc (length (registered_views M))"
      using card_length [of "registered_views M"] by simp
  qed (simp_all add: search_start)
  moreover from this have "postorder (upstream_of M) (rev (snd ?st))" by (simp add: searched_def)
  ultimately have "set (snd ?st) = {w. (v, w) \<in> (edges (upstream_of M))\<^sup>+}" "distinct (snd ?st)"
    "sorted_wrt (\<lambda>x y. (y, x) \<notin> (edges (upstream_of M))\<^sup>*) (rev (snd ?st))"
    using searched_reach [of _ _ ?st] postorder_distinct [of _ "rev (snd ?st)"] postorder_sorted [of _ "rev (snd ?st)"]
    by simp_all
  then show ?thesis by (simp add: GetUpstreamViews_def sorted_wrt_rev)
qed

lemma diamond_upstream_acyclic: "acyclic (edges (upstream_of diamond))"
proof -
  have "diamond_rank y < diamond_rank x" if y: "y \<in> set (upstream_of diamond x)" for x y
    using y diamond_upstream [of x]
    by (cases "x \<in> {''b'', ''c'', ''d''}") (auto simp: diamond_edges diamond_rank_def)
  then have "edges (upstream_of diamond) \<subseteq> (measure diamond_rank)\<inverse>" by (auto simp: edges_def)
  moreover have "acyclic ((measure diamond_rank)\<inverse>)" using wf_acyclic [OF wf_measure] by simp
  ultimately show ?thesis using acyclic_subset by blast
qed

theorem upstream_ancestors_first_witness:
  "GetUpstreamViews diamond ''d'' = [''a'', ''b'', ''c''] \<and> distinct (GetUpstreamViews diamond ''d'')"
proof -
  have "GetUpstreamViews diamond ''d'' = [''a'', ''b'', ''c'']" by code_simp
  with upstream_ancestors_first [OF diamond_upstream_acyclic, of "''d''"] show ?thesis by simp
qed

end
