(* ===== verification/Delta_Compile.thy ===== *)
theory Delta_Compile
  imports Ducklake_Terms Delta_Model
begin

text \<open>
  The delta compiler (\<open>delta/delta_compiler.cpp\<close>, \<open>delta/operators/*.cpp\<close>,
  \<open>delta/delta_helpers.cpp\<close>): a view plan is turned, operator by operator, into a plan that
  computes the change of the view with its multiplicity column. An operator of the view plan is
  dispatched by the kind of its node in the delta model; an operator of a copied subtree (a leaf
  of a join that is no plain scan) by its own type. The bindings of columns are not part of
  the model: a delta plan is a tree of operators, and each row carries its multiplicity.
\<close>

section \<open>Delta plans\<close>

text \<open>\<open>DeltaTableScan get since compact\<close> reads the delta table of the scan from \<open>since\<close> on,
  \<open>ChangeScans get start cur compact\<close> the insertions and deletions of a DuckLake table. The
  operator of a node keeps the data of the operator that it was made from.\<close>

datatype delta_plan =
    DeltaTableScan LogicalOperator string bool
  | ChangeScans LogicalOperator int int bool
  | EmptyDelta
  | StaticLeaf LogicalOperator
  | FilterDelta LogicalOperator delta_plan
  | ProjectionDelta LogicalOperator delta_plan
  | AggregateDelta LogicalOperator delta_plan
  | DistinctDelta LogicalOperator delta_plan
  | WindowDelta LogicalOperator delta_plan
  | UnnestDelta LogicalOperator delta_plan
  | UnionDelta "delta_plan list"
  | CteDelta LogicalOperator delta_plan delta_plan
  | CteRefDelta LogicalOperator
  | JoinDelta LogicalOperator join_terms "(nat \<times> delta_plan) list list"
  | DelimJoinDelta LogicalOperator "(nat list \<times> int) list" "(nat \<times> delta_plan) list"

datatype delta_error =
    NotSupportedKind DeltaModelNodeKind
  | NotSupportedType LogicalOperatorType
  | MissingNode LogicalOperatorType
  | MissingChild
  | TableFunctionScan
  | NoDeltaTable string
  | NoLastUpdate string
  | NoSnapshotId string
  | UnionWithoutAll
  | UnionWithoutChild
  | UnnestChildren
  | NotACte
  | NonLocal string
  | JoinError compile_error
  | DelimJoinType JoinType
  | NoBaseLeaves
  | TooManyBaseLeaves
  | EndlessRecursion

text \<open>\<open>table_is_ducklake\<close> is the type of the catalog of a scanned table, \<open>delta_table_exists\<close> the
  catalog lookup, \<open>compact_setting\<close> the setting \<open>openivm_compact_deltas\<close>.\<close>

record compile_context =
  compile_env :: duckdb_env
  compile_settings :: join_settings
  compile_queries :: join_queries
  compile_lake :: ducklake_queries
  compile_view :: string
  compile_model :: DeltaViewModel
  table_is_ducklake :: "LogicalOperator \<Rightarrow> bool"
  delta_table_exists :: "string \<Rightarrow> bool"
  compact_setting :: "bool option"

section \<open>Scans\<close>

definition CompactDeltasEnabled :: "compile_context \<Rightarrow> bool" where
  "CompactDeltasEnabled C = (case compact_setting C of Some b \<Rightarrow> b | None \<Rightarrow> True)"

definition CreateDuckLakeDeltaNode :: "compile_context \<Rightarrow> LogicalOperator \<Rightarrow> string \<Rightarrow> delta_error + delta_plan" where
  "CreateDuckLakeDeltaNode C get table =
     (case last_snapshot (compile_lake C) (compile_view C) table of
        Some (Some last_snap) \<Rightarrow>
          (let cur_snap = (case scan_snapshot (compile_lake C) get of None \<Rightarrow> 0 | Some s \<Rightarrow> s);
               start_snap = last_snap + 1
           in Inr (if start_snap > cur_snap then EmptyDelta
                   else ChangeScans get start_snap cur_snap (CompactDeltasEnabled C)))
      | _ \<Rightarrow> Inl (NoSnapshotId table))"

definition CreateDeltaGetNode :: "compile_context \<Rightarrow> LogicalOperator \<Rightarrow> delta_error + delta_plan" where
  "CreateDeltaGetNode C get =
     (case get_table (op_info get) of
        None \<Rightarrow> Inl TableFunctionScan
      | Some table \<Rightarrow>
          (if table_is_ducklake C get then CreateDuckLakeDeltaNode C get table
           else if \<not> delta_table_exists C (DeltaName table) then Inl (NoDeltaTable (DeltaName table))
           else (case last_update_of (compile_queries C) (compile_view C) (DeltaName table) of
                   Some (Some since) \<Rightarrow> Inr (DeltaTableScan get since (CompactDeltasEnabled C))
                 | _ \<Rightarrow> Inl (NoLastUpdate (DeltaName table)))))"

section \<open>Which rule compiles an operator\<close>

datatype delta_rule =
    CompileScanDelta | CompileFilterDelta | CompileProjectionDelta | CompileAggregateDelta
  | CompileJoin | CompileDelimJoin | CompileUnionDelta | CompileDistinctDelta | CompileWindowDelta
  | CompileTopKDelta | CompileCteDelta | CompileUnnestDelta | CompileConstantZeroDelta
  | CompileStaticConstantLeaf | CompileAsofJoinDelta | CompilePositionalJoinDelta | CompileSampleDelta

definition IsDelimJoinShape :: "LogicalOperatorType \<Rightarrow> bool" where
  "IsDelimJoinShape t \<longleftrightarrow> t \<in> {LOGICAL_DELIM_JOIN, LOGICAL_DEPENDENT_JOIN}"

fun CompileDeltaOperatorWithModel :: "DeltaModelNodeKind \<Rightarrow> LogicalOperatorType \<Rightarrow> delta_error + delta_rule" where
  "CompileDeltaOperatorWithModel Kind_SCAN t = Inr CompileScanDelta"
| "CompileDeltaOperatorWithModel Kind_FILTER t = Inr CompileFilterDelta"
| "CompileDeltaOperatorWithModel Kind_PROJECT t = Inr CompileProjectionDelta"
| "CompileDeltaOperatorWithModel Kind_AGGREGATE t = Inr CompileAggregateDelta"
| "CompileDeltaOperatorWithModel Kind_JOIN t = Inr (if IsDelimJoinShape t then CompileDelimJoin else CompileJoin)"
| "CompileDeltaOperatorWithModel Kind_SEMI_ANTI t = Inr (if IsDelimJoinShape t then CompileDelimJoin else CompileJoin)"
| "CompileDeltaOperatorWithModel Kind_UNION t = Inr CompileUnionDelta"
| "CompileDeltaOperatorWithModel Kind_DISTINCT t = Inr CompileDistinctDelta"
| "CompileDeltaOperatorWithModel Kind_WINDOW t = Inr CompileWindowDelta"
| "CompileDeltaOperatorWithModel Kind_TOP_K t = Inr CompileTopKDelta"
| "CompileDeltaOperatorWithModel Kind_CTE t = Inr CompileCteDelta"
| "CompileDeltaOperatorWithModel Kind_UNNEST t = Inr CompileUnnestDelta"
| "CompileDeltaOperatorWithModel Kind_CONSTANT t = Inr CompileConstantZeroDelta"
| "CompileDeltaOperatorWithModel Kind_ASOF_JOIN t = Inr CompileAsofJoinDelta"
| "CompileDeltaOperatorWithModel Kind_POSITIONAL_JOIN t = Inr CompilePositionalJoinDelta"
| "CompileDeltaOperatorWithModel Kind_SAMPLE t = Inr CompileSampleDelta"
| "CompileDeltaOperatorWithModel k t = Inl (NotSupportedKind k)"

definition CompileCopiedDeltaSubtree :: "LogicalOperatorType \<Rightarrow> delta_error + delta_rule" where
  "CompileCopiedDeltaSubtree t =
     (if t = LOGICAL_GET then Inr CompileScanDelta
      else if t \<in> {LOGICAL_COMPARISON_JOIN, LOGICAL_JOIN, LOGICAL_CROSS_PRODUCT, LOGICAL_ANY_JOIN} then Inr CompileJoin
      else if t \<in> {LOGICAL_DELIM_JOIN, LOGICAL_DEPENDENT_JOIN} then Inr CompileDelimJoin
      else if t = LOGICAL_PROJECTION then Inr CompileProjectionDelta
      else if t = LOGICAL_AGGREGATE_AND_GROUP_BY then Inr CompileAggregateDelta
      else if t = LOGICAL_FILTER then Inr CompileFilterDelta
      else if t = LOGICAL_UNION then Inr CompileUnionDelta
      else if t = LOGICAL_DISTINCT then Inr CompileDistinctDelta
      else if t = LOGICAL_WINDOW then Inr CompileWindowDelta
      else if t \<in> {LOGICAL_TOP_N, LOGICAL_LIMIT, LOGICAL_ORDER_BY} then Inr CompileTopKDelta
      else if t \<in> {LOGICAL_MATERIALIZED_CTE, LOGICAL_CTE_REF} then Inr CompileCteDelta
      else if t = LOGICAL_UNNEST then Inr CompileUnnestDelta
      else if t = LOGICAL_ASOF_JOIN then Inr CompileAsofJoinDelta
      else if t = LOGICAL_POSITIONAL_JOIN then Inr CompilePositionalJoinDelta
      else if t = LOGICAL_SAMPLE then Inr CompileSampleDelta
      else if t \<in> {LOGICAL_CHUNK_GET, LOGICAL_DUMMY_SCAN, LOGICAL_EXPRESSION_GET} then Inr CompileStaticConstantLeaf
      else Inl (NotSupportedType t))"

definition CompileNonModelLeaf :: "LogicalOperatorType \<Rightarrow> delta_error + delta_rule" where
  "CompileNonModelLeaf t =
     (if t \<in> {LOGICAL_CHUNK_GET, LOGICAL_DUMMY_SCAN, LOGICAL_EXPRESSION_GET} then Inr CompileConstantZeroDelta
      else Inl (MissingNode t))"

text \<open>\<open>node_by_plan\<close> maps the address of an operator, here its path, to the id of its node.\<close>

definition node_by_plan :: "DeltaViewModel \<Rightarrow> nat list \<Rightarrow> idx_t option" where
  "node_by_plan model =
     map_of (rev (List.map_filter (\<lambda>n. map_option (\<lambda>p. (p, node_id n)) (plan_node n)) (nodes model)))"

definition FindNode :: "DeltaViewModel \<Rightarrow> nat list \<Rightarrow> DeltaModelNode option" where
  "FindNode model path =
     (case node_by_plan model path of
        None \<Rightarrow> None
      | Some i \<Rightarrow> if length (nodes model) \<le> i then None else Some (nodes model ! i))"

text \<open>\<open>CompileInternal\<close>: the path of the operator in the view plan, or \<open>None\<close> in a copied subtree.\<close>

definition CompileInternal :: "compile_context \<Rightarrow> nat list option \<Rightarrow> LogicalOperator \<Rightarrow> delta_error + delta_rule" where
  "CompileInternal C place op =
     (case place of
        None \<Rightarrow> CompileCopiedDeltaSubtree (op_type op)
      | Some path \<Rightarrow>
          (case FindNode (compile_model C) path of
             None \<Rightarrow> CompileNonModelLeaf (op_type op)
           | Some node \<Rightarrow> CompileDeltaOperatorWithModel (kind node) (op_type op)))"

definition child_place :: "nat list option \<Rightarrow> nat \<Rightarrow> nat list option" where
  "child_place place i = map_option (\<lambda>path. path @ [i]) place"

section \<open>Filters over aggregates\<close>

fun below_projections :: "LogicalOperator \<Rightarrow> LogicalOperator" where
  "below_projections (LogicalOp t oi es cs) =
     (if t = LOGICAL_PROJECTION then (case cs of c # _ \<Rightarrow> below_projections c | [] \<Rightarrow> LogicalOp t oi es cs)
      else LogicalOp t oi es cs)"

definition having_shape :: "LogicalOperator \<Rightarrow> bool" where
  "having_shape op \<longleftrightarrow> expressions op \<noteq> [] \<and>
     (case children op of
        c # _ \<Rightarrow> op_type (below_projections c) = LOGICAL_AGGREGATE_AND_GROUP_BY
      | [] \<Rightarrow> False)"

section \<open>Correlated joins\<close>

definition IsJoinNode :: "LogicalOperatorType \<Rightarrow> bool" where
  "IsJoinNode t \<longleftrightarrow> t \<in> {LOGICAL_COMPARISON_JOIN, LOGICAL_JOIN, LOGICAL_CROSS_PRODUCT, LOGICAL_ANY_JOIN,
     LOGICAL_DELIM_JOIN, LOGICAL_DEPENDENT_JOIN}"

fun CollectBaseLeaves :: "LogicalOperator \<Rightarrow> nat list \<Rightarrow> (nat list \<times> LogicalOperator) list"
  and collect_base_children :: "LogicalOperator list \<Rightarrow> nat \<Rightarrow> nat list \<Rightarrow> (nat list \<times> LogicalOperator) list" where
  "CollectBaseLeaves (LogicalOp t oi es cs) path =
     (if t = LOGICAL_DELIM_GET then []
      else if t = LOGICAL_GET then
        (if get_table oi \<noteq> None then [(path, LogicalOp t oi es cs)] else [])
      else collect_base_children cs 0 path)"
| "collect_base_children [] i path = []"
| "collect_base_children (c # cs) i path = CollectBaseLeaves c (path @ [i]) @ collect_base_children cs (i + 1) path"

fun VerifyDelimJoinTypes :: "LogicalOperator \<Rightarrow> JoinType option"
  and verify_delim_children :: "LogicalOperator list \<Rightarrow> JoinType option" where
  "VerifyDelimJoinTypes (LogicalOp t oi es cs) =
     (case join_type oi of
        Some jt \<Rightarrow>
          (if IsJoinNode t \<and> jt \<notin> {JOIN_INNER, JOIN_LEFT, JOIN_RIGHT, JOIN_OUTER, JOIN_MARK, JOIN_SEMI, JOIN_ANTI,
                JOIN_RIGHT_SEMI, JOIN_RIGHT_ANTI, JOIN_SINGLE}
           then Some jt else verify_delim_children cs)
      | None \<Rightarrow> verify_delim_children cs)"
| "verify_delim_children [] = None"
| "verify_delim_children (c # cs) =
     (case VerifyDelimJoinTypes c of Some jt \<Rightarrow> Some jt | None \<Rightarrow> verify_delim_children cs)"

fun map_error :: "('a \<Rightarrow> 'e + 'b) \<Rightarrow> 'a list \<Rightarrow> 'e + 'b list" where
  "map_error f [] = Inr []"
| "map_error f (x # xs) =
     (case f x of
        Inl e \<Rightarrow> Inl e
      | Inr y \<Rightarrow> (case map_error f xs of Inl e \<Rightarrow> Inl e | Inr ys \<Rightarrow> Inr (y # ys)))"

text \<open>One term for every non-empty set of base leaves; all of a term's deltas are scans. The sign
  is that of the multiplicity product (\<open>BuildMultiplicityProduct\<close>).\<close>

definition BuildMultiplicityProduct :: "nat list \<Rightarrow> int" where
  "BuildMultiplicityProduct deltas = (if even (length deltas) then - 1 else 1)"

definition delim_terms :: "nat \<Rightarrow> (nat list \<times> int) list" where
  "delim_terms n =
     map (\<lambda>m. let deltas = filter (bit m) [0 ..< n] in (deltas, BuildMultiplicityProduct deltas))
       [1 ..< (2 :: nat) ^ n]"

definition CompileDelimJoinDelta :: "compile_context \<Rightarrow> LogicalOperator \<Rightarrow> delta_error + delta_plan" where
  "CompileDelimJoinDelta C op =
     (case VerifyDelimJoinTypes op of
        Some jt \<Rightarrow> Inl (DelimJoinType jt)
      | None \<Rightarrow>
          (let leaves = map snd (CollectBaseLeaves op [])
           in if leaves = [] then Inl NoBaseLeaves
              else if length leaves > MAX_JOIN_TABLES then Inl TooManyBaseLeaves
              else (case map_error (CreateDeltaGetNode C) leaves of
                      Inl e \<Rightarrow> Inl e
                    | Inr ds \<Rightarrow> Inr (DelimJoinDelta op (delim_terms (length leaves)) (zip [0 ..< length leaves] ds)))))"

section \<open>The compiler\<close>

text \<open>The leaves that a term reads as deltas, in their order.\<close>

definition delta_leaves :: "join_terms \<Rightarrow> nat list list" where
  "delta_leaves ts =
     (case ts of
        InclusionExclusionTerms terms \<Rightarrow> map (\<lambda>t. map fst (term_deltas t)) terms
      | DuckLakeTerms terms \<Rightarrow> map (\<lambda>t. [fst (duck_delta t)]) terms)"

lemma leaf_size:
  "leaf \<in> set (CollectJoinLeaves op path right) \<Longrightarrow>
     size (leaf_node leaf) \<le> size op \<and> (leaf_path leaf \<noteq> path \<longrightarrow> size (leaf_node leaf) < size op)"
proof (induction op arbitrary: path right rule: join_tree_induct)
  case (join t oi es l r rest)
  then consider b where "leaf \<in> set (CollectJoinLeaves l (path @ [0]) b)"
    | b where "leaf \<in> set (CollectJoinLeaves r (path @ [1]) b)"
    by (auto simp: join_simps)
  then show ?case
  proof cases
    case 1
    with join.IH(1) have "size (leaf_node leaf) \<le> size l" by blast
    then show ?thesis by simp
  next
    case 2
    with join.IH(2) have "size (leaf_node leaf) \<le> size r" by blast
    then show ?thesis by simp
  qed
qed (simp_all add: join_simps)

lemma leaf_nth_size:
  assumes "\<not> length (CollectJoinLeaves op [] False) \<le> i" "leaf_path (CollectJoinLeaves op [] False ! i) \<noteq> []"
  shows "size (leaf_node (CollectJoinLeaves op [] False ! i)) < size op"
  using assms leaf_size [of "CollectJoinLeaves op [] False ! i" op "[]" False] by (meson not_le nth_mem)

lemmas join_leaf_size = leaf_nth_size [of "LogicalOp t oi es cs" for t oi es cs, simplified]

lemma map_error_cong [fundef_cong]:
  "xs = ys \<Longrightarrow> (\<And>x. x \<in> set ys \<Longrightarrow> f x = g x) \<Longrightarrow> map_error f xs = map_error g ys"
proof (induction xs arbitrary: ys)
  case (Cons x xs)
  then have eq: "map_error f xs = map_error g xs" "f x = g x" by auto
  show ?case by (cases "g x") (simp_all add: Cons.prems(1) [symmetric] eq)
qed simp

text \<open>A leaf at the root of the join is the join itself: a \<open>LOGICAL_JOIN\<close>, which the join rule does
  not look into, is compiled by the same rule again and again.\<close>

function compile_delta :: "compile_context \<Rightarrow> nat list option \<Rightarrow> LogicalOperator \<Rightarrow> delta_error + delta_plan" where
  "compile_delta C place (LogicalOp t oi es cs) =
     (let op = LogicalOp t oi es cs;
          child = (\<lambda>f. case cs of [] \<Rightarrow> Inl MissingChild | c # _ \<Rightarrow>
                         (case compile_delta C (child_place place 0) c of Inl e \<Rightarrow> Inl e | Inr d \<Rightarrow> Inr (f d)))
      in case CompileInternal C place op of
           Inl e \<Rightarrow> Inl e
         | Inr r \<Rightarrow>
             (case r of
                CompileScanDelta \<Rightarrow> CreateDeltaGetNode C op
              | CompileFilterDelta \<Rightarrow> child (\<lambda>d. if es = [] \<or> having_shape op then d else FilterDelta op d)
              | CompileProjectionDelta \<Rightarrow> child (ProjectionDelta op)
              | CompileAggregateDelta \<Rightarrow> child (AggregateDelta op)
              | CompileDistinctDelta \<Rightarrow> child (DistinctDelta op)
              | CompileWindowDelta \<Rightarrow> child (WindowDelta op)
              | CompileTopKDelta \<Rightarrow> child (\<lambda>d. d)
              | CompileUnionDelta \<Rightarrow>
                  (if \<not> setop_all oi then Inl UnionWithoutAll
                   else if cs = [] then Inl UnionWithoutChild
                   else (case map_error (\<lambda>i. compile_delta C (child_place place i) (cs ! i)) [0 ..< length cs] of
                           Inl e \<Rightarrow> Inl e
                         | Inr ds \<Rightarrow> Inr (UnionDelta ds)))
              | CompileUnnestDelta \<Rightarrow> if length cs \<noteq> 1 then Inl UnnestChildren else child (UnnestDelta op)
              | CompileCteDelta \<Rightarrow>
                  (if t = LOGICAL_MATERIALIZED_CTE then
                     (case cs of
                        def # consumer # _ \<Rightarrow>
                          (case compile_delta C (child_place place 0) def of
                             Inl e \<Rightarrow> Inl e
                           | Inr d \<Rightarrow>
                               (case compile_delta C (child_place place 1) consumer of
                                  Inl e \<Rightarrow> Inl e
                                | Inr c \<Rightarrow> Inr (CteDelta op d c)))
                      | _ \<Rightarrow> Inl MissingChild)
                   else if t = LOGICAL_CTE_REF then Inr (CteRefDelta op)
                   else Inl NotACte)
              | CompileConstantZeroDelta \<Rightarrow> Inr EmptyDelta
              | CompileStaticConstantLeaf \<Rightarrow> Inr (StaticLeaf op)
              | CompileAsofJoinDelta \<Rightarrow> Inl (NonLocal ''ASOF_JOIN'')
              | CompilePositionalJoinDelta \<Rightarrow> Inl (NonLocal ''POSITIONAL_JOIN'')
              | CompileSampleDelta \<Rightarrow> Inl (NonLocal ''SAMPLE'')
              | CompileDelimJoin \<Rightarrow> CompileDelimJoinDelta C op
              | CompileJoin \<Rightarrow>
                  (case CompileJoinDelta (compile_env C) (compile_settings C) (compile_queries C) (compile_lake C)
                          (compile_view C) op of
                     Inl e \<Rightarrow> Inl (JoinError e)
                   | Inr terms \<Rightarrow>
                       (let leaves = CollectJoinLeaves op [] False
                        in case map_error (map_error
                             (\<lambda>i. if i \<ge> length leaves then Inl MissingChild
                                  else if leaf_is_get (leaves ! i) then
                                    (case CreateDeltaGetNode C (leaf_node (leaves ! i)) of
                                       Inl e \<Rightarrow> Inl e | Inr d \<Rightarrow> Inr (i, d))
                                  else if leaf_path (leaves ! i) = [] then Inl EndlessRecursion
                                  else (case compile_delta C None (leaf_node (leaves ! i)) of
                                          Inl e \<Rightarrow> Inl e | Inr d \<Rightarrow> Inr (i, d)))) (delta_leaves terms) of
                             Inl e \<Rightarrow> Inl e
                           | Inr compiled \<Rightarrow> Inr (JoinDelta op terms compiled)))))"
  by pat_completeness auto
termination
  by (relation "measure (\<lambda>(C, place, op). size op)") (auto dest!: size_in_list nth_mem intro: join_leaf_size)

declare compile_delta.simps [simp del]

end
