(* ===== verification/Delta_Semantics.thy ===== *)
theory Delta_Semantics
  imports Delta_Compile
begin

text \<open>
  What view plans and compiled delta plans compute. A relation is a Z-set; what an operator does
  with a row (the scan with its pushed-down filters, the filter, the projection, the list that an
  \<open>UNNEST\<close> expands) is a parameter, and so are the operators that no rule treats row by row. A
  view is maintained without its \<open>LIMIT\<close>, \<open>TOP_N\<close> and \<open>ORDER BY\<close>, which are applied when it is
  read.
\<close>

record ('r, 'v) plan_semantics =
  scan_row :: "LogicalOperator \<Rightarrow> 'r \<Rightarrow> 'r list"
  keep_row :: "LogicalOperator \<Rightarrow> 'r \<Rightarrow> bool"
  project_row :: "LogicalOperator \<Rightarrow> 'r \<Rightarrow> 'r"
  unnest_row :: "LogicalOperator \<Rightarrow> 'r \<Rightarrow> 'r list"
  constant_rows :: "LogicalOperator \<Rightarrow> 'r list"
  join_values :: "('r, 'v) row_semantics"
  join_row :: "LogicalOperator \<Rightarrow> 'r jrow \<Rightarrow> 'r"
  other_rows :: "LogicalOperator \<Rightarrow> 'r zset list \<Rightarrow> 'r zset"

abbreviation unit_rows :: "'r list \<Rightarrow> 'r zset" where
  "unit_rows rows \<equiv> map (\<lambda>r. (r, 1)) rows"

section \<open>View plans\<close>

definition is_constant_leaf :: "LogicalOperatorType \<Rightarrow> bool" where
  "is_constant_leaf t \<longleftrightarrow> t \<in> {LOGICAL_CHUNK_GET, LOGICAL_DUMMY_SCAN, LOGICAL_EXPRESSION_GET}"

definition is_top_k :: "LogicalOperatorType \<Rightarrow> bool" where
  "is_top_k t \<longleftrightarrow> t \<in> {LOGICAL_TOP_N, LOGICAL_LIMIT, LOGICAL_ORDER_BY}"

definition eval_operator :: "('r, 'v) plan_semantics \<Rightarrow> LogicalOperator \<Rightarrow> 'r zset list \<Rightarrow> 'r zset" where
  "eval_operator P op zs =
     (if op_type op = LOGICAL_UNION \<and> setop_all (op_info op) then concat zs
      else (case zs of
        [z] \<Rightarrow>
          (if op_type op = LOGICAL_FILTER then
             (if expressions op = [] then z else zfilter (keep_row P op) z)
           else if op_type op = LOGICAL_PROJECTION then zmap (project_row P op) z
           else if op_type op = LOGICAL_UNNEST then zbind (unnest_row P op) z
           else if is_top_k (op_type op) then z
           else other_rows P op zs)
      | _ \<Rightarrow> other_rows P op zs))"

function eval_plan :: "('r, 'v) plan_semantics \<Rightarrow> (string \<Rightarrow> 'r zset) \<Rightarrow> LogicalOperator \<Rightarrow> 'r zset" where
  "eval_plan P d (LogicalOp t oi es cs) =
     (let op = LogicalOp t oi es cs
      in if t = LOGICAL_GET then
           (case get_table oi of
              Some table \<Rightarrow> zbind (scan_row P op) (d table)
            | None \<Rightarrow> unit_rows (constant_rows P op))
         else if is_constant_leaf t then unit_rows (constant_rows P op)
         else if is_join_node t then
           (let leaves = CollectJoinLeaves op [] False
            in zmap (join_row P op)
                 (eval_join (join_values P)
                    (\<lambda>i. if \<not> length leaves \<le> i \<and> leaf_path (leaves ! i) \<noteq> []
                         then eval_plan P d (leaf_node (leaves ! i)) else []) 0 op))
         else eval_operator P op (map (eval_plan P d) cs))"
  by pat_completeness auto
termination
  by (relation "measure (\<lambda>(P, d, op). size op)") (auto dest!: size_in_list intro: join_leaf_size)

declare eval_plan.simps [simp del]

definition leaf_contents :: "('r, 'v) plan_semantics \<Rightarrow> (string \<Rightarrow> 'r zset) \<Rightarrow> LogicalOperator \<Rightarrow> nat \<Rightarrow> 'r zset" where
  "leaf_contents P d op i = eval_plan P d (leaf_node (CollectJoinLeaves op [] False ! i))"

lemma join_leaf_path:
  assumes "is_join_node t" "leaf \<in> set (CollectJoinLeaves (LogicalOp t oi es cs) path right)"
  shows "leaf_path leaf \<noteq> path"
proof (cases "LogicalOp t oi es cs" rule: join_tree_cases)
  case (join t' oi' es' l r rest)
  have "length path < length (leaf_path leaf)" if "leaf \<in> set (CollectJoinLeaves c (path @ [i]) b)" for c i b
    using CollectJoinLeaves_paths [OF that] by auto
  with join assms show ?thesis by (auto simp: join_simps)
qed (use assms in \<open>auto simp: join_simps\<close>)

lemma join_leaf_nth:
  assumes "is_join_node t" "i < leaf_count (LogicalOp t oi es cs)"
  shows "leaf_path (CollectJoinLeaves (LogicalOp t oi es cs) [] False ! i) \<noteq> []"
  by (rule join_leaf_path [OF assms(1)]) (use assms(2) in \<open>auto intro: nth_mem\<close>)

lemma join_leaf_smaller:
  assumes "is_join_node t" "i < leaf_count (LogicalOp t oi es cs)"
  shows "size (leaf_node (CollectJoinLeaves (LogicalOp t oi es cs) [] False ! i)) < size (LogicalOp t oi es cs)"
  by (rule leaf_nth_size) (use assms join_leaf_nth in simp_all)

named_theorems eval_plan_simps \<open>\<open>eval_plan\<close>, one operator at a time\<close>

lemma eval_plan_scan [eval_plan_simps]:
  "eval_plan P d (LogicalOp LOGICAL_GET oi es cs) =
     (case get_table oi of
        Some table \<Rightarrow> zbind (scan_row P (LogicalOp LOGICAL_GET oi es cs)) (d table)
      | None \<Rightarrow> unit_rows (constant_rows P (LogicalOp LOGICAL_GET oi es cs)))"
  by (subst eval_plan.simps) (simp add: Let_def)

lemma eval_plan_constant [eval_plan_simps]:
  assumes "is_constant_leaf t"
  shows "eval_plan P d (LogicalOp t oi es cs) = unit_rows (constant_rows P (LogicalOp t oi es cs))"
proof -
  have "t \<noteq> LOGICAL_GET" using assms by (auto simp: is_constant_leaf_def)
  with assms show ?thesis by (subst eval_plan.simps) (simp add: Let_def)
qed

lemma join_node_kinds: "is_join_node t \<Longrightarrow> t \<noteq> LOGICAL_GET \<and> \<not> is_constant_leaf t"
  by (auto simp: is_join_node_def is_constant_leaf_def)

lemma eval_plan_join [eval_plan_simps]:
  assumes "is_join_node t"
  shows "eval_plan P d (LogicalOp t oi es cs) =
    zmap (join_row P (LogicalOp t oi es cs))
      (eval_join (join_values P) (leaf_contents P d (LogicalOp t oi es cs)) 0 (LogicalOp t oi es cs))"
proof -
  have "eval_join (join_values P)
      (\<lambda>i. if \<not> length (CollectJoinLeaves (LogicalOp t oi es cs) [] False) \<le> i \<and>
              leaf_path (CollectJoinLeaves (LogicalOp t oi es cs) [] False ! i) \<noteq> []
           then eval_plan P d (leaf_node (CollectJoinLeaves (LogicalOp t oi es cs) [] False ! i)) else [])
      0 (LogicalOp t oi es cs)
    = eval_join (join_values P) (leaf_contents P d (LogicalOp t oi es cs)) 0 (LogicalOp t oi es cs)"
    by (rule eval_join_cong) (auto simp: leaf_contents_def dest: join_leaf_nth [OF assms])
  with assms join_node_kinds [OF assms] show ?thesis by (subst eval_plan.simps) (simp add: Let_def)
qed

lemma eval_plan_operator [eval_plan_simps]:
  assumes "t \<noteq> LOGICAL_GET" "\<not> is_constant_leaf t" "\<not> is_join_node t"
  shows "eval_plan P d (LogicalOp t oi es cs) = eval_operator P (LogicalOp t oi es cs) (map (eval_plan P d) cs)"
  using assms by (subst eval_plan.simps) (simp add: Let_def)

section \<open>Delta plans\<close>

text \<open>The tables now, the rows of each delta table since the last refresh, the change feed of a
  DuckLake table between two snapshots, and the content of a leaf at a snapshot.\<close>

record 'r plan_data =
  tables_now :: "string \<Rightarrow> 'r zset"
  pending_rows :: "string \<Rightarrow> 'r zset"
  change_feed :: "string \<Rightarrow> int \<Rightarrow> int \<Rightarrow> 'r zset"
  leaf_snapshot_rows :: "LogicalOperator \<Rightarrow> int \<Rightarrow> 'r zset"

definition compacted :: "bool \<Rightarrow> 'r zset \<Rightarrow> 'r zset" where
  "compacted compact z = (if compact then zcompact z else z)"

definition scanned :: "LogicalOperator \<Rightarrow> string" where
  "scanned get = (case get_table (op_info get) of Some table \<Rightarrow> table | None \<Rightarrow> [])"

definition given :: "(nat \<times> 'r zset) list \<Rightarrow> nat \<Rightarrow> 'r zset" where
  "given deltas i = (case map_of deltas i of Some z \<Rightarrow> z | None \<Rightarrow> [])"

definition eval_join_delta ::
  "('r, 'v) plan_semantics \<Rightarrow> 'r plan_data \<Rightarrow> LogicalOperator \<Rightarrow> join_terms \<Rightarrow> (nat \<times> 'r zset) list list \<Rightarrow> 'r zset" where
  "eval_join_delta P D op terms deltas =
     zmap (join_row P op)
       (case terms of
          InclusionExclusionTerms ts \<Rightarrow>
            concat (map2 (\<lambda>t ds. eval_delta_term (join_values P) (given ds) (leaf_contents P (tables_now D) op) t) ts deltas)
        | DuckLakeTerms ts \<Rightarrow>
            concat (map2 (\<lambda>t ds. eval_ducklake_term (join_values P) (given ds) (leaf_contents P (tables_now D) op)
                (\<lambda>i. leaf_snapshot_rows D (leaf_node (CollectJoinLeaves op [] False ! i))) t) ts deltas))"

primrec eval_delta :: "('r, 'v) plan_semantics \<Rightarrow> 'r plan_data \<Rightarrow> delta_plan \<Rightarrow> 'r zset" where
  "eval_delta P D (DeltaTableScan get since compact) =
     compacted compact (zbind (scan_row P get) (pending_rows D (DeltaName (scanned get))))"
| "eval_delta P D (ChangeScans get start cur compact) =
     compacted compact (zbind (scan_row P get) (change_feed D (scanned get) start cur))"
| "eval_delta P D EmptyDelta = []"
| "eval_delta P D (StaticLeaf op) = unit_rows (constant_rows P op)"
| "eval_delta P D (FilterDelta op x) = zfilter (keep_row P op) (eval_delta P D x)"
| "eval_delta P D (ProjectionDelta op x) = zmap (project_row P op) (eval_delta P D x)"
| "eval_delta P D (UnnestDelta op x) = zbind (unnest_row P op) (eval_delta P D x)"
| "eval_delta P D (UnionDelta xs) = concat (map (eval_delta P D) xs)"
| "eval_delta P D (AggregateDelta op x) = other_rows P op [eval_delta P D x]"
| "eval_delta P D (DistinctDelta op x) = other_rows P op [eval_delta P D x]"
| "eval_delta P D (WindowDelta op x) = other_rows P op [eval_delta P D x]"
| "eval_delta P D (CteDelta op x y) = other_rows P op [eval_delta P D x, eval_delta P D y]"
| "eval_delta P D (CteRefDelta op) = other_rows P op []"
| "eval_delta P D (JoinDelta op terms xs) =
     eval_join_delta P D op terms (map (map (map_prod (\<lambda>i. i) (eval_delta P D))) xs)"
| "eval_delta P D (DelimJoinDelta op terms xs) =
     other_rows P op (map snd (map (map_prod (\<lambda>i. i) (eval_delta P D)) xs))"

section \<open>Linearity\<close>

named_theorems delta_linear \<open>operators that carry a change through\<close>

lemma plus_delta_zfilter [delta_linear]: "plus_delta x y z \<Longrightarrow> plus_delta (zfilter p x) (zfilter p y) (zfilter p z)"
  by (simp add: plus_delta_zsum)

lemma plus_delta_zmap [delta_linear]: "plus_delta x y z \<Longrightarrow> plus_delta (zmap f x) (zmap f y) (zmap f z)"
  by (simp add: plus_delta_zsum)

lemma plus_delta_zbind [delta_linear]: "plus_delta x y z \<Longrightarrow> plus_delta (zbind f x) (zbind f y) (zbind f z)"
  by (simp add: plus_delta_zsum)

lemma plus_delta_none: "plus_delta x [] x"
  by (simp add: plus_delta_zsum)

lemma plus_delta_compacted: "plus_delta x y z \<Longrightarrow> plus_delta x (compacted c y) z"
  using zcompact_zeq [of y] by (simp add: compacted_def plus_delta_zsum zeq_zsum)

lemma plus_delta_concat:
  "(\<And>i. i < n \<Longrightarrow> plus_delta (f i) (g i) (h i)) \<Longrightarrow>
     plus_delta (concat (map f [0 ..< n])) (concat (map g [0 ..< n])) (concat (map h [0 ..< n]))"
  by (induction n) (simp_all add: plus_delta_zsum)

text \<open>A plan without scans of tables does not change.\<close>

fun static_plan :: "LogicalOperator \<Rightarrow> bool" where
  "static_plan (LogicalOp t oi es cs) \<longleftrightarrow> (t = LOGICAL_GET \<longrightarrow> get_table oi = None) \<and> list_all static_plan cs"

lemma static_leaf:
  "static_plan op \<Longrightarrow> leaf \<in> set (CollectJoinLeaves op path right) \<Longrightarrow> static_plan (leaf_node leaf)"
  by (induction op arbitrary: path right rule: join_tree_induct) (auto simp: join_simps)

lemma eval_plan_static:
  assumes "static_plan op"
  shows "eval_plan P d op = eval_plan P d' op"
  using assms
proof (induction op rule: measure_induct_rule [where f = size])
  case (less op)
  obtain t oi es cs where op: "op = LogicalOp t oi es cs" by (cases op) blast
  have get: "t = LOGICAL_GET \<Longrightarrow> get_table oi = None" and cs: "list_all static_plan cs"
    using less.prems op by simp_all
  consider "t = LOGICAL_GET" | "is_constant_leaf t" | "is_join_node t"
    | "t \<noteq> LOGICAL_GET" "\<not> is_constant_leaf t" "\<not> is_join_node t" by blast
  then show ?case
  proof cases
    case 1
    with get show ?thesis by (simp add: op eval_plan_simps)
  next
    case 3
    have "leaf_contents P d op i = leaf_contents P d' op i" if "i < leaf_count op" for i
      unfolding leaf_contents_def
    proof (rule less.IH)
      have "CollectJoinLeaves op [] False ! i \<in> set (CollectJoinLeaves op [] False)" using that by (auto intro: nth_mem)
      then show "static_plan (leaf_node (CollectJoinLeaves op [] False ! i))" by (rule static_leaf [OF less.prems])
      show "size (leaf_node (CollectJoinLeaves op [] False ! i)) < size op"
        using join_leaf_smaller [OF 3] that unfolding op by blast
    qed
    then have "eval_join (join_values P) (leaf_contents P d op) 0 op = eval_join (join_values P) (leaf_contents P d' op) 0 op"
      by (intro eval_join_cong) simp
    with 3 show ?thesis by (simp add: op eval_plan_simps)
  next
    case 4
    have "eval_plan P d c = eval_plan P d' c" if "c \<in> set cs" for c
      by (rule less.IH) (use that cs op in \<open>auto simp: list_all_iff dest!: size_in_list\<close>)
    then have "map (eval_plan P d) cs = map (eval_plan P d') cs" by simp
    then show ?thesis by (simp only: op eval_plan_operator [OF 4])
  qed (simp add: op eval_plan_simps)
qed

end
