(* ===== verification/Delta_Correct.thy ===== *)
theory Delta_Correct
  imports Delta_Semantics Join_Properties
begin

text \<open>
  The delta compiler is correct on the row-wise operators and joins: the compiled plan computes
  the change of the view plan. The induction follows the plan; a join takes the deltas of its
  leaves from the induction hypothesis and its terms from \<open>Join_Properties\<close>.
\<close>

section \<open>Dispatch\<close>

text \<open>An operator of the view plan has its node in the model, one of a copied subtree has none.\<close>

definition placed :: "compile_context \<Rightarrow> bool \<Rightarrow> nat list option \<Rightarrow> LogicalOperator \<Rightarrow> bool" where
  "placed C copied place op \<longleftrightarrow>
     (if copied then place = None
      else (\<exists>path. place = Some path \<and>
              (\<forall>(p, q) \<in> set (post_order path op).
                 \<exists>n. FindNode (compile_model C) p = Some n \<and> kind n = NodeKindForOperator q)))"

definition rule_of :: "bool \<Rightarrow> LogicalOperator \<Rightarrow> delta_error + delta_rule" where
  "rule_of copied op =
     (if copied then CompileCopiedDeltaSubtree (op_type op)
      else CompileDeltaOperatorWithModel (NodeKindForOperator op) (op_type op))"

lemma post_order_children:
  "k < length cs \<Longrightarrow> set (post_order (path @ [i + k]) (cs ! k)) \<subseteq> set (post_order_list path i cs)"
proof (induction cs arbitrary: i k)
  case (Cons c cs)
  show ?case
  proof (cases k)
    case (Suc k')
    with Cons.IH [of k' "i + 1"] Cons.prems show ?thesis by auto
  qed simp
qed simp

lemma placed_rule:
  assumes "placed C copied place op"
  shows "CompileInternal C place op = rule_of copied op"
proof (cases copied)
  case False
  with assms obtain path where path: "place = Some path"
    and nodes: "\<forall>(p, q) \<in> set (post_order path op). \<exists>n. FindNode (compile_model C) p = Some n \<and> kind n = NodeKindForOperator q"
    by (auto simp: placed_def)
  have "(path, op) \<in> set (post_order path op)" by (cases op) simp
  with nodes obtain n where "FindNode (compile_model C) path = Some n" "kind n = NodeKindForOperator op" by blast
  with path False show ?thesis by (simp add: CompileInternal_def rule_of_def)
qed (use assms in \<open>simp add: placed_def CompileInternal_def rule_of_def\<close>)

lemma placed_child:
  assumes "placed C copied place (LogicalOp t oi es cs)" "i < length cs"
  shows "placed C copied (child_place place i) (cs ! i)"
proof (cases copied)
  case False
  with assms(1) obtain path where path: "place = Some path"
    and nodes: "\<forall>(p, q) \<in> set (post_order path (LogicalOp t oi es cs)).
      \<exists>n. FindNode (compile_model C) p = Some n \<and> kind n = NodeKindForOperator q"
    by (auto simp: placed_def)
  have "set (post_order (path @ [i]) (cs ! i)) \<subseteq> set (post_order path (LogicalOp t oi es cs))"
    using post_order_children [OF assms(2), of path 0] by auto
  with nodes path False show ?thesis unfolding placed_def child_place_def by (auto split: prod.splits)
qed (use assms in \<open>simp add: placed_def child_place_def\<close>)

lemma placed_copied [simp]: "placed C True None op"
  by (simp add: placed_def)

section \<open>Lists that may fail\<close>

lemma map_error_Inr:
  "(\<And>x. x \<in> set xs \<Longrightarrow> f x = Inr (g x)) \<Longrightarrow> map_error f xs = Inr (map g xs)"
  by (induction xs) auto

section \<open>Plans that the compiler maintains\<close>

definition leaf_of :: "LogicalOperator \<Rightarrow> nat \<Rightarrow> JoinLeafInfo" where
  "leaf_of op i = CollectJoinLeaves op [] False ! i"

definition constant_side :: "compile_context \<Rightarrow> LogicalOperator \<Rightarrow> nat \<Rightarrow> bool" where
  "constant_side C op i \<longleftrightarrow> skip_empty_deltas (compile_settings C) \<and> static_plan (leaf_node (leaf_of op i)) \<and>
     constant_leaf (detect_leaf (compile_queries C) (compile_view C) (leaf_of op i))"

text \<open>The change of a leaf: none if the leaf reads no table and is seen to be constant, else what its compiled delta computes.\<close>

definition leaf_delta ::
  "compile_context \<Rightarrow> ('r, 'v) plan_semantics \<Rightarrow> 'r plan_data \<Rightarrow> LogicalOperator \<Rightarrow> nat \<Rightarrow> 'r zset" where
  "leaf_delta C P D op i =
     (if constant_side C op i then []
      else (case compile_delta C None (leaf_node (leaf_of op i)) of Inr d \<Rightarrow> eval_delta P D d | Inl e \<Rightarrow> []))"

inductive maintainable ::
  "compile_context \<Rightarrow> ('r, 'v) plan_semantics \<Rightarrow> (string \<Rightarrow> 'r zset) \<Rightarrow> 'r plan_data \<Rightarrow> bool \<Rightarrow> LogicalOperator \<Rightarrow> bool"
  for C P old D where
  scan: "get_table oi = Some table \<Longrightarrow> \<not> table_is_ducklake C (LogicalOp LOGICAL_GET oi es cs) \<Longrightarrow>
     delta_table_exists C (DeltaName table) \<Longrightarrow>
     last_update_of (compile_queries C) (compile_view C) (DeltaName table) = Some (Some since) \<Longrightarrow>
     plus_delta (old table) (pending_rows D (DeltaName table)) (tables_now D table) \<Longrightarrow>
     maintainable C P old D copied (LogicalOp LOGICAL_GET oi es cs)"
| filter: "maintainable C P old D copied c \<Longrightarrow> \<not> having_shape (LogicalOp LOGICAL_FILTER oi es [c]) \<Longrightarrow>
     maintainable C P old D copied (LogicalOp LOGICAL_FILTER oi es [c])"
| projection: "maintainable C P old D copied c \<Longrightarrow>
     maintainable C P old D copied (LogicalOp LOGICAL_PROJECTION oi es [c])"
| unnest: "maintainable C P old D copied c \<Longrightarrow> maintainable C P old D copied (LogicalOp LOGICAL_UNNEST oi es [c])"
| top_k: "is_top_k t \<Longrightarrow> maintainable C P old D copied c \<Longrightarrow> maintainable C P old D copied (LogicalOp t oi es [c])"
| union: "setop_all oi \<Longrightarrow> cs \<noteq> [] \<Longrightarrow> (\<And>i. i < length cs \<Longrightarrow> maintainable C P old D copied (cs ! i)) \<Longrightarrow>
     maintainable C P old D copied (LogicalOp LOGICAL_UNION oi es cs)"
| constants: "is_constant_leaf t \<Longrightarrow> maintainable C P old D False (LogicalOp t oi es cs)"
| join: "is_join_node t \<Longrightarrow> op = LogicalOp t oi es cs \<Longrightarrow>
     0 < leaf_count op \<Longrightarrow> leaf_count op \<le> MAX_JOIN_TABLES \<Longrightarrow>
     \<not> all_ducklake (compile_settings C) (CollectJoinLeaves op [] False) \<Longrightarrow>
     (\<And>i. i < leaf_count op \<Longrightarrow>
        constant_side C op i \<or> maintainable C P old D True (leaf_node (leaf_of op i))) \<Longrightarrow>
     join_sound (join_values P) (compile_env C) (compile_settings C) (compile_queries C) (compile_view C) op colv
       (fkv :: FKRelation \<Rightarrow> 'r \<Rightarrow> 'v option) pkv
       (leaf_contents P old op) (leaf_delta C P D op) (leaf_contents P (tables_now D) op) has_left \<Longrightarrow>
     maintainable C P old D copied op"

section \<open>One operator at a time\<close>

named_theorems compile_simps \<open>\<open>compile_delta\<close>, one rule at a time\<close>

definition first_child ::
  "compile_context \<Rightarrow> nat list option \<Rightarrow> LogicalOperator list \<Rightarrow> (delta_plan \<Rightarrow> delta_plan) \<Rightarrow> delta_error + delta_plan" where
  "first_child C place cs f =
     (case cs of [] \<Rightarrow> Inl MissingChild
      | c # _ \<Rightarrow> (case compile_delta C (child_place place 0) c of Inl e \<Rightarrow> Inl e | Inr d \<Rightarrow> Inr (f d)))"

lemma compile_row_rules [compile_simps]:
  assumes "CompileInternal C place (LogicalOp t oi es cs) = Inr r"
  shows
    "r = CompileScanDelta \<Longrightarrow> compile_delta C place (LogicalOp t oi es cs) = CreateDeltaGetNode C (LogicalOp t oi es cs)"
    "r = CompileFilterDelta \<Longrightarrow> compile_delta C place (LogicalOp t oi es cs) =
       first_child C place cs (\<lambda>d. if es = [] \<or> having_shape (LogicalOp t oi es cs) then d else FilterDelta (LogicalOp t oi es cs) d)"
    "r = CompileProjectionDelta \<Longrightarrow> compile_delta C place (LogicalOp t oi es cs) =
       first_child C place cs (ProjectionDelta (LogicalOp t oi es cs))"
    "r = CompileTopKDelta \<Longrightarrow> compile_delta C place (LogicalOp t oi es cs) = first_child C place cs (\<lambda>d. d)"
    "r = CompileUnnestDelta \<Longrightarrow> length cs = 1 \<Longrightarrow> compile_delta C place (LogicalOp t oi es cs) =
       first_child C place cs (UnnestDelta (LogicalOp t oi es cs))"
    "r = CompileConstantZeroDelta \<Longrightarrow> compile_delta C place (LogicalOp t oi es cs) = Inr EmptyDelta"
    "r = CompileStaticConstantLeaf \<Longrightarrow> compile_delta C place (LogicalOp t oi es cs) = Inr (StaticLeaf (LogicalOp t oi es cs))"
  using assms by (subst compile_delta.simps; simp add: Let_def first_child_def)+

lemma compile_union [compile_simps]:
  assumes "CompileInternal C place (LogicalOp t oi es cs) = Inr CompileUnionDelta" "setop_all oi" "cs \<noteq> []"
    and "\<And>i. i < length cs \<Longrightarrow> compile_delta C (child_place place i) (cs ! i) = Inr (ds i)"
  shows "compile_delta C place (LogicalOp t oi es cs) = Inr (UnionDelta (map ds [0 ..< length cs]))"
proof -
  have "map_error (\<lambda>i. compile_delta C (child_place place i) (cs ! i)) [0 ..< length cs] = Inr (map ds [0 ..< length cs])"
    by (rule map_error_Inr) (use assms(4) in simp)
  with assms(1-3) show ?thesis by (subst compile_delta.simps) (simp add: Let_def)
qed

text \<open>How a join compiles the delta of one leaf.\<close>

definition compile_leaf :: "compile_context \<Rightarrow> JoinLeafInfo list \<Rightarrow> nat \<Rightarrow> delta_error + (nat \<times> delta_plan)" where
  "compile_leaf C leaves i =
     (if i \<ge> length leaves then Inl MissingChild
      else if leaf_is_get (leaves ! i) then
        (case CreateDeltaGetNode C (leaf_node (leaves ! i)) of Inl e \<Rightarrow> Inl e | Inr d \<Rightarrow> Inr (i, d))
      else if leaf_path (leaves ! i) = [] then Inl EndlessRecursion
      else (case compile_delta C None (leaf_node (leaves ! i)) of Inl e \<Rightarrow> Inl e | Inr d \<Rightarrow> Inr (i, d)))"

lemma compile_join [compile_simps]:
  assumes "CompileInternal C place (LogicalOp t oi es cs) = Inr CompileJoin"
    and "CompileJoinDelta (compile_env C) (compile_settings C) (compile_queries C) (compile_lake C)
           (compile_view C) (LogicalOp t oi es cs) = Inr terms"
    and "\<And>is i. is \<in> set (delta_leaves terms) \<Longrightarrow> i \<in> set is \<Longrightarrow>
           compile_leaf C (CollectJoinLeaves (LogicalOp t oi es cs) [] False) i = Inr (i, ds i)"
  shows "compile_delta C place (LogicalOp t oi es cs) =
    Inr (JoinDelta (LogicalOp t oi es cs) terms (map (map (\<lambda>i. (i, ds i))) (delta_leaves terms)))"
proof -
  have "map_error (map_error (compile_leaf C (CollectJoinLeaves (LogicalOp t oi es cs) [] False))) (delta_leaves terms)
      = Inr (map (map (\<lambda>i. (i, ds i))) (delta_leaves terms))"
    by (intro map_error_Inr) (use assms(3) in auto)
  with assms(1,2) show ?thesis by (subst compile_delta.simps) (simp add: Let_def compile_leaf_def [abs_def])
qed

lemma rules_of [simp]:
  "rule_of copied (LogicalOp LOGICAL_GET oi es cs) = Inr CompileScanDelta"
  "rule_of copied (LogicalOp LOGICAL_FILTER oi es cs) = Inr CompileFilterDelta"
  "rule_of copied (LogicalOp LOGICAL_PROJECTION oi es cs) = Inr CompileProjectionDelta"
  "rule_of copied (LogicalOp LOGICAL_UNNEST oi es cs) = Inr CompileUnnestDelta"
  "rule_of copied (LogicalOp LOGICAL_UNION oi es cs) = Inr CompileUnionDelta"
  "is_top_k t \<Longrightarrow> rule_of copied (LogicalOp t oi es cs) = Inr CompileTopKDelta"
  "is_constant_leaf t \<Longrightarrow> rule_of False (LogicalOp t oi es cs) = Inr CompileConstantZeroDelta"
  "is_constant_leaf t \<Longrightarrow> rule_of True (LogicalOp t oi es cs) = Inr CompileStaticConstantLeaf"
  by (auto simp: rule_of_def CompileCopiedDeltaSubtree_def NodeKindForOperator_def is_top_k_def is_constant_leaf_def)

lemma rule_of_join [simp]:
  assumes "is_join_node t"
  shows "rule_of copied (LogicalOp t oi es cs) = Inr CompileJoin"
proof -
  have "t \<in> {LOGICAL_COMPARISON_JOIN, LOGICAL_CROSS_PRODUCT, LOGICAL_ANY_JOIN}"
    using assms by (simp add: is_join_node_def)
  then show ?thesis
    by (elim insertE) (simp_all add: rule_of_def CompileCopiedDeltaSubtree_def NodeKindForOperator_def IsDelimJoinShape_def)
qed

section \<open>The delta of a join\<close>

lemma leaf_is_get_iff:
  "leaf \<in> set (CollectJoinLeaves op path right) \<Longrightarrow> leaf_is_get leaf \<longleftrightarrow> op_type (leaf_node leaf) = LOGICAL_GET"
  by (induction op arbitrary: path right rule: join_tree_induct) (auto simp: join_simps)

text \<open>Every leaf that some term reads as a delta has its compiled delta.\<close>

lemma given_map: "i \<in> set is \<Longrightarrow> given (map (\<lambda>i. (i, z i)) is) i = z i"
  by (induction "is") (auto simp: given_def)

lemma eval_terms_given:
  assumes "\<And>t i. t \<in> set ts \<Longrightarrow> i \<in> fst ` set (term_deltas t) \<Longrightarrow> eval_delta P D (ds i) = dl i"
  shows "eval_join_delta P D op (InclusionExclusionTerms ts)
      (map (map (map_prod (\<lambda>i. i) (eval_delta P D))) (map (map (\<lambda>i. (i, ds i))) (delta_leaves (InclusionExclusionTerms ts))))
    = zmap (join_row P op) (eval_terms (join_values P) dl (leaf_contents P (tables_now D) op) ts)"
proof -
  have one: "eval_delta_term (join_values P) (given (map (\<lambda>i. (i, eval_delta P D (ds i))) (map fst (term_deltas t)))) cur t
      = eval_delta_term (join_values P) dl cur t" if "t \<in> set ts" for t cur
  proof -
    have "given (map (\<lambda>i. (i, eval_delta P D (ds i))) (map fst (term_deltas t))) i = dl i"
      if "i \<in> fst ` set (term_deltas t)" for i
      using given_map [of i "map fst (term_deltas t)" "\<lambda>i. eval_delta P D (ds i)"] assms [OF \<open>t \<in> set ts\<close> that] that
      by simp
    then have "(\<lambda>i. if i \<in> fst ` set (term_deltas t) then given (map (\<lambda>i. (i, eval_delta P D (ds i))) (map fst (term_deltas t))) i else cur i)
        = (\<lambda>i. if i \<in> fst ` set (term_deltas t) then dl i else cur i)" by auto
    then show ?thesis unfolding eval_delta_term_def by (rule arg_cong)
  qed
  have "map2 (\<lambda>t ds. eval_delta_term (join_values P) (given ds) cur t) ts
      (map (map (map_prod (\<lambda>i. i) (eval_delta P D))) (map (map (\<lambda>i. (i, ds i))) (map (\<lambda>t. map fst (term_deltas t)) ts)))
    = map (eval_delta_term (join_values P) dl cur) ts" for cur
    using one by (induction ts) (simp_all add: comp_def)
  then show ?thesis by (simp add: eval_join_delta_def delta_leaves_def eval_terms_def)
qed

lemma built_term_leaves:
  assumes "t \<in> set (BuildInclusionExclusionTerms E cfg q view plan leaves has_left)" "i \<in> fst ` set (term_deltas t)"
  shows "i < length leaves" and
    "skip_empty_deltas cfg \<Longrightarrow> \<not> constant_leaf (detect_leaf q view (leaves ! i))"
proof -
  obtain m where m: "t = build_term plan leaves has_left m" "\<not> pruned_mask E cfg q view plan leaves has_left m"
    using assms(1) by (auto simp: BuildInclusionExclusionTerms_def)
  then have i: "i < length leaves" "bit m i" using assms(2) by (auto simp: build_term_def Let_def)
  show "i < length leaves" by (rule i(1))
  assume skip: "skip_empty_deltas cfg"
  show "\<not> constant_leaf (detect_leaf q view (leaves ! i))"
  proof
    assume const: "constant_leaf (detect_leaf q view (leaves ! i))"
    then have "empty_delta (detect_leaf q view (leaves ! i))"
      by (auto simp: detect_leaf_def no_status_def constant_status_def count_status_def split: option.splits if_splits)
    then have "bit (skipped_empty_mask cfg (DetectDeltaStatus q view leaves)) i"
      using const skip i(1) by (simp add: skipped_empty_mask_def DetectDeltaStatus_def Let_def bit_simps)
    then have "m AND skipped_empty_mask cfg (DetectDeltaStatus q view leaves) \<noteq> 0"
      using i(2) masks_meet by blast
    with m(2) show False by (simp add: pruned_mask_def Let_def)
  qed
qed

section \<open>The theorem\<close>

lemma maintained_delta:
  assumes "maintainable C P old D copied op" "placed C copied place op"
  shows "\<exists>d. compile_delta C place op = Inr d \<and>
    plus_delta (eval_plan P old op) (eval_delta P D d) (eval_plan P (tables_now D) op)"
  using assms
proof (induction arbitrary: place rule: maintainable.induct)
  case (scan oi table es cs since copied)
  let ?op = "LogicalOp LOGICAL_GET oi es cs"
  have "compile_delta C place ?op = Inr (DeltaTableScan ?op since (CompactDeltasEnabled C))"
    using placed_rule [OF scan.prems] scan.hyps by (simp add: compile_simps CreateDeltaGetNode_def)
  moreover have "plus_delta (eval_plan P old ?op)
      (eval_delta P D (DeltaTableScan ?op since (CompactDeltasEnabled C))) (eval_plan P (tables_now D) ?op)"
    using scan.hyps by (simp add: eval_plan_simps scanned_def delta_linear plus_delta_compacted)
  ultimately show ?case by blast
next
  case (filter copied c oi es)
  let ?op = "LogicalOp LOGICAL_FILTER oi es [c]"
  obtain d where d: "compile_delta C (child_place place 0) c = Inr d"
    "plus_delta (eval_plan P old c) (eval_delta P D d) (eval_plan P (tables_now D) c)"
    using filter.IH placed_child [OF filter.prems, of 0] by auto
  have "compile_delta C place ?op = Inr (if es = [] then d else FilterDelta ?op d)"
    using placed_rule [OF filter.prems] filter.hyps d(1) by (auto simp: compile_simps first_child_def)
  moreover have "plus_delta (eval_plan P old ?op) (eval_delta P D (if es = [] then d else FilterDelta ?op d))
      (eval_plan P (tables_now D) ?op)"
    using d(2) by (simp add: eval_plan_simps eval_operator_def is_constant_leaf_def is_join_node_def delta_linear)
  ultimately show ?case by blast
next
  case (projection copied c oi es)
  let ?op = "LogicalOp LOGICAL_PROJECTION oi es [c]"
  obtain d where d: "compile_delta C (child_place place 0) c = Inr d"
    "plus_delta (eval_plan P old c) (eval_delta P D d) (eval_plan P (tables_now D) c)"
    using projection.IH placed_child [OF projection.prems, of 0] by auto
  have "compile_delta C place ?op = Inr (ProjectionDelta ?op d)"
    using placed_rule [OF projection.prems] d(1) by (simp add: compile_simps first_child_def)
  moreover have "plus_delta (eval_plan P old ?op) (eval_delta P D (ProjectionDelta ?op d)) (eval_plan P (tables_now D) ?op)"
    using d(2) by (simp add: eval_plan_simps eval_operator_def is_constant_leaf_def is_join_node_def delta_linear)
  ultimately show ?case by blast
next
  case (unnest copied c oi es)
  let ?op = "LogicalOp LOGICAL_UNNEST oi es [c]"
  obtain d where d: "compile_delta C (child_place place 0) c = Inr d"
    "plus_delta (eval_plan P old c) (eval_delta P D d) (eval_plan P (tables_now D) c)"
    using unnest.IH placed_child [OF unnest.prems, of 0] by auto
  have "compile_delta C place ?op = Inr (UnnestDelta ?op d)"
    using placed_rule [OF unnest.prems] d(1) by (simp add: compile_simps first_child_def)
  moreover have "plus_delta (eval_plan P old ?op) (eval_delta P D (UnnestDelta ?op d)) (eval_plan P (tables_now D) ?op)"
    using d(2) by (simp add: eval_plan_simps eval_operator_def is_constant_leaf_def is_join_node_def delta_linear)
  ultimately show ?case by blast
next
  case (top_k t copied c oi es)
  let ?op = "LogicalOp t oi es [c]"
  obtain d where d: "compile_delta C (child_place place 0) c = Inr d"
    "plus_delta (eval_plan P old c) (eval_delta P D d) (eval_plan P (tables_now D) c)"
    using top_k.IH placed_child [OF top_k.prems, of 0] by auto
  have "compile_delta C place ?op = Inr d"
    using placed_rule [OF top_k.prems] d(1) top_k.hyps by (simp add: compile_simps first_child_def)
  moreover have "eval_plan P x ?op = eval_plan P x c" for x
    using top_k.hyps
    by (subst eval_plan_operator) (auto simp: eval_operator_def is_top_k_def is_constant_leaf_def is_join_node_def)
  ultimately show ?case using d(2) by simp
next
  case (union oi cs copied es)
  let ?op = "LogicalOp LOGICAL_UNION oi es cs"
  have "\<exists>d. compile_delta C (child_place place i) (cs ! i) = Inr d \<and>
      plus_delta (eval_plan P old (cs ! i)) (eval_delta P D d) (eval_plan P (tables_now D) (cs ! i))" if "i < length cs" for i
    using union.IH [OF that placed_child [OF union.prems that]] .
  then obtain ds where ds: "i < length cs \<Longrightarrow> compile_delta C (child_place place i) (cs ! i) = Inr (ds i)"
    "i < length cs \<Longrightarrow> plus_delta (eval_plan P old (cs ! i)) (eval_delta P D (ds i)) (eval_plan P (tables_now D) (cs ! i))" for i
    by metis
  have "compile_delta C place ?op = Inr (UnionDelta (map ds [0 ..< length cs]))"
    using placed_rule [OF union.prems] union.hyps ds(1) by (intro compile_union) simp_all
  moreover have "eval_plan P x ?op = concat (map (\<lambda>i. eval_plan P x (cs ! i)) [0 ..< length cs])" for x
  proof -
    have "map (eval_plan P x) cs = map (\<lambda>i. eval_plan P x (cs ! i)) [0 ..< length cs]" by (rule nth_equalityI) simp_all
    with union.hyps show ?thesis
      by (simp add: eval_plan_simps eval_operator_def is_constant_leaf_def is_join_node_def)
  qed
  moreover have "plus_delta (concat (map (\<lambda>i. eval_plan P old (cs ! i)) [0 ..< length cs]))
      (concat (map (\<lambda>i. eval_delta P D (ds i)) [0 ..< length cs]))
      (concat (map (\<lambda>i. eval_plan P (tables_now D) (cs ! i)) [0 ..< length cs]))"
    by (rule plus_delta_concat) (use ds(2) in simp)
  ultimately show ?case by (simp add: comp_def)
next
  case (constants t oi es cs)
  then have "compile_delta C place (LogicalOp t oi es cs) = Inr EmptyDelta"
    using placed_rule [OF constants.prems] by (simp add: compile_simps)
  with constants.hyps show ?case by (simp add: eval_plan_simps plus_delta_none)
next
  case (join t op oi es cs colv fkv pkv has_left copied)
  let ?q = "compile_queries C" and ?view = "compile_view C" and ?cfg = "compile_settings C"
  let ?leaves = "CollectJoinLeaves op [] False"
  let ?ts = "BuildInclusionExclusionTerms (compile_env C) ?cfg ?q ?view op ?leaves has_left"
  let ?node = "\<lambda>i. leaf_node (leaf_of op i)"
  define ds where "ds i = (case compile_delta C None (?node i) of Inr d \<Rightarrow> d | Inl e \<Rightarrow> EmptyDelta)" for i
  have leaf: "compile_delta C None (?node i) = Inr (ds i) \<and>
      plus_delta (leaf_contents P old op i) (eval_delta P D (ds i)) (leaf_contents P (tables_now D) op i)"
    if "i < leaf_count op" "\<not> constant_side C op i" for i
    using join.IH [OF that(1)] that(2) placed_copied
    by (fastforce simp: ds_def leaf_contents_def leaf_of_def)
  have delta: "plus_delta (leaf_contents P old op i) (leaf_delta C P D op i) (leaf_contents P (tables_now D) op i)"
    if "i < leaf_count op" for i
  proof (cases "constant_side C op i")
    case True
    then have "leaf_contents P (tables_now D) op i = leaf_contents P old op i"
      unfolding leaf_contents_def constant_side_def leaf_of_def by (metis eval_plan_static)
    with True show ?thesis by (simp add: leaf_delta_def plus_delta_none)
  next
    case False
    with leaf [OF that] show ?thesis by (simp add: leaf_delta_def)
  qed
  have has_left: "VerifyJoinTypes op = Inr has_left" using join.hyps by (simp add: join_sound_def Let_def)
  have terms: "CompileJoinDelta (compile_env C) ?cfg ?q (compile_lake C) ?view op = Inr (InclusionExclusionTerms ?ts)"
  proof -
    have "?leaves \<noteq> []" using join.hyps(3) CollectJoinLeaves_length [of op "[]" False] by (metis length_0_conv less_irrefl)
    with join.hyps(4,5) has_left show ?thesis by (simp add: CompileJoinDelta_def Let_def)
  qed
  have used: "i < leaf_count op" "\<not> constant_side C op i" if "t \<in> set ?ts" "i \<in> fst ` set (term_deltas t)" for t i
    using built_term_leaves [OF that] by (auto simp: constant_side_def leaf_of_def)
  have "compile_leaf C ?leaves i = Inr (i, ds i)" if mem_is: "is \<in> set (delta_leaves (InclusionExclusionTerms ?ts))" "i \<in> set is" for "is" i
  proof -
    obtain t where "t \<in> set ?ts" "is = map fst (term_deltas t)" using mem_is(1) by (auto simp: delta_leaves_def)
    then have "t \<in> set ?ts" "i \<in> fst ` set (term_deltas t)" using mem_is(2) by simp_all
    note i = used [OF this]
    have mem: "?leaves ! i \<in> set ?leaves" using i(1) by (auto intro: nth_mem)
    have path: "leaf_path (?leaves ! i) \<noteq> []" using join_leaf_nth [OF join.hyps(1)] i(1) unfolding join.hyps(2) .
    show ?thesis
    proof (cases "leaf_is_get (?leaves ! i)")
      case True
      then obtain oi' es' cs' where node: "?node i = LogicalOp LOGICAL_GET oi' es' cs'"
        using leaf_is_get_iff [OF mem] by (cases "?node i") (auto simp: leaf_of_def)
      have "compile_delta C None (?node i) = CreateDeltaGetNode C (?node i)"
        unfolding node using placed_rule [OF placed_copied, of C "LogicalOp LOGICAL_GET oi' es' cs'"]
        by (simp add: compile_simps)
      then have "CreateDeltaGetNode C (?node i) = Inr (ds i)" using leaf [OF i] by simp
      with True i(1) show ?thesis by (simp add: compile_leaf_def leaf_of_def)
    next
      case False
      with path i leaf [OF i] show ?thesis by (simp add: compile_leaf_def leaf_of_def)
    qed
  qed
  then have "compile_delta C place op = Inr (JoinDelta op (InclusionExclusionTerms ?ts)
      (map (map (\<lambda>i. (i, ds i))) (delta_leaves (InclusionExclusionTerms ?ts))))"
    using placed_rule [OF join.prems] terms join.hyps(1) unfolding join.hyps(2) by (intro compile_join) simp_all
  moreover have "eval_delta P D (JoinDelta op (InclusionExclusionTerms ?ts)
        (map (map (\<lambda>i. (i, ds i))) (delta_leaves (InclusionExclusionTerms ?ts))))
      = zmap (join_row P op) (eval_terms (join_values P) (leaf_delta C P D op) (leaf_contents P (tables_now D) op) ?ts)"
    unfolding eval_delta.simps by (rule eval_terms_given) (use used leaf in \<open>auto simp: leaf_delta_def\<close>)
  moreover have "plus_delta (eval_join (join_values P) (leaf_contents P old op) 0 op)
      (eval_terms (join_values P) (leaf_delta C P D op) (leaf_contents P (tables_now D) op) ?ts)
      (eval_join (join_values P) (leaf_contents P (tables_now D) op) 0 op)"
    by (rule join_terms_sum [OF refl _ join.hyps(6)]) (use delta in simp)
  moreover have "eval_plan P x op = zmap (join_row P op) (eval_join (join_values P) (leaf_contents P x op) 0 op)" for x
    using join.hyps(1) unfolding join.hyps(2) by (rule eval_plan_join)
  ultimately show ?case by (auto intro: plus_delta_zmap)
qed

end
