(* ===== verification/Delta_Properties.thy ===== *)
theory Delta_Properties
  imports Delta_Correct
begin

text \<open>
  The properties of the delta compiler with their concrete instances: it computes the change of
  the view, it returns on every plan that the planner produces, and the two shapes for which
  a leaf of a join is compiled wrongly.
\<close>

section \<open>The nodes of the built model\<close>

lemma post_order_at:
  "(p, q) \<in> set (post_order path op) \<Longrightarrow> \<exists>r. p = path @ r \<and> GetNodeAtPath op r = Some q"
  "(p, q) \<in> set (post_order_list path i cs) \<Longrightarrow>
     \<exists>k r. k < length cs \<and> p = path @ (i + k) # r \<and> GetNodeAtPath (cs ! k) r = Some q"
proof (induction path op and path i cs rule: post_order_post_order_list.induct)
  case (1 path t oi es cs)
  show ?case
  proof (cases "(p, q) = (path, LogicalOp t oi es cs)")
    case True
    then show ?thesis by (intro exI [of _ "[]"]) simp
  next
    case False
    with 1 obtain k r where "k < length cs" "p = path @ k # r" "GetNodeAtPath (cs ! k) r = Some q" by auto
    then show ?thesis by (intro exI [of _ "k # r"]) simp
  qed
next
  case (3 path i c cs)
  then consider r where "p = (path @ [i]) @ r" "GetNodeAtPath c r = Some q"
    | k r where "k < length cs" "p = path @ (i + 1 + k) # r" "GetNodeAtPath (cs ! k) r = Some q"
    by auto
  then show ?case
  proof cases
    case 1
    then show ?thesis by (intro exI [of _ 0] exI [of _ r]) simp
  next
    case 2
    then show ?thesis by (intro exI [of _ "Suc k"] exI [of _ r]) simp
  qed
qed simp

lemma node_pairs:
  "(p, j) \<in> set (List.map_filter (\<lambda>n. map_option (\<lambda>p. (p, node_id n)) (plan_node n)) ns) \<longleftrightarrow>
     (\<exists>n \<in> set ns. plan_node n = Some p \<and> node_id n = j)"
  by (induction ns) (auto simp: List.map_filter_simps split: option.splits)

lemma built_model_placed:
  assumes "root fs = Some op" "length (plan_operators op) < INVALID_INDEX"
    and "nodes (compile_model C) = nodes (BuildDeltaModelNodes E fs names model)"
  shows "placed C False (Some []) op"
proof -
  obtain new where nf: "nodes_for fs [] new (post_order [] op)" and
    eq: "BuildDeltaModelNodes E fs names model =
       RefreshDeltaNodeMaintenance (model\<lparr>nodes := new, root_node := length new - 1\<rparr>)"
    using BuildDeltaModelNodes_shape [OF assms(1,2)] by blast
  define ns where "ns = nodes (compile_model C)"
  have len: "length ns = length (post_order [] op)"
    using nf by (simp add: ns_def assms(3) eq RefreshDeltaNodeMaintenance_def nodes_for_def)
  have at: "node_id (ns ! i) = i \<and> plan_node (ns ! i) = Some (fst (post_order [] op ! i)) \<and>
      kind (ns ! i) = NodeKindForOperator (snd (post_order [] op ! i))" if "i < length ns" for i
    using nf that len by (auto simp: ns_def assms(3) eq RefreshDeltaNodeMaintenance_def nodes_for_def node_at_def
        fresh_node_def split: prod.splits)
  have "\<exists>n. FindNode (compile_model C) p = Some n \<and> kind n = NodeKindForOperator q"
    if pq: "(p, q) \<in> set (post_order [] op)" for p q
  proof -
    let ?pairs = "List.map_filter (\<lambda>n. map_option (\<lambda>p. (p, node_id n)) (plan_node n)) ns"
    obtain i where "i < length ns" "post_order [] op ! i = (p, q)" using pq len by (metis in_set_conv_nth)
    with at [of i] have "(p, i) \<in> set ?pairs"
      unfolding node_pairs by (intro bexI [of _ "ns ! i"]) auto
    then have "p \<in> fst ` set (rev ?pairs)" by force
    then have "map_of (rev ?pairs) p \<noteq> None" by (simp add: map_of_eq_None_iff)
    then obtain j where "map_of (rev ?pairs) p = Some j" by blast
    moreover from this have "(p, j) \<in> set ?pairs" using map_of_SomeD [of "rev ?pairs" p j] by simp
    ultimately have j: "node_by_plan (compile_model C) p = Some j" and "(p, j) \<in> set ?pairs"
      unfolding node_by_plan_def ns_def by simp_all
    from this(2) obtain k where k: "k < length ns" "plan_node (ns ! k) = Some p" "node_id (ns ! k) = j"
      unfolding node_pairs by (metis in_set_conv_nth)
    with at [OF k(1)] have "k = j" "fst (post_order [] op ! j) = p" by auto
    with k(1) len have "(p, snd (post_order [] op ! j)) \<in> set (post_order [] op)" by (metis nth_mem prod.collapse)
    with pq have "snd (post_order [] op ! j) = q" using post_order_at(1) by (metis append_Nil option.inject)
    with at [OF k(1)] k \<open>k = j\<close> j show ?thesis by (simp add: FindNode_def ns_def)
  qed
  then show ?thesis by (auto simp: placed_def)
qed

section \<open>The compiled delta is the change of the view\<close>


text \<open>The instance: the keys of the orders that have a customer. One order is pending.\<close>

definition key_semantics :: "(nat, nat) plan_semantics" where
  "key_semantics = \<lparr>scan_row = (\<lambda>op r. [r]), keep_row = (\<lambda>op r. True), project_row = (\<lambda>op r. r + 100),
     unnest_row = (\<lambda>op r. [r, r]), constant_rows = (\<lambda>op. [1]), join_values = key_rows,
     join_row = (\<lambda>op row. snd (hd row)), other_rows = (\<lambda>op zs. [])\<rparr>"

definition keyed_orders :: LogicalOperator where
  "keyed_orders = LogicalOp LOGICAL_PROJECTION no_info [] [orders_join JOIN_INNER]"

definition no_lake :: ducklake_queries where
  "no_lake = \<lparr>last_snapshot = (\<lambda>v t. None), scan_snapshot = (\<lambda>op. None), scan_columns = (\<lambda>op. []),
     snapshot_activity = (\<lambda>t a b. None), changes_exist = (\<lambda>t a b. None),
     ducklake_key_match = (\<lambda>i a j b n. None)\<rparr>"

definition compiling :: "join_queries \<Rightarrow> LogicalOperator \<Rightarrow> compile_context" where
  "compiling q plan = \<lparr>compile_env = ref_env, compile_settings = default_settings\<lparr>fk_pruning := False\<rparr>,
     compile_queries = q, compile_lake = no_lake, compile_view = ''v'',
     compile_model = BuildDeltaModelNodes ref_env (facts_of plan) [] InitialModel,
     table_is_ducklake = (\<lambda>op. False), delta_table_exists = (\<lambda>t. True), compact_setting = Some False\<rparr>"

definition orders_before :: "string \<Rightarrow> nat zset" where
  "orders_before table = (if table = ''orders'' then [(1, 1)] else [(1, 1), (2, 1)])"

definition orders_now :: "nat plan_data" where
  "orders_now = \<lparr>tables_now = (\<lambda>table. [(1, 1), (2, 1)]),
     pending_rows = (\<lambda>delta. if delta = DeltaName ''orders'' then [(2, 1)] else []),
     change_feed = (\<lambda>t a b. []), leaf_snapshot_rows = (\<lambda>op n. [])\<rparr>"

abbreviation orders_context :: compile_context where
  "orders_context \<equiv> compiling (key_queries 1 0 [] (Some True)) keyed_orders"

lemma delta_names [simp]:
  "DeltaName ''orders'' = ''openivm_delta_orders''" "DeltaName ''customer'' = ''openivm_delta_customer''"
  by code_simp+

lemma key_scan_maintainable:
  assumes "last_update_of (compile_queries C) (compile_view C) (DeltaName table) = Some (Some since)"
    and "\<And>op. \<not> table_is_ducklake C op" "delta_table_exists C (DeltaName table)"
    and "plus_delta (old table) (pending_rows D (DeltaName table)) (tables_now D table)"
  shows "maintainable C P old D copied (key_scan table t)"
  unfolding key_scan_def by (rule maintainable.scan [where table = table and since = since]) (use assms in \<open>simp_all add: no_info_def\<close>)

lemma orders_scan_maintainable:
  "table \<in> {''orders'', ''customer''} \<Longrightarrow>
     maintainable (compiling (key_queries 1 0 [] (Some True)) plan) P orders_before orders_now copied (key_scan table t)"
  by (rule key_scan_maintainable)
    (auto simp: compiling_def key_queries_def orders_before_def orders_now_def plus_delta_def weight_def)

lemma key_scan_compiles:
  assumes "last_update_of (compile_queries C) (compile_view C) (DeltaName table) = Some (Some since)"
    and "\<And>op. \<not> table_is_ducklake C op" "delta_table_exists C (DeltaName table)"
  shows "compile_delta C None (key_scan table t) = Inr (DeltaTableScan (key_scan table t) since (CompactDeltasEnabled C))"
proof -
  have "CompileInternal C None (key_scan table t) = Inr CompileScanDelta"
    by (simp add: CompileInternal_def CompileCopiedDeltaSubtree_def key_scan_def)
  then have "compile_delta C None (key_scan table t) = CreateDeltaGetNode C (key_scan table t)"
    unfolding key_scan_def by (simp add: compile_simps)
  with assms show ?thesis by (simp add: CreateDeltaGetNode_def key_scan_def no_info_def)
qed

lemma key_scan_eval:
  "eval_plan key_semantics d (key_scan table t) = d table"
  "eval_delta key_semantics D (DeltaTableScan (key_scan table t) since False) = pending_rows D (DeltaName table)"
proof -
  have "zbind (\<lambda>r. [r]) z = z" for z :: "nat zset" by (induction z) (auto simp: zbind_def)
  then show "eval_plan key_semantics d (key_scan table t) = d table"
    "eval_delta key_semantics D (DeltaTableScan (key_scan table t) since False) = pending_rows D (DeltaName table)"
    by (simp_all add: key_scan_def eval_plan_simps key_semantics_def scanned_def no_info_def compacted_def)
qed

lemma orders_leaf_of:
  "leaf_node (leaf_of (orders_join jt) 0) = key_scan ''orders'' 0"
  "leaf_node (leaf_of (orders_join jt) (Suc 0)) = key_scan ''customer'' 1"
  by (simp_all add: leaf_of_def orders_leaves)

lemma orders_leaf_contents:
  "i < 2 \<Longrightarrow> leaf_contents key_semantics d (orders_join jt) i = d (if i = 0 then ''orders'' else ''customer'')"
  by (auto simp: leaf_contents_def less_Suc_eq numeral_2_eq_2 orders_leaf_of [unfolded leaf_of_def] key_scan_eval)

lemma orders_leaf_delta:
  assumes "i < 2"
  shows "leaf_delta (compiling (key_queries a b fks m) plan) key_semantics D (orders_join jt) i =
    pending_rows D (DeltaName (if i = 0 then ''orders'' else ''customer''))"
proof -
  have "\<not> static_plan (key_scan table t)" for table t by (simp add: key_scan_def no_info_def)
  moreover have "compile_delta (compiling (key_queries a b fks m) plan) None (key_scan table t)
      = Inr (DeltaTableScan (key_scan table t) ''2024-01-01'' False)" for table t
    by (subst key_scan_compiles) (simp_all add: compiling_def key_queries_def CompactDeltasEnabled_def)
  ultimately show ?thesis using assms
    by (auto simp: leaf_delta_def constant_side_def less_Suc_eq numeral_2_eq_2 orders_leaf_of key_scan_eval
        simp del: eval_delta.simps)
qed

lemma orders_join_maintainable:
  "maintainable orders_context key_semantics orders_before orders_now copied (orders_join JOIN_INNER)"
proof (rule maintainable.join [where colv = "\<lambda>i c x. Some x" and fkv = "\<lambda>fk. Some" and pkv = "\<lambda>fk. Some" and has_left = False])
  let ?op = "orders_join JOIN_INNER" and ?q = "key_queries 1 0 [] (Some True)"
  show "is_join_node LOGICAL_COMPARISON_JOIN" by (simp add: is_join_node_def)
  show "?op = LogicalOp LOGICAL_COMPARISON_JOIN (op_info ?op) (expressions ?op) (children ?op)"
    by (simp add: orders_join_def)
  show "\<not> all_ducklake (compile_settings orders_context) (CollectJoinLeaves ?op [] False)"
    by (simp add: orders_leaves all_ducklake_def GetLeafScan_def is_ducklake_scan_def key_scan_def no_info_def)
  show "constant_side orders_context ?op i \<or>
      maintainable orders_context key_semantics orders_before orders_now True (leaf_node (leaf_of ?op i))"
    if "i < leaf_count ?op" for i
    using that orders_scan_maintainable [of "''orders''" keyed_orders key_semantics True 0]
      orders_scan_maintainable [of "''customer''" keyed_orders key_semantics True 1]
    by (auto simp: orders_shape less_Suc_eq numeral_2_eq_2 orders_leaf_of)
  have "dl (Suc 0) = [] \<Longrightarrow> sound_counts ?q ''v'' (CollectJoinLeaves ?op [] False) dl" for dl :: "nat \<Rightarrow> nat zset"
    by (auto simp: sound_counts_def orders_leaves less_Suc_eq leaf_table_def GetLeafScan_def key_scan_def
        key_queries_def zeq_def)
  moreover have "leaf_delta orders_context key_semantics orders_now ?op (Suc 0) = []"
    by (subst orders_leaf_delta) (simp_all add: orders_now_def)
  ultimately have counts: "sound_counts ?q ''v'' (CollectJoinLeaves ?op [] False)
      (leaf_delta orders_context key_semantics orders_now ?op)" by blast
  have "sound_matches ?q refs colv dl cur" for refs colv and dl cur :: "nat \<Rightarrow> nat zset"
    by (simp add: sound_matches_def key_queries_def)
  moreover have "well_scoped (ColumnRefs ref_env ?q ''v'' (CollectJoinLeaves ?op [] False)) 0 ?op"
    by (rule orders_scoped) (simp add: orders_refs, simp add: orders_refs, simp, simp)
  moreover have "\<not> is_right_of_left_join (CollectJoinLeaves ?op [] False ! i)" if "i < 2" for i
    using that by (auto simp: orders_leaves less_Suc_eq numeral_2_eq_2)
  moreover have "plain_type JOIN_INNER" by (simp add: plain_type_def)
  moreover have "compile_env orders_context = ref_env" "compile_queries orders_context = ?q"
    "compile_view orders_context = ''v''" "\<not> fk_pruning (compile_settings orders_context)"
    "join_values key_semantics = key_rows"
    by (simp_all add: compiling_def key_semantics_def)
  ultimately show "join_sound (join_values key_semantics) (compile_env orders_context) (compile_settings orders_context)
      (compile_queries orders_context) (compile_view orders_context) ?op (\<lambda>i c x. Some x) (\<lambda>fk. Some) (\<lambda>fk. Some)
      (leaf_contents key_semantics orders_before ?op) (leaf_delta orders_context key_semantics orders_now ?op)
      (leaf_contents key_semantics (tables_now orders_now) ?op) False"
    using counts orders_reads [of 1 0 "[]" "Some True" "''v''" JOIN_INNER]
    unfolding join_sound_def Let_def by (simp add: orders_shape)
qed (simp_all add: orders_shape MAX_JOIN_TABLES_def)


section \<open>What the compiler refuses\<close>

text \<open>An error about the data that the plan reads or about the operands of an operator, in contrast
  to one about the operator itself.\<close>

fun data_error :: "delta_error \<Rightarrow> bool" where
  "data_error (NotSupportedKind k) = False"
| "data_error (NotSupportedType t) = False"
| "data_error (MissingNode t) = False"
| "data_error NotACte = False"
| "data_error (NonLocal name) = False"
| "data_error EndlessRecursion = False"
| "data_error e = True"

definition not_compiled :: "LogicalOperatorType \<Rightarrow> bool" where
  "not_compiled t \<longleftrightarrow> t \<in> {LOGICAL_CREATE_TABLE, LOGICAL_INSERT, LOGICAL_DELIM_GET, LOGICAL_JOIN,
     LOGICAL_ASOF_JOIN, LOGICAL_POSITIONAL_JOIN, LOGICAL_SAMPLE}"

definition compiled_operator :: "LogicalOperator \<Rightarrow> bool" where
  "compiled_operator op \<longleftrightarrow> operator_ok op \<and> \<not> not_compiled (op_type op)"

lemma compiled_operator_rule:
  assumes "compiled_operator op"
  obtains r where "rule_of copied op = Inr r"
    "r \<notin> {CompileAsofJoinDelta, CompilePositionalJoinDelta, CompileSampleDelta}"
    "r = CompileJoin \<Longrightarrow> is_join_node (op_type op)"
    "r = CompileCteDelta \<Longrightarrow> op_type op \<in> {LOGICAL_MATERIALIZED_CTE, LOGICAL_CTE_REF}"
proof -
  have t: "op_type op \<in> {LOGICAL_GET, LOGICAL_FILTER, LOGICAL_PROJECTION, LOGICAL_AGGREGATE_AND_GROUP_BY,
      LOGICAL_WINDOW, LOGICAL_DISTINCT, LOGICAL_UNION, LOGICAL_TOP_N, LOGICAL_LIMIT, LOGICAL_ORDER_BY,
      LOGICAL_UNNEST, LOGICAL_DUMMY_SCAN, LOGICAL_EXPRESSION_GET, LOGICAL_CHUNK_GET, LOGICAL_CTE_REF,
      LOGICAL_MATERIALIZED_CTE, LOGICAL_COMPARISON_JOIN, LOGICAL_ANY_JOIN, LOGICAL_DEPENDENT_JOIN,
      LOGICAL_DELIM_JOIN, LOGICAL_CROSS_PRODUCT}"
    using assms by (auto simp: compiled_operator_def operator_ok_def not_compiled_def)
  have "\<exists>r. rule_of copied op = Inr r \<and>
      r \<notin> {CompileAsofJoinDelta, CompilePositionalJoinDelta, CompileSampleDelta} \<and>
      (r = CompileJoin \<longrightarrow> is_join_node (op_type op)) \<and>
      (r = CompileCteDelta \<longrightarrow> op_type op \<in> {LOGICAL_MATERIALIZED_CTE, LOGICAL_CTE_REF})"
    using t by (elim insertE; cases copied)
      (simp_all add: rule_of_def CompileCopiedDeltaSubtree_def NodeKindForOperator_def IsDelimJoinShape_def is_join_node_def)
  with that show ?thesis by blast
qed

lemma map_error_Inl: "map_error f xs = Inl e \<Longrightarrow> \<exists>x \<in> set xs. f x = Inl e"
  by (induction xs) (auto split: sum.splits)

lemma data_error_get: "CreateDeltaGetNode C get = Inl e \<Longrightarrow> data_error e"
  by (auto simp: CreateDeltaGetNode_def CreateDuckLakeDeltaNode_def Let_def split: option.splits if_splits)

lemma data_error_delim: "CompileDelimJoinDelta C op = Inl e \<Longrightarrow> data_error e"
  by (auto simp: CompileDelimJoinDelta_def Let_def split: option.splits if_splits sum.splits
      dest!: map_error_Inl data_error_get)

lemma child_operators:
  "list_all Q (plan_operators (LogicalOp t oi es cs)) \<longleftrightarrow>
     Q (LogicalOp t oi es cs) \<and> (\<forall>c \<in> set cs. list_all Q (plan_operators c))"
  using plan_operators_iff [of Q "LogicalOp t oi es cs"] by simp

lemma leaf_operators:
  "leaf \<in> set (CollectJoinLeaves op path right) \<Longrightarrow> list_all Q (plan_operators op) \<Longrightarrow>
     list_all Q (plan_operators (leaf_node leaf))"
  by (induction op arbitrary: path right rule: join_tree_induct) (auto simp: join_simps child_operators)

lemma compile_delta_error:
  assumes "placed C copied place op" "list_all compiled_operator (plan_operators op)"
    and "compile_delta C place op = Inl e"
  shows "data_error e"
  using assms
proof (induction op arbitrary: copied place e rule: measure_induct_rule [where f = size])
  case (less op)
  obtain t oi es cs where op: "op = LogicalOp t oi es cs" by (cases op) blast
  have "compiled_operator op" and below: "c \<in> set cs \<Longrightarrow> list_all compiled_operator (plan_operators c)" for c
    using less.prems(2) unfolding op child_operators by blast+
  then obtain r where r: "CompileInternal C place op = Inr r"
    "r \<notin> {CompileAsofJoinDelta, CompilePositionalJoinDelta, CompileSampleDelta}"
    "r = CompileJoin \<Longrightarrow> is_join_node t"
    "r = CompileCteDelta \<Longrightarrow> t \<in> {LOGICAL_MATERIALIZED_CTE, LOGICAL_CTE_REF}"
    using placed_rule [OF less.prems(1)] compiled_operator_rule [of op copied] op by (metis LogicalOperator.sel(1))
  have child: "data_error e'" if "compile_delta C (child_place place i) (cs ! i) = Inl e'" "i < length cs" for i e'
    using less.IH [OF _ placed_child [OF less.prems(1) [unfolded op] that(2)] below [OF nth_mem [OF that(2)]] that(1)]
      size_in_list [OF nth_mem [OF that(2)]] by (simp add: op)
  have first: "data_error e" if "first_child C place cs f = Inl e" for f
    using that child [of 0] by (auto simp: first_child_def split: list.splits sum.splits)
  have eq: "compile_delta C place (LogicalOp t oi es cs) = Inl e" using less.prems(3) op by simp
  note unfold = eq [unfolded compile_delta.simps [of C place t oi es cs] Let_def r(1) [unfolded op] sum.case]
  show ?case
  proof (cases r)
    case CompileScanDelta
    with unfold show ?thesis using data_error_get by simp
  next
    case CompileJoin
    let ?op = "LogicalOp t oi es cs" and ?leaves = "CollectJoinLeaves (LogicalOp t oi es cs) [] False"
    have leaf: "data_error e'" if "compile_leaf C ?leaves i = Inl e'" for i e'
    proof (cases "i < length ?leaves")
      case True
      note node = leaf_operators [OF nth_mem [OF True] less.prems(2) [unfolded op]]
      have path: "leaf_path (?leaves ! i) \<noteq> []" using join_leaf_nth [OF r(3) [OF CompileJoin]] True by simp
      then have "size (leaf_node (?leaves ! i)) < size op" unfolding op using True by (intro leaf_nth_size) simp_all
      with less.IH [OF this placed_copied node] True path that show ?thesis
        by (auto simp: compile_leaf_def split: if_splits sum.splits dest: data_error_get)
    qed (use that in \<open>auto simp: compile_leaf_def\<close>)
    show ?thesis
    proof (cases "CompileJoinDelta (compile_env C) (compile_settings C) (compile_queries C) (compile_lake C)
        (compile_view C) ?op")
      case (Inr terms)
      with CompileJoin unfold have "map_error (map_error (compile_leaf C ?leaves)) (delta_leaves terms) = Inl e"
        by (auto simp: compile_leaf_def [abs_def] split: sum.splits)
      then obtain i where "compile_leaf C ?leaves i = Inl e" by (blast dest: map_error_Inl)
      then show ?thesis by (rule leaf)
    qed (use CompileJoin unfold in auto)
  next
    case CompileDelimJoin
    with unfold show ?thesis using data_error_delim by simp
  next
    case CompileUnionDelta
    show ?thesis
    proof (cases "map_error (\<lambda>i. compile_delta C (child_place place i) (cs ! i)) [0 ..< length cs]")
      case (Inl e')
      then obtain i where "i < length cs" "compile_delta C (child_place place i) (cs ! i) = Inl e'"
        by (fastforce dest: map_error_Inl)
      with child have "data_error e'" by blast
      with CompileUnionDelta unfold Inl show ?thesis by (auto split: if_splits)
    qed (use CompileUnionDelta unfold in \<open>auto split: if_splits\<close>)
  next
    case CompileCteDelta
    show ?thesis
    proof (cases "\<exists>d c rest. cs = d # c # rest")
      case True
      then obtain d c rest where cs: "cs = d # c # rest" by blast
      with CompileCteDelta unfold r(4) child [of 0] child [of 1] show ?thesis by (auto split: if_splits sum.splits)
    qed (use CompileCteDelta unfold r(4) in \<open>auto split: if_splits list.splits\<close>)
  next
    case CompileUnnestDelta
    with unfold first show ?thesis by (auto simp: first_child_def split: if_splits)
  qed (use unfold r(2) first in \<open>simp_all add: first_child_def\<close>)
qed



section \<open>Leaves of joins that are compiled wrongly\<close>

text \<open>Inside a leaf of a join a constant is compiled as itself instead of the empty change
  (\<open>CompileStaticConstantLeaf\<close>), so the delta of \<open>UNION ALL\<close> of a plan with constants is off
  by exactly the constant rows: every refresh adds them once more.\<close>

theorem constants_added_at_every_refresh:
  assumes "maintainable C P old D True c" "is_constant_leaf t" "setop_all oi"
  shows "\<exists>d. compile_delta C None (LogicalOp LOGICAL_UNION oi es [c, LogicalOp t ti te ts]) = Inr d \<and>
    plus_delta (eval_plan P old (LogicalOp LOGICAL_UNION oi es [c, LogicalOp t ti te ts])) (eval_delta P D d)
      (eval_plan P (tables_now D) (LogicalOp LOGICAL_UNION oi es [c, LogicalOp t ti te ts]) @
       unit_rows (constant_rows P (LogicalOp t ti te ts)))"
proof -
  let ?k = "LogicalOp t ti te ts" and ?op = "LogicalOp LOGICAL_UNION oi es [c, LogicalOp t ti te ts]"
  obtain d where d: "compile_delta C None c = Inr d"
    "plus_delta (eval_plan P old c) (eval_delta P D d) (eval_plan P (tables_now D) c)"
    using maintained_delta [OF assms(1) placed_copied] by blast
  have k: "compile_delta C None ?k = Inr (StaticLeaf ?k)"
    using placed_rule [OF placed_copied, of C ?k] assms(2) by (simp add: compile_simps)
  have "compile_delta C None ?op = Inr (UnionDelta (map (\<lambda>i. if i = 0 then d else StaticLeaf ?k) [0 ..< length [c, ?k]]))"
    using placed_rule [OF placed_copied, of C ?op] assms(3) d(1) k
    by (intro compile_union) (auto simp: child_place_def less_Suc_eq)
  moreover have "eval_plan P x ?op = eval_plan P x c @ unit_rows (constant_rows P ?k)" for x
    using assms(2,3) by (simp add: eval_plan_simps eval_operator_def is_constant_leaf_def is_join_node_def)
  ultimately show ?thesis using d(2) by (simp add: plus_delta_zsum upt_rec)
qed

theorem constants_added_at_every_refresh_witness:
  "\<exists>d. compile_delta orders_context None (LogicalOp LOGICAL_UNION (no_info\<lparr>setop_all := True\<rparr>) []
        [key_scan ''orders'' 0, LogicalOp LOGICAL_EXPRESSION_GET no_info [] []]) = Inr d \<and>
    plus_delta (eval_plan key_semantics orders_before (LogicalOp LOGICAL_UNION (no_info\<lparr>setop_all := True\<rparr>) []
        [key_scan ''orders'' 0, LogicalOp LOGICAL_EXPRESSION_GET no_info [] []])) (eval_delta key_semantics orders_now d)
      (eval_plan key_semantics (tables_now orders_now) (LogicalOp LOGICAL_UNION (no_info\<lparr>setop_all := True\<rparr>) []
        [key_scan ''orders'' 0, LogicalOp LOGICAL_EXPRESSION_GET no_info [] []]) @
       unit_rows (constant_rows key_semantics (LogicalOp LOGICAL_EXPRESSION_GET no_info [] [])))"
proof (rule constants_added_at_every_refresh)
  show "maintainable orders_context key_semantics orders_before orders_now True (key_scan ''orders'' 0)"
    by (rule orders_scan_maintainable) simp
qed (simp_all add: is_constant_leaf_def)

text \<open>An \<open>UNNEST\<close> is taken for a constant whatever it reads.\<close>

lemma unnest_is_constant:
  assumes "leaf_node leaf = LogicalOp LOGICAL_UNNEST ui ue [LogicalOp t oi es (l # r # rest)]"
    and "\<not> leaf_is_get leaf" "t \<noteq> LOGICAL_GET"
  shows "constant_leaf (detect_leaf q view leaf)"
  using assms by (simp add: detect_leaf_def leaf_table_def GetLeafScan_def constant_status_def)

text \<open>C20: A leaf of a join that is an \<open>UNNEST\<close> over a join is taken for a constant
  (\<open>IsConstantLeafSubtree\<close> does not look below an \<open>UNNEST\<close>, and the scan of the leaf is not found
  below the inner join), so no term reads the change of the leaf: a change of the tables of the
  inner join never reaches the view.\<close>

theorem unnested_join_never_refreshed:
  assumes "CompileJoinDelta (compile_env C) (compile_settings C) (compile_queries C) (compile_lake C)
      (compile_view C) op = Inr (InclusionExclusionTerms terms)"
    and "i < leaf_count op"
    and "leaf_node (leaf_of op i) = LogicalOp LOGICAL_UNNEST ui ue [LogicalOp t oi es (l # r # rest)]"
    and "t \<noteq> LOGICAL_GET" "skip_empty_deltas (compile_settings C)"
  shows "\<forall>term \<in> set terms. i \<notin> fst ` set (term_deltas term)"
proof
  let ?leaves = "CollectJoinLeaves op [] False"
  fix tm assume "tm \<in> set terms"
  then obtain has_left where tm: "tm \<in> set (BuildInclusionExclusionTerms (compile_env C) (compile_settings C)
      (compile_queries C) (compile_view C) op ?leaves has_left)"
    using assms(1) by (auto simp: CompileJoinDelta_def Let_def split: sum.splits if_splits)
  have "?leaves ! i \<in> set ?leaves" using assms(2) by (auto intro: nth_mem)
  then have "\<not> leaf_is_get (?leaves ! i)" using leaf_is_get_iff assms(3) by (auto simp: leaf_of_def)
  then have "constant_leaf (detect_leaf (compile_queries C) (compile_view C) (?leaves ! i))"
    using unnest_is_constant assms(3,4) by (simp add: leaf_of_def)
  with built_term_leaves(2) [OF tm _ assms(5)] show "i \<notin> fst ` set (term_deltas tm)" by blast
qed

definition unnested_orders :: LogicalOperator where
  "unnested_orders = LogicalOp LOGICAL_CROSS_PRODUCT no_info []
     [LogicalOp LOGICAL_UNNEST no_info [] [orders_join JOIN_INNER], key_scan ''orders'' 2]"

lemma unnested_leaves:
  "CollectJoinLeaves unnested_orders [] False =
     [\<lparr>leaf_path = [0], leaf_is_get = False, leaf_node = LogicalOp LOGICAL_UNNEST no_info [] [orders_join JOIN_INNER],
       is_right_of_left_join = False\<rparr>,
      \<lparr>leaf_path = [1], leaf_is_get = True, leaf_node = key_scan ''orders'' 2, is_right_of_left_join = False\<rparr>]"
  by (simp add: unnested_orders_def join_simps is_join_node_def outer_side_def key_scan_def)

theorem unnested_join_never_refreshed_witness:
  "\<exists>terms. CompileJoinDelta (compile_env orders_context) (compile_settings orders_context)
      (compile_queries orders_context) (compile_lake orders_context) (compile_view orders_context) unnested_orders
        = Inr (InclusionExclusionTerms terms) \<and> (\<forall>term \<in> set terms. 0 \<notin> fst ` set (term_deltas term))"
proof -
  have "VerifyJoinTypes unnested_orders = Inr False"
    by (simp add: unnested_orders_def orders_join_def key_scan_def verify_here_def no_info_def)
  then obtain terms where terms: "CompileJoinDelta (compile_env orders_context) (compile_settings orders_context)
      (compile_queries orders_context) (compile_lake orders_context) (compile_view orders_context) unnested_orders
        = Inr (InclusionExclusionTerms terms)"
    by (auto simp: CompileJoinDelta_def unnested_leaves all_ducklake_def GetLeafScan_def is_ducklake_scan_def
        key_scan_def no_info_def MAX_JOIN_TABLES_def)
  have "\<forall>term \<in> set terms. 0 \<notin> fst ` set (term_deltas term)"
    by (rule unnested_join_never_refreshed [OF terms, where t = LOGICAL_COMPARISON_JOIN])
      (simp_all add: leaf_of_def unnested_leaves orders_join_def compiling_def default_settings_def
        CollectJoinLeaves_length [of unnested_orders "[]" False, symmetric])
  with terms show ?thesis by blast
qed

end
