(* ===== verification/Metadata_Json.thy ===== *)
theory Metadata_Json
  imports Compile_Facts View_Model
begin

text \<open>
  The JSON columns of the metadata tables (\<open>core/refresh_metadata.cpp\<close>): the hand-written reader,
  the writers and readers of each kind of entry, and the repair check for auxiliary tables. What
  is written is read back, up to the newlines that the array reader does not decode.
\<close>

section \<open>The reader\<close>

text \<open>The text behind \<open>"key":\<close> and an opening character.\<close>

definition json_needle :: "string \<Rightarrow> char \<Rightarrow> string" where
  "json_needle key opening = dquote_char # key @ [dquote_char, CHR '':'', opening]"

text \<open>The same reader as in \<open>compile_facts.cpp\<close>, which the code has twice.\<close>

definition ExtractMetaString :: "string \<Rightarrow> string \<Rightarrow> string option" where
  "ExtractMetaString json key = Option.bind (find_after (json_needle key dquote_char) json) json_string_body"

text \<open>One element behind its opening quote, and the text behind its closing quote. An element that
  is not closed ends with the text.\<close>

fun json_element :: "string \<Rightarrow> string \<times> string" where
  "json_element [] = ([], [])"
| "json_element [c] = (if c = dquote_char then ([], []) else ([c], []))"
| "json_element (c # d # cs) =
     (if c = dquote_char then ([], d # cs)
      else if c = backslash_char then map_prod ((#) d) (\<lambda>t. t) (json_element cs)
      else map_prod ((#) c) (\<lambda>t. t) (json_element (d # cs)))"

lemma json_element_length: "length (snd (json_element t)) \<le> length t"
  by (induction t rule: json_element.induct) (auto simp: map_prod_def split: prod.splits)

function json_elements :: "string \<Rightarrow> string list" where
  "json_elements t =
     (case dropWhile (\<lambda>c. c \<noteq> dquote_char \<and> c \<noteq> CHR '']'') t of
        [] \<Rightarrow> []
      | c # cs \<Rightarrow>
          (if c = CHR '']'' then []
           else fst (json_element cs) # json_elements (snd (json_element cs))))"
  by pat_completeness auto
termination
proof (relation "measure length", goal_cases)
  case (2 t c cs)
  have "length (c # cs) \<le> length t" using 2(1) length_dropWhile_le [of _ t] by metis
  with json_element_length [of cs] show ?case by simp
qed simp

declare json_elements.simps [simp del]

definition ExtractJsonStringArray :: "string \<Rightarrow> string \<Rightarrow> string list option" where
  "ExtractJsonStringArray json key = map_option json_elements (find_after (json_needle key CHR ''['') json)"

text \<open>\<open>cur\<close> is the text from \<open>object_start\<close> on.\<close>

fun objects_loop :: "nat \<Rightarrow> bool \<Rightarrow> bool \<Rightarrow> string option \<Rightarrow> string \<Rightarrow> string list" where
  "objects_loop depth in_string escaped cur [] = []"
| "objects_loop depth in_string escaped cur (c # cs) =
     (let more = map_option (\<lambda>t. t @ [c]) cur in
      if in_string then
        (if escaped then objects_loop depth True False more cs
         else if c = backslash_char then objects_loop depth True True more cs
         else if c = dquote_char then objects_loop depth False escaped more cs
         else objects_loop depth True escaped more cs)
      else if c = dquote_char then objects_loop depth True escaped more cs
      else if c = CHR ''{'' then objects_loop (depth + 1) False escaped (if depth = 0 then Some [c] else more) cs
      else if c = CHR ''}'' then
        (if depth = 0 then objects_loop 0 False escaped more cs
         else if depth = 1 then
           (case more of
              Some t \<Rightarrow> t # objects_loop 0 False escaped None cs
            | None \<Rightarrow> objects_loop 0 False escaped None cs)
         else objects_loop (depth - 1) False escaped more cs)
      else if c = CHR '']'' \<and> depth = 0 then []
      else objects_loop depth False escaped more cs)"

definition ExtractJsonObjectsFromArray :: "string \<Rightarrow> string \<Rightarrow> string list" where
  "ExtractJsonObjectsFromArray json key =
     (case find_after (json_needle key CHR ''['') json of
        None \<Rightarrow> []
      | Some t \<Rightarrow> objects_loop 0 False False None t)"

fun pipe_loop :: "string \<Rightarrow> string \<Rightarrow> string list" where
  "pipe_loop current [] = [current]"
| "pipe_loop current (c # cs) =
     (if c = CHR ''|'' then current # pipe_loop [] cs else pipe_loop (current @ [c]) cs)"

definition SplitPipeFields :: "string \<Rightarrow> string list" where
  "SplitPipeFields value = pipe_loop [] value"

text \<open>\<open>std::stoull\<close>: leading white space, a sign, digits; text behind the digits is ignored. It throws
  without a digit and above \<open>2 ^ 64 - 1\<close>; a minus sign negates the 64-bit value.\<close>

definition stoull :: "string \<Rightarrow> nat option" where
  "stoull text =
     (let t = dropWhile is_space text;
          signed = t \<noteq> [] \<and> (hd t = CHR ''-'' \<or> hd t = CHR ''+'');
          digits = takeWhile is_digit (if signed then tl t else t);
          n = digits_value digits
      in if digits = [] \<or> 2 ^ 64 \<le> n then None
         else Some (if signed \<and> hd t = CHR ''-'' then (2 ^ 64 - n) mod 2 ^ 64 else n))"

definition ParseJsonIndex :: "string \<Rightarrow> string \<Rightarrow> idx_t option" where
  "ParseJsonIndex json key = Option.bind (ExtractMetaString json key) stoull"

section \<open>The writers\<close>

text \<open>An object is written as its fields, each with its key in quotes.\<close>

definition json_field :: "string \<times> string \<Rightarrow> string" where
  "json_field f = dquote_char # fst f @ [dquote_char, CHR '':''] @ snd f"

definition json_object :: "(string \<times> string) list \<Rightarrow> string" where
  "json_object pairs = ''{'' @ join_with '','' (map json_field pairs) @ ''}''"

definition json_list :: "string list \<Rightarrow> string" where
  "json_list texts = ''['' @ join_with '','' texts @ '']''"

definition DistinctAuxMetaToJson :: "DistinctAuxMeta \<Rightarrow> string" where
  "DistinctAuxMetaToJson m = json_object
     [(''aux_table'', JsonQuote (distinct_aux_table m)), (''cols'', JsonArray (distinct_cols m)),
      (''source_exprs'', JsonArray (distinct_source_exprs m)), (''input_sql'', JsonQuote (distinct_input_sql m)),
      (''source'', JsonQuote (distinct_source m)), (''filter'', JsonQuote (distinct_filter m)),
      (''sum_arg'', JsonQuote (sum_arg m)), (''sum_out'', JsonQuote (sum_out m))]"

definition SemiAntiAuxMetaToJson :: "SemiAntiAuxMeta \<Rightarrow> string" where
  "SemiAntiAuxMetaToJson m = json_object
     [(''aux_table'', JsonQuote (semi_aux_table m)), (''join_type'', JsonQuote (semi_join_type m)),
      (''left_table'', JsonQuote (left_table m)), (''left_alias'', JsonQuote (left_alias m)),
      (''right_table'', JsonQuote (right_table m)), (''right_alias'', JsonQuote (right_alias m)),
      (''predicate'', JsonQuote (predicate m)), (''post_filter'', JsonQuote (post_filter m)),
      (''left_cols'', JsonArray (left_cols m)), (''left_exprs'', JsonArray (left_exprs m)),
      (''output_cols'', JsonArray (output_cols m))]"

definition FilteredGroupCountAuxMetaToJson :: "FilteredGroupCountAuxRequirement \<Rightarrow> string" where
  "FilteredGroupCountAuxMetaToJson m = json_object
     [(''kind'', JsonQuote ''filtered_group_count''), (''aux_table'', JsonQuote (filtered_aux_table m)),
      (''source'', JsonQuote (filtered_source m)), (''group_col'', JsonQuote (group_col m)),
      (''sum_col'', JsonQuote (sum_col m)), (''source_group_expr'', JsonQuote (source_group_expr m)),
      (''source_sum_expr'', JsonQuote (source_sum_expr m)), (''output_col'', JsonQuote (output_col m)),
      (''op'', JsonQuote (comparison_op m)), (''threshold'', JsonQuote (threshold_sql m))]"

type_synonym GroupRecomputeSourceOccurrence = "string \<times> idx_t"

definition GroupRecomputeSourceOccurrencesToJson :: "GroupRecomputeSourceOccurrence list \<Rightarrow> string" where
  "GroupRecomputeSourceOccurrencesToJson occurrences = json_object
     [(''sources'', json_list (map (\<lambda>(table, count). json_object
         [(''table'', JsonQuote table), (''count'', JsonQuote (nat_string count))]) occurrences))]"

definition lineage_op_text :: "WindowPartitionLineageOp \<Rightarrow> string" where
  "lineage_op_text op = json_object
     ([(''k'', JsonQuote (op_kind op)), (''out'', JsonQuote (op_output_col op)),
       (''source'', JsonQuote (op_source op)), (''source_col'', JsonQuote (op_source_col op))] @
      (if op_kind op = ''lookup'' then
         [(''lookup'', JsonQuote (op_lookup op)), (''lookup_col'', JsonQuote (op_lookup_col op)),
          (''lookup_out'', JsonQuote (op_lookup_out op))]
       else []))"

definition WindowPartitionLineageToJson :: "WindowPartitionLineageOp list \<Rightarrow> string" where
  "WindowPartitionLineageToJson ops = json_object
     [(''k'', JsonQuote ''window_partition''), (''ops'', json_list (map lineage_op_text ops))]"

definition step_text :: "ProjectionKeyLineageStep \<Rightarrow> string" where
  "step_text s = step_table s @ ''|'' @ nat_string (step_occurrence s) @ ''|'' @ step_lookup_col s @ ''|'' @ step_lookup_out s"

definition arm_text :: "ProjectionKeyLineageArm \<Rightarrow> string" where
  "arm_text a = json_object
     [(''source'', JsonQuote (arm_source a)), (''occ'', JsonQuote (nat_string (arm_occurrence a))),
      (''source_col'', JsonQuote (arm_source_col a)), (''steps'', JsonArray (map step_text (arm_steps a)))]"

definition ProjectionKeyLineageToJson :: "ProjectionKeyLineage \<Rightarrow> string" where
  "ProjectionKeyLineageToJson l = json_object
     [(''k'', JsonQuote ''projection_key''), (''out'', JsonQuote (lineage_output_col l)),
      (''key_source'', JsonQuote (key_source l)), (''key_occ'', JsonQuote (nat_string (key_occurrence l))),
      (''key_col'', JsonQuote (key_col l)), (''arms'', json_list (map arm_text (arms l)))]"

definition BuildRefreshLineageJson :: "string list \<Rightarrow> string" where
  "BuildRefreshLineageJson entries =
     (if entries = [] then [] else json_object [(''v'', ''1''), (''items'', json_list entries)])"

definition BuildDeltaViewModelLineageJson :: "DeltaViewModel \<Rightarrow> string" where
  "BuildDeltaViewModelLineageJson model = BuildRefreshLineageJson
     ((if window_lineage_ops model = [] then [] else [WindowPartitionLineageToJson (window_lineage_ops model)]) @
      (if has_projection_lineage model then [ProjectionKeyLineageToJson (projection_lineage model)] else []))"

section \<open>The readers of the columns\<close>

text \<open>A cell of \<open>openivm_views\<close>: no row or an error is \<open>None\<close>, a NULL is \<open>Some None\<close>. A reader that
  returns false is \<open>None\<close>; what it then leaves in its output is not used. Fields that may be
  missing keep their initial value.\<close>

type_synonym json_cell = "string option option"

definition cell_text :: "json_cell \<Rightarrow> string option" where
  "cell_text cell = (case cell of Some (Some json) \<Rightarrow> if json = [] then None else Some json | _ \<Rightarrow> None)"

definition or_empty :: "'a list option \<Rightarrow> 'a list" where
  "or_empty x = (case x of Some v \<Rightarrow> v | None \<Rightarrow> [])"

definition read_distinct_aux :: "string \<Rightarrow> DistinctAuxMeta option" where
  "read_distinct_aux json =
     (case (ExtractMetaString json ''aux_table'', ExtractJsonStringArray json ''cols'',
            ExtractMetaString json ''input_sql'', ExtractMetaString json ''source'',
            ExtractMetaString json ''sum_arg'', ExtractMetaString json ''sum_out'') of
        (Some aux, Some cols, Some input, Some source, Some arg, Some out) \<Rightarrow>
          Some \<lparr>distinct_aux_table = aux, distinct_cols = cols,
            distinct_source_exprs = or_empty (ExtractJsonStringArray json ''source_exprs''),
            distinct_input_sql = input, distinct_source = source,
            distinct_filter = or_empty (ExtractMetaString json ''filter''), sum_arg = arg, sum_out = out\<rparr>
      | _ \<Rightarrow> None)"

definition GetDistinctAuxMeta :: "json_cell \<Rightarrow> DistinctAuxMeta option" where
  "GetDistinctAuxMeta cell = Option.bind (cell_text cell) read_distinct_aux"

definition read_semi_anti_aux :: "string \<Rightarrow> SemiAntiAuxMeta option" where
  "read_semi_anti_aux json =
     (case (ExtractMetaString json ''aux_table'', ExtractMetaString json ''join_type'',
            ExtractMetaString json ''left_table'', ExtractMetaString json ''left_alias'',
            ExtractMetaString json ''right_table'', ExtractMetaString json ''right_alias'',
            ExtractMetaString json ''predicate'', ExtractJsonStringArray json ''left_cols'',
            ExtractJsonStringArray json ''output_cols'') of
        (Some aux, Some jt, Some lt, Some la, Some rt, Some ra, Some p, Some lc, Some oc) \<Rightarrow>
          Some \<lparr>semi_aux_table = aux, semi_join_type = jt, left_table = lt, left_alias = la,
            right_table = rt, right_alias = ra, predicate = p,
            post_filter = or_empty (ExtractMetaString json ''post_filter''), left_cols = lc,
            left_exprs = or_empty (ExtractJsonStringArray json ''left_exprs''), output_cols = oc\<rparr>
      | _ \<Rightarrow> None)"

definition GetSemiAntiAuxMeta :: "json_cell \<Rightarrow> SemiAntiAuxMeta option" where
  "GetSemiAntiAuxMeta cell = Option.bind (cell_text cell) read_semi_anti_aux"

text \<open>\<open>create_source\<close> is no part of the column.\<close>

definition read_filtered_aux :: "string \<Rightarrow> FilteredGroupCountAuxRequirement option" where
  "read_filtered_aux json =
     (if ExtractMetaString json ''kind'' \<noteq> Some ''filtered_group_count'' then None
      else (case (ExtractMetaString json ''aux_table'', ExtractMetaString json ''source'',
                  ExtractMetaString json ''group_col'', ExtractMetaString json ''sum_col'',
                  ExtractMetaString json ''output_col'', ExtractMetaString json ''op'',
                  ExtractMetaString json ''threshold'') of
              (Some aux, Some source, Some g, Some s, Some out, Some cmp, Some th) \<Rightarrow>
                Some \<lparr>filtered_aux_table = aux, filtered_source = source, group_col = g, sum_col = s,
                  source_group_expr = or_empty (ExtractMetaString json ''source_group_expr''),
                  source_sum_expr = or_empty (ExtractMetaString json ''source_sum_expr''),
                  output_col = out, comparison_op = cmp, threshold_sql = th, create_source = []\<rparr>
            | _ \<Rightarrow> None))"

definition GetFilteredGroupCountAuxMeta :: "json_cell \<Rightarrow> FilteredGroupCountAuxRequirement option" where
  "GetFilteredGroupCountAuxMeta cell = Option.bind (cell_text cell) read_filtered_aux"

definition read_occurrence :: "string \<Rightarrow> GroupRecomputeSourceOccurrence option" where
  "read_occurrence object =
     (case (ExtractMetaString object ''table'', ParseJsonIndex object ''count'') of
        (Some table, Some count) \<Rightarrow> if table = [] then None else Some (table, count)
      | _ \<Rightarrow> None)"

definition GetGroupRecomputeSourceOccurrences :: "json_cell \<Rightarrow> GroupRecomputeSourceOccurrence list" where
  "GetGroupRecomputeSourceOccurrences cell =
     (case cell_text cell of
        None \<Rightarrow> []
      | Some json \<Rightarrow> List.map_filter read_occurrence (ExtractJsonObjectsFromArray json ''sources''))"

definition ReadRefreshLineageEntry :: "json_cell \<Rightarrow> string \<Rightarrow> string option" where
  "ReadRefreshLineageEntry cell wanted =
     Option.bind (cell_text cell)
       (\<lambda>json. find (\<lambda>object. ExtractMetaString object ''k'' = Some wanted) (ExtractJsonObjectsFromArray json ''items''))"

definition read_lineage_op :: "string \<Rightarrow> WindowPartitionLineageOp option" where
  "read_lineage_op object =
     (case (ExtractMetaString object ''k'', ExtractMetaString object ''out'',
            ExtractMetaString object ''source'', ExtractMetaString object ''source_col'') of
        (Some k, Some out, Some source, Some col) \<Rightarrow>
          (let op = \<lparr>op_kind = k, op_output_col = out, op_source = source, op_source_col = col,
                      op_lookup = [], op_lookup_col = [], op_lookup_out = []\<rparr>
           in if k = ''lookup'' then
                (case (ExtractMetaString object ''lookup'', ExtractMetaString object ''lookup_col'',
                       ExtractMetaString object ''lookup_out'') of
                   (Some l, Some lc, Some lo) \<Rightarrow>
                     Some (op\<lparr>op_lookup := l, op_lookup_col := lc, op_lookup_out := lo\<rparr>)
                 | _ \<Rightarrow> None)
              else if k = ''direct'' then Some op else None)
      | _ \<Rightarrow> None)"

definition GetWindowPartitionLineage :: "json_cell \<Rightarrow> WindowPartitionLineageOp list" where
  "GetWindowPartitionLineage cell =
     (case ReadRefreshLineageEntry cell ''window_partition'' of
        None \<Rightarrow> []
      | Some json \<Rightarrow> List.map_filter read_lineage_op (ExtractJsonObjectsFromArray json ''ops''))"

definition read_step :: "string \<Rightarrow> ProjectionKeyLineageStep option" where
  "read_step text =
     (case SplitPipeFields text of
        [table, occ, col, out] \<Rightarrow>
          map_option (\<lambda>n. \<lparr>step_table = table, step_occurrence = n, step_lookup_col = col, step_lookup_out = out\<rparr>)
            (stoull occ)
      | _ \<Rightarrow> None)"

definition read_arm :: "string \<Rightarrow> ProjectionKeyLineageArm option" where
  "read_arm object =
     (case (ExtractMetaString object ''source'', ParseJsonIndex object ''occ'', ExtractMetaString object ''source_col'') of
        (Some source, Some occ, Some col) \<Rightarrow>
          Some \<lparr>arm_source = source, arm_occurrence = occ, arm_source_col = col,
            arm_steps = List.map_filter read_step (or_empty (ExtractJsonStringArray object ''steps''))\<rparr>
      | _ \<Rightarrow> None)"

definition GetProjectionKeyLineage :: "json_cell \<Rightarrow> ProjectionKeyLineage option" where
  "GetProjectionKeyLineage cell =
     Option.bind (ReadRefreshLineageEntry cell ''projection_key'') (\<lambda>json.
       (case (ExtractMetaString json ''out'', ExtractMetaString json ''key_source'',
              ParseJsonIndex json ''key_occ'', ExtractMetaString json ''key_col'') of
          (Some out, Some source, Some occ, Some col) \<Rightarrow>
            (let as = List.map_filter read_arm (ExtractJsonObjectsFromArray json ''arms'')
             in if as = [] then None
                else Some \<lparr>lineage_output_col = out, key_source = source, key_occurrence = occ,
                       key_col = col, arms = as\<rparr>)
        | _ \<Rightarrow> None))"

section \<open>Auxiliary tables\<close>

text \<open>\<open>columns\<close> is \<open>GetTableColumns\<close>, empty for a table that does not exist or cannot be read.\<close>

definition TableColumnsMatch :: "(string \<Rightarrow> string list) \<Rightarrow> string \<Rightarrow> string list \<Rightarrow> bool" where
  "TableColumnsMatch columns table expected \<longleftrightarrow>
     length (columns table) = length expected \<and> list_all2 (\<lambda>a b. map to_lower a = map to_lower b) (columns table) expected"

definition ExpectedDistinctAuxColumns :: "DistinctAuxMeta \<Rightarrow> string list" where
  "ExpectedDistinctAuxColumns m = distinct_cols m @ [''_count'']"

definition ExpectedFilteredGroupCountAuxColumns :: "FilteredGroupCountAuxRequirement \<Rightarrow> string list" where
  "ExpectedFilteredGroupCountAuxColumns m = [group_col m, ''openivm_sum'']"

definition ExpectedSemiAntiAuxColumns :: "SemiAntiAuxMeta \<Rightarrow> string list" where
  "ExpectedSemiAntiAuxColumns m = left_cols m @ [''_left_count'', ''_match_count'']"

definition AuxStateNeedsRepair :: "(string \<Rightarrow> string list) \<Rightarrow> json_cell \<Rightarrow> json_cell \<Rightarrow> json_cell \<Rightarrow> bool" where
  "AuxStateNeedsRepair columns distinct_cell filtered_cell semi_cell =
     (if (case GetDistinctAuxMeta distinct_cell of
            Some m \<Rightarrow> \<not> TableColumnsMatch columns (distinct_aux_table m) (ExpectedDistinctAuxColumns m)
          | None \<Rightarrow> False) then True
      else if (case GetFilteredGroupCountAuxMeta filtered_cell of
            Some m \<Rightarrow> \<not> TableColumnsMatch columns (filtered_aux_table m) (ExpectedFilteredGroupCountAuxColumns m)
          | None \<Rightarrow> False) then True
      else (case GetSemiAntiAuxMeta semi_cell of
            Some m \<Rightarrow> \<not> TableColumnsMatch columns (semi_aux_table m) (ExpectedSemiAntiAuxColumns m)
          | None \<Rightarrow> False))"

end
