(* ===== verification/Metadata_Roundtrip.thy ===== *)
theory Metadata_Roundtrip
  imports Metadata_Json
begin

text \<open>
  What the metadata writers write, the readers read back. The search for a key cannot stop inside
  a value, because every quote inside a value is behind a backslash and a key is followed by a
  colon; the object scanner counts braces outside of strings only.
\<close>

section \<open>Searching for a key\<close>

definition plain_key :: "string \<Rightarrow> bool" where
  "plain_key k \<longleftrightarrow> k \<noteq> [] \<and> list_all (\<lambda>c. c \<notin> {dquote_char, backslash_char, CHR '','', CHR '':'', CHR '']'', CHR ''[''}) k"

text \<open>No key with its quote and colon begins inside the text of a string.\<close>

lemma no_key_in_string:
  assumes "dquote_char \<notin> set k" "backslash_char \<notin> set k" "c \<noteq> CHR '':''"
  shows "\<not> starts_with (json_escape s @ dquote_char # c # rest) (k @ [dquote_char, CHR '':'', x])"
  using assms
proof (induction s arbitrary: k)
  case Nil
  then show ?case by (cases k) auto
next
  case (Cons a s)
  show ?case
  proof (cases k)
    case (Cons b k')
    with Cons.prems Cons.IH [of k'] show ?thesis by auto
  qed auto
qed

text \<open>\<open>skipped v\<close>: a search for a key that begins at the value passes over it.\<close>

definition skipped :: "string \<Rightarrow> bool" where
  "skipped v \<longleftrightarrow> (\<forall>k x c rest. plain_key k \<longrightarrow> c \<in> {CHR '','', CHR '']'', CHR ''}''} \<longrightarrow> c \<noteq> hd k \<longrightarrow>
     find_after (json_needle k x) (v @ c # rest) = find_after (json_needle k x) (c # rest))"

lemma plain_key_chars:
  "plain_key k \<Longrightarrow> dquote_char \<notin> set k" "plain_key k \<Longrightarrow> backslash_char \<notin> set k"
  "plain_key k \<Longrightarrow> \<exists>d k'. k = d # k' \<and> d \<notin> {dquote_char, backslash_char, CHR '','', CHR '':'', CHR '']'', CHR ''[''}"
  by (cases k; auto simp: plain_key_def list_all_iff)+

declare find_after.simps(2) [simp del]

lemma find_after_next: "\<not> starts_with (c # t) needle \<Longrightarrow> find_after needle (c # t) = find_after needle t"
  by (simp add: find_after.simps)

lemma find_after_here: "find_after (json_needle k x) (json_needle k x @ t) = Some t"
  using starts_with_append [of "json_needle k x" t]
  by (simp add: json_needle_def find_after.simps del: starts_with_append)

lemma find_after_other: "c \<noteq> dquote_char \<Longrightarrow> find_after (json_needle k x) (c # t) = find_after (json_needle k x) t"
  by (rule find_after_next) (simp add: json_needle_def)

lemma skip_string_body:
  assumes "plain_key k" "c \<noteq> hd k" "c \<noteq> CHR '':''"
  shows "find_after (json_needle k x) (json_escape s @ dquote_char # c # rest) = find_after (json_needle k x) (c # rest)"
proof (induction s)
  case Nil
  obtain d k' where k: "k = d # k'" using plain_key_chars(3) [OF assms(1)] by blast
  with assms(2) have "\<not> starts_with (dquote_char # c # rest) (json_needle k x)" by (simp add: json_needle_def)
  then show ?case by (simp add: find_after_next)
next
  case (Cons a s)
  have none: "\<not> starts_with (dquote_char # json_escape s @ dquote_char # c # rest) (json_needle k x)"
    using no_key_in_string [OF plain_key_chars(1,2) [OF assms(1)] assms(3)] by (auto simp: json_needle_def)
  consider "a = dquote_char" | "a = backslash_char" | "a = newline_char" | "a \<notin> {dquote_char, backslash_char, newline_char}"
    by blast
  then show ?case
  proof cases
    case 1
    with find_after_next [OF none] Cons show ?thesis by (simp add: find_after_other)
  qed (use Cons in \<open>simp_all add: find_after_other\<close>)
qed

lemma skipped_quote: "skipped (JsonQuote s)"
  unfolding skipped_def
proof (intro allI impI)
  fix k x c rest assume k: "plain_key k" and c: "c \<in> {CHR '','', CHR '']'', CHR ''}''}" "c \<noteq> hd k"
  have "\<not> starts_with (dquote_char # json_escape s @ dquote_char # c # rest) (json_needle k x)"
    using no_key_in_string [OF plain_key_chars(1,2) [OF k]] c by (auto simp: json_needle_def)
  moreover have "c \<noteq> CHR '':''" using c by auto
  ultimately show "find_after (json_needle k x) (JsonQuote s @ c # rest) = find_after (json_needle k x) (c # rest)"
    using skip_string_body [OF k c(2)] find_after_next by (simp add: JsonQuote_def)
qed

lemma skipped_plain: "dquote_char \<notin> set v \<Longrightarrow> skipped v"
proof -
  assume "dquote_char \<notin> set v"
  then have "find_after (json_needle k x) (v @ t) = find_after (json_needle k x) t" for k x t
    by (induction v) (auto simp: find_after_other)
  then show ?thesis by (simp add: skipped_def)
qed

lemma skipped_array: "skipped (JsonArray xs)"
  unfolding skipped_def
proof (intro allI impI)
  fix k x c rest assume k: "plain_key k" and c: "c \<in> {CHR '','', CHR '']'', CHR ''}''}" "c \<noteq> hd k"
  have not_key: "CHR '','' \<noteq> hd k" "CHR '']'' \<noteq> hd k" using plain_key_chars(3) [OF k] by auto
  have "find_after (json_needle k x) (join_with '','' (map JsonQuote xs) @ CHR '']'' # t) = find_after (json_needle k x) t" for t
  proof (induction xs rule: induct_list012)
    case 1
    then show ?case by (simp add: find_after_other)
  next
    case (2 y)
    with skipped_quote [of y] k not_key show ?case by (simp add: skipped_def find_after_other)
  next
    case (3 y z ys)
    with skipped_quote [of y] k not_key show ?case by (simp add: skipped_def find_after_other)
  qed
  then show "find_after (json_needle k x) (JsonArray xs @ c # rest) = find_after (json_needle k x) (c # rest)"
    by (simp add: JsonArray_def find_after_other)
qed

lemma same_key:
  "dquote_char \<notin> set k \<Longrightarrow> dquote_char \<notin> set k' \<Longrightarrow> starts_with (k' @ dquote_char # t) (k @ dquote_char # u) \<Longrightarrow> k = k'"
proof (induction k arbitrary: k')
  case Nil
  then show ?case by (cases k') auto
next
  case (Cons a k)
  then show ?case by (cases k') auto
qed

lemma skip_field:
  assumes "plain_key k" "k' \<noteq> k" "dquote_char \<notin> set k'" "skipped v" "c \<in> {CHR '','', CHR ''}''}" "c \<noteq> hd k"
  shows "find_after (json_needle k x) (json_field (k', v) @ c # rest) = find_after (json_needle k x) (c # rest)"
proof -
  obtain d k'' where k: "k = d # k''" "d \<noteq> CHR '':''" "d \<noteq> dquote_char" using plain_key_chars(3) [OF assms(1)] by blast
  have "\<not> starts_with (dquote_char # k' @ dquote_char # CHR '':'' # v @ c # rest) (json_needle k x)"
    using same_key [OF plain_key_chars(1) [OF assms(1)] assms(3)] assms(2) by (auto simp: json_needle_def)
  then have "find_after (json_needle k x) (json_field (k', v) @ c # rest) =
      find_after (json_needle k x) (k' @ dquote_char # CHR '':'' # v @ c # rest)"
    by (simp add: json_field_def find_after_next)
  also have "\<dots> = find_after (json_needle k x) (dquote_char # CHR '':'' # v @ c # rest)"
    using assms(3) by (induction k') (auto simp: find_after_other)
  also have "\<not> starts_with (dquote_char # CHR '':'' # v @ c # rest) (json_needle k x)"
    using k by (simp add: json_needle_def)
  then have "find_after (json_needle k x) (dquote_char # CHR '':'' # v @ c # rest) = find_after (json_needle k x) (v @ c # rest)"
    by (simp add: find_after_next find_after_other)
  also have "\<dots> = find_after (json_needle k x) (c # rest)" using assms unfolding skipped_def by blast
  finally show ?thesis .
qed

text \<open>\<open>reaches k fs v\<close>: the value \<open>v\<close> of the key \<open>k\<close> can be found behind the fields before it.\<close>

fun reaches :: "string \<Rightarrow> (string \<times> string) list \<Rightarrow> string \<Rightarrow> bool" where
  "reaches k [] v \<longleftrightarrow> False"
| "reaches k ((k', v') # fs) v \<longleftrightarrow>
     (if k' = k then v' = v else skipped v' \<and> dquote_char \<notin> set k' \<and> reaches k fs v)"

lemma find_field:
  assumes "plain_key k" "hd k \<noteq> CHR ''{''" "hd k \<noteq> CHR ''}''" "reaches k fs (x # v)"
  shows "\<exists>t. find_after (json_needle k x) (json_object fs @ rest) = Some (v @ t)"
proof -
  have "\<exists>t. find_after (json_needle k x) (join_with '','' (map json_field fs) @ CHR ''}'' # rest) = Some (v @ t)"
    using assms(4)
  proof (induction fs)
    case (Cons f fs)
    obtain k' v' where f: "f = (k', v')" by fastforce
    show ?case
    proof (cases "k' = k")
      case True
      then have "json_field f = dquote_char # k @ [dquote_char, CHR '':''] @ x # v" using Cons.prems f by (simp add: json_field_def)
      then have "json_field f @ u = json_needle k x @ v @ u" for u by (simp add: json_needle_def)
      then have "find_after (json_needle k x) (json_field f @ u) = Some (v @ u)" for u
        by (simp add: find_after_here)
      then show ?thesis by (cases fs) auto
    next
      case False
      then have below: "reaches k fs (x # v)" "skipped v'" "dquote_char \<notin> set k'" using Cons.prems f by auto
      have "CHR '','' \<noteq> hd k" using plain_key_chars(3) [OF assms(1)] by auto
      then have "find_after (json_needle k x) (json_field f @ CHR '','' # t) = find_after (json_needle k x) t" for t
        using skip_field [OF assms(1) False below(3,2)] f by (simp add: find_after_other)
      with Cons.IH [OF below(1)] below(1) show ?thesis by (cases fs) auto
    qed
  qed simp
  then show ?thesis by (simp add: json_object_def find_after_other)
qed

section \<open>Values that are read back\<close>

text \<open>A kind of value: how it is written behind its opening character, and what the reader makes of it.\<close>

locale json_value =
  fixes start :: char
    and encode :: "'v \<Rightarrow> string"
    and decode :: "string \<Rightarrow> 'w"
    and good :: "'v \<Rightarrow> bool"
    and result :: "'v \<Rightarrow> 'w"
  assumes decode_encode: "good v \<Longrightarrow> decode (encode v @ rest) = result v"
begin

lemma read_field:
  assumes "plain_key k" "hd k \<noteq> CHR ''{''" "hd k \<noteq> CHR ''}''" "reaches k fs (start # encode v)" "good v"
  shows "map_option decode (find_after (json_needle k start) (json_object fs)) = Some (result v)"
  using find_field [OF assms(1-4), of "[]"] decode_encode [OF assms(5)] by auto

end

lemma json_needle_escape: "json_string_body (json_escape v @ [dquote_char] @ rest) = Some v"
  using json_string_body_escape by simp

interpretation json_text: json_value dquote_char "\<lambda>s. json_escape s @ [dquote_char]" json_string_body "\<lambda>s. True" Some
  by unfold_locales (simp add: json_needle_escape [simplified])

text \<open>The array reader does not decode \<open>\n\<close>: a newline in an element is read as the letter.\<close>

definition newline_lost :: "string \<Rightarrow> string" where
  "newline_lost s = map (\<lambda>c. if c = newline_char then CHR ''n'' else c) s"

lemma json_element_escape: "json_element (json_escape s @ dquote_char # rest) = (newline_lost s, rest)"
proof (induction s)
  case Nil
  then show ?case by (cases rest) (auto simp: newline_lost_def)
next
  case (Cons c s)
  obtain d t where "json_escape s @ dquote_char # rest = d # t" by (cases "json_escape s") auto
  with Cons show ?case by (auto simp: newline_lost_def)
qed

lemma json_elements_array: "json_elements (join_with '','' (map JsonQuote xs) @ CHR '']'' # rest) = map newline_lost xs"
proof -
  have elem: "json_elements (JsonQuote x @ t) = newline_lost x # json_elements t"
    "json_elements (CHR '','' # JsonQuote x @ t) = newline_lost x # json_elements t" for x t
    by (subst json_elements.simps, simp add: JsonQuote_def json_element_escape)+
  have close: "json_elements (CHR '']'' # t) = []" for t by (subst json_elements.simps) simp
  have "json_elements (CHR '','' # join_with '','' (map JsonQuote (x # xs)) @ CHR '']'' # rest) = map newline_lost (x # xs)" for x xs
    by (induction xs arbitrary: x) (simp_all add: elem close)
  then show ?thesis by (cases xs; cases "tl xs") (auto simp: elem close)
qed

interpretation json_texts: json_value "CHR ''[''" "\<lambda>xs. join_with '','' (map JsonQuote xs) @ '']''" json_elements
  "\<lambda>xs. True" "map newline_lost"
  by unfold_locales (simp add: json_elements_array)

section \<open>Objects in an array\<close>

text \<open>The scanner passes over a balanced text inside of an object, and at depth 0 takes an object whole.\<close>

definition balanced :: "string \<Rightarrow> bool" where
  "balanced t \<longleftrightarrow> (\<forall>d u rest. objects_loop (Suc d) False False (Some u) (t @ rest) = objects_loop (Suc d) False False (Some (u @ t)) rest)"

lemma balanced_Nil [intro]: "balanced []"
  by (simp add: balanced_def)

lemma balanced_char [intro]: "c \<notin> {dquote_char, CHR ''{'', CHR ''}''} \<Longrightarrow> balanced [c]"
  by (simp add: balanced_def)

lemma balanced_append [intro]: "balanced s \<Longrightarrow> balanced t \<Longrightarrow> balanced (s @ t)"
  by (simp add: balanced_def)

lemma balanced_plain [intro]: "set t \<inter> {dquote_char, CHR ''{'', CHR ''}''} = {} \<Longrightarrow> balanced t"
proof (induction t)
  case (Cons c t)
  then have "balanced ([c] @ t)" by (intro balanced_append balanced_char) auto
  then show ?case by simp
qed auto

lemma scan_string:
  "objects_loop (Suc d) True False (Some u) (json_escape s @ dquote_char # rest) =
     objects_loop (Suc d) False False (Some (u @ json_escape s @ [dquote_char])) rest"
  by (induction s arbitrary: u) auto

lemma balanced_quote [intro]: "balanced (JsonQuote s)"
  by (simp add: balanced_def JsonQuote_def scan_string)

lemma balanced_object:
  assumes "balanced t"
  shows "balanced (''{'' @ t @ ''}'')"
  using assms unfolding balanced_def by simp

lemma balanced_join: "(\<And>t. t \<in> set ts \<Longrightarrow> balanced t) \<Longrightarrow> balanced (join_with '','' ts)"
proof (induction ts rule: induct_list012)
  case (3 x y zs)
  then have "balanced (x @ '','' @ join_with '','' (y # zs))" by (intro balanced_append balanced_char) auto
  then show ?case by simp
qed auto

lemma balanced_list: "(\<And>t. t \<in> set ts \<Longrightarrow> balanced t) \<Longrightarrow> balanced (json_list ts)"
  unfolding json_list_def by (intro balanced_append balanced_join balanced_char) auto

lemma balanced_array [intro]: "balanced (JsonArray xs)"
  using balanced_list [of "map JsonQuote xs"] by (auto simp: json_list_def JsonArray_def)

definition plain_name :: "string \<Rightarrow> bool" where
  "plain_name k \<longleftrightarrow> set k \<inter> {dquote_char, CHR ''{'', CHR ''}'', backslash_char} = {}"

lemma balanced_field:
  assumes "plain_name (fst f)" "balanced (snd f)"
  shows "balanced (json_field f)"
proof -
  have "json_field f = JsonQuote (fst f) @ '':'' @ snd f" if "newline_char \<notin> set (fst f)"
  proof -
    have "json_escape (fst f) = fst f" using assms(1) that unfolding plain_name_def by (induction "fst f" arbitrary: f) auto
    then show ?thesis by (simp add: json_field_def JsonQuote_def)
  qed
  moreover have "objects_loop (Suc d) True False (Some u) (fst f @ t) = objects_loop (Suc d) True False (Some (u @ fst f)) t" for d u t
    using assms(1) unfolding plain_name_def by (induction "fst f" arbitrary: u f) auto
  ultimately show ?thesis using assms(2) unfolding balanced_def by (simp add: json_field_def)
qed

lemma balanced_fields:
  "(\<And>f. f \<in> set fs \<Longrightarrow> plain_name (fst f) \<and> balanced (snd f)) \<Longrightarrow> balanced (json_object fs)"
  unfolding json_object_def by (intro balanced_object balanced_join) (auto intro: balanced_field)

definition whole_object :: "string \<Rightarrow> bool" where
  "whole_object t \<longleftrightarrow> (\<forall>rest. objects_loop 0 False False None (t @ rest) = t # objects_loop 0 False False None rest)"

lemma whole_json_object:
  assumes "\<And>f. f \<in> set fs \<Longrightarrow> plain_name (fst f) \<and> balanced (snd f)"
  shows "whole_object (json_object fs)"
proof -
  have "balanced (join_with '','' (map json_field fs))"
    by (intro balanced_join) (use assms in \<open>auto intro: balanced_field\<close>)
  then show ?thesis by (simp add: whole_object_def json_object_def balanced_def)
qed

lemma objects_of_list:
  "(\<And>t. t \<in> set ts \<Longrightarrow> whole_object t) \<Longrightarrow> objects_loop 0 False False None (join_with '','' ts @ CHR '']'' # rest) = ts"
  by (induction ts rule: induct_list012) (simp_all add: whole_object_def)

interpretation json_objects: json_value "CHR ''[''" "\<lambda>ts. join_with '','' ts @ '']''" "objects_loop 0 False False None"
  "\<lambda>ts. \<forall>t \<in> set ts. whole_object t" "\<lambda>ts. ts"
  by unfold_locales (simp add: objects_of_list)

section \<open>Reading fields\<close>

named_theorems json_read \<open>reading a field of a written object\<close>

definition field_key :: "string \<Rightarrow> bool" where
  "field_key k \<longleftrightarrow> plain_key k \<and> hd k \<noteq> CHR ''{'' \<and> hd k \<noteq> CHR ''}''"

lemma read_string [json_read]:
  "field_key k \<Longrightarrow> reaches k fs (JsonQuote v) \<Longrightarrow> ExtractMetaString (json_object fs) k = Some v"
  using json_text.read_field [of k fs v] by (auto simp: field_key_def ExtractMetaString_def JsonQuote_def)

lemma read_array [json_read]:
  "field_key k \<Longrightarrow> reaches k fs (JsonArray xs) \<Longrightarrow>
     ExtractJsonStringArray (json_object fs) k = Some (map newline_lost xs)"
  using json_texts.read_field [of k fs xs] by (auto simp: field_key_def ExtractJsonStringArray_def JsonArray_def)

lemma read_objects [json_read]:
  "field_key k \<Longrightarrow> reaches k fs (json_list ts) \<Longrightarrow> (\<And>t. t \<in> set ts \<Longrightarrow> whole_object t) \<Longrightarrow>
     ExtractJsonObjectsFromArray (json_object fs) k = ts"
  using json_objects.read_field [of k fs ts] by (auto simp: field_key_def ExtractJsonObjectsFromArray_def json_list_def)

lemma skipped_values [simp]: "skipped (JsonQuote v)" "skipped (JsonArray xs)" "skipped ''1''"
  by (simp_all add: skipped_quote skipped_array skipped_plain)

lemmas field_key_eval = field_key_def plain_key_def

lemma cell_of_object [simp]: "cell_text (Some (Some (json_object fs))) = Some (json_object fs)"
  by (simp add: cell_text_def json_object_def)

lemma read_distinct:
  "GetDistinctAuxMeta (Some (Some (DistinctAuxMetaToJson m))) =
     Some (m\<lparr>distinct_cols := map newline_lost (distinct_cols m),
             distinct_source_exprs := map newline_lost (distinct_source_exprs m)\<rparr>)"
  unfolding GetDistinctAuxMeta_def DistinctAuxMetaToJson_def read_distinct_aux_def
  by (simp add: json_read field_key_eval or_empty_def)

lemma read_semi_anti:
  "GetSemiAntiAuxMeta (Some (Some (SemiAntiAuxMetaToJson m))) =
     Some (m\<lparr>left_cols := map newline_lost (left_cols m), left_exprs := map newline_lost (left_exprs m),
             output_cols := map newline_lost (output_cols m)\<rparr>)"
  unfolding GetSemiAntiAuxMeta_def SemiAntiAuxMetaToJson_def read_semi_anti_aux_def
  by (simp add: json_read field_key_eval or_empty_def)

lemma read_filtered:
  "GetFilteredGroupCountAuxMeta (Some (Some (FilteredGroupCountAuxMetaToJson m))) = Some (m\<lparr>create_source := []\<rparr>)"
  unfolding GetFilteredGroupCountAuxMeta_def FilteredGroupCountAuxMetaToJson_def read_filtered_aux_def
  by (simp add: json_read field_key_eval or_empty_def)

section \<open>Indices and steps\<close>

lemma digit_not_special: "is_digit c \<Longrightarrow> \<not> is_space c \<and> c \<noteq> CHR ''-'' \<and> c \<noteq> CHR ''+'' \<and> c \<noteq> CHR ''|'' \<and> c \<noteq> newline_char"
  by (auto simp: is_digit_def is_space_def Let_def)

lemma stoull_nat_string [simp]:
  assumes "n < 2 ^ 64"
  shows "stoull (nat_string n) = Some n"
proof -
  obtain c t where ct: "nat_string n = c # t" using nat_string_not_Nil [of n] by (cases "nat_string n") auto
  have digits: "\<forall>d \<in> set (nat_string n). is_digit d" using nat_string_digits [of n] by (simp add: list_all_iff)
  then have all: "takeWhile is_digit (nat_string n) = nat_string n" by (simp add: takeWhile_eq_all_conv)
  have "\<not> is_space c" "c \<noteq> CHR ''-''" "c \<noteq> CHR ''+''" using digits ct digit_not_special [of c] by auto
  then have "dropWhile is_space (nat_string n) = nat_string n"
    "\<not> (hd (nat_string n) = CHR ''-'' \<or> hd (nat_string n) = CHR ''+'')" by (simp_all add: ct)
  with assms show ?thesis
    by (simp add: stoull_def Let_def digits_value_nat_string nat_string_not_Nil all)
qed

lemma nat_string_chars: "CHR ''|'' \<notin> set (nat_string n)" "newline_char \<notin> set (nat_string n)"
  using nat_string_digits [of n] digit_not_special by (auto simp: list_all_iff)

lemma read_index [json_read]:
  "field_key k \<Longrightarrow> reaches k fs (JsonQuote (nat_string n)) \<Longrightarrow> n < 2 ^ 64 \<Longrightarrow> ParseJsonIndex (json_object fs) k = Some n"
  by (simp add: ParseJsonIndex_def read_string)

lemma pipe_loop_field: "CHR ''|'' \<notin> set a \<Longrightarrow> pipe_loop cur (a @ CHR ''|'' # t) = (cur @ a) # pipe_loop [] t"
  by (induction a arbitrary: cur) auto

lemma pipe_loop_last: "CHR ''|'' \<notin> set a \<Longrightarrow> pipe_loop cur a = [cur @ a]"
  by (induction a arbitrary: cur) auto

definition step_writable :: "ProjectionKeyLineageStep \<Rightarrow> bool" where
  "step_writable s \<longleftrightarrow> step_occurrence s < 2 ^ 64 \<and>
     (\<forall>t \<in> {step_table s, step_lookup_col s, step_lookup_out s}. CHR ''|'' \<notin> set t \<and> newline_char \<notin> set t)"

lemma newline_lost_same [simp]: "newline_lost s = s \<longleftrightarrow> newline_char \<notin> set s"
  by (induction s) (auto simp: newline_lost_def)

lemma read_step_text:
  assumes "step_writable s"
  shows "newline_lost (step_text s) = step_text s" "read_step (step_text s) = Some s"
  using assms nat_string_chars
  by (auto simp: step_writable_def step_text_def read_step_def SplitPipeFields_def pipe_loop_field pipe_loop_last)

section \<open>Nested entries\<close>

lemma map_filter_all: "(\<And>x. x \<in> set xs \<Longrightarrow> f (g x) = Some x) \<Longrightarrow> List.map_filter f (map g xs) = xs"
  by (induction xs) (auto simp: List.map_filter_simps)

lemma written_objects:
  "(\<And>f. f \<in> set fs \<Longrightarrow> plain_name (fst f) \<and> balanced (snd f)) \<Longrightarrow> whole_object (json_object fs) \<and> balanced (json_object fs)"
  using whole_json_object balanced_fields by blast

lemma occurrence_object:
  "whole_object (json_object [(''table'', JsonQuote table), (''count'', JsonQuote (nat_string count))])"
  by (rule whole_json_object) (auto simp: plain_name_def)

lemma read_occurrences:
  assumes "\<And>table count. (table, count) \<in> set os \<Longrightarrow> table \<noteq> [] \<and> count < 2 ^ 64"
  shows "GetGroupRecomputeSourceOccurrences (Some (Some (GroupRecomputeSourceOccurrencesToJson os))) = os"
proof -
  let ?text = "\<lambda>(table, count). json_object [(''table'', JsonQuote table), (''count'', JsonQuote (nat_string count))]"
  have "ExtractJsonObjectsFromArray (json_object [(''sources'', json_list (map ?text os))]) ''sources'' = map ?text os"
    by (rule read_objects) (auto simp: field_key_eval occurrence_object)
  moreover have "List.map_filter read_occurrence (map ?text os) = os"
    by (rule map_filter_all) (use assms in \<open>auto simp: read_occurrence_def json_read field_key_eval\<close>)
  ultimately show ?thesis
    by (simp add: GetGroupRecomputeSourceOccurrences_def GroupRecomputeSourceOccurrencesToJson_def)
qed

definition op_writable :: "WindowPartitionLineageOp \<Rightarrow> bool" where
  "op_writable op \<longleftrightarrow> op_kind op = ''lookup'' \<or>
     op_kind op = ''direct'' \<and> op_lookup op = [] \<and> op_lookup_col op = [] \<and> op_lookup_out op = []"

lemma lineage_op_object: "whole_object (lineage_op_text op) \<and> balanced (lineage_op_text op)"
  unfolding lineage_op_text_def by (rule written_objects) (auto simp: plain_name_def split: if_splits)

lemma read_lineage_op_text: "op_writable op \<Longrightarrow> read_lineage_op (lineage_op_text op) = Some op"
  by (auto simp: op_writable_def lineage_op_text_def read_lineage_op_def json_read field_key_eval Let_def)

definition arm_writable :: "ProjectionKeyLineageArm \<Rightarrow> bool" where
  "arm_writable a \<longleftrightarrow> arm_occurrence a < 2 ^ 64 \<and> list_all step_writable (arm_steps a)"

lemma arm_object: "whole_object (arm_text a) \<and> balanced (arm_text a)"
  unfolding arm_text_def by (rule written_objects) (auto simp: plain_name_def)

lemma read_arm_text:
  assumes "arm_writable a"
  shows "read_arm (arm_text a) = Some a"
proof -
  have steps: "map newline_lost (map step_text (arm_steps a)) = map step_text (arm_steps a)"
    "List.map_filter read_step (map step_text (arm_steps a)) = arm_steps a"
    using assms by (auto simp: arm_writable_def list_all_iff read_step_text intro!: map_filter_all)
  show ?thesis
    using assms steps(2) by (simp add: arm_text_def read_arm_def json_read field_key_eval or_empty_def arm_writable_def
        steps(1) del: map_map)
qed

definition lineage_writable :: "ProjectionKeyLineage \<Rightarrow> bool" where
  "lineage_writable l \<longleftrightarrow> key_occurrence l < 2 ^ 64 \<and> arms l \<noteq> [] \<and> list_all arm_writable (arms l)"

lemma lineage_entry:
  "whole_object (WindowPartitionLineageToJson ops) \<and> whole_object (ProjectionKeyLineageToJson l)"
  unfolding WindowPartitionLineageToJson_def ProjectionKeyLineageToJson_def
  by (intro conjI whole_json_object) (auto simp: plain_name_def lineage_op_object arm_object intro!: balanced_list)

lemma entry_kinds:
  "ExtractMetaString (WindowPartitionLineageToJson ops) ''k'' = Some ''window_partition''"
  "ExtractMetaString (ProjectionKeyLineageToJson l) ''k'' = Some ''projection_key''"
  by (simp_all add: WindowPartitionLineageToJson_def ProjectionKeyLineageToJson_def json_read field_key_eval)

lemma entries_read:
  assumes "\<And>t. t \<in> set entries \<Longrightarrow> whole_object t"
  shows "ReadRefreshLineageEntry (Some (Some (BuildRefreshLineageJson entries))) wanted =
    find (\<lambda>t. ExtractMetaString t ''k'' = Some wanted) entries"
proof (cases "entries = []")
  case False
  have "ExtractJsonObjectsFromArray (json_object [(''v'', ''1''), (''items'', json_list entries)]) ''items'' = entries"
    by (rule read_objects) (use assms in \<open>auto simp: field_key_eval\<close>)
  with False show ?thesis by (simp add: ReadRefreshLineageEntry_def BuildRefreshLineageJson_def)
qed (simp add: ReadRefreshLineageEntry_def BuildRefreshLineageJson_def cell_text_def)

lemma ops_read:
  "list_all op_writable ops \<Longrightarrow>
     List.map_filter read_lineage_op (ExtractJsonObjectsFromArray (WindowPartitionLineageToJson ops) ''ops'') = ops"
proof -
  assume ok: "list_all op_writable ops"
  have "ExtractJsonObjectsFromArray (WindowPartitionLineageToJson ops) ''ops'' = map lineage_op_text ops"
    unfolding WindowPartitionLineageToJson_def by (rule read_objects) (auto simp: field_key_eval lineage_op_object)
  moreover have "List.map_filter read_lineage_op (map lineage_op_text ops) = ops"
    by (rule map_filter_all) (use ok read_lineage_op_text in \<open>auto simp: list_all_iff\<close>)
  ultimately show ?thesis by simp
qed

lemma arms_read:
  "list_all arm_writable (arms l) \<Longrightarrow>
     List.map_filter read_arm (ExtractJsonObjectsFromArray (ProjectionKeyLineageToJson l) ''arms'') = arms l"
proof -
  assume ok: "list_all arm_writable (arms l)"
  have "ExtractJsonObjectsFromArray (ProjectionKeyLineageToJson l) ''arms'' = map arm_text (arms l)"
    unfolding ProjectionKeyLineageToJson_def by (rule read_objects) (auto simp: field_key_eval arm_object)
  moreover have "List.map_filter read_arm (map arm_text (arms l)) = arms l"
    by (rule map_filter_all) (use ok read_arm_text in \<open>auto simp: list_all_iff\<close>)
  ultimately show ?thesis by simp
qed

lemma lineage_fields:
  "ExtractMetaString (ProjectionKeyLineageToJson l) ''out'' = Some (lineage_output_col l)"
  "ExtractMetaString (ProjectionKeyLineageToJson l) ''key_source'' = Some (key_source l)"
  "key_occurrence l < 2 ^ 64 \<Longrightarrow> ParseJsonIndex (ProjectionKeyLineageToJson l) ''key_occ'' = Some (key_occurrence l)"
  "ExtractMetaString (ProjectionKeyLineageToJson l) ''key_col'' = Some (key_col l)"
  by (simp_all add: ProjectionKeyLineageToJson_def json_read field_key_eval)

section \<open>The properties\<close>

definition one_line :: "string list \<Rightarrow> bool" where
  "one_line xs \<longleftrightarrow> (\<forall>x \<in> set xs. newline_char \<notin> set x)"

lemma newline_lost_list: "map newline_lost xs = xs \<longleftrightarrow> one_line xs"
  unfolding one_line_def by (induction xs) auto

text \<open>C25: The auxiliary-state columns of a view are read back as they were written: distinct state,
  semi/anti state, filtered group counts and the sources of a group recomputation, with any
  characters in names and predicates, except a newline in an element of an array.\<close>

theorem aux_metadata_roundtrip:
  assumes "one_line (distinct_cols d @ distinct_source_exprs d)"
    and "one_line (left_cols s @ left_exprs s @ output_cols s)"
    and "\<And>table count. (table, count) \<in> set os \<Longrightarrow> table \<noteq> [] \<and> count < 2 ^ 64"
  shows "GetDistinctAuxMeta (Some (Some (DistinctAuxMetaToJson d))) = Some d \<and>
    GetSemiAntiAuxMeta (Some (Some (SemiAntiAuxMetaToJson s))) = Some s \<and>
    GetFilteredGroupCountAuxMeta (Some (Some (FilteredGroupCountAuxMetaToJson f))) = Some (f\<lparr>create_source := []\<rparr>) \<and>
    GetGroupRecomputeSourceOccurrences (Some (Some (GroupRecomputeSourceOccurrencesToJson os))) = os"
proof -
  have "map newline_lost (distinct_cols d) = distinct_cols d" "map newline_lost (distinct_source_exprs d) = distinct_source_exprs d"
    "map newline_lost (left_cols s) = left_cols s" "map newline_lost (left_exprs s) = left_exprs s"
    "map newline_lost (output_cols s) = output_cols s"
    using assms(1,2) by (auto simp: newline_lost_list one_line_def)
  with assms(3) show ?thesis by (simp add: read_distinct read_semi_anti read_filtered read_occurrences)
qed

definition tricky_distinct :: DistinctAuxMeta where
  "tricky_distinct = \<lparr>distinct_aux_table = ''openivm_aux'', distinct_cols = [[dquote_char, CHR '','', backslash_char], ''b'' ],
     distinct_source_exprs = [], distinct_input_sql = [newline_char], distinct_source = ''source'',
     distinct_filter = [], sum_arg = ''x'', sum_out = ''y''\<rparr>"

theorem aux_metadata_roundtrip_witness:
  "GetDistinctAuxMeta (Some (Some (DistinctAuxMetaToJson tricky_distinct))) = Some tricky_distinct \<and>
    GetSemiAntiAuxMeta (Some (Some (SemiAntiAuxMetaToJson EmptySemiAntiAux))) = Some EmptySemiAntiAux \<and>
    GetFilteredGroupCountAuxMeta (Some (Some (FilteredGroupCountAuxMetaToJson EmptyFilteredGroupCountAux))) =
      Some (EmptyFilteredGroupCountAux\<lparr>create_source := []\<rparr>) \<and>
    GetGroupRecomputeSourceOccurrences (Some (Some (GroupRecomputeSourceOccurrencesToJson [(''t'', 2)]))) = [(''t'', 2)]"
  by (rule aux_metadata_roundtrip) (auto simp: one_line_def tricky_distinct_def EmptySemiAntiAux_def)

text \<open>The array reader does not decode the newline that the writer escapes: distinct state is
  read back as it was written exactly when no column and no source expression has a newline.\<close>

theorem newline_in_array_not_read_back:
  "GetDistinctAuxMeta (Some (Some (DistinctAuxMetaToJson d))) = Some d \<longleftrightarrow>
     one_line (distinct_cols d @ distinct_source_exprs d)"
proof -
  have "m\<lparr>distinct_cols := a, distinct_source_exprs := b\<rparr> = m \<longleftrightarrow> a = distinct_cols m \<and> b = distinct_source_exprs m"
    for m :: DistinctAuxMeta and a b by (cases m) auto
  then show ?thesis by (simp add: read_distinct newline_lost_list) (auto simp: one_line_def)
qed

text \<open>C26: The lineage column of a view model is read back as it was written: every window-partition
  operation, and the projection-key lineage with its arms and steps, whatever characters the
  names have, as long as the parts of a step have no bar and no newline.\<close>

theorem lineage_roundtrip:
  assumes "list_all op_writable (window_lineage_ops model)"
    and "has_projection_lineage model \<Longrightarrow> lineage_writable (projection_lineage model)"
  shows "GetWindowPartitionLineage (Some (Some (BuildDeltaViewModelLineageJson model))) = window_lineage_ops model \<and>
    GetProjectionKeyLineage (Some (Some (BuildDeltaViewModelLineageJson model))) =
      (if has_projection_lineage model then Some (projection_lineage model) else None)"
proof -
  let ?w = "WindowPartitionLineageToJson (window_lineage_ops model)"
  let ?p = "ProjectionKeyLineageToJson (projection_lineage model)"
  let ?cell = "Some (Some (BuildDeltaViewModelLineageJson model))"
  have read: "ReadRefreshLineageEntry ?cell wanted = find (\<lambda>t. ExtractMetaString t ''k'' = Some wanted)
      ((if window_lineage_ops model = [] then [] else [?w]) @ (if has_projection_lineage model then [?p] else []))" for wanted
    unfolding BuildDeltaViewModelLineageJson_def by (rule entries_read) (auto simp: lineage_entry split: if_splits)
  have "GetWindowPartitionLineage ?cell = window_lineage_ops model"
    using ops_read [OF assms(1)] by (simp add: GetWindowPartitionLineage_def read entry_kinds)
  moreover have "GetProjectionKeyLineage ?cell =
      (if has_projection_lineage model then Some (projection_lineage model) else None)"
    using assms(2) arms_read [of "projection_lineage model"]
    by (auto simp: GetProjectionKeyLineage_def read entry_kinds lineage_fields lineage_writable_def Let_def)
  ultimately show ?thesis by blast
qed

definition lineage_model :: DeltaViewModel where
  "lineage_model = InitialModel\<lparr>window_lineage_ops :=
       [\<lparr>op_kind = ''lookup'', op_output_col = ''c'', op_source = [CHR ''}'', dquote_char], op_source_col = ''k'',
         op_lookup = ''t'', op_lookup_col = ''k'', op_lookup_out = ''c''\<rparr>],
     projection_lineage := \<lparr>lineage_output_col = ''o'', key_source = ''t'', key_occurrence = 1, key_col = ''k'',
       arms = [\<lparr>arm_source = ''s'', arm_occurrence = 0, arm_source_col = ''k'',
         arm_steps = [\<lparr>step_table = ''a b'', step_occurrence = 3, step_lookup_col = ''x'', step_lookup_out = ''y''\<rparr>]\<rparr>]\<rparr>,
     has_projection_lineage := True\<rparr>"

theorem lineage_roundtrip_witness:
  "GetWindowPartitionLineage (Some (Some (BuildDeltaViewModelLineageJson lineage_model))) = window_lineage_ops lineage_model \<and>
    GetProjectionKeyLineage (Some (Some (BuildDeltaViewModelLineageJson lineage_model))) =
      (if has_projection_lineage lineage_model then Some (projection_lineage lineage_model) else None)"
  by (rule lineage_roundtrip)
    (simp_all add: lineage_model_def op_writable_def lineage_writable_def arm_writable_def step_writable_def)

end
