(* ===== verification/Group_Recompute.thy ===== *)
theory Group_Recompute
  imports Sql_References Compile_Facts
begin

text \<open>
  Recomputing the affected groups of a view (\<open>upsert/refresh_compiler.cpp\<close>,
  \<open>upsert/refresh_helpers.cpp\<close>): the scanners that take filters over aggregates out of the query
  that finds the affected keys, the choice of how the keys are found, and the SQL of each way.
\<close>

section \<open>Scanning SQL for keywords\<close>

definition IsSqlIdentifierChar :: "char \<Rightarrow> bool" where
  "IsSqlIdentifierChar c \<longleftrightarrow> is_alnum c \<or> c = CHR ''_''"

definition IsKeywordTokenAt :: "string \<Rightarrow> nat \<Rightarrow> string \<Rightarrow> bool" where
  "IsKeywordTokenAt lower pos keyword \<longleftrightarrow>
     starts_with (drop pos lower) keyword \<and> pos + length keyword \<le> length lower \<and>
     (pos = 0 \<or> \<not> IsSqlIdentifierChar (lower ! (pos - 1))) \<and>
     (pos + length keyword = length lower \<or> \<not> IsSqlIdentifierChar (lower ! (pos + length keyword)))"

text \<open>\<open>scan\<close> has the two quote flags and the depth of parentheses. \<open>AdvanceSqlScanner\<close> reads the
  text from the position on and returns how far the loop moves: a doubled quote inside a string
  takes two characters.\<close>

record scan =
  in_single_quote :: bool
  in_double_quote :: bool
  scan_depth :: nat

definition no_scan :: scan where
  "no_scan = \<lparr>in_single_quote = False, in_double_quote = False, scan_depth = 0\<rparr>"

definition AdvanceSqlScanner :: "string \<Rightarrow> scan \<Rightarrow> scan \<times> nat" where
  "AdvanceSqlScanner t st =
     (case t of
        [] \<Rightarrow> (st, 1)
      | c # cs \<Rightarrow>
          (if c = quote_char \<and> \<not> in_double_quote st then
             (if in_single_quote st \<and> starts_with cs [quote_char] then (st, 2)
              else (st\<lparr>in_single_quote := \<not> in_single_quote st\<rparr>, 1))
           else if c = dquote_char \<and> \<not> in_single_quote st then
             (st\<lparr>in_double_quote := \<not> in_double_quote st\<rparr>, 1)
           else if in_single_quote st \<or> in_double_quote st then (st, 1)
           else if c = CHR ''('' then (st\<lparr>scan_depth := scan_depth st + 1\<rparr>, 1)
           else if c = CHR '')'' \<and> 0 < scan_depth st then (st\<lparr>scan_depth := scan_depth st - 1\<rparr>, 1)
           else (st, 1)))"

definition top_level :: "scan \<Rightarrow> bool" where
  "top_level st \<longleftrightarrow> \<not> in_single_quote st \<and> \<not> in_double_quote st \<and> scan_depth st = 0"

lemma advance_moves: "1 \<le> snd (AdvanceSqlScanner t st)"
  by (auto simp: AdvanceSqlScanner_def split: list.splits)

function contains_keyword :: "string \<Rightarrow> string \<Rightarrow> bool \<Rightarrow> bool \<Rightarrow> nat \<Rightarrow> bool" where
  "contains_keyword lower keyword sq dq i =
     (if length lower < i + length keyword then False
      else
        (let t = drop i lower
         in if starts_with t [quote_char] \<and> \<not> dq then
              (if sq \<and> starts_with t [quote_char, quote_char] then contains_keyword lower keyword sq dq (i + 2)
               else contains_keyword lower keyword (\<not> sq) dq (i + 1))
            else if starts_with t [dquote_char] \<and> \<not> sq then contains_keyword lower keyword sq (\<not> dq) (i + 1)
            else if sq \<or> dq \<or> \<not> IsKeywordTokenAt lower i keyword then contains_keyword lower keyword sq dq (i + 1)
            else True))"
  by pat_completeness auto
termination
  by (relation "measure (\<lambda>(lower, keyword, sq, dq, i). Suc (length lower) - i)") auto

declare contains_keyword.simps [simp del]

definition ContainsKeywordToken :: "duckdb_env \<Rightarrow> string \<Rightarrow> string \<Rightarrow> bool" where
  "ContainsKeywordToken E sql keyword = contains_keyword (Lower E sql) keyword False False 0"

function find_keyword :: "string \<Rightarrow> string \<Rightarrow> string \<Rightarrow> scan \<Rightarrow> nat \<Rightarrow> nat option" where
  "find_keyword sql lower keyword st i =
     (if length lower < i + length keyword then None
      else if top_level st \<and> IsKeywordTokenAt lower i keyword then Some i
      else (case AdvanceSqlScanner (drop i sql) st of (st', n) \<Rightarrow> find_keyword sql lower keyword st' (i + n)))"
  by pat_completeness auto
termination
proof (relation "measure (\<lambda>(sql, lower, keyword, st, i). Suc (length lower) - i)", goal_cases)
  case (2 sql lower keyword st i st' n)
  then have "1 \<le> n" using advance_moves [of "drop i sql" st] by (metis snd_conv)
  with 2 show ?case by simp
qed simp

declare find_keyword.simps [simp del]

definition FindTopLevelKeyword :: "duckdb_env \<Rightarrow> string \<Rightarrow> string \<Rightarrow> nat \<Rightarrow> nat option" where
  "FindTopLevelKeyword E sql keyword start_pos = find_keyword sql (Lower E sql) keyword no_scan start_pos"

definition FindFirstTopLevelClause :: "duckdb_env \<Rightarrow> string \<Rightarrow> string list \<Rightarrow> nat \<Rightarrow> nat option" where
  "FindFirstTopLevelClause E sql keywords start_pos =
     foldl (\<lambda>best keyword. case FindTopLevelKeyword E sql keyword start_pos of
              None \<Rightarrow> best
            | Some pos \<Rightarrow> (case best of None \<Rightarrow> Some pos | Some b \<Rightarrow> Some (if pos < b then pos else b)))
       None keywords"

function matching_paren :: "string \<Rightarrow> scan \<Rightarrow> nat \<Rightarrow> nat option" where
  "matching_paren sql st i =
     (if length sql \<le> i then None
      else (case AdvanceSqlScanner (drop i sql) st of (st', n) \<Rightarrow>
              if top_level st' \<and> sql ! i = CHR '')'' then Some i else matching_paren sql st' (i + n)))"
  by pat_completeness auto
termination
proof (relation "measure (\<lambda>(sql, st, i). length sql - i)", goal_cases)
  case (2 sql st i st' n)
  then have "1 \<le> n" using advance_moves [of "drop i sql" st] by (metis snd_conv)
  with 2 show ?case by simp
qed simp

declare matching_paren.simps [simp del]

definition FindMatchingParen :: "string \<Rightarrow> nat \<Rightarrow> nat option" where
  "FindMatchingParen sql open_pos = matching_paren sql no_scan open_pos"

text \<open>Behind a top-level \<open>AS\<close>, the parenthesis that opens the body of the CTE.\<close>

definition body_open :: "string \<Rightarrow> nat \<Rightarrow> nat option" where
  "body_open sql pos =
     (let n = length (takeWhile is_space (drop pos sql))
      in if starts_with (drop (pos + n) sql) ''('' then Some (pos + n) else None)"

function cte_body_open :: "string \<Rightarrow> string \<Rightarrow> scan \<Rightarrow> nat \<Rightarrow> nat option" where
  "cte_body_open sql lower st i =
     (if length sql \<le> i then None
      else if top_level st \<and> IsKeywordTokenAt lower i ''as'' then body_open sql (i + 2)
      else (case AdvanceSqlScanner (drop i sql) st of (st', n) \<Rightarrow> cte_body_open sql lower st' (i + n)))"
  by pat_completeness auto
termination
proof (relation "measure (\<lambda>(sql, lower, st, i). length sql - i)", goal_cases)
  case (2 sql lower st i st' n)
  then have "1 \<le> n" using advance_moves [of "drop i sql" st] by (metis snd_conv)
  with 2 show ?case by simp
qed simp

declare cte_body_open.simps [simp del]

definition FindCteBodyOpen :: "duckdb_env \<Rightarrow> string \<Rightarrow> nat \<Rightarrow> nat option" where
  "FindCteBodyOpen E sql cte_name_pos = cte_body_open sql (Lower E sql) no_scan cte_name_pos"

lemma matching_paren_ge: "matching_paren sql st i = Some j \<Longrightarrow> i \<le> j"
proof (induction sql st i rule: matching_paren.induct)
  case (1 sql st i)
  obtain st' n where adv: "AdvanceSqlScanner (drop i sql) st = (st', n)" by fastforce
  show ?case
    using 1 adv by (subst (asm) (2) matching_paren.simps) (fastforce split: if_splits)
qed

lemma cte_body_open_ge: "cte_body_open sql lower st i = Some j \<Longrightarrow> i \<le> j"
proof (induction sql lower st i rule: cte_body_open.induct)
  case (1 sql lower st i)
  obtain st' n where adv: "AdvanceSqlScanner (drop i sql) st = (st', n)" by fastforce
  show ?case
    using 1 adv by (subst (asm) (2) cte_body_open.simps) (fastforce simp: body_open_def Let_def split: if_splits)
qed

section \<open>Taking filters over aggregates out\<close>

text \<open>\<open>text.find(needle, pos)\<close> and \<open>text.substr(pos, len)\<close>.\<close>

definition find_from :: "string \<Rightarrow> string \<Rightarrow> nat \<Rightarrow> nat option" where
  "find_from s needle pos = find (\<lambda>i. starts_with (drop i s) needle) [pos ..< Suc (length s)]"

definition substr :: "string \<Rightarrow> nat \<Rightarrow> nat \<Rightarrow> string" where
  "substr s pos len = take len (drop pos s)"

definition has_substring :: "string \<Rightarrow> string \<Rightarrow> bool" where
  "has_substring s needle \<longleftrightarrow> find_from s needle 0 \<noteq> None"

definition BodyReadsAggregateCte :: "duckdb_env \<Rightarrow> string \<Rightarrow> nat \<Rightarrow> bool" where
  "BodyReadsAggregateCte E body from_pos =
     starts_with (dropWhile is_space (drop (from_pos + 4) (Lower E body))) ''aggregate_''"

text \<open>What the loop does with an occurrence of \<open>filter_\<close>: skip it up to a position, give up, or cut
  the condition out of the body between two positions.\<close>

datatype cte_step = SkipTo nat | NoMatchingParen | CutBody nat nat string

definition filter_cte :: "duckdb_env \<Rightarrow> string \<Rightarrow> nat \<Rightarrow> cte_step" where
  "filter_cte E sql pos =
     (if 0 < pos \<and> IsSqlIdentifierChar (Lower E sql ! (pos - 1)) then SkipTo (pos + 7)
      else (case FindCteBodyOpen E sql pos of
              None \<Rightarrow> SkipTo (pos + 7)
            | Some paren \<Rightarrow>
                (case FindMatchingParen sql paren of
                   None \<Rightarrow> NoMatchingParen
                 | Some body_close \<Rightarrow>
                     (let body = substr sql (paren + 1) (body_close - paren - 1)
                      in case (FindTopLevelKeyword E body ''from'' 0, FindTopLevelKeyword E body ''where'' 0) of
                           (Some from_pos, Some where_pos) \<Rightarrow>
                             (if where_pos < from_pos \<or> \<not> BodyReadsAggregateCte E body from_pos
                              then SkipTo (body_close + 1)
                              else CutBody (paren + 1) body_close (Trim E (take where_pos body)))
                         | _ \<Rightarrow> SkipTo (body_close + 1)))))"

lemma filter_cte_moves:
  "filter_cte E sql pos = SkipTo n \<Longrightarrow> pos < n" "filter_cte E sql pos = CutBody a b t \<Longrightarrow> pos \<le> b"
  unfolding filter_cte_def Let_def FindCteBodyOpen_def FindMatchingParen_def
  by (auto dest!: cte_body_open_ge matching_paren_ge split: if_splits option.splits)

lemma find_from_ge: "find_from s needle pos = Some i \<Longrightarrow> pos \<le> i \<and> i \<le> length s"
  unfolding find_from_def find_Some_iff by (auto simp: nth_append split: if_splits)

text \<open>The cut text so far and whether anything was cut.\<close>

function strip_ctes :: "duckdb_env \<Rightarrow> string \<Rightarrow> string \<Rightarrow> nat \<Rightarrow> bool \<Rightarrow> nat \<Rightarrow> string option" where
  "strip_ctes E sql result copy_pos changed search_pos =
     (case find_from (Lower E sql) ''filter_'' search_pos of
        None \<Rightarrow> if changed then Some (result @ drop copy_pos sql) else None
      | Some pos \<Rightarrow>
          (case filter_cte E sql pos of
             NoMatchingParen \<Rightarrow> None
           | SkipTo next \<Rightarrow> strip_ctes E sql result copy_pos changed next
           | CutBody body_start body_close stripped \<Rightarrow>
               strip_ctes E sql (result @ substr sql copy_pos (body_start - copy_pos) @ stripped) body_close True (body_close + 1)))"
  by pat_completeness auto
termination
proof (relation "measure (\<lambda>(E, sql, result, copy_pos, changed, search_pos). Suc (length (Lower E sql)) - search_pos)", goal_cases)
  case (2 E sql result copy_pos changed search_pos pos n)
  then show ?case using find_from_ge [OF 2(1)] filter_cte_moves(1) [of E sql pos n] by auto
next
  case (3 E sql result copy_pos changed search_pos pos a b t)
  then show ?case using find_from_ge [OF 3(1)] filter_cte_moves(2) [of E sql pos a b t] by auto
qed simp

declare strip_ctes.simps [simp del]

definition TryStripAggregateFilterCtes :: "duckdb_env \<Rightarrow> string \<Rightarrow> string option" where
  "TryStripAggregateFilterCtes E sql = strip_ctes E sql [] 0 False 0"

definition TryStripTopLevelHaving :: "duckdb_env \<Rightarrow> string \<Rightarrow> string option" where
  "TryStripTopLevelHaving E sql =
     (case FindTopLevelKeyword E sql ''having'' 0 of
        None \<Rightarrow> None
      | Some having_pos \<Rightarrow>
          (let prefix = Trim E (take having_pos sql);
               suffix = (case FindFirstTopLevelClause E sql
                             [''order'', ''limit'', ''union'', ''except'', ''intersect''] (having_pos + 6) of
                           None \<Rightarrow> []
                         | Some pos \<Rightarrow> Trim E (drop pos sql));
               out = (if suffix = [] then prefix
                      else (if prefix = [] then [] else prefix @ [newline_char]) @ suffix)
           in if out \<noteq> [] \<and> out \<noteq> sql then Some out else None))"

function has_filter_cte :: "string \<Rightarrow> nat \<Rightarrow> bool" where
  "has_filter_cte lower pos =
     (case find_from lower ''filter_'' pos of
        None \<Rightarrow> False
      | Some p \<Rightarrow>
          (let cte_end = (case find_from lower ''),'' p of None \<Rightarrow> length lower | Some e \<Rightarrow> e);
               filter_body = substr lower p (cte_end - p)
           in if has_substring filter_body '' from aggregate_'' \<and> has_substring filter_body '' where '' then True
              else has_filter_cte lower (p + 7)))"
  by pat_completeness auto
termination
proof (relation "measure (\<lambda>(lower, pos). Suc (length lower) - pos)", goal_cases)
  case (2 lower pos p cte_end filter_body)
  then show ?case using find_from_ge [OF 2(1)] by auto
qed simp

declare has_filter_cte.simps [simp del]

definition ContainsAggregateFilterCte :: "duckdb_env \<Rightarrow> string \<Rightarrow> bool" where
  "ContainsAggregateFilterCte E sql = has_filter_cte (Lower E sql) 0"

definition TryBuildGroupRecomputeAffectedQuery :: "duckdb_env \<Rightarrow> string \<Rightarrow> string option" where
  "TryBuildGroupRecomputeAffectedQuery E view_query_sql =
     (let has_filter = ContainsAggregateFilterCte E view_query_sql;
          has_having = ContainsKeywordToken E view_query_sql ''having''
      in if \<not> has_filter \<and> \<not> has_having then Some view_query_sql
         else
           (case (if has_filter then
                    (case TryStripAggregateFilterCtes E view_query_sql of
                       None \<Rightarrow> None
                     | Some q \<Rightarrow> if ContainsAggregateFilterCte E q then None else Some q)
                  else Some view_query_sql) of
              None \<Rightarrow> None
            | Some q \<Rightarrow>
                (if ContainsKeywordToken E q ''having'' then
                   (case TryStripTopLevelHaving E q of
                      None \<Rightarrow> None
                    | Some h \<Rightarrow> if ContainsKeywordToken E h ''having'' then None else Some h)
                 else Some q)))"

text \<open>A query that is used for the affected keys has no \<open>HAVING\<close> left.\<close>

lemma affected_query_relaxed:
  "TryBuildGroupRecomputeAffectedQuery E q = Some r \<Longrightarrow> \<not> ContainsKeywordToken E r ''having''"
  unfolding TryBuildGroupRecomputeAffectedQuery_def Let_def by (auto split: if_splits option.splits)

section \<open>How the affected keys are found\<close>

record GroupRecomputeDeltaSpec =
  base_table :: string
  spec_last_update :: string
  source_occurrences :: idx_t
  is_ducklake :: bool
  ducklake_catalog :: string
  ducklake_schema :: string
  last_snapshot_id :: int
  current_snapshot_id :: int

definition EstimateGroupRecomputeAffectedVariants :: "GroupRecomputeDeltaSpec list \<Rightarrow> idx_t" where
  "EstimateGroupRecomputeAffectedVariants specs =
     sum_list (map (\<lambda>s. if source_occurrences s = 0 then 1 else source_occurrences s) specs)"

definition ShouldUseCurrentDiffGroupRecompute :: "string \<Rightarrow> GroupRecomputeDeltaSpec list \<Rightarrow> bool" where
  "ShouldUseCurrentDiffGroupRecompute view_query_sql specs \<longleftrightarrow>
     (let variants = EstimateGroupRecomputeAffectedVariants specs
      in 32 \<le> variants \<or> 16 * 1024 * 1024 \<le> variants * length view_query_sql)"

section \<open>The SQL\<close>

type_synonym sql = string

abbreviation line :: "string \<Rightarrow> string" where
  "line s \<equiv> s @ [newline_char]"

definition BuildStandardDeltaRowsSQL :: "string \<Rightarrow> string \<Rightarrow> string \<Rightarrow> string" where
  "BuildStandardDeltaRowsSQL delta_table_sql last_update extra_predicate =
     (let since = (if last_update = [] then []
                   else TIMESTAMP_COL @ '' >= '' @ [quote_char] @ EscapeSingleQuotes last_update @ [quote_char] @ ''::TIMESTAMP'');
          predicate = (if extra_predicate = [] then since
                       else (if since = [] then [] else since @ '' AND '') @ extra_predicate)
      in ''(SELECT * EXCLUDE ('' @ MULTIPLICITY_COL @ '', '' @ TIMESTAMP_COL @ '') FROM '' @ delta_table_sql @
         (if predicate = [] then [] else '' WHERE '' @ predicate) @ '')'')"

definition BuildSignedMultisetDeltaInsertSQL :: "string \<Rightarrow> string \<Rightarrow> string \<Rightarrow> string" where
  "BuildSignedMultisetDeltaInsertSQL delta_table old_source new_source =
     line (''INSERT INTO '' @ delta_table) @
     line (''SELECT *, CAST(-1 AS INTEGER), CURRENT_TIMESTAMP FROM '' @ old_source) @
     line ''UNION ALL'' @
     line (''SELECT *, CAST(1 AS INTEGER), CURRENT_TIMESTAMP FROM '' @ new_source @ '';'')"

definition exists_affected :: "string \<Rightarrow> string \<Rightarrow> string \<Rightarrow> string" where
  "exists_affected source alias_name match_sql =
     line ''EXISTS ('' @ line (''  SELECT 1 FROM '' @ source @ '' AS '' @ alias_name @ '' WHERE '' @ match_sql) @ '')''"

definition BuildAffectedKeyRefreshSQL ::
  "string \<Rightarrow> sql \<Rightarrow> sql \<Rightarrow> string \<Rightarrow> string \<Rightarrow> string \<Rightarrow> sql \<Rightarrow> sql \<Rightarrow> string \<Rightarrow> sql" where
  "BuildAffectedKeyRefreshSQL data_table view_query_sql affected_subquery target_alias recompute_alias
       affected_alias target_match recompute_match affected_temp_table =
     (let affected_source = (if affected_temp_table = [] then line ''('' @ line affected_subquery @ '')''
                             else affected_temp_table)
      in (if affected_temp_table = [] then []
          else line (''CREATE OR REPLACE TEMP TABLE '' @ affected_temp_table @ '' AS'') @ line (line (affected_subquery @ '';''))) @
         line (''DELETE FROM '' @ data_table @ '' AS '' @ target_alias) @
         line (line (''WHERE '' @ exists_affected affected_source affected_alias target_match @ '';'')) @
         line (''INSERT INTO '' @ data_table) @
         line (''SELECT * FROM ('' @ view_query_sql @ '') '' @ recompute_alias) @
         line (''WHERE '' @ exists_affected affected_source affected_alias recompute_match @ '';'') @
         (if affected_temp_table = [] then []
          else [newline_char] @ line (''DROP TABLE IF EXISTS '' @ affected_temp_table @ '';'')))"

definition drop_tables :: "string list \<Rightarrow> string" where
  "drop_tables tables = concat (map (\<lambda>t. line (''DROP TABLE IF EXISTS '' @ t @ '';'')) tables)"

definition temp_table :: "string \<Rightarrow> string \<Rightarrow> string" where
  "temp_table name body_sql = line (''CREATE OR REPLACE TEMP TABLE '' @ name @ '' AS'') @ line (line (body_sql @ '';''))"

definition BuildCurrentDiffGroupRecomputeSQL ::
  "duckdb_env \<Rightarrow> string \<Rightarrow> string \<Rightarrow> string \<Rightarrow> string list \<Rightarrow> string \<Rightarrow> bool \<Rightarrow> string" where
  "BuildCurrentDiffGroupRecomputeSQL E view_name data_table view_query_sql group_columns catalog_prefix emit_cascade_delta =
     (let current_temp = QuoteIdentifier E (''openivm_current_'' @ view_name);
          affected_temp = QuoteIdentifier E (''openivm_affected_'' @ view_name);
          group_csv = JoinQuotedColumns E group_columns;
          target_match = BuildNullSafeMatch E group_columns ''openivm_aff'' ''openivm_tgt'';
          recompute_match = BuildNullSafeMatch E group_columns ''openivm_aff'' ''openivm_recompute'';
          of_target = line (''SELECT * FROM '' @ data_table @ '' AS openivm_tgt'') @
            ''WHERE '' @ exists_affected affected_temp ''openivm_aff'' target_match;
          of_current = line (''SELECT * FROM '' @ current_temp @ '' AS openivm_recompute'') @
            ''WHERE '' @ exists_affected affected_temp ''openivm_aff'' recompute_match;
          delete = line (''DELETE FROM '' @ data_table @ '' AS openivm_tgt'') @
            line (line (''WHERE '' @ exists_affected affected_temp ''openivm_aff'' target_match @ '';''));
          delta_table = catalog_prefix @ QuoteIdentifier E (DeltaName view_name);
          old_temp = QuoteIdentifier E (''openivm_old_'' @ view_name);
          new_temp = QuoteIdentifier E (''openivm_new_'' @ view_name)
      in temp_table current_temp view_query_sql @
         temp_table affected_temp
           (line (''SELECT DISTINCT '' @ group_csv) @ line ''FROM ('' @
            line (''  (SELECT * FROM '' @ current_temp @ '' EXCEPT ALL SELECT * FROM '' @ data_table @ '')'') @
            line ''  UNION ALL'' @
            line (''  (SELECT * FROM '' @ data_table @ '' EXCEPT ALL SELECT * FROM '' @ current_temp @ '')'') @
            '') openivm_changed'') @
         (if emit_cascade_delta then
            temp_table old_temp of_target @ temp_table new_temp of_current @ delete @
            line (''INSERT INTO '' @ data_table) @ line (''SELECT * FROM '' @ new_temp @ '';'') @
            [newline_char] @ BuildSignedMultisetDeltaInsertSQL delta_table old_temp new_temp @
            [newline_char] @ drop_tables [affected_temp, old_temp, new_temp, current_temp]
          else
            delete @ line (''INSERT INTO '' @ data_table) @ line (line (of_current @ '';'')) @
            drop_tables [affected_temp, current_temp]))"

definition CompileFullRecompute :: "duckdb_env \<Rightarrow> string \<Rightarrow> string \<Rightarrow> string \<Rightarrow> string" where
  "CompileFullRecompute E view_name view_query_sql catalog_prefix =
     BuildFullRecomputeSQL (catalog_prefix @ QuoteIdentifier E (DataTableName view_name)) view_query_sql"

text \<open>The view query with one reference to the base table replaced by the rows of its delta, once for
  every reference; in the form of the plan printer first, else by bare name.\<close>

definition delta_subselect :: "duckdb_env \<Rightarrow> string \<Rightarrow> GroupRecomputeDeltaSpec \<Rightarrow> string" where
  "delta_subselect E catalog_prefix spec =
     (if is_ducklake spec then
        line (''(SELECT * FROM '' @ DuckLakeTableFunction ''ducklake_table_insertions'' (ducklake_catalog spec)
          (ducklake_schema spec) (base_table spec) (last_snapshot_id spec) (current_snapshot_id spec)) @
        line ''UNION ALL'' @
        ''SELECT * FROM '' @ DuckLakeTableFunction ''ducklake_table_deletions'' (ducklake_catalog spec)
          (ducklake_schema spec) (base_table spec) (last_snapshot_id spec) (current_snapshot_id spec) @ '')''
      else BuildStandardDeltaRowsSQL (catalog_prefix @ QuoteIdentifier E (DELTA_PREFIX @ base_table spec))
             (spec_last_update spec) [])"

definition filtered_variants :: "duckdb_env \<Rightarrow> string \<Rightarrow> string \<Rightarrow> string \<Rightarrow> GroupRecomputeDeltaSpec \<Rightarrow> string list" where
  "filtered_variants E query catalog_prefix lpts_table_prefix spec =
     (let delta = delta_subselect E catalog_prefix spec;
          source_full = (if lpts_table_prefix = [] then catalog_prefix else lpts_table_prefix) @ base_table spec;
          plain = ReplaceEachPlainOccurrence query source_full delta;
          named = ReplaceEachTableReference E query (base_table spec) delta
      in if plain \<noteq> [] then plain
         else if named \<noteq> [] then named
         else (let filtered = ReplaceAllOccurrences query source_full delta
               in [if filtered = query then ReplaceTableReferences E query (base_table spec) delta else filtered]))"

definition affected_subquery :: "duckdb_env \<Rightarrow> string \<Rightarrow> string list \<Rightarrow> string \<Rightarrow> string \<Rightarrow> GroupRecomputeDeltaSpec list \<Rightarrow> string" where
  "affected_subquery E query group_columns catalog_prefix lpts_table_prefix specs =
     ''  '' @ join_with ([newline_char] @ ''  UNION'' @ [newline_char] @ ''  '')
       (concat (map (\<lambda>(i, spec). map (\<lambda>(occurrence, variant).
            ''SELECT DISTINCT '' @ JoinQuotedColumns E group_columns @ '' FROM ('' @ variant @ '') openivm_src_'' @
            nat_string i @ ''_'' @ nat_string occurrence)
          (enumerate 0 (filtered_variants E query catalog_prefix lpts_table_prefix spec)))
        (enumerate 0 specs)))"

definition CompileGroupRecompute ::
  "duckdb_env \<Rightarrow> string \<Rightarrow> string \<Rightarrow> string list \<Rightarrow> GroupRecomputeDeltaSpec list \<Rightarrow> string \<Rightarrow> string \<Rightarrow> bool \<Rightarrow>
   GroupRecomputeAffectedMode \<Rightarrow> string" where
  "CompileGroupRecompute E view_name view_query_sql group_columns specs catalog_prefix lpts_table_prefix
       emit_cascade_delta affected_mode =
     (let data_table = catalog_prefix @ QuoteIdentifier E (DataTableName view_name);
          current_diff = BuildCurrentDiffGroupRecomputeSQL E view_name data_table view_query_sql group_columns
            catalog_prefix emit_cascade_delta;
          match_clause = BuildNullSafeMatch E group_columns ''openivm_aff'' ''openivm_tgt'';
          affected_temp = QuoteIdentifier E (''openivm_affected_'' @ view_name);
          old_temp = QuoteIdentifier E (''openivm_old_'' @ view_name);
          new_temp = QuoteIdentifier E (''openivm_new_'' @ view_name);
          affected = exists_affected affected_temp ''openivm_aff'' match_clause
      in if group_columns = [] \<or> specs = [] then CompileFullRecompute E view_name view_query_sql catalog_prefix
         else if ShouldUseCurrentDiffGroupRecompute view_query_sql specs then current_diff
         else if affected_mode = CURRENT_DIFF then current_diff
         else
           (case (if affected_mode = SOURCE_DELTA_RELAX_AGGREGATE_FILTER
                  then TryBuildGroupRecomputeAffectedQuery E view_query_sql else Some view_query_sql) of
              None \<Rightarrow> current_diff
            | Some query \<Rightarrow>
                (let subquery = affected_subquery E query group_columns catalog_prefix lpts_table_prefix specs
                 in if \<not> emit_cascade_delta then
                      BuildAffectedKeyRefreshSQL data_table view_query_sql subquery ''openivm_tgt'' ''AS openivm_tgt''
                        ''openivm_aff'' match_clause match_clause affected_temp
                    else
                      temp_table affected_temp subquery @
                      temp_table old_temp (line (''SELECT * FROM '' @ data_table @ '' AS openivm_tgt'') @ ''WHERE '' @ affected) @
                      temp_table new_temp (line (''SELECT * FROM ('' @ view_query_sql @ '') AS openivm_tgt'') @ ''WHERE '' @ affected) @
                      line (''DELETE FROM '' @ data_table @ '' AS openivm_tgt'') @ line (line (''WHERE '' @ affected @ '';'')) @
                      line (''INSERT INTO '' @ data_table) @ line (''SELECT * FROM '' @ new_temp @ '';'') @
                      [newline_char] @ BuildSignedMultisetDeltaInsertSQL (catalog_prefix @ QuoteIdentifier E (DeltaName view_name)) old_temp new_temp @
                      [newline_char] @ drop_tables [affected_temp, old_temp, new_temp])))"

end
