(* ===== verification/Merge_Program.thy ===== *)
theory Merge_Program
  imports Group_Recompute
begin

text \<open>
  The merge of a grouped delta into its view (\<open>CompileAggregateGroups\<close> in
  \<open>upsert/refresh_compiler.cpp\<close>). The code writes SQL text; here the expressions it writes are
  terms, one constructor for each builder of the code, that \<open>print_merge\<close> turns into that text. The
  decisions (which columns are derived, which aggregate a column has, when the groups are
  recomputed instead) are those of the code.
\<close>

section \<open>Hidden columns\<close>

definition SUM_COL_PREFIX :: string where "SUM_COL_PREFIX = ''openivm_sum_''"
definition SUM_SQ_COL_PREFIX :: string where "SUM_SQ_COL_PREFIX = ''openivm_sum_sq_''"
definition VAR_SQ_COL_PREFIX :: string where "VAR_SQ_COL_PREFIX = ''openivm_var_sq_''"
definition SUM_SQP_COL_PREFIX :: string where "SUM_SQP_COL_PREFIX = ''openivm_sum_sqp_''"
definition VAR_SQP_COL_PREFIX :: string where "VAR_SQP_COL_PREFIX = ''openivm_var_sqp_''"
definition COUNT_COL_PREFIX :: string where "COUNT_COL_PREFIX = ''openivm_count_''"
definition MATCH_COUNT_COL :: string where "MATCH_COUNT_COL = ''openivm_match_count''"
definition RIGHT_MATCH_COUNT_COL :: string where "RIGHT_MATCH_COUNT_COL = ''openivm_right_match_count''"
definition COUNT_STAR_COL :: string where "COUNT_STAR_COL = ''openivm_count_star''"
definition DISTINCT_COUNT_COL :: string where "DISTINCT_COUNT_COL = ''openivm_distinct_count''"

definition MatchPrefix :: "string \<Rightarrow> string \<Rightarrow> string" where
  "MatchPrefix col prefix =
     (if length prefix < length col \<and> starts_with col prefix then drop (length prefix) col else [])"

definition IsDecomposedAggregateType :: "string \<Rightarrow> bool" where
  "IsDecomposedAggregateType t \<longleftrightarrow>
     t \<in> {''avg'', ''stddev'', ''stddev_samp'', ''stddev_pop'', ''variance'', ''var_samp'', ''var_pop''}"

text \<open>The maps of the struct are association lists with the last entry of a key first.\<close>

record DerivedAggDecomposition =
  sum_cols :: "(string \<times> string) list"
  sum_sq_cols :: "(string \<times> string) list"
  count_cols :: "(string \<times> string) list"
  needs_sqrt :: "(string \<times> bool) list"
  is_population :: "(string \<times> bool) list"

definition add_sum_sq :: "string \<Rightarrow> string \<Rightarrow> bool \<Rightarrow> bool \<Rightarrow> DerivedAggDecomposition \<Rightarrow> DerivedAggDecomposition" where
  "add_sum_sq alias_name col root population d = d\<lparr>sum_sq_cols := (alias_name, col) # sum_sq_cols d,
     needs_sqrt := (alias_name, root) # needs_sqrt d, is_population := (alias_name, population) # is_population d\<rparr>"

definition detect_column :: "string \<Rightarrow> DerivedAggDecomposition \<Rightarrow> DerivedAggDecomposition" where
  "detect_column col d =
     (if MatchPrefix col SUM_SQP_COL_PREFIX \<noteq> [] then add_sum_sq (MatchPrefix col SUM_SQP_COL_PREFIX) col True True d
      else if MatchPrefix col VAR_SQP_COL_PREFIX \<noteq> [] then add_sum_sq (MatchPrefix col VAR_SQP_COL_PREFIX) col False True d
      else if MatchPrefix col SUM_SQ_COL_PREFIX \<noteq> [] then add_sum_sq (MatchPrefix col SUM_SQ_COL_PREFIX) col True False d
      else if MatchPrefix col VAR_SQ_COL_PREFIX \<noteq> [] then add_sum_sq (MatchPrefix col VAR_SQ_COL_PREFIX) col False False d
      else if MatchPrefix col SUM_COL_PREFIX \<noteq> [] then d\<lparr>sum_cols := (MatchPrefix col SUM_COL_PREFIX, col) # sum_cols d\<rparr>
      else if MatchPrefix col COUNT_COL_PREFIX \<noteq> [] then d\<lparr>count_cols := (MatchPrefix col COUNT_COL_PREFIX, col) # count_cols d\<rparr>
      else d)"

definition DetectDerivedAggColumns :: "string list \<Rightarrow> DerivedAggDecomposition" where
  "DetectDerivedAggColumns columns = fold detect_column columns
     \<lparr>sum_cols = [], sum_sq_cols = [], count_cols = [], needs_sqrt = [], is_population = []\<rparr>"

text \<open>Membership in \<open>derived_cols\<close>, and its elements.\<close>

definition derived_col :: "DerivedAggDecomposition \<Rightarrow> string \<Rightarrow> bool" where
  "derived_col d alias_name \<longleftrightarrow> map_of (sum_cols d) alias_name \<noteq> None \<and> map_of (count_cols d) alias_name \<noteq> None"

definition derived_cols :: "DerivedAggDecomposition \<Rightarrow> string list" where
  "derived_cols d = filter (derived_col d) (map fst (sum_cols d))"

section \<open>Keys and aggregate columns\<close>

datatype LogicalTypeId =
    TINYINT | SMALLINT | INTEGER | BIGINT | HUGEINT | UTINYINT | USMALLINT | UINTEGER | UBIGINT | UHUGEINT
  | FLOAT | DOUBLE | DECIMAL | OTHER_TYPE nat

definition IsSummableLogicalType :: "LogicalTypeId \<Rightarrow> bool" where
  "IsSummableLogicalType t \<longleftrightarrow> t \<in> {TINYINT, SMALLINT, INTEGER, BIGINT, HUGEINT, UTINYINT, USMALLINT, UINTEGER,
     UBIGINT, UHUGEINT, FLOAT, DOUBLE, DECIMAL}"

text \<open>The arguments. \<open>index_columns\<close> are the column ids of the index of the delta view, if it has one.\<close>

record merge_input =
  merge_view :: string
  index_columns :: "nat list option"
  column_names :: "string list"
  view_query :: string
  merge_minmax :: bool
  list_mode :: bool
  delta_ts_filter :: string
  group_column_names :: "string list"
  merge_prefix :: string
  insert_only_deltas :: bool
  merge_types :: "string list"
  column_types :: "LogicalTypeId list"
  use_current_diff_keys :: bool
  cascade_specs :: "GroupRecomputeDeltaSpec list option"
  cascade_lpts_prefix :: string
  emit_cascade :: bool

definition merge_keys :: "merge_input \<Rightarrow> string list" where
  "merge_keys m =
     (case index_columns m of
        Some ids \<Rightarrow> map (\<lambda>i. column_names m ! i) ids
      | None \<Rightarrow> group_column_names m)"

definition merge_aggregates :: "duckdb_env \<Rightarrow> merge_input \<Rightarrow> string list" where
  "merge_aggregates E m =
     map (QuoteIdentifier E)
       (filter (\<lambda>c. c \<notin> set (merge_keys m) \<and> c \<noteq> MULTIPLICITY_COL) (column_names m))"

definition has_non_summable_col :: "merge_input \<Rightarrow> bool" where
  "has_non_summable_col m =
     list_ex (\<lambda>(c, t). c \<notin> set (merge_keys m) \<and> c \<noteq> MULTIPLICITY_COL \<and> \<not> IsSummableLogicalType t)
       (zip (column_names m) (column_types m))"

section \<open>When the groups are recomputed\<close>

definition has_orphan_derived :: "duckdb_env \<Rightarrow> string list \<Rightarrow> bool" where
  "has_orphan_derived E aggregates =
     list_ex (\<lambda>a. QuoteIdentifier E a \<notin> set aggregates \<and> a \<notin> set aggregates)
       (derived_cols (DetectDerivedAggColumns aggregates))"

definition counted_column :: "duckdb_env \<Rightarrow> DerivedAggDecomposition \<Rightarrow> string \<Rightarrow> bool" where
  "counted_column E d c \<longleftrightarrow> \<not> derived_col d c \<and> \<not> starts_with c SUM_COL_PREFIX \<and> \<not> starts_with c SUM_SQ_COL_PREFIX \<and>
     \<not> starts_with c SUM_SQP_COL_PREFIX \<and> \<not> starts_with c COUNT_COL_PREFIX \<and>
     c \<notin> {QuoteIdentifier E MATCH_COUNT_COL, MATCH_COUNT_COL, QuoteIdentifier E RIGHT_MATCH_COUNT_COL, RIGHT_MATCH_COUNT_COL}"

definition type_excess :: "duckdb_env \<Rightarrow> string list \<Rightarrow> string list \<Rightarrow> bool" where
  "type_excess E aggregates types \<longleftrightarrow>
     length (filter (counted_column E (DetectDerivedAggColumns aggregates)) aggregates)
       < length (filter (\<lambda>t. \<not> IsDecomposedAggregateType t) types)"

definition user_column :: "DerivedAggDecomposition \<Rightarrow> string \<Rightarrow> bool" where
  "user_column d c \<longleftrightarrow> \<not> derived_col d c \<and> \<not> has_substring c ''openivm_''"

text \<open>Both loops step through the types that are not decomposed, one for each user column.\<close>

definition column_orphan :: "string list \<Rightarrow> string list \<Rightarrow> bool" where
  "column_orphan aggregates types \<longleftrightarrow>
     (let d = DetectDerivedAggColumns aggregates
      in derived_cols d \<noteq> [] \<and>
         length (filter (\<lambda>t. \<not> IsDecomposedAggregateType t) types) < length (filter (user_column d) aggregates))"

definition has_computed_over_derived :: "duckdb_env \<Rightarrow> string list \<Rightarrow> string list \<Rightarrow> bool" where
  "has_computed_over_derived E aggregates types \<longleftrightarrow>
     types \<noteq> [] \<and> (type_excess E aggregates types \<or> column_orphan aggregates types)"

definition has_real_minmax :: "string list \<Rightarrow> bool" where
  "has_real_minmax types = list_ex (\<lambda>t. t \<in> {''min'', ''max'', ''arg_min'', ''arg_max''}) types"

definition col_agg_type :: "string list \<Rightarrow> string list \<Rightarrow> (string \<times> string) list" where
  "col_agg_type aggregates types =
     zip (filter (user_column (DetectDerivedAggColumns aggregates)) aggregates)
       (filter (\<lambda>t. \<not> IsDecomposedAggregateType t) types)"

definition needs_group_recompute :: "duckdb_env \<Rightarrow> merge_input \<Rightarrow> bool" where
  "needs_group_recompute E m \<longleftrightarrow>
     has_non_summable_col m \<or> has_orphan_derived E (merge_aggregates E m) \<or>
     has_computed_over_derived E (merge_aggregates E m) (merge_types m) \<or>
     (merge_minmax m \<and> \<not> has_real_minmax (merge_types m))"

definition recomputes_groups :: "duckdb_env \<Rightarrow> merge_input \<Rightarrow> bool" where
  "recomputes_groups E m \<longleftrightarrow> needs_group_recompute E m \<or> (merge_minmax m \<and> \<not> insert_only_deltas m)"

section \<open>The expressions of the merge\<close>

datatype merge_expr =
    DeltaColumn string
  | PlainColumn string
  | UpdatedAggregateColumn string
  | NullSafeExtremum string bool
  | ListSum string
  | AvgFormula merge_expr merge_expr
  | VarianceFormula merge_expr merge_expr merge_expr bool bool bool
  | GuardedVarianceFormula merge_expr merge_expr merge_expr bool bool
  | NewMatchCount string
  | UpdateIfMatched string string bool
  | InsertIfMatched string string bool

definition BuildUpdatedAggregateColumn :: "string \<Rightarrow> string" where
  "BuildUpdatedAggregateColumn col = ''COALESCE(v.'' @ col @ '' + d.'' @ col @ '', v.'' @ col @ '', d.'' @ col @ '')''"

definition BuildNullSafeExtremumUpdate :: "string \<Rightarrow> string \<Rightarrow> string" where
  "BuildNullSafeExtremumUpdate col fn =
     ''CASE WHEN v.'' @ col @ '' IS NULL THEN d.'' @ col @ '' WHEN d.'' @ col @ '' IS NULL THEN v.'' @ col @ '' ELSE '' @
     fn @ ''(v.'' @ col @ '', d.'' @ col @ '') END''"

definition BuildAvgFormula :: "string \<Rightarrow> string \<Rightarrow> string" where
  "BuildAvgFormula sum_expr count_expr = sum_expr @ ''::DOUBLE / NULLIF('' @ count_expr @ '', 0)''"

definition BuildVarianceFormula :: "string \<Rightarrow> string \<Rightarrow> string \<Rightarrow> bool \<Rightarrow> bool \<Rightarrow> bool \<Rightarrow> string" where
  "BuildVarianceFormula sum_expr sum_sq_expr count_expr population root clamp =
     (let denom = (if population then ''NULLIF('' @ count_expr @ '', 0)'' else ''NULLIF('' @ count_expr @ '' - 1, 0)'');
          var_raw = ''(('' @ sum_sq_expr @ '') - ('' @ sum_expr @ '') * ('' @ sum_expr @ '') / ('' @ count_expr @ '')) / '' @ denom;
          var_safe = (if clamp then ''GREATEST('' @ var_raw @ '', 0::DOUBLE)'' else var_raw)
      in if root then ''sqrt('' @ var_safe @ '')'' else var_safe)"

definition BuildGuardedVarianceFormula :: "string \<Rightarrow> string \<Rightarrow> string \<Rightarrow> bool \<Rightarrow> bool \<Rightarrow> string" where
  "BuildGuardedVarianceFormula sum_expr sum_sq_expr count_expr population root =
     ''CASE WHEN '' @ count_expr @ '' > '' @ (if population then ''0'' else ''1'') @ '' THEN '' @
     BuildVarianceFormula sum_expr sum_sq_expr count_expr population root True @ '' ELSE NULL END''"

definition match_count_sum :: "string \<Rightarrow> string" where
  "match_count_sum mc = ''(COALESCE(v.'' @ mc @ '', 0) + d.'' @ mc @ '')''"

definition null_value :: "bool \<Rightarrow> string" where
  "null_value count_like = (if count_like then ''0'' else ''NULL'')"

primrec print_merge :: "merge_expr \<Rightarrow> string" where
  "print_merge (DeltaColumn c) = ''d.'' @ c"
| "print_merge (PlainColumn c) = c"
| "print_merge (UpdatedAggregateColumn c) = BuildUpdatedAggregateColumn c"
| "print_merge (NullSafeExtremum c is_min) = BuildNullSafeExtremumUpdate c (if is_min then ''LEAST'' else ''GREATEST'')"
| "print_merge (ListSum c) = ''list_transform(list_zip(v.'' @ c @ '', d.'' @ c @ ''), lambda x: x[1] + x[2])''"
| "print_merge (AvgFormula s n) = BuildAvgFormula (print_merge s) (print_merge n)"
| "print_merge (VarianceFormula s q n population root clamp) =
     BuildVarianceFormula (print_merge s) (print_merge q) (print_merge n) population root clamp"
| "print_merge (GuardedVarianceFormula s q n population root) =
     BuildGuardedVarianceFormula (print_merge s) (print_merge q) (print_merge n) population root"
| "print_merge (NewMatchCount mc) = match_count_sum mc"
| "print_merge (UpdateIfMatched mc c count_like) =
     ''CASE WHEN '' @ match_count_sum mc @ '' > 0 THEN '' @ BuildUpdatedAggregateColumn c @
     '' WHEN COALESCE(v.'' @ mc @ '', 0) = 0 THEN v.'' @ c @ '' ELSE '' @ null_value count_like @ '' END''"
| "print_merge (InsertIfMatched mc c count_like) =
     ''CASE WHEN d.'' @ mc @ '' > 0 THEN d.'' @ c @ '' ELSE '' @ null_value count_like @ '' END''"

section \<open>The program\<close>

datatype delta_fold = FoldMin | FoldMax | FoldList | FoldSum

definition cte_column :: "merge_input \<Rightarrow> (string \<times> string) list \<Rightarrow> string \<Rightarrow> delta_fold" where
  "cte_column m types column =
     (if insert_only_deltas m \<and> map_of types column = Some ''min'' then FoldMin
      else if insert_only_deltas m \<and> map_of types column = Some ''max'' then FoldMax
      else if list_mode m then FoldList
      else FoldSum)"

definition print_fold :: "string \<Rightarrow> delta_fold \<Rightarrow> string" where
  "print_fold column f =
     [newline_char, CHR 0x09] @
     (case f of
        FoldMin \<Rightarrow> ''min('' @ column @ '') as '' @ column
      | FoldMax \<Rightarrow> ''max('' @ column @ '') as '' @ column
      | FoldList \<Rightarrow> ''list_reduce(list(list_transform('' @ column @ '', lambda x: '' @ MULTIPLICITY_COL @
          '' * x)), lambda a, b: list_transform(list_zip(a, b), lambda x: x[1] + x[2])) AS '' @ column
      | FoldSum \<Rightarrow> ''sum('' @ MULTIPLICITY_COL @ '' * '' @ column @ '') as '' @ column)"

definition is_set :: "(string \<times> bool) list \<Rightarrow> string \<Rightarrow> bool" where
  "is_set flags alias_name = (map_of flags alias_name = Some True)"

text \<open>The value of a derived column from its hidden columns, in their updated or their delta form.\<close>

definition derived_formula :: "DerivedAggDecomposition \<Rightarrow> (string \<Rightarrow> merge_expr) \<Rightarrow> string \<Rightarrow> merge_expr" where
  "derived_formula d form column =
     (let s = the (map_of (sum_cols d) column); n = the (map_of (count_cols d) column)
      in case map_of (sum_sq_cols d) column of
           Some q \<Rightarrow> GuardedVarianceFormula (form s) (form q) (form n)
                       (is_set (is_population d) column) (is_set (needs_sqrt d) column)
         | None \<Rightarrow> AvgFormula (form s) (form n))"

definition update_expr :: "merge_input \<Rightarrow> DerivedAggDecomposition \<Rightarrow> (string \<times> string) list \<Rightarrow> string \<Rightarrow> merge_expr" where
  "update_expr m d types column =
     (if derived_col d column then derived_formula d UpdatedAggregateColumn column
      else if insert_only_deltas m \<and> map_of types column = Some ''min'' then NullSafeExtremum column True
      else if insert_only_deltas m \<and> map_of types column = Some ''max'' then NullSafeExtremum column False
      else if list_mode m then ListSum column
      else UpdatedAggregateColumn column)"

definition insert_expr :: "DerivedAggDecomposition \<Rightarrow> string \<Rightarrow> merge_expr" where
  "insert_expr d column = (if derived_col d column then derived_formula d DeltaColumn column else DeltaColumn column)"

definition count_like :: "(string \<times> string) list \<Rightarrow> string \<Rightarrow> bool" where
  "count_like types column \<longleftrightarrow> map_of types column = Some ''count'' \<or> starts_with column COUNT_COL_PREFIX"

definition matched_update :: "string \<Rightarrow> (string \<times> string) list \<Rightarrow> string \<Rightarrow> merge_expr" where
  "matched_update mc types column =
     (if column = mc then NewMatchCount mc
      else if map_of types column = Some ''count_star'' then UpdatedAggregateColumn column
      else UpdateIfMatched mc column (count_like types column))"

definition matched_insert :: "string \<Rightarrow> (string \<times> string) list \<Rightarrow> string \<Rightarrow> merge_expr" where
  "matched_insert mc types column =
     (if column = mc then DeltaColumn mc
      else if map_of types column = Some ''count_star'' then DeltaColumn column
      else InsertIfMatched mc column (count_like types column))"

text \<open>The columns whose zero means that the group is gone. The code takes the first ones from a hash
  map; here they are in the order of the columns.\<close>

definition empty_count_cols :: "(string \<times> string) list \<Rightarrow> string list \<Rightarrow> string list" where
  "empty_count_cols types aggregates =
     map fst (filter (\<lambda>(c, t). t = ''count'' \<or> t = ''count_star'') types) @
     filter (\<lambda>c. starts_with c COUNT_COL_PREFIX \<or> c = COUNT_STAR_COL \<or> c = DISTINCT_COUNT_COL) aggregates"

record merge_program =
  program_keys :: "string list"
  program_folds :: "(string \<times> delta_fold) list"
  program_updates :: "(string \<times> merge_expr) list"
  program_inserts :: "(string \<times> merge_expr) list"
  program_empty :: "string list"

definition BuildMergeProgram :: "duckdb_env \<Rightarrow> merge_input \<Rightarrow> merge_program" where
  "BuildMergeProgram E m =
     (let aggregates = merge_aggregates E m;
          d = DetectDerivedAggColumns aggregates;
          types = col_agg_type aggregates (merge_types m);
          mc = QuoteIdentifier E MATCH_COUNT_COL;
          has_match_count = (mc \<in> set aggregates)
      in \<lparr>program_keys = merge_keys m,
          program_folds = map (\<lambda>c. (c, cte_column m types c)) aggregates,
          program_updates = map (\<lambda>c. (c, if has_match_count then matched_update mc types c else update_expr m d types c)) aggregates,
          program_inserts = map (\<lambda>c. (c, if has_match_count then matched_insert mc types c else insert_expr d c)) aggregates,
          program_empty = (if insert_only_deltas m \<or> has_match_count then [] else empty_count_cols types aggregates)\<rparr>)"

definition print_program :: "duckdb_env \<Rightarrow> merge_input \<Rightarrow> merge_program \<Rightarrow> string" where
  "print_program E m p =
     (let data_table = merge_prefix m @ QuoteIdentifier E (DataTableName (merge_view m));
          delta_view = merge_prefix m @ QuoteIdentifier E (DeltaName (merge_view m));
          keys = program_keys p;
          cte_body = line (''select '' @ join_with '', '' (JoinQuotedColumns E keys # map (\<lambda>(c, f). print_fold c f) (program_folds p))) @
            line (''from '' @ delta_view @ (if delta_ts_filter m = [] then [] else '' WHERE '' @ delta_ts_filter m)) @
            ''group by '' @ JoinQuotedColumns E keys
      in line ''WITH refresh_cte AS ('' @ line (cte_body @ '')'') @
         line (''MERGE INTO '' @ data_table @ '' v USING refresh_cte d'') @
         line (''ON '' @ BuildNullSafeKeyPredicate E keys ''v.'' ''d.'') @
         line (''WHEN MATCHED THEN UPDATE SET '' @
           join_with '', '' (map (\<lambda>(c, e). c @ '' = '' @ print_merge e) (program_updates p))) @
         ''WHEN NOT MATCHED THEN INSERT ('' @ JoinQuotedColumns E keys @ '', '' @ join_with '', '' (map fst (program_inserts p)) @
         '') VALUES ('' @ JoinQualifiedQuotedColumns E keys ''d'' @ '', '' @
         join_with '', '' (map (\<lambda>(c, e). print_merge e) (program_inserts p)) @ line (line '');'') @
         (if program_empty p = [] then []
          else [newline_char] @ ''delete from '' @ data_table @ '' where '' @
            join_with '' and '' (map (\<lambda>c. ''COALESCE('' @ c @ '', 0) = 0'') (program_empty p)) @ line '';''))"

definition recompute_text :: "duckdb_env \<Rightarrow> merge_input \<Rightarrow> string" where
  "recompute_text E m =
     (let data_table = merge_prefix m @ QuoteIdentifier E (DataTableName (merge_view m));
          delta_view = merge_prefix m @ QuoteIdentifier E (DeltaName (merge_view m));
          keys = merge_keys m
      in if use_current_diff_keys m \<and> view_query m \<noteq> []
         then BuildCurrentDiffGroupRecomputeSQL E (merge_view m) data_table (view_query m) keys [] False
         else BuildAffectedKeyRefreshSQL data_table (view_query m)
                (''  select distinct '' @ JoinQuotedColumns E keys @ '' from '' @ delta_view @
                 (if delta_ts_filter m = [] then [] else '' WHERE '' @ delta_ts_filter m))
                ''openivm_tgt'' ''openivm_recompute'' ''openivm_aff''
                (BuildNullSafeKeyPredicate E keys ''openivm_aff.'' ''openivm_tgt.'')
                (BuildNullSafeKeyPredicate E keys ''openivm_aff.'' ''openivm_recompute.'') [])"

definition CompileAggregateGroups :: "duckdb_env \<Rightarrow> merge_input \<Rightarrow> string \<times> bool" where
  "CompileAggregateGroups E m =
     (if recomputes_groups E m then
        (case cascade_specs m of
           Some specs \<Rightarrow>
             (if emit_cascade m \<and> specs \<noteq> [] \<and> group_column_names m \<noteq> [] then
                (CompileGroupRecompute E (merge_view m) (view_query m) (group_column_names m) specs (merge_prefix m)
                   (cascade_lpts_prefix m) True SOURCE_DELTA, True)
              else (recompute_text E m, False))
         | None \<Rightarrow> (recompute_text E m, False))
      else (print_program E m (BuildMergeProgram E m), False))"

end
