(* ===== verification/Merge_Semantics.thy ===== *)
theory Merge_Semantics
  imports Merge_Program Zset Complex_Main
begin

text \<open>
  What the merge program does with a view, and what the view should contain. A data table is a map
  from group keys to rows, a row a map from columns to numbers or NULL; the changes of a view are
  rows with a weight, as the delta of a grouped aggregate computes them: one for each group and
  each weight among the changed base rows.
\<close>

type_synonym agg_row = "string \<Rightarrow> real option"

section \<open>Running the program\<close>

definition coalesce :: "real \<Rightarrow> real option \<Rightarrow> real" where
  "coalesce z x = (case x of Some y \<Rightarrow> y | None \<Rightarrow> z)"

definition combine :: "(real \<Rightarrow> real \<Rightarrow> real) \<Rightarrow> real option \<Rightarrow> real option \<Rightarrow> real option" where
  "combine f x y = (case x of None \<Rightarrow> y | Some a \<Rightarrow> (case y of None \<Rightarrow> Some a | Some b \<Rightarrow> Some (f a b)))"

definition divide_null :: "real option \<Rightarrow> real option \<Rightarrow> real option" where
  "divide_null x y = (case (x, y) of (Some a, Some b) \<Rightarrow> if b = 0 then None else Some (a / b) | _ \<Rightarrow> None)"

definition variance_value :: "real option \<Rightarrow> real option \<Rightarrow> real option \<Rightarrow> bool \<Rightarrow> real option" where
  "variance_value s q n population =
     (case (s, q, n) of
        (Some a, Some b, Some k) \<Rightarrow>
          (let denom = (if population then k else k - 1)
           in if k = 0 \<or> denom = 0 then None else Some ((b - a * a / k) / denom))
      | _ \<Rightarrow> None)"

definition clamped :: "bool \<Rightarrow> real option \<Rightarrow> real option" where
  "clamped clamp x = (if clamp then Some (case x of Some y \<Rightarrow> max y 0 | None \<Rightarrow> 0) else x)"

definition rooted :: "bool \<Rightarrow> real option \<Rightarrow> real option" where
  "rooted rt x = (if rt then map_option sqrt x else x)"

text \<open>\<open>v\<close> is the row of the data table, \<open>d\<close> that of the CTE. Lists are not numbers; their merge has no
  value here.\<close>

primrec eval_merge :: "agg_row \<Rightarrow> agg_row \<Rightarrow> merge_expr \<Rightarrow> real option" where
  "eval_merge v d (DeltaColumn c) = d c"
| "eval_merge v d (PlainColumn c) = v c"
| "eval_merge v d (UpdatedAggregateColumn c) = combine (+) (v c) (d c)"
| "eval_merge v d (NullSafeExtremum c is_min) = combine (if is_min then min else max) (v c) (d c)"
| "eval_merge v d (ListSum c) = None"
| "eval_merge v d (AvgFormula s n) = divide_null (eval_merge v d s) (eval_merge v d n)"
| "eval_merge v d (VarianceFormula s q n population rt clamp) =
     rooted rt (clamped clamp (variance_value (eval_merge v d s) (eval_merge v d q) (eval_merge v d n) population))"
| "eval_merge v d (GuardedVarianceFormula s q n population rt) =
     (case eval_merge v d n of
        Some k \<Rightarrow>
          (if (if population then 0 else 1) < k
           then rooted rt (clamped True (variance_value (eval_merge v d s) (eval_merge v d q) (eval_merge v d n) population))
           else None)
      | None \<Rightarrow> None)"
| "eval_merge v d (NewMatchCount mc) = map_option (\<lambda>y. coalesce 0 (v mc) + y) (d mc)"
| "eval_merge v d (UpdateIfMatched mc c zero) =
     (if (case d mc of Some y \<Rightarrow> 0 < coalesce 0 (v mc) + y | None \<Rightarrow> False) then combine (+) (v c) (d c)
      else if coalesce 0 (v mc) = 0 then v c
      else if zero then Some 0 else None)"
| "eval_merge v d (InsertIfMatched mc c zero) =
     (if (case d mc of Some y \<Rightarrow> 0 < y | None \<Rightarrow> False) then d c else if zero then Some 0 else None)"

type_synonym 'k delta_rows = "('k \<times> int \<times> agg_row) list"

definition fold_delta :: "delta_fold \<Rightarrow> (int \<times> real) list \<Rightarrow> real option" where
  "fold_delta f xs =
     (if xs = [] then None
      else (case f of
              FoldSum \<Rightarrow> Some (\<Sum>(w, x) \<leftarrow> xs. of_int w * x)
            | FoldMin \<Rightarrow> Some (Min (set (map snd xs)))
            | FoldMax \<Rightarrow> Some (Max (set (map snd xs)))
            | FoldList \<Rightarrow> None))"

definition delta_values :: "'k delta_rows \<Rightarrow> 'k \<Rightarrow> string \<Rightarrow> (int \<times> real) list" where
  "delta_values rows k c =
     List.map_filter (\<lambda>(k', w, row). if k' = k then map_option (\<lambda>x. (w, x)) (row c) else None) rows"

definition refresh_cte :: "merge_program \<Rightarrow> 'k delta_rows \<Rightarrow> 'k \<Rightarrow> agg_row" where
  "refresh_cte p rows k c =
     (case map_of (program_folds p) c of None \<Rightarrow> None | Some f \<Rightarrow> fold_delta f (delta_values rows k c))"

definition merge_row :: "merge_program \<Rightarrow> agg_row option \<Rightarrow> agg_row \<Rightarrow> agg_row" where
  "merge_row p old d c =
     (case old of
        Some v \<Rightarrow> (case map_of (program_updates p) c of Some e \<Rightarrow> eval_merge v d e | None \<Rightarrow> v c)
      | None \<Rightarrow> (case map_of (program_inserts p) c of Some e \<Rightarrow> eval_merge (\<lambda>c. None) d e | None \<Rightarrow> None))"

definition run_merge :: "merge_program \<Rightarrow> 'k delta_rows \<Rightarrow> ('k \<Rightarrow> agg_row option) \<Rightarrow> 'k \<Rightarrow> agg_row option" where
  "run_merge p rows view k =
     (if k \<in> fst ` set rows then Some (merge_row p (view k) (refresh_cte p rows k)) else view k)"

definition run_delete :: "merge_program \<Rightarrow> ('k \<Rightarrow> agg_row option) \<Rightarrow> 'k \<Rightarrow> agg_row option" where
  "run_delete p view k =
     (case view k of
        None \<Rightarrow> None
      | Some v \<Rightarrow> if program_empty p \<noteq> [] \<and> (\<forall>c \<in> set (program_empty p). coalesce 0 (v c) = 0) then None else Some v)"

definition run_program :: "merge_program \<Rightarrow> 'k delta_rows \<Rightarrow> ('k \<Rightarrow> agg_row option) \<Rightarrow> 'k \<Rightarrow> agg_row option" where
  "run_program p rows view = run_delete p (run_merge p rows view)"

section \<open>What the view should contain\<close>

definition rsum :: "'r zset \<Rightarrow> ('r \<Rightarrow> real) \<Rightarrow> real" where
  "rsum z h = (\<Sum>(x, w) \<leftarrow> z. of_int w * h x)"

lemma rsum_simps [simp]: "rsum [] h = 0" "rsum ((x, w) # z) h = of_int w * h x + rsum z h" "rsum (a @ b) h = rsum a h + rsum b h"
  by (simp_all add: rsum_def)

lemma rsum_support:
  assumes "finite S" "fst ` set z \<subseteq> S"
  shows "rsum z h = (\<Sum>r \<in> S. of_int (weight z r) * h r)"
  using assms(2)
proof (induction z)
  case Nil
  then show ?case by (simp add: weight_def)
next
  case (Cons p z)
  obtain x w where p: "p = (x, w)" by fastforce
  have x: "x \<in> S" using Cons.prems by (simp add: p)
  have "(\<Sum>r \<in> S. of_int (weight (p # z) r) * h r)
      = (\<Sum>r \<in> S. (if x = r then of_int w * h r else 0) + of_int (weight z r) * h r)"
    by (rule sum.cong) (auto simp: p weight_def algebra_simps)
  also have "\<dots> = of_int w * h x + (\<Sum>r \<in> S. of_int (weight z r) * h r)"
    using assms(1) x by (simp add: sum.distrib sum.delta)
  finally show ?case using Cons by (simp add: p)
qed

lemma rsum_plus_delta:
  assumes "plus_delta x y z"
  shows "rsum z h = rsum x h + rsum y h"
proof -
  let ?S = "fst ` set (x @ y @ z)"
  have S: "finite ?S" "fst ` set x \<subseteq> ?S" "fst ` set y \<subseteq> ?S" "fst ` set z \<subseteq> ?S" by auto
  have "of_int (weight z r) * h r = of_int (weight x r) * h r + of_int (weight y r) * h r" for r
    using assms by (simp add: plus_delta_def algebra_simps)
  then show ?thesis
    unfolding rsum_support [OF S(1,2)] rsum_support [OF S(1,3)] rsum_support [OF S(1,4)] by (simp add: sum.distrib)
qed

text \<open>The argument of an aggregate is a number or NULL for each row.\<close>

datatype 'r agg =
    AggCountStar
  | AggCount "'r \<Rightarrow> real option"
  | AggSum "'r \<Rightarrow> real option"
  | AggSumSq "'r \<Rightarrow> real option"
  | AggAvg "'r \<Rightarrow> real option"
  | AggSpread bool bool "'r \<Rightarrow> real option"

definition non_null :: "('r \<Rightarrow> real option) \<Rightarrow> 'r \<Rightarrow> real" where
  "non_null f r = (if f r = None then 0 else 1)"

definition on_value :: "(real \<Rightarrow> real) \<Rightarrow> ('r \<Rightarrow> real option) \<Rightarrow> 'r \<Rightarrow> real" where
  "on_value h f r = (case f r of None \<Rightarrow> 0 | Some x \<Rightarrow> h x)"

definition count_of :: "'r zset \<Rightarrow> ('r \<Rightarrow> real option) \<Rightarrow> real" where
  "count_of z f = rsum z (non_null f)"

definition total_of :: "'r zset \<Rightarrow> (real \<Rightarrow> real) \<Rightarrow> ('r \<Rightarrow> real option) \<Rightarrow> real" where
  "total_of z h f = rsum z (on_value h f)"

abbreviation squared :: "real \<Rightarrow> real" where
  "squared x \<equiv> x * x"

text \<open>The values that SQL defines for a bag of rows; \<open>AggSpread population rt\<close> is the variance or the
  standard deviation, of the population or of the sample.\<close>

primrec agg_value :: "'r zset \<Rightarrow> 'r agg \<Rightarrow> real option" where
  "agg_value z AggCountStar = Some (rsum z (\<lambda>r. 1))"
| "agg_value z (AggCount f) = Some (count_of z f)"
| "agg_value z (AggSum f) = (if count_of z f = 0 then None else Some (total_of z (\<lambda>x. x) f))"
| "agg_value z (AggSumSq f) = (if count_of z f = 0 then None else Some (total_of z (\<lambda>x. squared x) f))"
| "agg_value z (AggAvg f) = (if count_of z f = 0 then None else Some (total_of z (\<lambda>x. x) f / count_of z f))"
| "agg_value z (AggSpread population rt f) =
     (let n = count_of z f; mean = total_of z (\<lambda>x. x) f / n
      in if (if population then 0 else 1) < n
         then rooted rt (Some (total_of z (\<lambda>x. squared (x - mean)) f / (if population then n else n - 1)))
         else None)"

definition zgroup :: "('r \<Rightarrow> 'k) \<Rightarrow> 'k \<Rightarrow> 'r zset \<Rightarrow> 'r zset" where
  "zgroup g k z = zfilter (\<lambda>r. g r = k) z"

text \<open>The delta rows of a grouped aggregate: the multiplicity is one more grouping column, and the rows
  of a class count once each.\<close>

definition weight_class :: "('r \<Rightarrow> 'k) \<Rightarrow> 'k \<Rightarrow> int \<Rightarrow> 'r zset \<Rightarrow> 'r zset" where
  "weight_class g k w z = map (\<lambda>(r, w'). (r, 1)) (filter (\<lambda>(r, w'). g r = k \<and> w' = w) z)"

definition agg_columns :: "(string \<times> 'r agg) list \<Rightarrow> 'r zset \<Rightarrow> agg_row" where
  "agg_columns cols z c = (case map_of cols c of None \<Rightarrow> None | Some a \<Rightarrow> agg_value z a)"

definition grouped_delta :: "('r \<Rightarrow> 'k) \<Rightarrow> (string \<times> 'r agg) list \<Rightarrow> 'r zset \<Rightarrow> 'k delta_rows" where
  "grouped_delta g cols z =
     map (\<lambda>(k, w). (k, w, agg_columns cols (weight_class g k w z))) (remdups (map (\<lambda>(r, w). (g r, w)) z))"

end
