(* ===== verification/Merge_Correct.thy ===== *)
theory Merge_Correct
  imports Merge_Semantics
begin

text \<open>
  The merge program maintains a grouped view: what it makes of the rows of the old state and the
  delta rows of a change is what the query gives for the new state. The sums are linear in the
  weights, the derived columns follow from the sums, and a group is deleted when its count is 0.
\<close>

section \<open>Sums over classes of weights\<close>

lemma rsum_zero [simp]: "rsum z (\<lambda>x. 0) = 0"
  by (induction z) auto

lemma rsum_add: "rsum z (\<lambda>x. h x + h' x) = rsum z h + rsum z h'"
  by (induction z) (auto simp: algebra_simps)

lemma rsum_scale: "rsum z (\<lambda>x. a * h x) = a * rsum z h"
  by (induction z) (auto simp: algebra_simps)

lemma zgroup_append: "zgroup g k (x @ y) = zgroup g k x @ zgroup g k y"
  by (simp add: zgroup_def zfilter_def)

lemma plus_delta_append: "plus_delta x y (x @ y)"
  by (simp add: plus_delta_def weight_def)

lemma plus_delta_zgroup: "plus_delta x y z \<Longrightarrow> plus_delta (zgroup g k x) (zgroup g k y) (zgroup g k z)"
  unfolding zgroup_def plus_delta_zsum by simp

lemma weight_zgroup: "weight (zgroup g k z) r = (if g r = k then weight z r else 0)"
proof -
  have "(if g x = k then (if x = r then 1 else 0 :: int) else 0) = (if x = r then (if g r = k then 1 else 0) else 0)" for x by simp
  then have "weight (zgroup g k z) r = zsum z (\<lambda>x. if x = r then (if g r = k then 1 else 0) else 0)"
    by (simp add: weight_def zgroup_def)
  also have "\<dots> = (if g r = k then weight z r else 0)" by (cases "g r = k") (simp_all add: weight_def)
  finally show ?thesis .
qed

lemma sum_by_class:
  assumes "finite A" "\<And>x. x \<in> set xs \<Longrightarrow> f x \<in> A"
  shows "(\<Sum>a \<in> A. \<Sum>x \<leftarrow> filter (\<lambda>x. f x = a) xs. h a x) = (\<Sum>x \<leftarrow> xs. h (f x) x :: real)"
  using assms(2)
proof (induction xs)
  case (Cons x xs)
  have "(\<Sum>a \<in> A. \<Sum>y \<leftarrow> filter (\<lambda>y. f y = a) (x # xs). h a y)
      = (\<Sum>a \<in> A. (if f x = a then h a x else 0) + (\<Sum>y \<leftarrow> filter (\<lambda>y. f y = a) xs. h a y))"
    by (rule sum.cong) auto
  also have "\<dots> = h (f x) x + (\<Sum>a \<in> A. \<Sum>y \<leftarrow> filter (\<lambda>y. f y = a) xs. h a y)"
    using assms(1) Cons.prems by (simp add: sum.distrib sum.delta)
  finally show ?case using Cons by simp
qed simp

lemma class_sums:
  "(\<Sum>(k', w) \<leftarrow> filter (\<lambda>(k', w). k' = k) (remdups (map (\<lambda>(r, w). (g r, w)) z)). of_int w * rsum (weight_class g k w z) h)
     = rsum (zgroup g k z) h"
proof -
  let ?zk = "filter (\<lambda>(r, w). g r = k) z"
  let ?cs = "filter (\<lambda>(k', w). k' = k) (remdups (map (\<lambda>(r, w). (g r, w)) z))"
  have set_cs: "set ?cs = (\<lambda>(r, w). (k, w)) ` set ?zk" by (auto simp: image_iff) force+
  have "distinct ?cs" by simp
  then have "(\<Sum>(k', w) \<leftarrow> ?cs. of_int w * rsum (weight_class g k w z) h)
      = (\<Sum>c \<in> set ?cs. of_int (snd c) * rsum (weight_class g k (snd c) z) h)"
    by (simp add: sum_list_distinct_conv_sum_set case_prod_unfold)
  also have "\<dots> = (\<Sum>c \<in> set ?cs. \<Sum>x \<leftarrow> filter (\<lambda>x. (k, snd x) = c) ?zk. of_int (snd c) * h (fst x))"
  proof (rule sum.cong [OF refl])
    fix c assume "c \<in> set ?cs"
    then have "fst c = k" by auto
    have "of_int (snd c) * rsum (weight_class g k (snd c) z) h
        = (\<Sum>x \<leftarrow> filter (\<lambda>x. snd x = snd c) ?zk. of_int (snd c) * h (fst x))"
      by (induction z) (auto simp: weight_class_def rsum_def algebra_simps)
    with \<open>fst c = k\<close> show "of_int (snd c) * rsum (weight_class g k (snd c) z) h
        = (\<Sum>x \<leftarrow> filter (\<lambda>x. (k, snd x) = c) ?zk. of_int (snd c) * h (fst x))" by (cases c) simp
  qed
  also have "\<dots> = (\<Sum>x \<leftarrow> ?zk. of_int (snd x) * h (fst x))"
    using sum_by_class [of "set ?cs" ?zk "\<lambda>x. (k, snd x)" "\<lambda>c x. of_int (snd c) * h (fst x)"]
    by (force simp: set_cs)
  also have "\<dots> = rsum (zgroup g k z) h" by (simp add: zgroup_def zfilter_def rsum_def case_prod_unfold)
  finally show ?thesis .
qed

section \<open>Rows with nonnegative weights\<close>

definition nonneg :: "'r zset \<Rightarrow> bool" where
  "nonneg z \<longleftrightarrow> (\<forall>r. 0 \<le> weight z r)"

lemma nonneg_zgroup: "nonneg z \<Longrightarrow> nonneg (zgroup g k z)"
  by (simp add: nonneg_def weight_zgroup)

lemma rsum_nonneg: "nonneg z \<Longrightarrow> (\<And>r. 0 \<le> h r) \<Longrightarrow> 0 \<le> rsum z h"
  unfolding rsum_support [of "fst ` set z" z h, simplified] nonneg_def by (auto intro!: sum_nonneg)

lemma rsum_vanishes:
  assumes "nonneg z" "rsum z p = 0" "\<And>r. 0 \<le> p r" "\<And>r. p r = 0 \<Longrightarrow> h r = 0"
  shows "rsum z h = 0"
proof -
  have eq: "rsum z h' = (\<Sum>r \<in> fst ` set z. of_int (weight z r) * h' r)" for h' by (rule rsum_support) auto
  have "\<forall>r \<in> fst ` set z. of_int (weight z r) * p r = 0"
    using assms(1-3) unfolding eq by (subst (asm) sum_nonneg_eq_0_iff) (auto simp: nonneg_def)
  then have "of_int (weight z r) * h r = 0" if "r \<in> fst ` set z" for r using that assms(4) by fastforce
  then show ?thesis unfolding eq by (intro sum.neutral) blast
qed

lemma non_null_pos: "0 \<le> non_null f r"
  by (simp add: non_null_def)

lemma no_values:
  assumes "nonneg z" "count_of z f = 0"
  shows "total_of z h f = 0"
  unfolding total_of_def
  by (rule rsum_vanishes [OF assms(1) assms(2) [unfolded count_of_def] non_null_pos])
    (auto simp: non_null_def on_value_def split: if_splits)

lemma empty_group:
  assumes "nonneg z" "rsum z (\<lambda>r. 1) = 0"
  shows "rsum z h = 0"
  by (rule rsum_vanishes [OF assms]) auto

lemma count_integer: "\<exists>n. count_of z f = of_int n"
proof (induction z)
  case (Cons p z)
  obtain x w where "p = (x, w)" by fastforce
  with Cons show ?case by (auto simp: count_of_def non_null_def intro: exI [of _ "w + _"] of_int_add [symmetric])
qed (auto simp: count_of_def intro: exI [of _ 0])

lemma total_quadratic:
  "total_of z (\<lambda>x. squared (x - m)) f = total_of z (\<lambda>x. squared x) f - 2 * m * total_of z (\<lambda>x. x) f + squared m * count_of z f"
proof -
  have "on_value (\<lambda>x. squared (x - m)) f r =
      on_value (\<lambda>x. squared x) f r + (- 2 * m * on_value (\<lambda>x. x) f r + squared m * non_null f r)" for r
    by (simp add: on_value_def non_null_def algebra_simps split: option.splits)
  then have "total_of z (\<lambda>x. squared (x - m)) f =
      rsum z (\<lambda>r. on_value (\<lambda>x. squared x) f r + (- 2 * m * on_value (\<lambda>x. x) f r + squared m * non_null f r))"
    unfolding total_of_def by presburger
  then show ?thesis unfolding rsum_add rsum_scale total_of_def count_of_def by simp
qed

section \<open>Linear columns\<close>

text \<open>What a linear aggregate adds up for each row.\<close>

fun summand :: "'r agg \<Rightarrow> ('r \<Rightarrow> real) option" where
  "summand AggCountStar = Some (\<lambda>r. 1)"
| "summand (AggCount f) = Some (non_null f)"
| "summand (AggSum f) = Some (on_value (\<lambda>x. x) f)"
| "summand (AggSumSq f) = Some (on_value (\<lambda>x. squared x) f)"
| "summand a = None"

fun null_like :: "'r agg \<Rightarrow> ('r \<Rightarrow> real option) option" where
  "null_like (AggSum f) = Some f"
| "null_like (AggSumSq f) = Some f"
| "null_like a = None"

text \<open>The value of a linear column: the sum, or NULL where no row has a value.\<close>

definition linear_value :: "'r zset \<Rightarrow> 'r agg \<Rightarrow> real option \<Rightarrow> bool" where
  "linear_value z a x \<longleftrightarrow> coalesce 0 x = rsum z (the (summand a)) \<and>
     (x = None \<longrightarrow> (\<exists>f. null_like a = Some f \<and> count_of z f = 0))"

lemma coalesce_simps [simp]: "coalesce z None = z" "coalesce z (Some x) = x"
  by (simp_all add: coalesce_def)

lemma class_nonneg: "nonneg (weight_class g k w z)"
proof -
  have "0 \<le> zsum (map (\<lambda>(r, w). (r, 1)) xs) (\<lambda>x. if x = r then 1 else 0)" for xs :: "('a \<times> int) list" and r
    by (induction xs) auto
  then show ?thesis by (simp add: nonneg_def weight_def weight_class_def)
qed

lemma agg_value_linear:
  assumes "summand a = Some h" "nonneg z"
  shows "coalesce 0 (agg_value z a) = rsum z h"
  using assms no_values [OF assms(2)]
  by (cases a) (auto simp: count_of_def total_of_def)

lemma delta_values_grouped:
  assumes "map_of cols c = Some a"
  shows "delta_values (grouped_delta g cols z) k c =
    List.map_filter (\<lambda>(k', w). map_option (\<lambda>x. (w, x)) (agg_value (weight_class g k w z) a))
      (filter (\<lambda>(k', w). k' = k) (remdups (map (\<lambda>(r, w). (g r, w)) z)))"
proof -
  have "List.map_filter (\<lambda>(k', w, row). if k' = k then map_option (\<lambda>x. (w, x)) (row c) else None)
      (map (\<lambda>(k, w). (k, w, agg_columns cols (weight_class g k w z))) xs) =
    List.map_filter (\<lambda>(k', w). map_option (\<lambda>x. (w, x)) (agg_value (weight_class g k w z) a)) (filter (\<lambda>(k', w). k' = k) xs)" for xs
  proof (induction xs)
    case (Cons p xs)
    obtain k' w where p: "p = (k', w)" by fastforce
    show ?case
    proof (cases "k' = k")
      case True
      with Cons.IH assms show ?thesis
        by (cases "agg_value (weight_class g k w z) a") (simp_all add: p List.map_filter_simps agg_columns_def)
    qed (use Cons.IH in \<open>simp add: p List.map_filter_simps\<close>)
  qed (simp add: List.map_filter_simps)
  then show ?thesis by (simp add: delta_values_def grouped_delta_def)
qed

lemma sum_map_filter:
  "(\<Sum>(w, x) \<leftarrow> List.map_filter (\<lambda>(k', w). map_option (\<lambda>x. (w, x)) (v w)) cs. of_int w * x)
     = (\<Sum>(k', w) \<leftarrow> cs. of_int w * coalesce 0 (v w))"
  by (induction cs) (auto simp: List.map_filter_simps split: option.splits)

lemma map_filter_Nil: "List.map_filter f xs = [] \<longleftrightarrow> (\<forall>x \<in> set xs. f x = None)"
  by (induction xs) (auto simp: List.map_filter_simps split: option.splits)

lemma sum_list_0_terms: "(\<And>x. x \<in> set xs \<Longrightarrow> f x = 0) \<Longrightarrow> (\<Sum>x \<leftarrow> xs. f x :: real) = 0"
  by (induction xs) auto

lemma refresh_cte_linear:
  assumes cols: "map_of cols c = Some a" and fold: "map_of (program_folds p) c = Some FoldSum"
    and h: "summand a = Some h" and k: "k \<in> fst ` set (grouped_delta g cols z)"
  shows "linear_value (zgroup g k z) a (refresh_cte p (grouped_delta g cols z) k c)"
proof -
  let ?cs = "filter (\<lambda>(k', w). k' = k) (remdups (map (\<lambda>(r, w). (g r, w)) z))"
  let ?v = "\<lambda>w. agg_value (weight_class g k w z) a"
  let ?xs = "delta_values (grouped_delta g cols z) k c"
  have xs: "?xs = List.map_filter (\<lambda>(k', w). map_option (\<lambda>x. (w, x)) (?v w)) ?cs" by (rule delta_values_grouped [OF cols])
  have sum: "(\<Sum>(w, x) \<leftarrow> ?xs. of_int w * x) = rsum (zgroup g k z) h"
    unfolding xs sum_map_filter agg_value_linear [OF h class_nonneg] by (rule class_sums)
  have x: "refresh_cte p (grouped_delta g cols z) k c = (if ?xs = [] then None else Some (rsum (zgroup g k z) h))"
    using fold sum by (simp add: refresh_cte_def fold_delta_def)
  have none: "\<exists>f. null_like a = Some f \<and> count_of (zgroup g k z) f = 0" if "?xs = []"
  proof -
    have null: "?v w = None" if "(k', w) \<in> set ?cs" for k' w
      using that \<open>?xs = []\<close> unfolding xs map_filter_Nil by auto
    have "?cs \<noteq> []" using k by (force simp: grouped_delta_def filter_empty_conv)
    then obtain k' w where "(k', w) \<in> set ?cs" by (cases ?cs) auto
    with null have "null_like a \<noteq> None" using h by (cases a) fastforce+
    then obtain f where f: "null_like a = Some f" by blast
    have "count_of (weight_class g k w z) f = 0" if "(k', w) \<in> set ?cs" for k' w
      using null [OF that] f by (cases a) (auto split: if_splits)
    then have "(\<Sum>(k', w) \<leftarrow> ?cs. of_int w * count_of (weight_class g k w z) f) = 0"
      by (intro sum_list_0_terms) (auto split: prod.splits)
    then have "count_of (zgroup g k z) f = 0" unfolding count_of_def class_sums .
    with f show ?thesis by blast
  qed
  show ?thesis
  proof (cases "?xs = []")
    case True
    with sum none x h show ?thesis by (simp add: linear_value_def)
  qed (use x h in \<open>simp add: linear_value_def\<close>)
qed

text \<open>The value before the merge: NULL also stands for the sums of a group without rows.\<close>

definition old_value :: "'r zset \<Rightarrow> 'r agg \<Rightarrow> real option \<Rightarrow> bool" where
  "old_value z a x \<longleftrightarrow> coalesce 0 x = rsum z (the (summand a)) \<and>
     (x = None \<longrightarrow> (\<forall>f. null_like a = Some f \<longrightarrow> count_of z f = 0))"

lemma combine_linear:
  assumes "old_value x a u" "linear_value y a v" "plus_delta x y z"
  shows "linear_value z a (combine (+) u v)"
proof -
  have "rsum z h' = rsum x h' + rsum y h'" for h' by (rule rsum_plus_delta [OF assms(3)])
  then show ?thesis using assms(1,2)
    by (cases u; cases v) (auto simp: linear_value_def old_value_def combine_def count_of_def)
qed

section \<open>What a view represents\<close>

text \<open>A column has the value of its aggregate; a sum may also be 0 where no row has a value.\<close>

definition column_represents :: "'r zset \<Rightarrow> 'r agg \<Rightarrow> real option \<Rightarrow> bool" where
  "column_represents z a x \<longleftrightarrow>
     (case null_like a of
        Some f \<Rightarrow> (if count_of z f = 0 then x = None \<or> x = Some 0 else x = agg_value z a)
      | None \<Rightarrow> x = agg_value z a)"

definition row_represents :: "'r zset \<Rightarrow> (string \<times> 'r agg) list \<Rightarrow> agg_row \<Rightarrow> bool" where
  "row_represents z cols row \<longleftrightarrow> (\<forall>c a. map_of cols c = Some a \<longrightarrow> column_represents z a (row c))"

definition view_represents :: "('r \<Rightarrow> 'k) \<Rightarrow> (string \<times> 'r agg) list \<Rightarrow> 'r zset \<Rightarrow> ('k \<Rightarrow> agg_row option) \<Rightarrow> bool" where
  "view_represents g cols z view \<longleftrightarrow>
     (\<forall>k. if rsum (zgroup g k z) (\<lambda>r. 1) = 0 then view k = None
          else (\<exists>row. view k = Some row \<and> row_represents (zgroup g k z) cols row))"

lemma linear_represents:
  assumes "nonneg z" "summand a = Some h"
  shows "column_represents z a x \<longleftrightarrow> linear_value z a x"
proof (cases x)
  case None
  with assms show ?thesis using no_values [OF assms(1)]
    by (cases a) (auto simp: column_represents_def linear_value_def total_of_def)
next
  case (Some y)
  with assms show ?thesis using no_values [OF assms(1)]
    by (cases a) (auto simp: column_represents_def linear_value_def total_of_def count_of_def)
qed

lemma linear_old: "linear_value z a x \<Longrightarrow> old_value z a x"
  by (auto simp: linear_value_def old_value_def)

lemma empty_old:
  assumes "nonneg z" "rsum z (\<lambda>r. 1) = 0"
  shows "old_value z a None"
  using empty_group [OF assms] by (simp add: old_value_def count_of_def)

section \<open>Derived columns\<close>

fun column_fits :: "(string \<times> 'r agg) list \<Rightarrow> DerivedAggDecomposition \<Rightarrow> string \<Rightarrow> 'r agg \<Rightarrow> bool" where
  "column_fits cols d c (AggAvg f) \<longleftrightarrow> derived_col d c \<and> map_of (sum_sq_cols d) c = None \<and>
     map_of cols (the (map_of (sum_cols d) c)) = Some (AggSum f) \<and>
     map_of cols (the (map_of (count_cols d) c)) = Some (AggCount f)"
| "column_fits cols d c (AggSpread population rt f) \<longleftrightarrow> derived_col d c \<and>
     (case map_of (sum_sq_cols d) c of None \<Rightarrow> False | Some q \<Rightarrow> map_of cols q = Some (AggSumSq f)) \<and>
     map_of cols (the (map_of (sum_cols d) c)) = Some (AggSum f) \<and>
     map_of cols (the (map_of (count_cols d) c)) = Some (AggCount f) \<and>
     is_set (is_population d) c = population \<and> is_set (needs_sqrt d) c = rt"
| "column_fits cols d c a \<longleftrightarrow> \<not> derived_col d c"

lemma count_value: "linear_value z (AggCount f) x \<Longrightarrow> x = Some (count_of z f)"
  by (cases x) (auto simp: linear_value_def count_of_def)

lemma sum_value: "linear_value z (AggSum f) x \<Longrightarrow> count_of z f \<noteq> 0 \<Longrightarrow> x = Some (total_of z (\<lambda>x. x) f)"
  "linear_value z (AggSumSq f) x \<Longrightarrow> count_of z f \<noteq> 0 \<Longrightarrow> x = Some (total_of z (\<lambda>x. squared x) f)"
  by (cases x; auto simp: linear_value_def total_of_def)+

lemma variance_is_spread:
  assumes "nonneg z" "(if population then 0 else 1) < count_of z f"
  shows "clamped True (variance_value (Some (total_of z (\<lambda>x. x) f)) (Some (total_of z (\<lambda>x. squared x) f))
      (Some (count_of z f)) population) =
    Some (total_of z (\<lambda>x. squared (x - total_of z (\<lambda>x. x) f / count_of z f)) f /
      (if population then count_of z f else count_of z f - 1))"
proof -
  let ?n = "count_of z f" and ?s = "total_of z (\<lambda>x. x) f" and ?q = "total_of z (\<lambda>x. squared x) f"
  let ?d = "if population then ?n else ?n - 1"
  have n: "0 < ?n" "0 < ?d" using assms(2) by (auto split: if_splits)
  have spread: "total_of z (\<lambda>x. squared (x - ?s / ?n)) f = ?q - ?s * ?s / ?n"
    unfolding total_quadratic using n(1) by (simp add: field_simps)
  have "0 \<le> total_of z (\<lambda>x. squared (x - ?s / ?n)) f"
    unfolding total_of_def by (rule rsum_nonneg [OF assms(1)]) (simp add: on_value_def split: option.splits)
  with n have "max ((?q - ?s * ?s / ?n) / ?d) 0 = (?q - ?s * ?s / ?n) / ?d" unfolding spread by simp
  with n show ?thesis unfolding spread by (auto simp: variance_value_def clamped_def Let_def)
qed

lemma derived_value:
  assumes "nonneg z" "column_fits cols d c a" "summand a = None"
    and lin: "\<And>c' a' h. map_of cols c' = Some a' \<Longrightarrow> summand a' = Some h \<Longrightarrow> linear_value z a' (eval_merge v u (form c'))"
  shows "derived_col d c" "eval_merge v u (derived_formula d form c) = agg_value z a"
proof -
  show "derived_col d c" using assms(2,3) by (cases a) auto
  show "eval_merge v u (derived_formula d form c) = agg_value z a"
  proof (cases a)
    case (AggAvg f)
    let ?s = "eval_merge v u (form (the (map_of (sum_cols d) c)))"
    have cnt: "eval_merge v u (form (the (map_of (count_cols d) c))) = Some (count_of z f)"
      using assms(2) AggAvg lin by (intro count_value) auto
    have sum: "linear_value z (AggSum f) ?s" using assms(2) AggAvg lin by auto
    show ?thesis
    proof (cases "count_of z f = 0")
      case True
      then show ?thesis using AggAvg assms(2) cnt by (simp add: derived_formula_def Let_def divide_null_def split: option.splits)
    next
      case False
      with sum_value(1) [OF sum] show ?thesis using AggAvg assms(2) cnt
        by (simp add: derived_formula_def Let_def divide_null_def)
    qed
  next
    case (AggSpread population rt f)
    let ?s = "eval_merge v u (form (the (map_of (sum_cols d) c)))"
    obtain q where q: "map_of (sum_sq_cols d) c = Some q" "map_of cols q = Some (AggSumSq f)"
      using assms(2) AggSpread by (auto split: option.splits)
    have cnt: "eval_merge v u (form (the (map_of (count_cols d) c))) = Some (count_of z f)"
      using assms(2) AggSpread lin by (intro count_value) auto
    have sum: "linear_value z (AggSum f) ?s" "linear_value z (AggSumSq f) (eval_merge v u (form q))"
      using assms(2) AggSpread lin q(2) by auto
    have flags: "is_set (is_population d) c = population" "is_set (needs_sqrt d) c = rt" using assms(2) AggSpread by auto
    show ?thesis
    proof (cases "(if population then 0 else 1) < count_of z f")
      case True
      then have "count_of z f \<noteq> 0" by (auto split: if_splits)
      with sum_value(1) [OF sum(1)] sum_value(2) [OF sum(2)] cnt flags q(1) True show ?thesis
        using variance_is_spread [OF assms(1) True] AggSpread by (simp add: derived_formula_def Let_def)
    next
      case False
      then show ?thesis using cnt flags q(1) AggSpread by (simp add: derived_formula_def Let_def)
    qed
  qed (use assms(3) in auto)
qed

section \<open>The merge of a grouped delta\<close>

text \<open>
  The columns of a view the merge handles: \<open>cols\<close> names them as the code does and says what each of
  them is. A hidden column counts the rows of the groups; the code adds it to the plan when it rewrites
  the query of the view.
\<close>

definition merge_fits :: "duckdb_env \<Rightarrow> merge_input \<Rightarrow> (string \<times> 'r agg) list \<Rightarrow> bool" where
  "merge_fits E m cols \<longleftrightarrow>
     merge_aggregates E m = map fst cols \<and> distinct (map fst cols) \<and> \<not> list_mode m \<and> \<not> insert_only_deltas m \<and>
     QuoteIdentifier E MATCH_COUNT_COL \<notin> set (map fst cols) \<and>
     list_all (\<lambda>(c, a). column_fits cols (DetectDerivedAggColumns (map fst cols)) c a) cols \<and>
     list_all (\<lambda>c. case map_of cols c of Some AggCountStar \<Rightarrow> True | Some (AggCount f) \<Rightarrow> True | _ \<Rightarrow> False)
       (program_empty (BuildMergeProgram E m)) \<and>
     list_ex (\<lambda>c. case map_of cols c of Some AggCountStar \<Rightarrow> True | _ \<Rightarrow> False) (program_empty (BuildMergeProgram E m))"

lemma map_of_pairs: "map_of (map (\<lambda>c. (c, f c)) cs) c = (if c \<in> set cs then Some (f c) else None)"
  by (induction cs) auto

lemma agg_value_cong:
  assumes "\<And>h. rsum x h = rsum y h"
  shows "agg_value x a = agg_value y a" "column_represents x a v = column_represents y a v"
proof -
  have eq: "count_of x f = count_of y f" "total_of x h f = total_of y h f" for f h
    using assms by (simp_all add: count_of_def total_of_def)
  show same: "agg_value x a = agg_value y a" by (cases a) (simp_all only: agg_value.simps eq assms)
  show "column_represents x a v = column_represents y a v" by (simp only: column_represents_def eq same)
qed

lemma affected_keys: "k \<in> fst ` set (grouped_delta g cols z) \<longleftrightarrow> k \<in> g ` fst ` set z"
  by (force simp: grouped_delta_def)

lemma unaffected_zgroup: "k \<notin> g ` fst ` set z \<Longrightarrow> zgroup g k z = []"
  by (force simp: zgroup_def zfilter_def filter_empty_conv)

lemma merged_row:
  assumes fits: "merge_fits E m cols" and delta: "plus_delta x y z" and "nonneg z"
    and k: "k \<in> fst ` set (grouped_delta g cols delta)" "y = zgroup g k delta"
    and old: "\<And>c a. map_of cols c = Some a \<Longrightarrow> summand a \<noteq> None \<Longrightarrow>
      old_value x a (case v of Some row \<Rightarrow> row c | None \<Rightarrow> None)"
  shows "row_represents z cols (merge_row (BuildMergeProgram E m) v (refresh_cte (BuildMergeProgram E m) (grouped_delta g cols delta) k))"
  unfolding row_represents_def
proof (intro allI impI)
  fix c a assume c: "map_of cols c = Some a"
  let ?p = "BuildMergeProgram E m" and ?d = "DetectDerivedAggColumns (map fst cols)"
  let ?D = "refresh_cte ?p (grouped_delta g cols delta) k"
  let ?form = "case v of Some row \<Rightarrow> UpdatedAggregateColumn | None \<Rightarrow> DeltaColumn"
  let ?row = "case v of Some row \<Rightarrow> row | None \<Rightarrow> \<lambda>c. None"
  have f: "merge_aggregates E m = map fst cols" "\<not> list_mode m" "\<not> insert_only_deltas m"
    "QuoteIdentifier E MATCH_COUNT_COL \<notin> set (map fst cols)" "column_fits cols ?d c a"
    using fits map_of_SomeD [OF c] by (auto simp: merge_fits_def list_all_iff)
  have names: "c' \<in> set (map fst cols)" if "map_of cols c' = Some a'" for c' a'
    using map_of_SomeD [OF that] by force
  have folds: "map_of (program_folds ?p) c' = Some FoldSum" if "map_of cols c' = Some a'" for c' a'
    using names [OF that] f(2,3)
    by (simp add: BuildMergeProgram_def Let_def map_of_pairs f(1) cte_column_def del: map_map list.map_comp)
  have row: "merge_row ?p v ?D c = eval_merge ?row ?D (if derived_col ?d c then derived_formula ?d ?form c else ?form c)"
    using names [OF c] f(2-4)
    by (cases v) (simp_all add: merge_row_def BuildMergeProgram_def Let_def map_of_pairs f(1) update_expr_def insert_expr_def
      del: map_map list.map_comp)
  have lin: "linear_value z a' (eval_merge ?row ?D (?form c'))" if a': "map_of cols c' = Some a'" "summand a' = Some h" for c' a' h
  proof -
    have "linear_value y a' (?D c')" using refresh_cte_linear [OF a'(1) folds [OF a'(1)] a'(2) k(1)] k(2) by simp
    moreover have "old_value x a' (?row c')" using old [OF a'(1)] a'(2) by (cases v) auto
    ultimately have "linear_value z a' (combine (+) (?row c') (?D c'))" using combine_linear [OF _ _ delta] by blast
    then show ?thesis by (cases v) (simp_all add: combine_def)
  qed
  show "column_represents z a (merge_row ?p v ?D c)"
  proof (cases "summand a")
    case None
    have "null_like a = None" using None by (cases a) auto
    with derived_value [OF \<open>nonneg z\<close> f(5) None lin] show ?thesis unfolding row by (simp add: column_represents_def)
  next
    case (Some h)
    then have "\<not> derived_col ?d c" using f(5) by (cases a) auto
    with lin [OF c Some] show ?thesis unfolding row linear_represents [OF \<open>nonneg z\<close> Some] by simp
  qed
qed

lemma counts_column: "(case x of Some AggCountStar \<Rightarrow> True | Some (AggCount f) \<Rightarrow> True | _ \<Rightarrow> False) \<Longrightarrow>
    \<exists>a. x = Some a \<and> (a = AggCountStar \<or> (\<exists>f. a = AggCount f))"
  by (auto split: option.splits agg.splits)

lemma counts_rows: "(case x of Some AggCountStar \<Rightarrow> True | _ \<Rightarrow> False) \<longleftrightarrow> x = Some AggCountStar"
  by (auto split: option.splits agg.splits)

lemma empty_columns:
  assumes fits: "merge_fits E m cols" and "row_represents z cols row" "nonneg z"
  shows "program_empty (BuildMergeProgram E m) \<noteq> [] \<and> (\<forall>c \<in> set (program_empty (BuildMergeProgram E m)). coalesce 0 (row c) = 0)
    \<longleftrightarrow> rsum z (\<lambda>r. 1) = 0"
proof -
  let ?cs = "set (program_empty (BuildMergeProgram E m))"
  have counts: "\<exists>a. map_of cols c = Some a \<and> (a = AggCountStar \<or> (\<exists>f. a = AggCount f))" if "c \<in> ?cs" for c
    using fits that unfolding merge_fits_def list_all_iff by (blast intro!: counts_column)
  obtain s where s: "s \<in> ?cs" "map_of cols s = Some AggCountStar"
    using fits unfolding merge_fits_def list_ex_iff counts_rows by blast
  have row: "column_represents z a (row c)" if "map_of cols c = Some a" for c a
    using assms(2) that by (simp add: row_represents_def)
  have "row s = Some (rsum z (\<lambda>r. 1))" using row [OF s(2)] by (simp add: column_represents_def)
  moreover have "coalesce 0 (row c) = 0" if "c \<in> ?cs" "rsum z (\<lambda>r. 1) = 0" for c
  proof -
    obtain a where "map_of cols c = Some a" "a = AggCountStar \<or> (\<exists>f. a = AggCount f)" using counts [OF \<open>c \<in> ?cs\<close>] by blast
    with row [of c a] empty_group [OF assms(3) \<open>rsum z (\<lambda>r. 1) = 0\<close>] show ?thesis
      by (auto simp: column_represents_def count_of_def)
  qed
  ultimately show ?thesis using s(1) by fastforce
qed

lemma program_represents:
  assumes fits: "merge_fits E m cols" and delta: "plus_delta old delta new" "nonneg old" "nonneg new"
    and view: "view_represents g cols old view"
  shows "view_represents g cols new (run_program (BuildMergeProgram E m) (grouped_delta g cols delta) view)"
  unfolding view_represents_def
proof
  fix k
  let ?p = "BuildMergeProgram E m" and ?z = "zgroup g k new" and ?x = "zgroup g k old" and ?rows = "grouped_delta g cols delta"
  note pz = plus_delta_zgroup [OF delta(1), of g k] and nz = nonneg_zgroup [OF delta(3), of g k]
    and nx = nonneg_zgroup [OF delta(2), of g k]
  have vk: "if rsum ?x (\<lambda>r. 1) = 0 then view k = None else (\<exists>row. view k = Some row \<and> row_represents ?x cols row)"
    using view by (simp add: view_represents_def)
  have merged: "(\<exists>row. run_merge ?p ?rows view k = Some row \<and> row_represents ?z cols row) \<or>
      run_merge ?p ?rows view k = None \<and> rsum ?z (\<lambda>r. 1) = 0"
  proof (cases "k \<in> fst ` set ?rows")
    case True
    have "old_value ?x a (case view k of Some row \<Rightarrow> row c | None \<Rightarrow> None)" if a: "map_of cols c = Some a" "summand a \<noteq> None" for c a
    proof (cases "rsum ?x (\<lambda>r. 1) = 0")
      case True
      with vk empty_old [OF nx True] show ?thesis by simp
    next
      case False
      then obtain row where row: "view k = Some row" "row_represents ?x cols row" using vk by auto
      obtain h where h: "summand a = Some h" using a(2) by blast
      have "column_represents ?x a (row c)" using row(2) a(1) by (simp add: row_represents_def)
      with row(1) show ?thesis unfolding linear_represents [OF nx h] by (simp add: linear_old)
    qed
    then have "row_represents ?z cols (merge_row ?p (view k) (refresh_cte ?p ?rows k))"
      using merged_row [OF fits pz nz True refl] by blast
    with True show ?thesis by (simp add: run_merge_def)
  next
    case False
    then have "zgroup g k delta = []" using affected_keys unaffected_zgroup by metis
    then have eq: "rsum ?x h = rsum ?z h" for h using rsum_plus_delta [OF pz, of h] by simp
    have "row_represents ?z cols row = row_represents ?x cols row" for row
      using agg_value_cong(2) [of ?x ?z, OF eq] by (simp add: row_represents_def)
    with False vk eq show ?thesis by (auto simp: run_merge_def split: if_splits)
  qed
  show "if rsum ?z (\<lambda>r. 1) = 0 then run_program ?p ?rows view k = None
      else (\<exists>row. run_program ?p ?rows view k = Some row \<and> row_represents ?z cols row)"
    using merged empty_columns [OF fits _ nz] by (auto simp: run_program_def run_delete_def)
qed

end
