(* ===== verification/Merge_Properties.thy ===== *)
theory Merge_Properties
  imports Merge_Correct
begin

text \<open>
  The properties of the merge of a grouped delta, with instances that compute, and the columns it
  does not maintain.
\<close>

section \<open>A view that the merge maintains\<close>

text \<open>The rows of the view that its query gives.\<close>

definition group_view :: "('r \<Rightarrow> 'k) \<Rightarrow> (string \<times> 'r agg) list \<Rightarrow> 'r zset \<Rightarrow> 'k \<Rightarrow> agg_row option" where
  "group_view g cols z k =
     (if rsum (zgroup g k z) (\<lambda>r. 1) = 0 then None else Some (agg_columns cols (zgroup g k z)))"

lemma group_view_represents: "view_represents g cols z (group_view g cols z)"
  by (auto simp: view_represents_def group_view_def row_represents_def column_represents_def agg_columns_def
      split: option.splits elim: null_like.elims)

text \<open>\<open>select g, sum(x) as total, avg(x) as average from t group by g\<close>, with the hidden columns that the
  rewritten plan has.\<close>

definition total_input :: merge_input where
  "total_input =
     \<lparr>merge_view = ''totals'', index_columns = None,
      column_names = [''g'', ''total'', ''average'', ''openivm_sum_average'', ''openivm_count_average'',
        ''openivm_count_star'', ''openivm_multiplicity''],
      view_query = ''select g, sum(x) as total, avg(x) as average from t group by g'', merge_minmax = False,
      list_mode = False, delta_ts_filter = [], group_column_names = [''g''], merge_prefix = [],
      insert_only_deltas = False, merge_types = [''sum'', ''avg''],
      column_types = [INTEGER, HUGEINT, DOUBLE, HUGEINT, BIGINT, BIGINT, INTEGER], use_current_diff_keys = False,
      cascade_specs = None, cascade_lpts_prefix = [], emit_cascade = False\<rparr>"

definition total_columns :: "(string \<times> (nat \<times> real option) agg) list" where
  "total_columns =
     [(''total'', AggSum snd), (''average'', AggAvg snd), (''openivm_sum_average'', AggSum snd),
      (''openivm_count_average'', AggCount snd), (''openivm_count_star'', AggCountStar)]"

definition total_old :: "(nat \<times> real option) zset" where
  "total_old = [((1, Some 10), 2), ((1, None), 1), ((2, Some 5), 1)]"

definition total_delta :: "(nat \<times> real option) zset" where
  "total_delta = [((1, Some 10), -1), ((1, Some 40), 1), ((2, Some 5), -1), ((3, None), 1)]"

lemma total_aggregates: "merge_aggregates ref_env total_input =
    [''total'', ''average'', ''openivm_sum_average'', ''openivm_count_average'', ''openivm_count_star'']"
  by code_simp

lemma total_empty: "program_empty (BuildMergeProgram ref_env total_input) = [''openivm_count_average'', ''openivm_count_star'']"
  by code_simp

lemma total_decomposition:
  "DetectDerivedAggColumns [''total'', ''average'', ''openivm_sum_average'', ''openivm_count_average'', ''openivm_count_star''] =
     \<lparr>sum_cols = [(''average'', ''openivm_sum_average'')], sum_sq_cols = [],
      count_cols = [(''star'', ''openivm_count_star''), (''average'', ''openivm_count_average'')],
      needs_sqrt = [], is_population = []\<rparr>"
  by code_simp

lemma total_match: "QuoteIdentifier ref_env MATCH_COUNT_COL = MATCH_COUNT_COL"
  by code_simp

lemma total_fits: "merge_fits ref_env total_input total_columns"
  unfolding merge_fits_def total_aggregates total_empty total_match
  by (simp add: total_columns_def total_decomposition derived_col_def MATCH_COUNT_COL_def)
    (simp add: total_input_def)

lemma total_merged: "\<not> recomputes_groups ref_env total_input"
  by code_simp

lemma total_nonneg: "nonneg total_old" "nonneg (total_old @ total_delta)"
  by (auto simp: nonneg_def weight_def total_old_def total_delta_def)

section \<open>The merge maintains the view\<close>

text \<open>C3: where the code writes a merge (it does not recompute the groups), the columns are sums, counts,
  averages, variances and deviations as the code finds them by their names, the base rows change by
  \<open>delta\<close>, and the view holds the groups of the old rows, then after the MERGE and the DELETE of the
  text the view holds exactly the groups of the new rows: new groups are inserted, emptied ones
  deleted, and every column has the value the query gives (the sum of no values may be 0).\<close>
theorem merge_maintains_groups:
  assumes "merge_fits E m cols" "\<not> recomputes_groups E m"
    and "plus_delta old delta new" "nonneg old" "nonneg new" "view_represents g cols old view"
  shows "CompileAggregateGroups E m = (print_program E m (BuildMergeProgram E m), False) \<and>
    view_represents g cols new (run_program (BuildMergeProgram E m) (grouped_delta g cols delta) view)"
  using assms(2) program_represents [OF assms(1,3-6)] by (simp_all add: CompileAggregateGroups_def)

theorem merge_maintains_groups_witness:
  "CompileAggregateGroups ref_env total_input = (print_program ref_env total_input (BuildMergeProgram ref_env total_input), False) \<and>
   view_represents fst total_columns (total_old @ total_delta)
     (run_program (BuildMergeProgram ref_env total_input) (grouped_delta fst total_columns total_delta)
       (group_view fst total_columns total_old))"
  using merge_maintains_groups [OF total_fits total_merged plus_delta_append total_nonneg group_view_represents] .

section \<open>A sum whose values are gone\<close>

lemma merge_row_linear:
  assumes fits: "merge_fits E m cols" and c: "map_of cols c = Some a" "summand a \<noteq> None"
  shows "merge_row (BuildMergeProgram E m) (Some v) d c = combine (+) (v c) (d c)"
proof -
  let ?d = "DetectDerivedAggColumns (map fst cols)"
  have f: "merge_aggregates E m = map fst cols" "\<not> list_mode m" "\<not> insert_only_deltas m"
    "QuoteIdentifier E MATCH_COUNT_COL \<notin> set (map fst cols)" "column_fits cols ?d c a"
    using fits map_of_SomeD [OF c(1)] by (auto simp: merge_fits_def list_all_iff)
  have "c \<in> set (map fst cols)" using map_of_SomeD [OF c(1)] by force
  moreover have "\<not> derived_col ?d c" using f(5) c(2) by (cases a) auto
  ultimately show ?thesis using f(2-4)
    by (simp add: merge_row_def BuildMergeProgram_def Let_def map_of_pairs f(1) update_expr_def del: map_map list.map_comp)
qed

lemma deleted_row: "run_delete p view k = Some row \<Longrightarrow> view k = Some row"
  by (auto simp: run_delete_def split: option.splits if_splits)

lemma represented_row:
  assumes "view_represents g cols z view" "rsum (zgroup g k z) (\<lambda>r. 1) \<noteq> 0"
  obtains row where "view k = Some row" "row_represents (zgroup g k z) cols row"
  using assms(1) [unfolded view_represents_def, rule_format, of k] assms(2) by auto

lemma represented_column: "row_represents z cols row \<Longrightarrow> map_of cols c = Some a \<Longrightarrow> column_represents z a (row c)"
  by (simp add: row_represents_def)

lemma combine_Some: "combine f (Some x) y \<noteq> None"
  by (simp add: combine_def split: option.splits)

text \<open>C28: when the last non-NULL values of a group are deleted and rows of the group remain, the query gives
  NULL for a SUM over them, but the merged column is 0: the update adds the delta to the old sum and
  keeps no count of the values.\<close>
theorem emptied_sum_is_zero:
  assumes "merge_fits E m cols" "plus_delta old delta new" "nonneg old" "nonneg new"
    and "view_represents g cols old view" "map_of cols c = Some (AggSum f)"
    and "count_of (zgroup g k old) f \<noteq> 0" "count_of (zgroup g k new) f = 0" "rsum (zgroup g k new) (\<lambda>r. 1) \<noteq> 0"
  shows "agg_value (zgroup g k new) (AggSum f) = None \<and>
    (\<exists>row. run_program (BuildMergeProgram E m) (grouped_delta g cols delta) view k = Some row \<and> row c = Some 0)"
proof -
  let ?p = "BuildMergeProgram E m" and ?rows = "grouped_delta g cols delta"
  have "view_represents g cols new (run_program ?p ?rows view)" by (rule program_represents [OF assms(1-5)])
  then obtain row where row: "run_program ?p ?rows view k = Some row" "row_represents (zgroup g k new) cols row"
    by (rule represented_row [OF _ assms(9)])
  have "rsum (zgroup g k old) (\<lambda>r. 1) \<noteq> 0"
    using empty_group [OF nonneg_zgroup [OF assms(3)], of g k "non_null f"] assms(7) unfolding count_of_def by linarith
  then obtain v where v: "view k = Some v" "row_represents (zgroup g k old) cols v"
    by (rule represented_row [OF assms(5)])
  then have vc: "v c = Some (total_of (zgroup g k old) (\<lambda>x. x) f)"
    using represented_column [OF v(2) assms(6)] assms(7) by (simp add: column_represents_def)
  have "count_of (zgroup g k old) f + count_of (zgroup g k delta) f = 0"
    using rsum_plus_delta [OF plus_delta_zgroup [OF assms(2)]] assms(8) unfolding count_of_def by metis
  then have "zgroup g k delta \<noteq> []" using assms(7) by (auto simp: count_of_def)
  then have "k \<in> fst ` set ?rows" using affected_keys unaffected_zgroup by metis
  then have "row = merge_row ?p (Some v) (refresh_cte ?p ?rows k)"
    using deleted_row [OF row(1) [unfolded run_program_def]] v(1) by (simp add: run_merge_def)
  then have "row c \<noteq> None" using merge_row_linear [OF assms(1,6)] vc combine_Some by simp
  moreover have "row c = None \<or> row c = Some 0" using represented_column [OF row(2) assms(6)] assms(8) by (simp add: column_represents_def)
  ultimately show ?thesis using row(1) assms(8) by auto
qed

definition emptying_delta :: "(nat \<times> real option) zset" where
  "emptying_delta = [((1, Some 10), -2)]"

lemma emptying_nonneg: "nonneg (total_old @ emptying_delta)"
  by (auto simp: nonneg_def weight_def total_old_def emptying_delta_def)

lemma emptying_counts: "count_of (zgroup fst 1 total_old) snd \<noteq> 0" "count_of (zgroup fst 1 (total_old @ emptying_delta)) snd = 0"
  "rsum (zgroup fst 1 (total_old @ emptying_delta)) (\<lambda>r. 1) \<noteq> 0" "map_of total_columns ''total'' = Some (AggSum snd)"
  by (auto simp: count_of_def zgroup_def zfilter_def total_old_def emptying_delta_def non_null_def total_columns_def)

theorem emptied_sum_is_zero_witness:
  "agg_value (zgroup fst 1 (total_old @ emptying_delta)) (AggSum snd) = None \<and>
    (\<exists>row. run_program (BuildMergeProgram ref_env total_input) (grouped_delta fst total_columns emptying_delta)
      (group_view fst total_columns total_old) 1 = Some row \<and> row ''total'' = Some 0)"
  using emptied_sum_is_zero [OF total_fits plus_delta_append total_nonneg(1) emptying_nonneg group_view_represents
    emptying_counts(4,1-3)] .

section \<open>Averages whose name is quoted\<close>

lemma fold_sum_cols:
  "(x, c) \<in> set (sum_cols (fold detect_column cs d)) \<Longrightarrow>
     (x, c) \<in> set (sum_cols d) \<or> c \<in> set cs \<and> x = MatchPrefix c SUM_COL_PREFIX \<and> x \<noteq> []"
proof (induction cs arbitrary: d)
  case (Cons b cs)
  then have "(x, c) \<in> set (sum_cols (detect_column b d)) \<or> c \<in> set cs \<and> x = MatchPrefix c SUM_COL_PREFIX \<and> x \<noteq> []"
    by simp
  moreover have "(x, c) \<in> set (sum_cols (detect_column b d)) \<Longrightarrow>
      (x, c) \<in> set (sum_cols d) \<or> c = b \<and> x = MatchPrefix b SUM_COL_PREFIX \<and> x \<noteq> []"
    by (auto simp: detect_column_def add_sum_sq_def split: if_splits)
  ultimately show ?case by auto
qed simp

lemma matched_suffix: "MatchPrefix c p \<noteq> [] \<Longrightarrow> c = p @ MatchPrefix c p"
  by (auto simp: MatchPrefix_def starts_with_take split: if_splits) (metis append_take_drop_id)

lemma plain_suffix: "plain_name (p @ x) \<Longrightarrow> p \<noteq> [] \<Longrightarrow> list_all (\<lambda>d. is_alnum d \<or> d = CHR ''_'') x"
  by (cases p) (auto simp: plain_name_def)

lemma quoted_not_derived:
  assumes "duckdb_ok E" "QuoteIdentifier E n \<noteq> n"
  shows "\<not> derived_col (DetectDerivedAggColumns (map (QuoteIdentifier E) cs)) (QuoteIdentifier E n)"
proof
  let ?q = "QuoteIdentifier E n"
  have forms: "QuoteIdentifier E x = x \<and> plain_name x \<or> QuoteIdentifier E x = quoted_name x" for x
    using duckdb_strings.quote_forms [OF duckdb_okD [OF assms(1)]] .
  assume "derived_col (DetectDerivedAggColumns (map (QuoteIdentifier E) cs)) ?q"
  then obtain c where "(?q, c) \<in> set (sum_cols (DetectDerivedAggColumns (map (QuoteIdentifier E) cs)))"
    unfolding derived_col_def using map_of_SomeD by fastforce
  then obtain b where b: "QuoteIdentifier E b = SUM_COL_PREFIX @ ?q"
    using fold_sum_cols [of ?q c "map (QuoteIdentifier E) cs"] matched_suffix
    unfolding DetectDerivedAggColumns_def by fastforce
  then have "plain_name (SUM_COL_PREFIX @ ?q)"
    using forms [of b] by (auto simp: quoted_name_def SUM_COL_PREFIX_def)
  then have "list_all (\<lambda>d. is_alnum d \<or> d = CHR ''_'') ?q" by (rule plain_suffix) (simp add: SUM_COL_PREFIX_def)
  then show False using forms [of n] assms(2) by (auto simp: quoted_name_def)
qed

text \<open>an average (or a variance or deviation) whose column name has to be quoted is never recognised as
  derived: the code quotes the names of the columns before it looks for the prefixes of the hidden
  columns. Its MERGE adds the average of the changed rows to the old average; the witness has 10 and
  20 with the average 30.\<close>
theorem quoted_average_added_up:
  assumes "duckdb_ok E" "QuoteIdentifier E n \<noteq> n" "QuoteIdentifier E n \<in> set (merge_aggregates E m)"
    and "QuoteIdentifier E MATCH_COUNT_COL \<notin> set (merge_aggregates E m)" "\<not> list_mode m" "\<not> insert_only_deltas m"
    and "v (QuoteIdentifier E n) = Some x" "d (QuoteIdentifier E n) = Some y"
  shows "merge_row (BuildMergeProgram E m) (Some v) d (QuoteIdentifier E n) = Some (x + y)"
proof -
  have "\<not> derived_col (DetectDerivedAggColumns (merge_aggregates E m)) (QuoteIdentifier E n)"
    unfolding merge_aggregates_def by (rule quoted_not_derived [OF assms(1,2)])
  with assms(3-8) show ?thesis
    by (simp add: merge_row_def BuildMergeProgram_def Let_def map_of_pairs update_expr_def combine_def)
qed

definition quoted_input :: merge_input where
  "quoted_input = total_input\<lparr>
     column_names := [''g'', ''the avg'', ''openivm_sum_the avg'', ''openivm_count_the avg'', ''openivm_count_star'',
       ''openivm_multiplicity''],
     merge_types := [''avg''], column_types := [INTEGER, DOUBLE, HUGEINT, BIGINT, BIGINT, INTEGER]\<rparr>"

definition quoted_columns :: "(string \<times> (nat \<times> real option) agg) list" where
  "quoted_columns = [(quoted_name ''the avg'', AggAvg snd)]"

lemma quoted_facts: "QuoteIdentifier ref_env ''the avg'' = quoted_name ''the avg''" "quoted_name ''the avg'' \<noteq> ''the avg''"
  "quoted_name ''the avg'' \<in> set (merge_aggregates ref_env quoted_input)"
  "QuoteIdentifier ref_env MATCH_COUNT_COL \<notin> set (merge_aggregates ref_env quoted_input)"
  "\<not> list_mode quoted_input" "\<not> insert_only_deltas quoted_input" "\<not> recomputes_groups ref_env quoted_input"
  "map_of (program_folds (BuildMergeProgram ref_env quoted_input)) (quoted_name ''the avg'') = Some FoldSum"
  by code_simp+

lemma quoted_delta: "refresh_cte (BuildMergeProgram ref_env quoted_input) (grouped_delta fst quoted_columns [((1, Some 20), 1)]) 1
    (quoted_name ''the avg'') = Some 20"
  by (simp add: refresh_cte_def quoted_facts(8) fold_delta_def delta_values_def grouped_delta_def List.map_filter_simps
      agg_columns_def quoted_columns_def weight_class_def count_of_def total_of_def non_null_def on_value_def)

theorem quoted_average_added_up_witness:
  "\<not> recomputes_groups ref_env quoted_input \<and>
   agg_value [((1 :: nat, Some 10), 1)] (AggAvg snd) = Some 10 \<and>
   merge_row (BuildMergeProgram ref_env quoted_input) (Some (\<lambda>c. Some 10))
     (refresh_cte (BuildMergeProgram ref_env quoted_input) (grouped_delta fst quoted_columns [((1, Some 20), 1)]) 1)
     (quoted_name ''the avg'') = Some 30 \<and>
   agg_value [((1 :: nat, Some 10), 1), ((1, Some 20), 1)] (AggAvg snd) = Some 15"
  using quoted_facts(7) quoted_average_added_up [OF ref_env_ok _ _ quoted_facts(4-6), of "''the avg''" "\<lambda>c. Some 10" 10
      "refresh_cte (BuildMergeProgram ref_env quoted_input) (grouped_delta fst quoted_columns [((1, Some 20), 1)]) 1" 20]
    quoted_facts(2,3) quoted_delta
  by (simp add: quoted_facts(1) count_of_def total_of_def non_null_def on_value_def)

end
