(* ===== verification/Aux_State.thy ===== *)
theory Aux_State
  imports Group_Recompute
begin

text \<open>
  The SQL of the views with auxiliary state (\<open>upsert/refresh_compiler_aux.cpp\<close>): the counts of the
  distinct rows below an aggregate, the left and match counts of a semi or anti join, and the sums
  of the groups that a filter counts; also the recomputation of window partitions, which keeps none.
\<close>

section \<open>Shared fragments\<close>

datatype aux_error = InternalException string

definition incomplete_metadata :: "string \<Rightarrow> string \<Rightarrow> aux_error" where
  "incomplete_metadata function_name view_name = InternalException
     (function_name @ '' called with incomplete metadata for view '' @ [quote_char] @ view_name @ [quote_char])"

definition DeltaSourceRef :: "duckdb_env \<Rightarrow> string \<Rightarrow> string \<Rightarrow> string" where
  "DeltaSourceRef E source catalog_prefix =
     (if source \<noteq> [] \<and> (hd source = CHR ''('' \<or> CHR ''.'' \<in> set source) then source
      else catalog_prefix @ QuoteIdentifier E source)"

definition CreateAuxTablePrefix :: "string \<Rightarrow> bool \<Rightarrow> string" where
  "CreateAuxTablePrefix target_table replace =
     (if replace then ''CREATE OR REPLACE TABLE '' else ''CREATE TABLE IF NOT EXISTS '') @ target_table"

definition SourceExprForColumn :: "duckdb_env \<Rightarrow> string list \<Rightarrow> string list \<Rightarrow> nat \<Rightarrow> string \<Rightarrow> string" where
  "SourceExprForColumn E cols source_exprs i fallback_alias =
     (if i < length source_exprs \<and> source_exprs ! i \<noteq> [] then source_exprs ! i
      else if fallback_alias \<noteq> [] then fallback_alias @ ''.'' @ QuoteIdentifier E (cols ! i)
      else cols ! i)"

text \<open>The select list and the list of the grouping expressions.\<close>

definition BuildAliasedSourceLists :: "duckdb_env \<Rightarrow> string list \<Rightarrow> string list \<Rightarrow> string \<Rightarrow> string \<times> string" where
  "BuildAliasedSourceLists E cols source_exprs fallback_alias =
     (let exprs = map (\<lambda>i. SourceExprForColumn E cols source_exprs i fallback_alias) [0..<length cols]
      in (join_with '', '' (map2 (\<lambda>e c. e @ '' AS '' @ QuoteIdentifier E c) exprs cols), join_with '', '' exprs))"

definition since :: "string \<Rightarrow> string" where
  "since last_update = TIMESTAMP_COL @ '' >= '' @ [quote_char] @ EscapeSingleQuotes last_update @ [quote_char] @ ''::TIMESTAMP''"

definition create_temp :: "string \<Rightarrow> string \<Rightarrow> string" where
  "create_temp name body_sql = line (''CREATE OR REPLACE TEMP TABLE '' @ name @ '' AS'') @ body_sql @ line (line '';'')"

section \<open>Distinct rows below an aggregate\<close>

definition BuildDistinctAuxStateCreateSQL ::
  "duckdb_env \<Rightarrow> string \<Rightarrow> string list \<Rightarrow> string list \<Rightarrow> string \<Rightarrow> string \<Rightarrow> bool \<Rightarrow> string" where
  "BuildDistinctAuxStateCreateSQL E target_table distinct_cols source_exprs source_relation filter_sql replace =
     (let (select_list, group_list) = BuildAliasedSourceLists E distinct_cols source_exprs []
      in CreateAuxTablePrefix target_table replace @ '' AS SELECT '' @ select_list @ '', count(*)::BIGINT AS _count FROM '' @
         source_relation @ (if filter_sql = [] then [] else '' WHERE '' @ filter_sql) @ '' GROUP BY '' @ group_list)"

definition CompileDistinctIncremental ::
  "duckdb_env \<Rightarrow> string \<Rightarrow> string \<Rightarrow> string list \<Rightarrow> string list \<Rightarrow> string \<Rightarrow> string \<Rightarrow> sql \<Rightarrow> string list \<Rightarrow>
    string \<Rightarrow> string \<Rightarrow> string \<Rightarrow> string \<Rightarrow> aux_error + sql" where
  "CompileDistinctIncremental E view_name aux_table distinct_cols source_exprs delta_source last_update filter_sql
       group_columns sum_arg sum_out count_star_col catalog_prefix =
     (let data_table = catalog_prefix @ QuoteIdentifier E (DataTableName view_name);
          aux_q = catalog_prefix @ QuoteIdentifier E aux_table;
          delta_q = DeltaSourceRef E delta_source catalog_prefix;
          sum_arg_q = QuoteIdentifier E sum_arg; sum_out_q = QuoteIdentifier E sum_out; count_q = QuoteIdentifier E count_star_col;
          distinct_csv = JoinQuotedColumns E distinct_cols; distinct_csv_i = JoinQualifiedQuotedColumns E distinct_cols ''i'';
          group_csv = JoinQuotedColumns E group_columns; mv_match = BuildNullSafeMatch E group_columns ''v'' ''d'';
          (source_select, source_group) = BuildAliasedSourceLists E distinct_cols source_exprs [];
          dinput = QuoteIdentifier E (''openivm_dinput_'' @ view_name);
          sum_mult = ''SUM('' @ MULTIPLICITY_COL @ '')'';
          aux_match = BuildNullSafeMatch E distinct_cols ''_aux'' ''i''
      in if distinct_cols = [] \<or> group_columns = [] \<or> sum_arg = [] \<or> sum_out = [] then
           Inl (incomplete_metadata ''CompileDistinctIncremental'' view_name)
         else Inr
           (create_temp dinput
              (line (''  SELECT '' @ source_select @ '', '' @ sum_mult @ ''::BIGINT AS dmult'') @
               line (''  FROM '' @ delta_q @ '' WHERE '' @ since last_update @
                 (if filter_sql = [] then [] else '' AND ('' @ filter_sql @ '')'')) @
               line (''  GROUP BY '' @ source_group) @ ''  HAVING '' @ sum_mult @ '' <> 0'') @
            line ''WITH ddist AS ('' @
            line (''  SELECT '' @ distinct_csv_i @ '', CASE WHEN COALESCE(_aux._count, 0) = 0 AND i.dmult > 0 THEN 1 '' @
              ''WHEN COALESCE(_aux._count, 0) > 0 AND COALESCE(_aux._count, 0) + i.dmult <= 0 THEN -1 ELSE 0 END AS dd'') @
            line (''  FROM '' @ dinput @ '' i LEFT JOIN '' @ aux_q @ '' _aux ON '' @ aux_match) @ line ''),'' @
            line ''dagg AS ('' @
            line (''  SELECT '' @ group_csv @ '', SUM('' @ sum_arg_q @ '' * dd) AS d_sum, SUM(dd)::BIGINT AS d_count'') @
            line ''  FROM ddist WHERE dd <> 0'' @ line (''  GROUP BY '' @ group_csv) @ line '')'' @
            line (''MERGE INTO '' @ data_table @ '' v USING dagg d ON '' @ mv_match) @
            line (''WHEN MATCHED THEN UPDATE SET '' @ sum_out_q @ '' = COALESCE(v.'' @ sum_out_q @ '', 0) + d.d_sum, '' @ count_q @
              '' = v.'' @ count_q @ '' + d.d_count'') @
            line (line (''WHEN NOT MATCHED THEN INSERT ('' @ group_csv @ '', '' @ sum_out_q @ '', '' @ count_q @ '') VALUES ('' @
              JoinQualifiedQuotedColumns E group_columns ''d'' @ '', d.d_sum, d.d_count);'')) @
            line (line (''DELETE FROM '' @ data_table @ '' WHERE '' @ count_q @ '' <= 0;'')) @
            line (''MERGE INTO '' @ aux_q @ '' _aux USING '' @ dinput @ '' i ON '' @ aux_match) @
            line ''WHEN MATCHED THEN UPDATE SET _count = _aux._count + i.dmult'' @
            line (line (''WHEN NOT MATCHED AND i.dmult > 0 THEN INSERT ('' @ distinct_csv @ '', _count) VALUES ('' @
              distinct_csv_i @ '', i.dmult);'')) @
            line (line (''DELETE FROM '' @ aux_q @ '' WHERE _count <= 0;'')) @
            line (''DROP TABLE IF EXISTS '' @ dinput @ '';'')))"

section \<open>Semi and anti joins\<close>

definition BuildSemiAntiAuxStateCreateSQL ::
  "duckdb_env \<Rightarrow> string \<Rightarrow> string \<Rightarrow> string \<Rightarrow> string \<Rightarrow> string \<Rightarrow> sql \<Rightarrow> sql \<Rightarrow> string list \<Rightarrow> string list \<Rightarrow> bool \<Rightarrow> sql" where
  "BuildSemiAntiAuxStateCreateSQL E target_table left_source left_alias right_source right_alias predicate post_filter
       left_cols left_exprs replace =
     (let csv = JoinQuotedColumns E left_cols; qualified = JoinQualifiedQuotedColumns E left_cols left_alias;
          (left_select, _) = BuildAliasedSourceLists E left_cols left_exprs left_alias
      in CreateAuxTablePrefix target_table replace @ '' AS WITH left_source AS (SELECT '' @ left_select @ '' FROM '' @
         left_source @ '' '' @ left_alias @ (if post_filter = [] then [] else '' WHERE '' @ post_filter) @
         ''), left_counts AS (SELECT '' @ csv @ '', count(*)::BIGINT AS _left_count FROM left_source GROUP BY '' @ csv @
         ''), match_counts AS (SELECT '' @ qualified @ '', count(*)::BIGINT AS _match_count FROM (SELECT DISTINCT '' @ csv @
         '' FROM left_source) '' @ left_alias @ '' JOIN '' @ right_source @ '' '' @ right_alias @ '' ON '' @ predicate @
         '' GROUP BY '' @ qualified @ '') SELECT '' @ JoinQualifiedQuotedColumns E left_cols ''lc'' @
         '', lc._left_count, coalesce(mc._match_count, 0)::BIGINT AS _match_count FROM left_counts lc LEFT JOIN match_counts mc ON '' @
         BuildNullSafeMatch E left_cols ''lc'' ''mc'')"

record semi_anti_input =
  saj_view :: string
  saj_aux_table :: string
  saj_join_type :: string
  saj_left_alias :: string
  saj_right_table :: string
  saj_right_alias :: string
  saj_predicate :: string
  saj_post_filter :: string
  saj_left_cols :: "string list"
  saj_left_exprs :: "string list"
  saj_output_cols :: "string list"
  saj_left_delta :: string
  saj_right_delta :: string
  saj_left_update :: string
  saj_right_update :: string
  saj_prefix :: string

definition saj_is_anti :: "duckdb_env \<Rightarrow> semi_anti_input \<Rightarrow> bool" where
  "saj_is_anti E s \<longleftrightarrow> Lower E (saj_join_type s) = ''anti''"

definition changed_counts :: "string \<Rightarrow> string \<Rightarrow> string" where
  "changed_counts missing cur_visible =
     ''WHERE '' @ missing @ ''._left_count IS NULL OR _old._left_count IS DISTINCT FROM _cur._left_count OR '' @
     ''_old._visible IS DISTINCT FROM ('' @ cur_visible @ '')''"

definition dleft_body :: "duckdb_env \<Rightarrow> semi_anti_input \<Rightarrow> string" where
  "dleft_body E s =
     (let (left_select, left_group) = BuildAliasedSourceLists E (saj_left_cols s) (saj_left_exprs s) (saj_left_alias s);
          sum_mult = ''SUM('' @ saj_left_alias s @ ''.'' @ MULTIPLICITY_COL @ '')''
      in if saj_left_delta s \<noteq> [] \<and> saj_left_update s \<noteq> [] then
           line (''  SELECT '' @ left_select @ '', '' @ sum_mult @ ''::BIGINT AS dmult'') @
           line (''  FROM '' @ DeltaSourceRef E (saj_left_delta s) (saj_prefix s) @ '' '' @ saj_left_alias s) @
           line (''  WHERE '' @ saj_left_alias s @ ''.'' @ since (saj_left_update s) @
             (if saj_post_filter s = [] then [] else '' AND ('' @ saj_post_filter s @ '')'')) @
           line (''  GROUP BY '' @ left_group) @ ''  HAVING '' @ sum_mult @ '' <> 0''
         else ''  SELECT '' @ JoinQuotedColumns E (saj_left_cols s) @ '', 0::BIGINT AS dmult FROM '' @
           saj_prefix s @ QuoteIdentifier E (saj_aux_table s) @ '' WHERE false'')"

definition CompileSemiAntiRecompute :: "duckdb_env \<Rightarrow> semi_anti_input \<Rightarrow> aux_error + string" where
  "CompileSemiAntiRecompute E s =
     (let data_table = saj_prefix s @ QuoteIdentifier E (DataTableName (saj_view s));
          aux_q = saj_prefix s @ QuoteIdentifier E (saj_aux_table s);
          right_delta = DeltaSourceRef E (saj_right_delta s) (saj_prefix s);
          dleft = QuoteIdentifier E (''openivm_saj_dleft_'' @ saj_view s);
          dright = QuoteIdentifier E (''openivm_saj_dright_'' @ saj_view s);
          old = QuoteIdentifier E (''openivm_saj_old_'' @ saj_view s);
          aff = QuoteIdentifier E (''openivm_saj_aff_'' @ saj_view s);
          visible = (if saj_is_anti E s then ''_match_count = 0'' else ''_match_count > 0'');
          cur_visible = ''_cur.'' @ visible;
          cols = saj_left_cols s; csv = JoinQuotedColumns E cols; out_csv = JoinQuotedColumns E (saj_output_cols s);
          left_l = JoinQualifiedQuotedColumns E cols (saj_left_alias s);
          aux_i = BuildNullSafeMatch E cols ''_aux'' ''i'';
          old_cur = BuildNullSafeMatch E cols ''_old'' ''_cur'';
          sum_right = ''SUM('' @ saj_right_alias s @ ''.'' @ MULTIPLICITY_COL @ '')''
      in if cols = [] \<or> saj_output_cols s = [] \<or> saj_aux_table s = [] \<or> saj_right_delta s = [] \<or> saj_right_update s = [] then
           Inl (incomplete_metadata ''CompileSemiAntiRecompute'' (saj_view s))
         else Inr
           (line (line (''CREATE OR REPLACE TEMP TABLE '' @ old @ '' AS SELECT *, ('' @ visible @ '') AS _visible FROM '' @ aux_q @ '';'')) @
            create_temp dleft (dleft_body E s) @
            create_temp dright
              (line (''  SELECT '' @ left_l @ '', '' @ sum_right @ ''::BIGINT AS dmatch'') @
               line (''  FROM '' @ aux_q @ '' '' @ saj_left_alias s @ '' JOIN '' @ right_delta @ '' '' @ saj_right_alias s @
                 '' ON '' @ saj_predicate s) @
               line (''  WHERE '' @ saj_right_alias s @ ''.'' @ since (saj_right_update s)) @
               line (''  GROUP BY '' @ left_l) @ ''  HAVING '' @ sum_right @ '' <> 0'') @
            line (''MERGE INTO '' @ aux_q @ '' _aux USING '' @ dright @ '' _d ON '' @ BuildNullSafeMatch E cols ''_aux'' ''_d'') @
            line (line ''WHEN MATCHED THEN UPDATE SET _match_count = _aux._match_count + _d.dmatch;'') @
            line (''MERGE INTO '' @ aux_q @ '' _aux USING '' @ dleft @ '' i ON '' @ aux_i) @
            line (line ''WHEN MATCHED THEN UPDATE SET _left_count = _aux._left_count + i.dmult;'') @
            line (''INSERT INTO '' @ aux_q @ '' ('' @ csv @ '', _left_count, _match_count)'') @
            line (''SELECT '' @ JoinQualifiedQuotedColumns E cols ''i'' @ '', i.dmult, COALESCE(mc._match_count, 0)::BIGINT'') @
            line (''FROM '' @ dleft @ '' i'') @ line (''LEFT JOIN '' @ aux_q @ '' _aux ON '' @ aux_i) @ line ''LEFT JOIN ('' @
            line (''  SELECT '' @ left_l @ '', COUNT(*)::BIGINT AS _match_count'') @
            line (''  FROM '' @ dleft @ '' '' @ saj_left_alias s @ '' JOIN '' @ saj_right_table s @ '' '' @ saj_right_alias s @
              '' ON '' @ saj_predicate s) @
            line (''  GROUP BY '' @ left_l) @ line ('') mc ON '' @ BuildNullSafeMatch E cols ''mc'' ''i'') @
            line (line ''WHERE _aux._left_count IS NULL AND i.dmult > 0;'') @
            line (''CREATE OR REPLACE TEMP TABLE '' @ aff @ '' AS'') @
            line (''SELECT '' @ JoinQualifiedQuotedColumns E cols ''_old'' @ '' FROM '' @ old @ '' _old LEFT JOIN '' @ aux_q @
              '' _cur ON '' @ old_cur) @
            line (changed_counts ''_cur'' cur_visible) @ line ''UNION'' @
            line (''SELECT '' @ JoinQualifiedQuotedColumns E cols ''_cur'' @ '' FROM '' @ aux_q @ '' _cur LEFT JOIN '' @ old @
              '' _old ON '' @ old_cur) @
            line (line (changed_counts ''_old'' cur_visible @ '';'')) @
            line ''WITH _old_rows AS ('' @
            line (''  SELECT '' @ JoinQualifiedQuotedColumns E (saj_output_cols s) ''_old'' @ '' FROM '' @ old @ '' _old JOIN '' @ aff @
              '' _aff ON '' @ BuildNullSafeMatch E cols ''_aff'' ''_old'' @ '', generate_series(1, _old._left_count::BIGINT)'') @
            line ''  WHERE _old._visible AND _old._left_count > 0'' @ line ''), _net AS ('' @
            line (''  SELECT '' @ out_csv @ '', COUNT(*)::BIGINT AS _cnt FROM _old_rows GROUP BY '' @ out_csv) @ line '')'' @
            line (''DELETE FROM '' @ data_table @ '' WHERE rowid IN ('') @ line ''  SELECT _v.rowid FROM ('' @
            line (''    SELECT rowid, '' @ out_csv @ '', ROW_NUMBER() OVER (PARTITION BY '' @ out_csv @ '' ORDER BY rowid) AS _rn FROM '' @
              data_table) @
            line (''  ) _v JOIN _net _d ON '' @ BuildNullSafeMatch E (saj_output_cols s) ''_v'' ''_d'' @ '' WHERE _v._rn <= _d._cnt'') @
            line (line '');'') @
            line (''INSERT INTO '' @ data_table @ '' SELECT '' @ JoinQualifiedQuotedColumns E (saj_output_cols s) ''_cur'') @
            line (''FROM '' @ aux_q @ '' _cur JOIN '' @ aff @ '' _aff ON '' @ BuildNullSafeMatch E cols ''_aff'' ''_cur'' @
              '', generate_series(1, _cur._left_count::BIGINT)'') @
            line (line (''WHERE '' @ cur_visible @ '' AND _cur._left_count > 0;'')) @
            line (''DELETE FROM '' @ aux_q @ '' WHERE _left_count <= 0;'') @ drop_tables [old, dleft, dright, aff]))"

section \<open>Counts of filtered groups\<close>

definition BuildFilteredGroupCountAuxStateCreateSQL ::
  "duckdb_env \<Rightarrow> string \<Rightarrow> string \<Rightarrow> string \<Rightarrow> string \<Rightarrow> sql \<Rightarrow> sql \<Rightarrow> bool \<Rightarrow> sql" where
  "BuildFilteredGroupCountAuxStateCreateSQL E target_table source_table group_col sum_col source_group_expr source_sum_expr replace =
     (let group_q = QuoteIdentifier E group_col; sum_q = QuoteIdentifier E sum_col;
          group_expr = (if source_group_expr = [] then group_q else source_group_expr);
          sum_expr = (if source_sum_expr = [] then sum_q else source_sum_expr)
      in CreateAuxTablePrefix target_table replace @ '' AS SELECT '' @ group_expr @ '' AS '' @ group_q @ '', sum('' @ sum_expr @
         '') AS openivm_sum FROM '' @ source_table @ '' GROUP BY '' @ group_expr)"

definition CompileFilteredGroupCount ::
  "duckdb_env \<Rightarrow> string \<Rightarrow> string \<Rightarrow> string \<Rightarrow> sql \<Rightarrow> string \<Rightarrow> string \<Rightarrow> sql \<Rightarrow> sql \<Rightarrow> string \<Rightarrow> string \<Rightarrow>
    sql \<Rightarrow> string \<Rightarrow> aux_error + sql" where
  "CompileFilteredGroupCount E view_name aux_table delta_source last_update group_col sum_col source_group_expr
       source_sum_expr output_col comparison_op threshold_sql catalog_prefix =
     (let data_table = catalog_prefix @ QuoteIdentifier E (DataTableName view_name);
          aux_q = catalog_prefix @ QuoteIdentifier E aux_table;
          delta_q = DeltaSourceRef E delta_source catalog_prefix;
          dsum_table = QuoteIdentifier E (''openivm_fgc_delta_'' @ view_name);
          group_q = QuoteIdentifier E group_col; sum_q = QuoteIdentifier E sum_col;
          source_group = (if source_group_expr = [] then group_q else source_group_expr);
          source_sum = (if source_sum_expr = [] then sum_q else source_sum_expr);
          output_q = QuoteIdentifier E output_col;
          dsum_expr = ''SUM('' @ MULTIPLICITY_COL @ '' * '' @ source_sum @ '')'';
          old_sum = ''COALESCE(_aux.openivm_sum, 0)'';
          new_sum = ''('' @ old_sum @ '' + d.openivm_delta_sum)'';
          visible = (\<lambda>total. ''CASE WHEN '' @ total @ '' '' @ comparison_op @ '' '' @ threshold_sql @ '' THEN 1 ELSE 0 END'');
          aux_match = BuildNullSafeMatch E [group_col] ''_aux'' ''d''
      in if aux_table = [] \<or> delta_source = [] \<or> last_update = [] \<or> group_col = [] \<or> sum_col = [] \<or> output_col = [] \<or>
           comparison_op = [] \<or> threshold_sql = [] then Inl (incomplete_metadata ''CompileFilteredGroupCount'' view_name)
         else Inr
           (create_temp dsum_table
              (line (''  SELECT '' @ source_group @ '' AS '' @ group_q @ '', '' @ dsum_expr @ '' AS openivm_delta_sum'') @
               line (''  FROM '' @ delta_q) @ line (''  WHERE '' @ since last_update) @
               line (''  GROUP BY '' @ source_group) @ ''  HAVING '' @ dsum_expr @ '' <> 0'') @
            line ''WITH openivm_transition AS ('' @
            line (''  SELECT SUM(('' @ visible new_sum @ '') - ('' @ visible old_sum @ '')) AS openivm_delta_count'') @
            line (''  FROM '' @ dsum_table @ '' d LEFT JOIN '' @ aux_q @ '' _aux ON '' @ aux_match) @ line '')'' @
            line (line (''UPDATE '' @ data_table @ '' SET '' @ output_q @ '' = COALESCE('' @ output_q @
              '', 0) + COALESCE((SELECT openivm_delta_count FROM openivm_transition), 0);'')) @
            line (''MERGE INTO '' @ aux_q @ '' _aux USING '' @ dsum_table @ '' d ON '' @ aux_match) @
            line ''WHEN MATCHED THEN UPDATE SET openivm_sum = COALESCE(_aux.openivm_sum, 0) + d.openivm_delta_sum'' @
            line (line (''WHEN NOT MATCHED THEN INSERT ('' @ group_q @ '', openivm_sum) VALUES (d.'' @ group_q @
              '', d.openivm_delta_sum);'')) @
            line (''DELETE FROM '' @ aux_q @ '' WHERE openivm_sum = 0;'') @ line (''DROP TABLE IF EXISTS '' @ dsum_table @ '';'')))"

section \<open>Window partitions\<close>

record WindowPartitionDeltaSpec =
  partition_delta_table :: string
  partition_delta_sql :: string
  output_column :: string
  source_column :: string

definition BuildDeleteInsertRefreshSQL :: "string \<Rightarrow> sql \<Rightarrow> string \<Rightarrow> sql \<Rightarrow> sql \<Rightarrow> sql \<Rightarrow> sql" where
  "BuildDeleteInsertRefreshSQL data_table view_query_sql recompute_alias delete_where insert_where statement_prefix =
     statement_prefix @ line (''DELETE FROM '' @ data_table @ '' WHERE '' @ delete_where @ '';'') @
     statement_prefix @ line (''INSERT INTO '' @ data_table) @
     line (''SELECT * FROM ('' @ view_query_sql @ '') '' @ recompute_alias) @ line (''WHERE '' @ insert_where @ '';'')"

definition partition_filter :: "duckdb_env \<Rightarrow> string \<Rightarrow> WindowPartitionDeltaSpec \<Rightarrow> string" where
  "partition_filter E delta_where spec =
     QuoteIdentifier E (output_column spec) @ '' IN (SELECT DISTINCT '' @ QuoteIdentifier E (source_column spec) @ '' FROM '' @
     (if partition_delta_sql spec = [] then QuoteIdentifier E (partition_delta_table spec) else partition_delta_sql spec) @
     delta_where @ '')''"

definition CompileWindowRecompute ::
  "duckdb_env \<Rightarrow> string \<Rightarrow> sql \<Rightarrow> string \<Rightarrow> string \<Rightarrow> string list \<Rightarrow> WindowPartitionDeltaSpec list \<Rightarrow> bool \<Rightarrow> sql \<Rightarrow> string \<Rightarrow>
    string \<Rightarrow> sql" where
  "CompileWindowRecompute E view_name view_query_sql ts_filter catalog_prefix partition_columns specs emit_cascade_delta
       affected_keys_sql affected_key_cols affected_key_tuple =
     (let have_keys = (affected_keys_sql \<noteq> [] \<and> affected_key_cols \<noteq> [] \<and> affected_key_tuple \<noteq> []);
          data_table = catalog_prefix @ QuoteIdentifier E (DataTableName view_name);
          delta_where = (if ts_filter = [] then [] else '' WHERE '' @ ts_filter);
          affected = QuoteIdentifier E (''openivm_affected_'' @ view_name);
          affected_filter =
            (if have_keys then affected_key_tuple @ '' IN (SELECT '' @ affected_key_cols @ '' FROM '' @ affected @ '')''
             else join_with '' OR '' (map (partition_filter E delta_where) specs));
          keys = (if have_keys then temp_table affected affected_keys_sql else []);
          delta_table = catalog_prefix @ QuoteIdentifier E (DeltaName view_name);
          old_temp = QuoteIdentifier E (''openivm_old_'' @ view_name);
          new_temp = QuoteIdentifier E (''openivm_new_'' @ view_name);
          refresh = BuildDeleteInsertRefreshSQL data_table view_query_sql ''openivm_recompute'' affected_filter affected_filter []
      in if \<not> have_keys \<and> (partition_columns = [] \<or> specs = []) then CompileFullRecompute E view_name view_query_sql catalog_prefix
         else if \<not> emit_cascade_delta then keys @ refresh @ (if have_keys then drop_tables [affected] else [])
         else
           keys @ temp_table old_temp (line (''SELECT * FROM '' @ data_table) @ ''WHERE '' @ affected_filter) @
           temp_table new_temp (line (''SELECT * FROM ('' @ view_query_sql @ '') openivm_recompute'') @ ''WHERE '' @ affected_filter) @
           line (''DELETE FROM '' @ data_table @ '' WHERE '' @ affected_filter @ '';'') @
           line (''INSERT INTO '' @ data_table) @ line (''SELECT * FROM '' @ new_temp @ '';'') @
           [newline_char] @ BuildSignedMultisetDeltaInsertSQL delta_table old_temp new_temp @
           (if have_keys then [newline_char] @ drop_tables [affected] else []) @ drop_tables [old_temp, new_temp])"

end
