(* ===== verification/Apply_Delta.thy ===== *)
theory Apply_Delta
  imports Merge_Correct
begin

text \<open>
  The other two ways a computed delta is applied to a view (\<open>upsert/refresh_compiler.cpp\<close>):
  \<open>CompileSimpleAggregates\<close>, the one row of a view without GROUP BY, and
  \<open>CompileProjectionsFilters\<close>, a bag of rows from which copies are deleted by rowid and to which
  copies are added. Both write SQL text; the meaning of the text is given beside it.
\<close>

section \<open>One row of aggregates\<close>

definition ZEROS_LIST :: string where
  "ZEROS_LIST = ''[0.0::FLOAT FOR x IN generate_series(1, 64)]''"

record simple_program =
  simple_sums :: "string list"
  simple_derived :: "(string \<times> merge_expr) list"

text \<open>The aliases are taken from a hash map; here they have the order of their columns.\<close>

definition BuildSimpleProgram :: "string list \<Rightarrow> simple_program" where
  "BuildSimpleProgram names =
     (let d = DetectDerivedAggColumns names
      in \<lparr>simple_sums = filter (\<lambda>c. c \<noteq> MULTIPLICITY_COL \<and> \<not> derived_col d c) names,
          simple_derived = map (\<lambda>alias_name.
            (alias_name,
             let s = PlainColumn (the (map_of (sum_cols d) alias_name)); n = PlainColumn (the (map_of (count_cols d) alias_name))
             in case map_of (sum_sq_cols d) alias_name of
                  Some q \<Rightarrow> VarianceFormula s (PlainColumn q) n (is_set (is_population d) alias_name)
                              (is_set (needs_sqrt d) alias_name) False
                | None \<Rightarrow> AvgFormula s n))
            (rev (remdups (derived_cols d)))\<rparr>)"

definition simple_cte :: "bool \<Rightarrow> string \<Rightarrow> string" where
  "simple_cte as_lists column =
     (if as_lists then
        ''COALESCE(list_reduce(list(list_transform('' @ column @ '', lambda x: '' @ MULTIPLICITY_COL @
        '' * x)), lambda a, b: list_transform(list_zip(a, b), lambda x: x[1] + x[2])), '' @ ZEROS_LIST @ '') AS d_'' @ column
      else ''SUM('' @ MULTIPLICITY_COL @ '' * '' @ column @ '') AS d_'' @ column)"

definition simple_set :: "bool \<Rightarrow> string \<Rightarrow> string" where
  "simple_set as_lists column =
     (if as_lists then
        column @ '' = list_transform(list_zip('' @ column @ '', (SELECT d_'' @ column @
        '' FROM openivm_delta)), lambda x: x[1] + x[2])''
      else column @ '' = COALESCE('' @ column @ '', 0) + COALESCE((SELECT d_'' @ column @ '' FROM openivm_delta), 0)'')"

definition recomputes_row :: "string list \<Rightarrow> bool \<Rightarrow> LogicalTypeId list \<Rightarrow> bool" where
  "recomputes_row names has_minmax types \<longleftrightarrow>
     has_minmax \<or>
     list_ex (\<lambda>(c, t). c \<noteq> MULTIPLICITY_COL \<and> c \<noteq> TIMESTAMP_COL \<and> \<not> IsSummableLogicalType t) (zip names types)"

definition CompileSimpleAggregates ::
  "duckdb_env \<Rightarrow> string \<Rightarrow> string list \<Rightarrow> string \<Rightarrow> bool \<Rightarrow> bool \<Rightarrow> string \<Rightarrow> string \<Rightarrow> LogicalTypeId list \<Rightarrow> string" where
  "CompileSimpleAggregates E view_name names view_query_sql has_minmax as_lists ts_filter catalog_prefix types =
     (let data_table = catalog_prefix @ QuoteIdentifier E (DataTableName view_name);
          delta_view = catalog_prefix @ QuoteIdentifier E (DeltaName view_name);
          p = BuildSimpleProgram names;
          columns = map (QuoteIdentifier E) (simple_sums p)
      in if recomputes_row names has_minmax types then
           line (''DELETE FROM '' @ data_table @ '';'') @ line (''INSERT INTO '' @ data_table @ '' '' @ view_query_sql @ '';'')
         else
           line ''WITH openivm_delta AS ('' @ ''  SELECT '' @
             line (join_with (line '','' @ ''    '') (map (simple_cte as_lists) columns)) @
             ''  FROM '' @ line (delta_view @ (if ts_filter = [] then [] else '' WHERE '' @ ts_filter)) @ line '')'' @
           line (''UPDATE '' @ data_table @ '' SET'') @ ''  '' @
             line (join_with (line '','' @ ''  '') (map (simple_set as_lists) columns) @ '';'') @
           concat (map (\<lambda>(c, e). line (''UPDATE '' @ data_table @ '' SET '' @ c @ '' = '' @ print_merge e @ '';''))
             (simple_derived p)))"

text \<open>The statements change the one row: first the sums, then each derived column.\<close>

definition delta_sum :: "'k delta_rows \<Rightarrow> 'k \<Rightarrow> agg_row" where
  "delta_sum rows k c = fold_delta FoldSum (delta_values rows k c)"

definition update_sums :: "simple_program \<Rightarrow> agg_row \<Rightarrow> agg_row \<Rightarrow> agg_row" where
  "update_sums p d row c = (if c \<in> set (simple_sums p) then Some (coalesce 0 (row c) + coalesce 0 (d c)) else row c)"

definition update_derived :: "(string \<times> merge_expr) list \<Rightarrow> agg_row \<Rightarrow> agg_row" where
  "update_derived es row = fold (\<lambda>(c, e) row. row(c := eval_merge row (\<lambda>c. None) e)) es row"

definition run_simple :: "simple_program \<Rightarrow> unit delta_rows \<Rightarrow> agg_row \<Rightarrow> agg_row" where
  "run_simple p rows row = update_derived (simple_derived p) (update_sums p (delta_sum rows ()) row)"

section \<open>A bag of rows\<close>

definition CompileProjectionsFilters ::
  "duckdb_env \<Rightarrow> string \<Rightarrow> string list \<Rightarrow> string \<Rightarrow> string \<Rightarrow> bool \<Rightarrow> string + string" where
  "CompileProjectionsFilters E view_name names ts_filter catalog_prefix insert_only =
     (let data_table = catalog_prefix @ QuoteIdentifier E (DataTableName view_name);
          delta_view = catalog_prefix @ QuoteIdentifier E (DeltaName view_name);
          mul = MULTIPLICITY_COL;
          ts_where = (if ts_filter = [] then [] else '' WHERE '' @ ts_filter);
          columns = map (QuoteIdentifier E) (filter (\<lambda>c. c \<noteq> mul) names);
          select_columns = join_with '', '' columns;
          delete_candidate_columns = join_with '', '' (map (\<lambda>c. ''v.'' @ c @ '' AS '' @ c) columns);
          match_conditions = join_with '' AND '' (map (\<lambda>c. ''v.'' @ c @ '' IS NOT DISTINCT FROM d.'' @ c) columns);
          cte_body = ''SELECT '' @ select_columns @ line '','' @ ''    SUM('' @ mul @ line '') AS _net'' @ ''  FROM '' @ delta_view @
            line ts_where @ ''  GROUP BY '' @ line select_columns @ ''  HAVING SUM('' @ mul @ '') != 0''
      in if columns = [] then
           Inl (''Cannot compile projection refresh for materialized view '' @ [quote_char] @ view_name @ [quote_char] @
             '': delta view '' @ [quote_char] @ DeltaName view_name @ [quote_char] @ '' has no user-visible columns'')
         else if insert_only then
           Inr (''INSERT INTO '' @ data_table @ '' SELECT '' @ line select_columns @ ''FROM '' @ delta_view @
             '', generate_series(1, '' @ mul @ line ''::BIGINT)'' @
             (if ts_filter = [] then ''WHERE '' @ mul @ '' > 0'' else ts_where @ '' AND '' @ mul @ '' > 0'') @ line '';'')
         else
           Inr (line ''WITH openivm_net AS ('' @ ''  '' @ line cte_body @ line '')'' @ line '', openivm_delete_net AS ('' @
             line ''  SELECT * FROM openivm_net WHERE _net < 0'' @ line ''), openivm_delete_candidates AS ('' @
             ''  SELECT v.rowid, '' @ delete_candidate_columns @ line '', d._net'' @ ''  FROM '' @
             data_table @ '' v JOIN openivm_delete_net d ON '' @ line match_conditions @
             line ''), openivm_ranked_deletes AS ('' @ line ''  SELECT rowid, _net,'' @
             ''    ROW_NUMBER() OVER (PARTITION BY '' @ select_columns @ line '' ORDER BY rowid) AS _rn'' @
             line ''  FROM openivm_delete_candidates'' @ line '')'' @
             ''DELETE FROM '' @ data_table @ line '' WHERE rowid IN ('' @
             line ''  SELECT rowid FROM openivm_ranked_deletes WHERE _rn <= -_net'' @ line (line '');'') @
             line ''WITH openivm_net AS ('' @ ''  '' @ line cte_body @ line '')'' @
             ''INSERT INTO '' @ data_table @ '' SELECT '' @ line select_columns @
             line ''FROM openivm_net, generate_series(1, openivm_net._net::BIGINT)'' @ line ''WHERE openivm_net._net > 0;''))"

text \<open>A table is a list of row ids and rows. \<open>zcompact\<close> of the delta is the CTE, \<open>row_rank\<close> the window function.\<close>

definition row_rank :: "(nat \<times> 'r) list \<Rightarrow> nat \<times> 'r \<Rightarrow> int" where
  "row_rank table e = int (length (filter (\<lambda>(i, r). r = snd e \<and> i \<le> fst e) table))"

definition delete_net :: "('r \<times> int) list \<Rightarrow> (nat \<times> 'r) list \<Rightarrow> (nat \<times> 'r) list" where
  "delete_net net table =
     filter (\<lambda>e. case map_of net (snd e) of Some w \<Rightarrow> \<not> (w < 0 \<and> row_rank table e \<le> - w) | None \<Rightarrow> True) table"

definition copies :: "('r \<times> int) list \<Rightarrow> 'r list" where
  "copies net = concat (map (\<lambda>(r, w). replicate (nat w) r) net)"

text \<open>The rows that are inserted get row ids that the table does not have.\<close>

definition insert_rows :: "'r list \<Rightarrow> (nat \<times> 'r) list \<Rightarrow> (nat \<times> 'r) list" where
  "insert_rows rs table = table @ zip (map ((+) (Suc (Max (insert 0 (set (map fst table)))))) [0..<length rs]) rs"

definition apply_delta :: "'r zset \<Rightarrow> (nat \<times> 'r) list \<Rightarrow> (nat \<times> 'r) list" where
  "apply_delta z table =
     (let net = zcompact z in insert_rows (copies (filter (\<lambda>(r, w). 0 < w) net)) (delete_net net table))"

definition apply_inserts :: "'r zset \<Rightarrow> (nat \<times> 'r) list \<Rightarrow> (nat \<times> 'r) list" where
  "apply_inserts z table = insert_rows (copies (filter (\<lambda>(r, w). 0 < w) z)) table"

definition table_zset :: "(nat \<times> 'r) list \<Rightarrow> 'r zset" where
  "table_zset table = map (\<lambda>(i, r). (r, 1)) table"

end
