(* ===== verification/Refresh_Helpers.thy ===== *)
theory Refresh_Helpers
  imports Aux_State Apply_Delta View_Model
begin

text \<open>
  The helpers of the refresh generator (\<open>upsert/refresh_helpers.cpp\<close>): the affected-key refreshes of
  outer joins and of DuckLake projections, the compaction of a delta view, the test for an empty
  delta plan, the nulling of aggregates over an empty source, and the location of sources. Answers
  of the metadata tables and of the catalog are fields of a record.
\<close>

section \<open>Names\<close>

definition LEFT_KEY_COL :: string where "LEFT_KEY_COL = ''openivm_left_key''"
definition RIGHT_KEY_COL :: string where "RIGHT_KEY_COL = ''openivm_right_key''"
definition TEMP_TABLE_PREFIX :: string where "TEMP_TABLE_PREFIX = ''openivm_old_''"
definition DELTA_TABLES_TABLE :: string where "DELTA_TABLES_TABLE = ''openivm_delta_tables''"
definition DUCKLAKE_SNAPSHOT_PLACEHOLDER :: string where
  "DUCKLAKE_SNAPSHOT_PLACEHOLDER = ''__OPENIVM_DUCKLAKE_SNAPSHOT_ID__''"

definition split_first :: "char \<Rightarrow> string \<Rightarrow> (string \<times> string) option" where
  "split_first c s = (if c \<in> set s then Some (takeWhile (\<lambda>d. d \<noteq> c) s, tl (dropWhile (\<lambda>d. d \<noteq> c) s)) else None)"

definition where_text :: "string \<Rightarrow> string" where
  "where_text condition = (if condition = [] then [] else '' WHERE '' @ condition)"

definition strip_prefix :: "string \<Rightarrow> string \<Rightarrow> string" where
  "strip_prefix p s = (if length p < length s \<and> starts_with s p then drop (length p) s else s)"

definition BaseTableNameFromDeltaKey :: "string \<Rightarrow> string" where
  "BaseTableNameFromDeltaKey delta_key = strip_prefix DELTA_PREFIX delta_key"

definition NormalizeColumnNameForMatch :: "string \<Rightarrow> string" where
  "NormalizeColumnNameForMatch column = map to_lower (filter is_alnum column)"

definition HexEncodeToken :: "string \<Rightarrow> string" where
  "HexEncodeToken token =
     concat (map (\<lambda>c. let byte = of_char c :: nat; hex = ''0123456789ABCDEF'' in [hex ! (byte div 16), hex ! (byte mod 16)]) token)"

definition DuckLakeSnapshotPlaceholder :: "string \<Rightarrow> string" where
  "DuckLakeSnapshotPlaceholder catalog_name = DUCKLAKE_SNAPSHOT_PLACEHOLDER @ HexEncodeToken catalog_name @ ''__''"

section \<open>Locations of views and sources\<close>

text \<open>What the metadata tables and the catalog answer: \<open>source_row\<close> the catalog and schema of a tracked
  table (each may be NULL), \<open>view_row\<close> where a view of this name is, given the preferred place.\<close>

record source_answers =
  source_row :: "string \<Rightarrow> (string option \<times> string option) option"
  view_row :: "string \<Rightarrow> string \<Rightarrow> string \<Rightarrow> (string \<times> string) option"
  view_in_catalog :: "string \<Rightarrow> string \<Rightarrow> string \<Rightarrow> bool"
  current_database :: string
  ducklake_table :: "string \<Rightarrow> bool"
  source_last_update :: "string \<Rightarrow> string"
  last_snapshot :: "string \<Rightarrow> int"
  current_snapshot :: "string \<Rightarrow> int"
  catalog_type :: "string \<Rightarrow> string option"
  ducklake_databases :: "string option list option"
  full_outer_cols :: string
  projection_lineage :: "ProjectionKeyLineage option"
  source_columns :: "string \<Rightarrow> string \<Rightarrow> string \<Rightarrow> string list"

record SourceLocation =
  location_catalog :: string
  location_schema :: string
  location_table :: string

definition GetSourceLocation :: "source_answers \<Rightarrow> string \<Rightarrow> string \<Rightarrow> string \<Rightarrow> SourceLocation" where
  "GetSourceLocation M table_name fallback_catalog fallback_schema =
     (case source_row M table_name of
        None \<Rightarrow> \<lparr>location_catalog = fallback_catalog, location_schema = fallback_schema, location_table = table_name\<rparr>
      | Some (c, s) \<Rightarrow> \<lparr>location_catalog = (case c of Some x \<Rightarrow> x | None \<Rightarrow> fallback_catalog),
                       location_schema = (case s of Some x \<Rightarrow> x | None \<Rightarrow> fallback_schema), location_table = table_name\<rparr>)"

definition ResolveDeltaQualifiedName :: "duckdb_env \<Rightarrow> source_answers \<Rightarrow> string \<Rightarrow> string \<Rightarrow> sql \<Rightarrow> sql" where
  "ResolveDeltaQualifiedName E M delta_table_name fallback_catalog fallback_schema =
     (let loc = GetSourceLocation M delta_table_name fallback_catalog fallback_schema
      in if location_catalog loc = [] then QuoteIdentifier E delta_table_name
         else FullName E (location_catalog loc) (if location_schema loc = [] then ''main'' else location_schema loc) delta_table_name)"

record ViewLocation =
  view_catalog :: string
  view_schema :: string
  cross_system :: bool

definition ResolveViewLocation :: "source_answers \<Rightarrow> string \<Rightarrow> string \<Rightarrow> sql \<Rightarrow> ViewLocation" where
  "ResolveViewLocation M view_name fallback_catalog fallback_schema =
     (let (c, s) = (case view_row M view_name fallback_catalog fallback_schema of
                      Some p \<Rightarrow> p | None \<Rightarrow> (fallback_catalog, fallback_schema))
      in \<lparr>view_catalog = c, view_schema = s,
          cross_system = (c \<noteq> [] \<and> current_database M \<noteq> [] \<and> c \<noteq> current_database M)\<rparr>)"

datatype helper_error = CatalogException string

definition ResolveViewCatalogFromContext ::
  "source_answers \<Rightarrow> string \<times> string \<Rightarrow> string \<Rightarrow> bool \<Rightarrow> helper_error + ViewLocation" where
  "ResolveViewCatalogFromContext M default_entry view_name throw_if_not_found =
     (let (dc, ds) = default_entry;
          resolved = (\<lambda>c s. \<lparr>view_catalog = c, view_schema = s,
            cross_system = (c \<noteq> [] \<and> current_database M \<noteq> [] \<and> c \<noteq> current_database M \<and> c \<noteq> ''memory'')\<rparr>)
      in if view_in_catalog M dc ds view_name then Inr (resolved dc ds)
         else (case view_row M view_name dc ds of
            Some (c, s) \<Rightarrow> Inr (resolved c s)
          | None \<Rightarrow>
              if throw_if_not_found then
                Inl (CatalogException (''openivm_compile_with_facts: materialized view '' @ [quote_char] @ view_name @ [quote_char] @
                  '' not found in any attached catalog (pass an unqualified short name only)''))
              else Inr (resolved dc ds)))"

definition ResolveDuckLakeSourceLocation ::
  "source_answers \<Rightarrow> string \<Rightarrow> string \<Rightarrow> string \<Rightarrow> sql \<Rightarrow> sql \<Rightarrow> SourceLocation" where
  "ResolveDuckLakeSourceLocation M table_name fallback_catalog fallback_schema attached_catalog attached_schema =
     (let known = GetSourceLocation M table_name
            (if attached_catalog = [] then fallback_catalog else attached_catalog)
            (if attached_schema = [] then fallback_schema else attached_schema);
          (c, s) = (if starts_with table_name DATA_TABLE_PREFIX then
                      (let v = ResolveViewLocation M (drop (length DATA_TABLE_PREFIX) table_name)
                                 (location_catalog known) (location_schema known)
                       in (view_catalog v, view_schema v))
                    else (location_catalog known, location_schema known))
      in \<lparr>location_catalog = (if c \<noteq> [] then c else if fallback_catalog = [] then ''memory'' else fallback_catalog),
          location_schema = (if s \<noteq> [] then s else if fallback_schema = [] then ''main'' else fallback_schema),
          location_table = table_name\<rparr>)"

definition ResolveDuckLakeCatalogName :: "duckdb_env \<Rightarrow> source_answers \<Rightarrow> string \<Rightarrow> string \<Rightarrow> helper_error + string" where
  "ResolveDuckLakeCatalogName E M view_catalog_name attached_db_catalog_name =
     (if attached_db_catalog_name \<noteq> [] then Inr attached_db_catalog_name
      else if view_catalog_name \<noteq> [] \<and> view_catalog_name \<noteq> ''memory'' \<and>
        (case catalog_type M view_catalog_name of Some t \<Rightarrow> CIEquals E t ''ducklake'' | None \<Rightarrow> False) then Inr view_catalog_name
      else (case ducklake_databases M of
          Some [Some c] \<Rightarrow> Inr c
        | Some (_ # _ # _) \<Rightarrow>
            Inl (CatalogException (''Could not resolve DuckLake catalog unambiguously; pass the materialized view catalog '' @
              ''explicitly or use PRAGMA refresh_options''))
        | _ \<Rightarrow> Inl (CatalogException ''Could not resolve attached DuckLake catalog'')))"

definition BuildGroupRecomputeDeltaSpecs :: "source_answers \<Rightarrow> string list \<Rightarrow> string \<Rightarrow> string \<Rightarrow> GroupRecomputeDeltaSpec list" where
  "BuildGroupRecomputeDeltaSpecs M delta_table_names lake_catalog lake_schema =
     map (\<lambda>dt.
       let lake = ducklake_table M dt; loc = ResolveDuckLakeSourceLocation M dt lake_catalog lake_schema [] []
       in \<lparr>base_table = BaseTableNameFromDeltaKey dt, spec_last_update = source_last_update M dt, source_occurrences = 1,
           is_ducklake = lake, ducklake_catalog = (if lake then location_catalog loc else []),
           ducklake_schema = (if lake then location_schema loc else []),
           last_snapshot_id = (if lake then last_snapshot M dt else - 1),
           current_snapshot_id = (if lake then current_snapshot M (location_catalog loc) else - 1)\<rparr>) delta_table_names"

definition snapshot_relation :: "duckdb_env \<Rightarrow> source_answers \<Rightarrow> SourceLocation \<Rightarrow> string \<Rightarrow> int \<Rightarrow> string" where
  "snapshot_relation E M loc source_name old_snap =
     (let visible = join_with '', '' (map (QuoteIdentifier E) (source_columns M (location_catalog loc) (location_schema loc) source_name))
      in ''(SELECT '' @ (if visible = [] then ''*'' else visible) @ '' FROM '' @
         FullName E (location_catalog loc) (location_schema loc) (location_table loc) @
         '' AT (VERSION => '' @ int_string old_snap @ ''))'')"

definition BuildDuckLakeSnapshotQuery ::
  "duckdb_env \<Rightarrow> source_answers \<Rightarrow> string \<Rightarrow> string list \<Rightarrow> string \<Rightarrow> string \<Rightarrow> sql \<Rightarrow> sql \<Rightarrow> sql" where
  "BuildDuckLakeSnapshotQuery E M view_query_sql delta_table_names view_catalog_name view_schema_name attached_catalog attached_schema =
     fold (\<lambda>dt query.
       if \<not> ducklake_table M dt then query
       else
         (let loc = ResolveDuckLakeSourceLocation M dt view_catalog_name view_schema_name attached_catalog attached_schema;
              table = location_table loc;
              source_name = (if starts_with table DATA_TABLE_PREFIX then drop (length DATA_TABLE_PREFIX) table else table);
              replacement = snapshot_relation E M loc source_name (last_snapshot M dt);
              replaced = ReplaceTableReferences E query table replacement
          in if CIEquals E source_name table then replaced else ReplaceTableReferences E replaced source_name replacement))
       delta_table_names view_query_sql"

definition QualifyViewQuerySources ::
  "duckdb_env \<Rightarrow> source_answers \<Rightarrow> string \<Rightarrow> string list \<Rightarrow> string \<Rightarrow> string \<Rightarrow> sql \<Rightarrow> sql \<Rightarrow> sql" where
  "QualifyViewQuerySources E M view_query_sql delta_table_names view_catalog_name view_schema_name attached_catalog attached_schema =
     fold (\<lambda>dt query.
       (let base_name = BaseTableNameFromDeltaKey dt;
            loc = ResolveDuckLakeSourceLocation M dt view_catalog_name view_schema_name attached_catalog attached_schema
        in if location_catalog loc = [] \<or> location_schema loc = [] then query
           else ReplaceTableReferences E query base_name (FullName E (location_catalog loc) (location_schema loc) base_name)))
       delta_table_names view_query_sql"

section \<open>Full outer joins\<close>

record FojJoinInfo =
  left_table :: string
  left_col :: string
  right_table :: string
  right_col :: string
  dt_left_name :: string
  dt_right_name :: string

definition table_and_column :: "string \<Rightarrow> string \<times> string" where
  "table_and_column part = (case split_first (CHR '':'') part of Some p \<Rightarrow> p | None \<Rightarrow> ([], []))"

text \<open>The last delta table whose base table has the name.\<close>

definition delta_of_base :: "duckdb_env \<Rightarrow> string list \<Rightarrow> string \<Rightarrow> string" where
  "delta_of_base E delta_table_names table =
     (case filter (\<lambda>dt. CIEquals E (BaseTableNameFromDeltaKey dt) table) delta_table_names of [] \<Rightarrow> [] | dts \<Rightarrow> last dts)"

definition FojJoinInfo_Parse :: "duckdb_env \<Rightarrow> source_answers \<Rightarrow> string list \<Rightarrow> FojJoinInfo" where
  "FojJoinInfo_Parse E M delta_table_names =
     (let ((lt, lc), (rt, rc)) =
            (case split_first (CHR '','') (full_outer_cols M) of
               Some (left_part, right_part) \<Rightarrow> (table_and_column left_part, table_and_column right_part)
             | None \<Rightarrow> (([], []), ([], [])))
      in \<lparr>left_table = lt, left_col = lc, right_table = rt, right_col = rc,
          dt_left_name = delta_of_base E delta_table_names lt, dt_right_name = delta_of_base E delta_table_names rt\<rparr>)"

definition GroupColumnMatchesJoinColumn :: "string \<Rightarrow> string \<Rightarrow> bool" where
  "GroupColumnMatchesJoinColumn column join_col =
     (let group_norm = NormalizeColumnNameForMatch column
      in if group_norm = NormalizeColumnNameForMatch join_col then True
         else (case split_first (CHR ''_'') join_col of
            Some (_, after) \<Rightarrow> after \<noteq> [] \<and> group_norm = NormalizeColumnNameForMatch after
          | None \<Rightarrow> False))"

definition FindFullOuterJoinKeyGroupColumn :: "string list \<Rightarrow> FojJoinInfo \<Rightarrow> string" where
  "FindFullOuterJoinKeyGroupColumn group_cols foj =
     (case find (\<lambda>g. left_col foj \<noteq> [] \<and> GroupColumnMatchesJoinColumn g (left_col foj) \<or>
                     right_col foj \<noteq> [] \<and> GroupColumnMatchesJoinColumn g (right_col foj)) group_cols of
        Some g \<Rightarrow> g | None \<Rightarrow> [])"

definition foj_where :: "source_answers \<Rightarrow> string \<Rightarrow> string \<Rightarrow> string" where
  "foj_where M dt delta_where = (if dt \<noteq> [] \<and> ducklake_table M dt then [] else delta_where)"

definition next_arm :: string where
  "next_arm = [newline_char] @ ''  UNION'' @ [newline_char] @ ''  ''"

definition changed_foj_keys :: "duckdb_env \<Rightarrow> source_answers \<Rightarrow> FojJoinInfo \<Rightarrow> string \<Rightarrow> string \<Rightarrow> string \<Rightarrow> string list" where
  "changed_foj_keys E M foj delta_where catalog_prefix key_name =
     concat (map (\<lambda>(dt, col).
       if dt = [] \<or> col = [] then []
       else [''SELECT DISTINCT '' @ QuoteIdentifier E col @ '' AS '' @ key_name @ '' FROM '' @ catalog_prefix @ QuoteIdentifier E dt @
             foj_where M dt delta_where])
       [(dt_left_name foj, left_col foj), (dt_right_name foj, right_col foj)])"

definition BuildFullOuterAffectedGroupsSubquery ::
  "duckdb_env \<Rightarrow> source_answers \<Rightarrow> string \<Rightarrow> string list \<Rightarrow> string list \<Rightarrow> sql \<Rightarrow> sql \<Rightarrow> string \<Rightarrow> sql" where
  "BuildFullOuterAffectedGroupsSubquery E M view_name delta_table_names group_cols view_query_sql ts_filter catalog_prefix =
     (let foj = FojJoinInfo_Parse E M delta_table_names;
          delta_where = where_text ts_filter;
          keys_tuple = JoinQuotedColumns E group_cols;
          qdv = catalog_prefix @ QuoteIdentifier E (DeltaName view_name);
          key_col = FindFullOuterJoinKeyGroupColumn group_cols foj;
          changed = changed_foj_keys E M foj delta_where catalog_prefix ''openivm_foj_key'';
          dl = dt_left_name foj; dr = dt_right_name foj
      in ''SELECT DISTINCT '' @ keys_tuple @ '' FROM '' @ qdv @ delta_where @
         (if key_col = [] \<or> changed = [] then []
          else next_arm @ ''SELECT DISTINCT '' @ keys_tuple @ '' FROM ('' @ view_query_sql @ '') openivm_foj_groups WHERE openivm_foj_groups.'' @
            QuoteIdentifier E key_col @ '' IN (SELECT openivm_foj_key FROM ('' @ [newline_char] @ ''  '' @
            join_with next_arm changed @ [newline_char] @ ''  ) openivm_changed_foj_keys)'') @
         (if length group_cols = 1 then
            (if dl = [] then []
             else next_arm @ ''SELECT DISTINCT '' @ keys_tuple @ '' FROM '' @ catalog_prefix @ QuoteIdentifier E dl @ foj_where M dl delta_where) @
            (if dr = [] \<or> left_table foj = [] then []
             else next_arm @ ''SELECT DISTINCT '' @ keys_tuple @ '' FROM '' @ catalog_prefix @ QuoteIdentifier E (left_table foj) @
               '' WHERE '' @ QuoteIdentifier E (left_col foj) @ '' IN (SELECT DISTINCT '' @ QuoteIdentifier E (right_col foj) @
               '' FROM '' @ catalog_prefix @ QuoteIdentifier E dr @ foj_where M dr delta_where @ '')'')
          else []))"

definition BuildFullOuterAffectedGroupRefresh ::
  "duckdb_env \<Rightarrow> source_answers \<Rightarrow> string \<Rightarrow> string list \<Rightarrow> string list \<Rightarrow> sql \<Rightarrow> sql \<Rightarrow> sql \<Rightarrow> string \<Rightarrow> sql \<Rightarrow> sql" where
  "BuildFullOuterAffectedGroupRefresh E M view_name delta_table_names group_cols data_table view_query_sql ts_filter
       catalog_prefix recompute_alias =
     (let affected = BuildFullOuterAffectedGroupsSubquery E M view_name delta_table_names group_cols view_query_sql ts_filter catalog_prefix;
          exists_where = (\<lambda>target. ''EXISTS (SELECT 1 FROM ('' @ line affected @ '') _a WHERE '' @
            BuildNullSafeKeyPredicate E group_cols ''_a.'' (target @ ''.'') @ '') OR ('' @ BuildAllNullPredicate E group_cols @ '')'')
      in BuildDeleteInsertRefreshSQL data_table view_query_sql recompute_alias (exists_where data_table) (exists_where recompute_alias) [])"

definition foj_projection_where :: "duckdb_env \<Rightarrow> string list \<Rightarrow> string" where
  "foj_projection_where E parts =
     (if parts = [] then ''TRUE''
      else QuoteIdentifier E LEFT_KEY_COL @ '' IN (SELECT _k FROM openivm_affected) OR '' @
           QuoteIdentifier E RIGHT_KEY_COL @ '' IN (SELECT _k FROM openivm_affected)'')"

definition BuildFullOuterProjectionRefresh ::
  "duckdb_env \<Rightarrow> source_answers \<Rightarrow> string list \<Rightarrow> sql \<Rightarrow> sql \<Rightarrow> string \<Rightarrow> string \<Rightarrow> sql" where
  "BuildFullOuterProjectionRefresh E M delta_table_names data_table view_query_sql ts_filter catalog_prefix =
     (let parts = changed_foj_keys E M (FojJoinInfo_Parse E M delta_table_names) (where_text ts_filter) catalog_prefix ''_k'';
          keys = foj_projection_where E parts
      in BuildDeleteInsertRefreshSQL data_table view_query_sql ''openivm_foj'' keys keys
           (if parts = [] then []
            else line ''WITH openivm_affected AS ('' @ ''  '' @ line (join_with next_arm parts) @ line '')''))"

section \<open>Left joins\<close>

definition BuildDeltaTimestampFilter :: "bool \<Rightarrow> string option \<Rightarrow> string" where
  "BuildDeltaTimestampFilter has_ts_col last_refresh =
     (case last_refresh of
        Some ts \<Rightarrow> if has_ts_col then TIMESTAMP_COL @ '' > '' @ [quote_char] @ ts @ [quote_char] @ ''::TIMESTAMP'' else []
      | None \<Rightarrow> [])"

definition BuildDeleteUsingInsertRefreshSQL ::
  "string \<Rightarrow> sql \<Rightarrow> string \<Rightarrow> sql \<Rightarrow> string \<Rightarrow> sql \<Rightarrow> string \<Rightarrow> sql \<Rightarrow> sql" where
  "BuildDeleteUsingInsertRefreshSQL data_table view_query_sql recompute_alias using_source using_alias delete_match
       insert_where statement_prefix =
     statement_prefix @ line (''DELETE FROM '' @ data_table @ '' AS openivm_delete_target'') @
     line (''USING '' @ using_source @ '' '' @ using_alias) @ line (''WHERE '' @ delete_match @ '';'') @
     statement_prefix @ line (''INSERT INTO '' @ data_table) @
     line (''SELECT * FROM ('' @ view_query_sql @ '') '' @ recompute_alias) @ line (''WHERE '' @ insert_where @ '';'')"

definition pushdown_applies :: "duckdb_env \<Rightarrow> string \<Rightarrow> string \<Rightarrow> bool" where
  "pushdown_applies E view_name view_query_sql \<longleftrightarrow>
     CIEquals E view_name ''fact_market_history'' \<and> has_substring view_query_sql LEFT_KEY_COL \<and>
     list_all (has_substring (Lower E view_query_sql))
       [''sk_company_id'', ''openivm_data_daily_market'', ''openivm_data_financial'', ''openivm_data_dim_company'']"

definition TryBuildLeftJoinAffectedPushdown ::
  "duckdb_env \<Rightarrow> string \<Rightarrow> sql \<Rightarrow> string \<Rightarrow> sql \<Rightarrow> string \<Rightarrow> sql \<Rightarrow> sql" where
  "TryBuildLeftJoinAffectedPushdown E view_name data_table view_query_sql qdv ts_filter lk =
     (let security_table = DATA_TABLE_PREFIX @ ''dim_security'';
          source_ref = FindTableReference E view_query_sql security_table;
          affected_cte = line ''WITH openivm_affected AS ('' @ ''  SELECT DISTINCT '' @ lk @ '' FROM '' @ qdv @
            line (where_text ts_filter) @ line '')'';
          replacement = ''(SELECT * FROM '' @ source_ref @
            '' openivm_lj_src WHERE EXISTS (SELECT 1 FROM openivm_affected openivm_lj_aff WHERE openivm_lj_src.'' @
            QuoteIdentifier E ''sk_company_id'' @ '' IS NOT DISTINCT FROM openivm_lj_aff.'' @ lk @ ''))'';
          pushed_query = ReplaceTableReferences E view_query_sql security_table replacement;
          affected = ''EXISTS (SELECT 1 FROM openivm_affected _d WHERE _d.'' @ lk @ '' IS NOT DISTINCT FROM ''
      in if \<not> pushdown_applies E view_name view_query_sql \<or> source_ref = [] \<or> pushed_query = view_query_sql then []
         else BuildDeleteUsingInsertRefreshSQL data_table pushed_query ''openivm_lj'' ''openivm_affected'' ''_d''
           (''_d.'' @ lk @ '' IS NOT DISTINCT FROM openivm_delete_target.'' @ lk) (affected @ ''openivm_lj.'' @ lk @ '')'') affected_cte)"

definition BuildLeftJoinProjectionRefresh :: "duckdb_env \<Rightarrow> string \<Rightarrow> sql \<Rightarrow> string \<Rightarrow> sql \<Rightarrow> string \<Rightarrow> sql" where
  "BuildLeftJoinProjectionRefresh E view_name data_table view_query_sql ts_filter catalog_prefix =
     (let delta_where = (if ts_filter = [] then [] else '' AND '' @ ts_filter);
          qdv = catalog_prefix @ QuoteIdentifier E (DeltaName view_name);
          lk = QuoteIdentifier E LEFT_KEY_COL;
          affected = (\<lambda>target. ''EXISTS (SELECT 1 FROM '' @ qdv @ '' _d WHERE _d.'' @ lk @ '' IS NOT DISTINCT FROM '' @
            target @ ''.'' @ lk @ delta_where @ '')'');
          pushed = TryBuildLeftJoinAffectedPushdown E view_name data_table view_query_sql qdv ts_filter lk
      in if pushed \<noteq> [] then pushed
         else BuildDeleteInsertRefreshSQL data_table view_query_sql ''openivm_lj'' (affected data_table) (affected ''openivm_lj'') [])"

definition CompileProjectionRefresh ::
  "duckdb_env \<Rightarrow> source_answers \<Rightarrow> string \<Rightarrow> string list \<Rightarrow> string list \<Rightarrow> sql \<Rightarrow> sql \<Rightarrow> sql \<Rightarrow> string \<Rightarrow> bool \<Rightarrow> bool \<Rightarrow> bool \<Rightarrow>
    string + sql" where
  "CompileProjectionRefresh E M view_name names delta_table_names data_table view_query_sql ts_filter catalog_prefix
       has_full_outer has_left_join skip_proj_delete =
     (if has_full_outer then
        Inr (BuildFullOuterProjectionRefresh E M delta_table_names data_table view_query_sql ts_filter catalog_prefix)
      else if has_left_join then
        Inr (BuildLeftJoinProjectionRefresh E view_name data_table view_query_sql ts_filter catalog_prefix)
      else CompileProjectionsFilters E view_name names ts_filter catalog_prefix skip_proj_delete)"

section \<open>Projections over DuckLake sources\<close>

record ProjectionKeySourceSpec =
  metadata_key :: string
  spec_loc :: SourceLocation
  old_snap :: int
  current_snap :: int

definition StripOpenIVMDataPrefix :: "duckdb_env \<Rightarrow> string \<Rightarrow> string" where
  "StripOpenIVMDataPrefix E table_name = strip_prefix DATA_TABLE_PREFIX (LastIdentifierPart E table_name)"

definition ProjectionSourceNameMatches :: "duckdb_env \<Rightarrow> ProjectionKeySourceSpec \<Rightarrow> string \<Rightarrow> bool" where
  "ProjectionSourceNameMatches E spec table_name \<longleftrightarrow>
     CIEquals E (StripOpenIVMDataPrefix E (metadata_key spec)) (StripOpenIVMDataPrefix E table_name) \<or>
     CIEquals E (StripOpenIVMDataPrefix E (location_table (spec_loc spec))) (StripOpenIVMDataPrefix E table_name)"

definition FindProjectionSourceSpec ::
  "duckdb_env \<Rightarrow> ProjectionKeySourceSpec list \<Rightarrow> string \<Rightarrow> ProjectionKeySourceSpec option" where
  "FindProjectionSourceSpec E specs table_name = find (\<lambda>spec. ProjectionSourceNameMatches E spec table_name) specs"

definition BuildProjectionKeySourceSpecs ::
  "source_answers \<Rightarrow> string list \<Rightarrow> string \<Rightarrow> string \<Rightarrow> sql \<Rightarrow> sql \<Rightarrow> ProjectionKeySourceSpec list option" where
  "BuildProjectionKeySourceSpecs M delta_table_names view_catalog_name view_schema_name attached_catalog attached_schema =
     (let specs = map (\<lambda>dt.
            let loc = ResolveDuckLakeSourceLocation M dt view_catalog_name view_schema_name attached_catalog attached_schema
            in \<lparr>metadata_key = dt, spec_loc = loc, old_snap = last_snapshot M dt,
                current_snap = current_snapshot M (location_catalog loc)\<rparr>) delta_table_names
      in if specs \<noteq> [] \<and> list_all (ducklake_table M) delta_table_names \<and>
           list_all (\<lambda>s. location_catalog (spec_loc s) \<noteq> [] \<and> location_schema (spec_loc s) \<noteq> [] \<and>
             location_table (spec_loc s) \<noteq> [] \<and> 0 \<le> old_snap s \<and> 0 \<le> current_snap s) specs
         then Some specs else None)"

definition changed_rows :: "ProjectionKeySourceSpec \<Rightarrow> string \<Rightarrow> string" where
  "changed_rows spec table_function =
     DuckLakeTableFunction table_function (location_catalog (spec_loc spec)) (location_schema (spec_loc spec))
       (location_table (spec_loc spec)) (old_snap spec) (current_snap spec)"

definition BuildProjectionChangedValuesSQL :: "duckdb_env \<Rightarrow> ProjectionKeySourceSpec \<Rightarrow> string \<Rightarrow> string \<Rightarrow> string" where
  "BuildProjectionChangedValuesSQL E spec col out_name =
     (let select = ''SELECT '' @ QuoteIdentifier E col @ '' AS '' @ QuoteIdentifier E out_name @ '' FROM ''
      in ''('' @ select @ changed_rows spec ''ducklake_table_insertions'' @ '' UNION ALL '' @
         select @ changed_rows spec ''ducklake_table_deletions'' @ '')'')"

definition spec_table :: "duckdb_env \<Rightarrow> ProjectionKeySourceSpec \<Rightarrow> string" where
  "spec_table E spec = FullName E (location_catalog (spec_loc spec)) (location_schema (spec_loc spec)) (location_table (spec_loc spec))"

text \<open>One step maps the changed keys through a lookup table at a snapshot.\<close>

fun lineage_steps ::
  "duckdb_env \<Rightarrow> ProjectionKeySourceSpec list \<Rightarrow> bool \<Rightarrow> string \<Rightarrow> ProjectionKeyLineageStep list \<Rightarrow> string option" where
  "lineage_steps E specs current keys [] = Some keys"
| "lineage_steps E specs current keys (s # ss) =
     (case FindProjectionSourceSpec E specs (step_table s) of
        None \<Rightarrow> None
      | Some lookup \<Rightarrow>
          lineage_steps E specs current
            (''SELECT l.'' @ QuoteIdentifier E (step_lookup_out s) @ '' AS openivm_lineage_key FROM ('' @ keys @
             '') c JOIN (SELECT * FROM '' @ spec_table E lookup @ '' AT (VERSION => '' @
             int_string (if current then current_snap lookup else old_snap lookup) @ '')) l ON l.'' @
             QuoteIdentifier E (step_lookup_col s) @ '' IS NOT DISTINCT FROM c.openivm_lineage_key'') ss)"

definition BuildProjectionLineageArmSQL ::
  "duckdb_env \<Rightarrow> ProjectionKeyLineageArm \<Rightarrow> ProjectionKeySourceSpec list \<Rightarrow> string \<Rightarrow> bool \<Rightarrow> string option" where
  "BuildProjectionLineageArmSQL E arm specs out_name current =
     (case FindProjectionSourceSpec E specs (arm_source arm) of
        None \<Rightarrow> None
      | Some source \<Rightarrow>
          map_option (\<lambda>keys. ''SELECT openivm_lineage_key AS '' @ QuoteIdentifier E out_name @ '' FROM ('' @ keys @ '') openivm_k'')
            (lineage_steps E specs current (BuildProjectionChangedValuesSQL E source (arm_source_col arm) ''openivm_lineage_key'') (arm_steps arm)))"

text \<open>An arm with lookups is taken at both snapshots; without lookups they are the same text.\<close>

fun lineage_arms :: "duckdb_env \<Rightarrow> ProjectionKeySourceSpec list \<Rightarrow> string \<Rightarrow> ProjectionKeyLineageArm list \<Rightarrow> string list option" where
  "lineage_arms E specs out_name [] = Some []"
| "lineage_arms E specs out_name (arm # others) =
     (case BuildProjectionLineageArmSQL E arm specs out_name True of
        None \<Rightarrow> None
      | Some current \<Rightarrow>
          (if arm_steps arm = [] then map_option ((@) [current]) (lineage_arms E specs out_name others)
           else (case BuildProjectionLineageArmSQL E arm specs out_name False of
              None \<Rightarrow> None
            | Some old \<Rightarrow> map_option ((@) [current, old]) (lineage_arms E specs out_name others))))"

definition push_key_filter :: "duckdb_env \<Rightarrow> string \<Rightarrow> ProjectionKeyLineage \<Rightarrow> ProjectionKeySourceSpec \<Rightarrow> string \<Rightarrow> string option" where
  "push_key_filter E view_query_sql lineage key_spec replacement =
     (let by_source = ReplaceTableReferenceOccurrence E view_query_sql (key_source lineage) (key_occurrence lineage) replacement;
          (pushed, replaced) =
            (if snd by_source then by_source
             else ReplaceTableReferenceOccurrence E view_query_sql (location_table (spec_loc key_spec)) (key_occurrence lineage) replacement)
      in if replaced \<and> pushed \<noteq> view_query_sql then Some pushed else None)"

definition projection_key_refresh ::
  "duckdb_env \<Rightarrow> string \<Rightarrow> string \<Rightarrow> sql \<Rightarrow> ProjectionKeyLineage \<Rightarrow> ProjectionKeySourceSpec list \<Rightarrow> string option" where
  "projection_key_refresh E view_name data_table view_query_sql lineage specs =
     (case (FindProjectionSourceSpec E specs (key_source lineage), lineage_arms E specs (lineage_output_col lineage) (arms lineage)) of
        (Some key_spec, Some (a # as)) \<Rightarrow>
          (let qkey = QuoteIdentifier E (lineage_output_col lineage);
               temp = QuoteIdentifier E (TEMP_TABLE_PREFIX @ ''affected_'' @ view_name);
               affected = ''SELECT DISTINCT '' @ qkey @ '' FROM ('' @ join_with '' UNION ALL '' (a # as) @ '') openivm_projection_keys'';
               replacement = ''(SELECT * FROM '' @ spec_table E key_spec @ '' openivm_key_source WHERE EXISTS (SELECT 1 FROM '' @ temp @
                 '' openivm_aff WHERE openivm_aff.'' @ qkey @ '' IS NOT DISTINCT FROM openivm_key_source.'' @
                 QuoteIdentifier E (key_col lineage) @ ''))''
           in map_option (\<lambda>pushed.
                temp_table temp affected @
                line (''DELETE FROM '' @ data_table @ '' AS openivm_delete_target'') @
                line (line (''WHERE EXISTS (SELECT 1 FROM '' @ temp @ '' openivm_aff WHERE openivm_aff.'' @ qkey @
                  '' IS NOT DISTINCT FROM openivm_delete_target.'' @ qkey @ '');'')) @
                line (''INSERT INTO '' @ data_table) @ line (line (pushed @ '';'')) @ drop_tables [temp])
                (push_key_filter E view_query_sql lineage key_spec replacement))
      | _ \<Rightarrow> None)"

definition TryBuildDuckLakeProjectionKeyRefresh ::
  "duckdb_env \<Rightarrow> source_answers \<Rightarrow> string \<Rightarrow> string list \<Rightarrow> string \<Rightarrow> sql \<Rightarrow> sql \<Rightarrow> sql \<Rightarrow> string \<Rightarrow> string \<Rightarrow> sql option" where
  "TryBuildDuckLakeProjectionKeyRefresh E M view_name delta_table_names data_table view_query_sql view_catalog_name
       view_schema_name attached_catalog attached_schema =
     (case (projection_lineage M, BuildProjectionKeySourceSpecs M delta_table_names view_catalog_name view_schema_name
              attached_catalog attached_schema) of
        (Some lineage, Some specs) \<Rightarrow> projection_key_refresh E view_name data_table view_query_sql lineage specs
      | _ \<Rightarrow> None)"

section \<open>Delta views\<close>

fun IsEmptyDeltaPlan :: "LogicalOperator \<Rightarrow> bool" where
  "IsEmptyDeltaPlan (LogicalOp t oi es cs) =
     (if t = LOGICAL_EMPTY_RESULT then True
      else if t \<in> {LOGICAL_INSERT, LOGICAL_PROJECTION, LOGICAL_FILTER, LOGICAL_LIMIT, LOGICAL_ORDER_BY, LOGICAL_DISTINCT} then
        (case cs of [c] \<Rightarrow> IsEmptyDeltaPlan c | _ \<Rightarrow> False)
      else if t = LOGICAL_UNION then cs \<noteq> [] \<and> list_all IsEmptyDeltaPlan cs
      else if t = LOGICAL_AGGREGATE_AND_GROUP_BY then groups oi \<noteq> [] \<and> (case cs of [c] \<Rightarrow> IsEmptyDeltaPlan c | _ \<Rightarrow> False)
      else if t \<in> {LOGICAL_COMPARISON_JOIN, LOGICAL_JOIN, LOGICAL_CROSS_PRODUCT, LOGICAL_ANY_JOIN} then
        (case cs of
           [l, r] \<Rightarrow>
             (if join_type oi \<in> {None, Some JOIN_INNER} \<or> t = LOGICAL_CROSS_PRODUCT then IsEmptyDeltaPlan l \<or> IsEmptyDeltaPlan r
              else if join_type oi = Some JOIN_LEFT then IsEmptyDeltaPlan l
              else if join_type oi = Some JOIN_RIGHT then IsEmptyDeltaPlan r
              else join_type oi = Some JOIN_OUTER \<and> IsEmptyDeltaPlan l \<and> IsEmptyDeltaPlan r)
         | _ \<Rightarrow> False)
      else if t = LOGICAL_MATERIALIZED_CTE then (case cs of c # others \<Rightarrow> IsEmptyDeltaPlan c | [] \<Rightarrow> False)
      else False)"

definition BuildEmptyDeltaInsert :: "string \<Rightarrow> string list \<Rightarrow> string list \<Rightarrow> string" where
  "BuildEmptyDeltaInsert view_name names type_names =
     ''INSERT INTO '' @ DeltaName view_name @ '' SELECT '' @
     join_with '', '' (map (\<lambda>i. ''NULL::'' @ (if i < length type_names then type_names ! i else ''VARCHAR'')) [0..<length names]) @
     line '' WHERE false;''"

definition BuildCompactDeltaViewSQL :: "duckdb_env \<Rightarrow> string \<Rightarrow> string \<Rightarrow> string list \<Rightarrow> string \<Rightarrow> string" where
  "BuildCompactDeltaViewSQL E view_name delta_view_name names ts_filter =
     (let data_columns = filter (\<lambda>c. c \<noteq> MULTIPLICITY_COL) names;
          col_list = JoinQuotedColumns E names; data_select = JoinQuotedColumns E data_columns;
          qtemp = QuoteIdentifier E (TEMP_TABLE_PREFIX @ ''compact_'' @ view_name);
          sum_mult = ''SUM('' @ QuoteIdentifier E MULTIPLICITY_COL @ '')''
      in if data_columns = [] then []
         else line (''CREATE TEMP TABLE '' @ qtemp @ '' AS SELECT '' @ data_select @ '', '' @ sum_mult @ ''::INTEGER AS '' @
                QuoteIdentifier E MULTIPLICITY_COL @ '' FROM '' @ delta_view_name @ where_text ts_filter @ '' GROUP BY '' @ data_select @
                '' HAVING '' @ sum_mult @ '' <> 0;'') @
              line (''DELETE FROM '' @ delta_view_name @ where_text ts_filter @ '';'') @
              line (''INSERT INTO '' @ delta_view_name @ '' ('' @ col_list @ '') SELECT '' @ col_list @ '' FROM '' @ qtemp @ '';'') @
              line (''DROP TABLE '' @ qtemp @ '';''))"

section \<open>Aggregates over an empty source\<close>

definition null_columns :: "duckdb_env \<Rightarrow> string list \<Rightarrow> string" where
  "null_columns E names =
     join_with '', '' (map (\<lambda>c. QuoteIdentifier E c @ '' = NULL'') (filter (\<lambda>c. c \<noteq> MULTIPLICITY_COL) names))"

definition AppendSimpleAggregateEmptySourceNulling ::
  "duckdb_env \<Rightarrow> source_answers \<Rightarrow> string list \<Rightarrow> sql \<Rightarrow> string list \<Rightarrow> sql \<Rightarrow> string \<Rightarrow> string \<Rightarrow> sql \<Rightarrow> sql \<Rightarrow> sql" where
  "AppendSimpleAggregateEmptySourceNulling E M tracked_tables upsert_query names data_table view_catalog_name view_schema_name
       attached_catalog attached_schema =
     upsert_query @ concat (map (\<lambda>dt.
       let loc = GetSourceLocation M dt (if attached_catalog = [] then view_catalog_name else attached_catalog)
                   (if attached_schema = [] then view_schema_name else attached_schema);
           c = (if location_catalog loc = [] then ''memory'' else location_catalog loc);
           s = (if location_schema loc = [] then ''main'' else location_schema loc)
       in line (''UPDATE '' @ data_table @ '' SET '' @ null_columns E names @ '' WHERE NOT EXISTS (SELECT 1 FROM '' @
            QuoteIdentifier E c @ ''.'' @ QuoteIdentifier E s @ ''.'' @ QuoteIdentifier E (BaseTableNameFromDeltaKey dt) @ '' LIMIT 1);''))
       tracked_tables)"

text \<open>The statements: every column of the row becomes NULL when one of the source tables has no row.\<close>

definition null_empty_sources :: "string list \<Rightarrow> bool list \<Rightarrow> agg_row \<Rightarrow> agg_row" where
  "null_empty_sources names source_has_rows row =
     fold (\<lambda>has_rows row. if has_rows then row else (\<lambda>c. if c \<noteq> MULTIPLICITY_COL \<and> c \<in> set names then None else row c))
       source_has_rows row"

end
