(* ===== verification/Aux_Steps.thy ===== *)
theory Aux_Steps
  imports Aux_State Apply_Delta
begin

text \<open>
  What the statements of \<open>upsert/refresh_compiler_aux.cpp\<close> do to the tables they name, one definition
  for each statement, in the order of the text. Tables with a key are maps or lists with one entry
  for each key, deltas are lists of rows with a weight.
\<close>

section \<open>Distinct rows below an aggregate\<close>

text \<open>\<open>source\<close> computes the distinct columns of a base row, \<open>p\<close> is the filter, \<open>arg\<close> the argument of the sum.\<close>

definition distinct_input :: "('r \<Rightarrow> bool) \<Rightarrow> ('r \<Rightarrow> 'd) \<Rightarrow> 'r zset \<Rightarrow> 'd zset" where
  "distinct_input p source delta = zcompact (zmap source (zfilter p delta))"

definition aux_count :: "('d \<Rightarrow> int option) \<Rightarrow> 'd \<Rightarrow> int" where
  "aux_count aux d = (case aux d of Some n \<Rightarrow> n | None \<Rightarrow> 0)"

definition ddist :: "('d \<Rightarrow> int option) \<Rightarrow> 'd zset \<Rightarrow> 'd zset" where
  "ddist aux dinput =
     filter (\<lambda>(d, dd). dd \<noteq> 0)
       (map (\<lambda>(d, w). (d, if aux_count aux d = 0 \<and> 0 < w then 1
                           else if 0 < aux_count aux d \<and> aux_count aux d + w \<le> 0 then - 1 else 0)) dinput)"

text \<open>SUM ignores NULL and gives NULL when nothing is left.\<close>

definition dagg_sum :: "('d \<Rightarrow> real option) \<Rightarrow> 'd zset \<Rightarrow> real option" where
  "dagg_sum arg dds = (if \<forall>(d, dd) \<in> set dds. arg d = None then None else Some (total_of dds (\<lambda>x. x) arg))"

definition dagg_count :: "'d zset \<Rightarrow> int" where
  "dagg_count dds = zsum dds (\<lambda>d. 1)"

type_synonym 'k distinct_view = "'k \<Rightarrow> (real option \<times> int) option"

definition merge_dagg :: "('d \<Rightarrow> 'k) \<Rightarrow> ('d \<Rightarrow> real option) \<Rightarrow> 'd zset \<Rightarrow> 'k distinct_view \<Rightarrow> 'k distinct_view" where
  "merge_dagg g arg dds view k =
     (let dd = zgroup g k dds; d_sum = dagg_sum arg dd; d_count = dagg_count dd
      in if dd = [] then view k
         else case view k of
             Some (s, n) \<Rightarrow> Some (map_option (\<lambda>x. coalesce 0 s + x) d_sum, n + d_count)
           | None \<Rightarrow> Some (d_sum, d_count))"

definition delete_counts :: "'k distinct_view \<Rightarrow> 'k distinct_view" where
  "delete_counts view k = (case view k of Some (s, n) \<Rightarrow> if n \<le> 0 then None else Some (s, n) | None \<Rightarrow> None)"

definition merge_distinct_aux :: "'d zset \<Rightarrow> ('d \<Rightarrow> int option) \<Rightarrow> 'd \<Rightarrow> int option" where
  "merge_distinct_aux dinput aux d =
     (case map_of dinput d of
        None \<Rightarrow> aux d
      | Some w \<Rightarrow> (case aux d of Some n \<Rightarrow> Some (n + w) | None \<Rightarrow> if 0 < w then Some w else None))"

definition delete_aux :: "('d \<Rightarrow> int option) \<Rightarrow> 'd \<Rightarrow> int option" where
  "delete_aux aux d = (case aux d of Some n \<Rightarrow> if n \<le> 0 then None else Some n | None \<Rightarrow> None)"

definition distinct_refresh ::
  "('r \<Rightarrow> bool) \<Rightarrow> ('r \<Rightarrow> 'd) \<Rightarrow> ('d \<Rightarrow> 'k) \<Rightarrow> ('d \<Rightarrow> real option) \<Rightarrow> 'r zset \<Rightarrow>
    ('d \<Rightarrow> int option) \<times> 'k distinct_view \<Rightarrow> ('d \<Rightarrow> int option) \<times> 'k distinct_view" where
  "distinct_refresh p source g arg delta state =
     (let (aux, view) = state; dinput = distinct_input p source delta
      in (delete_aux (merge_distinct_aux dinput aux), delete_counts (merge_dagg g arg (ddist aux dinput) view)))"

section \<open>Counts of filtered groups\<close>

definition sql_compare :: "string \<Rightarrow> real \<Rightarrow> real \<Rightarrow> bool" where
  "sql_compare comparison_op threshold x =
     (if comparison_op = ''<'' then x < threshold else if comparison_op = ''>'' then threshold < x
      else if comparison_op = ''<='' then x \<le> threshold else if comparison_op = ''>='' then threshold \<le> x
      else if comparison_op = ''='' then x = threshold else x \<noteq> threshold)"

definition group_sums :: "('r \<Rightarrow> 'g) \<Rightarrow> ('r \<Rightarrow> real option) \<Rightarrow> 'r zset \<Rightarrow> ('g \<times> real) list" where
  "group_sums g arg delta =
     filter (\<lambda>(k, s). s \<noteq> 0) (map (\<lambda>k. (k, total_of (zgroup g k delta) (\<lambda>x. x) arg)) (remdups (map (g \<circ> fst) delta)))"

text \<open>A row of the auxiliary table may hold NULL.\<close>

type_synonym 'g sum_table = "'g \<Rightarrow> real option option"

definition aux_sum :: "'g sum_table \<Rightarrow> 'g \<Rightarrow> real" where
  "aux_sum aux k = (case aux k of Some s \<Rightarrow> coalesce 0 s | None \<Rightarrow> 0)"

definition transition :: "(real \<Rightarrow> bool) \<Rightarrow> 'g sum_table \<Rightarrow> ('g \<times> real) list \<Rightarrow> int" where
  "transition visible aux dsums =
     (\<Sum>(k, s) \<leftarrow> dsums. of_bool (visible (aux_sum aux k + s)) - of_bool (visible (aux_sum aux k)))"

definition merge_sums :: "('g \<times> real) list \<Rightarrow> 'g sum_table \<Rightarrow> 'g sum_table" where
  "merge_sums dsums aux k =
     (case map_of dsums k of
        None \<Rightarrow> aux k
      | Some s \<Rightarrow> (case aux k of Some old \<Rightarrow> Some (Some (coalesce 0 old + s)) | None \<Rightarrow> Some (Some s)))"

definition delete_sums :: "'g sum_table \<Rightarrow> 'g sum_table" where
  "delete_sums aux k = (if aux k = Some (Some 0) then None else aux k)"

definition filtered_refresh ::
  "(real \<Rightarrow> bool) \<Rightarrow> ('r \<Rightarrow> 'g) \<Rightarrow> ('r \<Rightarrow> real option) \<Rightarrow> 'r zset \<Rightarrow> 'g sum_table \<times> int option \<Rightarrow> 'g sum_table \<times> int option" where
  "filtered_refresh visible g arg delta state =
     (let (aux, count) = state; dsums = group_sums g arg delta
      in (delete_sums (merge_sums dsums aux),
          Some ((case count of Some n \<Rightarrow> n | None \<Rightarrow> 0) + transition visible aux dsums)))"

section \<open>Semi and anti joins\<close>

text \<open>One entry of the auxiliary table: the left columns, \<open>_left_count\<close> and \<open>_match_count\<close>.\<close>

type_synonym 'l match_table = "('l \<times> int \<times> int) list"

definition matches :: "('l \<Rightarrow> 'r \<Rightarrow> bool) \<Rightarrow> 'r zset \<Rightarrow> 'l \<Rightarrow> int" where
  "matches m z l = zsum z (\<lambda>r. if m l r then 1 else 0)"

definition saj_visible :: "bool \<Rightarrow> int \<Rightarrow> bool" where
  "saj_visible anti mc = (if anti then mc = 0 else 0 < mc)"

definition merge_right :: "('l \<Rightarrow> 'r \<Rightarrow> bool) \<Rightarrow> 'r zset \<Rightarrow> 'l match_table \<Rightarrow> 'l match_table" where
  "merge_right m right_delta aux =
     map (\<lambda>(l, lc, mc). (l, lc, if matches m right_delta l \<noteq> 0 then mc + matches m right_delta l else mc)) aux"

definition merge_left :: "'l zset \<Rightarrow> 'l match_table \<Rightarrow> 'l match_table" where
  "merge_left dleft aux =
     map (\<lambda>(l, lc, mc). (l, case map_of dleft l of Some w \<Rightarrow> lc + w | None \<Rightarrow> lc, mc)) aux"

definition insert_left :: "('l \<Rightarrow> 'r \<Rightarrow> bool) \<Rightarrow> 'r zset \<Rightarrow> 'l zset \<Rightarrow> 'l match_table \<Rightarrow> 'l match_table" where
  "insert_left m right dleft aux =
     aux @ map (\<lambda>(l, w). (l, w, matches m right l)) (filter (\<lambda>(l, w). map_of aux l = None \<and> 0 < w) dleft)"

definition saj_affected :: "bool \<Rightarrow> 'l match_table \<Rightarrow> 'l match_table \<Rightarrow> 'l \<Rightarrow> bool" where
  "saj_affected anti old cur l =
     (case (map_of old l, map_of cur l) of
        (Some (lc, mc), Some (lc', mc')) \<Rightarrow> lc \<noteq> lc' \<or> saj_visible anti mc \<noteq> saj_visible anti mc'
      | (None, None) \<Rightarrow> False
      | _ \<Rightarrow> True)"

text \<open>The rows that the affected entries of a table stand for.\<close>

definition visible_rows :: "bool \<Rightarrow> ('l \<Rightarrow> bool) \<Rightarrow> ('l \<Rightarrow> 'o) \<Rightarrow> 'l match_table \<Rightarrow> 'o zset" where
  "visible_rows anti affected out aux =
     map (\<lambda>(l, lc, mc). (out l, lc)) (filter (\<lambda>(l, lc, mc). affected l \<and> saj_visible anti mc \<and> 0 < lc) aux)"

definition saj_refresh ::
  "bool \<Rightarrow> ('l \<Rightarrow> 'r \<Rightarrow> bool) \<Rightarrow> ('l \<Rightarrow> 'o) \<Rightarrow> 'r zset \<Rightarrow> 'l zset \<Rightarrow> 'r zset \<Rightarrow>
    'l match_table \<times> (nat \<times> 'o) list \<Rightarrow> 'l match_table \<times> (nat \<times> 'o) list" where
  "saj_refresh anti m out right left_delta right_delta state =
     (let (old, table) = state; dleft = zcompact left_delta;
          cur = insert_left m right dleft (merge_left dleft (merge_right m right_delta old));
          affected = saj_affected anti old cur;
          net = zcompact (zscale (- 1) (visible_rows anti affected out old))
      in (filter (\<lambda>(l, lc, mc). 0 < lc) cur,
          insert_rows (copies (visible_rows anti affected out cur)) (delete_net net table)))"

end
