(* ===== verification/Apply_Correct.thy ===== *)
theory Apply_Correct
  imports Apply_Delta
begin

text \<open>
  Applying a delta by UPDATE of one row and by DELETE and INSERT of copies gives the new state of
  the view.
\<close>

section \<open>Deleting copies by rank\<close>

lemma ranked_subset: "finite S \<Longrightarrow> card {i \<in> S. card {j \<in> S. j \<le> i} \<le> k} = min k (card S)" for S :: "nat set"
proof (induction S rule: finite_linorder_max_induct)
  case (insert b A)
  then have b: "b \<notin> A" by auto
  have "{j \<in> insert b A. j \<le> b} = insert b A" using insert by auto
  moreover have "{j \<in> insert b A. j \<le> i} = {j \<in> A. j \<le> i}" if "i \<in> A" for i using insert that by auto
  ultimately have "{i \<in> insert b A. card {j \<in> insert b A. j \<le> i} \<le> k} =
      {i \<in> A. card {j \<in> A. j \<le> i} \<le> k} \<union> (if Suc (card A) \<le> k then {b} else {})"
    using insert by (auto split: if_splits)
  moreover have "{i \<in> A. card {j \<in> A. j \<le> i} \<le> k} \<inter> (if Suc (card A) \<le> k then {b} else {}) = {}"
    using insert by auto
  moreover have "card (insert b A) = Suc (card A)" using insert b by simp
  ultimately show ?case using insert by (auto simp: card_Un_disjoint min_def)
qed simp

definition row_ids :: "(nat \<times> 'r) list \<Rightarrow> 'r \<Rightarrow> nat set" where
  "row_ids table r = {i. (i, r) \<in> set table}"

lemma count_ids:
  assumes "distinct (map fst table)"
  shows "length (filter (\<lambda>(i, r'). r' = r \<and> P i) table) = card {i \<in> row_ids table r. P i}"
proof -
  let ?es = "filter (\<lambda>(i, r'). r' = r \<and> P i) table"
  have "distinct (map fst ?es)" using assms by (rule distinct_map_filter)
  then have "length ?es = card (fst ` set ?es)" by (metis distinct_card length_map set_map)
  also have "fst ` set ?es = {i \<in> row_ids table r. P i}" by (force simp: row_ids_def)
  finally show ?thesis .
qed

lemma weight_table: "weight (table_zset table) r = int (length (filter (\<lambda>(i, r'). r' = r) table))"
  by (induction table) (auto simp: table_zset_def weight_def)

lemma weight_ids: "distinct (map fst table) \<Longrightarrow> weight (table_zset table) r = int (card (row_ids table r))"
  using count_ids [of table r "\<lambda>i. True"] by (simp add: weight_table)

lemma map_of_zcompact: "map_of (zcompact z) r = (if weight z r = 0 then None else Some (weight z r))"
proof -
  have "weight z r = 0" if "r \<notin> fst ` set z"
    using that by (induction z) (auto simp: weight_def)
  moreover have "map_of (filter (\<lambda>(r, w). w \<noteq> 0) (map (\<lambda>r. (r, weight z r)) rs)) r
      = (if r \<in> set rs \<and> weight z r \<noteq> 0 then Some (weight z r) else None)" for rs
    by (induction rs) auto
  ultimately show ?thesis by (auto simp: zcompact_def)
qed

lemma delete_distinct: "distinct (map fst table) \<Longrightarrow> distinct (map fst (delete_net net table))"
  unfolding delete_net_def by (rule distinct_map_filter)

lemma weight_delete:
  assumes "distinct (map fst table)"
  shows "weight (table_zset (delete_net (zcompact z) table)) r =
    weight (table_zset table) r - (if weight z r < 0 then min (- weight z r) (weight (table_zset table) r) else 0)"
proof -
  let ?S = "row_ids table r" and ?k = "nat (- weight z r)"
  have fin: "finite ?S" by (rule finite_subset [of _ "fst ` set table"]) (force simp: row_ids_def)+
  have in_row_ids: "i \<in> row_ids t r \<longleftrightarrow> (i, r) \<in> set t" for i t by (simp add: row_ids_def)
  have rank: "row_rank table (i, r) = int (card {j \<in> ?S. j \<le> i})" for i
    using count_ids [OF assms, of r "\<lambda>j. j \<le> i"] by (simp add: row_rank_def case_prod_unfold)
  have "row_ids (delete_net (zcompact z) table) r =
      {i \<in> ?S. \<not> (weight z r < 0 \<and> card {j \<in> ?S. j \<le> i} \<le> ?k)}"
    by (intro set_eqI) (simp add: in_row_ids delete_net_def map_of_zcompact rank, auto)
  also have "\<dots> = ?S - (if weight z r < 0 then {i \<in> ?S. card {j \<in> ?S. j \<le> i} \<le> ?k} else {})" by auto
  finally have "card (row_ids (delete_net (zcompact z) table) r) = card ?S - (if weight z r < 0 then min ?k (card ?S) else 0)"
    using fin by (simp add: card_Diff_subset ranked_subset [OF fin])
  then show ?thesis using weight_ids [OF assms] weight_ids [OF delete_distinct [OF assms]] by auto
qed

section \<open>Inserting copies\<close>

lemma weight_insert: "weight (table_zset (insert_rows rs table)) r = weight (table_zset table) r + int (count_list rs r)"
proof -
  have "length (filter (\<lambda>(i, r'). r' = r) (zip is rs)) = count_list rs r" if "length is = length rs" for "is" :: "nat list"
    using that by (induction "is" rs rule: list_induct2) auto
  then show ?thesis by (simp add: insert_rows_def weight_table)
qed

lemma insert_distinct: 
  assumes "distinct (map fst table)"
  shows "distinct (map fst (insert_rows rs table))"
proof -
  let ?m = "Max (insert 0 (set (map fst table)))"
  have "i \<le> ?m" if "i \<in> fst ` set table" for i using that by (intro Max_ge) auto
  then have "fst ` set table \<inter> (+) (Suc ?m) ` {0..<length rs} = {}" by fastforce
  moreover have "map fst (insert_rows rs table) = map fst table @ map ((+) (Suc ?m)) [0..<length rs]"
    by (simp add: insert_rows_def)
  ultimately show ?thesis using assms by (simp add: distinct_map)
qed

lemma count_copies: "int (count_list (copies net) r) = zsum net (\<lambda>x. if x = r then 1 else 0)" if "\<forall>(r, w) \<in> set net. 0 < w"
proof -
  have "count_list (replicate n x) r = (if x = r then n else 0)" for n and x :: 'a by (induction n) auto
  then show ?thesis using that by (induction net) (auto simp: copies_def)
qed

lemma weight_positive: "weight (filter (\<lambda>(r, w). 0 < w) (zcompact z)) r = max 0 (weight z r)"
proof -
  have sum: "weight (filter (\<lambda>(r, w). 0 < w) net) r = (case map_of net r of Some w \<Rightarrow> max 0 w | None \<Rightarrow> 0)"
    if "distinct (map fst net)" for net :: "'a zset"
    using that
  proof (induction net)
    case (Cons p net)
    obtain x w where p: "p = (x, w)" by fastforce
    have "map_of net r = None" if "x = r" using Cons.prems that by (simp add: p map_of_eq_None_iff)
    with Cons show ?case by (auto simp: p weight_def)
  qed (simp add: weight_def)
  show ?thesis by (simp add: sum [OF zcompact_distinct] map_of_zcompact)
qed

lemma weight_apply:
  assumes "distinct (map fst table)" "0 \<le> weight (table_zset table) r + weight z r"
  shows "weight (table_zset (apply_delta z table)) r = weight (table_zset table) r + weight z r"
proof -
  have "int (count_list (copies (filter (\<lambda>(r, w). 0 < w) (zcompact z))) r) = max 0 (weight z r)"
    using weight_positive [of z r] by (subst count_copies) (auto simp: weight_def)
  then show ?thesis using assms(2) weight_delete [OF assms(1), of z r] by (auto simp: apply_delta_def weight_insert Let_def)
qed

text \<open>C4: the DELETE and the INSERT of \<open>CompileProjectionsFilters\<close> turn a table that holds a bag of rows into
  one that holds the bag plus the delta: the net change of every row is summed, copies are deleted by
  the rank of their row id, further copies inserted, and the row ids stay distinct. The delta must not
  delete more copies than there are.\<close>
theorem projection_delta_applied:
  assumes "distinct (map fst table)" "plus_delta (table_zset table) delta new" "nonneg new"
  shows "zeq (table_zset (apply_delta delta table)) new \<and> distinct (map fst (apply_delta delta table))"
proof -
  have "weight (table_zset (apply_delta delta table)) r = weight new r" for r
    using weight_apply [OF assms(1), of r delta] assms(2,3) by (simp add: plus_delta_def nonneg_def)
  then show ?thesis
    using insert_distinct [OF delete_distinct [OF assms(1)]] by (simp add: zeq_def apply_delta_def Let_def)
qed

theorem projection_delta_applied_witness:
  "zeq (table_zset (apply_delta [(5, -2), (7, 1), (5, 1), (8, -1)] [(0, 5), (1, 7), (4, 5), (9, 8)]))
      [(5 :: nat, 1), (7, 2)] \<and>
   distinct (map fst (apply_delta [(5 :: nat, -2), (7, 1), (5, 1), (8, -1)] [(0, 5), (1, 7), (4, 5), (9, 8)]))"
  by (rule projection_delta_applied) (auto simp: plus_delta_def nonneg_def weight_def table_zset_def)

lemma weight_inserts: "\<forall>(r, w) \<in> set z. 0 < w \<Longrightarrow> weight (table_zset (apply_inserts z table)) r = weight (table_zset table) r + weight z r"
proof -
  assume pos: "\<forall>(r, w) \<in> set z. 0 < w"
  then have "filter (\<lambda>(r, w). 0 < w) z = z" by (auto simp: filter_id_conv)
  then show ?thesis using count_copies [OF pos, of r] by (simp add: apply_inserts_def weight_insert weight_def [of z])
qed

lemma zsum_positive: "\<forall>(r, w) \<in> set z. 0 < w \<Longrightarrow> (\<And>r. 0 \<le> h r) \<Longrightarrow> 0 \<le> zsum z h"
  by (induction z) (auto simp: less_imp_le)

text \<open>C6: the shorter text that \<open>CompileProjectionsFilters\<close> writes for deltas with insertions only, which inserts
  the delta rows without summing them, gives the same bag of rows as the general text.\<close>
theorem insert_only_path_equivalent:
  assumes "distinct (map fst table)" "\<forall>(r, w) \<in> set delta. 0 < w"
  shows "zeq (table_zset (apply_inserts delta table)) (table_zset (apply_delta delta table))"
proof -
  have "0 \<le> weight delta r" for r unfolding weight_def by (rule zsum_positive [OF assms(2)]) simp
  then have "weight (table_zset (apply_delta delta table)) r = weight (table_zset (apply_inserts delta table)) r" for r
    using weight_apply [OF assms(1), of r delta] weight_inserts [OF assms(2)] by (simp add: weight_table)
  then show ?thesis by (simp add: zeq_def)
qed

theorem insert_only_path_equivalent_witness:
  "zeq (table_zset (apply_inserts [(5 :: nat, 2), (7, 1), (5, 1)] [(0, 5), (3, 7)]))
     (table_zset (apply_delta [(5, 2), (7, 1), (5, 1)] [(0, 5), (3, 7)]))"
  by (rule insert_only_path_equivalent) auto

section \<open>One row of aggregates\<close>

lemma delta_sum_linear:
  assumes cols: "map_of cols c = Some a" and h: "summand a = Some h"
  shows "coalesce 0 (delta_sum (grouped_delta (\<lambda>_. ()) cols z) () c) = rsum z h"
proof -
  let ?rows = "grouped_delta (\<lambda>_. ()) cols z"
  let ?p = "\<lparr>program_keys = [], program_folds = [(c, FoldSum)], program_updates = [], program_inserts = [], program_empty = []\<rparr>"
  have all: "zgroup (\<lambda>_. ()) () z = z" by (simp add: zgroup_def zfilter_def case_prod_unfold)
  show ?thesis
  proof (cases "() \<in> fst ` set ?rows")
    case True
    have cte: "refresh_cte ?p ?rows () c = delta_sum ?rows () c" by (simp add: refresh_cte_def delta_sum_def)
    have "map_of (program_folds ?p) c = Some FoldSum" by simp
    from refresh_cte_linear [OF cols this h True] show ?thesis by (simp add: all linear_value_def h cte)
  next
    case False
    then have "z = []" unfolding affected_keys by (cases z) auto
    then show ?thesis by (simp add: delta_sum_def delta_values_def grouped_delta_def fold_delta_def List.map_filter_simps)
  qed
qed

lemma update_derived_untouched: "c \<notin> fst ` set es \<Longrightarrow> update_derived es row c = row c"
  by (induction es arbitrary: row) (auto simp: update_derived_def)

lemma update_derived_once:
  assumes "distinct (map fst es)" "(c, e) \<in> set es"
    and "\<And>row'. (\<And>c'. c' \<notin> fst ` set es \<Longrightarrow> row' c' = row c') \<Longrightarrow> eval_merge row' (\<lambda>c. None) e = x"
  shows "update_derived es row c = x"
proof -
  obtain es1 es2 where es: "es = es1 @ (c, e) # es2" using assms(2) by (meson split_list)
  have "eval_merge (update_derived es1 row) (\<lambda>c. None) e = x"
    by (rule assms(3)) (simp add: es update_derived_untouched image_Un)
  moreover have "c \<notin> fst ` set es2" using assms(1) by (auto simp: es)
  ultimately show ?thesis using update_derived_untouched [of c es2] by (simp add: es update_derived_def)
qed

lemma count_bounds:
  assumes "nonneg z" "count_of z f \<noteq> 0"
  shows "1 \<le> count_of z f" "count_of z f \<noteq> 1 \<Longrightarrow> 1 < count_of z f"
proof -
  obtain n where n: "count_of z f = of_int n" using count_integer by blast
  have "0 \<le> count_of z f" unfolding count_of_def by (rule rsum_nonneg [OF assms(1) non_null_pos])
  then have "1 \<le> n" using n assms(2) by auto
  then show one: "1 \<le> count_of z f" using n by simp
  show "count_of z f \<noteq> 1 \<Longrightarrow> 1 < count_of z f" using one by simp
qed

lemma unclamped_spread:
  assumes "nonneg z" "count_of z f \<noteq> 0"
  shows "rooted rt (variance_value (Some (total_of z (\<lambda>x. x) f)) (Some (total_of z (\<lambda>x. squared x) f))
      (Some (count_of z f)) population) = agg_value z (AggSpread population rt f)"
proof (cases "(if population then 0 else 1) < count_of z f")
  case True
  let ?v = "variance_value (Some (total_of z (\<lambda>x. x) f)) (Some (total_of z (\<lambda>x. squared x) f)) (Some (count_of z f)) population"
  let ?s = "total_of z (\<lambda>x. squared (x - total_of z (\<lambda>x. x) f / count_of z f)) f"
  let ?d = "if population then count_of z f else count_of z f - 1"
  have d: "0 < ?d" "count_of z f \<noteq> 0" using True by (auto split: if_splits)
  have "?s = total_of z (\<lambda>x. squared x) f - total_of z (\<lambda>x. x) f * total_of z (\<lambda>x. x) f / count_of z f"
    unfolding total_quadratic using d(2) by (simp add: field_simps)
  then have "?v = Some (?s / ?d)" using d by (simp add: variance_value_def Let_def)
  with True show ?thesis by (simp add: Let_def)
next
  case False
  have "\<not> population \<and> count_of z f = 1" using False count_bounds [OF assms] by (auto split: if_splits)
  then show ?thesis by (simp add: variance_value_def rooted_def)
qed

text \<open>The columns of a view without groups.\<close>

definition simple_fits :: "string list \<Rightarrow> (string \<times> 'r agg) list \<Rightarrow> bool" where
  "simple_fits names cols \<longleftrightarrow>
     filter (\<lambda>c. c \<noteq> MULTIPLICITY_COL) names = map fst cols \<and> distinct (map fst cols) \<and>
     list_all (\<lambda>(c, a). column_fits cols (DetectDerivedAggColumns names) c a) cols"

definition row_holds :: "'r zset \<Rightarrow> (string \<times> 'r agg) list \<Rightarrow> agg_row \<Rightarrow> bool" where
  "row_holds z cols row \<longleftrightarrow>
     (\<forall>c a. map_of cols c = Some a \<longrightarrow>
        (case summand a of Some h \<Rightarrow> coalesce 0 (row c) = rsum z h | None \<Rightarrow> True))"

lemma derived_names: "fst ` set (simple_derived (BuildSimpleProgram names)) = set (derived_cols (DetectDerivedAggColumns names))"
  by (auto simp: BuildSimpleProgram_def Let_def image_image)

lemma derived_distinct: "distinct (map fst (simple_derived (BuildSimpleProgram names)))"
  by (simp add: BuildSimpleProgram_def Let_def comp_def)

lemma set_derived_cols: "c \<in> set (derived_cols d) \<longleftrightarrow> derived_col d c"
proof
  assume "derived_col d c"
  then have "c \<in> fst ` set (sum_cols d)" unfolding derived_col_def by (simp add: map_of_eq_None_iff)
  with \<open>derived_col d c\<close> show "c \<in> set (derived_cols d)" by (simp add: derived_cols_def)
qed (simp add: derived_cols_def)

lemma simple_linear:
  assumes fits: "simple_fits names cols" and delta: "plus_delta old delta new" "row_holds old cols row"
    and c: "map_of cols c = Some a" "summand a = Some h"
  shows "\<not> derived_col (DetectDerivedAggColumns names) c"
    "update_sums (BuildSimpleProgram names) (delta_sum (grouped_delta (\<lambda>_. ()) cols delta) ()) row c = Some (rsum new h)"
proof -
  have f: "c \<in> set (filter (\<lambda>c. c \<noteq> MULTIPLICITY_COL) names)" "column_fits cols (DetectDerivedAggColumns names) c a"
    using fits map_of_SomeD [OF c(1)] by (force simp: simple_fits_def list_all_iff)+
  then show nd: "\<not> derived_col (DetectDerivedAggColumns names) c" using c(2) by (cases a) auto
  then have "c \<in> set (simple_sums (BuildSimpleProgram names))" using f(1) by (simp add: BuildSimpleProgram_def Let_def)
  moreover have "coalesce 0 (row c) = rsum old h" using delta(2) [unfolded row_holds_def, rule_format, OF c(1)] c(2) by simp
  ultimately show "update_sums (BuildSimpleProgram names) (delta_sum (grouped_delta (\<lambda>_. ()) cols delta) ()) row c = Some (rsum new h)"
    using delta_sum_linear [OF c] rsum_plus_delta [OF delta(1), of h] by (simp add: update_sums_def)
qed

text \<open>C5: the statements of \<open>CompileSimpleAggregates\<close> maintain the one row of a view without groups: after them every
  sum and count is the sum over the new rows (0 where there is no value, also where the query gives
  NULL), and every average, variance and deviation has the value the query gives. The variances are
  not guarded; the property asks for a value among the new rows.\<close>
theorem simple_aggregates_applied:
  assumes fits: "simple_fits names cols" and delta: "plus_delta old delta new" "row_holds old cols row" and "nonneg new"
    and spread: "\<forall>c population rt f. map_of cols c = Some (AggSpread population rt f) \<longrightarrow> count_of new f \<noteq> 0"
    and c: "map_of cols c = Some a"
  shows "run_simple (BuildSimpleProgram names) (grouped_delta (\<lambda>_. ()) cols delta) row c =
    (case summand a of Some h \<Rightarrow> Some (rsum new h) | None \<Rightarrow> agg_value new a)"
proof -
  let ?p = "BuildSimpleProgram names" and ?d = "DetectDerivedAggColumns names"
  let ?row = "update_sums ?p (delta_sum (grouped_delta (\<lambda>_. ()) cols delta) ()) row"
  note lin = simple_linear [OF fits delta]
  show ?thesis
  proof (cases "summand a")
    case (Some h)
    have "c \<notin> fst ` set (simple_derived ?p)" using lin(1) [OF c Some] by (simp add: derived_names set_derived_cols)
    with lin(2) [OF c Some] Some show ?thesis by (simp add: run_simple_def update_derived_untouched)
  next
    case None
    have fit: "column_fits cols ?d c a" using fits map_of_SomeD [OF c] by (force simp: simple_fits_def list_all_iff)
    then have "derived_col ?d c" using None by (cases a) auto
    then obtain e where e: "(c, e) \<in> set (simple_derived ?p)" using derived_names set_derived_cols by force
    have "eval_merge row' (\<lambda>c. None) e = agg_value new a" if row': "\<And>c'. c' \<notin> fst ` set (simple_derived ?p) \<Longrightarrow> row' c' = ?row c'" for row'
    proof -
      have val: "row' c' = Some (rsum new h)" if "map_of cols c' = Some a'" "summand a' = Some h" for c' a' h
        using lin [OF that] by (subst row') (auto simp: derived_names set_derived_cols)
      show ?thesis
      proof (cases a)
        case (AggAvg f)
        with fit e show ?thesis
          by (auto simp: BuildSimpleProgram_def Let_def val divide_null_def count_of_def total_of_def)
      next
        case (AggSpread population rt f)
        then have "count_of new f \<noteq> 0" using spread c by blast
        with fit e AggSpread show ?thesis
          using unclamped_spread [OF \<open>nonneg new\<close>, of f rt population]
          by (auto simp: BuildSimpleProgram_def Let_def val clamped_def count_of_def total_of_def split: option.splits)
      qed (use None in auto)
    qed
    from update_derived_once [OF derived_distinct e, where row = ?row, OF this] None show ?thesis
      by (simp add: run_simple_def)
  qed
qed

definition deviation_columns :: "(string \<times> (real option \<times> real option) agg) list" where
  "deviation_columns =
     [(''total'', AggSum fst), (''dev'', AggSpread False True snd), (''openivm_sum_dev'', AggSum snd),
      (''openivm_count_dev'', AggCount snd), (''openivm_sum_sq_dev'', AggSumSq snd)]"

definition deviation_names :: "string list" where
  "deviation_names = [''total'', ''dev'', ''openivm_sum_dev'', ''openivm_count_dev'', ''openivm_sum_sq_dev'', ''openivm_multiplicity'']"

definition deviation_old :: "(real option \<times> real option) zset" where
  "deviation_old = [((Some 3, Some 2), 1), ((None, Some 4), 2)]"

definition deviation_delta :: "(real option \<times> real option) zset" where
  "deviation_delta = [((Some 3, Some 2), -1), ((None, Some 1), 1)]"

lemma deviation_decomposition: "DetectDerivedAggColumns deviation_names =
   \<lparr>sum_cols = [(''dev'', ''openivm_sum_dev'')], sum_sq_cols = [(''dev'', ''openivm_sum_sq_dev'')],
    count_cols = [(''dev'', ''openivm_count_dev'')], needs_sqrt = [(''dev'', True)], is_population = [(''dev'', False)]\<rparr>"
  by code_simp

lemma deviation_fits: "simple_fits deviation_names deviation_columns"
  unfolding simple_fits_def deviation_decomposition
  by (simp add: deviation_columns_def derived_col_def is_set_def) (simp add: deviation_names_def MULTIPLICITY_COL_def)

lemma deviation_holds: "row_holds deviation_old deviation_columns (agg_columns deviation_columns deviation_old)"
  by (auto simp: row_holds_def agg_columns_def deviation_columns_def deviation_old_def agg_value_linear nonneg_def weight_def
      simp del: agg_value.simps split: option.splits if_splits)

lemma deviation_new: "nonneg (deviation_old @ deviation_delta)"
  "\<forall>c population rt f. map_of deviation_columns c = Some (AggSpread population rt f) \<longrightarrow> count_of (deviation_old @ deviation_delta) f \<noteq> 0"
  "map_of deviation_columns ''total'' = Some (AggSum fst)" "map_of deviation_columns ''dev'' = Some (AggSpread False True snd)"
  by (auto simp: nonneg_def weight_def deviation_old_def deviation_delta_def deviation_columns_def count_of_def non_null_def)

theorem simple_aggregates_applied_witness:
  "run_simple (BuildSimpleProgram deviation_names) (grouped_delta (\<lambda>_. ()) deviation_columns deviation_delta)
     (agg_columns deviation_columns deviation_old) ''dev'' = Some (sqrt 3) \<and>
   run_simple (BuildSimpleProgram deviation_names) (grouped_delta (\<lambda>_. ()) deviation_columns deviation_delta)
     (agg_columns deviation_columns deviation_old) ''total'' = Some 0 \<and>
   agg_value (deviation_old @ deviation_delta) (AggSum fst) = None"
  using simple_aggregates_applied [OF deviation_fits plus_delta_append deviation_holds deviation_new(1,2,3)]
    simple_aggregates_applied [OF deviation_fits plus_delta_append deviation_holds deviation_new(1,2,4)]
  by (simp add: deviation_old_def deviation_delta_def count_of_def total_of_def non_null_def on_value_def rooted_def)

end
