(* ===== verification/Aux_Correct.thy ===== *)
theory Aux_Correct
  imports Aux_Steps Apply_Correct
begin

text \<open>
  The auxiliary tables and the views above them hold, after a refresh, what they should hold for the
  changed base rows.
\<close>

section \<open>Rows with a weight\<close>

lemma weight_distinct_keys:
  assumes "distinct (map fst z)"
  shows "weight z r = (case map_of z r of Some w \<Rightarrow> w | None \<Rightarrow> 0)"
  using assms
proof (induction z)
  case (Cons p z)
  obtain x w where p: "p = (x, w)" by fastforce
  have "map_of z r = None" if "x = r" using Cons.prems that by (simp add: p map_of_eq_None_iff)
  with Cons show ?case by (auto simp: p weight_def)
qed (simp add: weight_def)

lemma weight_zmap_plus: "plus_delta x y z \<Longrightarrow> plus_delta (zmap f (zfilter p x)) (zmap f (zfilter p y)) (zmap f (zfilter p z))"
  unfolding plus_delta_zsum by simp

lemma plus_delta_weight: "plus_delta x y z \<Longrightarrow> weight z r = weight x r + weight y r"
  by (simp add: plus_delta_def)

lemma weight_support: "weight z r \<noteq> 0 \<Longrightarrow> r \<in> fst ` set z"
  by (induction z) (auto simp: weight_def split: if_splits)

lemma nonneg_zmap:
  assumes "nonneg z"
  shows "nonneg (zmap f (zfilter p z))"
  unfolding nonneg_def
proof
  fix r
  have "weight (zmap f (zfilter p z)) r = zsum z (\<lambda>x. if p x \<and> f x = r then 1 else 0)"
    unfolding weight_def by (simp add: comp_def) (rule arg_cong [where f = "zsum z"], auto)
  also have "\<dots> = (\<Sum>x \<in> fst ` set z. weight z x * (if p x \<and> f x = r then 1 else 0))" by (rule zsum_support) auto
  also have "0 \<le> \<dots>" using assms by (intro sum_nonneg) (simp add: nonneg_def)
  finally show "0 \<le> weight (zmap f (zfilter p z)) r" .
qed

section \<open>Distinct rows\<close>

definition distinct_rows :: "'d zset \<Rightarrow> 'd zset" where
  "distinct_rows z = map (\<lambda>d. (d, 1)) (filter (\<lambda>d. 0 < weight z d) (remdups (map fst z)))"

lemma weight_distinct_rows: "weight (distinct_rows z) d = of_bool (0 < weight z d)"
proof -
  have keys: "map fst (distinct_rows z) = filter (\<lambda>d. 0 < weight z d) (remdups (map fst z))" by (simp add: distinct_rows_def comp_def)
  have "map_of (distinct_rows z) d = (if 0 < weight z d \<and> d \<in> fst ` set z then Some 1 else None)"
    by (auto simp: distinct_rows_def map_of_pairs)
  with weight_support [of z d] show ?thesis
    by (subst weight_distinct_keys) (auto simp: keys)
qed

lemma distinct_rows_nonneg: "nonneg (distinct_rows z)"
  by (simp add: nonneg_def weight_distinct_rows)

text \<open>The auxiliary table counts every distinct row.\<close>

definition counts_rows :: "'d zset \<Rightarrow> ('d \<Rightarrow> int option) \<Rightarrow> bool" where
  "counts_rows z aux \<longleftrightarrow> (\<forall>d. aux d = (if weight z d = 0 then None else Some (weight z d)))"

lemma counts_rows_count: "counts_rows z aux \<Longrightarrow> aux_count aux d = weight z d"
  by (simp add: counts_rows_def aux_count_def)

lemma weight_map_keys:
  assumes "distinct (map fst ys)"
  shows "weight (map (\<lambda>(d, w). (d, h d w)) ys) d = (case map_of ys d of Some w \<Rightarrow> h d w | None \<Rightarrow> 0)"
  using assms
proof (induction ys)
  case (Cons p ys)
  obtain x w where p: "p = (x, w)" by fastforce
  have "map_of ys d = None" if "x = d" using Cons.prems that by (simp add: p map_of_eq_None_iff)
  with Cons show ?case by (auto simp: p weight_def)
qed (simp add: weight_def)

lemma weight_drop_zero: "weight (filter (\<lambda>(r, w). w \<noteq> 0) z) r = weight z r"
  by (simp add: weight_def zsum_drop_zero)

lemma ddist_change:
  assumes "plus_delta x y z" "nonneg x" "nonneg z" "counts_rows x aux"
  shows "plus_delta (distinct_rows x) (ddist aux (zcompact y)) (distinct_rows z)"
  unfolding plus_delta_def
proof
  fix d
  have w: "weight z d = weight x d + weight y d" "0 \<le> weight x d" "0 \<le> weight z d"
    using assms(1-3) by (simp_all add: plus_delta_def nonneg_def)
  have "weight (ddist aux (zcompact y)) d = (if weight x d = 0 \<and> 0 < weight y d then 1
      else if 0 < weight x d \<and> weight x d + weight y d \<le> 0 then - 1 else 0)"
    unfolding ddist_def weight_drop_zero weight_map_keys [OF zcompact_distinct] map_of_zcompact
    using counts_rows_count [OF assms(4)] w by auto
  with w show "weight (distinct_rows z) d = weight (distinct_rows x) d + weight (ddist aux (zcompact y)) d"
    by (auto simp: weight_distinct_rows)
qed

lemma merge_aux_counts:
  assumes "plus_delta x y z" "nonneg x" "nonneg z" "counts_rows x aux"
  shows "counts_rows z (delete_aux (merge_distinct_aux (zcompact y) aux))"
  unfolding counts_rows_def
proof
  fix d
  have w: "weight z d = weight x d + weight y d" "0 \<le> weight x d" "0 \<le> weight z d"
    using assms(1-3) by (simp_all add: plus_delta_def nonneg_def)
  have "aux d = (if weight x d = 0 then None else Some (weight x d))" using assms(4) by (simp add: counts_rows_def)
  with w show "delete_aux (merge_distinct_aux (zcompact y) aux) d = (if weight z d = 0 then None else Some (weight z d))"
    by (auto simp: delete_aux_def merge_distinct_aux_def map_of_zcompact)
qed

text \<open>The aggregate over the distinct rows.\<close>

definition distinct_result :: "('d \<Rightarrow> 'k) \<Rightarrow> ('d \<Rightarrow> real option) \<Rightarrow> 'd zset \<Rightarrow> 'k distinct_view" where
  "distinct_result g arg z k =
     (let rows = zgroup g k (distinct_rows z)
      in if dagg_count rows = 0 then None else Some (agg_value rows (AggSum arg), dagg_count rows))"

lemma dagg_count_rsum: "rsum z (\<lambda>r. 1) = of_int (dagg_count z)"
  by (induction z) (auto simp: dagg_count_def)

lemma all_values_count: "(\<And>r. arg r \<noteq> None) \<Longrightarrow> count_of z arg = rsum z (\<lambda>r. 1)"
proof -
  assume "\<And>r. arg r \<noteq> None"
  then have "non_null arg = (\<lambda>r. 1)" unfolding non_null_def by meson
  then show ?thesis by (simp add: count_of_def)
qed

lemma all_values_sum:
  assumes "\<And>r. arg r \<noteq> None" "z \<noteq> []"
  shows "dagg_sum arg z = Some (total_of z (\<lambda>x. x) arg)"
  using assms by (auto simp: dagg_sum_def neq_Nil_conv)

lemma zgroup_keys: "zgroup g k z = [] \<longleftrightarrow> k \<notin> g ` fst ` set z"
  by (force simp: zgroup_def zfilter_def filter_empty_conv)

lemma merged_distinct_view:
  assumes "plus_delta x y z" "nonneg x" "nonneg z" "counts_rows x aux" "\<And>d. arg d \<noteq> None"
  shows "delete_counts (merge_dagg g arg (ddist aux (zcompact y)) (distinct_result g arg x)) k = distinct_result g arg z k"
proof -
  let ?x = "zgroup g k (distinct_rows x)" and ?y = "zgroup g k (ddist aux (zcompact y))" and ?z = "zgroup g k (distinct_rows z)"
  have plus: "plus_delta ?x ?y ?z" by (rule plus_delta_zgroup [OF ddist_change [OF assms(1-4)]])
  have sums: "rsum ?z h = rsum ?x h + rsum ?y h" for h by (rule rsum_plus_delta [OF plus])
  have count: "dagg_count ?z = dagg_count ?x + dagg_count ?y"
    using sums [of "\<lambda>r. 1"] unfolding dagg_count_rsum by linarith
  have nn: "nonneg ?x" "nonneg ?z" by (simp_all add: nonneg_zgroup distinct_rows_nonneg)
  have pos: "0 \<le> dagg_count ?x" "0 \<le> dagg_count ?z"
    using rsum_nonneg [OF nn(1), of "\<lambda>r. 1"] rsum_nonneg [OF nn(2), of "\<lambda>r. 1"] unfolding dagg_count_rsum by auto
  have sum_of: "agg_value w (AggSum arg) = (if dagg_count w = 0 then None else Some (total_of w (\<lambda>x. x) arg))" for w :: "'a zset"
    using all_values_count [OF assms(5), of w] by (simp add: dagg_count_rsum)
  have empty: "total_of ?x (\<lambda>x. x) arg = 0" if "dagg_count ?x = 0"
    unfolding total_of_def by (rule empty_group [OF nn(1)]) (simp add: dagg_count_rsum that)
  have total: "total_of ?z (\<lambda>x. x) arg = total_of ?x (\<lambda>x. x) arg + total_of ?y (\<lambda>x. x) arg"
    using sums by (simp add: total_of_def)
  show ?thesis
  proof (cases "?y = []")
    case True
    then have "dagg_count ?z = dagg_count ?x" "total_of ?z (\<lambda>x. x) arg = total_of ?x (\<lambda>x. x) arg"
      using count total by (simp_all add: dagg_count_def total_of_def)
    with True pos show ?thesis
      by (auto simp: delete_counts_def merge_dagg_def distinct_result_def Let_def sum_of simp del: agg_value.simps)
  next
    case False
    note dsum = all_values_sum [OF assms(5) False]
    show ?thesis
      using False pos count total empty
      by (auto simp: delete_counts_def merge_dagg_def distinct_result_def Let_def sum_of dsum simp del: agg_value.simps)
  qed
qed

text \<open>C30: one refresh of an aggregate over distinct rows keeps both tables right: the auxiliary table counts
  every distinct row of the changed base table, and the view holds for every group the sum and the
  number of its distinct rows; groups without rows are deleted. The summed column has no NULLs.\<close>
theorem distinct_state_maintained:
  assumes "plus_delta old delta new" "nonneg old" "nonneg new" "\<And>d. arg d \<noteq> None"
    and "counts_rows (zmap source (zfilter p old)) aux"
    and "distinct_refresh p source g arg delta (aux, distinct_result g arg (zmap source (zfilter p old))) = (aux', view')"
  shows "counts_rows (zmap source (zfilter p new)) aux' \<and> view' = distinct_result g arg (zmap source (zfilter p new))"
proof -
  note change = weight_zmap_plus [OF assms(1), of source p] and pos = nonneg_zmap [OF assms(2)] nonneg_zmap [OF assms(3)]
  have "delete_counts (merge_dagg g arg (ddist aux (zcompact (zmap source (zfilter p delta))))
      (distinct_result g arg (zmap source (zfilter p old)))) = distinct_result g arg (zmap source (zfilter p new))"
    by (rule ext) (rule merged_distinct_view [OF change pos assms(5,4)])
  then show ?thesis using assms(6) merge_aux_counts [OF change pos assms(5)]
    by (auto simp: distinct_refresh_def distinct_input_def Let_def)
qed

text \<open>a NULL among the new distinct values of a group erases the sum of the group: SUM of only NULLs is
  NULL, and the MERGE adds it to the old sum without a COALESCE. The query keeps the old sum.\<close>
theorem null_value_erases_sum:
  assumes "view k = Some (s, n)" "dds = zgroup g k (ddist aux (distinct_input p source delta))" "dds \<noteq> []"
    and "\<forall>(d, dd) \<in> set dds. arg d = None" "0 < n + dagg_count dds"
  shows "snd (distinct_refresh p source g arg delta (aux, view)) k = Some (None, n + dagg_count dds)"
  using assms by (simp add: distinct_refresh_def Let_def delete_counts_def merge_dagg_def dagg_sum_def)

lemma null_example:
  "zgroup fst (1 :: nat) (ddist [(1, Some 5) \<mapsto> 1] (distinct_input (\<lambda>r. True) (\<lambda>r. r) [((1, None), 1)])) = [((1 :: nat, None :: real option), 1)]"
  by (simp add: zgroup_def zfilter_def ddist_def aux_count_def distinct_input_def zcompact_def zmap_def weight_def)

theorem null_value_erases_sum_witness:
  "snd (distinct_refresh (\<lambda>r. True) (\<lambda>r. r) fst snd [((1, None), 1)]
     ([(1, Some 5) \<mapsto> 1], distinct_result fst snd [((1 :: nat, Some 5), 1)])) 1 = Some (None, 2) \<and>
   distinct_result fst snd [((1 :: nat, Some 5), 1), ((1, None), 1)] 1 = Some (Some (5 :: real), 2)"
  using null_value_erases_sum [OF _ null_example [symmetric], of _ "Some 5" 1 snd]
  by (simp add: distinct_result_def distinct_rows_def weight_def zgroup_def zfilter_def dagg_count_def count_of_def total_of_def
      non_null_def on_value_def)

theorem distinct_state_maintained_witness:
  "let old = [((1 :: nat, Some 5), 2), ((1, Some 7), 1)]; delta = [((1, Some 7), -1), ((2, Some 4), 1), ((1, Some 5), 1)];
       new = old @ delta; (aux', view') = distinct_refresh (\<lambda>r. True) (\<lambda>r. r) fst (\<lambda>d. Some (the (snd d) :: real)) delta
         ([(1, Some 5) \<mapsto> 2, (1, Some 7) \<mapsto> 1], distinct_result fst (\<lambda>d. Some (the (snd d))) old)
   in counts_rows new aux' \<and> view' = distinct_result fst (\<lambda>d. Some (the (snd d))) new"
proof -
  let ?old = "[((1 :: nat, Some (5 :: real)), 2), ((1, Some 7), 1)]" and ?delta = "[((1, Some (7 :: real)), -1), ((2, Some 4), 1), ((1 :: nat, Some 5), 1)]"
  let ?arg = "\<lambda>d. Some (the (snd d) :: real)" and ?aux = "[(1 :: nat, Some (5 :: real)) \<mapsto> (2 :: int), (1, Some 7) \<mapsto> 1]"
  obtain aux' view' where run: "distinct_refresh (\<lambda>r. True) (\<lambda>r. r) fst ?arg ?delta (?aux, distinct_result fst ?arg ?old) = (aux', view')"
    by fastforce
  have same: "zmap (\<lambda>r. r) (zfilter (\<lambda>r. True) z) = z" for z :: "(nat \<times> real option) zset"
    by (simp add: zmap_def zfilter_def case_prod_unfold)
  have nn: "nonneg ?old" "nonneg (?old @ ?delta)" by (auto simp: nonneg_def weight_def)
  have aux: "counts_rows ?old ?aux" by (auto simp: counts_rows_def weight_def)
  show ?thesis
    using distinct_state_maintained [OF plus_delta_append nn, where p = "\<lambda>r. True" and source = "\<lambda>r. r" and arg = ?arg and g = fst, unfolded same, OF _ aux run]
      run by simp
qed

section \<open>Filtered groups\<close>

text \<open>The auxiliary table has the sum of every group; a group without rows or values has the sum 0.\<close>

definition sums_groups :: "('r \<Rightarrow> 'g) \<Rightarrow> ('r \<Rightarrow> real option) \<Rightarrow> 'r zset \<Rightarrow> 'g sum_table \<Rightarrow> bool" where
  "sums_groups g arg z aux \<longleftrightarrow> (\<forall>k. aux_sum aux k = total_of (zgroup g k z) (\<lambda>x. x) arg)"

text \<open>\<open>select count(*) from (select g, sum(arg) as s from t group by g) where visible s\<close>\<close>

definition filtered_count :: "(real \<Rightarrow> bool) \<Rightarrow> ('r \<Rightarrow> 'g) \<Rightarrow> ('r \<Rightarrow> real option) \<Rightarrow> 'r zset \<Rightarrow> nat" where
  "filtered_count visible g arg z =
     card {k \<in> g ` fst ` set z. rsum (zgroup g k z) (\<lambda>r. 1) \<noteq> 0 \<and>
       (case agg_value (zgroup g k z) (AggSum arg) of Some s \<Rightarrow> visible s | None \<Rightarrow> False)}"

lemma filtered_count_sum:
  assumes "nonneg z" "\<not> visible 0" "finite S" "g ` fst ` set z \<subseteq> S"
  shows "int (filtered_count visible g arg z) = (\<Sum>k \<in> S. of_bool (visible (total_of (zgroup g k z) (\<lambda>x. x) arg)))"
proof -
  have total0: "total_of (zgroup g k z) (\<lambda>x. x) arg = 0" if "rsum (zgroup g k z) (\<lambda>r. 1) = 0 \<or> count_of (zgroup g k z) arg = 0" for k
    using that empty_group [OF nonneg_zgroup [OF assms(1)]] no_values [OF nonneg_zgroup [OF assms(1)]] by (auto simp: total_of_def)
  have "zgroup g k z = []" if "k \<notin> g ` fst ` set z" for k using that zgroup_keys by metis
  then have "{k \<in> g ` fst ` set z. rsum (zgroup g k z) (\<lambda>r. 1) \<noteq> 0 \<and>
       (case agg_value (zgroup g k z) (AggSum arg) of Some s \<Rightarrow> visible s | None \<Rightarrow> False)} =
     {k \<in> S. visible (total_of (zgroup g k z) (\<lambda>x. x) arg)}"
    using assms(2,4) total0 by (auto simp: total_of_def split: if_splits) force+
  then show ?thesis using assms(3) by (simp add: filtered_count_def sum.If_cases of_bool_def Int_def)
qed

lemma map_of_group_sums:
  "map_of (group_sums g arg z) k =
     (if total_of (zgroup g k z) (\<lambda>x. x) arg = 0 then None else Some (total_of (zgroup g k z) (\<lambda>x. x) arg))"
proof -
  have "map_of (filter (\<lambda>(k, s). s \<noteq> 0) (map (\<lambda>k. (k, h k)) ks)) k = (if k \<in> set ks \<and> h k \<noteq> 0 then Some (h k) else None)"
    for h :: "'a \<Rightarrow> real" and ks by (induction ks) auto
  moreover have "total_of (zgroup g k z) (\<lambda>x. x) arg = 0" if "k \<notin> (g \<circ> fst) ` set z"
    using that zgroup_keys [of g k z] by (simp add: image_comp total_of_def)
  ultimately show ?thesis by (auto simp: group_sums_def)
qed

lemma group_sums_keys: "distinct (map fst (group_sums g arg z))"
  unfolding group_sums_def by (rule distinct_map_filter) (simp add: comp_def)

lemma transition_sum:
  assumes "finite S" "fst ` set dsums \<subseteq> S" "distinct (map fst dsums)"
  shows "transition visible aux dsums = (\<Sum>k \<in> S. case map_of dsums k of
      Some s \<Rightarrow> of_bool (visible (aux_sum aux k + s)) - of_bool (visible (aux_sum aux k)) | None \<Rightarrow> 0)"
  using assms(2,3)
proof (induction dsums)
  case (Cons p dsums)
  obtain k s where p: "p = (k, s)" by fastforce
  let ?h = "\<lambda>k s. of_bool (visible (aux_sum aux k + s)) - of_bool (visible (aux_sum aux k)) :: int"
  have k: "k \<in> S" "map_of dsums k = None" using Cons.prems by (auto simp: p map_of_eq_None_iff)
  have "(\<Sum>x \<in> S. case map_of (p # dsums) x of Some s \<Rightarrow> ?h x s | None \<Rightarrow> 0) =
      (\<Sum>x \<in> S. (if x = k then ?h k s else 0) + (case map_of dsums x of Some s \<Rightarrow> ?h x s | None \<Rightarrow> 0))"
    using k(2) by (intro sum.cong) (auto simp: p)
  also have "\<dots> = ?h k s + transition visible aux dsums"
    using assms(1) k(1) Cons by (simp add: sum.distrib sum.delta p)
  finally show ?case by (simp add: transition_def p)
qed (simp add: transition_def)

lemma merged_sums:
  assumes "plus_delta x y z" "sums_groups g arg x aux"
  shows "sums_groups g arg z (delete_sums (merge_sums (group_sums g arg y) aux))"
  unfolding sums_groups_def
proof
  fix k
  have total: "total_of (zgroup g k z) (\<lambda>x. x) arg = total_of (zgroup g k x) (\<lambda>x. x) arg + total_of (zgroup g k y) (\<lambda>x. x) arg"
    unfolding total_of_def by (rule rsum_plus_delta [OF plus_delta_zgroup [OF assms(1)]])
  have "aux_sum aux k = total_of (zgroup g k x) (\<lambda>x. x) arg" using assms(2) by (simp add: sums_groups_def)
  with total show "aux_sum (delete_sums (merge_sums (group_sums g arg y) aux)) k = total_of (zgroup g k z) (\<lambda>x. x) arg"
    by (auto simp: aux_sum_def delete_sums_def merge_sums_def map_of_group_sums split: option.splits)
qed

text \<open>C31: one refresh of a count of filtered groups keeps both tables right: the auxiliary table has the sum of
  every group, and the view the number of groups whose sum passes the filter. The filter must not
  pass 0, the sum the code takes for groups it does not know; the extractor accepts comparisons with
  \<open><\<close> or \<open>>\<close> and 0 only.\<close>
theorem filtered_state_maintained:
  assumes "plus_delta old delta new" "nonneg old" "nonneg new" "\<not> visible 0" "sums_groups g arg old aux"
    and "filtered_refresh visible g arg delta (aux, Some (int (filtered_count visible g arg old))) = (aux', count')"
  shows "sums_groups g arg new aux' \<and> count' = Some (int (filtered_count visible g arg new))"
proof -
  let ?S = "g ` fst ` (set old \<union> set delta \<union> set new)" and ?d = "group_sums g arg delta"
  let ?t = "\<lambda>z k. total_of (zgroup g k z) (\<lambda>x. x) arg"
  have S: "finite ?S" "g ` fst ` set old \<subseteq> ?S" "g ` fst ` set new \<subseteq> ?S" "fst ` set ?d \<subseteq> ?S"
    by (force simp: group_sums_def)+
  have total: "?t new k = ?t old k + ?t delta k" for k
    unfolding total_of_def by (rule rsum_plus_delta [OF plus_delta_zgroup [OF assms(1)]])
  have "transition visible aux ?d = (\<Sum>k \<in> ?S. of_bool (visible (?t new k)) - of_bool (visible (?t old k)))"
    unfolding transition_sum [OF S(1,4) group_sums_keys]
    using assms(5) by (intro sum.cong) (auto simp: map_of_group_sums total sums_groups_def)
  moreover have "int (filtered_count visible g arg old) = (\<Sum>k \<in> ?S. of_bool (visible (?t old k)))"
    "int (filtered_count visible g arg new) = (\<Sum>k \<in> ?S. of_bool (visible (?t new k)))"
    using filtered_count_sum [of old visible ?S g arg] filtered_count_sum [of new visible ?S g arg] assms(2-4) S by blast+
  ultimately have "int (filtered_count visible g arg old) + transition visible aux ?d = int (filtered_count visible g arg new)"
    by (simp add: sum_subtractf)
  then show ?thesis using assms(6) merged_sums [OF assms(1,5)] by (auto simp: filtered_refresh_def Let_def)
qed

theorem filtered_state_maintained_witness:
  "let old = [((1 :: nat, Some 5), 1), ((2, Some (-3)), 2), ((3, None), 1)]; delta = [((2, Some 9), 1), ((1, Some 5), -1), ((4, Some 1), 1)];
       aux = (\<lambda>k. if k = 1 then Some (Some 5) else if k = 2 then Some (Some (-6)) else if k = 3 then Some None else None);
       (aux', count') = filtered_refresh (sql_compare ''>'' 0) fst snd delta (aux, Some (int (filtered_count (sql_compare ''>'' 0) fst snd old)))
   in sums_groups fst snd (old @ delta) aux' \<and> count' = Some (int (filtered_count (sql_compare ''>'' 0) fst snd (old @ delta)))"
proof -
  let ?old = "[((1 :: nat, Some (5 :: real)), 1), ((2, Some (-3)), 2), ((3, None), 1)]"
  let ?delta = "[((2, Some (9 :: real)), 1), ((1 :: nat, Some 5), -1), ((4, Some 1), 1)]"
  let ?aux = "\<lambda>k. if k = 1 then Some (Some (5 :: real)) else if k = 2 then Some (Some (-6)) else if k = (3 :: nat) then Some None else None"
  obtain aux' count' where run: "filtered_refresh (sql_compare ''>'' 0) fst snd ?delta
      (?aux, Some (int (filtered_count (sql_compare ''>'' 0) fst snd ?old))) = (aux', count')" by fastforce
  have nn: "nonneg ?old" "nonneg (?old @ ?delta)" by (auto simp: nonneg_def weight_def)
  have aux: "sums_groups fst snd ?old ?aux"
    by (auto simp: sums_groups_def aux_sum_def total_of_def zgroup_def zfilter_def on_value_def)
  have "\<not> sql_compare ''>'' 0 0" by (simp add: sql_compare_def)
  from filtered_state_maintained [OF plus_delta_append nn this aux run] run show ?thesis by simp
qed

section \<open>Semi and anti joins\<close>

definition holds_matches :: "('l \<Rightarrow> 'r \<Rightarrow> bool) \<Rightarrow> 'l zset \<Rightarrow> 'r zset \<Rightarrow> 'l match_table \<Rightarrow> bool" where
  "holds_matches m left right aux \<longleftrightarrow> distinct (map fst aux) \<and>
     (\<forall>l. map_of aux l = (if weight left l = 0 then None else Some (weight left l, matches m right l)))"

text \<open>The rows of the view: the left rows with (or without) a match on the right.\<close>

definition saj_result :: "bool \<Rightarrow> ('l \<Rightarrow> 'r \<Rightarrow> bool) \<Rightarrow> ('l \<Rightarrow> 'o) \<Rightarrow> 'l zset \<Rightarrow> 'r zset \<Rightarrow> 'o zset" where
  "saj_result anti m out left right = zmap out (zfilter (\<lambda>l. saj_visible anti (matches m right l)) left)"

lemma matches_plus: "plus_delta x y z \<Longrightarrow> matches m z l = matches m x l + matches m y l"
  unfolding matches_def plus_delta_zsum by blast

lemma map_of_map_entries: "map_of (map (\<lambda>(l, x). (l, h l x)) ys) l = map_option (h l) (map_of ys l)"
  by (induction ys) auto

lemma entries_distinct: "distinct (map fst ys) \<Longrightarrow> distinct (map fst (map (\<lambda>(l, x). (l, h l x)) ys))"
  by (simp add: comp_def case_prod_unfold)

lemma map_of_filter_entries:
  assumes "distinct (map fst xs)"
  shows "map_of (filter (\<lambda>(l, x). h l x) xs) l = (case map_of xs l of Some x \<Rightarrow> if h l x then Some x else None | None \<Rightarrow> None)"
  using assms
proof (induction xs)
  case (Cons p xs)
  obtain k x where p: "p = (k, x)" by fastforce
  have "map_of (filter (\<lambda>(l, x). h l x) xs) l = None" "map_of xs l = None" if "k = l"
    using Cons.prems that by (auto simp: p map_of_eq_None_iff)
  with Cons show ?case by (auto simp: p)
qed simp

text \<open>The entries of the table after the three statements that change it.\<close>

lemma current_entries:
  assumes "holds_matches m left right aux" "plus_delta left dl left'" "plus_delta right dr right'" "nonneg left'"
    and "cur = insert_left m right' (zcompact dl) (merge_left (zcompact dl) (merge_right m dr aux))"
  shows "distinct (map fst cur)"
    "map_of cur l = (if weight left l = 0 \<and> weight left' l = 0 then None else Some (weight left' l, matches m right' l))"
proof -
  let ?b = "merge_left (zcompact dl) (merge_right m dr aux)"
  let ?new = "map (\<lambda>(l, w). (l, w, matches m right' l)) (filter (\<lambda>(l, w). map_of ?b l = None \<and> 0 < w) (zcompact dl))"
  have aux: "distinct (map fst aux)" "map_of aux l = (if weight left l = 0 then None else Some (weight left l, matches m right l))" for l
    using assms(1) by (auto simp: holds_matches_def)
  have r: "merge_right m dr aux = map (\<lambda>(l, x). (l, fst x, snd x + matches m dr l)) aux"
    by (auto simp: merge_right_def)
  have b: "?b = map (\<lambda>(l, x). (l, fst x + weight dl l, snd x + matches m dr l)) aux"
    by (auto simp: merge_left_def r map_of_zcompact)
  have bmap: "map_of ?b l = (if weight left l = 0 then None else Some (weight left' l, matches m right' l))" for l
    unfolding b map_of_map_entries using aux(2) plus_delta_weight [OF assms(2)] matches_plus [OF assms(3), of m] by auto
  have bdist: "distinct (map fst ?b)" unfolding b by (rule entries_distinct [OF aux(1)])
  have newdist: "distinct (map fst ?new)"
    by (rule entries_distinct) (rule distinct_map_filter [OF zcompact_distinct])
  have newmap: "map_of ?new l = (if weight left l = 0 \<and> weight left' l \<noteq> 0 then Some (weight left' l, matches m right' l) else None)"
    using plus_delta_weight [OF assms(2), of l] assms(4) [unfolded nonneg_def, rule_format, of l] bmap
    unfolding map_of_map_entries map_of_filter_entries [OF zcompact_distinct]
    by (auto simp: map_of_zcompact)
  show "map_of cur l = (if weight left l = 0 \<and> weight left' l = 0 then None else Some (weight left' l, matches m right' l))"
    unfolding assms(5) insert_left_def map_of_append map_add_def newmap unfolding bmap by simp
  have "fst ` set ?b \<inter> fst ` set ?new = {}"
    by (force simp: map_of_eq_None_iff)
  then show "distinct (map fst cur)" unfolding assms(5) insert_left_def map_append distinct_append set_map
    using bdist newdist by (simp only: set_map)
qed

lemma weight_visible_rows:
  assumes "distinct (map fst aux)" "finite S" "fst ` set aux \<subseteq> S"
    and "\<And>l. map_of aux l = (if c l then None else Some (n l, k l))" "\<And>l. c l \<Longrightarrow> n l = 0" "\<And>l. 0 \<le> n l"
  shows "weight (visible_rows anti affected out aux) x =
    (\<Sum>l \<in> S. if out l = x \<and> affected l \<and> saj_visible anti (k l) then n l else 0)"
proof -
  have "weight (visible_rows anti affected out as) x =
      (\<Sum>l \<in> S. case map_of as l of Some (lc, mc) \<Rightarrow> if out l = x \<and> affected l \<and> saj_visible anti mc \<and> 0 < lc then lc else 0 | None \<Rightarrow> 0)"
    if "distinct (map fst as)" "fst ` set as \<subseteq> S" for as
    using that
  proof (induction as)
    case (Cons p as)
    obtain l lc mc where p: "p = (l, lc, mc)" by (metis prod_cases3)
    let ?h = "\<lambda>l lc mc. if out l = x \<and> affected l \<and> saj_visible anti mc \<and> 0 < lc then lc else 0"
    have l: "l \<in> S" "map_of as l = None" using Cons.prems by (auto simp: p map_of_eq_None_iff)
    have "(\<Sum>y \<in> S. case map_of (p # as) y of Some (lc, mc) \<Rightarrow> ?h y lc mc | None \<Rightarrow> 0) =
        (\<Sum>y \<in> S. (if y = l then ?h l lc mc else 0) + (case map_of as y of Some (lc, mc) \<Rightarrow> ?h y lc mc | None \<Rightarrow> 0))"
      using l(2) by (intro sum.cong) (auto simp: p)
    also have "\<dots> = ?h l lc mc + weight (visible_rows anti affected out as) x"
      using assms(2) l(1) Cons by (simp add: sum.distrib sum.delta p)
    finally show ?case by (simp add: visible_rows_def p weight_def)
  qed (simp add: visible_rows_def weight_def)
  moreover have "(case map_of aux l of Some (lc, mc) \<Rightarrow> if out l = x \<and> affected l \<and> saj_visible anti mc \<and> 0 < lc then lc else 0 | None \<Rightarrow> 0) =
      (if out l = x \<and> affected l \<and> saj_visible anti (k l) then n l else 0)" for l
    using assms(5) [of l] assms(6) [of l] by (auto simp: assms(4))
  ultimately show ?thesis using assms(1,3) by simp
qed

lemma weight_saj_result:
  assumes "finite S" "fst ` set left \<subseteq> S"
  shows "weight (saj_result anti m out left right) x =
    (\<Sum>l \<in> S. if out l = x \<and> saj_visible anti (matches m right l) then weight left l else 0)"
proof -
  have "weight (saj_result anti m out left right) x =
      zsum left (\<lambda>l. if out l = x \<and> saj_visible anti (matches m right l) then 1 else 0)"
    unfolding weight_def saj_result_def by (simp add: comp_def) (rule arg_cong [where f = "zsum left"], auto)
  also have "\<dots> = (\<Sum>l \<in> S. weight left l * (if out l = x \<and> saj_visible anti (matches m right l) then 1 else 0))"
    by (rule zsum_support [OF assms])
  finally show ?thesis by (simp add: if_distrib cong: if_cong)
qed

lemma visible_positive: "\<forall>(r, w) \<in> set (visible_rows anti affected out aux). 0 < w"
  by (auto simp: visible_rows_def)

lemma weight_deleted_rows:
  assumes "distinct (map fst table)" "weight rows r \<le> weight (table_zset table) r" "0 \<le> weight rows r"
  shows "weight (table_zset (delete_net (zcompact (zscale (- 1) rows)) table)) r = weight (table_zset table) r - weight rows r"
proof -
  have "weight (zscale (- 1) rows) r = - weight rows r" by (simp add: weight_def)
  with assms show ?thesis by (auto simp: weight_delete [OF assms(1)] min_def)
qed

text \<open>C29: one refresh of a view with a semi or anti join keeps both tables right: the auxiliary table has, for
  every left row, the number of its copies and of its matches on the changed right side, and the view
  is the bag of the left rows that have (or do not have) a match. Both sides may change at once.\<close>
theorem semi_anti_state_maintained:
  assumes "plus_delta left left_delta left'" "plus_delta right right_delta right'"
    and "nonneg left" "nonneg left'" "distinct (map fst table)"
    and "holds_matches m left right aux" "zeq (table_zset table) (saj_result anti m out left right)"
    and "saj_refresh anti m out right' left_delta right_delta (aux, table) = (aux', table')"
  shows "holds_matches m left' right' aux' \<and> zeq (table_zset table') (saj_result anti m out left' right') \<and>
    distinct (map fst table')"
proof -
  let ?cur = "insert_left m right' (zcompact left_delta) (merge_left (zcompact left_delta) (merge_right m right_delta aux))"
  let ?aff = "saj_affected anti aux ?cur"
  let ?S = "fst ` (set left \<union> set left' \<union> set left_delta) \<union> fst ` set aux \<union> fst ` set ?cur"
  note cur = current_entries [OF assms(6,1,2,4) refl]
  have aux: "distinct (map fst aux)" "\<And>l. map_of aux l = (if weight left l = 0 then None else Some (weight left l, matches m right l))"
    using assms(6) by (auto simp: holds_matches_def)
  have run: "aux' = filter (\<lambda>(l, lc, mc). 0 < lc) ?cur"
    "table' = insert_rows (copies (visible_rows anti ?aff out ?cur))
       (delete_net (zcompact (zscale (- 1) (visible_rows anti ?aff out aux))) table)"
    using assms(8) by (auto simp: saj_refresh_def Let_def)
  have pos: "0 \<le> weight left l" "0 \<le> weight left' l" for l using assms(3,4) by (simp_all add: nonneg_def)
  have finite: "finite ?S" by simp
  have removed: "weight (visible_rows anti ?aff out aux) x =
      (\<Sum>l \<in> ?S. if out l = x \<and> ?aff l \<and> saj_visible anti (matches m right l) then weight left l else 0)" for x
    by (rule weight_visible_rows [OF aux(1) finite _ aux(2)]) (use pos in auto)
  have added: "weight (visible_rows anti ?aff out ?cur) x =
      (\<Sum>l \<in> ?S. if out l = x \<and> ?aff l \<and> saj_visible anti (matches m right' l) then weight left' l else 0)" for x
    by (rule weight_visible_rows [OF cur(1) finite _ cur(2)]) (use pos in auto)
  have result: "weight (saj_result anti m out left right) x =
      (\<Sum>l \<in> ?S. if out l = x \<and> saj_visible anti (matches m right l) then weight left l else 0)"
    "weight (saj_result anti m out left' right') x =
      (\<Sum>l \<in> ?S. if out l = x \<and> saj_visible anti (matches m right' l) then weight left' l else 0)" for x
    by (rule weight_saj_result; auto)+
  have same: "weight left l = weight left' l \<and> saj_visible anti (matches m right l) = saj_visible anti (matches m right' l) \<or>
      weight left l = 0 \<and> weight left' l = 0" if "\<not> ?aff l" for l
    using that by (auto simp: saj_affected_def aux(2) cur(2) split: if_splits)
  have fits: "weight (visible_rows anti ?aff out aux) x \<le> weight (table_zset table) x" "0 \<le> weight (visible_rows anti ?aff out aux) x" for x
    using assms(7) pos unfolding zeq_def by (auto simp: result removed intro!: sum_mono sum_nonneg)
  have "int (count_list (copies (visible_rows anti ?aff out ?cur)) x) = weight (visible_rows anti ?aff out ?cur) x" for x
    using count_copies [OF visible_positive] by (simp add: weight_def)
  then have "weight (table_zset table') x = weight (table_zset table) x - weight (visible_rows anti ?aff out aux) x
      + weight (visible_rows anti ?aff out ?cur) x" for x
    unfolding run weight_insert weight_deleted_rows [OF assms(5) fits] by simp
  moreover have "weight (table_zset table) x = weight (saj_result anti m out left right) x" for x using assms(7) by (simp add: zeq_def)
  moreover have "(if out l = x \<and> saj_visible anti (matches m right l) then weight left l else 0) -
        (if out l = x \<and> ?aff l \<and> saj_visible anti (matches m right l) then weight left l else 0) +
        (if out l = x \<and> ?aff l \<and> saj_visible anti (matches m right' l) then weight left' l else 0) =
      (if out l = x \<and> saj_visible anti (matches m right' l) then weight left' l else 0)" for l x
    using same [of l] by (cases "?aff l") auto
  ultimately have "weight (table_zset table') x = weight (saj_result anti m out left' right') x" for x
    unfolding result removed added by (simp add: sum_subtractf [symmetric] sum.distrib [symmetric])
  moreover have "map_of aux' l = (if weight left' l = 0 then None else Some (weight left' l, matches m right' l))" for l
    unfolding run map_of_filter_entries [OF cur(1), of "\<lambda>l (lc, mc). 0 < lc"]
    using pos(2) [of l] by (auto simp: cur(2))
  ultimately show ?thesis
    using distinct_map_filter [OF cur(1)] insert_distinct [OF delete_distinct [OF assms(5)]]
    by (auto simp: holds_matches_def zeq_def run)
qed

theorem semi_anti_state_maintained_witness:
  "let left = [(1 :: nat, 2), (2, 1)]; right = [(1 :: nat, 1), (3, 1)]; dl = [(3, 1), (1, -1)]; dr = [(1, -1), (2, 2)];
       m = (=); out = (\<lambda>l. l mod 10); aux = [(1, 2, 1), (2, 1, 0)]; table = [(0, 1), (5, 1)];
       (aux', table') = saj_refresh False m out (right @ dr) dl dr (aux, table)
   in holds_matches m (left @ dl) (right @ dr) aux' \<and>
      zeq (table_zset table') (saj_result False m out (left @ dl) (right @ dr)) \<and> distinct (map fst table')"
proof -
  let ?left = "[(1 :: nat, 2 :: int), (2, 1)]" and ?right = "[(1 :: nat, 1 :: int), (3, 1)]" and ?dl = "[(3 :: nat, 1 :: int), (1, -1)]"
    and ?dr = "[(1 :: nat, -1 :: int), (2, 2)]" and ?out = "\<lambda>l. l mod 10 :: nat"
    and ?aux = "[(1 :: nat, 2 :: int, 1 :: int), (2, 1, 0)]" and ?table = "[(0 :: nat, 1 :: nat), (5, 1)]"
  obtain aux' table' where run: "saj_refresh False (=) ?out (?right @ ?dr) ?dl ?dr (?aux, ?table) = (aux', table')" by fastforce
  have "nonneg ?left" "nonneg (?left @ ?dl)" "distinct (map fst ?table)"
    "holds_matches (=) ?left ?right ?aux" "zeq (table_zset ?table) (saj_result False (=) ?out ?left ?right)"
    by (auto simp: nonneg_def weight_def holds_matches_def matches_def zeq_def table_zset_def saj_result_def zmap_def zfilter_def saj_visible_def)
  from semi_anti_state_maintained [OF plus_delta_append plus_delta_append this run] run show ?thesis by simp
qed

end
