(* ===== verification/Affected_Refresh.thy ===== *)
theory Affected_Refresh
  imports Aux_State Aux_Correct
begin

text \<open>
  Refreshing the affected rows only: DELETE the rows of the view that a filter selects and INSERT the
  rows of the query that it selects (\<open>BuildDeleteInsertRefreshSQL\<close>, \<open>BuildAffectedKeyRefreshSQL\<close> and
  \<open>CompileWindowRecompute\<close>). The contract is stated once, in a locale: the filter covers every row
  that changed. Both filters of the code are instances, a null-safe match against the changed keys
  and the membership \<open>IN\<close>, which is never true for NULL.
\<close>

section \<open>The statements\<close>

definition run_delete_insert :: "('o \<Rightarrow> bool) \<Rightarrow> 'o zset \<Rightarrow> 'o zset \<Rightarrow> 'o zset" where
  "run_delete_insert affected table query = zfilter (\<lambda>r. \<not> affected r) table @ zfilter affected query"

text \<open>The rows that \<open>BuildSignedMultisetDeltaInsertSQL\<close> adds to the delta table of the view.\<close>

definition signed_delta :: "('o \<Rightarrow> bool) \<Rightarrow> 'o zset \<Rightarrow> 'o zset \<Rightarrow> 'o zset" where
  "signed_delta affected table query = zscale (- 1) (zfilter affected table) @ zfilter affected query"

lemma weight_zfilter: "weight (zfilter p z) r = (if p r then weight z r else 0)"
proof -
  have "(if p x then if x = r then 1 else 0 else 0 :: int) = (if x = r then if p r then 1 else 0 else 0)" for x by simp
  then show ?thesis by (cases "p r") (simp_all add: weight_def)
qed

lemma weight_append [simp]: "weight (x @ y) r = weight x r + weight y r"
  by (simp add: weight_def)

lemma weight_zscale [simp]: "weight (zscale k z) r = k * weight z r"
  by (simp add: weight_def)

section \<open>The contract\<close>

locale affected_rows =
  fixes affected :: "'o \<Rightarrow> bool" and old :: "'o zset" and new :: "'o zset"
  assumes covers: "\<not> affected r \<Longrightarrow> weight old r = weight new r"
begin

lemma refreshed: "zeq table old \<Longrightarrow> zeq (run_delete_insert affected table new) new"
  by (simp add: zeq_def run_delete_insert_def weight_zfilter covers)

lemma cascade: "zeq table old \<Longrightarrow> plus_delta old (signed_delta affected table new) new"
  by (simp add: zeq_def plus_delta_def signed_delta_def weight_zfilter covers)

end

text \<open>A query whose rows with a key depend on the base rows with that key only.\<close>

definition keyed_query :: "('r \<Rightarrow> 'k) \<Rightarrow> ('o \<Rightarrow> 'k) \<Rightarrow> ('r zset \<Rightarrow> 'o zset) \<Rightarrow> bool" where
  "keyed_query key out_key query \<longleftrightarrow>
     (\<forall>k x y. zeq (zgroup key k x) (zgroup key k y) \<longrightarrow> zeq (zgroup out_key k (query x)) (zgroup out_key k (query y)))"

lemma keyed_unchanged:
  assumes "keyed_query key out_key query" "plus_delta old delta new" "out_key r \<notin> key ` fst ` set delta"
  shows "weight (query old) r = weight (query new) r"
proof -
  have "zgroup key (out_key r) delta = []" using assms(3) zgroup_keys by metis
  then have "zeq (zgroup key (out_key r) old) (zgroup key (out_key r) new)"
    using plus_delta_zgroup [OF assms(2), of key "out_key r"] by (simp add: zeq_def plus_delta_def weight_def)
  with assms(1) have "zeq (zgroup out_key (out_key r) (query old)) (zgroup out_key (out_key r) (query new))"
    by (simp add: keyed_query_def)
  then show ?thesis by (auto simp: zeq_def weight_zgroup dest: spec [of _ r])
qed

section \<open>The two filters\<close>

definition in_null_safe :: "'k \<Rightarrow> 'k list \<Rightarrow> bool" where
  "in_null_safe k keys = (k \<in> set keys)"

text \<open>NULL is \<open>None\<close>; comparing with it is never true.\<close>

definition sql_in :: "'a option \<Rightarrow> 'a option list \<Rightarrow> bool" where
  "sql_in k keys = (k \<noteq> None \<and> k \<in> set keys)"

definition changed_keys :: "('r \<Rightarrow> 'k) \<Rightarrow> 'r zset \<Rightarrow> 'k list" where
  "changed_keys key delta = remdups (map (key \<circ> fst) delta)"

lemma set_changed_keys: "set (changed_keys key delta) = key ` fst ` set delta"
  by (simp add: changed_keys_def image_comp)

definition null_safe_filter :: "('r \<Rightarrow> 'k) \<Rightarrow> ('o \<Rightarrow> 'k) \<Rightarrow> 'r zset \<Rightarrow> 'o \<Rightarrow> bool" where
  "null_safe_filter key out_key delta r = in_null_safe (out_key r) (changed_keys key delta)"

definition partition_in_filter :: "('r \<Rightarrow> 'a option) \<Rightarrow> ('o \<Rightarrow> 'a option) \<Rightarrow> 'r zset \<Rightarrow> 'o \<Rightarrow> bool" where
  "partition_in_filter key out_key delta r = sql_in (out_key r) (changed_keys key delta)"

locale keyed_refresh =
  fixes key :: "'r \<Rightarrow> 'k" and out_key :: "'o \<Rightarrow> 'k" and query :: "'r zset \<Rightarrow> 'o zset" and old delta new :: "'r zset"
  assumes keyed: "keyed_query key out_key query" and change: "plus_delta old delta new"

sublocale keyed_refresh \<subseteq> null_safe: affected_rows "null_safe_filter key out_key delta" "query old" "query new"
  by unfold_locales (use keyed change keyed_unchanged in \<open>auto simp: null_safe_filter_def in_null_safe_def set_changed_keys\<close>)

locale partition_refresh = keyed_refresh key out_key query old delta new
  for key :: "'r \<Rightarrow> 'a option" and out_key :: "'o \<Rightarrow> 'a option" and query :: "'r zset \<Rightarrow> 'o zset" and old delta new :: "'r zset" +
  assumes no_null: "None \<notin> key ` fst ` set delta"

sublocale partition_refresh \<subseteq> in_filter: affected_rows "partition_in_filter key out_key delta" "query old" "query new"
proof
  fix r assume "\<not> partition_in_filter key out_key delta r"
  then have "out_key r \<notin> key ` fst ` set delta" using no_null by (force simp: partition_in_filter_def sql_in_def set_changed_keys)
  then show "weight (query old) r = weight (query new) r" by (rule keyed_unchanged [OF keyed change])
qed

section \<open>Queries with groups and with windows\<close>

definition group_rows :: "('r \<Rightarrow> 'k) \<Rightarrow> (string \<times> 'r agg) list \<Rightarrow> 'r zset \<Rightarrow> ('k \<times> agg_row) zset" where
  "group_rows g cols z =
     map (\<lambda>k. ((k, agg_columns cols (zgroup g k z)), 1))
       (filter (\<lambda>k. rsum (zgroup g k z) (\<lambda>r. 1) \<noteq> 0) (remdups (map (g \<circ> fst) z)))"

text \<open>Every row with the aggregates over its partition.\<close>

definition window_rows :: "('r \<Rightarrow> 'k) \<Rightarrow> (string \<times> 'r agg) list \<Rightarrow> 'r zset \<Rightarrow> ('r \<times> agg_row) zset" where
  "window_rows key cols z = zmap (\<lambda>r. (r, agg_columns cols (zgroup key (key r) z))) z"

lemma rsum_zeq: "zeq x y \<Longrightarrow> rsum x h = rsum y h"
  using rsum_plus_delta [of y "[]" x h] by (simp add: plus_delta_def zeq_def weight_def)

lemma agg_columns_zeq:
  assumes "zeq x y"
  shows "agg_columns cols x = agg_columns cols y"
proof
  fix c
  show "agg_columns cols x c = agg_columns cols y c"
    using agg_value_cong(1) [OF rsum_zeq [OF assms]] by (simp add: agg_columns_def split: option.splits)
qed

lemma weight_group_rows: "weight (group_rows g cols z) (k, row) =
    of_bool (rsum (zgroup g k z) (\<lambda>r. 1) \<noteq> 0 \<and> row = agg_columns cols (zgroup g k z))"
proof -
  have "weight (map (\<lambda>k. ((k, f k), 1)) ks) (k, row) = of_bool (k \<in> set ks \<and> row = f k)" if "distinct ks" for ks and f :: "_ \<Rightarrow> agg_row"
    using that by (induction ks) (auto simp: weight_def)
  moreover have "k \<in> (g \<circ> fst) ` set z" if "rsum (zgroup g k z) (\<lambda>r. 1) \<noteq> 0"
    using that zgroup_keys [of g k z] by (auto simp: image_comp)
  ultimately show ?thesis by (auto simp: group_rows_def)
qed

lemma keyed_group_rows: "keyed_query g fst (group_rows g cols)"
  unfolding keyed_query_def zeq_def [of "zgroup fst _ _"]
proof (intro allI impI)
  fix k x y r
  assume "zeq (zgroup g k x) (zgroup g k y)"
  then show "weight (zgroup fst k (group_rows g cols x)) r = weight (zgroup fst k (group_rows g cols y)) r"
    by (cases r) (auto simp: weight_zgroup weight_group_rows rsum_zeq agg_columns_zeq)
qed

lemma weight_window_rows: "weight (window_rows key cols z) (r, row) =
    (if row = agg_columns cols (zgroup key (key r) z) then weight z r else 0)"
proof -
  let ?f = "\<lambda>r. agg_columns cols (zgroup key (key r) z)"
  have "weight (window_rows key cols z) (r, row) = zsum z (\<lambda>x. if x = r \<and> ?f x = row then 1 else 0)"
    by (simp add: window_rows_def weight_def comp_def)
  also have "\<dots> = zsum z (\<lambda>x. if x = r then if ?f r = row then 1 else 0 else 0)"
    by (rule arg_cong [where f = "zsum z"]) auto
  also have "\<dots> = (if row = ?f r then weight z r else 0)" by (cases "row = ?f r") (auto simp: weight_def)
  finally show ?thesis .
qed

lemma keyed_window_rows: "keyed_query key (key \<circ> fst) (window_rows key cols)"
  unfolding keyed_query_def zeq_def [of "zgroup (key \<circ> fst) _ _"]
proof (intro allI impI)
  fix k x y and r :: "_ \<times> agg_row"
  assume "zeq (zgroup key k x) (zgroup key k y)"
  moreover from this have "weight x (fst r) = weight y (fst r)" if "key (fst r) = k"
    using that by (auto simp: zeq_def weight_zgroup dest: spec [of _ "fst r"])
  ultimately show "weight (zgroup (key \<circ> fst) k (window_rows key cols x)) r = weight (zgroup (key \<circ> fst) k (window_rows key cols y)) r"
    by (cases r) (auto simp: weight_zgroup weight_window_rows agg_columns_zeq)
qed

interpretation full: affected_rows "\<lambda>r. True" old new for old new :: "'o zset"
  by unfold_locales simp

interpretation grouped: keyed_refresh g fst "group_rows g cols" old delta "old @ delta"
  for g :: "'r \<Rightarrow> 'k" and cols old delta
  by unfold_locales (rule keyed_group_rows, rule plus_delta_append)

text \<open>A window whose partition column is never NULL, and one where it may be.\<close>

interpretation windowed: partition_refresh "Some \<circ> key" "Some \<circ> key \<circ> fst" "window_rows (Some \<circ> key) cols" old delta "old @ delta"
  for key :: "'r \<Rightarrow> 'a" and cols old delta
  by unfold_locales (rule keyed_window_rows, rule plus_delta_append, auto)

section \<open>Properties\<close>

text \<open>C32: refreshing the affected groups gives the view of the changed rows: when the rows of a group depend on
  the base rows of that group only, deleting the groups that a null-safe match with the changed keys
  selects and inserting them from the query turns the old view into the new one, and the signed rows
  for the views above are exactly the change of the view.\<close>
theorem affected_groups_refreshed:
  assumes "keyed_query key out_key query" "plus_delta old delta new" "zeq table (query old)"
  shows "zeq (run_delete_insert (null_safe_filter key out_key delta) table (query new)) (query new) \<and>
    plus_delta (query old) (signed_delta (null_safe_filter key out_key delta) table (query new)) (query new)"
proof -
  have "keyed_refresh key out_key query old delta new" using assms(1,2) by (rule keyed_refresh.intro)
  then have "affected_rows (null_safe_filter key out_key delta) (query old) (query new)"
    unfolding affected_rows_def using keyed_unchanged [OF assms(1,2)]
    by (auto simp: null_safe_filter_def in_null_safe_def set_changed_keys)
  with assms(3) show ?thesis by (auto intro: affected_rows.refreshed affected_rows.cascade)
qed

theorem affected_groups_refreshed_witness:
  "let old = [((1 :: nat, Some (2 :: real)), 1)]; delta = [((1, Some 3), 1), ((2, None), 1)]; cols = [(''total'', AggSum snd)];
       affected = null_safe_filter fst fst delta
   in zeq (run_delete_insert affected (group_rows fst cols old) (group_rows fst cols (old @ delta))) (group_rows fst cols (old @ delta)) \<and>
      plus_delta (group_rows fst cols old) (signed_delta affected (group_rows fst cols old) (group_rows fst cols (old @ delta)))
        (group_rows fst cols (old @ delta))"
  unfolding Let_def by (rule affected_groups_refreshed [OF keyed_group_rows plus_delta_append]) (simp add: zeq_def)

text \<open>the filter of the window refresh selects partitions with \<open>IN\<close>, so the partition whose key is NULL is
  never selected: after a change in it, the table still holds its old rows.\<close>
theorem null_partition_stale:
  assumes "zeq table (query old)" "out_key r = None" "weight (query old) r \<noteq> weight (query new) r"
  shows "weight (run_delete_insert (partition_in_filter key out_key delta) table (query new)) r = weight (query old) r \<and>
    \<not> zeq (run_delete_insert (partition_in_filter key out_key delta) table (query new)) (query new)"
proof -
  have "weight (run_delete_insert (partition_in_filter key out_key delta) table (query new)) r = weight (query old) r"
    using assms(1,2) by (simp add: run_delete_insert_def weight_zfilter partition_in_filter_def sql_in_def zeq_def)
  with assms(3) show ?thesis unfolding zeq_def by metis
qed

theorem null_partition_stale_witness:
  "let old = []; new = [((None :: nat option, 7 :: nat), 1)]; query = window_rows fst [(''n'', AggCountStar)]; r = ((None, 7), [''n'' \<mapsto> 1])
   in weight (run_delete_insert (partition_in_filter fst (fst \<circ> fst) new) [] (query new)) r = weight (query old) r \<and>
      \<not> zeq (run_delete_insert (partition_in_filter fst (fst \<circ> fst) new) [] (query new)) (query new)"
proof -
  let ?query = "window_rows fst [(''n'', AggCountStar)] :: (nat option \<times> nat) zset \<Rightarrow> _"
    and ?new = "[((None, 7), 1)] :: (nat option \<times> nat) zset"
  have "[''n'' \<mapsto> 1] = agg_columns [(''n'', AggCountStar)] (zgroup fst None ?new)"
    by (auto simp: agg_columns_def zgroup_def zfilter_def)
  then have "weight (?query []) ((None, 7), [''n'' \<mapsto> 1]) \<noteq> weight (?query ?new) ((None, 7), [''n'' \<mapsto> 1])"
    unfolding weight_window_rows by (simp add: weight_def)
  moreover have "zeq [] (?query [])" by (simp add: zeq_def window_rows_def zmap_def)
  moreover have "(fst \<circ> fst) ((None, 7 :: nat), [''n'' \<mapsto> 1 :: real]) = (None :: nat option)" by simp
  ultimately show ?thesis
    unfolding Let_def by (intro null_partition_stale)
qed

end
