(* ===== verification/Helpers_Correct.thy ===== *)
theory Helpers_Correct
  imports Refresh_Helpers Affected_Refresh Delta_Semantics Apply_Correct
begin

text \<open>
  What the helpers of the refresh guarantee: a delta plan that is taken for empty has no rows, the
  refresh of a full outer join covers the changed keys, a row of aggregates over an empty source is
  blanked, and the placeholders of snapshots are different for different catalogs.
\<close>

section \<open>Empty delta plans\<close>

text \<open>The operators that are evaluated as a whole give no rows for no rows: the empty result, DISTINCT,
  INSERT, a grouped aggregate and a union.\<close>

definition rowless_laws :: "('r, 'v) plan_semantics \<Rightarrow> bool" where
  "rowless_laws P \<longleftrightarrow>
     (\<forall>op zs. op_type op = LOGICAL_EMPTY_RESULT \<longrightarrow> other_rows P op zs = []) \<and>
     (\<forall>op zs. op_type op \<in> {LOGICAL_INSERT, LOGICAL_DISTINCT, LOGICAL_UNION, LOGICAL_AGGREGATE_AND_GROUP_BY} \<longrightarrow>
        (op_type op = LOGICAL_AGGREGATE_AND_GROUP_BY \<longrightarrow> groups (op_info op) \<noteq> []) \<longrightarrow> list_all ((=) []) zs \<longrightarrow> other_rows P op zs = [])"

text \<open>No common table expression, whose definition is what the test looks at, and no abstract join.\<close>

fun no_cte :: "LogicalOperator \<Rightarrow> bool" where
  "no_cte (LogicalOp t oi es cs) \<longleftrightarrow> t \<noteq> LOGICAL_MATERIALIZED_CTE \<and> t \<noteq> LOGICAL_JOIN \<and> list_all no_cte cs"

lemma join_rows_empty:
  "join_rows jt c [] [] = []"
  "jt = JOIN_INNER \<or> jt = JOIN_LEFT \<Longrightarrow> join_rows jt c [] y = []"
  "jt = JOIN_INNER \<or> jt = JOIN_RIGHT \<Longrightarrow> join_rows jt c x [] = []"
proof -
  have left: "zjoin c [] b = []" and right: "zjoin c a [] = []" for a b by (simp_all add: zjoin_def zfilter_def)
  have "unmatched_rows f [] b = []" for f b by (simp add: unmatched_rows_def zfilter_def)
  with left right show "join_rows jt c [] [] = []"
    "jt = JOIN_INNER \<or> jt = JOIN_LEFT \<Longrightarrow> join_rows jt c [] y = []"
    "jt = JOIN_INNER \<or> jt = JOIN_RIGHT \<Longrightarrow> join_rows jt c x [] = []"
    by (auto simp: join_rows_def)
qed

declare IsEmptyDeltaPlan.simps [simp del]

lemma empty_join:
  assumes "is_join_node t"
  shows "IsEmptyDeltaPlan (LogicalOp t oi es (l # r # rest)) \<longleftrightarrow> rest = [] \<and>
    (case effective_type t oi of
       JOIN_INNER \<Rightarrow> IsEmptyDeltaPlan l \<or> IsEmptyDeltaPlan r | JOIN_LEFT \<Rightarrow> IsEmptyDeltaPlan l
     | JOIN_RIGHT \<Rightarrow> IsEmptyDeltaPlan r | JOIN_OUTER \<Rightarrow> IsEmptyDeltaPlan l \<and> IsEmptyDeltaPlan r | _ \<Rightarrow> False)"
proof -
  from assms consider "t = LOGICAL_COMPARISON_JOIN" | "t = LOGICAL_CROSS_PRODUCT" | "t = LOGICAL_ANY_JOIN" by (auto simp: is_join_node_def)
  then show ?thesis
    by cases (cases rest; simp add: IsEmptyDeltaPlan.simps effective_type_def split: option.split JoinType.split)+
qed

lemma empty_join_cases:
  assumes "IsEmptyDeltaPlan (LogicalOp t oi es (l # r # rest))" "is_join_node t"
  obtains "effective_type t oi \<in> {JOIN_INNER, JOIN_LEFT}" "IsEmptyDeltaPlan l"
  | "effective_type t oi \<in> {JOIN_INNER, JOIN_RIGHT}" "IsEmptyDeltaPlan r"
  | "effective_type t oi = JOIN_OUTER" "IsEmptyDeltaPlan l" "IsEmptyDeltaPlan r"
  using assms(1) that unfolding empty_join [OF assms(2)] by (cases "effective_type t oi") auto

lemma empty_operator_cases:
  assumes "IsEmptyDeltaPlan (LogicalOp t oi es cs)" "\<not> is_join_node t" "t \<noteq> LOGICAL_MATERIALIZED_CTE" "t \<noteq> LOGICAL_JOIN"
  obtains (result) "t = LOGICAL_EMPTY_RESULT"
  | (unary) c where "cs = [c]" "IsEmptyDeltaPlan c"
      "t \<in> {LOGICAL_INSERT, LOGICAL_PROJECTION, LOGICAL_FILTER, LOGICAL_LIMIT, LOGICAL_ORDER_BY, LOGICAL_DISTINCT}"
  | (union) "t = LOGICAL_UNION" "list_all IsEmptyDeltaPlan cs"
  | (aggregate) c where "t = LOGICAL_AGGREGATE_AND_GROUP_BY" "groups oi \<noteq> []" "cs = [c]" "IsEmptyDeltaPlan c"
  using assms that unfolding IsEmptyDeltaPlan.simps is_join_node_def
  by (simp split: if_split_asm list.split_asm)

lemma empty_join_tree:
  assumes "IsEmptyDeltaPlan op" "no_cte op"
    "\<And>i. i < leaf_count op \<Longrightarrow> IsEmptyDeltaPlan (leaf_node (CollectJoinLeaves op path b ! i)) \<Longrightarrow> d (n + i) = []"
  shows "eval_join S d n op = []"
  using assms
proof (induction op arbitrary: n path b rule: join_tree_induct)
  case (leaf t oi es cs)
  from leaf(4) [of 0] leaf(1,2) have "d n = []" by (simp add: join_simps)
  with leaf(1) show ?case by (simp add: zmap_def join_simps)
next
  case (join t oi es l r rest)
  let ?lp = "path @ [0]" and ?rp = "path @ [1]"
  let ?lb = "b \<or> outer_side t oi [JOIN_RIGHT, JOIN_OUTER]" and ?rb = "b \<or> outer_side t oi [JOIN_LEFT, JOIN_OUTER]"
  have len: "length (CollectJoinLeaves c p x) = leaf_count c" for c p x by (rule CollectJoinLeaves_length)
  have left: "d (n + i) = []" if "i < leaf_count l" "IsEmptyDeltaPlan (leaf_node (CollectJoinLeaves l ?lp ?lb ! i))" for i
    using join(6) [of i] that join(1) len [of l ?lp ?lb] by (simp add: nth_append join_simps)
  have right: "d (n + leaf_count l + i) = []"
    if "i < leaf_count r" "IsEmptyDeltaPlan (leaf_node (CollectJoinLeaves r ?rp ?rb ! i))" for i
    using join(6) [of "leaf_count l + i"] that join(1) len [of l ?lp ?lb] by (simp add: nth_append add.assoc join_simps)
  have l: "eval_join S d n l = []" if "IsEmptyDeltaPlan l" by (rule join(2) [of ?lp ?lb]) (use that join(5) left in auto)
  have r: "eval_join S d (n + leaf_count l) r = []" if "IsEmptyDeltaPlan r"
    by (rule join(3) [of ?rp ?rb]) (use that join(5) right in auto)
  show ?case
    unfolding eval_join_join(1) [OF join(1)]
    by (rule empty_join_cases [OF join(4) join(1)]) (auto simp: l r join_rows_empty)
next
  case (degenerate t oi es cs)
  then show ?case by (simp add: join_simps)
qed

lemma leaf_no_cte: "no_cte op \<Longrightarrow> i < leaf_count op \<Longrightarrow> no_cte (leaf_node (CollectJoinLeaves op path b ! i))"
proof (induction op arbitrary: i path b rule: join_tree_induct)
  case (join t oi es l r rest)
  then show ?case by (simp add: nth_append join_simps)
qed (auto simp: join_simps)


definition no_rows_semantics :: "(nat, nat) plan_semantics" where
  "no_rows_semantics = \<lparr>scan_row = \<lambda>op r. [r], keep_row = \<lambda>op r. True, project_row = \<lambda>op r. r, unnest_row = \<lambda>op r. [r],
     constant_rows = \<lambda>op. [], join_values = \<lparr>eval_expr = \<lambda>e r. None, other_comparison = \<lambda>c r. True, any_condition = \<lambda>oi r. True\<rparr>,
     join_row = \<lambda>op r. 0, other_rows = \<lambda>op zs. []\<rparr>"

definition pruned_join_plan :: LogicalOperator where
  "pruned_join_plan = LogicalOp LOGICAL_PROJECTION no_info []
     [LogicalOp LOGICAL_COMPARISON_JOIN (no_info\<lparr>join_type := Some JOIN_LEFT\<rparr>) []
       [LogicalOp LOGICAL_FILTER no_info [] [LogicalOp LOGICAL_EMPTY_RESULT no_info [] []], scan_of ''orders'' 1]]"


section \<open>Full outer joins\<close>

text \<open>The base rows of both sides are one Z-set; a row of the view has a left row, a right row or both.\<close>

definition left_rows :: "('l + 'r) zset \<Rightarrow> 'l zset" where
  "left_rows z = concat (map (\<lambda>(x, w). case x of Inl l \<Rightarrow> [(l, w)] | Inr r \<Rightarrow> []) z)"

definition right_rows :: "('l + 'r) zset \<Rightarrow> 'r zset" where
  "right_rows z = concat (map (\<lambda>(x, w). case x of Inl l \<Rightarrow> [] | Inr r \<Rightarrow> [(r, w)]) z)"

definition keys_join :: "'k option \<Rightarrow> 'k option \<Rightarrow> bool" where
  "keys_join a b = (a \<noteq> None \<and> a = b)"

definition full_outer ::
  "('l \<Rightarrow> 'k option) \<Rightarrow> ('r \<Rightarrow> 'k option) \<Rightarrow> ('l + 'r) zset \<Rightarrow> ('l option \<times> 'r option) zset" where
  "full_outer kl kr z =
     (let ls = left_rows z; rs = right_rows z
      in concat (map (\<lambda>(l, v). zmap (\<lambda>r. (Some l, Some r)) (zscale v (zfilter (\<lambda>r. keys_join (kl l) (kr r)) rs))) ls) @
         zmap (\<lambda>l. (Some l, None)) (zfilter (\<lambda>l. zsum rs (\<lambda>r. of_bool (keys_join (kl l) (kr r))) = 0) ls) @
         zmap (\<lambda>r. (None, Some r)) (zfilter (\<lambda>r. zsum ls (\<lambda>l. of_bool (keys_join (kl l) (kr r))) = 0) rs))"

definition side_key :: "('l \<Rightarrow> 'k option) \<Rightarrow> ('r \<Rightarrow> 'k option) \<Rightarrow> 'l + 'r \<Rightarrow> 'k option" where
  "side_key kl kr x = (case x of Inl l \<Rightarrow> kl l | Inr r \<Rightarrow> kr r)"

definition outer_key :: "('l \<Rightarrow> 'k option) \<Rightarrow> ('r \<Rightarrow> 'k option) \<Rightarrow> 'l option \<times> 'r option \<Rightarrow> 'k option" where
  "outer_key kl kr x = (case x of (Some l, _) \<Rightarrow> kl l | (None, Some r) \<Rightarrow> kr r | (None, None) \<Rightarrow> None)"

text \<open>\<open>left_key IN changed OR right_key IN changed\<close>; the key of a missing side is NULL.\<close>

definition foj_filter ::
  "('l \<Rightarrow> 'k option) \<Rightarrow> ('r \<Rightarrow> 'k option) \<Rightarrow> ('l + 'r) zset \<Rightarrow> 'l option \<times> 'r option \<Rightarrow> bool" where
  "foj_filter kl kr delta x =
     (let keys = changed_keys (side_key kl kr) delta
      in sql_in (Option.bind (fst x) kl) keys \<or> sql_in (Option.bind (snd x) kr) keys)"

lemma zsum_left_rows: "zsum (left_rows z) h = zsum z (\<lambda>x. case x of Inl l \<Rightarrow> h l | Inr r \<Rightarrow> 0)"
  by (induction z) (auto simp: left_rows_def split: sum.split)

lemma zsum_right_rows: "zsum (right_rows z) h = zsum z (\<lambda>x. case x of Inl l \<Rightarrow> 0 | Inr r \<Rightarrow> h r)"
  by (induction z) (auto simp: right_rows_def split: sum.split)

lemma weight_sides: "weight (left_rows z) l = weight z (Inl l)" "weight (right_rows z) r = weight z (Inr r)"
  unfolding weight_def zsum_left_rows zsum_right_rows
  by (rule arg_cong [where f = "zsum z"]; force split: sum.split)+

lemma weight_zmap_other: "(\<And>y. f y \<noteq> x) \<Longrightarrow> weight (zmap f z) x = 0"
  by (simp add: weight_def zmap_def zsum_def comp_def case_prod_beta)

lemma weight_zmap_inj: "inj f \<Longrightarrow> weight (zmap f z) (f y) = weight z y"
  by (induction z) (auto simp: weight_def zmap_def inj_eq)

lemma weight_matched:
  "weight (concat (map (\<lambda>(l, v). zmap (\<lambda>r. (Some l, Some r)) (zscale v (zfilter (p l) rs))) ls)) (Some l, Some r) =
   (if p l r then weight ls l * weight rs r else 0)"
proof (induction ls)
  case (Cons e ls)
  obtain l' v where e: "e = (l', v)" by (cases e)
  have inj: "inj (\<lambda>r. (Some l, Some r))" for l :: 'a by (simp add: inj_def)
  have "weight (zmap (\<lambda>r. (Some l', Some r)) (zscale v (zfilter (p l') rs))) (Some l, Some r) =
      (if l' = l \<and> p l r then v * weight rs r else 0)"
    using weight_zmap_inj [OF inj, of l "zscale v (zfilter (p l) rs)" r]
    by (cases "l' = l") (simp_all add: weight_zfilter weight_zmap_other)
  with Cons show ?case by (simp add: e weight_def algebra_simps)
qed (simp add: weight_def)

lemma weight_matched_other:
  "fst x = None \<or> snd x = None \<Longrightarrow>
   weight (concat (map (\<lambda>(l, v). zmap (\<lambda>r. (Some l, Some r)) (zscale v (zfilter (p l) rs))) ls)) x = 0"
proof (induction ls)
  case (Cons e ls)
  have "weight (zmap (\<lambda>r. (Some (fst e), Some r)) (zscale (snd e) (zfilter (p (fst e)) rs))) x = 0"
    by (rule weight_zmap_other) (use Cons(2) in auto)
  with Cons show ?case by (simp add: case_prod_beta)
qed (simp add: weight_def)

lemma weight_full_outer:
  "weight (full_outer kl kr z) (Some l, Some r) = (if keys_join (kl l) (kr r) then weight z (Inl l) * weight z (Inr r) else 0)"
  "weight (full_outer kl kr z) (Some l, None) =
     (if zsum (right_rows z) (\<lambda>r. of_bool (keys_join (kl l) (kr r))) = 0 then weight z (Inl l) else 0)"
  "weight (full_outer kl kr z) (None, Some r) =
     (if zsum (left_rows z) (\<lambda>l. of_bool (keys_join (kl l) (kr r))) = 0 then weight z (Inr r) else 0)"
  "weight (full_outer kl kr z) (None, None) = 0"
proof -
  have inj: "inj (\<lambda>l. (Some l, None))" "inj (\<lambda>r. (None, Some r))" by (simp_all add: inj_def)
  note parts = full_outer_def Let_def weight_append weight_matched weight_matched_other weight_zmap_other
    weight_zmap_inj [OF inj(1)] weight_zmap_inj [OF inj(2)] weight_zfilter weight_sides
  show "weight (full_outer kl kr z) (Some l, Some r) = (if keys_join (kl l) (kr r) then weight z (Inl l) * weight z (Inr r) else 0)"
    by (simp add: parts)
  show "weight (full_outer kl kr z) (Some l, None) =
     (if zsum (right_rows z) (\<lambda>r. of_bool (keys_join (kl l) (kr r))) = 0 then weight z (Inl l) else 0)"
    by (simp add: parts)
  show "weight (full_outer kl kr z) (None, Some r) =
     (if zsum (left_rows z) (\<lambda>l. of_bool (keys_join (kl l) (kr r))) = 0 then weight z (Inr r) else 0)"
    by (simp add: parts)
  show "weight (full_outer kl kr z) (None, None) = 0" by (simp add: parts)
qed

lemma zsum_group_only:
  assumes "zeq (zgroup g k x) (zgroup g k y)" "\<And>r. g r \<noteq> k \<Longrightarrow> h r = 0"
  shows "zsum x h = zsum y h"
proof -
  have "zsum z h = zsum (zgroup g k z) h" for z
    using assms(2) by (induction z) (auto simp: zgroup_def zfilter_def)
  then show ?thesis using zsum_cong_zeq [OF assms(1)] by metis
qed

lemma keyed_full_outer: "keyed_query (side_key kl kr) (outer_key kl kr) (full_outer kl kr)"
  unfolding keyed_query_def zeq_def [of "zgroup (outer_key kl kr) _ _"]
proof (intro allI impI)
  fix k x y row
  assume same: "zeq (zgroup (side_key kl kr) k x) (zgroup (side_key kl kr) k y)"
  have w: "weight x s = weight y s" if "side_key kl kr s = k" for s
    using same that by (auto simp: zeq_def weight_zgroup dest: spec [of _ s])
  have right: "zsum (right_rows x) (\<lambda>r. of_bool (keys_join k (kr r))) = zsum (right_rows y) (\<lambda>r. of_bool (keys_join k (kr r)))"
    unfolding zsum_right_rows by (rule zsum_group_only [OF same]) (auto simp: side_key_def keys_join_def split: sum.split)
  have left: "zsum (left_rows x) (\<lambda>l. of_bool (keys_join (kl l) k)) = zsum (left_rows y) (\<lambda>l. of_bool (keys_join (kl l) k))"
    unfolding zsum_left_rows by (rule zsum_group_only [OF same]) (auto simp: side_key_def keys_join_def split: sum.split)
  have "weight (full_outer kl kr x) row = weight (full_outer kl kr y) row" if k: "outer_key kl kr row = k"
  proof (cases row)
    case (Pair lo ro)
    then show ?thesis
      using k w [of "Inl (the lo)"] w [of "Inr (the ro)"] left right
      by (cases lo; cases ro) (auto simp: weight_full_outer outer_key_def side_key_def keys_join_def)
  qed
  then show "weight (zgroup (outer_key kl kr) k (full_outer kl kr x)) row = weight (zgroup (outer_key kl kr) k (full_outer kl kr y)) row"
    by (simp add: weight_zgroup)
qed

text \<open>On the rows of the view the two memberships are the membership of the join key.\<close>

lemma foj_filter_key:
  assumes "weight (full_outer kl kr z) row \<noteq> 0"
  shows "foj_filter kl kr delta row = partition_in_filter (side_key kl kr) (outer_key kl kr) delta row"
  using assms
  by (cases row; cases "fst row"; cases "snd row")
    (auto simp: weight_full_outer foj_filter_def partition_in_filter_def outer_key_def keys_join_def sql_in_def Let_def split: if_splits)

lemma foj_covers:
  assumes "plus_delta old delta new" "\<not> foj_filter kl kr delta row"
    and "None \<notin> side_key kl kr ` fst ` set delta \<or> outer_key kl kr row \<noteq> None"
  shows "weight (full_outer kl kr old) row = weight (full_outer kl kr new) row"
proof (cases "weight (full_outer kl kr old) row = 0 \<and> weight (full_outer kl kr new) row = 0")
  case False
  then have "\<not> partition_in_filter (side_key kl kr) (outer_key kl kr) delta row"
    using assms(2) foj_filter_key [of kl kr old row delta] foj_filter_key [of kl kr new row delta] by auto
  then have "outer_key kl kr row \<notin> side_key kl kr ` fst ` set delta"
    using assms(3) by (force simp: partition_in_filter_def sql_in_def set_changed_keys)
  then show ?thesis by (rule keyed_unchanged [OF keyed_full_outer assms(1)])
qed simp

interpretation outer: affected_rows "\<lambda>row. foj_filter (Some \<circ> kl) (Some \<circ> kr) delta row"
    "full_outer (Some \<circ> kl) (Some \<circ> kr) old" "full_outer (Some \<circ> kl) (Some \<circ> kr) (old @ delta)"
  for kl :: "'l \<Rightarrow> 'k" and kr :: "'r \<Rightarrow> 'k" and old delta
  by unfold_locales (rule foj_covers [OF plus_delta_append], auto simp: side_key_def split: sum.split_asm)



section \<open>Aggregates over an empty source\<close>

lemma nulled_column:
  assumes "c \<in> set names" "c \<noteq> MULTIPLICITY_COL"
  shows "null_empty_sources names sources row c = (if list_all (\<lambda>x. x) sources then row c else None)"
proof (induction sources arbitrary: row)
  case (Cons x sources)
  then show ?case using assms by (simp add: null_empty_sources_def)
qed (simp add: null_empty_sources_def)

text \<open>after the sums of a view without groups are updated, one empty source table sets every column of the
  row to NULL. So a count is NULL where the query gives a number: 0 over one table without rows, and
  more when the other branch of a union still has rows. With no empty source the row is the
  maintained one.\<close>
theorem empty_source_erases_counts:
  assumes fits: "simple_fits names cols" and delta: "plus_delta old delta new" "row_holds old cols row"
    and count: "map_of cols c = Some AggCountStar" and "c \<noteq> MULTIPLICITY_COL"
    and empty: "False \<in> set source_has_rows"
  defines "maintained \<equiv> run_simple (BuildSimpleProgram names) (grouped_delta (\<lambda>_. ()) cols delta) row"
  shows "maintained c = agg_value new AggCountStar \<and> null_empty_sources names source_has_rows maintained c = None"
proof
  let ?h = "\<lambda>r. 1 :: real"
  have "c \<in> set (map fst cols)" using map_of_SomeD [OF count] by force
  then have "c \<in> set (filter (\<lambda>c. c \<noteq> MULTIPLICITY_COL) names)" using fits by (simp add: simple_fits_def)
  then have c: "c \<in> set names" by simp
  have "\<not> derived_col (DetectDerivedAggColumns names) c" by (rule simple_linear(1) [OF fits delta count]) simp
  then have "c \<notin> fst ` set (simple_derived (BuildSimpleProgram names))" by (simp add: derived_names set_derived_cols)
  then show "maintained c = agg_value new AggCountStar"
    using simple_linear(2) [OF fits delta count, of ?h] by (simp add: maintained_def run_simple_def update_derived_untouched)
  show "null_empty_sources names source_has_rows maintained c = None"
    using c \<open>c \<noteq> MULTIPLICITY_COL\<close> empty by (auto simp: nulled_column list_all_iff)
qed

text \<open>Counting a union of two tables, one of them empty: two rows, and the column is NULL.\<close>

theorem empty_source_erases_counts_witness:
  "let cols = [(''n'', AggCountStar)]; delta = [(2 :: nat, 1)];
       maintained = run_simple (BuildSimpleProgram [''n'']) (grouped_delta (\<lambda>_. ()) cols delta) [''n'' \<mapsto> 1]
   in maintained ''n'' = Some 2 \<and> null_empty_sources [''n''] [True, False] maintained ''n'' = None"
proof -
  have "DetectDerivedAggColumns [''n''] = \<lparr>sum_cols = [], sum_sq_cols = [], count_cols = [], needs_sqrt = [], is_population = []\<rparr>"
    by code_simp
  then have fits: "simple_fits [''n''] [(''n'', AggCountStar :: nat agg)]"
    by (simp add: simple_fits_def derived_col_def MULTIPLICITY_COL_def)
  have held: "row_holds [(1 :: nat, 1)] [(''n'', AggCountStar)] [''n'' \<mapsto> 1]" by (simp add: row_holds_def coalesce_def)
  have "''n'' \<noteq> MULTIPLICITY_COL" by (simp add: MULTIPLICITY_COL_def)
  then show ?thesis
    using empty_source_erases_counts [OF fits plus_delta_append held, of "''n''" "[True, False]" "[(2, 1)]"] by (simp add: Let_def)
qed

section \<open>Placeholders\<close>

text \<open>The hexadecimal token of a catalog name can be read back.\<close>

definition hex_value :: "char \<Rightarrow> nat" where
  "hex_value c = (if is_digit c then of_char c - 48 else of_char c - 55)"

fun hex_decode :: "string \<Rightarrow> string" where
  "hex_decode (a # b # rest) = char_of (16 * hex_value a + hex_value b) # hex_decode rest"
| "hex_decode rest = []"

lemma hex_digit: "n < 16 \<Longrightarrow> hex_value (''0123456789ABCDEF'' ! n) = n"
  by (auto simp: less_Suc_eq numeral_eq_Suc hex_value_def is_digit_def)

text \<open>the placeholder of a catalog determines the catalog: the token can be decoded, so two catalogs never
  share a placeholder and replacing one never touches the other's name.\<close>
theorem snapshot_placeholder_roundtrip:
  "hex_decode (HexEncodeToken name) = name \<and>
   (DuckLakeSnapshotPlaceholder c = DuckLakeSnapshotPlaceholder d \<longleftrightarrow> c = d)"
proof -
  have decode: "hex_decode (HexEncodeToken s) = s" for s
  proof (induction s)
    case (Cons x s)
    have "of_char x < (256 :: nat)" by simp
    then have "of_char x div 16 < (16 :: nat)" by (simp add: less_mult_imp_div_less)
    then show ?case using Cons by (simp add: HexEncodeToken_def Let_def hex_digit)
  qed (simp add: HexEncodeToken_def)
  then have "HexEncodeToken c = HexEncodeToken d \<longleftrightarrow> c = d" by metis
  with decode show ?thesis by (simp add: DuckLakeSnapshotPlaceholder_def)
qed

end
