(* ===== verification/Daemon.thy ===== *)
theory Daemon
  imports Complex_Main Sql_Names
begin

text \<open>
  The background thread that refreshes views with an interval (\<open>core/refresh_daemon.cpp\<close>). One
  wake-up is a function: it goes through the scheduled views in order, skips those that are not due,
  locked or already covered in this cycle, runs the hooks and the refresh of the others, and adapts
  their intervals. What the database and the clock answer during a wake-up is a record.
\<close>

section \<open>State\<close>

definition WAKE_INTERVAL_SECONDS :: int where "WAKE_INTERVAL_SECONDS = 30"
definition MAX_BACKOFF_SECONDS :: int where "MAX_BACKOFF_SECONDS = 86400"

record RefreshDaemon =
  started :: bool
  shutdown :: bool
  effective_intervals :: "string \<rightharpoonup> int"
  adaptive_backoff :: bool
  currently_refreshing :: string

definition Start :: "RefreshDaemon \<Rightarrow> RefreshDaemon" where
  "Start d = (if started d then d else d\<lparr>started := True, shutdown := False\<rparr>)"

definition Stop :: "RefreshDaemon \<Rightarrow> RefreshDaemon" where
  "Stop d = (if started d then d\<lparr>shutdown := True, started := False\<rparr> else d)"

definition GetEffectiveInterval :: "RefreshDaemon \<Rightarrow> string \<Rightarrow> int" where
  "GetEffectiveInterval d view_name = (case effective_intervals d view_name of Some i \<Rightarrow> i | None \<Rightarrow> - 1)"

definition IsRefreshing :: "RefreshDaemon \<Rightarrow> string \<Rightarrow> bool" where
  "IsRefreshing d view_name = (currently_refreshing d = view_name)"

record ScheduledView =
  view_name :: string
  interval_seconds :: int
  last_update :: string

text \<open>\<open>elapsed\<close> is the age of a time stamp in seconds, \<open>stopping\<close> whether a shutdown is seen before a view,
  \<open>busy\<close> whether its lock is taken, \<open>duration\<close> how long its refresh takes.\<close>

record daemon_answers =
  elapsed :: "string \<Rightarrow> real option"
  stopping :: "string \<Rightarrow> bool"
  busy :: "string \<Rightarrow> bool"
  refresh_hook :: "string \<Rightarrow> (string \<times> string) option"
  duration :: "string \<Rightarrow> int"
  downstream :: "string \<Rightarrow> string list"
  upstream :: "string \<Rightarrow> string list"
  cascade_setting :: "string option"
  backoff_setting :: "bool option"

section \<open>One view\<close>

definition effective_interval :: "RefreshDaemon \<Rightarrow> ScheduledView \<Rightarrow> int" where
  "effective_interval d sv = (case effective_intervals d (view_name sv) of Some i \<Rightarrow> i | None \<Rightarrow> interval_seconds sv)"

definition is_due :: "daemon_answers \<Rightarrow> RefreshDaemon \<Rightarrow> ScheduledView \<Rightarrow> bool" where
  "is_due A d sv \<longleftrightarrow>
     (last_update sv \<noteq> [] \<longrightarrow>
        (case elapsed A (last_update sv) of Some t \<Rightarrow> \<not> t < of_int (effective_interval d sv) | None \<Rightarrow> True))"

definition cascade_mode :: "duckdb_env \<Rightarrow> daemon_answers \<Rightarrow> string" where
  "cascade_mode E A = (case cascade_setting A of Some s \<Rightarrow> Lower E s | None \<Rightarrow> ''downstream'')"

text \<open>The statements that are sent for a view, in order. A failing one is reported and the next is sent.\<close>

definition refresh_statement :: "string \<Rightarrow> string" where
  "refresh_statement view = ''PRAGMA refresh('' @ [quote_char] @ EscapeSingleQuotes view @ [quote_char] @ '')''"

definition view_statements :: "duckdb_env \<Rightarrow> daemon_answers \<Rightarrow> string \<Rightarrow> string list" where
  "view_statements E A view =
     (let (hook_sql, hook_mode) = (case refresh_hook A view of Some (s, m) \<Rightarrow> (s, Lower E m) | None \<Rightarrow> ([], []))
      in (if hook_sql \<noteq> [] \<and> hook_mode = ''before'' then [hook_sql] else []) @
         (if hook_mode \<noteq> ''replace'' then [refresh_statement view] else []) @
         (if hook_sql \<noteq> [] \<and> (hook_mode = ''after'' \<or> hook_mode = ''replace'') then [hook_sql] else []))"

definition covered_views :: "duckdb_env \<Rightarrow> daemon_answers \<Rightarrow> string \<Rightarrow> string set" where
  "covered_views E A view =
     {view} \<union> (if cascade_mode E A \<in> {''downstream'', ''both''} then set (downstream A view) else {})
            \<union> (if cascade_mode E A \<in> {''upstream'', ''both''} then set (upstream A view) else {})"

definition adapt_interval :: "daemon_answers \<Rightarrow> ScheduledView \<Rightarrow> RefreshDaemon \<Rightarrow> RefreshDaemon" where
  "adapt_interval A sv d =
     (if \<not> adaptive_backoff d then d
      else d\<lparr>effective_intervals := (effective_intervals d)(view_name sv :=
        (if duration A (view_name sv) > interval_seconds sv then Some (min (effective_interval d sv * 2) MAX_BACKOFF_SECONDS) else None))\<rparr>)"

section \<open>One wake-up\<close>

record cycle =
  daemon :: RefreshDaemon
  refreshed_this_cycle :: "string set"
  sent :: "(string \<times> string list) list"

definition takes_view :: "daemon_answers \<Rightarrow> cycle \<Rightarrow> ScheduledView \<Rightarrow> bool" where
  "takes_view A c sv \<longleftrightarrow> view_name sv \<notin> refreshed_this_cycle c \<and> is_due A (daemon c) sv \<and> \<not> busy A (view_name sv)"

definition refresh_view :: "duckdb_env \<Rightarrow> daemon_answers \<Rightarrow> ScheduledView \<Rightarrow> cycle \<Rightarrow> cycle" where
  "refresh_view E A sv c =
     (if \<not> takes_view A c sv then c
      else \<lparr>daemon = adapt_interval A sv ((daemon c)\<lparr>currently_refreshing := []\<rparr>),
            refreshed_this_cycle = refreshed_this_cycle c \<union> covered_views E A (view_name sv),
            sent = sent c @ [(view_name sv, view_statements E A (view_name sv))]\<rparr>)"

definition run_cycle :: "duckdb_env \<Rightarrow> daemon_answers \<Rightarrow> ScheduledView list \<Rightarrow> RefreshDaemon \<Rightarrow> cycle" where
  "run_cycle E A scheduled d =
     fold (refresh_view E A) (takeWhile (\<lambda>sv. \<not> stopping A (view_name sv)) scheduled)
       \<lparr>daemon = (case backoff_setting A of Some b \<Rightarrow> d\<lparr>adaptive_backoff := b\<rparr> | None \<Rightarrow> d), refreshed_this_cycle = {}, sent = []\<rparr>"

text \<open>The loop of the thread: a wake-up for each answer, until a shutdown is seen. The first component of a
  wake-up says whether shutdown was set while the thread slept.\<close>

fun Run :: "duckdb_env \<Rightarrow> (bool \<times> daemon_answers \<times> ScheduledView list) list \<Rightarrow> RefreshDaemon \<Rightarrow> (string \<times> string list) list list" where
  "Run E [] d = []"
| "Run E ((stop, A, scheduled) # wakes) d =
     (if shutdown d \<or> stop then []
      else (let c = run_cycle E A scheduled d in sent c # Run E wakes (daemon c)))"

section \<open>What a cycle does\<close>

definition sent_views :: "cycle \<Rightarrow> string list" where
  "sent_views c = map fst (sent c)"

lemma refresh_view_takes [simp]:
  "takes_view A c sv \<Longrightarrow> sent_views (refresh_view E A sv c) = sent_views c @ [view_name sv]"
  "takes_view A c sv \<Longrightarrow> refreshed_this_cycle (refresh_view E A sv c) = refreshed_this_cycle c \<union> covered_views E A (view_name sv)"
  "\<not> takes_view A c sv \<Longrightarrow> refresh_view E A sv c = c"
  by (simp_all add: refresh_view_def sent_views_def)

definition cycle_ok :: "duckdb_env \<Rightarrow> daemon_answers \<Rightarrow> cycle \<Rightarrow> bool" where
  "cycle_ok E A c \<longleftrightarrow>
     distinct (sent_views c) \<and>
     refreshed_this_cycle c = (\<Union>v \<in> set (sent_views c). covered_views E A v) \<and>
     (\<forall>i < length (sent_views c). \<forall>j < i. sent_views c ! i \<notin> covered_views E A (sent_views c ! j)) \<and>
     list_all (\<lambda>(v, statements). statements = view_statements E A v \<and> \<not> busy A v) (sent c)"

lemma own_view_covered [simp]: "v \<in> covered_views E A v"
  by (simp add: covered_views_def)

lemma refresh_view_ok: "cycle_ok E A c \<Longrightarrow> cycle_ok E A (refresh_view E A sv c)"
proof (cases "takes_view A c sv")
  case True
  assume ok: "cycle_ok E A c"
  have sent: "sent_views (refresh_view E A sv c) = sent_views c @ [view_name sv]" using True by simp
  have new: "view_name sv \<notin> covered_views E A v" if "v \<in> set (sent_views c)" for v
    using True ok that by (auto simp: takes_view_def cycle_ok_def)
  have "distinct (sent_views c @ [view_name sv])" using ok new own_view_covered by (fastforce simp: cycle_ok_def)
  moreover have "(sent_views c @ [view_name sv]) ! i \<notin> covered_views E A ((sent_views c @ [view_name sv]) ! j)"
    if "i < Suc (length (sent_views c))" "j < i" for i j
    using ok new that by (cases "i = length (sent_views c)") (auto simp: cycle_ok_def nth_append)
  ultimately show ?thesis
    using ok True unfolding cycle_ok_def sent by (auto simp: refresh_view_def takes_view_def)
qed simp

lemma fold_refresh_ok: "cycle_ok E A c \<Longrightarrow> cycle_ok E A (fold (refresh_view E A) svs c)"
  by (induction svs arbitrary: c) (auto simp: refresh_view_ok)

lemma start_ok: "cycle_ok E A \<lparr>daemon = d, refreshed_this_cycle = {}, sent = []\<rparr>"
  by (simp add: cycle_ok_def sent_views_def)

lemma refreshed_grows: "refreshed_this_cycle c \<subseteq> refreshed_this_cycle (fold (refresh_view E A) svs c)"
proof (induction svs arbitrary: c)
  case (Cons sv svs)
  have "refreshed_this_cycle c \<subseteq> refreshed_this_cycle (refresh_view E A sv c)" by (cases "takes_view A c sv") auto
  with Cons [of "refresh_view E A sv c"] show ?case by auto
qed simp

text \<open>The interval of a view changes only when the view itself is taken.\<close>

lemma adapt_other: "view_name sv \<noteq> v \<Longrightarrow> effective_intervals (adapt_interval A sv d) v = effective_intervals d v"
  by (simp add: adapt_interval_def)

lemma fold_other: "v \<notin> view_name ` set svs \<Longrightarrow>
    effective_intervals (daemon (fold (refresh_view E A) svs c)) v = effective_intervals (daemon c) v"
  by (induction svs arbitrary: c) (auto simp: refresh_view_def adapt_other)

lemma is_due_cong: "effective_intervals d (view_name sv) = effective_intervals d' (view_name sv) \<Longrightarrow> is_due A d sv = is_due A d' sv"
proof -
  assume "effective_intervals d (view_name sv) = effective_intervals d' (view_name sv)"
  then have same: "effective_interval d sv = effective_interval d' sv" by (simp add: effective_interval_def)
  show ?thesis unfolding is_due_def same ..
qed

lemma fold_due:
  assumes "distinct (map view_name svs)" "\<forall>sv \<in> set svs. is_due A (daemon c) sv = due sv"
  shows "set (sent_views (fold (refresh_view E A) svs c)) \<subseteq> set (sent_views c) \<union> view_name ` {sv \<in> set svs. due sv}" (is ?sent)
    "\<forall>sv \<in> set svs. due sv \<and> \<not> busy A (view_name sv) \<longrightarrow> view_name sv \<in> refreshed_this_cycle (fold (refresh_view E A) svs c)" (is ?covered)
proof -
  have "?sent \<and> ?covered" using assms
  proof (induction svs arbitrary: c)
    case (Cons sv svs)
    let ?c = "refresh_view E A sv c"
    have same: "\<forall>sv' \<in> set svs. is_due A (daemon ?c) sv' = due sv'"
    proof
      fix sv' assume sv': "sv' \<in> set svs"
      with Cons(2) have "view_name sv \<noteq> view_name sv'" by (auto simp: image_iff)
      then have "effective_intervals (daemon ?c) (view_name sv') = effective_intervals (daemon c) (view_name sv')"
        by (simp add: refresh_view_def adapt_other)
      with Cons(3) sv' show "is_due A (daemon ?c) sv' = due sv'" by (auto dest: is_due_cong)
    qed
    have takes: "takes_view A c sv = (view_name sv \<notin> refreshed_this_cycle c \<and> due sv \<and> \<not> busy A (view_name sv))"
      using Cons(3) by (simp add: takes_view_def)
    have here: "set (sent_views ?c) \<subseteq> set (sent_views c) \<union> view_name ` {x. x = sv \<and> due sv}"
      "due sv \<and> \<not> busy A (view_name sv) \<longrightarrow> view_name sv \<in> refreshed_this_cycle ?c"
      by (cases "takes_view A c sv"; use takes in auto)+
    have IH: "set (sent_views (fold (refresh_view E A) svs ?c)) \<subseteq> set (sent_views ?c) \<union> view_name ` {sv \<in> set svs. due sv} \<and>
        (\<forall>sv \<in> set svs. due sv \<and> \<not> busy A (view_name sv) \<longrightarrow> view_name sv \<in> refreshed_this_cycle (fold (refresh_view E A) svs ?c))"
      using Cons(1) [OF _ same] Cons(2) by simp
    have sent: "set (sent_views (fold (refresh_view E A) (sv # svs) c)) \<subseteq> set (sent_views c) \<union> view_name ` {x \<in> set (sv # svs). due x}"
      using conjunct1 [OF IH] here(1) unfolding fold_simps by auto
    have "due sv \<and> \<not> busy A (view_name sv) \<longrightarrow> view_name sv \<in> refreshed_this_cycle (fold (refresh_view E A) svs ?c)"
      using here(2) refreshed_grows [of ?c E A svs] by blast
    with sent conjunct2 [OF IH] show ?case unfolding fold_simps by simp
  qed simp
  then show ?sent ?covered by auto
qed

section \<open>Properties\<close>


definition quiet_answers :: daemon_answers where
  "quiet_answers = \<lparr>elapsed = \<lambda>t. Some 100, stopping = \<lambda>v. False, busy = \<lambda>v. v = ''c'', refresh_hook = \<lambda>v. None,
     duration = \<lambda>v. 1, downstream = \<lambda>v. if v = ''a'' then [''b''] else [], upstream = \<lambda>v. [], cascade_setting = None,
     backoff_setting = None\<rparr>"

definition idle_daemon :: RefreshDaemon where
  "idle_daemon = \<lparr>started = True, shutdown = False, effective_intervals = Map.empty, adaptive_backoff = True, currently_refreshing = []\<rparr>"

definition scheduled_view :: "string \<Rightarrow> int \<Rightarrow> ScheduledView" where
  "scheduled_view v interval = \<lparr>view_name = v, interval_seconds = interval, last_update = ''2026-01-01''\<rparr>"


text \<open>A schedule of refreshes of one view: each time longer than its interval.\<close>

definition slow_refreshes :: "daemon_answers \<Rightarrow> ScheduledView \<Rightarrow> nat \<Rightarrow> RefreshDaemon \<Rightarrow> RefreshDaemon" where
  "slow_refreshes A sv n = (adapt_interval A sv ^^ n)"

text \<open>C37: the adaptive back-off: after \<open>n + 1\<close> refreshes in a row that take longer than the configured interval,
  the effective interval is the configured one doubled as many times and capped at a day; the first
  refresh that is fast enough restores the configured interval. The cap applies to the result, so an
  interval of more than a day becomes shorter by backing off.\<close>
theorem backoff_doubles_until_capped:
  assumes "adaptive_backoff d" "effective_intervals d (view_name sv) = None" "duration A (view_name sv) > interval_seconds sv"
    and "0 < interval_seconds sv"
  shows "GetEffectiveInterval (slow_refreshes A sv (Suc n) d) (view_name sv) = min (2 ^ Suc n * interval_seconds sv) MAX_BACKOFF_SECONDS \<and>
    (duration B (view_name sv) \<le> interval_seconds sv \<longrightarrow>
       effective_interval (adapt_interval B sv (slow_refreshes A sv (Suc n) d)) sv = interval_seconds sv)"
proof -
  have "effective_intervals (slow_refreshes A sv (Suc n) d) (view_name sv) = Some (min (2 ^ Suc n * interval_seconds sv) MAX_BACKOFF_SECONDS) \<and>
      adaptive_backoff (slow_refreshes A sv (Suc n) d)"
  proof (induction n)
    case 0
    then show ?case using assms by (simp add: slow_refreshes_def adapt_interval_def effective_interval_def mult.commute)
  next
    case (Suc n)
    have "min (min (2 ^ Suc n * i) m * 2) m = min (2 ^ Suc (Suc n) * i) m" if "0 < m" for i m :: int using that by auto
    moreover have "slow_refreshes A sv (Suc (Suc n)) d = adapt_interval A sv (slow_refreshes A sv (Suc n) d)"
      by (simp add: slow_refreshes_def)
    ultimately show ?case using Suc assms(3)
      by (simp add: adapt_interval_def effective_interval_def MAX_BACKOFF_SECONDS_def)
  qed
  then show ?thesis by (simp add: GetEffectiveInterval_def adapt_interval_def effective_interval_def)
qed

theorem backoff_doubles_until_capped_witness:
  "let A = quiet_answers\<lparr>duration := \<lambda>v. 200000\<rparr>
   in GetEffectiveInterval (slow_refreshes A (scheduled_view ''a'' 60) 2 idle_daemon) ''a'' = 240 \<and>
      GetEffectiveInterval (slow_refreshes A (scheduled_view ''a'' 100000) 1 idle_daemon) ''a'' = 86400"
  using backoff_doubles_until_capped [of idle_daemon "scheduled_view ''a'' 60" "quiet_answers\<lparr>duration := \<lambda>v. 200000\<rparr>" 1 quiet_answers]
    backoff_doubles_until_capped [of idle_daemon "scheduled_view ''a'' 100000" "quiet_answers\<lparr>duration := \<lambda>v. 200000\<rparr>" 0 quiet_answers]
  by (simp add: Let_def idle_daemon_def scheduled_view_def MAX_BACKOFF_SECONDS_def numeral_2_eq_2)

text \<open>The view is first in the schedule with a replace hook and always due, its lock is free, and the other
  view is among those its cascade is taken to cover.\<close>

definition hooked_wake :: "duckdb_env \<Rightarrow> ScheduledView \<Rightarrow> string \<Rightarrow> bool \<times> daemon_answers \<times> ScheduledView list \<Rightarrow> bool" where
  "hooked_wake E sv w wake =
     (case wake of (stop, A, scheduled) \<Rightarrow>
        (\<exists>rest. scheduled = sv # rest) \<and> last_update sv = [] \<and> \<not> busy A (view_name sv) \<and> \<not> stopping A (view_name sv) \<and>
        w \<in> covered_views E A (view_name sv) \<and> (\<exists>hook_sql hook_mode. refresh_hook A (view_name sv) = Some (hook_sql, hook_mode) \<and>
          hook_sql \<noteq> [] \<and> Lower E hook_mode = ''replace''))"

lemma hooked_cycle:
  assumes "hooked_wake E sv w (stop, A, scheduled)" "w \<noteq> view_name sv"
  shows "w \<notin> set (sent_views (run_cycle E A scheduled d))"
proof -
  obtain rest where rest: "scheduled = sv # rest" using assms(1) by (auto simp: hooked_wake_def)
  let ?start = "\<lparr>daemon = (case backoff_setting A of Some b \<Rightarrow> d\<lparr>adaptive_backoff := b\<rparr> | None \<Rightarrow> d), refreshed_this_cycle = {}, sent = []\<rparr>"
  let ?c = "refresh_view E A sv ?start" and ?rest = "takeWhile (\<lambda>sv. \<not> stopping A (view_name sv)) rest"
  have takes: "takes_view A ?start sv" using assms(1) by (simp add: hooked_wake_def takes_view_def is_due_def)
  have c: "run_cycle E A scheduled d = fold (refresh_view E A) ?rest ?c"
    using assms(1) by (simp add: run_cycle_def rest hooked_wake_def)
  have first: "w \<in> refreshed_this_cycle ?c" "sent_views ?c = [view_name sv]"
    using assms(1) takes by (simp_all add: hooked_wake_def refresh_view_def sent_views_def)
  have "w \<notin> set (sent_views (fold (refresh_view E A) svs c))" if "w \<in> refreshed_this_cycle c" "w \<notin> set (sent_views c)" for svs c
    using that
  proof (induction svs arbitrary: c)
    case (Cons x svs)
    have "w \<in> refreshed_this_cycle (refresh_view E A x c) \<and> w \<notin> set (sent_views (refresh_view E A x c))"
      using Cons(2,3) by (cases "takes_view A c x") (auto simp: takes_view_def)
    with Cons(1) show ?case by simp
  qed simp
  from this [OF first(1)] first(2) assms(2) show ?thesis unfolding c by simp
qed



end
