(* ===== verification/Cost_Model.thy ===== *)
theory Cost_Model
  imports Complex_Main Group_Recompute View_Model
begin

text \<open>
  The cost model of a refresh (\<open>upsert/refresh_cost_model.cpp\<close>): the statistics of a view plan, the
  static estimates of an incremental refresh and of a recomputation, and the regression that
  calibrates them from the recorded durations. A \<open>double\<close> is a real number; answers of the database
  (estimated cardinalities, row counts, constraints, history) are fields of a record.
\<close>

section \<open>Pending rows\<close>

record DeltaActivitySource =
  activity_delta_table :: string
  activity_source_table :: string
  pending_rows :: int
  activity_ok :: bool
  has_changes :: bool

definition base_of_delta_key :: "string \<Rightarrow> string" where
  "base_of_delta_key key = (if length DELTA_PREFIX < length key \<and> starts_with key DELTA_PREFIX then drop (length DELTA_PREFIX) key else key)"

definition FindDeltaActivitySource ::
  "duckdb_env \<Rightarrow> DeltaActivitySource list option \<Rightarrow> string \<Rightarrow> string \<Rightarrow> DeltaActivitySource option" where
  "FindDeltaActivitySource E activity delta_table_name source_table_name =
     (let source_from_delta = base_of_delta_key delta_table_name
      in case activity of
           None \<Rightarrow> None
         | Some sources \<Rightarrow> find (\<lambda>s. CIEquals E (activity_delta_table s) delta_table_name \<or>
             CIEquals E (activity_source_table s) source_table_name \<or>
             source_from_delta \<noteq> [] \<and> CIEquals E (activity_source_table s) source_from_delta) sources)"

text \<open>What is known without asking the database.\<close>

definition known_rows :: "DeltaActivitySource option \<Rightarrow> real option" where
  "known_rows source =
     (case source of
        Some s \<Rightarrow> if 0 \<le> pending_rows s then Some (of_int (pending_rows s))
                  else if activity_ok s \<and> \<not> has_changes s then Some 0 else None
      | None \<Rightarrow> None)"

record cost_queries =
  estimate_cardinality :: "LogicalOperator \<Rightarrow> real"
  count_rows :: "string \<Rightarrow> real option"
  cursor_of :: "string \<Rightarrow> string"
  count_since :: "string \<Rightarrow> string \<Rightarrow> real option"
  lake_scan :: "LogicalOperator \<Rightarrow> (string \<times> string) option"
  lake_cursor :: "string \<Rightarrow> int"
  lake_snapshot :: "string \<Rightarrow> int"
  count_changes :: "string \<Rightarrow> real option"
  fk_constraints :: "string list \<Rightarrow> (string \<times> string) list option"
  history_of :: "string \<Rightarrow> (real \<times> real \<times> real) list"
  double_text :: "real \<Rightarrow> string"

definition or_zero :: "real option \<Rightarrow> real" where
  "or_zero x = (case x of Some v \<Rightarrow> v | None \<Rightarrow> 0)"

definition GetTableRowCount :: "cost_queries \<Rightarrow> string \<Rightarrow> real" where
  "GetTableRowCount Q table_name = or_zero (count_rows Q table_name)"

definition GetDeltaRowCount :: "duckdb_env \<Rightarrow> cost_queries \<Rightarrow> string \<Rightarrow> DeltaActivitySource list option \<Rightarrow> real" where
  "GetDeltaRowCount E Q delta_table_name activity =
     (case known_rows (FindDeltaActivitySource E activity delta_table_name (base_of_delta_key delta_table_name)) of
        Some rows \<Rightarrow> rows
      | None \<Rightarrow> (let since = cursor_of Q delta_table_name in if since = [] then 0 else or_zero (count_since Q delta_table_name since)))"

definition GetDuckLakeDeltaRowCount ::
  "duckdb_env \<Rightarrow> cost_queries \<Rightarrow> string \<Rightarrow> string \<Rightarrow> string \<Rightarrow> DeltaActivitySource list option \<Rightarrow> real" where
  "GetDuckLakeDeltaRowCount E Q catalog_name schema_name table_name activity =
     (case known_rows (FindDeltaActivitySource E activity table_name table_name) of
        Some rows \<Rightarrow> rows
      | None \<Rightarrow>
          (let last_snap = lake_cursor Q table_name; cur_snap = lake_snapshot Q catalog_name;
               changes = (\<lambda>f. or_zero (count_changes Q (DuckLakeTableFunction f catalog_name schema_name table_name last_snap cur_snap)))
           in if cur_snap < 0 \<or> last_snap = cur_snap then 0
              else changes ''ducklake_table_insertions'' + changes ''ducklake_table_deletions''))"

section \<open>Statistics of a plan\<close>

record TableStats =
  stats_table :: string
  stats_delta_table :: string
  base_card :: real
  actual_card :: real
  delta_card :: real

record PlanStats =
  table_stats :: "TableStats list"
  join_leaf_count :: nat
  has_join :: bool
  has_aggregate :: bool
  has_full_outer :: bool
  all_ducklake :: bool
  filter_selectivity :: real

definition no_stats :: PlanStats where
  "no_stats = \<lparr>table_stats = [], join_leaf_count = 0, has_join = False, has_aggregate = False, has_full_outer = False,
     all_ducklake = True, filter_selectivity = 1\<rparr>"

definition nonzero :: "real \<Rightarrow> real" where
  "nonzero x = (if x = 0 then 1 else x)"

definition scan_stats :: "duckdb_env \<Rightarrow> cost_queries \<Rightarrow> DeltaActivitySource list option \<Rightarrow> LogicalOperator \<Rightarrow> PlanStats \<Rightarrow> PlanStats" where
  "scan_stats E Q activity op s =
     (case get_table (op_info op) of
        None \<Rightarrow> s\<lparr>join_leaf_count := Suc (join_leaf_count s)\<rparr>
      | Some table \<Rightarrow>
          (let (dt, rows, lake) = (case lake_scan Q op of
                 Some (c, sch) \<Rightarrow> (table, GetDuckLakeDeltaRowCount E Q c sch table activity, all_ducklake s)
               | None \<Rightarrow> (DeltaName table, GetDeltaRowCount E Q (DeltaName table) activity, False))
           in s\<lparr>table_stats := table_stats s @
                  [\<lparr>stats_table = table, stats_delta_table = dt, base_card = nonzero (estimate_cardinality Q op),
                    actual_card = nonzero (GetTableRowCount Q table), delta_card = rows\<rparr>],
                all_ducklake := lake, join_leaf_count := Suc (join_leaf_count s)\<rparr>))"

definition node_stats :: "duckdb_env \<Rightarrow> cost_queries \<Rightarrow> DeltaActivitySource list option \<Rightarrow> LogicalOperator \<Rightarrow> PlanStats \<Rightarrow> PlanStats" where
  "node_stats E Q activity op s =
     (if op_type op = LOGICAL_GET then scan_stats E Q activity op s
      else if op_type op \<in> {LOGICAL_COMPARISON_JOIN, LOGICAL_ASOF_JOIN, LOGICAL_POSITIONAL_JOIN, LOGICAL_JOIN} then
        s\<lparr>has_join := True,
          has_full_outer := (has_full_outer s \<or> op_type op = LOGICAL_COMPARISON_JOIN \<and> join_type (op_info op) = Some JOIN_OUTER)\<rparr>
      else if op_type op = LOGICAL_AGGREGATE_AND_GROUP_BY then s\<lparr>has_aggregate := True\<rparr>
      else if op_type op = LOGICAL_FILTER then
        (let filter_card = estimate_cardinality Q op;
             child_card = (case children op of c # _ \<Rightarrow> estimate_cardinality Q c | [] \<Rightarrow> 0)
         in if 0 < child_card \<and> filter_card < child_card
            then s\<lparr>filter_selectivity := filter_selectivity s * (filter_card / child_card)\<rparr> else s)
      else s)"

fun CollectPlanStatsRecursive ::
  "duckdb_env \<Rightarrow> cost_queries \<Rightarrow> DeltaActivitySource list option \<Rightarrow> LogicalOperator \<Rightarrow> PlanStats \<Rightarrow> PlanStats" where
  "CollectPlanStatsRecursive E Q activity (LogicalOp t oi es cs) s =
     fold (CollectPlanStatsRecursive E Q activity) cs (node_stats E Q activity (LogicalOp t oi es cs) s)"

section \<open>Linear systems\<close>

definition Solve2x2 :: "real \<Rightarrow> real \<Rightarrow> real \<Rightarrow> real \<Rightarrow> real \<Rightarrow> real \<Rightarrow> (real \<times> real) option" where
  "Solve2x2 a00 a01 a10 a11 b0 b1 =
     (let det = a00 * a11 - a01 * a10
      in if \<bar>det\<bar> < 1 / 10 ^ 15 then None else Some ((a11 * b0 - a01 * b1) / det, (a00 * b1 - a10 * b0) / det))"

text \<open>Gaussian elimination on the rows of the augmented matrix.\<close>

definition pivot_row :: "nat \<Rightarrow> real list list \<Rightarrow> nat" where
  "pivot_row col M = fold (\<lambda>row best. if \<bar>M ! best ! col\<bar> < \<bar>M ! row ! col\<bar> then row else best) [Suc col ..< 3] col"

definition swap_rows :: "nat \<Rightarrow> nat \<Rightarrow> real list list \<Rightarrow> real list list" where
  "swap_rows i j M = M[i := M ! j, j := M ! i]"

definition subtract_row :: "nat \<Rightarrow> nat \<Rightarrow> real list list \<Rightarrow> real list list" where
  "subtract_row col row M =
     (let factor = M ! row ! col / M ! col ! col
      in M[row := map (\<lambda>j. if col \<le> j then M ! row ! j - factor * M ! col ! j else M ! row ! j) [0..<4]])"

definition eliminate :: "nat \<Rightarrow> real list list \<Rightarrow> real list list option" where
  "eliminate col M0 =
     (let M = swap_rows col (pivot_row col M0) M0
      in if \<bar>M ! col ! col\<bar> < 1 / 10 ^ 15 then None else Some (fold (subtract_row col) [Suc col ..< 3] M))"

definition back_substitute :: "real list list \<Rightarrow> real \<times> real \<times> real" where
  "back_substitute M =
     (let x2 = M ! 2 ! 3 / M ! 2 ! 2;
          x1 = (M ! 1 ! 3 - M ! 1 ! 2 * x2) / M ! 1 ! 1;
          x0 = (M ! 0 ! 3 - M ! 0 ! 1 * x1 - M ! 0 ! 2 * x2) / M ! 0 ! 0
      in (x0, x1, x2))"

definition Solve3x3 :: "real list list \<Rightarrow> real list \<Rightarrow> (real \<times> real \<times> real) option" where
  "Solve3x3 A b =
     Option.bind (eliminate 0 (map2 (\<lambda>row r. row @ [r]) A b)) (\<lambda>M.
     Option.bind (eliminate 1 M) (\<lambda>M.
     Option.bind (eliminate 2 M) (\<lambda>M. Some (back_substitute M))))"

section \<open>Regression\<close>

type_synonym sample = "real \<times> real \<times> real"

record RegressionWeights =
  w_compute :: real
  w_upsert :: real
  w_intercept :: real
  calibrated :: bool

text \<open>A sample with the weight of its age: the newest is last and has weight 1.\<close>

definition weighted :: "real \<Rightarrow> sample list \<Rightarrow> (real \<times> sample) list" where
  "weighted decay history = map (\<lambda>i. (decay ^ (length history - 1 - i), history ! i)) [0..<length history]"

definition wsum :: "(real \<times> sample) list \<Rightarrow> (sample \<Rightarrow> real) \<Rightarrow> real" where
  "wsum ws f = (\<Sum>(w, s) \<leftarrow> ws. w * f s)"

definition feature :: "nat \<Rightarrow> sample \<Rightarrow> real" where
  "feature i s = (case s of (compute, upsert, y) \<Rightarrow> [compute, upsert, 1] ! i)"

definition observed :: "sample \<Rightarrow> real" where
  "observed s = snd (snd s)"

definition XtWX :: "(real \<times> sample) list \<Rightarrow> real \<Rightarrow> nat \<Rightarrow> nat \<Rightarrow> real" where
  "XtWX ws ridge r c = wsum ws (\<lambda>s. feature r s * feature c s) + (if r = c then ridge else 0)"

definition XtWy :: "(real \<times> sample) list \<Rightarrow> nat \<Rightarrow> real" where
  "XtWy ws r = wsum ws (\<lambda>s. feature r s * observed s)"

definition weighted_mean :: "(real \<times> sample) list \<Rightarrow> RegressionWeights" where
  "weighted_mean ws =
     \<lparr>w_compute = 0, w_upsert = 0,
      w_intercept = (if wsum ws (\<lambda>s. 1) > 0 then wsum ws observed / wsum ws (\<lambda>s. 1) else 0), calibrated = True\<rparr>"

text \<open>One slope and the intercept, refitted when the other slope is negative.\<close>

definition refit :: "(real \<times> sample) list \<Rightarrow> real \<Rightarrow> nat \<Rightarrow> RegressionWeights" where
  "refit ws ridge i =
     (case Solve2x2 (XtWX ws ridge i i) (XtWX ws ridge i 2) (XtWX ws ridge 2 i) (XtWX ws ridge 2 2) (XtWy ws i) (XtWy ws 2) of
        Some (slope, intercept) \<Rightarrow>
          if 0 \<le> slope then \<lparr>w_compute = (if i = 0 then slope else 0), w_upsert = (if i = 1 then slope else 0),
                             w_intercept = intercept, calibrated = True\<rparr>
          else weighted_mean ws
      | None \<Rightarrow> weighted_mean ws)"

definition FitRegression :: "sample list \<Rightarrow> real \<Rightarrow> real \<Rightarrow> nat \<Rightarrow> RegressionWeights" where
  "FitRegression history decay ridge min_samples =
     (let ws = weighted decay history
      in if length history < min_samples then \<lparr>w_compute = 1, w_upsert = 1, w_intercept = 0, calibrated = False\<rparr>
         else (case Solve3x3 (map (\<lambda>r. map (XtWX ws ridge r) [0..<3]) [0..<3]) (map (XtWy ws) [0..<3]) of
             None \<Rightarrow> weighted_mean ws
           | Some (c, u, i) \<Rightarrow>
               if c < 0 \<and> u < 0 then weighted_mean ws
               else if c < 0 then refit ws ridge 1
               else if u < 0 then refit ws ridge 0
               else \<lparr>w_compute = c, w_upsert = u, w_intercept = i, calibrated = True\<rparr>))"

section \<open>Estimates\<close>

record cost_settings =
  ducklake_nterm :: bool
  fk_pruning :: bool
  adaptive_refresh :: bool
  cost_decay :: "real option"

record RefreshCostEstimate =
  incremental_compute :: real
  incremental_upsert :: real
  recompute_compute :: real
  recompute_replace :: real
  incremental_cost :: real
  recompute_cost :: real
  incremental_predicted_ms :: real
  recompute_predicted_ms :: real
  estimate_calibrated :: bool
  strategy_label :: string

definition ShouldRecompute :: "RefreshCostEstimate \<Rightarrow> bool" where
  "ShouldRecompute e \<longleftrightarrow> recompute_predicted_ms e < incremental_predicted_ms e"

definition sum_over :: "TableStats list \<Rightarrow> (TableStats \<Rightarrow> real) \<Rightarrow> real" where
  "sum_over ts f = sum_list (map f ts)"

text \<open>The referenced tables without pending rows, by the position that a table name maps to.\<close>

definition table_position :: "TableStats list \<Rightarrow> string \<Rightarrow> nat option" where
  "table_position ts name = (case filter (\<lambda>i. stats_table (ts ! i) = name) [0..<length ts] of [] \<Rightarrow> None | is \<Rightarrow> Some (last is))"

definition fk_pk_leaf_count :: "cost_settings \<Rightarrow> cost_queries \<Rightarrow> PlanStats \<Rightarrow> nat" where
  "fk_pk_leaf_count S Q p =
     (let ts = table_stats p; names = map stats_table ts
      in if fk_pruning S \<and> has_join p \<and> \<not> all_ducklake p \<and> 1 < length ts then
           (case fk_constraints Q names of
              None \<Rightarrow> 0
            | Some rows \<Rightarrow>
                length (remdups (concat (map (\<lambda>(fk_table, fk_text).
                  (case table_position ts fk_table of
                     None \<Rightarrow> []
                   | Some i \<Rightarrow> filter (\<lambda>j. j \<noteq> i \<and> has_substring fk_text (''REFERENCES '' @ stats_table (ts ! j)) \<and> delta_card (ts ! j) = 0)
                       (map (\<lambda>n. the (table_position ts n)) names))) rows))))
         else 0)"

definition scan_multiplier :: "cost_settings \<Rightarrow> PlanStats \<Rightarrow> nat \<Rightarrow> real" where
  "scan_multiplier S p pruned =
     (if ducklake_nterm S \<and> all_ducklake p then of_nat (join_leaf_count p)
      else if 0 < pruned then max 1 (2 ^ (join_leaf_count p - pruned) - 1)
      else 2 ^ (join_leaf_count p - 1))"

text \<open>Compute cost and the estimated size of the delta of the view.\<close>

definition incremental_scan :: "cost_settings \<Rightarrow> cost_queries \<Rightarrow> PlanStats \<Rightarrow> real \<Rightarrow> real \<times> real" where
  "incremental_scan S Q p mv_card =
     (let ts = table_stats p
      in if has_join p then
           (scan_multiplier S p (fk_pk_leaf_count S Q p) * sum_over ts base_card,
            sum_over ts (\<lambda>t. delta_card t * (mv_card / actual_card t)) * filter_selectivity p)
         else (sum_over ts delta_card,
               sum_over ts (\<lambda>t. delta_card t * min 1 (base_card t / actual_card t)) * filter_selectivity p))"

definition upsert_cost :: "PlanStats \<Rightarrow> real \<Rightarrow> real \<Rightarrow> real" where
  "upsert_cost p mv_card delta_result =
     (if has_aggregate p then min delta_result mv_card * 2 * (if has_full_outer p then 3 else 1)
      else delta_result * (1 + log 2 (max mv_card 1)) * (if has_full_outer p then 3 / 2 else 1))"

definition used_decay :: "cost_settings \<Rightarrow> real" where
  "used_decay S = (case cost_decay S of Some d \<Rightarrow> if d < 0 \<or> 1 < d then 9 / 10 else d | None \<Rightarrow> 9 / 10)"

definition RIDGE_LAMBDA :: real where "RIDGE_LAMBDA = 1 / 10 ^ 4"
definition MIN_SAMPLES :: nat where "MIN_SAMPLES = 3"

text \<open>A prediction: the static cost, or the fitted one when there is enough history.\<close>

definition predicted_ms :: "cost_settings \<Rightarrow> sample list \<Rightarrow> real \<Rightarrow> real \<Rightarrow> real \<times> bool" where
  "predicted_ms S history compute upsert =
     (let reg = FitRegression history (used_decay S) RIDGE_LAMBDA MIN_SAMPLES
      in if adaptive_refresh S \<and> calibrated reg
         then (max 0 (w_compute reg * compute + w_upsert reg * upsert + w_intercept reg), True)
         else (compute + upsert, False))"

definition strategy_cost :: "RefreshType \<Rightarrow> PlanStats \<Rightarrow> real \<Rightarrow> real \<Rightarrow> real \<Rightarrow> string \<times> real \<times> real" where
  "strategy_cost view_type p mv_card compute upsert =
     (let ts = table_stats p; base = sum_over ts base_card
      in if view_type = CURRENT_DIFF_RECOMPUTE then (''current_diff_recompute'', base + mv_card, mv_card * 2)
         else if view_type = GROUP_RECOMPUTE then
           (let active = filter (\<lambda>t. 0 < delta_card t) ts;
                affected_keys = sum_over active (\<lambda>t. delta_card t * (mv_card / actual_card t))
            in (''group_recompute'', of_nat (max 1 (length active)) * (base / of_nat (length ts)), min affected_keys mv_card * 2))
         else if view_type = WINDOW_PARTITION then
           (let total_delta = sum_over ts delta_card; fraction = min 1 (total_delta / max mv_card 1)
            in (''window_partition'', total_delta + base * fraction, min (total_delta * (mv_card / max base 1)) mv_card * 2))
         else (''incremental'', compute, upsert))"

definition EstimateRefreshCost ::
  "duckdb_env \<Rightarrow> cost_settings \<Rightarrow> cost_queries \<Rightarrow> RefreshType \<Rightarrow> string \<Rightarrow> LogicalOperator \<Rightarrow> DeltaActivitySource list option \<Rightarrow> RefreshCostEstimate" where
  "EstimateRefreshCost E S Q view_type view plan activity =
     (let p = CollectPlanStatsRecursive E Q activity plan no_stats;
          base = sum_over (table_stats p) base_card;
          mv_card = nonzero (GetTableRowCount Q (DataTableName view));
          (compute, delta_result) = incremental_scan S Q p mv_card;
          upsert = upsert_cost p mv_card delta_result;
          (inc_ms, inc_cal) = predicted_ms S (history_of Q ''incremental'') compute upsert;
          (rec_ms, rec_cal) = predicted_ms S (history_of Q ''full'') (base + mv_card) (mv_card * 2);
          (strategy, s_compute, s_upsert) = strategy_cost view_type p mv_card compute upsert
      in if table_stats p = [] then
           \<lparr>incremental_compute = 0, incremental_upsert = 0, recompute_compute = 0, recompute_replace = 1, incremental_cost = 0,
            recompute_cost = 1, incremental_predicted_ms = 0, recompute_predicted_ms = 1, estimate_calibrated = False,
            strategy_label = ''incremental''\<rparr>
         else
           \<lparr>incremental_compute = s_compute, incremental_upsert = s_upsert, recompute_compute = base + mv_card,
            recompute_replace = mv_card * 2, incremental_cost = s_compute + s_upsert, recompute_cost = base + mv_card + mv_card * 2,
            incremental_predicted_ms = (if strategy = ''incremental'' then inc_ms else s_compute + s_upsert),
            recompute_predicted_ms = rec_ms, estimate_calibrated = (inc_cal \<or> rec_cal), strategy_label = strategy\<rparr>)"

text \<open>What the refresh does with an estimate (\<open>upsert/refresh_sql.cpp\<close>), and the method it records for it
  (\<open>upsert/refresh.cpp\<close>).\<close>

definition adaptive_recompute :: "cost_settings \<Rightarrow> RefreshCostEstimate \<Rightarrow> bool" where
  "adaptive_recompute S e \<longleftrightarrow> adaptive_refresh S \<and> ShouldRecompute e"

definition RequiresFullRecompute :: "RefreshType \<Rightarrow> bool \<Rightarrow> bool \<Rightarrow> bool \<Rightarrow> bool" where
  "RequiresFullRecompute refresh_type force_full metadata_requires_full adaptive \<longleftrightarrow>
     force_full \<or> metadata_requires_full \<or> refresh_type = FULL_REFRESH \<or> adaptive"

definition recorded_method :: "duckdb_env \<Rightarrow> RefreshCostEstimate \<Rightarrow> string option \<Rightarrow> string" where
  "recorded_method E e refresh_mode =
     (let m = (if strategy_label e = [] then ''incremental'' else strategy_label e);
          chosen = (if m = ''incremental'' \<and> ShouldRecompute e then ''full'' else m)
      in case refresh_mode of Some s \<Rightarrow> if Lower E s = ''full'' then ''full'' else chosen | None \<Rightarrow> chosen)"

datatype cost_error = ParserException string

definition cost_decision :: "RefreshCostEstimate \<Rightarrow> string" where
  "cost_decision e =
     (let d = (if strategy_label e = [] then ''incremental'' else strategy_label e)
      in if d = ''incremental'' \<and> ShouldRecompute e then ''full'' else d)"

text \<open>The query that the pragma is replaced by. The plan is the parsed, planned and optimized view query.\<close>

definition RefreshCostQuery ::
  "duckdb_env \<Rightarrow> cost_settings \<Rightarrow> cost_queries \<Rightarrow> RefreshType \<Rightarrow> string \<Rightarrow> string \<Rightarrow> LogicalOperator option \<Rightarrow> cost_error + string" where
  "RefreshCostQuery E S Q view_type view view_query plan =
     (if view_query = [] then Inl (ParserException (''View '' @ [quote_char] @ view @ [quote_char] @ '' not found in IVM metadata''))
      else (case plan of
          None \<Rightarrow> Inl (ParserException (''View '' @ [quote_char] @ view @ [quote_char] @ '' has an empty IVM metadata query''))
        | Some p \<Rightarrow>
            (let e = EstimateRefreshCost E S Q view_type view p None; num = double_text Q
             in Inr (''SELECT '' @ [quote_char] @ cost_decision e @ [quote_char] @ '' AS decision, '' @ num (incremental_cost e) @
               '' AS incremental_cost, '' @ num (recompute_cost e) @ '' AS recompute_cost, '' @ num (incremental_predicted_ms e) @
               '' AS incremental_predicted_ms, '' @ num (recompute_predicted_ms e) @ '' AS recompute_predicted_ms, '' @
               (if estimate_calibrated e then ''true'' else ''false'') @ '' AS calibrated''))))"

definition RefreshCostHistoryQuery :: "string \<Rightarrow> string" where
  "RefreshCostHistoryQuery view =
     ''SELECT view_name, refresh_timestamp, method, incremental_compute_est, incremental_upsert_est,'' @
     '' recompute_compute_est, recompute_replace_est, actual_duration_ms FROM openivm_refresh_history WHERE view_name = '' @
     [quote_char] @ EscapeSingleQuotes view @ [quote_char] @ '' ORDER BY refresh_timestamp DESC LIMIT 20''"

end
