(* ===== verification/Cost_Correct.thy ===== *)
theory Cost_Correct
  imports Cost_Model
begin

text \<open>
  The solvers of the cost model solve their systems; the regression minimises the weighted ridge
  error among all weights with slopes that are not negative; the cost of an affected-groups
  recomputation stays below that of a full one.
\<close>

section \<open>Gaussian elimination\<close>

type_synonym vec3 = "real \<times> real \<times> real"

fun solves_row :: "vec3 \<Rightarrow> real list \<Rightarrow> bool" where
  "solves_row (x, y, z) row \<longleftrightarrow> row ! 0 * x + row ! 1 * y + row ! 2 * z = row ! 3"

abbreviation solves :: "vec3 \<Rightarrow> real list list \<Rightarrow> bool" where
  "solves v M \<equiv> list_all (solves_row v) M"

lemma upt_three: "[0..<3] = [0, 1, 2 :: nat]" "[Suc 0..<3] = [1, 2 :: nat]" "[Suc 1..<3] = [2 :: nat]" "[Suc 2..<3] = []" "[Suc (Suc 0)..<3] = [2 :: nat]" "[0..<4] = [0, 1, 2, 3 :: nat]"
  by (simp_all add: upt_rec)

lemma solves_rest: "p \<noteq> 0 \<Longrightarrow> (b - a / p * q) * y + (c - a / p * r) * z = d - a / p * s \<Longrightarrow> p * x + q * y + r * z = s \<Longrightarrow> a * x + b * y + c * z = d"
  for p q r s a b c d x y z :: real
proof -
  assume p: "p \<noteq> 0" and e: "(b - a / p * q) * y + (c - a / p * r) * z = d - a / p * s" and m: "p * x + q * y + r * z = s"
  have "a / p * (p * x + q * y + r * z) = a / p * s" using m by simp
  then have "a * x + a / p * q * y + a / p * r * z = a / p * s" using p by (simp add: distrib_left)
  with e show ?thesis by (simp add: algebra_simps)
qed

lemma solves_swap: "solves v (swap_rows 0 1 [a, b, c]) = solves v [a, b, c]" "solves v (swap_rows 0 2 [a, b, c]) = solves v [a, b, c]"
  "solves v (swap_rows 1 2 [a, b, c]) = solves v [a, b, c]" "swap_rows i i [a, b, c] = [a, b, c]" if "i < 3" for i
  using that by (auto simp: swap_rows_def less_Suc_eq numeral_3_eq_3)

lemma pivot_cases: "pivot_row 0 M \<in> {0, 1, 2}" "pivot_row 1 M \<in> {1, 2}" "pivot_row 2 M = 2"
  by (simp_all add: pivot_row_def upt_three numeral_2_eq_2 [symmetric] del: One_nat_def)

text \<open>A row as four numbers.\<close>

definition row4 :: "real list \<Rightarrow> bool" where
  "row4 r \<longleftrightarrow> (\<exists>a b c d. r = [a, b, c, d])"

lemma eliminate_first:
  assumes "eliminate 0 [r0, r1, r2] = Some M" "row4 r0" "row4 r1" "row4 r2"
  obtains p0 p1 p2 p3 q1 q2 q3 s1 s2 s3 where "M = [[p0, p1, p2, p3], [0, q1, q2, q3], [0, s1, s2, s3]]" "p0 \<noteq> 0"
    "\<And>v. solves v M \<Longrightarrow> solves v [r0, r1, r2]"
proof -
  have "\<exists>p q s. swap_rows 0 (pivot_row 0 [r0, r1, r2]) [r0, r1, r2] = [p, q, s] \<and> row4 p \<and> row4 q \<and> row4 s \<and>
      (\<forall>v. solves v [p, q, s] = solves v [r0, r1, r2])"
    using pivot_cases(1) [of "[r0, r1, r2]"] assms(2-4) by (auto simp: swap_rows_def)
  then obtain p0 p1 p2 p3 b0 b1 b2 b3 c0 c1 c2 c3 where swapped:
      "swap_rows 0 (pivot_row 0 [r0, r1, r2]) [r0, r1, r2] = [[p0, p1, p2, p3], [b0, b1, b2, b3], [c0, c1, c2, c3]]"
      "\<And>v. solves v [[p0, p1, p2, p3], [b0, b1, b2, b3], [c0, c1, c2, c3]] = solves v [r0, r1, r2]"
    unfolding row4_def by blast
  let ?M = "[[p0, p1, p2, p3], [0, b1 - b0 / p0 * p1, b2 - b0 / p0 * p2, b3 - b0 / p0 * p3],
    [0, c1 - c0 / p0 * p1, c2 - c0 / p0 * p2, c3 - c0 / p0 * p3]]"
  have p0: "p0 \<noteq> 0" and M: "M = ?M"
    using assms(1) unfolding eliminate_def swapped(1) Let_def
    by (auto simp: subtract_row_def upt_three split: if_splits)
  have "solves v [r0, r1, r2]" if "solves v M" for v
  proof -
    obtain x y z where v: "v = (x, y, z)" by (cases v)
    have "p0 * x + p1 * y + p2 * z = p3" "(b1 - b0 / p0 * p1) * y + (b2 - b0 / p0 * p2) * z = b3 - b0 / p0 * p3"
      "(c1 - c0 / p0 * p1) * y + (c2 - c0 / p0 * p2) * z = c3 - c0 / p0 * p3" using that by (simp_all add: M v)
    then have "solves v [[p0, p1, p2, p3], [b0, b1, b2, b3], [c0, c1, c2, c3]]"
      using solves_rest [OF p0, of b1 b0 p1 y b2 p2 z b3 p3 x] solves_rest [OF p0, of c1 c0 p1 y c2 p2 z c3 p3 x] by (simp add: v)
    then show ?thesis using swapped(2) by simp
  qed
  from that [OF M p0 this] show thesis .
qed

lemma eliminate_second:
  assumes "eliminate 1 [p, [0, q1, q2, q3], [0, s1, s2, s3]] = Some M"
  obtains a1 a2 a3 b2 b3 where "M = [p, [0, a1, a2, a3], [0, 0, b2, b3]]" "a1 \<noteq> 0"
    "\<And>v. solves v M \<Longrightarrow> solves v [p, [0, q1, q2, q3], [0, s1, s2, s3]]"
proof -
  let ?N = "[p, [0, q1, q2, q3], [0, s1, s2, s3]]"
  have "\<exists>a1 a2 a3 c1 c2 c3. swap_rows 1 (pivot_row 1 ?N) ?N = [p, [0, a1, a2, a3], [0, c1, c2, c3]] \<and>
      (\<forall>v. solves v [p, [0, a1, a2, a3], [0, c1, c2, c3]] = solves v ?N)"
    using pivot_cases(2) [of ?N] by (auto simp: swap_rows_def)
  then obtain a1 a2 a3 c1 c2 c3 where swapped: "swap_rows 1 (pivot_row 1 ?N) ?N = [p, [0, a1, a2, a3], [0, c1, c2, c3]]"
      "\<And>v. solves v [p, [0, a1, a2, a3], [0, c1, c2, c3]] = solves v ?N" by blast
  have a1: "a1 \<noteq> 0" and M: "M = [p, [0, a1, a2, a3], [0, 0, c2 - c1 / a1 * a2, c3 - c1 / a1 * a3]]"
    using assms unfolding eliminate_def swapped(1) Let_def by (auto simp: subtract_row_def upt_three split: if_splits)
  have "solves v ?N" if "solves v M" for v
  proof -
    obtain x y z where v: "v = (x, y, z)" by (cases v)
    from that have "solves v [p, [0, a1, a2, a3], [0, c1, c2, c3]]"
      using solves_rest [OF a1, of c2 c1 a2 z 0 0 0 c3 a3 y] by (simp add: M v)
    then show ?thesis using swapped(2) by simp
  qed
  from that [OF M a1 this] show thesis .
qed

lemma eliminate_third: "eliminate 2 [p, q, [0, 0, c, d]] = Some M \<Longrightarrow> M = [p, q, [0, 0, c, d]] \<and> c \<noteq> 0"
  unfolding eliminate_def pivot_cases(3) upt_three by (auto simp: swap_rows_def Let_def split: if_splits)

lemma back_substitute_solves:
  assumes "p0 \<noteq> 0" "a1 \<noteq> 0" "c \<noteq> 0"
  shows "solves (back_substitute [[p0, p1, p2, p3], [0, a1, a2, a3], [0, 0, c, d]]) [[p0, p1, p2, p3], [0, a1, a2, a3], [0, 0, c, d]]"
  using assms by (simp add: back_substitute_def Let_def numeral_2_eq_2 numeral_3_eq_3 field_simps)

lemma Solve3x3_solves:
  assumes "Solve3x3 [[a00, a01, a02], [a10, a11, a12], [a20, a21, a22]] [b0, b1, b2] = Some (x, y, z)"
  shows "a00 * x + a01 * y + a02 * z = b0 \<and> a10 * x + a11 * y + a12 * z = b1 \<and> a20 * x + a21 * y + a22 * z = b2"
proof -
  let ?M = "[[a00, a01, a02, b0], [a10, a11, a12, b1], [a20, a21, a22, b2]]"
  obtain M1 M2 M3 where m: "eliminate 0 ?M = Some M1" "eliminate 1 M1 = Some M2" "eliminate 2 M2 = Some M3" "back_substitute M3 = (x, y, z)"
    using assms by (auto simp: Solve3x3_def bind_eq_Some_conv)
  obtain p0 p1 p2 p3 q1 q2 q3 s1 s2 s3 where M1: "M1 = [[p0, p1, p2, p3], [0, q1, q2, q3], [0, s1, s2, s3]]" "p0 \<noteq> 0"
    "\<And>v. solves v M1 \<Longrightarrow> solves v ?M"
    by (rule eliminate_first [OF m(1)]) (auto simp: row4_def)
  obtain a1 a2 a3 c d where M2: "M2 = [[p0, p1, p2, p3], [0, a1, a2, a3], [0, 0, c, d]]" "a1 \<noteq> 0" "\<And>v. solves v M2 \<Longrightarrow> solves v M1"
    using eliminate_second [OF m(2) [unfolded M1(1)]] M1(1) by metis
  have M3: "M3 = M2" "c \<noteq> 0" using eliminate_third m(3) M2(1) by auto
  have "solves (x, y, z) M2"
    using back_substitute_solves [OF M1(2) M2(2) M3(2), of p1 p2 p3 a2 a3 d] m(4) unfolding M3(1) M2(1) by simp
  then have "solves (x, y, z) ?M" by (intro M1(3) M2(3))
  then show ?thesis by (simp add: numeral_2_eq_2 numeral_3_eq_3)
qed

lemma Solve2x2_solves:
  assumes "Solve2x2 a00 a01 a10 a11 b0 b1 = Some (x, y)"
  shows "a00 * x + a01 * y = b0 \<and> a10 * x + a11 * y = b1"
proof -
  let ?det = "a00 * a11 - a01 * a10"
  have det: "?det \<noteq> 0" and xy: "x = (a11 * b0 - a01 * b1) / ?det" "y = (a00 * b1 - a10 * b0) / ?det"
    using assms by (auto simp: Solve2x2_def Let_def split: if_splits)
  have "a00 * x + a01 * y = b0 * ?det / ?det" "a10 * x + a11 * y = b1 * ?det / ?det"
    unfolding xy by (simp_all add: add_divide_distrib [symmetric] times_divide_eq_right [symmetric] algebra_simps)
  with det show ?thesis by simp
qed

section \<open>Least squares\<close>

text \<open>The weighted ridge error of a compute slope, an upsert slope and an intercept.\<close>

definition fit_error :: "(real \<times> sample) list \<Rightarrow> real \<Rightarrow> vec3 \<Rightarrow> real" where
  "fit_error ws ridge v =
     (case v of (c, u, i) \<Rightarrow>
        wsum ws (\<lambda>s. (feature 0 s * c + feature 1 s * u + feature 2 s * i - observed s)\<^sup>2) + ridge * (c\<^sup>2 + u\<^sup>2 + i\<^sup>2))"

abbreviation gram :: "(real \<times> sample) list \<Rightarrow> nat \<Rightarrow> nat \<Rightarrow> real" where
  "gram ws r c \<equiv> wsum ws (\<lambda>s. feature r s * feature c s)"

lemma XtWX_gram: "XtWX ws ridge r c = gram ws r c + (if r = c then ridge else 0)"
  by (simp add: XtWX_def)

lemma gram_sym: "gram ws r c = gram ws c r"
  by (simp add: mult.commute)

lemma square_sum:
  "wsum ws (\<lambda>s. (feature 0 s * c + feature 1 s * u + feature 2 s * i)\<^sup>2) =
   gram ws 0 0 * c\<^sup>2 + gram ws 1 1 * u\<^sup>2 + gram ws 2 2 * i\<^sup>2 + 2 * (gram ws 0 1 * c * u + gram ws 0 2 * c * i + gram ws 1 2 * u * i)"
  by (induction ws) (auto simp: wsum_def power2_eq_square algebra_simps)

lemma wsum_add: "wsum ws (\<lambda>s. f s + g s) = wsum ws f + wsum ws g"
  by (induction ws) (auto simp: wsum_def algebra_simps)

lemma wsum_scale: "wsum ws (\<lambda>s. f s * k) = wsum ws f * k"
  by (induction ws) (auto simp: wsum_def algebra_simps)

lemma wsum_nonneg: "\<forall>(w, s) \<in> set ws. 0 \<le> w \<Longrightarrow> (\<And>s. 0 \<le> f s) \<Longrightarrow> 0 \<le> wsum ws f"
  by (induction ws) (auto simp: wsum_def)

definition quadratic :: "(real \<times> sample) list \<Rightarrow> real \<Rightarrow> vec3 \<Rightarrow> real" where
  "quadratic ws ridge v =
     (case v of (c, u, i) \<Rightarrow>
        wsum ws (\<lambda>s. (feature 0 s * c + feature 1 s * u + feature 2 s * i)\<^sup>2) + ridge * (c\<^sup>2 + u\<^sup>2 + i\<^sup>2))"

lemma quadratic_nonneg: "\<forall>(w, s) \<in> set ws. 0 \<le> w \<Longrightarrow> 0 \<le> ridge \<Longrightarrow> 0 \<le> quadratic ws ridge v"
  by (auto simp: quadratic_def intro!: add_nonneg_nonneg mult_nonneg_nonneg wsum_nonneg split: prod.split)

lemma quadratic_form:
  "quadratic ws ridge (c, u, i) =
     c * (XtWX ws ridge 0 0 * c + XtWX ws ridge 0 1 * u + XtWX ws ridge 0 2 * i) +
     u * (XtWX ws ridge 1 0 * c + XtWX ws ridge 1 1 * u + XtWX ws ridge 1 2 * i) +
     i * (XtWX ws ridge 2 0 * c + XtWX ws ridge 2 1 * u + XtWX ws ridge 2 2 * i)"
  unfolding quadratic_def prod.case square_sum XtWX_gram gram_sym [of ws 1 0] gram_sym [of ws 2 0] gram_sym [of ws 2 1]
  by (simp add: power2_eq_square algebra_simps)

text \<open>Half the gradient of the error, one component.\<close>

definition slope_at :: "(real \<times> sample) list \<Rightarrow> real \<Rightarrow> vec3 \<Rightarrow> nat \<Rightarrow> real" where
  "slope_at ws ridge v r =
     (case v of (c, u, i) \<Rightarrow> XtWX ws ridge r 0 * c + XtWX ws ridge r 1 * u + XtWX ws ridge r 2 * i - XtWy ws r)"

lemma residual_sum:
  "wsum ws (\<lambda>s. (feature 0 s * c + feature 1 s * u + feature 2 s * i - observed s)\<^sup>2) =
   wsum ws (\<lambda>s. (feature 0 s * c + feature 1 s * u + feature 2 s * i)\<^sup>2) -
   2 * (XtWy ws 0 * c + XtWy ws 1 * u + XtWy ws 2 * i) + wsum ws (\<lambda>s. (observed s)\<^sup>2)"
  unfolding XtWy_def by (induction ws) (auto simp: wsum_def power2_eq_square algebra_simps)

lemma error_expansion:
  "fit_error ws ridge (c', u', i') = fit_error ws ridge (c, u, i) + quadratic ws ridge (c' - c, u' - u, i' - i) +
     2 * (slope_at ws ridge (c, u, i) 0 * (c' - c) + slope_at ws ridge (c, u, i) 1 * (u' - u) + slope_at ws ridge (c, u, i) 2 * (i' - i))"
  unfolding fit_error_def quadratic_def slope_at_def prod.case residual_sum square_sum XtWX_gram
    gram_sym [of ws 1 0] gram_sym [of ws 2 0] gram_sym [of ws 2 1]
  by (simp add: power2_eq_square algebra_simps)

text \<open>The conditions of optimality under two sign constraints.\<close>

lemma optimal_fit:
  assumes "\<forall>(w, s) \<in> set ws. 0 \<le> w" "0 \<le> ridge" "0 \<le> c'" "0 \<le> u'"
    and "0 \<le> slope_at ws ridge (c, u, i) 0" "slope_at ws ridge (c, u, i) 0 * c = 0"
    and "0 \<le> slope_at ws ridge (c, u, i) 1" "slope_at ws ridge (c, u, i) 1 * u = 0"
    and "slope_at ws ridge (c, u, i) 2 = 0"
  shows "fit_error ws ridge (c, u, i) \<le> fit_error ws ridge (c', u', i')"
proof -
  have "0 \<le> slope_at ws ridge (c, u, i) 0 * (c' - c)" "0 \<le> slope_at ws ridge (c, u, i) 1 * (u' - u)"
    using assms(3-8) by (auto simp: right_diff_distrib)
  with quadratic_nonneg [OF assms(1,2), of "(c' - c, u' - u, i' - i)"] assms(9) show ?thesis
    by (simp add: error_expansion [of ws ridge c' u' i' c u i])
qed

text \<open>A slope that is negative at the unconstrained optimum has a gradient that is not negative where it is
  set to zero and the other two are refitted.\<close>

lemma gradient_difference:
  assumes "slope_at ws ridge (c, u, i) r = 0"
  shows "slope_at ws ridge (c', u', i') r =
    XtWX ws ridge r 0 * (c' - c) + XtWX ws ridge r 1 * (u' - u) + XtWX ws ridge r 2 * (i' - i)"
  using assms by (simp add: slope_at_def algebra_simps)

lemma clamped_slope:
  assumes "\<forall>(w, s) \<in> set ws. 0 \<le> w" "0 \<le> ridge"
    and "slope_at ws ridge (c, u, i) 0 = 0" "slope_at ws ridge (c, u, i) 1 = 0" "slope_at ws ridge (c, u, i) 2 = 0"
  shows "c < 0 \<Longrightarrow> slope_at ws ridge (0, u', i') 1 = 0 \<Longrightarrow> slope_at ws ridge (0, u', i') 2 = 0 \<Longrightarrow> 0 \<le> slope_at ws ridge (0, u', i') 0"
    "u < 0 \<Longrightarrow> slope_at ws ridge (c', 0, i') 0 = 0 \<Longrightarrow> slope_at ws ridge (c', 0, i') 2 = 0 \<Longrightarrow> 0 \<le> slope_at ws ridge (c', 0, i') 1"
proof -
  note diff = gradient_difference [OF assms(3)] gradient_difference [OF assms(4)] gradient_difference [OF assms(5)]
  have sum: "0 \<le> (c' - c) * slope_at ws ridge (c', u', i') 0 + (u' - u) * slope_at ws ridge (c', u', i') 1 +
      (i' - i) * slope_at ws ridge (c', u', i') 2" for c' u' i'
    using quadratic_nonneg [OF assms(1,2), of "(c' - c, u' - u, i' - i)"] unfolding quadratic_form diff .
  show "0 \<le> slope_at ws ridge (0, u', i') 0"
    if "c < 0" "slope_at ws ridge (0, u', i') 1 = 0" "slope_at ws ridge (0, u', i') 2 = 0"
  proof (rule ccontr)
    assume "\<not> 0 \<le> slope_at ws ridge (0, u', i') 0"
    then have "(0 - c) * slope_at ws ridge (0, u', i') 0 < 0" using that(1) by (intro mult_pos_neg) auto
    with sum [of 0 u' i'] that(2,3) show False by simp
  qed
  show "0 \<le> slope_at ws ridge (c', 0, i') 1"
    if "u < 0" "slope_at ws ridge (c', 0, i') 0 = 0" "slope_at ws ridge (c', 0, i') 2 = 0"
  proof (rule ccontr)
    assume "\<not> 0 \<le> slope_at ws ridge (c', 0, i') 1"
    then have "(0 - u) * slope_at ws ridge (c', 0, i') 1 < 0" using that(1) by (intro mult_pos_neg) auto
    with sum [of c' 0 i'] that(2,3) show False by simp
  qed
qed

lemma solved_gradient:
  assumes "Solve3x3 (map (\<lambda>r. map (XtWX ws ridge r) [0..<3]) [0..<3]) (map (XtWy ws) [0..<3]) = Some (c, u, i)"
  shows "slope_at ws ridge (c, u, i) 0 = 0" "slope_at ws ridge (c, u, i) 1 = 0" "slope_at ws ridge (c, u, i) 2 = 0"
  using assms unfolding upt_three by (auto simp: slope_at_def dest: Solve3x3_solves)

lemma refit_cases:
  assumes "i = 0 \<or> i = 1" "refit ws ridge i = reg"
  shows "reg = weighted_mean ws \<or>
    (\<exists>slope b. 0 \<le> slope \<and> reg = \<lparr>w_compute = (if i = 0 then slope else 0), w_upsert = (if i = 1 then slope else 0),
                             w_intercept = b, calibrated = True\<rparr> \<and>
      (let v = (if i = 0 then slope else 0, if i = 1 then slope else 0, b)
       in slope_at ws ridge v i = 0 \<and> slope_at ws ridge v 2 = 0))"
  using assms by (auto simp: refit_def slope_at_def Let_def split: option.splits if_splits dest!: Solve2x2_solves)

lemma weighted_nonneg: "0 \<le> decay \<Longrightarrow> \<forall>(w, s) \<in> set (weighted decay history). 0 \<le> w"
  by (auto simp: weighted_def)

lemma refitted_optimal:
  assumes "\<forall>(w, s) \<in> set ws. 0 \<le> w" "0 \<le> ridge"
    and full: "slope_at ws ridge (c, u, j) 0 = 0" "slope_at ws ridge (c, u, j) 1 = 0" "slope_at ws ridge (c, u, j) 2 = 0"
    and neg: "i = 0 \<and> u < 0 \<or> i = 1 \<and> c < 0"
    and reg: "refit ws ridge i = reg" "0 < w_compute reg \<or> 0 < w_upsert reg" and "0 \<le> c'" "0 \<le> u'"
  shows "fit_error ws ridge (w_compute reg, w_upsert reg, w_intercept reg) \<le> fit_error ws ridge (c', u', i')"
proof -
  have "reg \<noteq> weighted_mean ws" using reg(2) by (auto simp: weighted_mean_def)
  then obtain slope b where r: "0 \<le> slope" "reg = \<lparr>w_compute = (if i = 0 then slope else 0), w_upsert = (if i = 1 then slope else 0),
      w_intercept = b, calibrated = True\<rparr>"
    "slope_at ws ridge (if i = 0 then slope else 0, if i = 1 then slope else 0, b) i = 0"
    "slope_at ws ridge (if i = 0 then slope else 0, if i = 1 then slope else 0, b) 2 = 0"
    using refit_cases [OF _ reg(1)] neg by (auto simp: Let_def)
  from neg show ?thesis
  proof
    assume "i = 0 \<and> u < 0"
    with r clamped_slope(2) [OF assms(1,2) full, of slope b] show ?thesis
      by (intro optimal_fit [OF assms(1,2,9,10)]) simp_all
  next
    assume "i = 1 \<and> c < 0"
    with r clamped_slope(1) [OF assms(1,2) full, of slope b] show ?thesis
      by (intro optimal_fit [OF assms(1,2,9,10)]) simp_all
  qed
qed

section \<open>Properties\<close>

text \<open>C35: the learned cost model. The slopes that \<open>FitRegression\<close> returns are never negative, and whenever one of
  them is positive the weights minimise the ridge error over the history, the newest refresh with
  weight 1 and each older one discounted by the decay, among all weights with slopes that are not
  negative: the refit with one slope set to zero gives the constrained optimum.\<close>
theorem regression_is_nonnegative_least_squares:
  fixes history :: "sample list" and min_samples :: nat
  assumes "0 \<le> decay" "0 \<le> ridge"
  defines "reg \<equiv> FitRegression history decay ridge min_samples"
  shows "0 \<le> w_compute reg \<and> 0 \<le> w_upsert reg \<and>
    (calibrated reg \<and> (0 < w_compute reg \<or> 0 < w_upsert reg) \<longrightarrow>
     (\<forall>c u i. 0 \<le> c \<and> 0 \<le> u \<longrightarrow>
        fit_error (weighted decay history) ridge (w_compute reg, w_upsert reg, w_intercept reg) \<le>
        fit_error (weighted decay history) ridge (c, u, i)))"
proof -
  let ?ws = "weighted decay history"
  let ?solved = "Solve3x3 (map (\<lambda>r. map (XtWX ?ws ridge r) [0..<3]) [0..<3]) (map (XtWy ?ws) [0..<3])"
  note pos = weighted_nonneg [OF assms(1)] assms(2)
  have mean: "w_compute (weighted_mean ?ws) = 0" "w_upsert (weighted_mean ?ws) = 0" by (simp_all add: weighted_mean_def)
  have refit_nonneg: "0 \<le> w_compute (refit ?ws ridge k) \<and> 0 \<le> w_upsert (refit ?ws ridge k)" if "k = 0 \<or> k = 1" for k
    using refit_cases [OF that refl, of ?ws ridge] mean by auto
  consider (cold) "length history < min_samples" | (mean) "reg = weighted_mean ?ws"
    | (refit) k c u j where "reg = refit ?ws ridge k" "?solved = Some (c, u, j)" "k = 0 \<and> u < 0 \<or> k = 1 \<and> c < 0"
    | (plain) c u j where "reg = \<lparr>w_compute = c, w_upsert = u, w_intercept = j, calibrated = True\<rparr>" "?solved = Some (c, u, j)" "0 \<le> c" "0 \<le> u"
  proof (cases "length history < min_samples \<or> ?solved = None")
    case True
    then show thesis using cold mean
      by (cases "length history < min_samples") (simp_all add: reg_def FitRegression_def Let_def)
  next
    case False
    then obtain c u j where solved: "?solved = Some (c, u, j)" by auto
    with False have reg: "reg = (if c < 0 \<and> u < 0 then weighted_mean ?ws else if c < 0 then refit ?ws ridge 1
        else if u < 0 then refit ?ws ridge 0 else \<lparr>w_compute = c, w_upsert = u, w_intercept = j, calibrated = True\<rparr>)"
      by (simp add: reg_def FitRegression_def Let_def)
    show thesis
      using mean refit [OF _ solved] plain [OF _ solved] unfolding reg by (cases "c < 0"; cases "u < 0") auto
  qed
  then show ?thesis
  proof cases
    case cold
    then show ?thesis by (simp add: reg_def FitRegression_def Let_def)
  next
    case mean
    then show ?thesis by (simp add: weighted_mean_def)
  next
    case refit
    then show ?thesis using refit_nonneg [of k] refitted_optimal [OF pos solved_gradient [OF refit(2)] refit(3) refit(1) [symmetric]] by auto
  next
    case plain
    then show ?thesis using optimal_fit [OF pos] solved_gradient [OF plain(2)] by simp
  qed
qed

definition steady_history :: "sample list" where
  "steady_history = [(1, 0, 1), (1, 0, 1), (1, 0, 1)]"

lemma steady_system:
  "map (\<lambda>r. map (XtWX (weighted 1 steady_history) ridge r) [0..<3]) [0..<3] = [[3 + ridge, 0, 3], [0, ridge, 0], [3, 0, 3 + ridge]]"
  "map (XtWy (weighted 1 steady_history)) [0..<3] = [3, 0, 3]"
  unfolding upt_three weighted_def steady_history_def
  by (simp_all add: upt_rec XtWX_def XtWy_def wsum_def feature_def observed_def)

lemma steady_solved: "Solve3x3 [[3 + 1 / 10000, 0, 3], [0, 1 / 10000, 0], [3, 0, 3 + 1 / 10000]] [3, 0, 3] = Some (30000 / 60001, 0, 30000 / 60001)"
proof -
  let ?a = "30001 / 10000 :: real" and ?r = "1 / 10000 :: real"
  let ?c = "?a - 3 / ?a * 3" and ?d = "3 - 3 / ?a * 3"
  have "eliminate 0 [[?a, 0, 3, 3], [0, ?r, 0, 0], [3, 0, ?a, 3]] = Some [[?a, 0, 3, 3], [0, ?r, 0, 0], [0, 0, ?c, ?d]]"
    by (simp add: eliminate_def pivot_row_def swap_rows_def subtract_row_def upt_three)
  moreover have "eliminate 1 [[?a, 0, 3, 3], [0, ?r, 0, 0], [0, 0, ?c, ?d]] = Some [[?a, 0, 3, 3], [0, ?r, 0, 0], [0, 0, ?c, ?d]]"
    by (simp add: eliminate_def pivot_row_def swap_rows_def subtract_row_def upt_three)
  moreover have "eliminate 2 [[?a, 0, 3, 3], [0, ?r, 0, 0], [0, 0, ?c, ?d]] = Some [[?a, 0, 3, 3], [0, ?r, 0, 0], [0, 0, ?c, ?d]]"
    unfolding eliminate_def pivot_cases(3) by (simp add: swap_rows_def upt_three)
  moreover have "3 + 1 / 10000 = ?a" by simp
  ultimately show ?thesis unfolding Solve3x3_def by (simp add: back_substitute_def)
qed

lemma steady_fit: "FitRegression steady_history 1 RIDGE_LAMBDA 3 =
    \<lparr>w_compute = 30000 / 60001, w_upsert = 0, w_intercept = 30000 / 60001, calibrated = True\<rparr>"
proof -
  have ridge: "RIDGE_LAMBDA = 1 / 10000" by (simp add: RIDGE_LAMBDA_def)
  show ?thesis unfolding FitRegression_def Let_def steady_system ridge steady_solved by (simp add: steady_history_def)
qed

theorem regression_is_nonnegative_least_squares_witness:
  "FitRegression steady_history 1 RIDGE_LAMBDA 3 =
     \<lparr>w_compute = 30000 / 60001, w_upsert = 0, w_intercept = 30000 / 60001, calibrated = True\<rparr> \<and>
   fit_error (weighted 1 steady_history) RIDGE_LAMBDA (30000 / 60001, 0, 30000 / 60001) \<le>
     fit_error (weighted 1 steady_history) RIDGE_LAMBDA (1, 0, 0)"
proof -
  have "0 \<le> RIDGE_LAMBDA" by (simp add: RIDGE_LAMBDA_def)
  then show ?thesis
    using regression_is_nonnegative_least_squares [of 1 RIDGE_LAMBDA steady_history 3] by (simp add: steady_fit)
qed

lemma sum_over_nonneg: "(\<And>t. t \<in> set ts \<Longrightarrow> 0 \<le> f t) \<Longrightarrow> 0 \<le> sum_over ts f"
  by (induction ts) (auto simp: sum_over_def)

text \<open>Cardinalities are not negative.\<close>

lemma collected_cards:
  assumes "\<And>op. 0 \<le> estimate_cardinality Q op" "\<forall>t \<in> set (table_stats s). 0 \<le> base_card t"
  shows "\<forall>t \<in> set (table_stats (CollectPlanStatsRecursive E Q activity op s)). 0 \<le> base_card t"
  using assms(2)
proof (induction op arbitrary: s rule: plan_induct)
  case (LogicalOp t oi es cs)
  have node: "\<forall>t \<in> set (table_stats (node_stats E Q activity op s)). 0 \<le> base_card t" if "\<forall>t \<in> set (table_stats s). 0 \<le> base_card t" for op s
    using that assms(1) by (auto simp: node_stats_def scan_stats_def nonzero_def Let_def split: option.split prod.split)
  have "\<forall>t \<in> set (table_stats (fold (CollectPlanStatsRecursive E Q activity) cs' s)). 0 \<le> base_card t"
    if "set cs' \<subseteq> set cs" "\<forall>t \<in> set (table_stats s). 0 \<le> base_card t" for cs' s
    using that
  proof (induction cs' arbitrary: s)
    case (Cons c cs')
    have "\<forall>t \<in> set (table_stats (CollectPlanStatsRecursive E Q activity c s)). 0 \<le> base_card t"
      by (rule LogicalOp(1)) (use Cons.prems in simp_all)
    then show ?case unfolding fold_simps by (rule Cons.IH [rotated]) (use Cons.prems(1) in simp)
  qed simp
  from this [OF subset_refl node [OF LogicalOp(2)]] show ?case by simp
qed

lemma group_recompute_cost:
  assumes "table_stats p \<noteq> []" "\<forall>t \<in> set (table_stats p). 0 \<le> base_card t" "0 \<le> mv_card"
    and "strategy_cost GROUP_RECOMPUTE p mv_card compute upsert = (label, c, u)"
  shows "c + u \<le> sum_over (table_stats p) base_card + mv_card + mv_card * 2"
proof -
  let ?ts = "table_stats p" and ?active = "filter (\<lambda>t. 0 < delta_card t) (table_stats p)"
  let ?base = "sum_over ?ts base_card"
  have base: "0 \<le> ?base" by (rule sum_over_nonneg) (use assms(2) in blast)
  have n: "0 < (of_nat (length ?ts) :: real)" using assms(1) by simp
  have "max 1 (length ?active) \<le> length ?ts" using assms(1) by (cases ?ts) (auto simp: length_filter_le le_SucI)
  then have active: "(of_nat (max 1 (length ?active)) :: real) \<le> of_nat (length ?ts)" by (rule of_nat_mono)
  have "of_nat (max 1 (length ?active)) * (?base / of_nat (length ?ts)) \<le> of_nat (length ?ts) * (?base / of_nat (length ?ts))"
    by (rule mult_right_mono [OF active]) (use base n in simp)
  also have "\<dots> = ?base" using n by simp
  finally have c: "c \<le> ?base" using assms(4) by (simp add: strategy_cost_def Let_def)
  have "u \<le> mv_card * 2" using assms(4) by (auto simp: strategy_cost_def Let_def)
  with c assms(3) show ?thesis by linarith
qed

text \<open>the comments say that a group recomputation never costs more than a full one and that the choice
  between the two never fires for such a view. The static cost is indeed never above that of the full
  recomputation; but the prediction for the full one is in milliseconds once three runs are recorded,
  and the refresh compares it with the static cost. Whenever it is smaller, the view is recomputed in
  full, while the pragma and the history still say \<open>group_recompute\<close>.\<close>
theorem fixed_strategy_overridden:
  fixes view :: string
  assumes "\<And>op. 0 \<le> estimate_cardinality Q op" "\<And>t. 0 \<le> GetTableRowCount Q t" "adaptive_refresh S"
    and "table_stats (CollectPlanStatsRecursive E Q activity plan no_stats) \<noteq> []"
  defines "e \<equiv> EstimateRefreshCost E S Q GROUP_RECOMPUTE view plan activity"
  assumes cheaper: "recompute_predicted_ms e < incremental_cost e"
  shows "incremental_cost e \<le> recompute_cost e \<and> estimate_calibrated e \<and>
    RequiresFullRecompute GROUP_RECOMPUTE False False (adaptive_recompute S e) \<and>
    cost_decision e = ''group_recompute'' \<and> recorded_method E e None = ''group_recompute''"
proof -
  let ?p = "CollectPlanStatsRecursive E Q activity plan no_stats"
  let ?base = "sum_over (table_stats ?p) base_card" and ?mv = "nonzero (GetTableRowCount Q (DataTableName view))"
  obtain compute delta_result where scan: "incremental_scan S Q ?p ?mv = (compute, delta_result)" by (cases "incremental_scan S Q ?p ?mv")
  obtain inc_ms inc_cal where inc: "predicted_ms S (history_of Q ''incremental'') compute (upsert_cost ?p ?mv delta_result) = (inc_ms, inc_cal)"
    by (cases "predicted_ms S (history_of Q ''incremental'') compute (upsert_cost ?p ?mv delta_result)")
  obtain rec_ms rec_cal where full: "predicted_ms S (history_of Q ''full'') (?base + ?mv) (?mv * 2) = (rec_ms, rec_cal)"
    by (cases "predicted_ms S (history_of Q ''full'') (?base + ?mv) (?mv * 2)")
  obtain c u where strategy: "strategy_cost GROUP_RECOMPUTE ?p ?mv compute (upsert_cost ?p ?mv delta_result) = (''group_recompute'', c, u)"
    by (simp add: strategy_cost_def Let_def)
  have e: "e = \<lparr>incremental_compute = c, incremental_upsert = u, recompute_compute = ?base + ?mv, recompute_replace = ?mv * 2,
      incremental_cost = c + u, recompute_cost = ?base + ?mv + ?mv * 2, incremental_predicted_ms = c + u,
      recompute_predicted_ms = rec_ms, estimate_calibrated = (inc_cal \<or> rec_cal), strategy_label = ''group_recompute''\<rparr>"
    unfolding e_def EstimateRefreshCost_def Let_def scan inc full strategy prod.case using assms(4) by simp
  have mv: "0 \<le> ?mv" using assms(2) by (simp add: nonzero_def)
  have cards: "\<forall>t \<in> set (table_stats ?p). 0 \<le> base_card t" by (rule collected_cards [OF assms(1)]) (simp add: no_stats_def)
  have bound: "c + u \<le> ?base + ?mv + ?mv * 2" by (rule group_recompute_cost [OF assms(4) cards mv strategy])
  with cheaper full have "rec_cal" unfolding e by (auto simp: predicted_ms_def Let_def split: if_splits)
  with bound cheaper assms(3) show ?thesis
    unfolding e by (simp add: RequiresFullRecompute_def adaptive_recompute_def ShouldRecompute_def cost_decision_def recorded_method_def Let_def)
qed

definition small_queries :: cost_queries where
  "small_queries = \<lparr>estimate_cardinality = \<lambda>op. 1, count_rows = \<lambda>t. Some 1, cursor_of = \<lambda>t. ''2026-01-01'', count_since = \<lambda>t s. Some 1,
     lake_scan = \<lambda>op. None, lake_cursor = \<lambda>t. 0, lake_snapshot = \<lambda>c. 0, count_changes = \<lambda>t. None, fk_constraints = \<lambda>ts. None,
     history_of = \<lambda>m. if m = ''full'' then steady_history else [], double_text = \<lambda>x. []\<rparr>"

definition adaptive_settings :: cost_settings where
  "adaptive_settings = \<lparr>ducklake_nterm = True, fk_pruning = True, adaptive_refresh = True, cost_decay = Some 1\<rparr>"

lemma small_stats: "CollectPlanStatsRecursive ref_env small_queries None (scan_of ''orders'' 1) no_stats =
    no_stats\<lparr>table_stats := [\<lparr>stats_table = ''orders'', stats_delta_table = DeltaName ''orders'', base_card = 1, actual_card = 1, delta_card = 1\<rparr>],
      join_leaf_count := 1, all_ducklake := False\<rparr>"
  by (simp add: scan_of_def node_stats_def scan_stats_def small_queries_def no_info_def no_stats_def GetDeltaRowCount_def
      FindDeltaActivitySource_def known_rows_def or_zero_def GetTableRowCount_def nonzero_def Let_def)

theorem fixed_strategy_overridden_witness:
  "let e = EstimateRefreshCost ref_env adaptive_settings small_queries GROUP_RECOMPUTE ''per_customer'' (scan_of ''orders'' 1) None
   in incremental_cost e = 3 \<and> incremental_cost e \<le> recompute_cost e \<and>
      RequiresFullRecompute GROUP_RECOMPUTE False False (adaptive_recompute adaptive_settings e) \<and> cost_decision e = ''group_recompute''"
proof -
  let ?e = "EstimateRefreshCost ref_env adaptive_settings small_queries GROUP_RECOMPUTE ''per_customer'' (scan_of ''orders'' 1) None"
  have rows: "GetTableRowCount small_queries t = 1" for t by (simp add: small_queries_def GetTableRowCount_def or_zero_def)
  have settings: "used_decay adaptive_settings = 1" "adaptive_refresh adaptive_settings"
    by (simp_all add: used_decay_def adaptive_settings_def)
  have hist: "history_of small_queries ''full'' = steady_history" by (simp add: small_queries_def)
  have ms: "predicted_ms adaptive_settings steady_history 2 2 = (90000 / 60001, True)"
    unfolding predicted_ms_def settings MIN_SAMPLES_def steady_fit by (simp add: settings)
  have e: "incremental_cost ?e = 3" "recompute_predicted_ms ?e = 90000 / 60001"
    unfolding EstimateRefreshCost_def small_stats rows hist Let_def
    by (simp_all add: no_stats_def nonzero_def sum_over_def strategy_cost_def ms split: prod.split)
  have stats: "table_stats (CollectPlanStatsRecursive ref_env small_queries None (scan_of ''orders'' 1) no_stats) \<noteq> []"
    unfolding small_stats by simp
  have "0 \<le> estimate_cardinality small_queries op" for op by (simp add: small_queries_def)
  from fixed_strategy_overridden [OF this _ settings(2) stats, of "''per_customer''"] show ?thesis
    unfolding Let_def using e rows by simp
qed

end
