(* ===== verification/Rewrite_Plan.thy ===== *)
theory Rewrite_Plan
  imports Plan Complex_Main "HOL-Library.Word"
begin

unbundle bit_operations_syntax

text \<open>
  The plans that the rewrites of \<open>src/core/plan_rewrite.cpp\<close> and
  \<open>src/core/plan_rewrite_aggregates.cpp\<close> take apart and put together. The theory \<open>Plan\<close> holds
  the shapes that the analyses read; a rewrite also builds expressions, so here an expression
  carries its alias, its return type and, where the code looks at them, its constants,
  comparisons and \<open>CASE\<close> branches. \<open>GetColumnBindings\<close> and the types resolved by DuckDB are the
  function \<open>columns_of\<close>; binding a function by name and printing an expression are DuckDB's and
  stay parameters (\<open>bind_env\<close>).
\<close>

section \<open>Values and expressions\<close>

datatype LogicalType = TypeBigint | TypeBoolean | TypeOther string

datatype scalar = SNull | SNum real | SBool bool | SStr string

datatype comparison =
    COMPARE_EQUAL | COMPARE_NOTEQUAL | COMPARE_LESSTHAN | COMPARE_GREATERTHAN
  | COMPARE_LESSTHANOREQUALTO | COMPARE_GREATERTHANOREQUALTO
  | COMPARE_DISTINCT_FROM | COMPARE_NOT_DISTINCT_FROM

datatype operator_type =
    OPERATOR_NOT | OPERATOR_IS_NULL | OPERATOR_IS_NOT_NULL | OPERATOR_OTHER string

text \<open>The constructors take the alias first and the return type second. A \<open>BoundAggregateExpression\<close>
  has its function's name, \<open>IsDistinct\<close>, its arguments and its \<open>FILTER\<close>; a
  \<open>BoundFunctionExpression\<close> its name and whether it is volatile.\<close>

datatype rexpr =
    ColumnRefExpr string LogicalType ColumnBinding
  | ConstantExpr string LogicalType scalar
  | CaseExpr string LogicalType "(rexpr \<times> rexpr) list" rexpr
  | ComparisonExpr string comparison rexpr rexpr
  | FunctionExpr string LogicalType string bool "rexpr list"
  | AggregateExpr string LogicalType string bool "rexpr list" "rexpr option"
  | OperatorExpr string LogicalType operator_type "rexpr list"
  | CastExpr string LogicalType rexpr
  | ConjunctionExpr string bool "rexpr list"
  | ClassExpr string LogicalType string "rexpr list"

fun expr_alias_of :: "rexpr \<Rightarrow> string" where
  "expr_alias_of (ColumnRefExpr a t b) = a"
| "expr_alias_of (ConstantExpr a t v) = a"
| "expr_alias_of (CaseExpr a t cs e) = a"
| "expr_alias_of (ComparisonExpr a c l r) = a"
| "expr_alias_of (FunctionExpr a t f v es) = a"
| "expr_alias_of (AggregateExpr a t f d es fi) = a"
| "expr_alias_of (OperatorExpr a t c es) = a"
| "expr_alias_of (CastExpr a t e) = a"
| "expr_alias_of (ConjunctionExpr a c es) = a"
| "expr_alias_of (ClassExpr a t c es) = a"

fun return_type :: "rexpr \<Rightarrow> LogicalType" where
  "return_type (ColumnRefExpr a t b) = t"
| "return_type (ConstantExpr a t v) = t"
| "return_type (CaseExpr a t cs e) = t"
| "return_type (ComparisonExpr a c l r) = TypeBoolean"
| "return_type (FunctionExpr a t f v es) = t"
| "return_type (AggregateExpr a t f d es fi) = t"
| "return_type (OperatorExpr a t c es) = t"
| "return_type (CastExpr a t e) = t"
| "return_type (ConjunctionExpr a c es) = TypeBoolean"
| "return_type (ClassExpr a t c es) = t"

fun set_alias :: "string \<Rightarrow> rexpr \<Rightarrow> rexpr" where
  "set_alias x (ColumnRefExpr a t b) = ColumnRefExpr x t b"
| "set_alias x (ConstantExpr a t v) = ConstantExpr x t v"
| "set_alias x (CaseExpr a t cs e) = CaseExpr x t cs e"
| "set_alias x (ComparisonExpr a c l r) = ComparisonExpr x c l r"
| "set_alias x (FunctionExpr a t f v es) = FunctionExpr x t f v es"
| "set_alias x (AggregateExpr a t f d es fi) = AggregateExpr x t f d es fi"
| "set_alias x (OperatorExpr a t c es) = OperatorExpr x t c es"
| "set_alias x (CastExpr a t e) = CastExpr x t e"
| "set_alias x (ConjunctionExpr a c es) = ConjunctionExpr x c es"
| "set_alias x (ClassExpr a t c es) = ClassExpr x t c es"

lemma return_type_set_alias [simp]: "return_type (set_alias x e) = return_type e"
  by (cases e) simp_all

lemma expr_alias_of_set_alias [simp]: "expr_alias_of (set_alias x e) = x"
  by (cases e) simp_all

text \<open>Rewriting every child in place, as \<open>ExpressionIterator::EnumerateChildren\<close> lets its callback do.\<close>

fun map_children :: "(rexpr \<Rightarrow> rexpr) \<Rightarrow> rexpr \<Rightarrow> rexpr" where
  "map_children f (ColumnRefExpr a t b) = ColumnRefExpr a t b"
| "map_children f (ConstantExpr a t v) = ConstantExpr a t v"
| "map_children f (CaseExpr a t cs e) = CaseExpr a t (map (\<lambda>c. (f (fst c), f (snd c))) cs) (f e)"
| "map_children f (ComparisonExpr a c l r) = ComparisonExpr a c (f l) (f r)"
| "map_children f (FunctionExpr a t g v es) = FunctionExpr a t g v (map f es)"
| "map_children f (AggregateExpr a t g d es fi) = AggregateExpr a t g d (map f es) (map_option f fi)"
| "map_children f (OperatorExpr a t c es) = OperatorExpr a t c (map f es)"
| "map_children f (CastExpr a t e) = CastExpr a t (f e)"
| "map_children f (ConjunctionExpr a c es) = ConjunctionExpr a c (map f es)"
| "map_children f (ClassExpr a t c es) = ClassExpr a t c (map f es)"

fun child_exprs :: "rexpr \<Rightarrow> rexpr list" where
  "child_exprs (ColumnRefExpr a t b) = []"
| "child_exprs (ConstantExpr a t v) = []"
| "child_exprs (CaseExpr a t cs e) = concat (map (\<lambda>c. [fst c, snd c]) cs) @ [e]"
| "child_exprs (ComparisonExpr a c l r) = [l, r]"
| "child_exprs (FunctionExpr a t g v es) = es"
| "child_exprs (AggregateExpr a t g d es fi) = es @ opt_list fi"
| "child_exprs (OperatorExpr a t c es) = es"
| "child_exprs (CastExpr a t e) = [e]"
| "child_exprs (ConjunctionExpr a c es) = es"
| "child_exprs (ClassExpr a t c es) = es"

lemma size_pair_in_list:
  "c \<in> set cs \<Longrightarrow> size (fst c) < Suc (size_list (size_prod size size) cs)"
  "c \<in> set cs \<Longrightarrow> size (snd c) < Suc (size_list (size_prod size size) cs)"
  by (induction cs) (auto simp: prod.size_gen split: prod.splits)

lemma child_exprs_size: "e \<in> set (child_exprs x) \<Longrightarrow> size e < size x"
proof (cases x)
  case (CaseExpr a t cs d)
  assume "e \<in> set (child_exprs x)"
  then consider "e = d" | c where "c \<in> set cs" "e = fst c \<or> e = snd c"
    by (auto simp: CaseExpr)
  then show ?thesis
    using size_pair_in_list [of _ cs] by cases (fastforce simp: CaseExpr)+
qed (auto simp: opt_list_def split: option.splits dest!: size_in_list)

text \<open>Every column reference of an expression.\<close>

fun own_bindings :: "rexpr \<Rightarrow> ColumnBinding list" where
  "own_bindings (ColumnRefExpr a t b) = [b]"
| "own_bindings e = []"

function bindings_of :: "rexpr \<Rightarrow> ColumnBinding list" where
  "bindings_of e = own_bindings e @ concat (map bindings_of (child_exprs e))"
  by pat_completeness auto
termination by (relation "measure size") (auto dest: child_exprs_size)

declare bindings_of.simps [simp del]

lemma bindings_of_column [simp]: "bindings_of (ColumnRefExpr a t b) = [b]"
  by (simp add: bindings_of.simps)

lemma bindings_of_child: "c \<in> set (child_exprs e) \<Longrightarrow> set (bindings_of c) \<subseteq> set (bindings_of e)"
  by (subst (2) bindings_of.simps) auto

section \<open>Operators and their columns\<close>

text \<open>A record of the fields the rewrites read and write. \<open>opaque_columns\<close> are the output columns
  of an operator the rewrites do not look into.\<close>

record rinfo =
  op_index :: idx_t
  group_table :: idx_t
  aggregate_index :: idx_t
  group_exprs :: "rexpr list"
  grouping_set_count :: nat
  projection_map :: "nat list"
  rjoin_type :: "JoinType option"
  rconditions :: "(comparison \<times> rexpr \<times> rexpr) list"
  join_predicate :: "rexpr option"
  mark_index :: idx_t
  convert_mark_to_semi :: bool
  cte_index :: idx_t
  bound_columns :: "string list"
  opaque_columns :: "(ColumnBinding \<times> LogicalType) list"

datatype rplan = RPlan (rop: LogicalOperatorType) (rinfo: rinfo) (rexprs: "rexpr list") (rkids: "rplan list")

definition no_rinfo :: rinfo where
  "no_rinfo = \<lparr>op_index = 0, group_table = 0, aggregate_index = 0, group_exprs = [],
     grouping_set_count = 0, projection_map = [], rjoin_type = None, rconditions = [],
     join_predicate = None, mark_index = 0, convert_mark_to_semi = False, cte_index = 0,
     bound_columns = [], opaque_columns = []\<rparr>"

definition projection_of :: "idx_t \<Rightarrow> rexpr list \<Rightarrow> rplan \<Rightarrow> rplan" where
  "projection_of index es child =
     RPlan LOGICAL_PROJECTION (no_rinfo\<lparr>op_index := index\<rparr>) es [child]"

definition filter_of :: "rexpr list \<Rightarrow> rplan \<Rightarrow> rplan" where
  "filter_of es child = RPlan LOGICAL_FILTER no_rinfo es [child]"

definition aggregate_of :: "idx_t \<Rightarrow> idx_t \<Rightarrow> rexpr list \<Rightarrow> rexpr list \<Rightarrow> rplan \<Rightarrow> rplan" where
  "aggregate_of group_ix agg_ix gs es child =
     RPlan LOGICAL_AGGREGATE_AND_GROUP_BY (no_rinfo\<lparr>group_table := group_ix, aggregate_index := agg_ix,
       group_exprs := gs, grouping_set_count := 1\<rparr>) es [child]"

definition get_of :: "(ColumnBinding \<times> LogicalType) list \<Rightarrow> rplan" where
  "get_of cols = RPlan LOGICAL_GET (no_rinfo\<lparr>opaque_columns := cols\<rparr>) [] []"

definition indexed :: "idx_t \<Rightarrow> rexpr list \<Rightarrow> (ColumnBinding \<times> LogicalType) list" where
  "indexed index es = map (\<lambda>i. ((index, i), return_type (es ! i))) [0..<length es]"

text \<open>The columns of a join, by its type: a semi join returns the preserved side, a mark join adds the mark.\<close>

definition join_columns :: "rinfo \<Rightarrow> (ColumnBinding \<times> LogicalType) list \<Rightarrow>
    (ColumnBinding \<times> LogicalType) list \<Rightarrow> (ColumnBinding \<times> LogicalType) list" where
  "join_columns i l r =
     (case rjoin_type i of
        Some JOIN_SEMI \<Rightarrow> l | Some JOIN_ANTI \<Rightarrow> l
      | Some JOIN_RIGHT_SEMI \<Rightarrow> r | Some JOIN_RIGHT_ANTI \<Rightarrow> r
      | Some JOIN_MARK \<Rightarrow> l @ [((mark_index i, 0), TypeBoolean)]
      | _ \<Rightarrow> l @ r)"

definition project_columns :: "nat list \<Rightarrow> 'a list \<Rightarrow> 'a list" where
  "project_columns pm cols = (if pm = [] then cols else map (\<lambda>i. cols ! i) pm)"

text \<open>\<open>GetColumnBindings\<close> with the types that \<open>ResolveOperatorTypes\<close> computes: what an operator
  gives, from what its children give.\<close>

definition own_columns :: "LogicalOperatorType \<Rightarrow> rinfo \<Rightarrow> rexpr list \<Rightarrow>
    (ColumnBinding \<times> LogicalType) list list \<Rightarrow> (ColumnBinding \<times> LogicalType) list" where
  "own_columns t i es cs =
     (if t = LOGICAL_PROJECTION then indexed (op_index i) es
      else if t = LOGICAL_AGGREGATE_AND_GROUP_BY
        then indexed (group_table i) (group_exprs i) @ indexed (aggregate_index i) es
      else if t = LOGICAL_FILTER \<and> length cs = 1 then project_columns (projection_map i) (hd cs)
      else if t \<in> {LOGICAL_COMPARISON_JOIN, LOGICAL_DELIM_JOIN} \<and> length cs = 2
        then join_columns i (cs ! 0) (cs ! 1)
      else if t = LOGICAL_CROSS_PRODUCT then concat cs
      else if t \<in> {LOGICAL_DISTINCT, LOGICAL_ORDER_BY, LOGICAL_LIMIT} \<and> length cs = 1 then hd cs
      else if t = LOGICAL_MATERIALIZED_CTE \<and> length cs = 2 then cs ! 1
      else opaque_columns i)"

fun columns_of :: "rplan \<Rightarrow> (ColumnBinding \<times> LogicalType) list" where
  "columns_of (RPlan t i es cs) = own_columns t i es (map columns_of cs)"

definition GetColumnBindings :: "rplan \<Rightarrow> ColumnBinding list" where
  "GetColumnBindings p = map fst (columns_of p)"

definition types_of :: "rplan \<Rightarrow> LogicalType list" where
  "types_of p = map snd (columns_of p)"

lemma rplan_induct [case_names RPlan]:
  assumes "\<And>t i es cs. (\<And>c. c \<in> set cs \<Longrightarrow> P c) \<Longrightarrow> P (RPlan t i es cs)"
  shows "P p"
  using assms by (rule rplan.induct)

lemma length_indexed [simp]: "length (indexed x es) = length es"
  by (simp add: indexed_def)

lemma indexed_append:
  "indexed x (es @ fs) = indexed x es @ map (\<lambda>i. ((x, length es + i), return_type (fs ! i))) [0..<length fs]"
  by (rule nth_equalityI) (auto simp: indexed_def nth_append)

section \<open>What DuckDB decides\<close>

text \<open>\<open>bind_aggregate\<close> finds the overload of an aggregate for argument types and answers its return
  type (\<open>None\<close>: no overload fits, the \<open>InternalException\<close>); \<open>scalar_type\<close> the type of a bound scalar
  function; \<open>expr_text\<close> is \<open>Expression::ToString\<close> and \<open>value_text\<close> is \<open>Value::ToString\<close>.\<close>

record bind_env =
  bind_aggregate :: "string \<Rightarrow> LogicalType list \<Rightarrow> LogicalType option"
  scalar_type :: "string \<Rightarrow> LogicalType list \<Rightarrow> LogicalType"
  expr_text :: "rexpr \<Rightarrow> string"
  value_text :: "scalar \<Rightarrow> string"

datatype rewrite_error = BindFailed string

definition BindAggregateByName :: "bind_env \<Rightarrow> string \<Rightarrow> LogicalType list \<Rightarrow> rewrite_error + LogicalType" where
  "BindAggregateByName B f ts = (case bind_aggregate B f ts of Some t \<Rightarrow> Inr t | None \<Rightarrow> Inl (BindFailed f))"

definition BindScalarFunction :: "bind_env \<Rightarrow> string \<Rightarrow> rexpr list \<Rightarrow> rexpr" where
  "BindScalarFunction B f es = FunctionExpr [] (scalar_type B f (map return_type es)) f False es"

text \<open>\<open>BaseExpression::GetName\<close>.\<close>

definition expr_name :: "bind_env \<Rightarrow> rexpr \<Rightarrow> string" where
  "expr_name B e = (if expr_alias_of e = [] then expr_text B e else expr_alias_of e)"

section \<open>Errors\<close>

definition and_then :: "'e + 'a \<Rightarrow> ('a \<Rightarrow> 'e + 'b) \<Rightarrow> 'e + 'b" where
  "and_then x f = (case x of Inl e \<Rightarrow> Inl e | Inr y \<Rightarrow> f y)"

lemma and_then_simps [simp]: "and_then (Inl e) f = Inl e" "and_then (Inr y) f = f y"
  by (simp_all add: and_then_def)

lemma and_then_Inr: "and_then x f = Inr z \<longleftrightarrow> (\<exists>y. x = Inr y \<and> f y = Inr z)"
  by (cases x) simp_all

lemma and_then_cong [fundef_cong]:
  "x = x' \<Longrightarrow> (\<And>y. x' = Inr y \<Longrightarrow> f y = f' y) \<Longrightarrow> and_then x f = and_then x' f'"
  by (cases x') simp_all

fun traverse :: "('a \<Rightarrow> 'e + 'b) \<Rightarrow> 'a list \<Rightarrow> 'e + 'b list" where
  "traverse f [] = Inr []"
| "traverse f (x # xs) = and_then (f x) (\<lambda>y. and_then (traverse f xs) (\<lambda>ys. Inr (y # ys)))"

lemma traverse_cong [fundef_cong]:
  "xs = ys \<Longrightarrow> (\<And>x. x \<in> set ys \<Longrightarrow> f x = g x) \<Longrightarrow> traverse f xs = traverse g ys"
proof (induction ys arbitrary: xs)
  case (Cons y ys)
  have "f y = g y" and "traverse f ys = traverse g ys" using Cons by simp_all
  then show ?case using Cons.prems(1) by simp
qed simp

lemma traverse_Inr: "traverse f xs = Inr ys \<longleftrightarrow> list_all2 (\<lambda>x y. f x = Inr y) xs ys"
proof (induction xs arbitrary: ys)
  case (Cons x xs)
  show ?case by (cases ys) (auto simp: and_then_Inr Cons.IH)
qed auto

section \<open>Keys of bindings\<close>

text \<open>The maps of the rewrites are keyed by a hash of a binding in 64 bits. For one table index
  the hash is injective, because the multiplier is odd.\<close>

definition binding_key :: "ColumnBinding \<Rightarrow> 64 word" where
  "binding_key b = word_of_nat (fst b) XOR (word_of_nat (snd b) * 0x9e3779b97f4a7c15)"

lemma hash_multiplier_inverse: "(0x9e3779b97f4a7c15 :: 64 word) * 17428512612931826493 = 1"
  by simp

lemma binding_key_inj:
  assumes "binding_key (t, i) = binding_key (t, j)" and "i < 2 ^ 64" and "j < 2 ^ 64"
  shows "i = j"
proof -
  have cancel: "x = y" if "z XOR x = z XOR y" for x y z :: "64 word"
  proof -
    have "z XOR (z XOR x) = z XOR (z XOR y)" using that by simp
    then show ?thesis by (simp flip: xor.assoc)
  qed
  have "(word_of_nat i :: 64 word) * 0x9e3779b97f4a7c15 = word_of_nat j * 0x9e3779b97f4a7c15"
    by (rule cancel) (use assms(1) in \<open>simp add: binding_key_def\<close>)
  then have "(word_of_nat i :: 64 word) * (0x9e3779b97f4a7c15 * 17428512612931826493) =
      word_of_nat j * (0x9e3779b97f4a7c15 * 17428512612931826493)"
    by (simp only: mult.assoc [symmetric])
  then have "(word_of_nat i :: 64 word) = word_of_nat j"
    unfolding hash_multiplier_inverse by simp
  then have "unat (word_of_nat i :: 64 word) = unat (word_of_nat j :: 64 word)" by simp
  then show ?thesis using assms(2,3) by (simp add: unat_of_nat take_bit_nat_eq_self)
qed

end
