(* ===== verification/Rewrite_Aggregates.thy ===== *)
theory Rewrite_Aggregates
  imports Rewrite_Plan Merge_Program
begin

text \<open>
  \<open>src/core/plan_rewrite_aggregates.cpp\<close>: an aggregate with a \<open>FILTER\<close> becomes an aggregate of a
  \<open>CASE\<close>, and the averages, variances and standard deviations become sums and counts that a
  refresh can maintain, with the projection above computing the old value from them and handing
  the hidden columns on. A pointer into the plan is the path to it; \<open>update_at\<close> writes through one.
\<close>

section \<open>Pointers into a plan\<close>

fun subplan :: "rplan \<Rightarrow> nat list \<Rightarrow> rplan" where
  "subplan p [] = p"
| "subplan (RPlan t i es cs) (k # ks) = subplan (cs ! k) ks"

fun update_at :: "nat list \<Rightarrow> (rplan \<Rightarrow> rplan) \<Rightarrow> rplan \<Rightarrow> rplan" where
  "update_at [] f p = f p"
| "update_at (k # ks) f (RPlan t i es cs) = RPlan t i es (cs[k := update_at ks f (cs ! k)])"

definition with_exprs :: "(rexpr list \<Rightarrow> rexpr list) \<Rightarrow> rplan \<Rightarrow> rplan" where
  "with_exprs f p = RPlan (rop p) (rinfo p) (f (rexprs p)) (rkids p)"

section \<open>The names of the aggregates\<close>

definition IsStddevOrVariance :: "string \<Rightarrow> bool" where
  "IsStddevOrVariance name \<longleftrightarrow> name \<in> {''stddev'', ''stddev_samp'', ''stddev_pop'', ''variance'',
     ''var_samp'', ''var_pop''}"

definition IsPopulationVariant :: "string \<Rightarrow> bool" where
  "IsPopulationVariant name \<longleftrightarrow> name \<in> {''stddev_pop'', ''var_pop''}"

definition IsStddevVariant :: "string \<Rightarrow> bool" where
  "IsStddevVariant name \<longleftrightarrow> name \<in> {''stddev'', ''stddev_samp'', ''stddev_pop''}"

definition SumSqPrefix :: "string \<Rightarrow> string" where
  "SumSqPrefix func_name =
     (if func_name = ''stddev_pop'' then SUM_SQP_COL_PREFIX
      else if func_name = ''var_pop'' then VAR_SQP_COL_PREFIX
      else if func_name \<in> {''variance'', ''var_samp''} then VAR_SQ_COL_PREFIX
      else SUM_SQ_COL_PREFIX)"

section \<open>Filters of aggregates\<close>

text \<open>The two branches of the rewriting loop: an aggregate without arguments becomes a count of a
  \<open>CASE\<close>, another one gets the \<open>CASE\<close> as its first argument; a filtered \<open>list\<close> is kept.\<close>

definition count_of_case :: "bind_env \<Rightarrow> string \<Rightarrow> rexpr \<Rightarrow> rewrite_error + rexpr" where
  "count_of_case B saved_alias filter_expr =
     and_then (BindAggregateByName B ''count'' [TypeBigint]) (\<lambda>t. Inr
       (AggregateExpr saved_alias t ''count'' False
          [CaseExpr [] TypeBigint [(filter_expr, ConstantExpr [] TypeBigint (SNum 1))]
             (ConstantExpr [] TypeBigint SNull)] None))"

definition filter_as_case :: "bind_env \<Rightarrow> rexpr \<Rightarrow> rewrite_error + rexpr" where
  "filter_as_case B e =
     (case e of
        AggregateExpr a t f d args (Some p) \<Rightarrow>
          if f = ''list'' then Inr e
          else (case args of
                  [] \<Rightarrow> count_of_case B a p
                | x # xs \<Rightarrow> Inr (AggregateExpr a t f d
                    (CaseExpr [] (return_type x) [(p, x)] (ConstantExpr [] (return_type x) SNull) # xs) None))
      | _ \<Rightarrow> Inr e)"

fun RewriteAggregateFilters :: "bind_env \<Rightarrow> rplan \<Rightarrow> rewrite_error + rplan" where
  "RewriteAggregateFilters B (RPlan t i es cs) =
     and_then (traverse (RewriteAggregateFilters B) cs) (\<lambda>cs'.
       if t \<noteq> LOGICAL_AGGREGATE_AND_GROUP_BY then Inr (RPlan t i es cs')
       else and_then (traverse (filter_as_case B) es) (\<lambda>es'. Inr (RPlan t i es' cs')))"

section \<open>Finding the aggregate below a projection\<close>

definition FindProjectionAggregateInput :: "rplan \<Rightarrow> bool \<Rightarrow> nat list option" where
  "FindProjectionAggregateInput plan allow_having_filter =
     (if rop plan \<noteq> LOGICAL_PROJECTION \<or> rkids plan = [] then None
      else let input = hd (rkids plan) in
        if rop input = LOGICAL_AGGREGATE_AND_GROUP_BY then Some [0]
        else if allow_having_filter \<and> rop input = LOGICAL_FILTER \<and> rkids input \<noteq> [] \<and>
                rop (hd (rkids input)) = LOGICAL_AGGREGATE_AND_GROUP_BY then Some [0, 0]
        else None)"

section \<open>Decomposing the derived aggregates\<close>

record Decomp =
  is_avg_decomp :: bool
  decomp_alias :: string
  user_alias :: string
  func_name :: string
  sum_idx :: nat
  sum_sq_idx :: nat
  count_idx :: nat
  old_idx :: nat

record derived_state =
  new_exprs :: "rexpr list"
  decomps :: "Decomp list"
  nondecomposed_remap :: "(nat \<times> nat) list"

text \<open>The sanitizing loop, which the code has twice: letters, digits and underscores stay, any other
  run of characters becomes one underscore, and one underscore at the end is dropped.\<close>

definition clean_step :: "char \<Rightarrow> string \<times> bool \<Rightarrow> string \<times> bool" where
  "clean_step c s =
     (if is_alnum c \<or> c = CHR ''_'' then (fst s @ [c], c = CHR ''_'')
      else if \<not> snd s \<and> fst s \<noteq> [] then (fst s @ ''_'', True)
      else s)"

definition clean_name :: "string \<Rightarrow> string" where
  "clean_name raw =
     (let clean = fst (fold clean_step raw ([], False))
      in if clean \<noteq> [] \<and> last clean = CHR ''_'' then butlast clean else clean)"

definition keep_expr :: "nat \<Rightarrow> rexpr \<Rightarrow> derived_state \<Rightarrow> derived_state" where
  "keep_expr i e s = s\<lparr>new_exprs := new_exprs s @ [e],
     nondecomposed_remap := nondecomposed_remap s @ [(i, length (new_exprs s))]\<rparr>"

definition push_expr :: "rexpr \<Rightarrow> derived_state \<Rightarrow> derived_state" where
  "push_expr e s = s\<lparr>new_exprs := new_exprs s @ [e]\<rparr>"

definition agg_alias :: "bind_env \<Rightarrow> string \<Rightarrow> string \<Rightarrow> rexpr \<Rightarrow> string" where
  "agg_alias B a f x =
     (let raw = (if a = [] then f @ ''_'' @ expr_name B x else a); clean = clean_name raw
      in if clean \<noteq> [] then clean else raw)"

text \<open>The decomposition of one aggregate \<open>f(x)\<close>: a sum, for the variances a sum of squares, and a count.\<close>

definition decompose_derived :: "bind_env \<Rightarrow> nat \<Rightarrow> string \<Rightarrow> string \<Rightarrow> rexpr \<Rightarrow> derived_state \<Rightarrow>
    rewrite_error + derived_state" where
  "decompose_derived B i a f x s =
     (let name = agg_alias B a f x;
          sq_arg = BindScalarFunction B ''*'' [x, x]
      in and_then (BindAggregateByName B ''sum'' [return_type x]) (\<lambda>sum_type.
         let sum_at = length (new_exprs s);
             s = push_expr (AggregateExpr (SUM_COL_PREFIX @ name) sum_type ''sum'' False [x] None) s
         in and_then
              (if IsStddevOrVariance f
               then and_then (BindAggregateByName B ''sum'' [return_type sq_arg]) (\<lambda>t.
                 Inr (push_expr (AggregateExpr (SumSqPrefix f @ name) t ''sum'' False [sq_arg] None) s))
               else Inr s) (\<lambda>s.
         and_then (BindAggregateByName B ''count'' [return_type x]) (\<lambda>count_type.
         let count_at = length (new_exprs s);
             s = push_expr (AggregateExpr (COUNT_COL_PREFIX @ name) count_type ''count'' False [x] None) s;
             d = \<lparr>is_avg_decomp = (f = ''avg''), decomp_alias = name, user_alias = [], func_name = f,
                  sum_idx = sum_at, sum_sq_idx = Suc sum_at, count_idx = count_at, old_idx = i\<rparr>
         in Inr (s\<lparr>decomps := decomps s @ [d]\<rparr>)))))"

definition decompose_expr :: "bind_env \<Rightarrow> nat \<Rightarrow> rexpr \<Rightarrow> derived_state \<Rightarrow> rewrite_error + derived_state" where
  "decompose_expr B i e s =
     (case e of
        AggregateExpr a t f d (x # xs) fi \<Rightarrow>
          if f = ''avg'' \<or> IsStddevOrVariance f then decompose_derived B i a f x s
          else Inr (keep_expr i e s)
      | _ \<Rightarrow> Inr (keep_expr i e s))"

fun decompose_from :: "bind_env \<Rightarrow> nat \<Rightarrow> rexpr list \<Rightarrow> derived_state \<Rightarrow> rewrite_error + derived_state" where
  "decompose_from B i [] s = Inr s"
| "decompose_from B i (e # es) s = and_then (decompose_expr B i e s) (decompose_from B (Suc i) es)"

definition is_derived :: "rexpr \<Rightarrow> bool" where
  "is_derived e = (case e of AggregateExpr a t f d args fi \<Rightarrow> f = ''avg'' \<or> IsStddevOrVariance f | _ \<Rightarrow> False)"

section \<open>The formulas over the parts\<close>

text \<open>A reference to an aggregate column by its index, with the types that the aggregate resolved.\<close>

definition part_ref :: "(ColumnBinding \<times> LogicalType) list \<Rightarrow> nat \<Rightarrow> string \<Rightarrow> nat \<Rightarrow> rexpr" where
  "part_ref agg_cols group_count a k =
     ColumnRefExpr a (snd (agg_cols ! (group_count + k))) (fst (agg_cols ! (group_count + k)))"

definition build_replacement :: "bind_env \<Rightarrow> (ColumnBinding \<times> LogicalType) list \<Rightarrow> nat \<Rightarrow> Decomp \<Rightarrow> rexpr" where
  "build_replacement B agg_cols group_count d =
     (let ref = part_ref agg_cols group_count []; fn = BindScalarFunction B
      in if is_avg_decomp d then fn ''/'' [ref (sum_idx d), ref (count_idx d)]
         else let s = ref (sum_idx d); n = ref (count_idx d);
                  numerator = fn ''-'' [ref (sum_sq_idx d), fn ''/'' [fn ''*'' [s, s], n]];
                  denom = (if IsPopulationVariant (func_name d) then n
                           else fn ''-'' [n, ConstantExpr [] TypeBigint (SNum 1)]);
                  var_expr = fn ''/'' [numerator, denom];
                  formula = (if IsStddevVariant (func_name d) then fn ''sqrt'' [var_expr] else var_expr);
                  threshold = (if IsPopulationVariant (func_name d) then 0 else 1)
              in CaseExpr [] (return_type formula)
                   [(ComparisonExpr [] COMPARE_GREATERTHAN n (ConstantExpr [] TypeBigint (SNum threshold)), formula)]
                   (ConstantExpr [] (return_type formula) SNull))"

section \<open>The projection above\<close>

text \<open>The user's name for a decomposed aggregate: the alias of the first plain reference to it.\<close>

definition refers_to :: "ColumnBinding \<Rightarrow> rexpr \<Rightarrow> bool" where
  "refers_to b e = (case e of ColumnRefExpr a t b' \<Rightarrow> b' = b | _ \<Rightarrow> False)"

definition set_user_alias :: "idx_t \<Rightarrow> rexpr list \<Rightarrow> Decomp \<Rightarrow> Decomp" where
  "set_user_alias agg_ix es d =
     (case find (refers_to (agg_ix, old_idx d)) es of
        None \<Rightarrow> d\<lparr>user_alias := decomp_alias d\<rparr>
      | Some e \<Rightarrow> d\<lparr>user_alias := (if expr_alias_of e = [] then decomp_alias d else expr_alias_of e)\<rparr>)"

lemma map_children_cong [fundef_cong]:
  "e = e' \<Longrightarrow> (\<And>x. x \<in> set (child_exprs e') \<Longrightarrow> f x = g x) \<Longrightarrow> map_children f e = map_children g e'"
proof (cases e')
  case (AggregateExpr a t h d es fi)
  assume "e = e'" and "\<And>x. x \<in> set (child_exprs e') \<Longrightarrow> f x = g x"
  then show ?thesis by (cases fi) (auto simp: AggregateExpr opt_list_def)
qed (auto simp: opt_list_def split: option.splits)

text \<open>The walk over an expression: a replacement is not entered, everything else is.\<close>

function replace_exprs :: "(rexpr \<Rightarrow> rexpr option) \<Rightarrow> rexpr \<Rightarrow> rexpr" where
  "replace_exprs f e = (case f e of Some e' \<Rightarrow> e' | None \<Rightarrow> map_children (replace_exprs f) e)"
  by pat_completeness auto
termination by (relation "measure (size \<circ> snd)") (auto dest: child_exprs_size)

declare replace_exprs.simps [simp del]

definition decomp_lookup :: "idx_t \<Rightarrow> Decomp list \<Rightarrow> ColumnBinding \<Rightarrow> Decomp option" where
  "decomp_lookup agg_ix ds b = map_of (rev (map (\<lambda>d. (binding_key (agg_ix, old_idx d), d)) ds)) (binding_key b)"

definition walk_ref :: "idx_t \<Rightarrow> (Decomp \<Rightarrow> rexpr) \<Rightarrow> derived_state \<Rightarrow> rexpr \<Rightarrow> rexpr option" where
  "walk_ref agg_ix replacement s e =
     (case e of
        ColumnRefExpr a t b \<Rightarrow>
          if fst b \<noteq> agg_ix then None
          else (case decomp_lookup agg_ix (decomps s) b of
                  Some d \<Rightarrow> Some (set_alias a (replacement d))
                | None \<Rightarrow>
                    (case map_of (nondecomposed_remap s) (snd b) of
                       Some n \<Rightarrow> if n \<noteq> snd b then Some (ColumnRefExpr a t (fst b, n)) else None
                     | None \<Rightarrow> None))
      | _ \<Rightarrow> None)"

definition hidden_suffix :: "Decomp \<Rightarrow> string" where
  "hidden_suffix d =
     (let raw = (if user_alias d = [] then decomp_alias d else user_alias d); clean = clean_name raw
      in if clean = [] then decomp_alias d else clean)"

definition hidden_refs :: "(ColumnBinding \<times> LogicalType) list \<Rightarrow> nat \<Rightarrow> Decomp \<Rightarrow> rexpr list" where
  "hidden_refs agg_cols group_count d =
     (let ref = part_ref agg_cols group_count; x = hidden_suffix d
      in [ref (SUM_COL_PREFIX @ x) (sum_idx d)] @
         (if is_avg_decomp d then [] else [ref (SumSqPrefix (func_name d) @ x) (sum_sq_idx d)]) @
         [ref (COUNT_COL_PREFIX @ x) (count_idx d)])"

text \<open>The projection's expressions, rewritten and extended, from the aggregate's new expressions.\<close>

definition rewrite_projection :: "bind_env \<Rightarrow> rinfo \<Rightarrow> derived_state \<Rightarrow> rexpr list \<Rightarrow> rexpr list" where
  "rewrite_projection B agg s es =
     (let agg_cols = indexed (group_table agg) (group_exprs agg) @ indexed (aggregate_index agg) (new_exprs s);
          group_count = length (group_exprs agg);
          ds = map (set_user_alias (aggregate_index agg) es) (decomps s);
          s = s\<lparr>decomps := ds\<rparr>
      in map (replace_exprs (walk_ref (aggregate_index agg) (build_replacement B agg_cols group_count) s)) es @
         concat (map (hidden_refs agg_cols group_count) ds))"

definition derive_at :: "bind_env \<Rightarrow> nat list \<Rightarrow> rplan \<Rightarrow> rewrite_error + rplan" where
  "derive_at B path plan =
     (let agg = subplan plan path
      in if \<not> list_ex is_derived (rexprs agg) then Inr plan
         else and_then (decompose_from B 0 (rexprs agg) \<lparr>new_exprs = [], decomps = [], nondecomposed_remap = []\<rparr>) (\<lambda>s.
           Inr (with_exprs (rewrite_projection B (rinfo agg) s)
                  (update_at path (with_exprs (\<lambda>_. new_exprs s)) plan))))"

fun RewriteDerivedAggregates :: "bind_env \<Rightarrow> bool \<Rightarrow> rplan \<Rightarrow> rewrite_error + rplan" where
  "RewriteDerivedAggregates B is_top (RPlan t i es cs) =
     and_then (traverse (RewriteDerivedAggregates B False) cs) (\<lambda>cs'.
       let plan = RPlan t i es cs'
       in case FindProjectionAggregateInput plan is_top of
            None \<Rightarrow> Inr plan
          | Some path \<Rightarrow> derive_at B path plan)"

end
