(* ===== verification/Rewrite_Semantics.thy ===== *)
theory Rewrite_Semantics
  imports Rewrite_Plan
begin

text \<open>
  What the plans of the rewrites compute. A row gives every column binding a value; an operator
  maps the rows of its children to its own rows. The functions, aggregates and operators that
  the rewrites only pass along are interpreted by a parameter (\<open>interp\<close>); the arithmetic, the
  comparisons and the sums, counts, averages and variances that the rewrites relate to each other
  are written out, over real numbers and SQL's \<open>NULL\<close>.
\<close>

type_synonym row = "ColumnBinding \<Rightarrow> scalar"

record interp =
  function_value :: "string \<Rightarrow> scalar list \<Rightarrow> scalar"
  aggregate_value :: "string \<Rightarrow> bool \<Rightarrow> scalar list list \<Rightarrow> scalar"
  cast_value :: "LogicalType \<Rightarrow> scalar \<Rightarrow> scalar"
  class_value :: "string \<Rightarrow> scalar list \<Rightarrow> scalar"
  operator_rows :: "LogicalOperatorType \<Rightarrow> rinfo \<Rightarrow> rexpr list \<Rightarrow> row list list \<Rightarrow> row list"

section \<open>Scalar functions\<close>

fun num_of :: "scalar \<Rightarrow> real" where
  "num_of (SNum x) = x"
| "num_of _ = 0"

definition number_function :: "string \<Rightarrow> (real \<Rightarrow> real \<Rightarrow> scalar) option" where
  "number_function f =
     (if f = ''-'' then Some (\<lambda>x y. SNum (x - y))
      else if f = ''*'' then Some (\<lambda>x y. SNum (x * y))
      else if f = ''/'' then Some (\<lambda>x y. if y = 0 then SNull else SNum (x / y))
      else None)"

definition scalar_function :: "interp \<Rightarrow> string \<Rightarrow> scalar list \<Rightarrow> scalar" where
  "scalar_function I f vs =
     (case (number_function f, vs) of
        (Some g, [x, y]) \<Rightarrow> if x = SNull \<or> y = SNull then SNull else g (num_of x) (num_of y)
      | (None, [x]) \<Rightarrow> if f = ''sqrt'' then (if x = SNull then SNull else SNum (sqrt (num_of x)))
          else function_value I f vs
      | _ \<Rightarrow> function_value I f vs)"

fun less_string :: "string \<Rightarrow> string \<Rightarrow> bool" where
  "less_string x [] = False"
| "less_string [] (d # y) = True"
| "less_string (c # x) (d # y) = ((of_char c :: nat) < of_char d \<or> c = d \<and> less_string x y)"

fun less_scalar :: "scalar \<Rightarrow> scalar \<Rightarrow> bool" where
  "less_scalar (SNum x) (SNum y) = (x < y)"
| "less_scalar (SBool x) (SBool y) = (\<not> x \<and> y)"
| "less_scalar (SStr x) (SStr y) = less_string x y"
| "less_scalar _ _ = False"

definition compare_scalars :: "comparison \<Rightarrow> scalar \<Rightarrow> scalar \<Rightarrow> scalar" where
  "compare_scalars c x y =
     (case c of
        COMPARE_NOT_DISTINCT_FROM \<Rightarrow> SBool (x = y)
      | COMPARE_DISTINCT_FROM \<Rightarrow> SBool (x \<noteq> y)
      | _ \<Rightarrow> if x = SNull \<or> y = SNull then SNull
        else SBool (case c of
            COMPARE_EQUAL \<Rightarrow> x = y
          | COMPARE_NOTEQUAL \<Rightarrow> x \<noteq> y
          | COMPARE_LESSTHAN \<Rightarrow> less_scalar x y
          | COMPARE_GREATERTHAN \<Rightarrow> less_scalar y x
          | COMPARE_LESSTHANOREQUALTO \<Rightarrow> x = y \<or> less_scalar x y
          | _ \<Rightarrow> x = y \<or> less_scalar y x))"

fun operator_value :: "interp \<Rightarrow> operator_type \<Rightarrow> scalar list \<Rightarrow> scalar" where
  "operator_value I OPERATOR_NOT [SBool x] = SBool (\<not> x)"
| "operator_value I OPERATOR_IS_NULL [x] = SBool (x = SNull)"
| "operator_value I OPERATOR_IS_NOT_NULL [x] = SBool (x \<noteq> SNull)"
| "operator_value I (OPERATOR_OTHER f) xs = class_value I f xs"
| "operator_value I _ _ = SNull"

text \<open>Three-valued \<open>AND\<close> and \<open>OR\<close>.\<close>

definition conjunction_value :: "bool \<Rightarrow> scalar list \<Rightarrow> scalar" where
  "conjunction_value is_and vs =
     (if SBool (\<not> is_and) \<in> set vs then SBool (\<not> is_and)
      else if SNull \<in> set vs then SNull else SBool is_and)"

fun first_true :: "(scalar \<times> scalar) list \<Rightarrow> scalar \<Rightarrow> scalar" where
  "first_true [] d = d"
| "first_true (c # cs) d = (if fst c = SBool True then snd c else first_true cs d)"

fun eval :: "interp \<Rightarrow> row \<Rightarrow> rexpr \<Rightarrow> scalar" where
  "eval I r (ColumnRefExpr a t b) = r b"
| "eval I r (ConstantExpr a t v) = v"
| "eval I r (CaseExpr a t cs e) = first_true (map (\<lambda>c. (eval I r (fst c), eval I r (snd c))) cs) (eval I r e)"
| "eval I r (ComparisonExpr a c x y) = compare_scalars c (eval I r x) (eval I r y)"
| "eval I r (FunctionExpr a t f v es) = scalar_function I f (map (eval I r) es)"
| "eval I r (AggregateExpr a t f d es fi) = SNull"
| "eval I r (OperatorExpr a t c es) = operator_value I c (map (eval I r) es)"
| "eval I r (CastExpr a t e) = cast_value I t (eval I r e)"
| "eval I r (ConjunctionExpr a c es) = conjunction_value c (map (eval I r) es)"
| "eval I r (ClassExpr a t c es) = class_value I c (map (eval I r) es)"

lemma eval_set_alias [simp]: "eval I r (set_alias x e) = eval I r e"
  by (cases e) simp_all

text \<open>An expression reads only the bindings it mentions.\<close>

lemma eval_cong:
  assumes "\<And>b. b \<in> set (bindings_of e) \<Longrightarrow> r b = r' b"
  shows "eval I r e = eval I r' e"
  using assms
proof (induction e rule: bindings_of.induct)
  case (1 e)
  have IH: "eval I r c = eval I r' c" if "c \<in> set (child_exprs e)" for c
    using "1.IH" [OF that] "1.prems" bindings_of_child [OF that] by blast
  show ?case
  proof (cases e)
    case (ColumnRefExpr a t b)
    then show ?thesis using "1.prems" by simp
  next
    case (CaseExpr a t cs d)
    have "map (\<lambda>c. (eval I r (fst c), eval I r (snd c))) cs = map (\<lambda>c. (eval I r' (fst c), eval I r' (snd c))) cs"
      using IH by (auto simp: CaseExpr)
    moreover have "eval I r d = eval I r' d" using IH by (simp add: CaseExpr)
    ultimately show ?thesis by (simp only: CaseExpr eval.simps)
  next
    case (FunctionExpr a t f v es)
    have "map (eval I r) es = map (eval I r') es" using IH by (simp add: FunctionExpr)
    then show ?thesis by (simp only: FunctionExpr eval.simps)
  next
    case (OperatorExpr a t c es)
    have "map (eval I r) es = map (eval I r') es" using IH by (simp add: OperatorExpr)
    then show ?thesis by (simp only: OperatorExpr eval.simps)
  next
    case (ConjunctionExpr a c es)
    have "map (eval I r) es = map (eval I r') es" using IH by (simp add: ConjunctionExpr)
    then show ?thesis by (simp only: ConjunctionExpr eval.simps)
  next
    case (ClassExpr a t c es)
    have "map (eval I r) es = map (eval I r') es" using IH by (simp add: ClassExpr)
    then show ?thesis by (simp only: ClassExpr eval.simps)
  qed (use IH in simp_all)
qed

section \<open>Aggregates\<close>

text \<open>The values of the first argument that an aggregate looks at: \<open>NULL\<close> is skipped, \<open>DISTINCT\<close>
  drops the repetitions.\<close>

definition agg_inputs :: "bool \<Rightarrow> scalar list list \<Rightarrow> scalar list" where
  "agg_inputs is_distinct tuples =
     (let vs = filter (\<lambda>v. v \<noteq> SNull) (concat (map (take 1) tuples))
      in if is_distinct then remdups vs else vs)"

definition sum_of :: "scalar list \<Rightarrow> real" where
  "sum_of vs = sum_list (map num_of vs)"

definition mean_of :: "scalar list \<Rightarrow> real" where
  "mean_of vs = sum_of vs / real (length vs)"

text \<open>The variance as a textbook defines it: the mean squared distance from the mean, for a sample
  with one degree of freedom less.\<close>

definition variance_of :: "bool \<Rightarrow> scalar list \<Rightarrow> scalar" where
  "variance_of population vs =
     (if length vs \<le> (if population then 0 else 1) then SNull
      else SNum (sum_list (map (\<lambda>v. (num_of v - mean_of vs)\<^sup>2) vs) /
             (real (length vs) - (if population then 0 else 1))))"

definition sqrt_value :: "scalar \<Rightarrow> scalar" where
  "sqrt_value v = (if v = SNull then SNull else SNum (sqrt (num_of v)))"

definition agg_function :: "interp \<Rightarrow> string \<Rightarrow> bool \<Rightarrow> scalar list list \<Rightarrow> scalar" where
  "agg_function I f is_distinct tuples =
     (let vs = agg_inputs is_distinct tuples
      in if f = ''count_star'' then SNum (real (length tuples))
         else if f = ''count'' then SNum (real (length vs))
         else if f = ''sum'' then (if vs = [] then SNull else SNum (sum_of vs))
         else if f = ''avg'' then (if vs = [] then SNull else SNum (mean_of vs))
         else if f \<in> {''variance'', ''var_samp''} then variance_of False vs
         else if f = ''var_pop'' then variance_of True vs
         else if f \<in> {''stddev'', ''stddev_samp''} then sqrt_value (variance_of False vs)
         else if f = ''stddev_pop'' then sqrt_value (variance_of True vs)
         else aggregate_value I f is_distinct tuples)"

definition passes :: "interp \<Rightarrow> row \<Rightarrow> rexpr \<Rightarrow> bool" where
  "passes I r p \<longleftrightarrow> eval I r p = SBool True"

text \<open>The value of an aggregate's expression for the rows of a group.\<close>

definition group_value :: "interp \<Rightarrow> row list \<Rightarrow> rexpr \<Rightarrow> scalar" where
  "group_value I rows e =
     (case e of
        AggregateExpr a t f d args fi \<Rightarrow>
          agg_function I f d (map (\<lambda>r. map (eval I r) args)
            (filter (\<lambda>r. case fi of None \<Rightarrow> True | Some p \<Rightarrow> passes I r p) rows))
      | _ \<Rightarrow> (case rows of [] \<Rightarrow> SNull | r # rs \<Rightarrow> eval I r e))"

section \<open>Rows of a plan\<close>

definition column_row :: "idx_t \<Rightarrow> scalar list \<Rightarrow> row" where
  "column_row index vs b = (if fst b = index \<and> snd b < length vs then vs ! snd b else SNull)"

definition group_key :: "interp \<Rightarrow> rinfo \<Rightarrow> row \<Rightarrow> scalar list" where
  "group_key I i r = map (eval I r) (group_exprs i)"

text \<open>The groups in the order in which they appear; without grouping expressions there is one
  group, even of no rows.\<close>

definition group_keys :: "interp \<Rightarrow> rinfo \<Rightarrow> row list \<Rightarrow> scalar list list" where
  "group_keys I i rows = (if group_exprs i = [] then [[]] else remdups (map (group_key I i) rows))"

definition group_rows :: "interp \<Rightarrow> rinfo \<Rightarrow> row list \<Rightarrow> scalar list \<Rightarrow> row list" where
  "group_rows I i rows k = filter (\<lambda>r. group_key I i r = k) rows"

definition aggregate_row :: "interp \<Rightarrow> rinfo \<Rightarrow> rexpr list \<Rightarrow> row list \<Rightarrow> scalar list \<Rightarrow> row" where
  "aggregate_row I i es rows k b =
     (if fst b = group_table i \<and> snd b < length k then k ! snd b
      else column_row (aggregate_index i) (map (group_value I (group_rows I i rows k)) es) b)"

definition operator_result :: "interp \<Rightarrow> LogicalOperatorType \<Rightarrow> rinfo \<Rightarrow> rexpr list \<Rightarrow> row list list \<Rightarrow> row list" where
  "operator_result I t i es rs =
     (if t = LOGICAL_PROJECTION \<and> length rs = 1
      then map (\<lambda>r. column_row (op_index i) (map (eval I r) es)) (hd rs)
      else if t = LOGICAL_FILTER \<and> length rs = 1 then filter (\<lambda>r. list_all (passes I r) es) (hd rs)
      else if t = LOGICAL_AGGREGATE_AND_GROUP_BY \<and> length rs = 1
      then map (aggregate_row I i es (hd rs)) (group_keys I i (hd rs))
      else operator_rows I t i es rs)"

fun plan_rows :: "interp \<Rightarrow> rplan \<Rightarrow> row list" where
  "plan_rows I (RPlan t i es cs) = operator_result I t i es (map (plan_rows I) cs)"

end
