(* ===== verification/Rewrite_Correct.thy ===== *)
theory Rewrite_Correct
  imports Rewrite_Aggregates Rewrite_Semantics
begin

text \<open>
  The aggregate rewrites keep the values of a plan: an aggregate with a filter and its \<open>CASE\<close>
  form agree for every aggregate that skips \<open>NULL\<close>, and the sums and counts compute the average,
  the variance and the standard deviation of the textbook.
\<close>

section \<open>Filters\<close>

definition null_first :: "scalar list \<Rightarrow> bool" where
  "null_first t \<longleftrightarrow> t \<noteq> [] \<and> hd t = SNull"

definition skips_nulls :: "interp \<Rightarrow> string \<Rightarrow> bool" where
  "skips_nulls I f \<longleftrightarrow>
     (\<forall>d ts. agg_function I f d ts = agg_function I f d (filter (\<lambda>t. \<not> null_first t) ts))"

lemma agg_inputs_skip: "agg_inputs d (filter (\<lambda>t. \<not> null_first t) ts) = agg_inputs d ts"
proof -
  have "filter (\<lambda>v. v \<noteq> SNull) (concat (map (take 1) (filter (\<lambda>t. \<not> null_first t) ts))) =
      filter (\<lambda>v. v \<noteq> SNull) (concat (map (take 1) ts))"
  proof (induction ts)
    case (Cons t ts)
    then show ?case by (cases t) (auto simp: null_first_def)
  qed simp
  then show ?thesis by (simp only: agg_inputs_def)
qed

text \<open>The aggregates that are written out skip \<open>NULL\<close>, all but \<open>count(*)\<close>, which has no argument.\<close>

lemma builtin_skips_nulls:
  "f \<in> {''count'', ''sum'', ''avg'', ''variance'', ''var_samp'', ''var_pop'', ''stddev'', ''stddev_samp'',
     ''stddev_pop''} \<Longrightarrow> skips_nulls I f"
  unfolding skips_nulls_def agg_function_def Let_def agg_inputs_skip by auto

lemma case_tuples:
  "filter (\<lambda>t. \<not> null_first t)
     (map (\<lambda>r. (if passes I r p then eval I r x else SNull) # map (eval I r) xs) rows) =
   filter (\<lambda>t. \<not> null_first t) (map (\<lambda>r. map (eval I r) (x # xs)) (filter (\<lambda>r. passes I r p) rows))"
  by (induction rows) (simp_all add: null_first_def)

lemma eval_case_null:
  "eval I r (CaseExpr a t [(p, x)] (ConstantExpr b u SNull)) = (if passes I r p then eval I r x else SNull)"
  by (simp add: passes_def)

lemma case_count:
  "length (agg_inputs False (map (\<lambda>r. [if passes I r p then eval I r (ConstantExpr a t (SNum 1)) else SNull]) rows)) =
   length (filter (\<lambda>r. passes I r p) rows)"
  by (induction rows) (simp_all add: agg_inputs_def)

definition filter_skippable :: "interp \<Rightarrow> rexpr \<Rightarrow> bool" where
  "filter_skippable I e =
     (case e of AggregateExpr a t f d args (Some p) \<Rightarrow>
        f = ''list'' \<or> (if args = [] then f = ''count_star'' else skips_nulls I f)
      | _ \<Rightarrow> True)"

lemma agg_function_case:
  assumes "skips_nulls I f"
  shows "agg_function I f d (map (\<lambda>r. (if passes I r p then eval I r x else SNull) # map (eval I r) xs) rows) =
    agg_function I f d (map (\<lambda>r. map (eval I r) (x # xs)) (filter (\<lambda>r. passes I r p) rows))"
proof -
  have skip: "agg_function I f d ts = agg_function I f d (filter (\<lambda>t. \<not> null_first t) ts)" for ts
    using assms unfolding skips_nulls_def by blast
  show ?thesis by (subst (1 2) skip) (simp only: case_tuples)
qed

lemma filter_as_case_value:
  assumes "filter_as_case B e = Inr e'" and "filter_skippable I e"
  shows "group_value I rows e' = group_value I rows e"
proof (cases "\<exists>a t f d args p. e = AggregateExpr a t f d args (Some p) \<and> f \<noteq> ''list''")
  case False
  then have "e' = e" using assms(1)
    by (auto simp: filter_as_case_def split: rexpr.splits option.splits if_splits)
  then show ?thesis by simp
next
  case True
  then obtain a t f d args p where e: "e = AggregateExpr a t f d args (Some p)" and "f \<noteq> ''list''" by blast
  show ?thesis
  proof (cases args)
    case Nil
    then have f: "f = ''count_star''" using assms(2) \<open>f \<noteq> ''list''\<close> by (simp add: filter_skippable_def e)
    obtain ct where "e' = AggregateExpr a ct ''count'' False
        [CaseExpr [] TypeBigint [(p, ConstantExpr [] TypeBigint (SNum 1))] (ConstantExpr [] TypeBigint SNull)] None"
      using assms(1) by (auto simp: filter_as_case_def e Nil f count_of_case_def and_then_Inr)
    then show ?thesis
      by (simp add: e Nil f group_value_def agg_function_def case_count eval_case_null
          del: eval.simps(2,3))
  next
    case (Cons x xs)
    then have skip: "skips_nulls I f" using assms(2) \<open>f \<noteq> ''list''\<close> by (simp add: filter_skippable_def e)
    have "e' = AggregateExpr a t f d
        (CaseExpr [] (return_type x) [(p, x)] (ConstantExpr [] (return_type x) SNull) # xs) None"
      using assms(1) \<open>f \<noteq> ''list''\<close> by (simp add: filter_as_case_def e Cons)
    then show ?thesis
      using agg_function_case [OF skip, of d p x xs rows]
      by (simp add: e Cons group_value_def eval_case_null del: eval.simps(3))
  qed
qed

fun filters_skippable :: "interp \<Rightarrow> rplan \<Rightarrow> bool" where
  "filters_skippable I (RPlan t i es cs) \<longleftrightarrow>
     (t = LOGICAL_AGGREGATE_AND_GROUP_BY \<longrightarrow> length cs = 1 \<and> list_all (filter_skippable I) es) \<and>
     list_all (filters_skippable I) cs"

lemma aggregate_row_cong:
  assumes "list_all2 (\<lambda>e e'. \<forall>rows. group_value I rows e' = group_value I rows e) es es'"
  shows "aggregate_row I i es' rows k = aggregate_row I i es rows k"
proof -
  have "map (group_value I (group_rows I i rows k)) es' = map (group_value I (group_rows I i rows k)) es"
    using assms by (auto simp: list_all2_conv_all_nth intro: nth_equalityI)
  then show ?thesis by (simp add: aggregate_row_def fun_eq_iff)
qed

lemma aggregate_result_cong:
  assumes "list_all2 (\<lambda>e e'. \<forall>rows. group_value I rows e' = group_value I rows e) es es'" and "length rs = 1"
  shows "operator_result I LOGICAL_AGGREGATE_AND_GROUP_BY i es' rs =
    operator_result I LOGICAL_AGGREGATE_AND_GROUP_BY i es rs"
  using assms(2) by (simp add: operator_result_def aggregate_row_cong [OF assms(1)])

text \<open>C14: replacing the \<open>FILTER\<close> of the aggregates by \<open>CASE\<close> expressions keeps every row of the
  plan, with the operators around them interpreted in any way, when every filtered aggregate but
  \<open>list\<close> (which is left alone) skips \<open>NULL\<close> in its first argument.\<close>

theorem aggregate_filters_keep_rows:
  assumes "RewriteAggregateFilters B p = Inr p'" and "filters_skippable I p"
  shows "plan_rows I p' = plan_rows I p"
  using assms
proof (induction p arbitrary: p' rule: rplan_induct)
  case (RPlan t i es cs)
  obtain cs' where cs: "list_all2 (\<lambda>c c'. RewriteAggregateFilters B c = Inr c') cs cs'"
    and rest: "(if t \<noteq> LOGICAL_AGGREGATE_AND_GROUP_BY then Inr (RPlan t i es cs')
      else and_then (traverse (filter_as_case B) es) (\<lambda>es'. Inr (RPlan t i es' cs'))) = Inr p'"
    using RPlan.prems(1) by (auto simp: and_then_Inr traverse_Inr)
  have same: "map (plan_rows I) cs' = map (plan_rows I) cs"
  proof (rule nth_equalityI)
    fix k assume "k < length (map (plan_rows I) cs')"
    then have k: "k < length cs" using cs by (simp add: list_all2_lengthD)
    then have "RewriteAggregateFilters B (cs ! k) = Inr (cs' ! k)" "filters_skippable I (cs ! k)"
      using cs RPlan.prems(2) by (simp_all add: list_all2_conv_all_nth list_all_length)
    then show "map (plan_rows I) cs' ! k = map (plan_rows I) cs ! k"
      using RPlan.IH [of "cs ! k"] k cs by (simp add: list_all2_lengthD [symmetric])
  qed (use cs in \<open>simp add: list_all2_lengthD\<close>)
  show ?case
  proof (cases "t = LOGICAL_AGGREGATE_AND_GROUP_BY")
    case True
    then obtain es' where es: "list_all2 (\<lambda>e e'. filter_as_case B e = Inr e') es es'"
      and p': "p' = RPlan t i es' cs'"
      using rest by (auto simp: and_then_Inr traverse_Inr)
    have len: "length (map (plan_rows I) cs) = 1" and "list_all (filter_skippable I) es"
      using RPlan.prems(2) True by simp_all
    then have "list_all2 (\<lambda>e e'. \<forall>rows. group_value I rows e' = group_value I rows e) es es'"
      using es by (auto simp: list_all2_conv_all_nth list_all_length filter_as_case_value)
    then show ?thesis
      using aggregate_result_cong [OF _ len] by (simp only: p' True plan_rows.simps same)
  next
    case False
    then show ?thesis using rest by (auto simp: same)
  qed
qed

section \<open>The decomposition\<close>

definition decomposable :: "rexpr \<Rightarrow> bool" where
  "decomposable e \<longleftrightarrow> is_derived e \<and> child_exprs e \<noteq> [] \<and>
     (case e of AggregateExpr a t f d args fi \<Rightarrow> args \<noteq> [] | _ \<Rightarrow> False)"

text \<open>The parts of a decomposed aggregate are in the list of new expressions, where the record says.\<close>

definition has_part :: "rexpr list \<Rightarrow> nat \<Rightarrow> string \<Rightarrow> rexpr \<Rightarrow> bool" where
  "has_part es k f x \<longleftrightarrow> k < length es \<and> (\<exists>a t. es ! k = AggregateExpr a t f False [x] None)"

definition has_parts :: "rexpr list \<Rightarrow> Decomp \<Rightarrow> rexpr \<Rightarrow> bool" where
  "has_parts es d e \<longleftrightarrow>
     (\<exists>a t f dd x xs fi. e = AggregateExpr a t f dd (x # xs) fi \<and> func_name d = f \<and>
        is_avg_decomp d = (f = ''avg'') \<and> (f = ''avg'' \<or> IsStddevOrVariance f) \<and>
        has_part es (sum_idx d) ''sum'' x \<and> has_part es (count_idx d) ''count'' x \<and>
        (IsStddevOrVariance f \<longrightarrow>
          (\<exists>b u. has_part es (sum_sq_idx d) ''sum'' (FunctionExpr b u ''*'' False [x, x]))))"

lemma has_part_append: "has_part es k f x \<Longrightarrow> has_part (es @ fs) k f x"
  by (auto simp: has_part_def nth_append)

lemma has_parts_append: "has_parts es d e \<Longrightarrow> has_parts (es @ fs) d e"
  unfolding has_parts_def by (blast intro: has_part_append)

definition decomposed :: "rexpr list \<Rightarrow> derived_state \<Rightarrow> bool" where
  "decomposed es s \<longleftrightarrow>
     distinct (map old_idx (decomps s)) \<and> distinct (map fst (nondecomposed_remap s)) \<and>
     (\<forall>d\<in>set (decomps s). old_idx d < length es \<and> decomposable (es ! old_idx d) \<and>
        has_parts (new_exprs s) d (es ! old_idx d)) \<and>
     (\<forall>m\<in>set (nondecomposed_remap s). fst m < length es \<and> \<not> decomposable (es ! fst m) \<and>
        snd m < length (new_exprs s) \<and> new_exprs s ! snd m = es ! fst m) \<and>
     (\<forall>k < length es. if decomposable (es ! k) then k \<in> old_idx ` set (decomps s)
        else k \<in> fst ` set (nondecomposed_remap s))"

lemma decomposed_keep:
  assumes "decomposed es s" and "\<not> decomposable e"
  shows "decomposed (es @ [e]) (keep_expr (length es) e s)"
  using assms unfolding decomposed_def keep_expr_def
  by (auto simp: nth_append less_Suc_eq has_parts_append)

lemma decomposed_derive:
  assumes inv: "decomposed es s" and dec: "decomposable e"
    and new: "new_exprs s' = new_exprs s @ fs" and ds: "decomps s' = decomps s @ [d]"
    and rm: "nondecomposed_remap s' = nondecomposed_remap s"
    and parts: "has_parts (new_exprs s') d e" and old: "old_idx d = length es"
  shows "decomposed (es @ [e]) s'"
proof -
  have "has_parts (new_exprs s') d' (es ! old_idx d')" if "d' \<in> set (decomps s)" for d'
    using inv that unfolding decomposed_def new by (blast intro: has_parts_append)
  then show ?thesis
    using inv dec parts old unfolding decomposed_def ds rm
    by (auto simp: nth_append less_Suc_eq new)
qed

lemma decompose_expr_decomposed:
  assumes "decompose_expr B (length es) e s = Inr s'" and "decomposed es s"
  shows "decomposed (es @ [e]) s'"
proof (cases "decomposable e")
  case False
  then have "s' = keep_expr (length es) e s" using assms(1)
    by (auto simp: decompose_expr_def decomposable_def is_derived_def
        split: rexpr.splits list.splits if_splits)
  then show ?thesis using decomposed_keep [OF assms(2) False] by simp
next
  case True
  then obtain a t f dd x xs fi where e: "e = AggregateExpr a t f dd (x # xs) fi"
    and f: "f = ''avg'' \<or> IsStddevOrVariance f"
    by (auto simp: decomposable_def is_derived_def neq_Nil_conv split: rexpr.splits)
  have step: "decompose_derived B (length es) a f x s = Inr s'"
    using assms(1) f by (auto simp: decompose_expr_def e)
  show ?thesis
  proof (cases "IsStddevOrVariance f")
    case True
    then have "f \<noteq> ''avg''" by (auto simp: IsStddevOrVariance_def)
    obtain st qt ct where s': "s' = s\<lparr>
        new_exprs := new_exprs s @ [AggregateExpr (SUM_COL_PREFIX @ agg_alias B a f x) st ''sum'' False [x] None,
          AggregateExpr (SumSqPrefix f @ agg_alias B a f x) qt ''sum'' False [BindScalarFunction B ''*'' [x, x]] None,
          AggregateExpr (COUNT_COL_PREFIX @ agg_alias B a f x) ct ''count'' False [x] None],
        decomps := decomps s @ [\<lparr>is_avg_decomp = (f = ''avg''), decomp_alias = agg_alias B a f x,
          user_alias = [], func_name = f, sum_idx = length (new_exprs s), sum_sq_idx = Suc (length (new_exprs s)),
          count_idx = Suc (Suc (length (new_exprs s))), old_idx = length es\<rparr>]\<rparr>"
      using step True by (auto simp: decompose_derived_def Let_def and_then_Inr push_expr_def)
    show ?thesis
      by (rule decomposed_derive [OF assms(2) \<open>decomposable e\<close>])
        (auto simp: s' e has_parts_def has_part_def nth_append BindScalarFunction_def \<open>f \<noteq> ''avg''\<close> True)
  next
    case False
    then have "f = ''avg''" using f by blast
    obtain st ct where s': "s' = s\<lparr>
        new_exprs := new_exprs s @ [AggregateExpr (SUM_COL_PREFIX @ agg_alias B a f x) st ''sum'' False [x] None,
          AggregateExpr (COUNT_COL_PREFIX @ agg_alias B a f x) ct ''count'' False [x] None],
        decomps := decomps s @ [\<lparr>is_avg_decomp = (f = ''avg''), decomp_alias = agg_alias B a f x,
          user_alias = [], func_name = f, sum_idx = length (new_exprs s), sum_sq_idx = Suc (length (new_exprs s)),
          count_idx = Suc (length (new_exprs s)), old_idx = length es\<rparr>]\<rparr>"
      using step False by (auto simp: decompose_derived_def Let_def and_then_Inr push_expr_def)
    show ?thesis
      by (rule decomposed_derive [OF assms(2) \<open>decomposable e\<close>])
        (auto simp: s' e has_parts_def has_part_def nth_append \<open>f = ''avg''\<close>
          IsStddevOrVariance_def)
  qed
qed

lemma decompose_from_decomposed:
  "decompose_from B (length pre) es s = Inr s' \<Longrightarrow> decomposed pre s \<Longrightarrow> decomposed (pre @ es) s'"
proof (induction es arbitrary: pre s)
  case (Cons e es)
  obtain s1 where s1: "decompose_expr B (length pre) e s = Inr s1"
    and rest: "decompose_from B (Suc (length pre)) es s1 = Inr s'"
    using Cons.prems(1) by (auto simp: and_then_Inr)
  have "decomposed (pre @ [e]) s1" by (rule decompose_expr_decomposed [OF s1 Cons.prems(2)])
  then show ?case using Cons.IH [of "pre @ [e]" s1] rest by simp
qed simp

lemma decompose_all_decomposed:
  assumes "decompose_from B 0 es \<lparr>new_exprs = [], decomps = [], nondecomposed_remap = []\<rparr> = Inr s"
  shows "decomposed es s"
  using decompose_from_decomposed [of B "[]" es] assms by (simp add: decomposed_def)

section \<open>The formulas\<close>

lemma sum_squared_distance:
  "sum_list (map (\<lambda>v. (num_of v - m)\<^sup>2) vs) =
   sum_list (map (\<lambda>v. num_of v * num_of v) vs) - 2 * m * sum_of vs + real (length vs) * m\<^sup>2"
  by (induction vs) (simp_all add: sum_of_def power2_eq_square algebra_simps)

lemma squared_distance_from_mean:
  assumes "vs \<noteq> []"
  shows "sum_list (map (\<lambda>v. (num_of v - mean_of vs)\<^sup>2) vs) =
    sum_list (map (\<lambda>v. num_of v * num_of v) vs) - sum_of vs * sum_of vs / real (length vs)"
proof -
  have n: "real (length vs) \<noteq> 0" using assms by simp
  show ?thesis
    unfolding sum_squared_distance mean_of_def using n by (simp add: power2_eq_square field_simps)
qed

definition column_inputs :: "interp \<Rightarrow> row list \<Rightarrow> rexpr \<Rightarrow> scalar list" where
  "column_inputs I rows x = filter (\<lambda>v. v \<noteq> SNull) (map (\<lambda>r. eval I r x) rows)"

lemma agg_inputs_column: "agg_inputs False (map (\<lambda>r. [eval I r x]) rows) = column_inputs I rows x"
  by (induction rows) (simp_all add: agg_inputs_def column_inputs_def)

lemma group_value_plain:
  "group_value I rows (AggregateExpr a t f False [x] None) =
   agg_function I f False (map (\<lambda>r. [eval I r x]) rows)"
  by (simp add: group_value_def)

lemma multiply_values:
  "scalar_function I ''*'' [v, w] = (if v = SNull \<or> w = SNull then SNull else SNum (num_of v * num_of w))"
  "scalar_function I ''-'' [v, w] = (if v = SNull \<or> w = SNull then SNull else SNum (num_of v - num_of w))"
  "scalar_function I ''/'' [v, w] = (if v = SNull \<or> w = SNull \<or> num_of w = 0 then SNull
     else SNum (num_of v / num_of w))"
  "scalar_function I ''sqrt'' [v] = sqrt_value v"
  by (simp_all add: scalar_function_def number_function_def sqrt_value_def)

lemma column_inputs_square:
  "column_inputs I rows (FunctionExpr b u ''*'' False [x, x]) =
   map (\<lambda>v. SNum (num_of v * num_of v)) (column_inputs I rows x)"
  by (induction rows) (simp_all add: column_inputs_def multiply_values)

lemma part_values:
  "group_value I rows (AggregateExpr a t ''sum'' False [x] None) =
     (let vs = column_inputs I rows x in if vs = [] then SNull else SNum (sum_of vs))"
  "group_value I rows (AggregateExpr a t ''count'' False [x] None) =
     SNum (real (length (column_inputs I rows x)))"
  by (simp_all add: group_value_plain agg_function_def agg_inputs_column Let_def)

lemma has_part_value:
  "has_part es k ''sum'' x \<Longrightarrow> group_value I rows (es ! k) =
     (let vs = column_inputs I rows x in if vs = [] then SNull else SNum (sum_of vs))"
  "has_part es k ''count'' x \<Longrightarrow> group_value I rows (es ! k) = SNum (real (length (column_inputs I rows x)))"
  by (auto simp: has_part_def part_values)

lemma has_square_value:
  "has_part es k ''sum'' (FunctionExpr b u ''*'' False [x, x]) \<Longrightarrow> group_value I rows (es ! k) =
     (let vs = column_inputs I rows x
      in if vs = [] then SNull else SNum (sum_list (map (\<lambda>v. num_of v * num_of v) vs)))"
  by (simp add: has_part_value(1) column_inputs_square sum_of_def Let_def comp_def)

text \<open>The variance from the three parts, and the aggregate it replaces.\<close>

lemma variance_from_parts:
  assumes "\<not> length vs \<le> (if population then 0 else 1)"
  shows "variance_of population vs =
    SNum ((sum_list (map (\<lambda>v. num_of v * num_of v) vs) - sum_of vs * sum_of vs / real (length vs)) /
      (real (length vs) - (if population then 0 else 1)))"
proof -
  have "vs \<noteq> []" using assms by auto
  then show ?thesis using assms by (simp add: variance_of_def squared_distance_from_mean)
qed

text \<open>The decomposition may forget the arguments after the first, the \<open>FILTER\<close> and \<open>DISTINCT\<close>:
  it is meant for the aggregates without them.\<close>

definition plain_derived :: "rexpr \<Rightarrow> bool" where
  "plain_derived e \<longleftrightarrow> (is_derived e \<longrightarrow> (\<exists>a t f x. e = AggregateExpr a t f False [x] None))"

definition split_columns :: "idx_t \<Rightarrow> rexpr list \<Rightarrow> idx_t \<Rightarrow> rexpr list \<Rightarrow> (ColumnBinding \<times> LogicalType) list" where
  "split_columns gi gs ai es = indexed gi gs @ indexed ai es"

lemma eval_part_ref:
  "k < length es \<Longrightarrow> eval I r (part_ref (split_columns gi gs ai es) (length gs) a k) = r (ai, k)"
  by (simp add: part_ref_def split_columns_def nth_append indexed_def)

lemma statistics_names:
  "IsStddevOrVariance f \<Longrightarrow> \<not> IsStddevVariant f \<Longrightarrow> f \<in> {''variance'', ''var_samp'', ''var_pop''}"
  "IsStddevOrVariance f \<Longrightarrow> IsStddevVariant f \<Longrightarrow> f \<in> {''stddev'', ''stddev_samp'', ''stddev_pop''}"
  by (auto simp: IsStddevOrVariance_def IsStddevVariant_def)

lemma agg_function_statistics:
  assumes "IsStddevOrVariance f"
  shows "agg_function I f d ts =
    (if IsStddevVariant f then sqrt_value else (\<lambda>v. v)) (variance_of (IsPopulationVariant f) (agg_inputs d ts))"
proof -
  have "f \<in> {''stddev'', ''stddev_samp'', ''stddev_pop'', ''variance'', ''var_samp'', ''var_pop''}"
    using assms by (simp add: IsStddevOrVariance_def)
  then show ?thesis
    by (elim insertE emptyE) (simp_all add: agg_function_def IsStddevVariant_def IsPopulationVariant_def Let_def)
qed

lemma average_replacement:
  assumes parts: "has_parts es d (AggregateExpr a t f False [x] None)" and f: "f = ''avg''"
    and row: "\<And>k. k < length es \<Longrightarrow> r (ai, k) = group_value I rows (es ! k)"
  shows "eval I r (build_replacement B (split_columns gi gs ai es) (length gs) d) =
    group_value I rows (AggregateExpr a t f False [x] None)"
proof -
  have s: "has_part es (sum_idx d) ''sum'' x" and n: "has_part es (count_idx d) ''count'' x"
    and avg: "is_avg_decomp d" using parts f by (auto simp: has_parts_def)
  then have "sum_idx d < length es" "count_idx d < length es" by (simp_all add: has_part_def)
  then show ?thesis
    using has_part_value(1) [OF s, of I rows] has_part_value(2) [OF n, of I rows]
    by (simp add: build_replacement_def avg eval_part_ref BindScalarFunction_def multiply_values row Let_def
        group_value_plain agg_function_def agg_inputs_column f mean_of_def)
qed

text \<open>The guarded formula, over the values of its three parts.\<close>

lemma eval_guarded:
  "eval I r n = SNum x \<Longrightarrow>
   eval I r (CaseExpr a t [(ComparisonExpr b COMPARE_GREATERTHAN n (ConstantExpr c u (SNum k)), e)]
     (ConstantExpr c v SNull)) = (if k < x then eval I r e else SNull)"
  by (simp add: compare_scalars_def)

lemma variance_formula:
  fixes cols d gc
  defines "ref \<equiv> \<lambda>k. part_ref cols gc [] k"
  assumes "\<not> is_avg_decomp d" and n: "eval I r (ref (count_idx d)) = SNum n"
    and s: "eval I r (ref (sum_idx d)) = SNum s" and q: "eval I r (ref (sum_sq_idx d)) = SNum q" and "n \<noteq> 0"
    and "n > (if IsPopulationVariant (func_name d) then 0 else 1)"
  shows "eval I r (build_replacement B cols gc d) =
    (if IsStddevVariant (func_name d) then sqrt_value else (\<lambda>v. v))
      (SNum ((q - s * s / n) / (n - (if IsPopulationVariant (func_name d) then 0 else 1))))"
  using assms(2-7)
  by (cases "IsPopulationVariant (func_name d)")
    (simp_all add: build_replacement_def Let_def ref_def [symmetric] eval_guarded BindScalarFunction_def
      multiply_values del: eval.simps(3))

lemma variance_guard:
  assumes "\<not> is_avg_decomp d" and "eval I r (part_ref cols gc [] (count_idx d)) = SNum n"
    and "\<not> n > (if IsPopulationVariant (func_name d) then 0 else 1)"
  shows "eval I r (build_replacement B cols gc d) = SNull"
  using assms by (auto simp: build_replacement_def Let_def eval_guarded simp del: eval.simps(3))

lemma variance_replacement:
  assumes parts: "has_parts es d (AggregateExpr a t f False [x] None)" and f: "IsStddevOrVariance f"
    and row: "\<And>k. k < length es \<Longrightarrow> r (ai, k) = group_value I rows (es ! k)"
  shows "eval I r (build_replacement B (split_columns gi gs ai es) (length gs) d) =
    group_value I rows (AggregateExpr a t f False [x] None)"
proof -
  let ?vs = "column_inputs I rows x" and ?cols = "split_columns gi gs ai es"
  have "f \<noteq> ''avg''" using f by (auto simp: IsStddevOrVariance_def)
  then have avg: "\<not> is_avg_decomp d" and name: "func_name d = f"
    and s: "has_part es (sum_idx d) ''sum'' x" and n: "has_part es (count_idx d) ''count'' x"
    using parts by (auto simp: has_parts_def)
  obtain b u where q: "has_part es (sum_sq_idx d) ''sum'' (FunctionExpr b u ''*'' False [x, x])"
    using parts f by (auto simp: has_parts_def)
  have ref: "eval I r (part_ref ?cols (length gs) [] (sum_idx d)) = (if ?vs = [] then SNull else SNum (sum_of ?vs))"
    "eval I r (part_ref ?cols (length gs) [] (count_idx d)) = SNum (real (length ?vs))"
    "eval I r (part_ref ?cols (length gs) [] (sum_sq_idx d)) =
      (if ?vs = [] then SNull else SNum (sum_list (map (\<lambda>v. num_of v * num_of v) ?vs)))"
    using s n q has_part_value(1) [OF s, of I rows] has_part_value(2) [OF n, of I rows]
      has_square_value [OF q, of I rows]
    by (simp_all add: eval_part_ref row has_part_def Let_def)
  have value_f: "group_value I rows (AggregateExpr a t f False [x] None) =
      (if IsStddevVariant f then sqrt_value else (\<lambda>v. v)) (variance_of (IsPopulationVariant f) ?vs)"
    by (simp add: group_value_plain agg_function_statistics [OF f] agg_inputs_column)
  show ?thesis
  proof (cases "length ?vs \<le> (if IsPopulationVariant f then 0 else 1)")
    case True
    then have "variance_of (IsPopulationVariant f) ?vs = SNull" by (simp add: variance_of_def)
    moreover have "\<not> real (length ?vs) > (if IsPopulationVariant (func_name d) then 0 else 1)"
      using True by (auto simp: name)
    ultimately show ?thesis
      by (simp add: variance_guard [OF avg ref(2)] value_f sqrt_value_def)
  next
    case False
    then have ne: "?vs \<noteq> []" by auto
    then have "real (length ?vs) > (if IsPopulationVariant (func_name d) then 0 else 1)"
      using False by (auto simp: name)
    then show ?thesis
      using variance_formula [OF avg ref(2), of "sum_of ?vs" "sum_list (map (\<lambda>v. num_of v * num_of v) ?vs)" B]
        ref(1,3) ne
      by (simp add: name value_f variance_from_parts [OF False])
  qed
qed

lemma replacement_value:
  assumes "has_parts es d e" and "plain_derived e"
    and "\<And>k. k < length es \<Longrightarrow> r (ai, k) = group_value I rows (es ! k)"
  shows "eval I r (build_replacement B (split_columns gi gs ai es) (length gs) d) = group_value I rows e"
proof -
  have "is_derived e" using assms(1) by (auto simp: has_parts_def is_derived_def)
  then obtain a t f x where e: "e = AggregateExpr a t f False [x] None"
    using assms(2) by (auto simp: plain_derived_def)
  then have "f = ''avg'' \<or> IsStddevOrVariance f" using \<open>is_derived e\<close> by (simp add: is_derived_def)
  then show ?thesis
  proof
    assume "f = ''avg''"
    then show ?thesis using average_replacement [OF _ _ assms(3)] assms(1) unfolding e by simp
  next
    assume "IsStddevOrVariance f"
    then show ?thesis using variance_replacement [OF _ _ assms(3)] assms(1) unfolding e by simp
  qed
qed

section \<open>The projection\<close>

lemma map_of_rev:
  assumes "distinct (map fst xs)"
  shows "map_of (rev xs) k = map_of xs k"
proof -
  have "map_of (rev xs) = map_of xs"
    by (rule map_of_inject_set [THEN iffD2]) (use assms in \<open>auto simp: rev_map [symmetric]\<close>)
  then show ?thesis by simp
qed

definition renamed :: "idx_t \<Rightarrow> rexpr list \<Rightarrow> derived_state \<Rightarrow> derived_state" where
  "renamed ai es s = s\<lparr>decomps := map (set_user_alias ai es) (decomps s)\<rparr>"

lemma set_user_alias_fields [simp]:
  "old_idx (set_user_alias ai es d) = old_idx d" "has_parts xs (set_user_alias ai es d) e = has_parts xs d e"
  by (auto simp: set_user_alias_def has_parts_def split: option.splits)

lemma decomposed_renamed: "decomposed aggs s \<Longrightarrow> decomposed aggs (renamed ai es s)"
  by (auto simp: decomposed_def renamed_def comp_def image_image)

text \<open>A reference to an old aggregate column finds its decomposition, or its new place.\<close>

lemma lookup_decomposed:
  assumes inv: "decomposed aggs s" and k: "k < length aggs" and small: "length aggs < 2 ^ 64"
  shows "if decomposable (aggs ! k)
    then \<exists>d. decomp_lookup ai (decomps s) (ai, k) = Some d \<and> has_parts (new_exprs s) d (aggs ! k)
    else decomp_lookup ai (decomps s) (ai, k) = None \<and>
      (\<exists>n. map_of (nondecomposed_remap s) k = Some n \<and> n < length (new_exprs s) \<and> new_exprs s ! n = aggs ! k)"
proof -
  have key: "binding_key (ai, old_idx d) = binding_key (ai, k) \<longleftrightarrow> old_idx d = k" if "d \<in> set (decomps s)" for d
    using binding_key_inj [of ai "old_idx d" k] inv that k small by (auto simp: decomposed_def)
  have inj: "inj_on (\<lambda>k. binding_key (ai, k)) {..<length aggs}"
    using small by (auto intro!: inj_onI dest: binding_key_inj)
  let ?tab = "map (\<lambda>d. (binding_key (ai, old_idx d), d)) (decomps s)"
  have "distinct (map (\<lambda>k. binding_key (ai, k)) (map old_idx (decomps s)))"
    using inv by (subst distinct_map) (auto simp: decomposed_def intro: inj_on_subset [OF inj])
  then have dist: "distinct (map fst ?tab)" by (simp add: comp_def)
  show ?thesis
  proof (cases "decomposable (aggs ! k)")
    case True
    then have "k \<in> old_idx ` set (decomps s)" using inv k unfolding decomposed_def by meson
    then obtain d where d: "d \<in> set (decomps s)" "old_idx d = k" by auto
    then have "map_of ?tab (binding_key (ai, k)) = Some d"
      by (intro map_of_is_SomeI [OF dist]) force
    then show ?thesis using True inv d by (auto simp: decomp_lookup_def map_of_rev [OF dist] decomposed_def)
  next
    case False
    have "binding_key (ai, k) \<notin> fst ` set ?tab"
    proof
      assume "binding_key (ai, k) \<in> fst ` set ?tab"
      then obtain d where d: "d \<in> set (decomps s)" and "binding_key (ai, old_idx d) = binding_key (ai, k)" by auto
      then have "old_idx d = k" using key by simp
      moreover have "decomposable (aggs ! old_idx d)" using inv d by (simp add: decomposed_def)
      ultimately show False using False by simp
    qed
    then have "map_of ?tab (binding_key (ai, k)) = None" by (simp add: map_of_eq_None_iff)
    moreover have "k \<in> fst ` set (nondecomposed_remap s)"
      using False inv k unfolding decomposed_def by meson
    then obtain n where n: "(k, n) \<in> set (nondecomposed_remap s)" by auto
    then have "map_of (nondecomposed_remap s) k = Some n" "n < length (new_exprs s)" "new_exprs s ! n = aggs ! k"
      using inv by (auto simp: decomposed_def)
    ultimately show ?thesis using False by (simp add: decomp_lookup_def map_of_rev [OF dist])
  qed
qed

lemma eval_map_children:
  assumes "\<And>c. c \<in> set (child_exprs e) \<Longrightarrow> eval I r' (g c) = eval I r c"
    and "\<And>a t b. e = ColumnRefExpr a t b \<Longrightarrow> r' b = r b"
  shows "eval I r' (map_children g e) = eval I r e"
proof (cases e)
  case (CaseExpr a t cs d)
  have "map ((\<lambda>c. (eval I r' (fst c), eval I r' (snd c))) \<circ> (\<lambda>c. (g (fst c), g (snd c)))) cs =
      map (\<lambda>c. (eval I r (fst c), eval I r (snd c))) cs"
    using assms(1) by (auto simp: CaseExpr)
  moreover have "eval I r' (g d) = eval I r d" using assms(1) by (simp add: CaseExpr)
  ultimately show ?thesis by (simp only: CaseExpr map_children.simps eval.simps map_map)
next
  case (FunctionExpr a t f v es)
  have "map (eval I r' \<circ> g) es = map (eval I r) es" using assms(1) by (auto simp: FunctionExpr)
  then show ?thesis by (simp only: FunctionExpr map_children.simps eval.simps map_map)
next
  case (OperatorExpr a t c es)
  have "map (eval I r' \<circ> g) es = map (eval I r) es" using assms(1) by (auto simp: OperatorExpr)
  then show ?thesis by (simp only: OperatorExpr map_children.simps eval.simps map_map)
next
  case (ConjunctionExpr a c es)
  have "map (eval I r' \<circ> g) es = map (eval I r) es" using assms(1) by (auto simp: ConjunctionExpr)
  then show ?thesis by (simp only: ConjunctionExpr map_children.simps eval.simps map_map)
next
  case (ClassExpr a t c es)
  have "map (eval I r' \<circ> g) es = map (eval I r) es" using assms(1) by (auto simp: ClassExpr)
  then show ?thesis by (simp only: ClassExpr map_children.simps eval.simps map_map)
qed (use assms in simp_all)

text \<open>If every replaced reference keeps its value, so does the expression.\<close>

lemma eval_replace_exprs:
  assumes refs: "\<And>a t b. b \<in> set (bindings_of e) \<Longrightarrow>
      eval I r' (case f (ColumnRefExpr a t b) of Some x \<Rightarrow> x | None \<Rightarrow> ColumnRefExpr a t b) = r b"
    and only: "\<And>x. f x \<noteq> None \<Longrightarrow> \<exists>a t b. x = ColumnRefExpr a t b"
  shows "eval I r' (replace_exprs f e) = eval I r e"
  using refs
proof (induction e rule: bindings_of.induct)
  case (1 e)
  show ?case
  proof (cases "\<exists>a t b. e = ColumnRefExpr a t b")
    case True
    then obtain a t b where e: "e = ColumnRefExpr a t b" by blast
    show ?thesis using "1.prems" [of b a t] by (simp add: e replace_exprs.simps split: option.splits)
  next
    case False
    then have "f e = None" using only by blast
    moreover have "eval I r' (replace_exprs f c) = eval I r c" if "c \<in> set (child_exprs e)" for c
    proof (rule "1.IH" [OF that])
      fix a t b assume "b \<in> set (bindings_of c)"
      then show "eval I r' (case f (ColumnRefExpr a t b) of None \<Rightarrow> ColumnRefExpr a t b | Some x \<Rightarrow> x) = r b"
        using "1.prems" [of b a t] bindings_of_child [OF that] by blast
    qed
    ultimately show ?thesis
      using False by (subst replace_exprs.simps) (simp only: option.case, rule eval_map_children; blast)
  qed
qed

lemma walk_ref_value:
  fixes B gs
  assumes inv: "decomposed aggs s" and small: "length aggs < 2 ^ 64" and ne: "gi \<noteq> ai"
    and plain: "list_all plain_derived aggs"
    and group: "\<And>b. fst b \<noteq> ai \<Longrightarrow> r' b = r b"
    and old: "\<And>k. k < length aggs \<Longrightarrow> r (ai, k) = group_value I rows (aggs ! k)"
    and new: "\<And>k. k < length (new_exprs s) \<Longrightarrow> r' (ai, k) = group_value I rows (new_exprs s ! k)"
    and bound: "fst b = ai \<Longrightarrow> snd b < length aggs"
  defines "f \<equiv> walk_ref ai (build_replacement B (split_columns gi gs ai (new_exprs s)) (length gs)) s"
  shows "eval I r' (case f (ColumnRefExpr a t b) of Some x \<Rightarrow> x | None \<Rightarrow> ColumnRefExpr a t b) = r b"
proof (cases "fst b = ai")
  case False
  then show ?thesis using group by (simp add: f_def walk_ref_def)
next
  case True
  then obtain k where b: "b = (ai, k)" and k: "k < length aggs" using bound by (cases b) auto
  note look = lookup_decomposed [OF inv k small, of ai]
  show ?thesis
  proof (cases "decomposable (aggs ! k)")
    case dec: True
    then obtain d where d: "decomp_lookup ai (decomps s) (ai, k) = Some d" "has_parts (new_exprs s) d (aggs ! k)"
      using look by auto
    moreover have "plain_derived (aggs ! k)" using plain k by (simp add: list_all_length)
    ultimately show ?thesis
      using replacement_value [OF d(2) _ new] old [OF k] by (simp add: f_def walk_ref_def b)
  next
    case False
    then obtain n where n: "decomp_lookup ai (decomps s) (ai, k) = None" "map_of (nondecomposed_remap s) k = Some n"
      "n < length (new_exprs s)" "new_exprs s ! n = aggs ! k"
      using look by auto
    then have "r' (ai, n) = r (ai, k)" using new old [OF k] by simp
    then show ?thesis using n by (auto simp: f_def walk_ref_def b)
  qed
qed

lemma derive_one_level:
  assumes "FindProjectionAggregateInput (RPlan t i es [RPlan LOGICAL_AGGREGATE_AND_GROUP_BY a aggs [c]]) is_top = Some path"
    and "derive_at B path (RPlan t i es [RPlan LOGICAL_AGGREGATE_AND_GROUP_BY a aggs [c]]) = Inr p'"
  shows "t = LOGICAL_PROJECTION \<and> (p' = RPlan t i es [RPlan LOGICAL_AGGREGATE_AND_GROUP_BY a aggs [c]] \<or>
    (\<exists>s. decomposed aggs s \<and> p' = RPlan t i (rewrite_projection B a s es)
       [RPlan LOGICAL_AGGREGATE_AND_GROUP_BY a (new_exprs s) [c]]))"
proof -
  have "t = LOGICAL_PROJECTION" "path = [0]"
    using assms(1) by (auto simp: FindProjectionAggregateInput_def split: if_splits)
  then show ?thesis
    using assms(2) by (auto simp: derive_at_def with_exprs_def and_then_Inr Let_def split: if_splits
        dest!: decompose_all_decomposed)
qed

text \<open>The rows of a projection over an aggregate.\<close>

lemma projected_groups:
  "plan_rows I (RPlan LOGICAL_PROJECTION i es [RPlan LOGICAL_AGGREGATE_AND_GROUP_BY a aggs [c]]) =
   map (\<lambda>k. column_row (op_index i) (map (eval I (aggregate_row I a aggs (plan_rows I c) k)) es))
     (group_keys I a (plan_rows I c))"
  by (simp add: operator_result_def comp_def)

lemma rewritten_projection_values:
  assumes inv: "decomposed aggs s" and small: "length aggs < 2 ^ 64" and ne: "group_table a \<noteq> aggregate_index a"
    and plain: "list_all plain_derived aggs"
    and bound: "\<forall>e\<in>set es. \<forall>b\<in>set (bindings_of e). fst b = aggregate_index a \<longrightarrow> snd b < length aggs"
    and j: "j < length es"
  shows "eval I (aggregate_row I a (new_exprs s) rows k) (rewrite_projection B a s es ! j) =
    eval I (aggregate_row I a aggs rows k) (es ! j)"
proof -
  let ?s = "renamed (aggregate_index a) es s"
  let ?f = "walk_ref (aggregate_index a)
    (build_replacement B (split_columns (group_table a) (group_exprs a) (aggregate_index a) (new_exprs ?s))
       (length (group_exprs a))) ?s"
  have inv': "decomposed aggs ?s" by (rule decomposed_renamed [OF inv])
  have "rewrite_projection B a s es ! j = replace_exprs ?f (es ! j)"
    using j by (simp add: rewrite_projection_def renamed_def split_columns_def nth_append Let_def)
  moreover have "eval I (aggregate_row I a (new_exprs s) rows k) (replace_exprs ?f (es ! j)) =
      eval I (aggregate_row I a aggs rows k) (es ! j)"
  proof (rule eval_replace_exprs)
    fix x t b assume "b \<in> set (bindings_of (es ! j))"
    then have b: "fst b = aggregate_index a \<Longrightarrow> snd b < length aggs" using bound j by auto
    show "eval I (aggregate_row I a (new_exprs s) rows k)
        (case ?f (ColumnRefExpr x t b) of None \<Rightarrow> ColumnRefExpr x t b | Some y \<Rightarrow> y) = aggregate_row I a aggs rows k b"
      by (rule walk_ref_value [OF inv' small ne plain, where rows = "group_rows I a rows k"])
        (use ne b in \<open>auto simp: aggregate_row_def column_row_def renamed_def\<close>)
  next
    fix x assume "?f x \<noteq> None"
    then show "\<exists>a t b. x = ColumnRefExpr a t b" by (auto simp: walk_ref_def split: rexpr.splits)
  qed
  ultimately show ?thesis by simp
qed

lemma length_rewrite_projection: "length es \<le> length (rewrite_projection B a s es)"
  by (simp add: rewrite_projection_def Let_def)

text \<open>The first columns of a table in a row.\<close>

definition visible :: "idx_t \<Rightarrow> nat \<Rightarrow> row \<Rightarrow> scalar list" where
  "visible index n r = map (\<lambda>j. r (index, j)) [0..<n]"

text \<open>C11: splitting the averages, variances and standard deviations of a projection over an
  aggregate into sums and counts keeps every value of the projection's own columns, row by row,
  when the derived aggregates have one argument and neither \<open>FILTER\<close> nor \<open>DISTINCT\<close>: the formulas
  over the parts are the mean and the variance as they are defined from the squared distances.\<close>

theorem derived_aggregates_keep_values:
  assumes "RewriteDerivedAggregates B is_top p = Inr p'"
    and "p = RPlan LOGICAL_PROJECTION i es [RPlan LOGICAL_AGGREGATE_AND_GROUP_BY a aggs [c]]"
    and "RewriteDerivedAggregates B False c = Inr c"
    and "list_all plain_derived aggs"
    and "group_table a \<noteq> aggregate_index a" and "length aggs < 2 ^ 64"
    and "\<forall>e\<in>set es. \<forall>b\<in>set (bindings_of e). fst b = aggregate_index a \<longrightarrow> snd b < length aggs"
  shows "map (visible (op_index i) (length es)) (plan_rows I p') = map (visible (op_index i) (length es)) (plan_rows I p)"
proof -
  have "FindProjectionAggregateInput p is_top = Some [0]"
    by (simp add: assms(2) FindProjectionAggregateInput_def)
  moreover have "derive_at B [0] p = Inr p'"
    using assms(1) unfolding assms(2)
    by (simp add: assms(3) FindProjectionAggregateInput_def)
  ultimately consider "p' = p" | s where "decomposed aggs s"
    "p' = RPlan LOGICAL_PROJECTION i (rewrite_projection B a s es)
       [RPlan LOGICAL_AGGREGATE_AND_GROUP_BY a (new_exprs s) [c]]"
    unfolding assms(2) using derive_one_level by blast
  then show ?thesis
  proof cases
    case 1
    then show ?thesis by simp
  next
    case (2 s)
    note value_kept = rewritten_projection_values [OF 2(1) assms(6,5,4,7)]
    have "column_row (op_index i) (map (eval I (aggregate_row I a (new_exprs s) rows k))
          (rewrite_projection B a s es)) (op_index i, j) =
        column_row (op_index i) (map (eval I (aggregate_row I a aggs rows k)) es) (op_index i, j)"
      if "j < length es" for j k rows
      using that value_kept [OF that, of I rows k B] length_rewrite_projection [of es B a s]
      by (simp add: column_row_def)
    then show ?thesis
      unfolding assms(2) 2(2) projected_groups by (simp add: visible_def)
  qed
qed

end
