(* ===== verification/Rewrite_Passes.thy ===== *)
theory Rewrite_Passes
  imports Rewrite_Aggregates Refresh_Helpers
begin

text \<open>
  The passes of \<open>src/core/plan_rewrite.cpp\<close> that add columns for the refresh: \<open>DISTINCT\<close> as a
  counting aggregate, the hidden \<open>count(*)\<close> of a grouped view, the hidden columns carried through
  stacked projections, and the keys or match counts of an outer join. \<open>GenerateTableIndex\<close> is a
  counter that is handed through.
\<close>

section \<open>DISTINCT\<close>

fun thread :: "('a \<Rightarrow> 's \<Rightarrow> 'b \<times> 's) \<Rightarrow> 'a list \<Rightarrow> 's \<Rightarrow> 'b list \<times> 's" where
  "thread f [] s = ([], s)"
| "thread f (x # xs) s = (let (y, s1) = f x s; (ys, s2) = thread f xs s1 in (y # ys, s2))"

lemma thread_cong [fundef_cong]:
  "xs = ys \<Longrightarrow> (\<And>x s. x \<in> set ys \<Longrightarrow> f x s = g x s) \<Longrightarrow> s = s' \<Longrightarrow> thread f xs s = thread g ys s'"
proof (induction ys arbitrary: xs s s')
  case (Cons y ys)
  have "thread f ys t = thread g ys t" for t by (rule Cons.IH) (use Cons.prems in auto)
  then show ?case using Cons.prems by (simp split: prod.splits)
qed simp

definition count_star_expr :: "string \<Rightarrow> rexpr" where
  "count_star_expr a = AggregateExpr a TypeBigint ''count_star'' False [] None"

definition plain_refs :: "(ColumnBinding \<times> LogicalType) list \<Rightarrow> rexpr list" where
  "plain_refs cols = map (\<lambda>c. ColumnRefExpr [] (snd c) (fst c)) cols"

definition distinct_aggregate :: "idx_t \<Rightarrow> rplan \<Rightarrow> rplan" where
  "distinct_aggregate index child =
     aggregate_of index (Suc index) (plain_refs (columns_of child)) [count_star_expr DISTINCT_COUNT_COL] child"

fun RewriteDistinct :: "rplan \<Rightarrow> idx_t \<Rightarrow> rplan \<times> idx_t" where
  "RewriteDistinct (RPlan t i es cs) index =
     (if t \<noteq> LOGICAL_DISTINCT
      then (let (cs', index') = thread RewriteDistinct cs index in (RPlan t i es cs', index'))
      else case cs of
        [] \<Rightarrow> (RPlan t i es cs, index)
      | child # _ \<Rightarrow> (distinct_aggregate index child, index + 2))"

definition HasTopLevelDistinct :: "rplan \<Rightarrow> bool" where
  "HasTopLevelDistinct plan \<longleftrightarrow>
     rop plan = LOGICAL_DISTINCT \<or>
     rop plan = LOGICAL_PROJECTION \<and> rkids plan \<noteq> [] \<and> rop (hd (rkids plan)) = LOGICAL_DISTINCT"

section \<open>The hidden count of a grouped view\<close>

definition reliable_count :: "rexpr \<Rightarrow> bool" where
  "reliable_count e =
     (case e of AggregateExpr a t f d args fi \<Rightarrow>
        f = ''count_star'' \<and> args = [] \<and> fi = None \<or> a = COUNT_STAR_COL \<or> a = DISTINCT_COUNT_COL
      | _ \<Rightarrow> False)"

definition is_argminmax :: "rexpr \<Rightarrow> bool" where
  "is_argminmax e = (case e of AggregateExpr a t f d args fi \<Rightarrow> f = ''arg_min'' \<or> f = ''arg_max'' | _ \<Rightarrow> False)"

definition InjectGroupCountStar :: "rplan \<Rightarrow> rplan" where
  "InjectGroupCountStar plan =
     (case FindProjectionAggregateInput plan True of
        None \<Rightarrow> plan
      | Some path \<Rightarrow>
          let agg = subplan plan path
          in if group_exprs (rinfo agg) = [] then plan
             else if list_ex reliable_count (rexprs agg) then plan
             else if list_ex is_argminmax (rexprs agg) then plan
             else with_exprs
                    (\<lambda>es. es @ [ColumnRefExpr COUNT_STAR_COL TypeBigint
                       (aggregate_index (rinfo agg), length (rexprs agg))])
                    (update_at path (with_exprs (\<lambda>es. es @ [count_star_expr COUNT_STAR_COL])) plan))"

section \<open>Hidden columns through stacked projections\<close>

definition IsHiddenAggregateAlias :: "string \<Rightarrow> bool" where
  "IsHiddenAggregateAlias a \<longleftrightarrow>
     starts_with a SUM_COL_PREFIX \<or> starts_with a COUNT_COL_PREFIX \<or>
     starts_with a SUM_SQ_COL_PREFIX \<or> starts_with a SUM_SQP_COL_PREFIX"

definition carried_refs :: "rplan \<Rightarrow> rexpr list \<Rightarrow> rexpr list" where
  "carried_refs child es =
     (let already_present = filter IsHiddenAggregateAlias (map expr_alias_of es)
      in map (\<lambda>(e, b, t). ColumnRefExpr (expr_alias_of e) t b)
           (filter (\<lambda>(e, b, t). IsHiddenAggregateAlias (expr_alias_of e) \<and> expr_alias_of e \<notin> set already_present)
             (zip (rexprs child) (columns_of child))))"

fun PropagateHiddenAggregateColumns :: "rplan \<Rightarrow> rplan" where
  "PropagateHiddenAggregateColumns (RPlan t i es cs) =
     (let cs' = map PropagateHiddenAggregateColumns cs
      in if t \<noteq> LOGICAL_PROJECTION \<or> cs' = [] \<or> rop (hd cs') \<noteq> LOGICAL_PROJECTION then RPlan t i es cs'
         else RPlan t i (es @ carried_refs (hd cs') es) cs')"

section \<open>Outer joins\<close>

definition no_binding :: ColumnBinding where "no_binding = (INVALID_INDEX, INVALID_INDEX)"

definition no_type :: LogicalType where "no_type = TypeOther ''INVALID''"

record OuterJoinBindings =
  is_full_outer :: bool
  preserved_key :: "ColumnBinding \<times> LogicalType"
  right_key :: "ColumnBinding \<times> LogicalType"
  null_side :: "ColumnBinding \<times> LogicalType"
  left_side :: "ColumnBinding \<times> LogicalType"

definition IsOuterJoin :: "JoinType option \<Rightarrow> bool" where
  "IsOuterJoin jt \<longleftrightarrow> jt \<in> {Some JOIN_LEFT, Some JOIN_RIGHT, Some JOIN_OUTER}"

definition ReadColumnRefBinding :: "rexpr \<Rightarrow> ColumnBinding \<times> LogicalType" where
  "ReadColumnRefBinding e = (case e of ColumnRefExpr a t b \<Rightarrow> (b, t) | _ \<Rightarrow> (no_binding, no_type))"

definition outer_join_bindings :: "rinfo \<Rightarrow> comparison \<times> rexpr \<times> rexpr \<Rightarrow> OuterJoinBindings" where
  "outer_join_bindings i c =
     (let l = fst (snd c); r = snd (snd c); is_right = rjoin_type i = Some JOIN_RIGHT
      in \<lparr>is_full_outer = (rjoin_type i = Some JOIN_OUTER),
          preserved_key = ReadColumnRefBinding (if is_right then r else l),
          right_key = ReadColumnRefBinding r,
          null_side = ReadColumnRefBinding (if is_right then l else r),
          left_side = ReadColumnRefBinding l\<rparr>)"

fun first_some :: "('a \<Rightarrow> 'b option) \<Rightarrow> 'a list \<Rightarrow> 'b option" where
  "first_some f [] = None"
| "first_some f (x # xs) = (case f x of Some y \<Rightarrow> Some y | None \<Rightarrow> first_some f xs)"

lemma first_some_cong [fundef_cong]:
  "xs = ys \<Longrightarrow> (\<And>x. x \<in> set ys \<Longrightarrow> f x = g x) \<Longrightarrow> first_some f xs = first_some g ys"
proof (induction ys arbitrary: xs)
  case (Cons y ys)
  have "f y = g y" and "first_some f ys = first_some g ys" using Cons by simp_all
  then show ?case using Cons.prems(1) by (simp split: option.splits)
qed simp

fun FindFirstOuterJoinBindings :: "rplan \<Rightarrow> OuterJoinBindings option" where
  "FindFirstOuterJoinBindings (RPlan t i es cs) =
     (if t = LOGICAL_COMPARISON_JOIN \<and> IsOuterJoin (rjoin_type i) \<and> rconditions i \<noteq> []
      then Some (outer_join_bindings i (hd (rconditions i)))
      else first_some FindFirstOuterJoinBindings cs)"

fun PlanContainsOperator :: "LogicalOperatorType \<Rightarrow> rplan \<Rightarrow> bool" where
  "PlanContainsOperator ty (RPlan t i es cs) \<longleftrightarrow> t = ty \<or> list_ex (PlanContainsOperator ty) cs"

text \<open>One operator of the path from the binding to the root: a projection hands the binding on, by a
  reference it has or a new one; a filter with a projection map keeps the column's index in it.\<close>

definition carry_binding :: "LogicalType \<Rightarrow> rplan \<Rightarrow> ColumnBinding \<Rightarrow> rplan \<times> ColumnBinding" where
  "carry_binding ty p b =
     (if rop p = LOGICAL_PROJECTION
      then let ix = op_index (rinfo p)
        in (case find (\<lambda>i. refers_to b (rexprs p ! i)) [0..<length (rexprs p)] of
              Some i \<Rightarrow> (p, (ix, i))
            | None \<Rightarrow> (with_exprs (\<lambda>es. es @ [ColumnRefExpr [] ty b]) p, (ix, length (rexprs p))))
      else if rop p = LOGICAL_FILTER \<and> projection_map (rinfo p) \<noteq> [] \<and>
              snd b \<notin> set (projection_map (rinfo p))
      then (RPlan (rop p) ((rinfo p)\<lparr>projection_map := projection_map (rinfo p) @ [snd b]\<rparr>) (rexprs p) (rkids p), b)
      else (p, b))"

fun carry_in :: "(rplan \<Rightarrow> (rplan \<times> ColumnBinding) option) \<Rightarrow> rplan list \<Rightarrow> (rplan list \<times> ColumnBinding) option" where
  "carry_in f [] = None"
| "carry_in f (c # cs) =
     (case f c of Some (c', b) \<Rightarrow> Some (c' # cs, b)
      | None \<Rightarrow> map_option (\<lambda>(cs', b). (c # cs', b)) (carry_in f cs))"

lemma carry_in_cong [fundef_cong]:
  "xs = ys \<Longrightarrow> (\<And>x. x \<in> set ys \<Longrightarrow> f x = g x) \<Longrightarrow> carry_in f xs = carry_in g ys"
proof (induction ys arbitrary: xs)
  case (Cons y ys)
  have "f y = g y" and "carry_in f ys = carry_in g ys" using Cons by simp_all
  then show ?case using Cons.prems(1) by (simp split: option.splits)
qed simp

fun carry_to_root :: "LogicalType \<Rightarrow> ColumnBinding \<Rightarrow> rplan \<Rightarrow> (rplan \<times> ColumnBinding) option" where
  "carry_to_root ty b (RPlan t i es cs) =
     (if b \<in> set (GetColumnBindings (RPlan t i es cs)) then Some (RPlan t i es cs, b)
      else case carry_in (carry_to_root ty b) cs of
             None \<Rightarrow> None
           | Some (cs', b') \<Rightarrow> Some (carry_binding ty (RPlan t i es cs') b'))"

definition PropagateBindingThroughOperatorPath ::
    "rplan \<Rightarrow> ColumnBinding \<times> LogicalType \<Rightarrow> rplan \<times> ColumnBinding \<times> LogicalType" where
  "PropagateBindingThroughOperatorPath plan bt =
     (case find (\<lambda>c. fst c = fst bt) (columns_of plan) of
        Some c \<Rightarrow> (plan, fst bt, snd c)
      | None \<Rightarrow>
          (case carry_to_root (snd bt) (fst bt) plan of
             None \<Rightarrow> (plan, bt)
           | Some (plan', b) \<Rightarrow> (plan', b, snd bt)))"

definition RewriteLeftJoinKey :: "rplan \<Rightarrow> idx_t \<Rightarrow> OuterJoinBindings \<Rightarrow> rplan \<times> idx_t" where
  "RewriteLeftJoinKey plan index oj =
     (let (plan, key, key_type) = PropagateBindingThroughOperatorPath plan (preserved_key oj);
          (plan, rkey, rkey_type) =
            (if is_full_outer oj then PropagateBindingThroughOperatorPath plan (right_key oj)
             else (plan, right_key oj))
      in (projection_of index
            (plain_refs (columns_of plan) @ [ColumnRefExpr LEFT_KEY_COL key_type key] @
             (if is_full_outer oj then [ColumnRefExpr RIGHT_KEY_COL rkey_type rkey] else [])) plan,
          Suc index))"

text \<open>The path from the root projection through the projections below it to an aggregate.\<close>

fun aggregate_below :: "rplan \<Rightarrow> nat list option" where
  "aggregate_below (RPlan t i es cs) =
     (if t = LOGICAL_AGGREGATE_AND_GROUP_BY then Some []
      else if t = LOGICAL_PROJECTION
      then (case cs of [] \<Rightarrow> None | c # _ \<Rightarrow> map_option ((#) 0) (aggregate_below c))
      else None)"

definition match_count_expr :: "bind_env \<Rightarrow> string \<Rightarrow> ColumnBinding \<times> LogicalType \<Rightarrow> rewrite_error + rexpr" where
  "match_count_expr B a bt =
     and_then (BindAggregateByName B ''count'' [snd bt]) (\<lambda>t.
       Inr (AggregateExpr a t ''count'' False [ColumnRefExpr [] (snd bt) (fst bt)] None))"

definition RewriteLeftJoinMatchCount :: "bind_env \<Rightarrow> rplan \<Rightarrow> OuterJoinBindings \<Rightarrow> rewrite_error + rplan" where
  "RewriteLeftJoinMatchCount B plan oj =
     (if rop plan \<noteq> LOGICAL_PROJECTION then Inr plan
      else case aggregate_below plan of
        None \<Rightarrow> Inr plan
      | Some path \<Rightarrow>
          and_then (match_count_expr B MATCH_COUNT_COL (null_side oj)) (\<lambda>e.
          and_then (if is_full_outer oj
                    then and_then (match_count_expr B RIGHT_MATCH_COUNT_COL (left_side oj)) (\<lambda>f. Inr [e, f])
                    else Inr [e]) (\<lambda>added.
          let agg = subplan plan path; k = length (rexprs agg);
              refs = map (\<lambda>j. ColumnRefExpr (expr_alias_of (added ! j)) (return_type (added ! j))
                             (aggregate_index (rinfo agg), k + j)) [0..<length added]
          in Inr (with_exprs (\<lambda>es. es @ refs) (update_at path (with_exprs (\<lambda>es. es @ added)) plan)))))"

definition RewriteOuterJoinSupport :: "bind_env \<Rightarrow> rplan \<Rightarrow> idx_t \<Rightarrow> rewrite_error + rplan \<times> idx_t" where
  "RewriteOuterJoinSupport B plan index =
     (case FindFirstOuterJoinBindings plan of
        None \<Rightarrow> Inr (plan, index)
      | Some oj \<Rightarrow>
          if PlanContainsOperator LOGICAL_AGGREGATE_AND_GROUP_BY plan
          then and_then (RewriteLeftJoinMatchCount B plan oj) (\<lambda>p. Inr (p, index))
          else Inr (RewriteLeftJoinKey plan index oj))"

end
