(* ===== verification/Rewrite_Types.thy ===== *)
theory Rewrite_Types
  imports Rewrite_Correct Rewrite_Passes
begin

text \<open>
  The passes that add columns keep a plan well bound: every column reference of an operator is a
  column that one of its children gives. The columns a plan had stay in place; the passes only add.
\<close>

section \<open>Bindings of built expressions\<close>

lemma concat_pairs: "concat (map f (concat (map (\<lambda>c. [fst c, snd c]) cs))) = concat (map (\<lambda>c. f (fst c) @ f (snd c)) cs)"
  by (induction cs) simp_all

lemma bindings_of_simps [simp]:
  "bindings_of (ConstantExpr a t v) = []"
  "bindings_of (CaseExpr a t cs e) = concat (map (\<lambda>c. bindings_of (fst c) @ bindings_of (snd c)) cs) @ bindings_of e"
  "bindings_of (ComparisonExpr a c x y) = bindings_of x @ bindings_of y"
  "bindings_of (FunctionExpr a t f b es) = concat (map bindings_of es)"
  "bindings_of (AggregateExpr a t f d es fi) = concat (map bindings_of es) @ concat (map bindings_of (opt_list fi))"
  "bindings_of (OperatorExpr a t c2 es) = concat (map bindings_of es)"
  "bindings_of (CastExpr a t e) = bindings_of e"
  "bindings_of (ConjunctionExpr a b es) = concat (map bindings_of es)"
  "bindings_of (ClassExpr a t s es) = concat (map bindings_of es)"
  by (subst bindings_of.simps, simp only: child_exprs.simps own_bindings.simps map_append concat_append
      concat_pairs list.map concat.simps append_Nil append_Nil2)+

lemma bindings_of_set_alias [simp]: "bindings_of (set_alias x e) = bindings_of e"
  by (cases e) simp_all

lemma child_exprs_map: "child_exprs (map_children g e) = map g (child_exprs e)"
  by (cases e) (auto simp: map_concat opt_list_def comp_def split: option.splits)

lemma own_bindings_map: "own_bindings (map_children g e) = own_bindings e"
  by (cases e) simp_all

lemma bindings_of_replace:
  assumes "\<And>a t b. b \<in> set (bindings_of e) \<Longrightarrow>
      set (bindings_of (case f (ColumnRefExpr a t b) of Some x \<Rightarrow> x | None \<Rightarrow> ColumnRefExpr a t b)) \<subseteq> S"
    and only: "\<And>x. f x \<noteq> None \<Longrightarrow> \<exists>a t b. x = ColumnRefExpr a t b"
  shows "set (bindings_of (replace_exprs f e)) \<subseteq> S"
  using assms(1)
proof (induction e rule: bindings_of.induct)
  case (1 e)
  show ?case
  proof (cases "\<exists>a t b. e = ColumnRefExpr a t b")
    case True
    then obtain a t b where e: "e = ColumnRefExpr a t b" by blast
    show ?thesis using "1.prems" [of b a t] by (simp add: e replace_exprs.simps split: option.splits)
  next
    case False
    then have f: "f e = None" and own: "own_bindings e = []" using only by (blast, cases e) auto
    have "set (bindings_of (replace_exprs f c)) \<subseteq> S" if "c \<in> set (child_exprs e)" for c
    proof (rule "1.IH" [OF that])
      fix a t b assume "b \<in> set (bindings_of c)"
      then show "set (bindings_of (case f (ColumnRefExpr a t b) of None \<Rightarrow> ColumnRefExpr a t b | Some x \<Rightarrow> x)) \<subseteq> S"
        using "1.prems" [of b a t] bindings_of_child [OF that] by blast
    qed
    then show ?thesis
      using f own by (subst replace_exprs.simps, subst bindings_of.simps)
        (auto simp: child_exprs_map own_bindings_map)
  qed
qed

section \<open>Well-bound plans\<close>

definition info_exprs :: "rinfo \<Rightarrow> rexpr list" where
  "info_exprs i = group_exprs i @ concat (map (\<lambda>c. [fst (snd c), snd (snd c)]) (rconditions i)) @
     opt_list (join_predicate i)"

text \<open>The shape of an operator: one child below a projection, a filter or an aggregate, two different
  tables for the groups and the aggregates.\<close>

definition well_shaped :: "LogicalOperatorType \<Rightarrow> rinfo \<Rightarrow> rplan list \<Rightarrow> bool" where
  "well_shaped t i cs \<longleftrightarrow>
     (t \<in> {LOGICAL_PROJECTION, LOGICAL_FILTER, LOGICAL_AGGREGATE_AND_GROUP_BY} \<longrightarrow> length cs = 1) \<and>
     (t = LOGICAL_AGGREGATE_AND_GROUP_BY \<longrightarrow> group_table i \<noteq> aggregate_index i) \<and>
     projection_map i = []"

definition bound_in :: "rexpr list \<Rightarrow> rplan list \<Rightarrow> bool" where
  "bound_in es cs \<longleftrightarrow> (\<forall>e\<in>set es. set (bindings_of e) \<subseteq> (\<Union>c\<in>set cs. set (GetColumnBindings c)))"

fun well_bound :: "rplan \<Rightarrow> bool" where
  "well_bound (RPlan t i es cs) \<longleftrightarrow>
     list_all well_bound cs \<and> well_shaped t i cs \<and> bound_in es cs \<and> bound_in (info_exprs i) cs"

text \<open>A rewritten plan still gives the columns of the old one.\<close>

definition extends :: "rplan \<Rightarrow> rplan \<Rightarrow> bool" where
  "extends p p' \<longleftrightarrow> set (GetColumnBindings p) \<subseteq> set (GetColumnBindings p')"

lemma extends_refl [simp]: "extends p p" by (simp add: extends_def)

lemma extends_trans: "extends p q \<Longrightarrow> extends q r \<Longrightarrow> extends p r"
  unfolding extends_def by blast

lemma bindings_indexed [simp]: "fst ` set (indexed x es) = {(x, k) |k. k < length es}"
  by (auto simp: indexed_def image_image)

lemma bindings_project [simp]: "project_columns [] cols = cols"
  by (simp add: project_columns_def)

lemma bound_in_mono:
  assumes "bound_in es cs" and "list_all2 extends cs cs'"
  shows "bound_in es cs'"
proof -
  have "(\<Union>c\<in>set cs. set (GetColumnBindings c)) \<subseteq> (\<Union>c\<in>set cs'. set (GetColumnBindings c))"
    using assms(2) by (fastforce simp: list_all2_conv_all_nth extends_def in_set_conv_nth)
  then show ?thesis using assms(1) by (fastforce simp: bound_in_def)
qed

lemma own_columns_mono:
  assumes len: "length ds' = length ds" and pm: "projection_map i = []"
    and nth: "\<And>k. k < length ds \<Longrightarrow> fst ` set (ds ! k) \<subseteq> fst ` set (ds' ! k)"
  shows "fst ` set (own_columns t i es ds) \<subseteq> fst ` set (own_columns t i es ds')"
proof -
  have one: "fst ` set (hd ds) \<subseteq> fst ` set (hd ds')" if "length ds = 1"
    using nth [of 0] that len by (cases ds; cases ds') auto
  have all: "fst ` set (concat ds) \<subseteq> fst ` set (concat ds')"
  proof
    fix b assume "b \<in> fst ` set (concat ds)"
    then obtain d where "d \<in> set ds" and "b \<in> fst ` set d" by auto
    then obtain k where k: "k < length ds" and "b \<in> fst ` set (ds ! k)" by (metis in_set_conv_nth)
    then have "b \<in> fst ` set (ds' ! k)" using nth [OF k] by blast
    moreover have "ds' ! k \<in> set ds'" using k len by simp
    ultimately show "b \<in> fst ` set (concat ds')" by (simp only: set_concat image_UN) blast
  qed
  have two: "fst ` set (ds ! 0) \<subseteq> fst ` set (ds' ! 0)" "fst ` set (ds ! 1) \<subseteq> fst ` set (ds' ! 1)"
    if "length ds = 2" using nth that by simp_all
  have join: "fst ` set (join_columns i (ds ! 0) (ds ! 1)) \<subseteq> fst ` set (join_columns i (ds' ! 0) (ds' ! 1))"
    if "length ds = 2"
  proof (cases "rjoin_type i")
    case None
    then show ?thesis using two [OF that]
      by (simp add: join_columns_def image_Un le_supI1 le_supI2 subset_insertI2)
  next
    case (Some j)
    then show ?thesis using two [OF that]
      by (cases j) (simp_all add: join_columns_def image_Un le_supI1 le_supI2 subset_insertI2)
  qed
  show ?thesis
  proof (cases "t = LOGICAL_PROJECTION \<or> t = LOGICAL_AGGREGATE_AND_GROUP_BY")
    case True
    then show ?thesis by (auto simp: own_columns_def)
  next
    case False
    then show ?thesis
      unfolding own_columns_def using one all two join pm len by simp
  qed
qed

lemma extends_children:
  assumes "list_all2 extends cs cs'" and "projection_map i = []"
  shows "extends (RPlan t i es cs) (RPlan t i es cs')"
  using assms own_columns_mono [of "map columns_of cs'" "map columns_of cs" i t es]
  by (simp add: extends_def GetColumnBindings_def list_all2_conv_all_nth)

section \<open>Steps of a rewrite\<close>

definition keeps :: "rplan \<Rightarrow> rplan \<Rightarrow> bool" where
  "keeps p p' \<longleftrightarrow> well_bound p' \<and> extends p p'"

lemma keeps_refl: "well_bound p \<Longrightarrow> keeps p p"
  by (simp add: keeps_def)

lemma keeps_trans: "keeps p q \<Longrightarrow> keeps q r \<Longrightarrow> keeps p r"
  by (auto simp: keeps_def intro: extends_trans)

lemma keeps_children:
  assumes "well_bound (RPlan t i es cs)" and "list_all2 keeps cs cs'"
  shows "keeps (RPlan t i es cs) (RPlan t i es cs')"
proof -
  have ext: "list_all2 extends cs cs'" and wb: "list_all well_bound cs'"
    using assms(2) by (auto simp: keeps_def list_all2_conv_all_nth list_all_length)
  have "well_shaped t i cs'" using assms by (simp add: well_shaped_def list_all2_lengthD)
  moreover have "projection_map i = []" using assms(1) by (simp add: well_shaped_def)
  ultimately show ?thesis
    using assms(1) wb bound_in_mono [OF _ ext] extends_children [OF ext] by (simp add: keeps_def)
qed

lemma keeps_exprs:
  assumes "well_bound (RPlan t i es cs)" and "bound_in es' cs" and "length es \<le> length es'"
    and "t = LOGICAL_PROJECTION \<or> t = LOGICAL_AGGREGATE_AND_GROUP_BY"
  shows "keeps (RPlan t i es cs) (RPlan t i es' cs)"
  using assms by (auto simp: keeps_def extends_def GetColumnBindings_def own_columns_def image_Un)

section \<open>Filters of aggregates\<close>

lemma filter_as_case_bindings:
  "filter_as_case B e = Inr e' \<Longrightarrow> set (bindings_of e') \<subseteq> set (bindings_of e)"
  by (auto simp: filter_as_case_def count_of_case_def and_then_Inr opt_list_def
      split: rexpr.splits option.splits if_splits list.splits)

lemma aggregate_filters_keep:
  "RewriteAggregateFilters B p = Inr p' \<Longrightarrow> well_bound p \<Longrightarrow> keeps p p'"
proof (induction p arbitrary: p' rule: rplan_induct)
  case (RPlan t i es cs)
  obtain cs' where cs: "list_all2 (\<lambda>c c'. RewriteAggregateFilters B c = Inr c') cs cs'"
    and rest: "(if t \<noteq> LOGICAL_AGGREGATE_AND_GROUP_BY then Inr (RPlan t i es cs')
      else and_then (traverse (filter_as_case B) es) (\<lambda>es'. Inr (RPlan t i es' cs'))) = Inr p'"
    using RPlan.prems(1) by (auto simp: and_then_Inr traverse_Inr)
  have "list_all2 keeps cs cs'"
    using cs RPlan.IH RPlan.prems(2) by (auto simp: list_all2_conv_all_nth list_all_length)
  then have kept: "keeps (RPlan t i es cs) (RPlan t i es cs')" by (rule keeps_children [OF RPlan.prems(2)])
  show ?case
  proof (cases "t = LOGICAL_AGGREGATE_AND_GROUP_BY")
    case True
    then obtain es' where es: "list_all2 (\<lambda>e e'. filter_as_case B e = Inr e') es es'"
      and p': "p' = RPlan t i es' cs'"
      using rest by (auto simp: and_then_Inr traverse_Inr)
    have "bound_in es cs'" using kept by (simp add: keeps_def)
    then have "bound_in es' cs'"
      unfolding bound_in_def
    proof (intro ballI)
      fix e' assume "e' \<in> set es'"
      then obtain k where "k < length es'" "e' = es' ! k" by (auto simp: in_set_conv_nth)
      then have "filter_as_case B (es ! k) = Inr e'" "es ! k \<in> set es"
        using es by (auto simp: list_all2_conv_all_nth)
      then show "set (bindings_of e') \<subseteq> (\<Union>c\<in>set cs'. set (GetColumnBindings c))"
        using filter_as_case_bindings [of B "es ! k" e'] \<open>bound_in es cs'\<close> by (auto simp: bound_in_def)
    qed
    then have "keeps (RPlan t i es cs') p'"
      unfolding p' using kept True es by (intro keeps_exprs) (simp_all add: keeps_def list_all2_lengthD)
    then show ?thesis using kept keeps_trans by blast
  next
    case False
    then show ?thesis using rest kept by simp
  qed
qed

section \<open>Derived aggregates\<close>

lemma bindings_part_ref:
  "k < length es \<Longrightarrow> bindings_of (part_ref (split_columns gi gs ai es) (length gs) a k) = [(ai, k)]"
  by (simp add: part_ref_def split_columns_def nth_append indexed_def)

lemma parts_in_range:
  assumes "has_parts es d e"
  shows "sum_idx d < length es" "count_idx d < length es" "\<not> is_avg_decomp d \<Longrightarrow> sum_sq_idx d < length es"
  using assms by (auto simp: has_parts_def has_part_def)

lemma bindings_replacement:
  assumes "has_parts es d e"
  shows "set (bindings_of (build_replacement B (split_columns gi gs ai es) (length gs) d)) \<subseteq> {(ai, k) |k. k < length es}"
  using parts_in_range [OF assms]
  by (auto simp: build_replacement_def BindScalarFunction_def bindings_part_ref Let_def)

lemma bindings_hidden:
  assumes "has_parts es d e" and "x \<in> set (hidden_refs (split_columns gi gs ai es) (length gs) d)"
  shows "set (bindings_of x) \<subseteq> {(ai, k) |k. k < length es}"
  using parts_in_range [OF assms(1)] assms(2)
  by (auto simp: hidden_refs_def bindings_part_ref Let_def split: if_splits)

lemma decompose_bindings:
  assumes "decompose_from B i es s = Inr s'" and "\<forall>x\<in>set (new_exprs s). set (bindings_of x) \<subseteq> S"
    and "\<forall>x\<in>set es. set (bindings_of x) \<subseteq> S"
  shows "(\<forall>x\<in>set (new_exprs s'). set (bindings_of x) \<subseteq> S) \<and>
    length (new_exprs s) + length es \<le> length (new_exprs s')"
  using assms
proof (induction es arbitrary: i s)
  case (Cons e es)
  obtain s1 where s1: "decompose_expr B i e s = Inr s1" and rest: "decompose_from B (Suc i) es s1 = Inr s'"
    using Cons.prems(1) by (auto simp: and_then_Inr)
  have "(\<forall>x\<in>set (new_exprs s1). set (bindings_of x) \<subseteq> S) \<and> length (new_exprs s) < length (new_exprs s1)"
  proof (cases "\<exists>a t f d x xs fi. e = AggregateExpr a t f d (x # xs) fi \<and> (f = ''avg'' \<or> IsStddevOrVariance f)")
    case False
    then have "s1 = keep_expr i e s" using s1
      by (auto simp: decompose_expr_def split: rexpr.splits list.splits if_splits)
    then show ?thesis using Cons.prems by (simp add: keep_expr_def)
  next
    case True
    then obtain a t f d x xs fi where e: "e = AggregateExpr a t f d (x # xs) fi"
      and "f = ''avg'' \<or> IsStddevOrVariance f" by blast
    then have "decompose_derived B i a f x s = Inr s1" and "set (bindings_of x) \<subseteq> S"
      using s1 Cons.prems(3) by (auto simp: decompose_expr_def)
    then obtain fs where fs: "new_exprs s1 = new_exprs s @ fs" "fs \<noteq> []"
      "\<forall>y\<in>set fs. set (bindings_of y) = set (bindings_of x)"
      by (auto simp: decompose_derived_def and_then_Inr push_expr_def BindScalarFunction_def opt_list_def Let_def
          split: if_splits)
    then show ?thesis using Cons.prems(2) \<open>set (bindings_of x) \<subseteq> S\<close> by auto
  qed
  then show ?case using Cons.IH [OF rest] Cons.prems(3) by auto
qed simp

lemma rewrite_projection_bindings:
  assumes inv: "decomposed aggs s" and small: "length aggs < 2 ^ 64" and long: "length aggs \<le> length (new_exprs s)"
    and old: "\<forall>e\<in>set es. set (bindings_of e) \<subseteq>
      {(group_table a, k) |k. k < length (group_exprs a)} \<union> {(aggregate_index a, k) |k. k < length aggs}"
    and ne: "group_table a \<noteq> aggregate_index a"
    and x: "x \<in> set (rewrite_projection B a s es)"
  shows "set (bindings_of x) \<subseteq>
    {(group_table a, k) |k. k < length (group_exprs a)} \<union> {(aggregate_index a, k) |k. k < length (new_exprs s)}"
    (is "_ \<subseteq> ?S")
proof -
  let ?s = "renamed (aggregate_index a) es s"
  let ?cols = "split_columns (group_table a) (group_exprs a) (aggregate_index a) (new_exprs ?s)"
  let ?f = "walk_ref (aggregate_index a) (build_replacement B ?cols (length (group_exprs a))) ?s"
  have inv': "decomposed aggs ?s" by (rule decomposed_renamed [OF inv])
  have same: "new_exprs ?s = new_exprs s" by (simp add: renamed_def)
  have "x \<in> replace_exprs ?f ` set es \<or>
      (\<exists>d\<in>set (decomps ?s). x \<in> set (hidden_refs ?cols (length (group_exprs a)) d))"
    using x by (auto simp: rewrite_projection_def renamed_def split_columns_def Let_def)
  then consider e where "e \<in> set es" "x = replace_exprs ?f e"
    | d where "d \<in> set (decomps ?s)" "x \<in> set (hidden_refs ?cols (length (group_exprs a)) d)" by blast
  then show ?thesis
  proof cases
    case (1 e)
    show ?thesis unfolding 1(2)
    proof (rule bindings_of_replace)
      fix y t b assume "b \<in> set (bindings_of e)"
      then have b: "b \<in> {(group_table a, k) |k. k < length (group_exprs a)} \<union> {(aggregate_index a, k) |k. k < length aggs}"
        using old 1(1) by blast
      show "set (bindings_of (case ?f (ColumnRefExpr y t b) of None \<Rightarrow> ColumnRefExpr y t b | Some z \<Rightarrow> z)) \<subseteq> ?S"
      proof (cases "fst b = aggregate_index a")
        case False
        then show ?thesis using b by (auto simp: walk_ref_def)
      next
        case True
        then obtain k where k: "b = (aggregate_index a, k)" "k < length aggs" using b ne by auto
        note look = lookup_decomposed [OF inv' k(2) small, of "aggregate_index a"]
        show ?thesis
        proof (cases "decomposable (aggs ! k)")
          case True
          then obtain d where d: "decomp_lookup (aggregate_index a) (decomps ?s) (aggregate_index a, k) = Some d"
            "has_parts (new_exprs ?s) d (aggs ! k)" using look by auto
          then show ?thesis
            using bindings_replacement [OF d(2), of B "group_table a" "group_exprs a" "aggregate_index a"]
            by (auto simp: walk_ref_def k same)
        next
          case False
          then obtain n where "decomp_lookup (aggregate_index a) (decomps ?s) (aggregate_index a, k) = None"
            "map_of (nondecomposed_remap ?s) k = Some n" "n < length (new_exprs s)"
            using look by (auto simp: same)
          then show ?thesis using k(2) long by (cases "n = k") (auto simp: walk_ref_def k(1))
        qed
      qed
    next
      fix y assume "?f y \<noteq> None"
      then show "\<exists>a t b. y = ColumnRefExpr a t b" by (auto simp: walk_ref_def split: rexpr.splits)
    qed
  next
    case (2 d)
    then have "has_parts (new_exprs ?s) d (aggs ! old_idx d)" using inv' by (simp add: decomposed_def)
    then show ?thesis using bindings_hidden [OF _ 2(2)] by (auto simp: same)
  qed
qed

text \<open>What the columns of an aggregate, a filter over it and the decomposition are.\<close>

definition aggregate_bindings :: "rinfo \<Rightarrow> nat \<Rightarrow> ColumnBinding set" where
  "aggregate_bindings a n = {(group_table a, k) |k. k < length (group_exprs a)} \<union> {(aggregate_index a, k) |k. k < n}"

lemma aggregate_columns_set:
  "set (GetColumnBindings (RPlan LOGICAL_AGGREGATE_AND_GROUP_BY a aggs ks)) = aggregate_bindings a (length aggs)"
  by (auto simp: GetColumnBindings_def own_columns_def aggregate_bindings_def image_Un)

lemma filter_columns_set:
  "projection_map i = [] \<Longrightarrow> GetColumnBindings (RPlan LOGICAL_FILTER i fs [c]) = GetColumnBindings c"
  by (simp add: GetColumnBindings_def own_columns_def)

lemma split_aggregate_keeps:
  assumes wb: "well_bound (RPlan LOGICAL_AGGREGATE_AND_GROUP_BY a aggs ks)"
    and s: "decompose_from B 0 aggs \<lparr>new_exprs = [], decomps = [], nondecomposed_remap = []\<rparr> = Inr s"
  shows "keeps (RPlan LOGICAL_AGGREGATE_AND_GROUP_BY a aggs ks) (RPlan LOGICAL_AGGREGATE_AND_GROUP_BY a (new_exprs s) ks)"
    and "length aggs \<le> length (new_exprs s)"
proof -
  let ?S = "\<Union>c\<in>set ks. set (GetColumnBindings c)"
  have "\<forall>x\<in>set aggs. set (bindings_of x) \<subseteq> ?S" using wb unfolding well_bound.simps bound_in_def by blast
  note aggs = this
  let ?s0 = "\<lparr>new_exprs = [], decomps = [], nondecomposed_remap = []\<rparr>"
  have split: "(\<forall>x\<in>set (new_exprs s). set (bindings_of x) \<subseteq> ?S) \<and>
      length (new_exprs ?s0) + length aggs \<le> length (new_exprs s)"
    by (rule decompose_bindings [OF s _ aggs]) simp
  have new: "bound_in (new_exprs s) ks" unfolding bound_in_def by (rule conjunct1 [OF split])
  have len: "length aggs \<le> length (new_exprs s)" using conjunct2 [OF split] by simp
  show "length aggs \<le> length (new_exprs s)" by (rule len)
  show "keeps (RPlan LOGICAL_AGGREGATE_AND_GROUP_BY a aggs ks) (RPlan LOGICAL_AGGREGATE_AND_GROUP_BY a (new_exprs s) ks)"
    by (rule keeps_exprs [OF wb new len]) simp
qed

text \<open>A projection over an aggregate, directly or over its \<open>HAVING\<close> filter: what the pointer finds,
  and what replacing the expressions of both comes to.\<close>

definition over_aggregate :: "nat list \<Rightarrow> rplan \<Rightarrow> rinfo \<Rightarrow> rexpr list \<Rightarrow> rplan \<Rightarrow> rinfo \<Rightarrow> rexpr list \<Rightarrow> rplan list \<Rightarrow> bool" where
  "over_aggregate path plan i es c a aggs ks \<longleftrightarrow>
     plan = RPlan LOGICAL_PROJECTION i es [c] \<and>
     subplan plan path = RPlan LOGICAL_AGGREGATE_AND_GROUP_BY a aggs ks \<and>
     well_bound (RPlan LOGICAL_AGGREGATE_AND_GROUP_BY a aggs ks) \<and>
     set (GetColumnBindings c) = aggregate_bindings a (length aggs) \<and>
     (\<forall>aggs'. keeps (RPlan LOGICAL_AGGREGATE_AND_GROUP_BY a aggs ks) (RPlan LOGICAL_AGGREGATE_AND_GROUP_BY a aggs' ks) \<longrightarrow>
       (\<exists>c'. update_at path (with_exprs (\<lambda>_. aggs')) plan = RPlan LOGICAL_PROJECTION i es [c'] \<and> keeps c c' \<and>
         set (GetColumnBindings c') = aggregate_bindings a (length aggs')))"

lemma found_aggregate:
  assumes wb: "well_bound plan" and find: "FindProjectionAggregateInput plan allow = Some path"
  shows "\<exists>i es c a aggs ks. over_aggregate path plan i es c a aggs ks"
proof -
  obtain t i es cs where plan: "plan = RPlan t i es cs" by (cases plan)
  have t: "t = LOGICAL_PROJECTION" and "cs \<noteq> []"
    using find by (auto simp: plan FindProjectionAggregateInput_def split: if_splits)
  then obtain c where cs: "cs = [c]" using wb by (cases cs) (auto simp: plan well_shaped_def)
  have c: "well_bound c" using wb by (simp add: plan cs)
  consider (direct) "path = [0]" "rop c = LOGICAL_AGGREGATE_AND_GROUP_BY"
    | (having) "path = [0, 0]" "rop c = LOGICAL_FILTER" "rkids c \<noteq> []"
        "rop (hd (rkids c)) = LOGICAL_AGGREGATE_AND_GROUP_BY"
    using find by (auto simp: plan cs FindProjectionAggregateInput_def Let_def split: if_splits)
  then show ?thesis
  proof cases
    case direct
    then obtain a aggs ks where agg: "c = RPlan LOGICAL_AGGREGATE_AND_GROUP_BY a aggs ks" by (cases c) auto
    have "over_aggregate path plan i es c a aggs ks"
      using c by (simp add: over_aggregate_def plan t cs agg direct(1) aggregate_columns_set with_exprs_def)
    then show ?thesis by blast
  next
    case having
    then obtain fi fs gs where f: "c = RPlan LOGICAL_FILTER fi fs gs" by (cases c) auto
    then obtain g where gs: "gs = [g]" using c by (cases gs) (auto simp: well_shaped_def)
    then obtain a aggs ks where agg: "g = RPlan LOGICAL_AGGREGATE_AND_GROUP_BY a aggs ks"
      using having(4) by (cases g) (auto simp: f)
    have pm: "projection_map fi = []" using c by (simp add: f well_shaped_def)
    have kept: "keeps c (RPlan LOGICAL_FILTER fi fs [q])" if "keeps g q" for q
      unfolding f gs by (rule keeps_children [OF c [unfolded f gs]]) (simp add: that)
    have "over_aggregate path plan i es c a aggs ks"
      using c kept by (simp add: over_aggregate_def plan t cs f gs agg having(1) aggregate_columns_set with_exprs_def
          filter_columns_set [OF pm])
    then show ?thesis by blast
  qed
qed

lemma replaced_pair_keeps:
  assumes wb: "well_bound (RPlan LOGICAL_PROJECTION i es [c])" and c: "keeps c c'"
    and cols: "set (GetColumnBindings c') = aggregate_bindings a n"
    and es': "\<forall>e\<in>set es'. set (bindings_of e) \<subseteq> aggregate_bindings a n" and len: "length es \<le> length es'"
  shows "keeps (RPlan LOGICAL_PROJECTION i es [c]) (RPlan LOGICAL_PROJECTION i es' [c'])"
proof -
  have first: "keeps (RPlan LOGICAL_PROJECTION i es [c]) (RPlan LOGICAL_PROJECTION i es [c'])"
    by (rule keeps_children [OF wb]) (simp add: c)
  then have "keeps (RPlan LOGICAL_PROJECTION i es [c']) (RPlan LOGICAL_PROJECTION i es' [c'])"
    using es' cols len by (intro keeps_exprs) (auto simp: keeps_def bound_in_def)
  then show ?thesis using first keeps_trans by blast
qed

lemma derive_at_keeps:
  assumes wb: "well_bound plan" and find: "FindProjectionAggregateInput plan is_top = Some path"
    and derive: "derive_at B path plan = Inr p'" and small: "length (rexprs (subplan plan path)) < 2 ^ 64"
  shows "keeps plan p'"
proof (cases "list_ex is_derived (rexprs (subplan plan path))")
  case False
  then have "p' = plan" using derive by (simp add: derive_at_def Let_def)
  then show ?thesis using wb keeps_refl by simp
next
  case True
  obtain i es c a aggs ks where over: "over_aggregate path plan i es c a aggs ks"
    using found_aggregate [OF wb find] by blast
  note plan = over [unfolded over_aggregate_def, THEN conjunct1]
  have agg: "subplan plan path = RPlan LOGICAL_AGGREGATE_AND_GROUP_BY a aggs ks"
    and wb_agg: "well_bound (RPlan LOGICAL_AGGREGATE_AND_GROUP_BY a aggs ks)"
    and cols: "set (GetColumnBindings c) = aggregate_bindings a (length aggs)"
    using over unfolding over_aggregate_def by blast+
  note upd = over [unfolded over_aggregate_def, THEN conjunct2, THEN conjunct2, THEN conjunct2, THEN conjunct2,
      rule_format]
  obtain s where s: "decompose_from B 0 aggs \<lparr>new_exprs = [], decomps = [], nondecomposed_remap = []\<rparr> = Inr s"
    and p': "p' = with_exprs (rewrite_projection B a s) (update_at path (with_exprs (\<lambda>_. new_exprs s)) plan)"
    using derive True by (auto simp: derive_at_def and_then_Inr agg Let_def)
  note split = split_aggregate_keeps [OF wb_agg s]
  obtain c' where c': "update_at path (with_exprs (\<lambda>_. new_exprs s)) plan = RPlan LOGICAL_PROJECTION i es [c']"
    "keeps c c'" "set (GetColumnBindings c') = aggregate_bindings a (length (new_exprs s))"
    using upd [OF split(1)] by blast
  have ne: "group_table a \<noteq> aggregate_index a" using wb_agg by (simp add: well_shaped_def)
  have old: "\<forall>e\<in>set es. set (bindings_of e) \<subseteq>
      {(group_table a, k) |k. k < length (group_exprs a)} \<union> {(aggregate_index a, k) |k. k < length aggs}"
    using wb cols by (simp add: plan bound_in_def aggregate_bindings_def)
  have "\<forall>x\<in>set (rewrite_projection B a s es). set (bindings_of x) \<subseteq> aggregate_bindings a (length (new_exprs s))"
    unfolding aggregate_bindings_def
    using rewrite_projection_bindings [OF decompose_all_decomposed [OF s] _ split(2) old ne] small
    by (simp add: agg)
  then have "keeps (RPlan LOGICAL_PROJECTION i es [c]) (RPlan LOGICAL_PROJECTION i (rewrite_projection B a s es) [c'])"
    by (intro replaced_pair_keeps [OF wb [unfolded plan] c'(2,3)] length_rewrite_projection)
  then show ?thesis unfolding p' c'(1) by (simp add: plan with_exprs_def)
qed

fun small_aggregates :: "rplan \<Rightarrow> bool" where
  "small_aggregates (RPlan t i es cs) \<longleftrightarrow>
     (t = LOGICAL_AGGREGATE_AND_GROUP_BY \<longrightarrow> length es < 2 ^ 64) \<and> list_all small_aggregates cs"

lemma derived_other_node:
  assumes "RewriteDerivedAggregates B is_top p = Inr q" and "rop p \<noteq> LOGICAL_PROJECTION"
  shows "rop q = rop p \<and> rexprs q = rexprs p \<and>
    list_all2 (\<lambda>c c'. RewriteDerivedAggregates B False c = Inr c') (rkids p) (rkids q)"
  using assms by (cases p) (auto simp: and_then_Inr traverse_Inr FindProjectionAggregateInput_def Let_def)

lemma derived_projection_node:
  assumes "RewriteDerivedAggregates B is_top p = Inr q" and "rop p = LOGICAL_PROJECTION"
  shows "rop q = LOGICAL_PROJECTION"
  using assms by (cases p) (auto simp: and_then_Inr Let_def FindProjectionAggregateInput_def derive_at_def
      with_exprs_def split: option.splits if_splits)

lemma derived_small:
  assumes "RewriteDerivedAggregates B is_top p = Inr q" and "small_aggregates p" and "rop q = LOGICAL_AGGREGATE_AND_GROUP_BY"
  shows "length (rexprs q) < 2 ^ 64"
proof -
  have "rop p \<noteq> LOGICAL_PROJECTION" using derived_projection_node [OF assms(1)] assms(3) by auto
  then show ?thesis using derived_other_node [OF assms(1)] assms(2,3) by (cases p) auto
qed

lemma derived_aggregates_keep:
  "RewriteDerivedAggregates B is_top p = Inr p' \<Longrightarrow> well_bound p \<Longrightarrow> small_aggregates p \<Longrightarrow> keeps p p'"
proof (induction p arbitrary: is_top p' rule: rplan_induct)
  case (RPlan t i es cs)
  obtain cs' where cs: "list_all2 (\<lambda>c c'. RewriteDerivedAggregates B False c = Inr c') cs cs'"
    and rest: "(case FindProjectionAggregateInput (RPlan t i es cs') is_top of
        None \<Rightarrow> Inr (RPlan t i es cs') | Some path \<Rightarrow> derive_at B path (RPlan t i es cs')) = Inr p'"
    using RPlan.prems(1) by (auto simp: and_then_Inr traverse_Inr Let_def)
  have "list_all2 keeps cs cs'"
    using cs RPlan.IH RPlan.prems(2,3) by (auto simp: list_all2_conv_all_nth list_all_length)
  then have kept: "keeps (RPlan t i es cs) (RPlan t i es cs')" by (rule keeps_children [OF RPlan.prems(2)])
  show ?case
  proof (cases "FindProjectionAggregateInput (RPlan t i es cs') is_top")
    case None
    then show ?thesis using rest kept by simp
  next
    case (Some path)
    have hd: "RewriteDerivedAggregates B False (hd cs) = Inr (hd cs')" "small_aggregates (hd cs)" if "cs' \<noteq> []"
      using cs that RPlan.prems(3) by (cases cs; cases cs'; simp)+
    have "length (rexprs (subplan (RPlan t i es cs') path)) < 2 ^ 64"
    proof (cases "rop (hd cs') = LOGICAL_AGGREGATE_AND_GROUP_BY")
      case True
      then have "path = [0]" "cs' \<noteq> []"
        using Some by (auto simp: FindProjectionAggregateInput_def Let_def split: if_splits)
      then show ?thesis using derived_small [OF hd True] by (cases cs') auto
    next
      case False
      then have path: "path = [0, 0]" "cs' \<noteq> []" "rop (hd cs') = LOGICAL_FILTER" "rkids (hd cs') \<noteq> []"
        "rop (hd (rkids (hd cs'))) = LOGICAL_AGGREGATE_AND_GROUP_BY"
        using Some by (auto simp: FindProjectionAggregateInput_def Let_def split: if_splits)
      have "rop (hd cs) \<noteq> LOGICAL_PROJECTION"
        using derived_projection_node [OF hd(1) [OF path(2)]] path(3) by auto
      then have "list_all2 (\<lambda>c c'. RewriteDerivedAggregates B False c = Inr c') (rkids (hd cs)) (rkids (hd cs'))"
        using derived_other_node [OF hd(1) [OF path(2)]] by simp
      then have "RewriteDerivedAggregates B False (hd (rkids (hd cs))) = Inr (hd (rkids (hd cs')))"
        "small_aggregates (hd (rkids (hd cs)))"
        using path(4) hd(2) [OF path(2)] by (cases "hd cs"; cases "rkids (hd cs)"; cases "rkids (hd cs')"; auto)+
      then have "length (rexprs (hd (rkids (hd cs')))) < 2 ^ 64" using derived_small path(5) by blast
      then show ?thesis using path by (cases cs'; cases "hd cs'"; cases "rkids (hd cs')") auto
    qed
    moreover have "derive_at B path (RPlan t i es cs') = Inr p'" using rest Some by simp
    ultimately have "keeps (RPlan t i es cs') p'"
      using derive_at_keeps [OF _ Some] kept by (auto simp: keeps_def)
    then show ?thesis using kept keeps_trans by blast
  qed
qed

section \<open>The hidden count and the carried columns\<close>

lemma with_exprs_const: "rexprs p = es \<Longrightarrow> with_exprs f p = with_exprs (\<lambda>_. f es) p"
  by (simp add: with_exprs_def)

lemma update_at_same: "f (subplan p path) = g (subplan p path) \<Longrightarrow> update_at path f p = update_at path g p"
proof (induction path arbitrary: p)
  case (Cons k ks)
  then show ?case by (cases p) auto
qed simp

lemma count_star_keeps:
  assumes wb: "well_bound plan"
  shows "keeps plan (InjectGroupCountStar plan)"
proof (cases "FindProjectionAggregateInput plan True")
  case None
  then show ?thesis using wb by (simp add: InjectGroupCountStar_def keeps_refl)
next
  case (Some path)
  obtain i es c a aggs ks where over: "over_aggregate path plan i es c a aggs ks"
    using found_aggregate [OF wb Some] by blast
  note plan = over [unfolded over_aggregate_def, THEN conjunct1]
  have agg: "subplan plan path = RPlan LOGICAL_AGGREGATE_AND_GROUP_BY a aggs ks"
    and wb_agg: "well_bound (RPlan LOGICAL_AGGREGATE_AND_GROUP_BY a aggs ks)"
    and cols: "set (GetColumnBindings c) = aggregate_bindings a (length aggs)"
    using over unfolding over_aggregate_def by blast+
  note upd = over [unfolded over_aggregate_def, THEN conjunct2, THEN conjunct2, THEN conjunct2, THEN conjunct2,
      rule_format]
  let ?aggs = "aggs @ [count_star_expr COUNT_STAR_COL]"
  let ?es = "es @ [ColumnRefExpr COUNT_STAR_COL TypeBigint (aggregate_index a, length aggs)]"
  have "bound_in aggs ks" using wb_agg by simp
  then have new: "bound_in ?aggs ks" by (simp add: bound_in_def count_star_expr_def opt_list_def)
  have "keeps (RPlan LOGICAL_AGGREGATE_AND_GROUP_BY a aggs ks) (RPlan LOGICAL_AGGREGATE_AND_GROUP_BY a ?aggs ks)"
    by (rule keeps_exprs [OF wb_agg new]) simp_all
  then obtain c' where c': "update_at path (with_exprs (\<lambda>_. ?aggs)) plan = RPlan LOGICAL_PROJECTION i es [c']"
    "keeps c c'" "set (GetColumnBindings c') = aggregate_bindings a (length ?aggs)"
    using upd by blast
  have "\<forall>e\<in>set es. set (bindings_of e) \<subseteq> aggregate_bindings a (length aggs)"
    using wb cols by (simp add: plan bound_in_def)
  then have es: "\<forall>e\<in>set ?es. set (bindings_of e) \<subseteq> aggregate_bindings a (length ?aggs)"
    by (fastforce simp: aggregate_bindings_def)
  have kept: "keeps plan (RPlan LOGICAL_PROJECTION i ?es [c'])"
    unfolding plan by (rule replaced_pair_keeps [OF wb [unfolded plan] c'(2,3) es]) simp
  have "update_at path (with_exprs (\<lambda>es. es @ [count_star_expr COUNT_STAR_COL])) plan = RPlan LOGICAL_PROJECTION i es [c']"
    unfolding c'(1) [symmetric] by (rule update_at_same) (simp add: agg with_exprs_def)
  then show ?thesis
    using kept wb keeps_refl
    by (auto simp: InjectGroupCountStar_def Some agg with_exprs_def Let_def)
qed

lemma propagation_keeps:
  "well_bound p \<Longrightarrow> keeps p (PropagateHiddenAggregateColumns p)"
proof (induction p rule: rplan_induct)
  case (RPlan t i es cs)
  let ?cs = "map PropagateHiddenAggregateColumns cs"
  have "list_all2 keeps cs ?cs"
    using RPlan by (auto simp: list_all2_conv_all_nth list_all_length)
  then have kept: "keeps (RPlan t i es cs) (RPlan t i es ?cs)" by (rule keeps_children [OF RPlan.prems])
  show ?case
  proof (cases "t \<noteq> LOGICAL_PROJECTION \<or> ?cs = [] \<or> rop (hd ?cs) \<noteq> LOGICAL_PROJECTION")
    case True
    then show ?thesis using kept by (simp only: PropagateHiddenAggregateColumns.simps Let_def if_True)
  next
    case False
    then have hd: "hd ?cs \<in> set ?cs" by (intro hd_in_set) blast
    have "set (bindings_of e) \<subseteq> set (GetColumnBindings (hd ?cs))" if "e \<in> set (carried_refs (hd ?cs) es)" for e
      using that by (auto simp: carried_refs_def GetColumnBindings_def Let_def dest!: set_zip_rightD intro: rev_image_eqI)
    then have "set (bindings_of e) \<subseteq> (\<Union>c\<in>set ?cs. set (GetColumnBindings c))" if "e \<in> set (carried_refs (hd ?cs) es)" for e
      using that hd by blast
    moreover have "bound_in es ?cs" using kept by (simp add: keeps_def)
    ultimately have "bound_in (es @ carried_refs (hd ?cs) es) ?cs" by (auto simp: bound_in_def simp del: set_map)
    then have "keeps (RPlan t i es ?cs) (RPlan t i (es @ carried_refs (hd ?cs) es) ?cs)"
      using kept False by (intro keeps_exprs) (auto simp: keeps_def)
    then show ?thesis using kept keeps_trans False
      by (simp only: PropagateHiddenAggregateColumns.simps Let_def if_False)
  qed
qed

end
