(* ===== verification/Rewrite_Constants.thy ===== *)
theory Rewrite_Constants
  imports Rewrite_Passes
begin

text \<open>
  The folding of constant scalar subqueries in \<open>src/core/plan_rewrite.cpp\<close>: a cross product with a
  side that has exactly one row of constants loses that side, and its columns become literals
  everywhere in the plan. And the inlining of the references to a materialized CTE.
\<close>

section \<open>Folding an expression\<close>

text \<open>DuckDB evaluates an expression (\<open>TryEvaluateScalar\<close>), says whether it is foldable and volatile,
  and casts a value to a type.\<close>

record folder =
  TryEvaluateScalar :: "rexpr \<Rightarrow> scalar option"
  IsVolatile :: "rexpr \<Rightarrow> bool"
  IsFoldableExpr :: "rexpr \<Rightarrow> bool"
  DefaultCastAs :: "scalar \<Rightarrow> LogicalType \<Rightarrow> scalar"

type_synonym binding_values = "(ColumnBinding \<times> scalar) list"

definition constant_for :: "folder \<Rightarrow> binding_values \<Rightarrow> rexpr \<Rightarrow> rexpr option" where
  "constant_for F consts e =
     (case e of
        ColumnRefExpr a t b \<Rightarrow> map_option (\<lambda>v. ConstantExpr [] t (DefaultCastAs F v t)) (map_of consts b)
      | _ \<Rightarrow> None)"

definition SubstituteConstants :: "folder \<Rightarrow> binding_values \<Rightarrow> rexpr \<Rightarrow> rexpr" where
  "SubstituteConstants F consts e = replace_exprs (constant_for F consts) e"

text \<open>\<open>CASE\<close> is folded lazily: a branch that is not taken is not looked at.\<close>

definition truth_of :: "scalar \<Rightarrow> bool" where
  "truth_of v \<longleftrightarrow> v = SBool True"

fun fold_checks :: "(rexpr \<Rightarrow> scalar option) \<Rightarrow> (rexpr \<times> rexpr) list \<Rightarrow> rexpr \<Rightarrow> scalar option" where
  "fold_checks f [] e = f e"
| "fold_checks f (c # cs) e =
     (case f (fst c) of None \<Rightarrow> None
      | Some v \<Rightarrow> if truth_of v then f (snd c) else fold_checks f cs e)"

lemma fold_checks_cong [fundef_cong]:
  "cs = cs' \<Longrightarrow> e = e' \<Longrightarrow> (\<And>c. c \<in> set cs' \<Longrightarrow> f (fst c) = g (fst c)) \<Longrightarrow>
   (\<And>c. c \<in> set cs' \<Longrightarrow> f (snd c) = g (snd c)) \<Longrightarrow> f e' = g e' \<Longrightarrow>
   fold_checks f cs e = fold_checks g cs' e'"
proof (induction cs' arbitrary: cs)
  case (Cons c cs')
  have "f (fst c) = g (fst c)" "f (snd c) = g (snd c)" using Cons.prems by auto
  moreover have "fold_checks f cs' e = fold_checks g cs' e'" by (rule Cons.IH) (use Cons.prems in auto)
  ultimately show ?case using Cons.prems by (auto split: option.splits)
qed simp

fun TryFoldConstExpr :: "folder \<Rightarrow> rexpr \<Rightarrow> scalar option" where
  "TryFoldConstExpr F (CaseExpr a t cs e) = fold_checks (TryFoldConstExpr F) cs e"
| "TryFoldConstExpr F e =
     (if IsVolatile F e \<or> \<not> IsFoldableExpr F e then None else TryEvaluateScalar F e)"

definition SubstituteAndFold :: "folder \<Rightarrow> rexpr \<Rightarrow> binding_values \<Rightarrow> scalar option" where
  "SubstituteAndFold F e consts = TryFoldConstExpr F (SubstituteConstants F consts e)"

section \<open>Constant subtrees\<close>

fun fold_columns :: "(rexpr \<Rightarrow> scalar option) \<Rightarrow> idx_t \<Rightarrow> nat \<Rightarrow> rexpr list \<Rightarrow> binding_values option" where
  "fold_columns f index i [] = Some []"
| "fold_columns f index i (e # es) =
     (case f e of None \<Rightarrow> None
      | Some v \<Rightarrow> map_option ((#) ((index, i), v)) (fold_columns f index (Suc i) es))"

definition fold_guard_aggregate :: "folder \<Rightarrow> binding_values \<Rightarrow> rexpr \<Rightarrow> scalar option" where
  "fold_guard_aggregate F child e =
     (case e of
        AggregateExpr a t f d args fi \<Rightarrow>
          if fi \<noteq> None then None
          else if f = ''count_star'' \<and> args = [] then Some (SNum 1)
          else if f = ''first'' \<and> length args = 1 then SubstituteAndFold F (hd args) child
          else None
      | _ \<Rightarrow> None)"

text \<open>The columns of a reference to a constant definition, by position.\<close>

definition cte_columns :: "rinfo \<Rightarrow> ColumnBinding list \<Rightarrow> binding_values \<Rightarrow> binding_values option" where
  "cte_columns i def_bindings def_out =
     (let cols = min (length (opaque_columns i)) (length def_bindings)
      in if list_all (\<lambda>k. map_of def_out (def_bindings ! k) \<noteq> None) [0..<cols]
         then Some (map (\<lambda>k. ((op_index i, k), the (map_of def_out (def_bindings ! k)))) [0..<cols])
         else None)"

text \<open>\<open>TryEvalConstantSubtree\<close>. A CTE definition is evaluated by \<open>defs\<close>, which answers the
  bindings of the definition with its values.\<close>

fun const_subtree :: "(idx_t \<Rightarrow> (ColumnBinding list \<times> binding_values) option) \<Rightarrow> folder \<Rightarrow> rplan \<Rightarrow>
    binding_values option" where
  "const_subtree defs F (RPlan t i es cs) =
     (if t = LOGICAL_DUMMY_SCAN then Some []
      else if t = LOGICAL_CTE_REF
      then (case defs (cte_index i) of None \<Rightarrow> None
            | Some (def_bindings, def_out) \<Rightarrow> cte_columns i def_bindings def_out)
      else if t = LOGICAL_PROJECTION
      then (case cs of
              [c] \<Rightarrow> (case const_subtree defs F c of None \<Rightarrow> None
                     | Some child \<Rightarrow> fold_columns (\<lambda>e. SubstituteAndFold F e child) (op_index i) 0 es)
            | _ \<Rightarrow> None)
      else if t = LOGICAL_AGGREGATE_AND_GROUP_BY
      then (case cs of
              [c] \<Rightarrow> if group_exprs i \<noteq> [] \<or> 1 < grouping_set_count i then None
                     else (case const_subtree defs F c of None \<Rightarrow> None
                           | Some child \<Rightarrow> fold_columns (fold_guard_aggregate F child) (aggregate_index i) 0 es)
            | _ \<Rightarrow> None)
      else None)"

text \<open>Definitions refer to earlier definitions only, so as many levels as there are definitions suffice.\<close>

type_synonym cte_defs = "(idx_t \<times> rplan) list"

primrec cte_values :: "nat \<Rightarrow> cte_defs \<Rightarrow> folder \<Rightarrow> idx_t \<Rightarrow> (ColumnBinding list \<times> binding_values) option" where
  "cte_values 0 ds F ix = None"
| "cte_values (Suc n) ds F ix =
     (case map_of ds ix of None \<Rightarrow> None
      | Some p \<Rightarrow> map_option (Pair (GetColumnBindings p)) (const_subtree (cte_values n ds F) F p))"

definition TryEvalConstantSubtree :: "cte_defs \<Rightarrow> folder \<Rightarrow> rplan \<Rightarrow> binding_values option" where
  "TryEvalConstantSubtree ds F p = const_subtree (cte_values (length ds) ds F) F p"

section \<open>Folding in a plan\<close>

text \<open>\<open>VisitOperator\<close> reaches every expression of every operator.\<close>

fun map_plan_exprs :: "(rexpr \<Rightarrow> rexpr) \<Rightarrow> rplan \<Rightarrow> rplan" where
  "map_plan_exprs f (RPlan t i es cs) =
     RPlan t (i\<lparr>group_exprs := map f (group_exprs i),
                rconditions := map (\<lambda>(c, l, r). (c, f l, f r)) (rconditions i),
                join_predicate := map_option f (join_predicate i)\<rparr>)
       (map f es) (map (map_plan_exprs f) cs)"

text \<open>The side of a cross product that folds, with the values of all its columns.\<close>

definition constant_side :: "cte_defs \<Rightarrow> folder \<Rightarrow> rplan \<Rightarrow> binding_values option" where
  "constant_side ds F side =
     (case TryEvalConstantSubtree ds F side of None \<Rightarrow> None
      | Some values \<Rightarrow>
          let bindings = GetColumnBindings side
          in if bindings = [] \<or> \<not> list_all (\<lambda>b. map_of values b \<noteq> None) bindings then None
             else Some (map (\<lambda>b. (b, the (map_of values b))) bindings))"

definition foldable_side :: "cte_defs \<Rightarrow> folder \<Rightarrow> rplan list \<Rightarrow> (nat \<times> binding_values) option" where
  "foldable_side ds F cs =
     (case cs of
        [l, r] \<Rightarrow> (case constant_side ds F l of Some vs \<Rightarrow> Some (0, vs)
                   | None \<Rightarrow> map_option (Pair 1) (constant_side ds F r))
      | _ \<Rightarrow> None)"

fun fold_in :: "(rplan \<Rightarrow> (nat list \<times> nat \<times> binding_values) option) \<Rightarrow> nat \<Rightarrow> rplan list \<Rightarrow>
    (nat list \<times> nat \<times> binding_values) option" where
  "fold_in f k [] = None"
| "fold_in f k (c # cs) =
     (case f c of Some (path, side, vs) \<Rightarrow> Some (k # path, side, vs) | None \<Rightarrow> fold_in f (Suc k) cs)"

lemma fold_in_cong [fundef_cong]:
  "xs = ys \<Longrightarrow> (\<And>x. x \<in> set ys \<Longrightarrow> f x = g x) \<Longrightarrow> k = k' \<Longrightarrow> fold_in f k xs = fold_in g k' ys"
proof (induction ys arbitrary: xs k k')
  case (Cons y ys)
  have "f y = g y" and "fold_in f (Suc k) ys = fold_in g (Suc k) ys" using Cons by simp_all
  then show ?case using Cons.prems by (simp split: option.splits)
qed simp

text \<open>The first foldable cross product, bottom-up: its path, the folded side and the values.\<close>

fun find_constant_cross :: "cte_defs \<Rightarrow> folder \<Rightarrow> rplan \<Rightarrow> (nat list \<times> nat \<times> binding_values) option" where
  "find_constant_cross ds F (RPlan t i es cs) =
     (case fold_in (find_constant_cross ds F) 0 cs of
        Some r \<Rightarrow> Some r
      | None \<Rightarrow> if t \<noteq> LOGICAL_CROSS_PRODUCT then None
          else map_option (Pair []) (foldable_side ds F cs))"

definition FoldConstantScalarSubqueriesOnce :: "cte_defs \<Rightarrow> folder \<Rightarrow> rplan \<Rightarrow> rplan option" where
  "FoldConstantScalarSubqueriesOnce ds F plan =
     (case find_constant_cross ds F plan of
        None \<Rightarrow> None
      | Some (path, side, vs) \<Rightarrow>
          Some (update_at path (\<lambda>node. rkids node ! (1 - side)) (map_plan_exprs (SubstituteConstants F vs) plan)))"

fun collect_cte_defs :: "rplan \<Rightarrow> cte_defs" where
  "collect_cte_defs (RPlan t i es cs) =
     concat (map collect_cte_defs (rev cs)) @
     (if t = LOGICAL_MATERIALIZED_CTE \<and> length cs = 2 then [(op_index i, hd cs)] else [])"

section \<open>Every fold makes the plan smaller\<close>

fun plan_nodes :: "rplan \<Rightarrow> nat" where
  "plan_nodes (RPlan t i es cs) = Suc (sum_list (map plan_nodes cs))"

lemma plan_nodes_map [simp]: "plan_nodes (map_plan_exprs f p) = plan_nodes p"
  by (induction p rule: rplan_induct) (simp add: comp_def cong: map_cong)

fun has_path :: "rplan \<Rightarrow> nat list \<Rightarrow> bool" where
  "has_path p [] = True"
| "has_path (RPlan t i es cs) (k # ks) \<longleftrightarrow> k < length cs \<and> has_path (cs ! k) ks"

lemma plan_nodes_update:
  "has_path p path \<Longrightarrow> plan_nodes (f (subplan p path)) < plan_nodes (subplan p path) \<Longrightarrow>
   plan_nodes (update_at path f p) < plan_nodes p"
proof (induction path arbitrary: p)
  case (Cons k ks)
  obtain t i es cs where p: "p = RPlan t i es cs" by (cases p)
  let ?c = "update_at ks f (cs ! k)"
  have k: "k < length cs" and less: "plan_nodes ?c < plan_nodes (cs ! k)" using Cons by (auto simp: p)
  have "sum_list (map plan_nodes (cs[k := ?c])) + plan_nodes (cs ! k) =
      sum_list (map plan_nodes cs) + plan_nodes ?c"
    using k elem_le_sum_list [of k "map plan_nodes cs"] by (simp add: map_update sum_list_update)
  then show ?case using less by (simp add: p)
qed simp

lemma fold_in_path:
  "fold_in f k cs = Some (path, r) \<Longrightarrow>
   \<exists>j ks. path = (k + j) # ks \<and> j < length cs \<and> f (cs ! j) = Some (ks, r)"
proof (induction cs arbitrary: k)
  case (Cons c cs)
  show ?case
  proof (cases "f c")
    case None
    then obtain j ks where "path = (Suc k + j) # ks" "j < length cs" "f (cs ! j) = Some (ks, r)"
      using Cons.IH [of "Suc k"] Cons.prems by auto
    then show ?thesis by (intro exI [of _ "Suc j"] exI [of _ ks]) simp
  next
    case (Some q)
    then show ?thesis using Cons.prems by (cases q) (auto intro!: exI [of _ "0 :: nat"])
  qed
qed simp

lemma find_constant_cross_path:
  assumes "find_constant_cross ds F p = Some (path, side, vs)"
  shows "has_path p path \<and> rop (subplan p path) = LOGICAL_CROSS_PRODUCT \<and>
    length (rkids (subplan p path)) = 2 \<and> side < 2 \<and>
    constant_side ds F (rkids (subplan p path) ! side) = Some vs"
  using assms
proof (induction p arbitrary: path rule: rplan_induct)
  case (RPlan t i es cs)
  show ?case
  proof (cases "fold_in (find_constant_cross ds F) 0 cs")
    case None
    then show ?thesis using RPlan.prems
      by (auto simp: foldable_side_def split: if_splits list.splits option.splits)
  next
    case (Some r)
    then obtain j ks where "path = j # ks" "j < length cs" "find_constant_cross ds F (cs ! j) = Some (ks, side, vs)"
      using RPlan.prems fold_in_path [of "find_constant_cross ds F" 0 cs path "(side, vs)"] by auto
    then show ?thesis using RPlan.IH [of "cs ! j" ks] by simp
  qed
qed

lemma has_path_map: "has_path (map_plan_exprs f p) path \<longleftrightarrow> has_path p path"
proof (induction path arbitrary: p)
  case (Cons k ks)
  then show ?case by (cases p) (simp cong: conj_cong)
qed simp

lemma subplan_map:
  "has_path p path \<Longrightarrow> subplan (map_plan_exprs f p) path = map_plan_exprs f (subplan p path)"
proof (induction path arbitrary: p)
  case (Cons k ks)
  then show ?case by (cases p) auto
qed simp

lemma rkids_map [simp]: "rkids (map_plan_exprs f p) = map (map_plan_exprs f) (rkids p)"
  by (cases p) simp

lemma plan_nodes_kid:
  assumes "k < length (rkids p)"
  shows "plan_nodes (rkids p ! k) < plan_nodes p"
proof (cases p)
  case (RPlan t i es cs)
  have "plan_nodes (cs ! k) \<le> sum_list (map plan_nodes cs)"
    using elem_le_sum_list [of k "map plan_nodes cs"] assms by (simp add: RPlan)
  then show ?thesis by (simp add: RPlan)
qed

lemma fold_once_smaller:
  assumes "FoldConstantScalarSubqueriesOnce ds F p = Some p'"
  shows "plan_nodes p' < plan_nodes p"
proof -
  obtain path side vs where find: "find_constant_cross ds F p = Some (path, side, vs)"
    and p': "p' = update_at path (\<lambda>node. rkids node ! (1 - side)) (map_plan_exprs (SubstituteConstants F vs) p)"
    using assms by (auto simp: FoldConstantScalarSubqueriesOnce_def split: option.splits)
  let ?q = "map_plan_exprs (SubstituteConstants F vs) p"
  have path: "has_path p path" and two: "length (rkids (subplan p path)) = 2" and "side < 2"
    using find_constant_cross_path [OF find] by simp_all
  then have "plan_nodes (rkids (subplan ?q path) ! (1 - side)) < plan_nodes (subplan ?q path)"
    by (intro plan_nodes_kid) (simp add: subplan_map)
  then show ?thesis
    using plan_nodes_update [of ?q path "\<lambda>node. rkids node ! (1 - side)"] path by (simp add: p' has_path_map)
qed

text \<open>The loop to the fixpoint. The map of the definitions points into the plan, so it sees the plan as it
  is folded; it is collected anew for every round.\<close>

function FoldConstantScalarSubqueries :: "folder \<Rightarrow> rplan \<Rightarrow> rplan" where
  "FoldConstantScalarSubqueries F plan =
     (case FoldConstantScalarSubqueriesOnce (collect_cte_defs plan) F plan of
        None \<Rightarrow> plan
      | Some plan' \<Rightarrow> FoldConstantScalarSubqueries F plan')"
  by pat_completeness auto
termination by (relation "measure (\<lambda>(F, p). plan_nodes p)") (auto dest: fold_once_smaller)

declare FoldConstantScalarSubqueries.simps [simp del]

section \<open>Inlining a materialized CTE\<close>

text \<open>\<open>renumber\<close> is \<open>renumber_and_rebind_subtree\<close>: a copy of a subtree with fresh table indices. A
  reference becomes a projection of the copy under the reference's own index.\<close>

definition inline_reference :: "(rplan \<Rightarrow> idx_t \<Rightarrow> rplan \<times> idx_t) \<Rightarrow> rplan \<Rightarrow> rinfo \<Rightarrow> idx_t \<Rightarrow> rplan \<times> idx_t" where
  "inline_reference renumber definition_plan ref index =
     (let (copied, index') = renumber definition_plan index; cols = columns_of copied;
          n = min (length (opaque_columns ref)) (length cols);
          names = bound_columns ref
      in (projection_of (op_index ref)
            (map (\<lambda>k. ColumnRefExpr (if k < length names then names ! k else []) (snd (cols ! k)) (fst (cols ! k)))
               [0..<n]) copied,
          index'))"

fun visit_references :: "(rplan \<Rightarrow> idx_t \<Rightarrow> rplan \<times> idx_t) \<Rightarrow> idx_t \<Rightarrow> rplan \<Rightarrow> rplan \<Rightarrow> idx_t \<Rightarrow> rplan \<times> idx_t" where
  "visit_references renumber cte def_plan (RPlan t i es cs) index =
     (if t = LOGICAL_CTE_REF
      then (if cte_index i \<noteq> cte then (RPlan t i es cs, index)
            else inline_reference renumber def_plan i index)
      else (let (cs', index') = thread (visit_references renumber cte def_plan) cs index
            in (RPlan t i es cs', index')))"

fun InlineCteRefs :: "(rplan \<Rightarrow> idx_t \<Rightarrow> rplan \<times> idx_t) \<Rightarrow> rplan \<Rightarrow> idx_t \<Rightarrow> rplan \<times> idx_t" where
  "InlineCteRefs renumber (RPlan t i es cs) index =
     (let (cs', index') = thread (InlineCteRefs renumber) cs index
      in case cs' of
           [def_plan, consumer] \<Rightarrow>
             if t = LOGICAL_MATERIALIZED_CTE then visit_references renumber (op_index i) def_plan consumer index'
             else (RPlan t i es cs', index')
         | _ \<Rightarrow> (RPlan t i es cs', index'))"

end
