(* ===== verification/Rewrite_Subqueries.thy ===== *)
theory Rewrite_Subqueries
  imports Rewrite_Plan
begin

text \<open>
  The rewrites of correlated subqueries in \<open>src/core/plan_rewrite.cpp\<close>: a filter on the mark of a
  mark join makes it a semi or an anti join, such a filter moves below a semi or anti join, and the
  probe side of a decorrelated \<open>EXISTS\<close> becomes the distinct keys of its source.
\<close>

section \<open>Semi and anti joins\<close>

definition SemiAntiProbeChildIndex :: "JoinType option \<Rightarrow> idx_t" where
  "SemiAntiProbeChildIndex jt =
     (if jt = Some JOIN_SEMI \<or> jt = Some JOIN_ANTI then 1
      else if jt = Some JOIN_RIGHT_SEMI \<or> jt = Some JOIN_RIGHT_ANTI then 0
      else INVALID_INDEX)"

definition IsSemiAntiJoinType :: "JoinType option \<Rightarrow> bool" where
  "IsSemiAntiJoinType jt \<longleftrightarrow> jt \<in> {Some JOIN_SEMI, Some JOIN_ANTI, Some JOIN_RIGHT_SEMI, Some JOIN_RIGHT_ANTI}"

section \<open>Filters on marks\<close>

definition IsMarkColumnRef :: "rexpr \<Rightarrow> idx_t \<Rightarrow> bool" where
  "IsMarkColumnRef e mark = (case e of ColumnRefExpr a t b \<Rightarrow> b = (mark, 0) | _ \<Rightarrow> False)"

definition IsNotMarkColumnRef :: "rexpr \<Rightarrow> idx_t \<Rightarrow> bool" where
  "IsNotMarkColumnRef e mark =
     (case e of OperatorExpr a t OPERATOR_NOT [c] \<Rightarrow> IsMarkColumnRef c mark | _ \<Rightarrow> False)"

definition is_comparison_join :: "rplan \<Rightarrow> bool" where
  "is_comparison_join p \<longleftrightarrow> rop p = LOGICAL_DELIM_JOIN \<or> rop p = LOGICAL_COMPARISON_JOIN"

definition MarkJoinCanBecomeSemiAnti :: "rplan \<Rightarrow> bool" where
  "MarkJoinCanBecomeSemiAnti p \<longleftrightarrow>
     is_comparison_join p \<and> rjoin_type (rinfo p) = Some JOIN_MARK \<and> rconditions (rinfo p) \<noteq> [] \<and>
     join_predicate (rinfo p) = None \<and> convert_mark_to_semi (rinfo p) \<and>
     list_all (\<lambda>c. fst c = COMPARE_NOT_DISTINCT_FROM) (rconditions (rinfo p))"

fun CollectConvertibleMarkIndexes :: "rplan \<Rightarrow> idx_t list" where
  "CollectConvertibleMarkIndexes (RPlan t i es cs) =
     (if MarkJoinCanBecomeSemiAnti (RPlan t i es cs) then [mark_index i] else []) @
     concat (map CollectConvertibleMarkIndexes cs)"

definition IsConvertibleMarkPredicate :: "idx_t list \<Rightarrow> rexpr \<Rightarrow> bool" where
  "IsConvertibleMarkPredicate marks e \<longleftrightarrow> list_ex (\<lambda>m. IsMarkColumnRef e m \<or> IsNotMarkColumnRef e m) marks"

definition plain_filter :: "rplan \<Rightarrow> bool" where
  "plain_filter p \<longleftrightarrow> rop p = LOGICAL_FILTER \<and> length (rkids p) = 1 \<and> projection_map (rinfo p) = []"

text \<open>Moving mark predicates below a semi or anti join, whose result is its preserved side. The
  rewriting of the moved filter is the first argument.\<close>

definition TryPushMarkFilterThroughSemiAnti :: "(rplan \<Rightarrow> rplan) \<Rightarrow> rplan \<Rightarrow> (rplan \<times> bool)" where
  "TryPushMarkFilterThroughSemiAnti rewrite node =
     (let join = hd (rkids node); probe = SemiAntiProbeChildIndex (rjoin_type (rinfo join));
          preserved = 1 - probe
      in if \<not> plain_filter node \<or> \<not> is_comparison_join join \<or> probe = INVALID_INDEX \<or> length (rkids join) \<noteq> 2
         then (node, False)
         else let side = rkids join ! preserved; marks = CollectConvertibleMarkIndexes side;
                  pushed = filter (IsConvertibleMarkPredicate marks) (rexprs node);
                  remaining = filter (\<lambda>e. \<not> IsConvertibleMarkPredicate marks e) (rexprs node)
           in if marks = [] \<or> pushed = [] then (node, False)
              else let join' = RPlan (rop join) (rinfo join) (rexprs join)
                         ((rkids join)[preserved := rewrite (filter_of pushed side)])
                in if remaining = [] then (join', True)
                   else (RPlan (rop node) (rinfo node) remaining [join'], True))"

text \<open>The first filter expression on the mark, its position and the join type it asks for.\<close>

definition find_mark_filter :: "rexpr list \<Rightarrow> idx_t \<Rightarrow> (nat \<times> JoinType) option" where
  "find_mark_filter es mark =
     map_option (\<lambda>k. (k, if IsMarkColumnRef (es ! k) mark then JOIN_SEMI else JOIN_ANTI))
       (find (\<lambda>k. IsMarkColumnRef (es ! k) mark \<or> IsNotMarkColumnRef (es ! k) mark) [0..<length es])"

definition TryRewriteMarkFilter :: "(rplan \<Rightarrow> rplan) \<Rightarrow> rplan \<Rightarrow> (rplan \<times> bool)" where
  "TryRewriteMarkFilter rewrite node =
     (if \<not> plain_filter node then (node, False)
      else let join = hd (rkids node)
        in if \<not> MarkJoinCanBecomeSemiAnti join then TryPushMarkFilterThroughSemiAnti rewrite node
           else case find_mark_filter (rexprs node) (mark_index (rinfo join)) of
                  None \<Rightarrow> (node, False)
                | Some (k, jt) \<Rightarrow>
                    let rest = take k (rexprs node) @ drop (Suc k) (rexprs node);
                        join' = RPlan (rop join) ((rinfo join)\<lparr>rjoin_type := Some jt\<rparr>) (rexprs join) (rkids join)
                    in if rest = [] then (join', True)
                       else (fst (TryPushMarkFilterThroughSemiAnti rewrite
                               (RPlan (rop node) (rinfo node) rest [join'])), True))"

text \<open>\<open>RewriteMarkJoinFilters\<close> rewrites the children first. A moved filter is rewritten again, with
  one join less above its end; the number of joins of the plan bounds how often that happens.\<close>

fun rewrite_marks_with :: "(rplan \<Rightarrow> rplan) \<Rightarrow> rplan \<Rightarrow> (rplan \<times> bool)" where
  "rewrite_marks_with rewrite (RPlan t i es cs) =
     (let rs = map (rewrite_marks_with rewrite) cs;
          (p, here) = TryRewriteMarkFilter rewrite (RPlan t i es (map fst rs))
      in (p, here \<or> list_ex snd rs))"

primrec rewrite_marks :: "nat \<Rightarrow> rplan \<Rightarrow> (rplan \<times> bool)" where
  "rewrite_marks 0 p = rewrite_marks_with (\<lambda>q. q) p"
| "rewrite_marks (Suc n) p = rewrite_marks_with (\<lambda>q. fst (rewrite_marks n q)) p"

fun join_count :: "rplan \<Rightarrow> nat" where
  "join_count (RPlan t i es cs) =
     (if t = LOGICAL_DELIM_JOIN \<or> t = LOGICAL_COMPARISON_JOIN then 1 else 0) + sum_list (map join_count cs)"

definition RewriteMarkJoinFilters :: "rplan \<Rightarrow> (rplan \<times> bool)" where
  "RewriteMarkJoinFilters p = rewrite_marks (join_count p) p"

text \<open>The rewriting of marks adds no joins, so the fuel is enough.\<close>

definition adds_no_joins :: "(rplan \<Rightarrow> rplan) \<Rightarrow> bool" where
  "adds_no_joins f \<longleftrightarrow> (\<forall>q. join_count (f q) \<le> join_count q)"

lemma join_count_filter_of [simp]: "join_count (filter_of es p) = join_count p"
  by (simp add: filter_of_def)

lemma adds_no_joinsD: "adds_no_joins f \<Longrightarrow> join_count (f (filter_of es p)) \<le> join_count p"
  by (metis adds_no_joins_def join_count_filter_of)

lemma probe_index_cases:
  obtains "SemiAntiProbeChildIndex jt = INVALID_INDEX" | "SemiAntiProbeChildIndex jt = 0" | "SemiAntiProbeChildIndex jt = 1"
proof -
  have "SemiAntiProbeChildIndex jt \<in> {INVALID_INDEX, 0, 1}" by (simp add: SemiAntiProbeChildIndex_def)
  then show thesis using that by blast
qed

text \<open>A filter is moved over one join with two children, or the plan stays as it is.\<close>

lemma push_cases:
  obtains "\<And>f. TryPushMarkFilterThroughSemiAnti f node = (node, False)"
  | t i es tj ij ej a b where "node = RPlan t i es [RPlan tj ij ej [a, b]]"
      "t = LOGICAL_FILTER" "is_comparison_join (RPlan tj ij ej [a, b])"
      "SemiAntiProbeChildIndex (rjoin_type ij) = 0 \<or> SemiAntiProbeChildIndex (rjoin_type ij) = 1"
proof (cases "plain_filter node \<and> is_comparison_join (hd (rkids node)) \<and> length (rkids (hd (rkids node))) = 2 \<and>
    SemiAntiProbeChildIndex (rjoin_type (rinfo (hd (rkids node)))) \<noteq> INVALID_INDEX")
  case True
  then obtain t i es c where node: "node = RPlan t i es [c]" and t: "t = LOGICAL_FILTER"
    by (cases node) (auto simp: plain_filter_def length_Suc_conv)
  moreover obtain tj ij ej a b where c: "c = RPlan tj ij ej [a, b]"
    using True node by (cases c) (auto simp: length_Suc_conv numeral_2_eq_2)
  ultimately show thesis
    using that(2) True by (cases rule: probe_index_cases [of "rjoin_type ij"]) auto
next
  case False
  then have "TryPushMarkFilterThroughSemiAnti f node = (node, False)" for f
    by (auto simp: TryPushMarkFilterThroughSemiAnti_def Let_def)
  then show thesis by (rule that(1))
qed

lemma push_adds_no_joins:
  assumes "adds_no_joins f"
  shows "join_count (fst (TryPushMarkFilterThroughSemiAnti f node)) \<le> join_count node"
proof (cases rule: push_cases [of node])
  case (2 t i es tj ij ej a b)
  from 2(4) show ?thesis
    using adds_no_joinsD [OF assms, of _ a] adds_no_joinsD [OF assms, of _ b]
    by (auto simp: TryPushMarkFilterThroughSemiAnti_def Let_def 2(1,2) add_mono)
qed simp

lemma push_cong:
  assumes "\<And>q. join_count q < join_count node \<Longrightarrow> f q = g q"
  shows "TryPushMarkFilterThroughSemiAnti f node = TryPushMarkFilterThroughSemiAnti g node"
proof (cases rule: push_cases [of node])
  case (2 t i es tj ij ej a b)
  have "f (filter_of xs a) = g (filter_of xs a)" "f (filter_of xs b) = g (filter_of xs b)" for xs
    using assms 2(3) by (simp_all add: 2(1) is_comparison_join_def)
  with 2(4) show ?thesis
    by (auto simp: TryPushMarkFilterThroughSemiAnti_def Let_def 2(1))
qed simp

lemma mark_filter_join:
  assumes "plain_filter (RPlan t i es cs)"
  shows "join_count (RPlan t i xs [RPlan (rop (hd cs)) k (rexprs (hd cs)) (rkids (hd cs))]) = join_count (RPlan t i es cs)"
    and "join_count (RPlan (rop (hd cs)) k (rexprs (hd cs)) (rkids (hd cs))) = join_count (RPlan t i es cs)"
proof -
  obtain tj ij ej kj where "cs = [RPlan tj ij ej kj]" and "t = LOGICAL_FILTER"
    using assms by (auto simp: plain_filter_def length_Suc_conv) (metis rplan.exhaust)
  then show "join_count (RPlan t i xs [RPlan (rop (hd cs)) k (rexprs (hd cs)) (rkids (hd cs))]) = join_count (RPlan t i es cs)"
    and "join_count (RPlan (rop (hd cs)) k (rexprs (hd cs)) (rkids (hd cs))) = join_count (RPlan t i es cs)"
    by simp_all
qed

lemma mark_filter_adds_no_joins:
  assumes "adds_no_joins f"
  shows "join_count (fst (TryRewriteMarkFilter f (RPlan t i es cs))) \<le> join_count (RPlan t i es cs)"
proof (cases "plain_filter (RPlan t i es cs)")
  case True
  have "join_count (fst (TryPushMarkFilterThroughSemiAnti f (RPlan t i xs
      [RPlan (rop (hd cs)) k (rexprs (hd cs)) (rkids (hd cs))]))) \<le> join_count (RPlan t i es cs)" for xs k
    using push_adds_no_joins [OF assms] mark_filter_join(1) [OF True] by metis
  then show ?thesis
    using mark_filter_join(2) [OF True] push_adds_no_joins [OF assms]
    by (simp add: TryRewriteMarkFilter_def Let_def True del: join_count.simps split: option.splits)
qed (simp add: TryRewriteMarkFilter_def)

lemma mark_filter_cong:
  assumes "\<And>q. join_count q < join_count (RPlan t i es cs) \<Longrightarrow> f q = g q"
  shows "TryRewriteMarkFilter f (RPlan t i es cs) = TryRewriteMarkFilter g (RPlan t i es cs)"
proof (cases "plain_filter (RPlan t i es cs)")
  case True
  have "TryPushMarkFilterThroughSemiAnti f (RPlan t i xs [RPlan (rop (hd cs)) k (rexprs (hd cs)) (rkids (hd cs))]) =
      TryPushMarkFilterThroughSemiAnti g (RPlan t i xs [RPlan (rop (hd cs)) k (rexprs (hd cs)) (rkids (hd cs))])" for xs k
    by (rule push_cong, rule assms) (simp only: mark_filter_join(1) [OF True])
  moreover have "TryPushMarkFilterThroughSemiAnti f (RPlan t i es cs) = TryPushMarkFilterThroughSemiAnti g (RPlan t i es cs)"
    by (rule push_cong) (rule assms)
  ultimately show ?thesis by (simp add: TryRewriteMarkFilter_def Let_def True split: option.splits)
qed (simp add: TryRewriteMarkFilter_def)

lemma rewrite_marks_with_adds_no_joins:
  assumes "adds_no_joins f"
  shows "join_count (fst (rewrite_marks_with f p)) \<le> join_count p"
proof (induction p rule: rplan_induct)
  case (RPlan t i es cs)
  let ?cs = "map (fst \<circ> rewrite_marks_with f) cs"
  have "sum_list (map join_count ?cs) \<le> sum_list (map join_count cs)"
    unfolding map_map by (rule sum_list_mono) (use RPlan in simp)
  then have "join_count (RPlan t i es ?cs) \<le> join_count (RPlan t i es cs)" by simp
  then show ?case
    using mark_filter_adds_no_joins [OF assms, of t i es ?cs]
    by (simp add: Let_def split_beta del: join_count.simps)
qed

lemma rewrite_marks_with_cong:
  assumes "adds_no_joins f" "adds_no_joins g" and "\<And>q. join_count q < join_count p \<Longrightarrow> f q = g q"
  shows "rewrite_marks_with f p = rewrite_marks_with g p"
  using assms(3)
proof (induction p rule: rplan_induct)
  case (RPlan t i es cs)
  have same: "map (rewrite_marks_with f) cs = map (rewrite_marks_with g) cs"
  proof (rule map_cong)
    fix c assume c: "c \<in> set cs"
    then have "join_count c \<le> join_count (RPlan t i es cs)" by (simp add: member_le_sum_list trans_le_add2)
    then show "rewrite_marks_with f c = rewrite_marks_with g c" using RPlan c by (meson order_less_le_trans)
  qed simp
  have "sum_list (map (join_count \<circ> fst \<circ> rewrite_marks_with g) cs) \<le> sum_list (map join_count cs)"
    by (rule sum_list_mono) (use rewrite_marks_with_adds_no_joins [OF assms(2)] in simp)
  then have "join_count (RPlan t i es (map (fst \<circ> rewrite_marks_with g) cs)) \<le> join_count (RPlan t i es cs)"
    by (simp add: comp_assoc)
  then have "TryRewriteMarkFilter f (RPlan t i es (map (fst \<circ> rewrite_marks_with g) cs)) =
      TryRewriteMarkFilter g (RPlan t i es (map (fst \<circ> rewrite_marks_with g) cs))"
    by (intro mark_filter_cong RPlan.prems) (meson order_less_le_trans)
  then show ?case by (simp add: same Let_def)
qed

lemma rewrite_marks_adds_no_joins: "adds_no_joins (\<lambda>p. fst (rewrite_marks n p))"
proof (induction n)
  case 0
  then show ?case using rewrite_marks_with_adds_no_joins [of "\<lambda>q. q"] by (simp add: adds_no_joins_def)
next
  case (Suc n)
  then show ?case using rewrite_marks_with_adds_no_joins [OF Suc] by (simp add: adds_no_joins_def)
qed

text \<open>The fuel is enough: with at least as much as there are joins, more makes no difference.\<close>

lemma rewrite_marks_Suc: "join_count p \<le> n \<Longrightarrow> rewrite_marks (Suc n) p = rewrite_marks n p"
proof (induction n arbitrary: p)
  case 0
  have "rewrite_marks_with (\<lambda>q. fst (rewrite_marks 0 q)) p = rewrite_marks_with (\<lambda>q. q) p"
    by (rule rewrite_marks_with_cong [OF rewrite_marks_adds_no_joins]) (use 0 in \<open>simp_all add: adds_no_joins_def\<close>)
  then show ?case by simp
next
  case (Suc n)
  have "rewrite_marks_with (\<lambda>q. fst (rewrite_marks (Suc n) q)) p = rewrite_marks_with (\<lambda>q. fst (rewrite_marks n q)) p"
  proof (rule rewrite_marks_with_cong [OF rewrite_marks_adds_no_joins rewrite_marks_adds_no_joins])
    fix q assume "join_count q < join_count p"
    then show "fst (rewrite_marks (Suc n) q) = fst (rewrite_marks n q)" using Suc by (metis less_Suc_eq_le order_less_le_trans)
  qed
  then show ?case by (simp only: rewrite_marks.simps)
qed

lemma rewrite_marks_enough: "join_count p \<le> n \<Longrightarrow> rewrite_marks n p = RewriteMarkJoinFilters p"
  unfolding RewriteMarkJoinFilters_def
proof (induction n rule: dec_induct)
  case (step n)
  then show ?case using rewrite_marks_Suc [of p n] by simp
qed simp

text \<open>So \<open>RewriteMarkJoinFilters\<close> satisfies the recursion of the code, without any fuel.\<close>

lemma RewriteMarkJoinFilters_rec:
  "RewriteMarkJoinFilters p = rewrite_marks_with (\<lambda>q. fst (RewriteMarkJoinFilters q)) p"
proof -
  have "adds_no_joins (\<lambda>q. fst (RewriteMarkJoinFilters q))"
    using rewrite_marks_adds_no_joins by (simp add: adds_no_joins_def RewriteMarkJoinFilters_def)
  then have "rewrite_marks_with (\<lambda>q. fst (rewrite_marks (join_count p) q)) p =
      rewrite_marks_with (\<lambda>q. fst (RewriteMarkJoinFilters q)) p"
    by (rule rewrite_marks_with_cong [OF rewrite_marks_adds_no_joins]) (simp add: rewrite_marks_enough)
  then show ?thesis
    using rewrite_marks_enough [of p "Suc (join_count p)"] by simp
qed

section \<open>The probe side of a decorrelated EXISTS\<close>

definition OutputTableIndexes :: "rplan \<Rightarrow> idx_t set" where
  "OutputTableIndexes p = fst ` set (GetColumnBindings p)"

definition ExpressionUsesOnly :: "rexpr \<Rightarrow> idx_t set \<Rightarrow> bool \<Rightarrow> bool" where
  "ExpressionUsesOnly e tables allow_no_bindings =
     (if bindings_of e = [] then allow_no_bindings
      else list_all (\<lambda>b. fst b \<in> tables) (bindings_of e))"

record SemiAntiKeyReplacement =
  delim_expr :: rexpr
  source_expr :: rexpr
  null_reject_source :: bool

definition TryCollectSemiAntiKeyReplacement ::
    "comparison \<Rightarrow> rexpr \<Rightarrow> rexpr \<Rightarrow> idx_t set \<Rightarrow> idx_t set \<Rightarrow> SemiAntiKeyReplacement option" where
  "TryCollectSemiAntiKeyReplacement c l r source delim =
     (if c \<noteq> COMPARE_EQUAL \<and> c \<noteq> COMPARE_NOT_DISTINCT_FROM then None
      else if ExpressionUsesOnly l source False \<and> ExpressionUsesOnly r delim False
      then Some \<lparr>delim_expr = r, source_expr = l, null_reject_source = (c = COMPARE_EQUAL)\<rparr>
      else if ExpressionUsesOnly r source False \<and> ExpressionUsesOnly l delim False
      then Some \<lparr>delim_expr = l, source_expr = r, null_reject_source = (c = COMPARE_EQUAL)\<rparr>
      else None)"

definition BuildIsNotNull :: "rexpr \<Rightarrow> rexpr" where
  "BuildIsNotNull e = OperatorExpr [] TypeBoolean OPERATOR_IS_NOT_NULL [e]"

definition IsEmptyJoinPredicate :: "rexpr option \<Rightarrow> bool" where
  "IsEmptyJoinPredicate p =
     (case p of None \<Rightarrow> True | Some (ConstantExpr a t v) \<Rightarrow> v = SBool True | Some _ \<Rightarrow> False)"

definition delim_child :: "rplan \<Rightarrow> nat option" where
  "delim_child p =
     (if rop (rkids p ! 0) = LOGICAL_DISTINCT then Some 0
      else if rop (rkids p ! 1) = LOGICAL_DISTINCT then Some 1 else None)"

text \<open>The join conditions must all be key comparisons; a filter is a key comparison or a filter of the source.\<close>

fun all_some :: "'a option list \<Rightarrow> 'a list option" where
  "all_some [] = Some []"
| "all_some (x # xs) = (case x of None \<Rightarrow> None | Some y \<Rightarrow> map_option ((#) y) (all_some xs))"

definition condition_replacements :: "rplan \<Rightarrow> idx_t set \<Rightarrow> idx_t set \<Rightarrow> SemiAntiKeyReplacement list option" where
  "condition_replacements p source delim =
     (if rop p = LOGICAL_COMPARISON_JOIN
      then (if rjoin_type (rinfo p) \<noteq> Some JOIN_INNER \<or> \<not> IsEmptyJoinPredicate (join_predicate (rinfo p)) then None
            else all_some (map (\<lambda>(c, l, r). TryCollectSemiAntiKeyReplacement c l r source delim)
                   (rconditions (rinfo p))))
      else Some [])"

definition filter_replacement :: "idx_t set \<Rightarrow> idx_t set \<Rightarrow> rexpr \<Rightarrow> SemiAntiKeyReplacement option" where
  "filter_replacement source delim e =
     (case e of ComparisonExpr a c l r \<Rightarrow> TryCollectSemiAntiKeyReplacement c l r source delim | _ \<Rightarrow> None)"

definition split_filters :: "idx_t set \<Rightarrow> idx_t set \<Rightarrow> rexpr list \<Rightarrow>
    (SemiAntiKeyReplacement list \<times> rexpr list) option" where
  "split_filters source delim es =
     (let rest = filter (\<lambda>e. filter_replacement source delim e = None) es
      in if list_all (\<lambda>e. ExpressionUsesOnly e source True) rest
         then Some (concat (map (\<lambda>e. opt_list (filter_replacement source delim e)) es), rest)
         else None)"

text \<open>A projected expression is the delim side of a key, replaced by the source side of the first
  such key, or an expression over the source. The answer has the position of the key that was used.\<close>

definition project_probe :: "idx_t set \<Rightarrow> SemiAntiKeyReplacement list \<Rightarrow> rexpr \<Rightarrow> (rexpr \<times> nat option) option" where
  "project_probe source rs e =
     (case find (\<lambda>k. delim_expr (rs ! k) = e) [0..<length rs] of
        Some k \<Rightarrow> Some (source_expr (rs ! k), Some k)
      | None \<Rightarrow> if ExpressionUsesOnly e source True then Some (e, None) else None)"

definition distinct_of :: "rplan \<Rightarrow> rplan" where
  "distinct_of child = RPlan LOGICAL_DISTINCT no_rinfo
     (map (\<lambda>c. ColumnRefExpr [] (snd c) (fst c)) (columns_of child)) [child]"

definition rewrite_probe :: "rplan \<Rightarrow> rplan option" where
  "rewrite_probe probe =
     (let filter_op = hd (rkids probe); inner = hd (rkids filter_op)
      in if rop probe \<noteq> LOGICAL_PROJECTION \<or> length (rkids probe) \<noteq> 1 \<or> \<not> plain_filter filter_op \<or>
            length (rkids inner) \<noteq> 2 \<or> rop inner \<notin> {LOGICAL_COMPARISON_JOIN, LOGICAL_CROSS_PRODUCT} then None
         else case delim_child inner of
           None \<Rightarrow> None
         | Some d \<Rightarrow>
             let side = rkids inner ! (1 - d); source = OutputTableIndexes side;
                 delim = OutputTableIndexes (rkids inner ! d)
             in case (condition_replacements inner source delim, split_filters source delim (rexprs filter_op)) of
                  (Some rs, Some (rs', filters)) \<Rightarrow>
                    (let keys = rs @ rs'
                     in case all_some (map (project_probe source keys) (rexprs probe)) of
                          None \<Rightarrow> None
                        | Some projected \<Rightarrow>
                            if keys = [] \<or> set (map snd projected) \<inter> Some ` {..<length keys} \<noteq> Some ` {..<length keys}
                            then None
                            else let filters = filters @
                                       map (\<lambda>k. BuildIsNotNull (source_expr k)) (filter null_reject_source keys);
                                     base = (if filters = [] then side else filter_of filters side)
                              in Some (distinct_of (projection_of (op_index (rinfo probe)) (map fst projected) base)))
                | _ \<Rightarrow> None)"

definition TryRewriteSemiAntiProbeKeyProjection :: "rplan \<Rightarrow> rplan \<times> bool" where
  "TryRewriteSemiAntiProbeKeyProjection node =
     (let k = SemiAntiProbeChildIndex (rjoin_type (rinfo node))
      in if rop node \<noteq> LOGICAL_COMPARISON_JOIN \<or> \<not> IsSemiAntiJoinType (rjoin_type (rinfo node)) \<or>
            length (rkids node) \<noteq> 2 then (node, False)
         else case rewrite_probe (rkids node ! k) of
                None \<Rightarrow> (node, False)
              | Some probe \<Rightarrow> (RPlan (rop node) (rinfo node) (rexprs node) ((rkids node)[k := probe]), True))"

fun RewriteSemiAntiProbeKeyProjections :: "rplan \<Rightarrow> rplan \<times> bool" where
  "RewriteSemiAntiProbeKeyProjections (RPlan t i es cs) =
     (let rs = map RewriteSemiAntiProbeKeyProjections cs;
          (p, here) = TryRewriteSemiAntiProbeKeyProjection (RPlan t i es (map fst rs))
      in (p, here \<or> list_ex snd rs))"

end
