(* ===== verification/Rewrite_Pipeline.thy ===== *)
theory Rewrite_Pipeline
  imports Rewrite_Types Rewrite_Constants Rewrite_Subqueries
begin

text \<open>
  \<open>PlanRewrite\<close> of \<open>src/core/plan_rewrite.cpp\<close>: the nine passes in their order over one context (the
  plan, the names of the planner, the next table index), stopped by the first error. DuckDB's
  deliminator, the renumbering of a copied subtree and the rewriting of the safe delim scans are
  parameters.
\<close>

record rewrite_context =
  rewrite_plan :: rplan
  planner_names :: "string list"
  next_index :: idx_t

record rewrite_env =
  rewrite_binder :: bind_env
  rewrite_folder :: folder
  renumber_subtree :: "rplan \<Rightarrow> idx_t \<Rightarrow> rplan \<times> idx_t"
  deliminate :: "rplan \<Rightarrow> rplan"
  RewriteSafeSemiAntiDelimGets :: "rplan \<Rightarrow> rplan"

type_synonym rewrite_pass = "rewrite_env \<Rightarrow> rewrite_context \<Rightarrow> rewrite_error + rewrite_context"

definition RewritePassInlineCteRefs :: rewrite_pass where
  "RewritePassInlineCteRefs E c =
     (let (p, i) = InlineCteRefs (renumber_subtree E) (rewrite_plan c) (next_index c)
      in Inr (c\<lparr>rewrite_plan := p, next_index := i\<rparr>))"

definition RewritePassFoldConstantScalarSubqueries :: rewrite_pass where
  "RewritePassFoldConstantScalarSubqueries E c =
     Inr (c\<lparr>rewrite_plan := FoldConstantScalarSubqueries (rewrite_folder E) (rewrite_plan c)\<rparr>)"

definition RewritePassAggregateFilters :: rewrite_pass where
  "RewritePassAggregateFilters E c =
     and_then (RewriteAggregateFilters (rewrite_binder E) (rewrite_plan c)) (\<lambda>p. Inr (c\<lparr>rewrite_plan := p\<rparr>))"

definition RewritePassDistinct :: rewrite_pass where
  "RewritePassDistinct E c =
     (let (p, i) = RewriteDistinct (rewrite_plan c) (next_index c)
      in Inr (c\<lparr>rewrite_plan := p, next_index := i,
           planner_names := (if HasTopLevelDistinct (rewrite_plan c)
             then planner_names c @ [DISTINCT_COUNT_COL] else planner_names c)\<rparr>))"

definition RewritePassDerivedAggregates :: rewrite_pass where
  "RewritePassDerivedAggregates E c =
     and_then (RewriteDerivedAggregates (rewrite_binder E) True (rewrite_plan c)) (\<lambda>p. Inr (c\<lparr>rewrite_plan := p\<rparr>))"

definition RewritePassGroupCountStar :: rewrite_pass where
  "RewritePassGroupCountStar E c = Inr (c\<lparr>rewrite_plan := InjectGroupCountStar (rewrite_plan c)\<rparr>)"

definition RewritePassHiddenAggregatePropagation :: rewrite_pass where
  "RewritePassHiddenAggregatePropagation E c =
     Inr (c\<lparr>rewrite_plan := PropagateHiddenAggregateColumns (rewrite_plan c)\<rparr>)"

definition RewritePassOuterJoinSupport :: rewrite_pass where
  "RewritePassOuterJoinSupport E c =
     and_then (RewriteOuterJoinSupport (rewrite_binder E) (rewrite_plan c) (next_index c))
       (\<lambda>r. Inr (c\<lparr>rewrite_plan := fst r, next_index := snd r\<rparr>))"

definition RewritePassSemiAntiSubqueries :: rewrite_pass where
  "RewritePassSemiAntiSubqueries E c =
     (let (p, rewritten) = RewriteMarkJoinFilters (rewrite_plan c);
          p = (if rewritten then deliminate E p else p);
          p = RewriteSafeSemiAntiDelimGets E p
      in Inr (c\<lparr>rewrite_plan := fst (RewriteSemiAntiProbeKeyProjections p)\<rparr>))"

text \<open>The passes that add the columns of the refresh, and the whole pipeline.\<close>

definition column_passes :: "rewrite_pass list" where
  "column_passes = [RewritePassAggregateFilters, RewritePassDistinct, RewritePassDerivedAggregates,
     RewritePassGroupCountStar, RewritePassHiddenAggregatePropagation]"

definition rewrite_passes :: "rewrite_pass list" where
  "rewrite_passes = [RewritePassInlineCteRefs, RewritePassFoldConstantScalarSubqueries] @ column_passes @
     [RewritePassOuterJoinSupport, RewritePassSemiAntiSubqueries]"

fun RunRewritePipeline :: "rewrite_env \<Rightarrow> rewrite_pass list \<Rightarrow> rewrite_context \<Rightarrow> rewrite_error + rewrite_context" where
  "RunRewritePipeline E [] c = Inr c"
| "RunRewritePipeline E (p # ps) c = and_then (p E c) (RunRewritePipeline E ps)"

definition PlanRewrite :: "rewrite_env \<Rightarrow> rplan \<Rightarrow> string list \<Rightarrow> idx_t \<Rightarrow> rewrite_error + rewrite_context" where
  "PlanRewrite E plan names index =
     RunRewritePipeline E rewrite_passes \<lparr>rewrite_plan = plan, planner_names = names, next_index = index\<rparr>"

section \<open>The column passes\<close>

lemma thread_same: "(\<And>x s. x \<in> set xs \<Longrightarrow> f x s = (x, s)) \<Longrightarrow> thread f xs s = (xs, s)"
  by (induction xs) simp_all

lemma no_distinct_unchanged:
  "\<not> PlanContainsOperator LOGICAL_DISTINCT p \<Longrightarrow> RewriteDistinct p index = (p, index)"
proof (induction p arbitrary: index rule: rplan_induct)
  case (RPlan t i es cs)
  then have "thread RewriteDistinct cs index = (cs, index)"
    by (intro thread_same) (auto simp: list_ex_iff)
  then show ?case using RPlan.prems by simp
qed

lemma filters_keep_operators:
  "RewriteAggregateFilters B p = Inr p' \<Longrightarrow> PlanContainsOperator ty p' = PlanContainsOperator ty p"
proof (induction p arbitrary: p' rule: rplan_induct)
  case (RPlan t i es cs)
  obtain es' cs' where cs: "list_all2 (\<lambda>c c'. RewriteAggregateFilters B c = Inr c') cs cs'"
    and p': "p' = RPlan t i es' cs'"
    using RPlan.prems by (auto simp: and_then_Inr traverse_Inr split: if_splits)
  then have "list_all2 (\<lambda>c c'. PlanContainsOperator ty c' = PlanContainsOperator ty c) cs cs'"
    using RPlan.IH by (auto simp: list_all2_conv_all_nth)
  then have "list_ex (PlanContainsOperator ty) cs' = list_ex (PlanContainsOperator ty) cs"
    by (auto simp: list_all2_conv_all_nth list_ex_length)
  then show ?case by (simp add: p')
qed

lemma filters_keep_small:
  "RewriteAggregateFilters B p = Inr p' \<Longrightarrow> small_aggregates p \<Longrightarrow> small_aggregates p'"
proof (induction p arbitrary: p' rule: rplan_induct)
  case (RPlan t i es cs)
  obtain es' cs' where cs: "list_all2 (\<lambda>c c'. RewriteAggregateFilters B c = Inr c') cs cs'"
    and p': "p' = RPlan t i es' cs'" and len: "length es' = length es"
    using RPlan.prems by (auto simp: and_then_Inr traverse_Inr split: if_splits dest: list_all2_lengthD)
  have "small_aggregates (cs' ! k)" if "k < length cs'" for k
    using RPlan.IH [of "cs ! k" "cs' ! k"] RPlan.prems(2) cs that
    by (simp add: list_all2_conv_all_nth list_all_length)
  then have "list_all small_aggregates cs'" by (simp add: list_all_length)
  then show ?case using RPlan.prems(2) by (simp add: p' len)
qed

lemma column_passes_plan:
  assumes "RunRewritePipeline E column_passes c = Inr c'"
    and "\<not> PlanContainsOperator LOGICAL_DISTINCT (rewrite_plan c)"
  obtains p q where "RewriteAggregateFilters (rewrite_binder E) (rewrite_plan c) = Inr p"
    "RewriteDerivedAggregates (rewrite_binder E) True p = Inr q"
    "c' = c\<lparr>rewrite_plan := PropagateHiddenAggregateColumns (InjectGroupCountStar q)\<rparr>"
proof -
  obtain p where p: "RewriteAggregateFilters (rewrite_binder E) (rewrite_plan c) = Inr p"
    and rest: "RunRewritePipeline E (tl column_passes) (c\<lparr>rewrite_plan := p\<rparr>) = Inr c'"
    using assms(1) by (auto simp: column_passes_def RewritePassAggregateFilters_def and_then_Inr)
  have free: "\<not> PlanContainsOperator LOGICAL_DISTINCT p" using assms(2) filters_keep_operators [OF p] by simp
  then have "\<not> HasTopLevelDistinct p"
    by (cases p; cases "rkids p"; cases "hd (rkids p)") (auto simp: HasTopLevelDistinct_def)
  then have "RewritePassDistinct E (c\<lparr>rewrite_plan := p\<rparr>) = Inr (c\<lparr>rewrite_plan := p\<rparr>)"
    by (simp add: RewritePassDistinct_def no_distinct_unchanged [OF free])
  then obtain q where "RewriteDerivedAggregates (rewrite_binder E) True p = Inr q"
    "c' = c\<lparr>rewrite_plan := PropagateHiddenAggregateColumns (InjectGroupCountStar q)\<rparr>"
    using rest by (auto simp: column_passes_def RewritePassDerivedAggregates_def RewritePassGroupCountStar_def
        RewritePassHiddenAggregatePropagation_def and_then_Inr)
  then show thesis using that p by blast
qed

text \<open>C15: for a plan without \<open>DISTINCT\<close>, the passes that add the columns of the refresh
  (\<open>FILTER\<close> of aggregates, derived aggregates, the hidden count, the propagation) yield a well-bound
  plan from a well-bound one, every reference a column that a child gives, and keep the columns the
  plan had.\<close>

theorem column_passes_well_bound:
  assumes "RunRewritePipeline E column_passes c = Inr c'"
    and "well_bound (rewrite_plan c)" and "small_aggregates (rewrite_plan c)"
    and "\<not> PlanContainsOperator LOGICAL_DISTINCT (rewrite_plan c)"
  shows "well_bound (rewrite_plan c') \<and>
    set (GetColumnBindings (rewrite_plan c)) \<subseteq> set (GetColumnBindings (rewrite_plan c')) \<and>
    planner_names c' = planner_names c"
proof -
  obtain p q where p: "RewriteAggregateFilters (rewrite_binder E) (rewrite_plan c) = Inr p"
    and q: "RewriteDerivedAggregates (rewrite_binder E) True p = Inr q"
    and c': "c' = c\<lparr>rewrite_plan := PropagateHiddenAggregateColumns (InjectGroupCountStar q)\<rparr>"
    by (rule column_passes_plan [OF assms(1,4)])
  have "keeps (rewrite_plan c) p" by (rule aggregate_filters_keep [OF p assms(2)])
  moreover have "keeps p q"
    using derived_aggregates_keep [OF q] filters_keep_small [OF p assms(3)] calculation by (simp add: keeps_def)
  moreover have "keeps q (InjectGroupCountStar q)" using count_star_keeps calculation by (simp add: keeps_def)
  moreover have "keeps (InjectGroupCountStar q) (PropagateHiddenAggregateColumns (InjectGroupCountStar q))"
    using propagation_keeps calculation by (simp add: keeps_def)
  ultimately have "keeps (rewrite_plan c) (PropagateHiddenAggregateColumns (InjectGroupCountStar q))"
    using keeps_trans by blast
  then show ?thesis by (simp add: keeps_def extends_def c')
qed

end
