(* ===== verification/Rewrite_Having.thy ===== *)
theory Rewrite_Having
  imports Rewrite_Aggregates Sql_Names
begin

text \<open>
  \<open>StripHavingFilter\<close> of \<open>src/core/plan_rewrite.cpp\<close>: the data table of a view keeps all its groups,
  so the \<open>HAVING\<close> filter leaves the plan, its predicate becomes SQL over the output names, and the
  aggregates it reads that the view does not show become hidden columns of every projection.
\<close>

section \<open>The predicate as SQL\<close>

definition ExpressionTypeToOperator :: "comparison \<Rightarrow> string" where
  "ExpressionTypeToOperator c =
     (case c of
        COMPARE_EQUAL \<Rightarrow> ''='' | COMPARE_NOTEQUAL \<Rightarrow> ''!='' | COMPARE_LESSTHAN \<Rightarrow> ''<''
      | COMPARE_GREATERTHAN \<Rightarrow> ''>'' | COMPARE_LESSTHANOREQUALTO \<Rightarrow> ''<=''
      | COMPARE_GREATERTHANOREQUALTO \<Rightarrow> ''>='' | COMPARE_DISTINCT_FROM \<Rightarrow> ''IS DISTINCT FROM''
      | COMPARE_NOT_DISTINCT_FROM \<Rightarrow> ''IS NOT DISTINCT FROM'')"

text \<open>The map from the hash of a binding to an output name; the newest entry is first.\<close>

type_synonym alias_map = "(64 word \<times> string) list"

definition operator_sql :: "operator_type \<Rightarrow> string list \<Rightarrow> string \<Rightarrow> string" where
  "operator_sql c es printed =
     (case (c, es) of
        (OPERATOR_IS_NULL, [e]) \<Rightarrow> ''('' @ e @ '') IS NULL''
      | (OPERATOR_IS_NOT_NULL, [e]) \<Rightarrow> ''('' @ e @ '') IS NOT NULL''
      | (OPERATOR_NOT, [e]) \<Rightarrow> ''(NOT ('' @ e @ ''))''
      | _ \<Rightarrow> printed)"

fun HavingExprToSQL :: "bind_env \<Rightarrow> alias_map \<Rightarrow> rexpr \<Rightarrow> string" where
  "HavingExprToSQL B m (ColumnRefExpr a t b) =
     (case map_of m (binding_key b) of Some s \<Rightarrow> s | None \<Rightarrow> expr_text B (ColumnRefExpr a t b))"
| "HavingExprToSQL B m (ComparisonExpr a c l r) =
     ''('' @ HavingExprToSQL B m l @ '' '' @ ExpressionTypeToOperator c @ '' '' @ HavingExprToSQL B m r @ '')''"
| "HavingExprToSQL B m (ConstantExpr a t v) = value_text B v"
| "HavingExprToSQL B m (CastExpr a t e) = HavingExprToSQL B m e"
| "HavingExprToSQL B m (ConjunctionExpr a is_and es) =
     join_with (if is_and then '' AND '' else '' OR '') (map (\<lambda>e. ''('' @ HavingExprToSQL B m e @ '')'') es)"
| "HavingExprToSQL B m (OperatorExpr a t c es) =
     operator_sql c (map (HavingExprToSQL B m) es) (expr_text B (OperatorExpr a t c es))"
| "HavingExprToSQL B m (AggregateExpr a t f d es fi) =
     (case es of
        [ColumnRefExpr a' t' b] \<Rightarrow>
          (case map_of m (binding_key b) of Some s \<Rightarrow> s | None \<Rightarrow> expr_text B (AggregateExpr a t f d es fi))
      | _ \<Rightarrow> expr_text B (AggregateExpr a t f d es fi))"
| "HavingExprToSQL B m e = expr_text B e"

section \<open>Finding the filter\<close>

fun path_in :: "(rplan \<Rightarrow> nat list option) \<Rightarrow> nat \<Rightarrow> rplan list \<Rightarrow> nat list option" where
  "path_in f k [] = None"
| "path_in f k (c # cs) = (case f c of Some p \<Rightarrow> Some (k # p) | None \<Rightarrow> path_in f (Suc k) cs)"

lemma path_in_cong [fundef_cong]:
  "xs = ys \<Longrightarrow> (\<And>x. x \<in> set ys \<Longrightarrow> f x = g x) \<Longrightarrow> k = k' \<Longrightarrow> path_in f k xs = path_in g k' ys"
proof (induction ys arbitrary: xs k k')
  case (Cons y ys)
  have "f y = g y" and "path_in f (Suc k) ys = path_in g (Suc k) ys" using Cons by simp_all
  then show ?case using Cons.prems by (simp split: option.splits)
qed simp

text \<open>Only transparent operators are entered, of a materialized CTE only the outer query.\<close>

fun find_filter :: "rplan \<Rightarrow> nat list option" where
  "find_filter (RPlan t i es cs) =
     (if t = LOGICAL_FILTER \<and> cs \<noteq> [] \<and> rop (hd cs) = LOGICAL_AGGREGATE_AND_GROUP_BY then Some []
      else if t = LOGICAL_MATERIALIZED_CTE
      then (case cs of _ # c # _ \<Rightarrow> map_option ((#) 1) (find_filter c) | _ \<Rightarrow> None)
      else if t \<notin> {LOGICAL_PROJECTION, LOGICAL_FILTER, LOGICAL_ORDER_BY, LOGICAL_LIMIT, LOGICAL_DISTINCT} then None
      else path_in find_filter 0 cs)"

section \<open>The names of the output columns\<close>

fun output_aliases :: "rexpr list \<Rightarrow> string list \<Rightarrow> alias_map \<Rightarrow> alias_map" where
  "output_aliases (e # es) (n # ns) m =
     output_aliases es ns (case e of ColumnRefExpr a t b \<Rightarrow> (binding_key b, n) # m | _ \<Rightarrow> m)"
| "output_aliases _ _ m = m"

text \<open>\<open>CollectFilterBindings\<close> fills an ordered set of pairs.\<close>

fun insert_binding :: "ColumnBinding \<Rightarrow> ColumnBinding list \<Rightarrow> ColumnBinding list" where
  "insert_binding b [] = [b]"
| "insert_binding b (c # cs) =
     (if b = c then c # cs
      else if fst b < fst c \<or> fst b = fst c \<and> snd b < snd c then b # c # cs
      else c # insert_binding b cs)"

definition CollectFilterBindings :: "rexpr list \<Rightarrow> ColumnBinding list" where
  "CollectFilterBindings es = fold insert_binding (concat (map bindings_of es)) []"

section \<open>Hidden columns for the predicate\<close>

record having_state =
  next_hidden :: nat
  hidden_exprs :: "rexpr list"
  hidden_names :: "string list"
  binding_to_alias :: alias_map

definition hidden_name_of :: "nat \<Rightarrow> string" where
  "hidden_name_of k = ''openivm_having_'' @ nat_string k"

definition expose_binding :: "rplan \<Rightarrow> ColumnBinding \<Rightarrow> having_state \<Rightarrow> having_state" where
  "expose_binding agg b s =
     (if map_of (binding_to_alias s) (binding_key b) \<noteq> None \<or> fst b \<noteq> aggregate_index (rinfo agg) \<or>
         length (rexprs agg) \<le> snd b then s
      else let n = hidden_name_of (next_hidden s)
        in \<lparr>next_hidden = Suc (next_hidden s),
            hidden_exprs = hidden_exprs s @ [ColumnRefExpr n (return_type (rexprs agg ! snd b)) b],
            hidden_names = hidden_names s @ [n],
            binding_to_alias = (binding_key b, n) # binding_to_alias s\<rparr>)"

definition expose_bindings :: "rplan \<Rightarrow> rexpr list \<Rightarrow> alias_map \<Rightarrow> having_state" where
  "expose_bindings agg preds m =
     fold (expose_binding agg) (CollectFilterBindings preds)
       \<lparr>next_hidden = 0, hidden_exprs = [], hidden_names = [], binding_to_alias = m\<rparr>"

text \<open>The hidden columns of one projection are referenced by the projection above it.\<close>

type_synonym carried = "(ColumnBinding \<times> LogicalType \<times> string) list"

definition extend_projection :: "carried \<Rightarrow> rplan \<Rightarrow> rplan" where
  "extend_projection cs p = with_exprs (\<lambda>es. es @ map (\<lambda>(b, t, n). ColumnRefExpr n t b) cs) p"

definition carried_by :: "rplan \<Rightarrow> carried \<Rightarrow> carried" where
  "carried_by upper cs =
     map (\<lambda>j. ((op_index (rinfo upper), length (rexprs upper) + j), snd (cs ! j))) [0..<length cs]"

fun carry_up :: "nat list list \<Rightarrow> carried \<Rightarrow> rplan \<Rightarrow> rplan" where
  "carry_up [] cs plan = plan"
| "carry_up (path # paths) cs plan =
     carry_up paths (carried_by (subplan plan path) cs) (update_at path (extend_projection cs) plan)"

text \<open>The paths of the projections over the filter, the lowest first.\<close>

definition projections_above :: "rplan \<Rightarrow> nat list \<Rightarrow> nat list list" where
  "projections_above plan path =
     rev (filter (\<lambda>p. rop (subplan plan p) = LOGICAL_PROJECTION) (map (\<lambda>k. take k path) [0..<length path]))"

definition hidden_carried :: "bind_env \<Rightarrow> rplan \<Rightarrow> nat \<Rightarrow> carried" where
  "hidden_carried B proj start =
     map (\<lambda>i. ((op_index (rinfo proj), i), return_type (rexprs proj ! i), expr_name B (rexprs proj ! i)))
       [start..<length (rexprs proj)]"

definition having_sql_of :: "bind_env \<Rightarrow> alias_map \<Rightarrow> rexpr list \<Rightarrow> string" where
  "having_sql_of B m preds = join_with '' AND '' (map (HavingExprToSQL B m) preds)"

definition remove_filter :: "nat list \<Rightarrow> rplan \<Rightarrow> rplan" where
  "remove_filter path plan = update_at path (\<lambda>f. hd (rkids f)) plan"

definition strip_below_projection :: "bind_env \<Rightarrow> nat list \<Rightarrow> rplan \<Rightarrow> string list \<Rightarrow> string \<times> rplan \<times> string list" where
  "strip_below_projection B path plan output_names =
     (let filter_node = subplan plan path; above = butlast path; proj = subplan plan above;
          s = expose_bindings (hd (rkids filter_node)) (rexprs filter_node)
                (output_aliases (rexprs proj) output_names []);
          start = length (rexprs proj);
          plan = update_at above (with_exprs (\<lambda>es. es @ hidden_exprs s)) plan;
          plan = (if hidden_exprs s = [] then plan
                  else carry_up (tl (projections_above plan path)) (hidden_carried B (subplan plan above) start) plan)
      in (having_sql_of B (binding_to_alias s) (rexprs filter_node), remove_filter path plan,
          output_names @ hidden_names s))"

definition StripHavingFilter :: "bind_env \<Rightarrow> rplan \<Rightarrow> string list \<Rightarrow> string \<times> rplan \<times> string list" where
  "StripHavingFilter B plan output_names =
     (case find_filter plan of
        None \<Rightarrow> ([], plan, output_names)
      | Some path \<Rightarrow>
          if path \<noteq> [] \<and> rop (subplan plan (butlast path)) = LOGICAL_PROJECTION
          then strip_below_projection B path plan output_names
          else (having_sql_of B [] (rexprs (subplan plan path)), remove_filter path plan, output_names))"

end
