(* ===== verification/Rewrite_Properties.thy ===== *)
theory Rewrite_Properties
  imports Rewrite_Pipeline Rewrite_Having
begin

text \<open>
  Concrete plans for the properties of the rewrites, and what the rewrites do to an aggregate they do
  not look at closely: a distinct average, an average in a \<open>HAVING\<close>, a string in a \<open>HAVING\<close>, a
  variance under stacked projections, a \<open>DISTINCT\<close> under a projection.
\<close>

section \<open>A sample database\<close>

definition sample_text :: "scalar \<Rightarrow> string" where
  "sample_text v = (case v of SStr s \<Rightarrow> s | _ \<Rightarrow> ''5'')"

definition sample_binder :: bind_env where
  "sample_binder = \<lparr>bind_aggregate = (\<lambda>f ts. Some TypeBigint), scalar_type = (\<lambda>f ts. TypeBigint),
     expr_text = (\<lambda>e. ''?''), value_text = sample_text\<rparr>"

definition sample_interp :: "row list \<Rightarrow> interp" where
  "sample_interp rows = \<lparr>function_value = (\<lambda>f vs. SNull), aggregate_value = (\<lambda>f d ts. SNull),
     cast_value = (\<lambda>t v. v), class_value = (\<lambda>f vs. SNull), operator_rows = (\<lambda>t i es rs. rows)\<rparr>"

definition table_row :: "string \<Rightarrow> real \<Rightarrow> row" where
  "table_row g x = column_row 0 [SStr g, SNum x]"

definition sample_table :: rplan where
  "sample_table = get_of [((0, 0), TypeOther ''VARCHAR''), ((0, 1), TypeBigint)]"

definition g_col :: rexpr where "g_col = ColumnRefExpr ''g'' (TypeOther ''VARCHAR'') (0, 0)"
definition x_col :: rexpr where "x_col = ColumnRefExpr ''x'' TypeBigint (0, 1)"

text \<open>\<open>SELECT g, f(x) AS a, count( * ) FROM t GROUP BY g\<close>.\<close>

definition group_info :: rinfo where
  "group_info = no_rinfo\<lparr>group_table := 1, aggregate_index := 2, group_exprs := [g_col], grouping_set_count := 1\<rparr>"

definition group_plan :: "rexpr list \<Rightarrow> rplan" where
  "group_plan aggs = RPlan LOGICAL_AGGREGATE_AND_GROUP_BY group_info aggs [sample_table]"

definition view_exprs :: "rexpr list" where
  "view_exprs = [ColumnRefExpr ''g'' (TypeOther ''VARCHAR'') (1, 0), ColumnRefExpr ''a'' TypeBigint (2, 0),
     ColumnRefExpr ''n'' TypeBigint (2, 1)]"

definition agg_of :: "string \<Rightarrow> bool \<Rightarrow> rexpr" where
  "agg_of f d = AggregateExpr [] TypeBigint f d [x_col] None"

definition view_plan :: "string \<Rightarrow> bool \<Rightarrow> rplan" where
  "view_plan f d = projection_of 5 view_exprs (group_plan [agg_of f d, count_star_expr []])"

text \<open>The rows of the sample plans, column by column.\<close>

lemma column_row_at [simp]:
  "column_row ix vs (jx, k) = (if jx = ix \<and> k < length vs then vs ! k else SNull)"
  by (simp add: column_row_def)

lemma table_row_at [simp]: "table_row g x (0, 0) = SStr g" "table_row g x (0, Suc 0) = SNum x"
  by (simp_all add: table_row_def)

lemma group_info_fields [simp]:
  "group_table group_info = 1" "aggregate_index group_info = 2" "group_exprs group_info = [g_col]"
  by (simp_all add: group_info_def)

lemma group_plan_rows [simp]:
  "plan_rows (sample_interp rows) (group_plan aggs) =
   map (aggregate_row (sample_interp rows) group_info aggs rows) (remdups (map (\<lambda>r. [r (0, 0)]) rows))"
  by (simp add: group_plan_def sample_table_def get_of_def operator_result_def sample_interp_def group_keys_def
      group_key_def [abs_def] g_col_def)

lemma group_row_at [simp]:
  "aggregate_row I group_info aggs rows [k] (Suc 0, 0) = k"
  "j < length aggs \<Longrightarrow> aggregate_row I group_info aggs rows [k] (2, j) =
     group_value I (filter (\<lambda>r. r (0, 0) = k) rows) (aggs ! j)"
  by (simp_all add: aggregate_row_def group_rows_def group_key_def g_col_def)

lemma projection_rows [simp]:
  "plan_rows I (projection_of ix es p) = map (\<lambda>r. column_row ix (map (eval I r) es)) (plan_rows I p)"
  by (simp add: projection_of_def operator_result_def no_rinfo_def)

lemma filter_rows [simp]: "plan_rows I (filter_of ps p) = filter (\<lambda>r. list_all (passes I r) ps) (plan_rows I p)"
  by (simp add: filter_of_def operator_result_def)

lemma visible_three: "visible ix 3 r = [r (ix, 0), r (ix, Suc 0), r (ix, 2)]"
  by (simp add: visible_def upt_rec numeral_2_eq_2)

lemmas group_values = group_value_def agg_function_def agg_inputs_def sum_of_def mean_of_def x_col_def
  count_star_expr_def agg_of_def multiply_values visible_three

lemma star_value:
  "group_value I rows (AggregateExpr a t ''count_star'' False [] None) = SNum (real (length rows))"
  by (simp add: group_value_def agg_function_def)

lemmas part_group_values = part_values star_value multiply_values
lemmas input_values = column_inputs_def sum_of_def x_col_def

definition avg_state :: derived_state where
  "avg_state = \<lparr>new_exprs = [AggregateExpr ''openivm_sum_avg_x'' TypeBigint ''sum'' False [x_col] None,
       AggregateExpr ''openivm_count_avg_x'' TypeBigint ''count'' False [x_col] None, count_star_expr []],
     decomps = [\<lparr>is_avg_decomp = True, decomp_alias = ''avg_x'', user_alias = [], func_name = ''avg'',
       sum_idx = 0, sum_sq_idx = 1, count_idx = 1, old_idx = 0\<rparr>],
     nondecomposed_remap = [(1, 2)]\<rparr>"

lemma sample_bind [simp]:
  "BindAggregateByName sample_binder f ts = Inr TypeBigint"
  "BindScalarFunction sample_binder f es = FunctionExpr [] TypeBigint f False es"
  by (simp_all add: BindAggregateByName_def BindScalarFunction_def sample_binder_def)

lemma avg_name: "agg_alias sample_binder [] ''avg'' x_col = ''avg_x''"
  by (simp add: agg_alias_def clean_name_def clean_step_def expr_name_def x_col_def is_alnum_def is_alpha_def is_digit_def)

lemma decompose_avg:
  "decompose_from sample_binder 0 [agg_of ''avg'' d, count_star_expr []]
     \<lparr>new_exprs = [], decomps = [], nondecomposed_remap = []\<rparr> = Inr avg_state"
  by (simp add: agg_of_def decompose_expr_def decompose_derived_def avg_name count_star_expr_def push_expr_def keep_expr_def
    Let_def IsStddevOrVariance_def avg_state_def SUM_COL_PREFIX_def COUNT_COL_PREFIX_def)

definition rewritten_exprs :: "rexpr list" where
  "rewritten_exprs = [ColumnRefExpr ''g'' (TypeOther ''VARCHAR'') (1, 0),
     FunctionExpr ''a'' TypeBigint ''/'' False [ColumnRefExpr [] TypeBigint (2, 0), ColumnRefExpr [] TypeBigint (2, 1)],
     ColumnRefExpr ''n'' TypeBigint (2, 2), ColumnRefExpr ''openivm_sum_a'' TypeBigint (2, 0),
     ColumnRefExpr ''openivm_count_a'' TypeBigint (2, 1)]"

lemma rewrite_avg_projection:
  "rewrite_projection sample_binder group_info avg_state view_exprs = rewritten_exprs"
  by (simp add: rewrite_projection_def indexed_def avg_state_def view_exprs_def set_user_alias_def refers_to_def hidden_refs_def hidden_suffix_def
    part_ref_def clean_name_def clean_step_def is_alnum_def is_alpha_def is_digit_def no_rinfo_def g_col_def replace_exprs.simps walk_ref_def decomp_lookup_def binding_key_def build_replacement_def 
   rewritten_exprs_def upt_rec count_star_expr_def SUM_COL_PREFIX_def COUNT_COL_PREFIX_def Let_def)
text \<open>The average view and its rewritten plan.\<close>

definition avg_rewritten :: rplan where
  "avg_rewritten = projection_of 5 rewritten_exprs (group_plan (new_exprs avg_state))"

lemma rewrite_avg_view:
  "RewriteDerivedAggregates sample_binder is_top (view_plan ''avg'' d) = Inr avg_rewritten"
  using decompose_avg [of d] rewrite_avg_projection
  by (simp add: view_plan_def group_plan_def projection_of_def sample_table_def get_of_def
      FindProjectionAggregateInput_def derive_at_def is_derived_def agg_of_def with_exprs_def avg_rewritten_def)

definition sample_rows :: "row list" where
  "sample_rows = [table_row ''a'' 1, table_row ''a'' 1, table_row ''a'' 4]"

lemma avg_view_rows:
  "map (visible 5 3) (plan_rows (sample_interp sample_rows) (view_plan ''avg'' False)) = [[SStr ''a'', SNum 2, SNum 3]]"
  "map (visible 5 3) (plan_rows (sample_interp sample_rows) (view_plan ''avg'' True)) =
     [[SStr ''a'', SNum (5 / 2), SNum 3]]"
  by (simp_all add: view_plan_def view_exprs_def sample_rows_def group_values)

theorem derived_aggregates_keep_values_witness:
  "\<exists>p'. RewriteDerivedAggregates sample_binder True (view_plan ''avg'' False) = Inr p' \<and>
     map (visible 5 3) (plan_rows (sample_interp sample_rows) p') = [[SStr ''a'', SNum 2, SNum 3]]"
proof -
  have "map (visible (op_index (no_rinfo\<lparr>op_index := 5\<rparr>)) (length view_exprs))
      (plan_rows (sample_interp sample_rows) avg_rewritten) =
    map (visible (op_index (no_rinfo\<lparr>op_index := 5\<rparr>)) (length view_exprs))
      (plan_rows (sample_interp sample_rows) (view_plan ''avg'' False))"
  proof (rule derived_aggregates_keep_values [OF rewrite_avg_view])
    show "view_plan ''avg'' False = RPlan LOGICAL_PROJECTION (no_rinfo\<lparr>op_index := 5\<rparr>) view_exprs
        [RPlan LOGICAL_AGGREGATE_AND_GROUP_BY group_info [agg_of ''avg'' False, count_star_expr []] [sample_table]]"
      by (simp add: view_plan_def group_plan_def projection_of_def)
    show "RewriteDerivedAggregates sample_binder False sample_table = Inr sample_table"
      by (simp add: sample_table_def get_of_def FindProjectionAggregateInput_def)
    show "list_all plain_derived [agg_of ''avg'' False, count_star_expr []]"
      by (simp add: plain_derived_def agg_of_def count_star_expr_def is_derived_def IsStddevOrVariance_def)
  qed (simp_all add: view_exprs_def)
  then show ?thesis
    using rewrite_avg_view avg_view_rows(1) by (simp add: view_exprs_def numeral_3_eq_3)
qed

text \<open>C39: \<open>AVG(DISTINCT x)\<close> is rewritten like \<open>AVG(x)\<close>: the sum and the count that replace it are not
  distinct. Over the values 1, 1 and 4 the view's average is 5/2 and the rewritten plan computes 2.\<close>

theorem distinct_average_averages_all:
  "\<exists>p'. RewriteDerivedAggregates sample_binder True (view_plan ''avg'' True) = Inr p' \<and>
     map (visible 5 3) (plan_rows (sample_interp sample_rows) (view_plan ''avg'' True)) =
       [[SStr ''a'', SNum (5 / 2), SNum 3]] \<and>
     map (visible 5 3) (plan_rows (sample_interp sample_rows) p') = [[SStr ''a'', SNum 2, SNum 3]]"
proof -
  have "map (visible 5 3) (plan_rows (sample_interp sample_rows) avg_rewritten) = [[SStr ''a'', SNum 2, SNum 3]]"
    by (simp add: avg_rewritten_def rewritten_exprs_def sample_rows_def visible_three avg_state_def count_star_expr_def,
        simp add: part_group_values, simp add: input_values)
  then show ?thesis by (intro exI conjI) (rule rewrite_avg_view, rule avg_view_rows(2))
qed

section \<open>An average in a HAVING\<close>

definition above_five :: rexpr where
  "above_five = ComparisonExpr [] COMPARE_GREATERTHAN (ColumnRefExpr [] TypeBigint (2, 0))
     (ConstantExpr [] TypeBigint (SNum 5))"

definition having_plan :: rplan where
  "having_plan = projection_of 5 view_exprs
     (filter_of [above_five] (group_plan [agg_of ''avg'' False, count_star_expr []]))"

definition having_rewritten :: rplan where
  "having_rewritten = projection_of 5 rewritten_exprs (filter_of [above_five] (group_plan (new_exprs avg_state)))"

lemma rewrite_having_view: "RewriteDerivedAggregates sample_binder True having_plan = Inr having_rewritten"
  using decompose_avg [of False] rewrite_avg_projection
  by (simp add: having_plan_def group_plan_def projection_of_def filter_of_def sample_table_def
      get_of_def FindProjectionAggregateInput_def derive_at_def is_derived_def agg_of_def with_exprs_def
      having_rewritten_def)

lemma strip_having_view:
  "fst (StripHavingFilter sample_binder having_rewritten [''g'', ''a'', ''n'', ''openivm_sum_a'', ''openivm_count_a'']) =
   ''(openivm_sum_a > 5)''"
  by (simp add: StripHavingFilter_def having_rewritten_def projection_of_def filter_of_def group_plan_def
      strip_below_projection_def expose_bindings_def above_five_def CollectFilterBindings_def
      rewritten_exprs_def binding_key_def expose_binding_def having_sql_of_def ExpressionTypeToOperator_def
      sample_binder_def sample_text_def Let_def)

text \<open>C40: the filter of a \<open>HAVING AVG(x) > 5\<close> is not rewritten with the aggregates below it, so it
  reads the first of their new columns, which is the sum: a group of the values 3 and 3 is not in
  the view and is in the rewritten plan, and the predicate of the user's view becomes
  \<open>openivm_sum_a > 5\<close>.\<close>

theorem having_average_compares_sum:
  "\<exists>p'. RewriteDerivedAggregates sample_binder True having_plan = Inr p' \<and>
     map (visible 5 3) (plan_rows (sample_interp [table_row ''a'' 3, table_row ''a'' 3]) having_plan) = [] \<and>
     map (visible 5 3) (plan_rows (sample_interp [table_row ''a'' 3, table_row ''a'' 3]) p') =
       [[SStr ''a'', SNum 3, SNum 2]] \<and>
     fst (StripHavingFilter sample_binder p' [''g'', ''a'', ''n'', ''openivm_sum_a'', ''openivm_count_a'']) =
       ''(openivm_sum_a > 5)''"
proof (intro exI conjI)
  show "RewriteDerivedAggregates sample_binder True having_plan = Inr having_rewritten" by (rule rewrite_having_view)
  show "map (visible 5 3) (plan_rows (sample_interp [table_row ''a'' 3, table_row ''a'' 3]) having_plan) = []"
    by (simp add: having_plan_def above_five_def passes_def compare_scalars_def group_values)
  show "map (visible 5 3) (plan_rows (sample_interp [table_row ''a'' 3, table_row ''a'' 3]) having_rewritten) =
      [[SStr ''a'', SNum 3, SNum 2]]"
    by (simp add: having_rewritten_def rewritten_exprs_def visible_three avg_state_def count_star_expr_def
          above_five_def passes_def,
        simp add: part_group_values, simp add: input_values compare_scalars_def)
qed (rule strip_having_view)

section \<open>Witnesses of the passes\<close>

lemmas sample_defs = view_plan_def group_plan_def group_info_def view_exprs_def agg_of_def sample_table_def
  g_col_def x_col_def projection_of_def get_of_def no_rinfo_def count_star_expr_def

text \<open>\<open>SELECT g, sum(x) FILTER (WHERE x > 2) ... GROUP BY g\<close>.\<close>

definition x_above_two :: rexpr where
  "x_above_two = ComparisonExpr [] COMPARE_GREATERTHAN x_col (ConstantExpr [] TypeBigint (SNum 2))"

definition filtered_plan :: rplan where
  "filtered_plan = group_plan [AggregateExpr [] TypeBigint ''sum'' False [x_col] (Some x_above_two)]"

definition case_plan :: rplan where
  "case_plan = group_plan [AggregateExpr [] TypeBigint ''sum'' False
     [CaseExpr [] TypeBigint [(x_above_two, x_col)] (ConstantExpr [] TypeBigint SNull)] None]"

lemma rewrite_filtered: "RewriteAggregateFilters sample_binder filtered_plan = Inr case_plan"
  by (simp add: filtered_plan_def case_plan_def group_plan_def sample_table_def get_of_def filter_as_case_def x_col_def)

theorem aggregate_filters_keep_rows_witness:
  "map (\<lambda>r. r (2, 0)) (plan_rows (sample_interp sample_rows) case_plan) = [SNum 4]"
proof -
  have "plan_rows (sample_interp sample_rows) case_plan = plan_rows (sample_interp sample_rows) filtered_plan"
  proof (rule aggregate_filters_keep_rows [OF rewrite_filtered])
    show "filters_skippable (sample_interp sample_rows) filtered_plan"
      by (simp add: filtered_plan_def group_plan_def sample_table_def get_of_def filter_skippable_def
          builtin_skips_nulls)
  qed
  moreover have "map (\<lambda>r. r (2, 0)) (plan_rows (sample_interp sample_rows) filtered_plan) = [SNum 4]"
    by (simp add: filtered_plan_def sample_rows_def x_above_two_def passes_def compare_scalars_def group_values)
  ultimately show ?thesis by simp
qed

definition sample_env :: rewrite_env where
  "sample_env = \<lparr>rewrite_binder = sample_binder,
     rewrite_folder = \<lparr>TryEvaluateScalar = (\<lambda>e. None), IsVolatile = (\<lambda>e. False), IsFoldableExpr = (\<lambda>e. False),
       DefaultCastAs = (\<lambda>v t. v)\<rparr>,
     renumber_subtree = Pair, deliminate = (\<lambda>p. p), RewriteSafeSemiAntiDelimGets = (\<lambda>p. p)\<rparr>"

definition avg_context :: rewrite_context where
  "avg_context = \<lparr>rewrite_plan = view_plan ''avg'' False, planner_names = [''g'', ''a'', ''n''], next_index = 9\<rparr>"

lemma view_plan_columns:
  "GetColumnBindings (view_plan f d) = [(5, 0), (5, 1), (5, 2)]"
  by (simp add: view_plan_def view_exprs_def projection_of_def GetColumnBindings_def own_columns_def indexed_def
      no_rinfo_def numeral_2_eq_2)

lemma view_plan_well_bound: "well_bound (view_plan f False)"
  by (simp add: sample_defs well_shaped_def bound_in_def info_exprs_def opt_list_def
      GetColumnBindings_def own_columns_def indexed_def)

lemma avg_passes:
  "RunRewritePipeline sample_env column_passes avg_context =
     Inr (avg_context\<lparr>rewrite_plan := avg_rewritten\<rparr>)"
proof -
  have "RewriteAggregateFilters sample_binder (view_plan ''avg'' False) = Inr (view_plan ''avg'' False)"
    by (simp add: sample_defs filter_as_case_def)
  moreover have "RewriteDistinct (view_plan ''avg'' False) 9 = (view_plan ''avg'' False, 9)"
    by (rule no_distinct_unchanged) (simp add: sample_defs)
  moreover have "InjectGroupCountStar avg_rewritten = avg_rewritten"
    by (simp add: avg_rewritten_def InjectGroupCountStar_def FindProjectionAggregateInput_def projection_of_def
        group_plan_def avg_state_def reliable_count_def count_star_expr_def)
  moreover have "PropagateHiddenAggregateColumns avg_rewritten = avg_rewritten"
    by (simp add: avg_rewritten_def projection_of_def group_plan_def sample_table_def get_of_def)
  moreover have "\<not> HasTopLevelDistinct (view_plan ''avg'' False)"
    by (simp add: HasTopLevelDistinct_def view_plan_def projection_of_def group_plan_def)
  ultimately show ?thesis
    using rewrite_avg_view [of True False]
    by (simp add: column_passes_def RewritePassAggregateFilters_def RewritePassDistinct_def
        RewritePassDerivedAggregates_def RewritePassGroupCountStar_def
        RewritePassHiddenAggregatePropagation_def sample_env_def avg_context_def)
qed

theorem column_passes_well_bound_witness:
  "well_bound avg_rewritten \<and> {(5, 0), (5, 1), (5, 2)} \<subseteq> set (GetColumnBindings avg_rewritten)"
proof -
  have "well_bound (rewrite_plan avg_context)" "small_aggregates (rewrite_plan avg_context)"
    "\<not> PlanContainsOperator LOGICAL_DISTINCT (rewrite_plan avg_context)"
    "set (GetColumnBindings (rewrite_plan avg_context)) = {(5, 0), (5, 1), (5, 2)}"
    by (simp_all add: avg_context_def view_plan_well_bound view_plan_columns) (simp_all add: sample_defs)
  then show ?thesis using column_passes_well_bound [OF avg_passes] by simp
qed

section \<open>Plans that do not stay well bound\<close>

text \<open>The rewriting of a \<open>DISTINCT\<close> gives its columns new bindings, and nothing above it is rebound: a
  projection over a \<open>DISTINCT\<close> keeps references to the old ones.\<close>

definition distinct_below :: rplan where
  "distinct_below = projection_of 5 [ColumnRefExpr [] (TypeOther ''VARCHAR'') (3, 0)]
     (RPlan LOGICAL_DISTINCT no_rinfo [] [projection_of 3 [g_col] sample_table])"

lemma distinct_below_projection_dangles:
  "well_bound distinct_below \<and> \<not> well_bound (fst (RewriteDistinct distinct_below 9))"
  by (simp add: distinct_below_def sample_defs well_shaped_def bound_in_def info_exprs_def opt_list_def
      GetColumnBindings_def own_columns_def indexed_def distinct_aggregate_def aggregate_of_def plain_refs_def)

text \<open>The match counts of an outer join are added to the aggregate and to the topmost projection; a
  projection between the two does not hand them on.\<close>

definition stacked_outer_join :: rplan where
  "stacked_outer_join = projection_of 6 [ColumnRefExpr [] TypeBigint (5, 0)]
     (projection_of 5 [ColumnRefExpr [] TypeBigint (2, 0)] (group_plan [agg_of ''sum'' False]))"

definition outer_bindings :: OuterJoinBindings where
  "outer_bindings = outer_join_bindings (no_rinfo\<lparr>rjoin_type := Some JOIN_LEFT\<rparr>) (COMPARE_EQUAL, g_col, x_col)"

lemma match_count_dangles:
  "well_bound stacked_outer_join \<and>
   (\<exists>p'. RewriteLeftJoinMatchCount sample_binder stacked_outer_join outer_bindings = Inr p' \<and> \<not> well_bound p')"
  by (simp add: stacked_outer_join_def sample_defs well_shaped_def bound_in_def info_exprs_def opt_list_def
      GetColumnBindings_def own_columns_def indexed_def RewriteLeftJoinMatchCount_def match_count_expr_def
      outer_bindings_def outer_join_bindings_def ReadColumnRefBinding_def with_exprs_def Let_def)

text \<open>A string in a \<open>HAVING\<close> is printed by \<open>Value::ToString\<close>, without quotes.\<close>

lemma having_string_unquoted:
  assumes "value_text B (SStr s) = s"
  shows "HavingExprToSQL B m (ComparisonExpr a COMPARE_GREATERTHAN x (ConstantExpr c t (SStr s))) =
    ''('' @ HavingExprToSQL B m x @ '' > '' @ s @ '')''"
  using assms by (simp add: ExpressionTypeToOperator_def)

text \<open>Of the hidden parts of a variance only the sum and the count are carried through a stacked
  projection: the prefix of its sum of squares is not among the hidden ones.\<close>

lemma variance_squares_not_hidden:
  "IsHiddenAggregateAlias (SUM_COL_PREFIX @ x)" "IsHiddenAggregateAlias (COUNT_COL_PREFIX @ x)"
  "IsHiddenAggregateAlias (SumSqPrefix ''stddev'' @ x)" "IsHiddenAggregateAlias (SumSqPrefix ''stddev_pop'' @ x)"
  "\<not> IsHiddenAggregateAlias (SumSqPrefix ''variance'' @ x)" "\<not> IsHiddenAggregateAlias (SumSqPrefix ''var_pop'' @ x)"
  by (simp_all add: IsHiddenAggregateAlias_def SumSqPrefix_def SUM_COL_PREFIX_def COUNT_COL_PREFIX_def
      SUM_SQ_COL_PREFIX_def SUM_SQP_COL_PREFIX_def VAR_SQ_COL_PREFIX_def VAR_SQP_COL_PREFIX_def)

end
