(* ===== verification/Subquery_Correct.thy ===== *)
theory Subquery_Correct
  imports Rewrite_Subqueries Rewrite_Constants Rewrite_Types
begin

text \<open>
  The subquery rewrites keep the rows: a filter on the mark of a null-safe mark join is the semi or
  the anti join that replaces it, and a subtree that folds has exactly one row with the folded
  values. Joins and leaves are interpreted by the parameter of the semantics; the hypotheses state
  what DuckDB documents of them.
\<close>

section \<open>Mark, semi and anti joins\<close>

definition join_match :: "interp \<Rightarrow> (comparison \<times> rexpr \<times> rexpr) list \<Rightarrow> row \<Rightarrow> row \<Rightarrow> scalar" where
  "join_match I conds l r =
     conjunction_value True (map (\<lambda>c. compare_scalars (fst c) (eval I l (fst (snd c))) (eval I r (snd (snd c)))) conds)"

text \<open>The mark is true if a row matches, unknown if none does but one might, and false otherwise.\<close>

definition mark_value :: "interp \<Rightarrow> (comparison \<times> rexpr \<times> rexpr) list \<Rightarrow> row list \<Rightarrow> row \<Rightarrow> scalar" where
  "mark_value I conds rs l =
     (if list_ex (\<lambda>r. join_match I conds l r = SBool True) rs then SBool True
      else if list_ex (\<lambda>r. join_match I conds l r = SNull) rs then SNull else SBool False)"

definition has_match :: "interp \<Rightarrow> (comparison \<times> rexpr \<times> rexpr) list \<Rightarrow> row list \<Rightarrow> row \<Rightarrow> bool" where
  "has_match I conds rs l = list_ex (\<lambda>r. join_match I conds l r = SBool True) rs"

definition interprets_joins :: "interp \<Rightarrow> bool" where
  "interprets_joins I \<longleftrightarrow>
     (\<forall>t i es ls rs. t \<in> {LOGICAL_COMPARISON_JOIN, LOGICAL_DELIM_JOIN} \<longrightarrow>
        (rjoin_type i = Some JOIN_MARK \<longrightarrow> operator_rows I t i es [ls, rs] =
           map (\<lambda>l. l((mark_index i, 0) := mark_value I (rconditions i) rs l)) ls) \<and>
        (rjoin_type i = Some JOIN_SEMI \<longrightarrow> operator_rows I t i es [ls, rs] =
           filter (has_match I (rconditions i) rs) ls) \<and>
        (rjoin_type i = Some JOIN_ANTI \<longrightarrow> operator_rows I t i es [ls, rs] =
           filter (\<lambda>l. \<not> has_match I (rconditions i) rs l) ls))"

lemma join_rows:
  assumes "interprets_joins I" and "t \<in> {LOGICAL_COMPARISON_JOIN, LOGICAL_DELIM_JOIN}"
  shows "rjoin_type i = Some JOIN_MARK \<Longrightarrow> operator_rows I t i es [ls, rs] =
      map (\<lambda>l. l((mark_index i, 0) := mark_value I (rconditions i) rs l)) ls"
    and "rjoin_type i = Some JOIN_SEMI \<Longrightarrow> operator_rows I t i es [ls, rs] =
      filter (has_match I (rconditions i) rs) ls"
    and "rjoin_type i = Some JOIN_ANTI \<Longrightarrow> operator_rows I t i es [ls, rs] =
      filter (\<lambda>l. \<not> has_match I (rconditions i) rs l) ls"
  using assms unfolding interprets_joins_def by blast+

lemma null_safe_match:
  "list_all (\<lambda>c. fst c = COMPARE_NOT_DISTINCT_FROM) conds \<Longrightarrow> join_match I conds l r \<noteq> SNull"
proof -
  assume safe: "list_all (\<lambda>c. fst c = COMPARE_NOT_DISTINCT_FROM) conds"
  have "SNull \<notin> set (map (\<lambda>c. compare_scalars (fst c) (eval I l (fst (snd c))) (eval I r (snd (snd c)))) conds)"
    using safe by (auto simp: list_all_iff compare_scalars_def)
  then show ?thesis by (simp add: join_match_def conjunction_value_def)
qed

lemma null_safe_mark:
  "list_all (\<lambda>c. fst c = COMPARE_NOT_DISTINCT_FROM) conds \<Longrightarrow>
   mark_value I conds rs l = SBool (has_match I conds rs l)"
  using null_safe_match by (auto simp: mark_value_def has_match_def list_ex_iff)

text \<open>Everything but the mark's column, which the semi join no longer gives.\<close>

definition without_mark :: "idx_t \<Rightarrow> row \<Rightarrow> row" where
  "without_mark mark r = r((mark, 0) := SNull)"

definition mark_free :: "idx_t \<Rightarrow> rexpr \<Rightarrow> bool" where
  "mark_free mark e \<longleftrightarrow> (mark, 0) \<notin> set (bindings_of e)"

lemma mark_free_eval: "mark_free mark e \<Longrightarrow> eval I (r((mark, 0) := v)) e = eval I r e"
  by (rule eval_cong) (auto simp: mark_free_def)

lemma mark_ref_passes:
  "IsMarkColumnRef e mark \<Longrightarrow> passes I (r((mark, 0) := SBool b)) e = b"
  "IsNotMarkColumnRef e mark \<Longrightarrow> passes I (r((mark, 0) := SBool b)) e = (\<not> b)"
  by (auto simp: IsMarkColumnRef_def IsNotMarkColumnRef_def passes_def
      split: rexpr.splits operator_type.splits list.splits)

lemma mark_not_both: "IsMarkColumnRef e mark \<Longrightarrow> \<not> IsNotMarkColumnRef e mark"
  by (auto simp: IsMarkColumnRef_def IsNotMarkColumnRef_def split: rexpr.splits)

lemma find_mark_filter_Some:
  assumes "find_mark_filter es mark = Some (k, jt)"
  shows "k < length es \<and>
    (jt = JOIN_SEMI \<and> IsMarkColumnRef (es ! k) mark \<or> jt = JOIN_ANTI \<and> IsNotMarkColumnRef (es ! k) mark)"
  using assms by (auto simp: find_mark_filter_def find_Some_iff split: if_splits)

lemma list_all_remove_nth:
  "k < length xs \<Longrightarrow> list_all P xs = (P (xs ! k) \<and> list_all P (take k xs @ drop (Suc k) xs))"
  by (subst id_take_nth_drop [of k xs]) auto

text \<open>The rows above the join, with the mark and with the semi or the anti join.\<close>

lemma filtered_mark_rows:
  assumes joins: "interprets_joins I" and t: "t \<in> {LOGICAL_COMPARISON_JOIN, LOGICAL_DELIM_JOIN}"
    and mark: "rjoin_type i = Some JOIN_MARK"
    and safe: "list_all (\<lambda>c. fst c = COMPARE_NOT_DISTINCT_FROM) (rconditions i)"
    and k: "find_mark_filter es (mark_index i) = Some (k, jt)"
    and rest: "list_all (mark_free (mark_index i)) (take k es @ drop (Suc k) es)"
  shows "map (without_mark (mark_index i)) (filter (\<lambda>r. list_all (passes I r) es) (operator_rows I t i js [ls, rs])) =
    map (without_mark (mark_index i)) (filter (\<lambda>r. list_all (passes I r) (take k es @ drop (Suc k) es))
      (operator_rows I t (i\<lparr>rjoin_type := Some jt\<rparr>) js [ls, rs]))"
proof -
  let ?m = "mark_index i" and ?rest = "take k es @ drop (Suc k) es" and ?has = "has_match I (rconditions i) rs"
  note found = find_mark_filter_Some [OF k]
  have keep: "list_all (passes I (l((?m, 0) := v))) ?rest = list_all (passes I l) ?rest" for l v
    using rest mark_free_eval unfolding list_all_iff passes_def by metis
  have "list_all (passes I (l((?m, 0) := SBool (?has l)))) es =
      ((jt = JOIN_SEMI) = ?has l \<and> list_all (passes I l) ?rest)" for l
    using found mark_ref_passes [of "es ! k" ?m I l "?has l"]
    unfolding list_all_remove_nth [OF found [THEN conjunct1]] keep by auto
  then have left: "map (without_mark ?m) (filter (\<lambda>r. list_all (passes I r) es) (operator_rows I t i js [ls, rs])) =
      map (without_mark ?m) (filter (\<lambda>l. (jt = JOIN_SEMI) = ?has l \<and> list_all (passes I l) ?rest) ls)"
    unfolding join_rows(1) [OF joins t mark] null_safe_mark [OF safe] filter_map comp_def
    by (simp add: without_mark_def comp_def)
  have "jt = JOIN_SEMI \<or> jt = JOIN_ANTI" using found by blast
  then have "operator_rows I t (i\<lparr>rjoin_type := Some jt\<rparr>) js [ls, rs] = filter (\<lambda>l. (jt = JOIN_SEMI) = ?has l) ls"
    using join_rows(2,3) [OF joins t, of "i\<lparr>rjoin_type := Some jt\<rparr>" js ls rs] by auto
  then show ?thesis unfolding left by (simp add: conj_commute conj_left_commute)
qed

text \<open>C13: the rewriting of a filter on a mark join into a filter on a semi or an anti join keeps the
  rows, but for the mark's own column: the comparisons of a convertible mark join are null-safe, so
  its mark is never unknown. The other filters do not read the mark, and no mark join below the
  preserved side is left to convert.\<close>

theorem mark_filter_is_semi_join:
  assumes "interprets_joins I" and "MarkJoinCanBecomeSemiAnti join" and "rkids join = [l, r]"
    and "CollectConvertibleMarkIndexes l = []"
    and "find_mark_filter es (mark_index (rinfo join)) = Some (k, jt)"
    and "list_all (mark_free (mark_index (rinfo join))) (take k es @ drop (Suc k) es)"
    and "TryRewriteMarkFilter rewrite (filter_of es join) = (p', True)"
  shows "map (without_mark (mark_index (rinfo join))) (plan_rows I p') =
    map (without_mark (mark_index (rinfo join))) (plan_rows I (filter_of es join))"
proof -
  obtain t i js where join: "join = RPlan t i js [l, r]" using assms(3) by (cases join) auto
  let ?rest = "take k es @ drop (Suc k) es" and ?join' = "RPlan t (i\<lparr>rjoin_type := Some jt\<rparr>) js [l, r]"
  have t: "t \<in> {LOGICAL_COMPARISON_JOIN, LOGICAL_DELIM_JOIN}" and mark: "rjoin_type i = Some JOIN_MARK"
    and safe: "list_all (\<lambda>c. fst c = COMPARE_NOT_DISTINCT_FROM) (rconditions i)"
    using assms(2) by (auto simp: MarkJoinCanBecomeSemiAnti_def is_comparison_join_def join)
  have "jt = JOIN_SEMI \<or> jt = JOIN_ANTI" using find_mark_filter_Some [OF assms(5)] by auto
  then have "fst (TryPushMarkFilterThroughSemiAnti rewrite (RPlan LOGICAL_FILTER no_rinfo ?rest [?join'])) =
      RPlan LOGICAL_FILTER no_rinfo ?rest [?join']"
    using assms(4) by (auto simp: TryPushMarkFilterThroughSemiAnti_def SemiAntiProbeChildIndex_def INVALID_INDEX_def Let_def)
  then have "p' = (if ?rest = [] then ?join' else RPlan LOGICAL_FILTER no_rinfo ?rest [?join'])"
    using assms(2,5,7)
    by (auto simp: TryRewriteMarkFilter_def filter_of_def plain_filter_def no_rinfo_def join Let_def split: if_splits)
  moreover have "plan_rows I ?join' = operator_rows I t (i\<lparr>rjoin_type := Some jt\<rparr>) js [plan_rows I l, plan_rows I r]"
    using t by (auto simp: operator_result_def)
  ultimately have "plan_rows I p' = filter (\<lambda>r. list_all (passes I r) ?rest)
      (operator_rows I t (i\<lparr>rjoin_type := Some jt\<rparr>) js [plan_rows I l, plan_rows I r])"
    by (auto simp: operator_result_def)
  moreover have "plan_rows I (filter_of es join) = filter (\<lambda>r. list_all (passes I r) es)
      (operator_rows I t i js [plan_rows I l, plan_rows I r])"
    using t by (auto simp: filter_of_def operator_result_def join)
  ultimately show ?thesis
    using filtered_mark_rows [OF assms(1) t mark safe, of es k jt js "plan_rows I l" "plan_rows I r"] assms(5,6)
    by (simp add: join)
qed

section \<open>Constant subtrees\<close>

text \<open>What the folder relies on: a foldable, non-volatile expression has the value DuckDB evaluates it to
  in every row, and casting a column's value to the column's own type changes nothing.\<close>

definition sound_folder :: "interp \<Rightarrow> folder \<Rightarrow> bool" where
  "sound_folder I F \<longleftrightarrow>
     (\<forall>e v r. \<not> IsVolatile F e \<longrightarrow> IsFoldableExpr F e \<longrightarrow> TryEvaluateScalar F e = Some v \<longrightarrow> eval I r e = v) \<and>
     (\<forall>v t. DefaultCastAs F v t = v)"

text \<open>A dummy scan has one row, a reference to a CTE has the rows of its definition under its own table
  index, and \<open>first\<close> of one value is that value.\<close>

definition reference_row :: "rinfo \<Rightarrow> ColumnBinding list \<Rightarrow> row \<Rightarrow> row" where
  "reference_row i bs r = column_row (op_index i) (map r (take (length (opaque_columns i)) bs))"

definition interprets_leaves :: "interp \<Rightarrow> cte_defs \<Rightarrow> bool" where
  "interprets_leaves I ds \<longleftrightarrow>
     (\<forall>i es rs. \<exists>r. operator_rows I LOGICAL_DUMMY_SCAN i es rs = [r]) \<and>
     (\<forall>i es rs p. map_of ds (cte_index i) = Some p \<longrightarrow> operator_rows I LOGICAL_CTE_REF i es rs =
        map (reference_row i (GetColumnBindings p)) (plan_rows I p)) \<and>
     (\<forall>d v. aggregate_value I ''first'' d [[v]] = v)"

definition has_values :: "binding_values \<Rightarrow> row \<Rightarrow> bool" where
  "has_values vs r \<longleftrightarrow> (\<forall>b v. (b, v) \<in> set vs \<longrightarrow> r b = v)"

lemma has_values_lookup: "has_values vs r \<Longrightarrow> map_of vs b = Some v \<Longrightarrow> r b = v"
  unfolding has_values_def by (blast dest: map_of_SomeD)

lemma fold_checks_sound:
  assumes "fold_checks f cs e = Some v" and "\<And>v. f e = Some v \<Longrightarrow> g e = v"
    and "\<And>c v. c \<in> set cs \<Longrightarrow> f (fst c) = Some v \<Longrightarrow> g (fst c) = v"
    and "\<And>c v. c \<in> set cs \<Longrightarrow> f (snd c) = Some v \<Longrightarrow> g (snd c) = v"
  shows "first_true (map (\<lambda>c. (g (fst c), g (snd c))) cs) (g e) = v"
  using assms
proof (induction cs)
  case (Cons c cs)
  obtain w where w: "f (fst c) = Some w" using Cons.prems(1) by (auto split: option.splits)
  then have "g (fst c) = w" using Cons.prems(3) by simp
  then show ?case
    using Cons.prems w Cons.IH by (auto simp: truth_of_def split: if_splits)
qed simp

lemma fold_expr_sound:
  assumes "sound_folder I F" and "TryFoldConstExpr F e = Some v"
  shows "eval I r e = v"
  using assms(2)
proof (induction e arbitrary: v rule: bindings_of.induct)
  case (1 e)
  show ?case
  proof (cases "\<exists>a t cs d. e = CaseExpr a t cs d")
    case True
    then obtain a t cs d where e: "e = CaseExpr a t cs d" by blast
    have "first_true (map (\<lambda>c. (eval I r (fst c), eval I r (snd c))) cs) (eval I r d) = v"
    proof (rule fold_checks_sound [where f = "TryFoldConstExpr F"])
      show "fold_checks (TryFoldConstExpr F) cs d = Some v" using "1.prems" by (simp add: e)
    qed (use "1.IH" in \<open>auto simp: e\<close>)
    then show ?thesis by (simp add: e)
  next
    case False
    then have "TryFoldConstExpr F e =
        (if IsVolatile F e \<or> \<not> IsFoldableExpr F e then None else TryEvaluateScalar F e)"
      by (cases e) simp_all
    then show ?thesis using assms(1) "1.prems" by (auto simp: sound_folder_def split: if_splits)
  qed
qed

lemma substitute_sound:
  assumes "sound_folder I F" and "has_values vs r"
  shows "eval I r (SubstituteConstants F vs e) = eval I r e"
  unfolding SubstituteConstants_def
proof (rule eval_replace_exprs)
  fix a t b
  show "eval I r (case constant_for F vs (ColumnRefExpr a t b) of None \<Rightarrow> ColumnRefExpr a t b | Some x \<Rightarrow> x) = r b"
    using assms(1) has_values_lookup [OF assms(2), of b]
    by (auto simp: constant_for_def sound_folder_def split: option.splits)
next
  fix x assume "constant_for F vs x \<noteq> None"
  then show "\<exists>a t b. x = ColumnRefExpr a t b" by (auto simp: constant_for_def split: rexpr.splits)
qed

lemma substitute_fold_sound:
  "sound_folder I F \<Longrightarrow> has_values vs r \<Longrightarrow> SubstituteAndFold F e vs = Some v \<Longrightarrow> eval I r e = v"
  using fold_expr_sound substitute_sound unfolding SubstituteAndFold_def by metis

lemma fold_columns_sound:
  assumes "fold_columns f ix i es = Some vs" and "\<And>e v. e \<in> set es \<Longrightarrow> f e = Some v \<Longrightarrow> g e = v"
  shows "\<forall>b v. (b, v) \<in> set vs \<longrightarrow> (\<exists>j < length es. b = (ix, i + j) \<and> v = g (es ! j))"
  using assms
proof (induction es arbitrary: i vs)
  case (Cons e es)
  obtain v ws where v: "f e = Some v" and ws: "fold_columns f ix (Suc i) es = Some ws" and vs: "vs = ((ix, i), v) # ws"
    using Cons.prems(1) by (auto split: option.splits)
  have rest: "\<forall>b v. (b, v) \<in> set ws \<longrightarrow> (\<exists>j < length es. b = (ix, Suc i + j) \<and> v = g (es ! j))"
    using Cons.IH [OF ws] Cons.prems(2) by simp
  have "v = g e" using Cons.prems(2) v by simp
  show ?case
  proof (intro allI impI)
    fix b w assume "(b, w) \<in> set vs"
    then consider "b = (ix, i)" "w = v" | "(b, w) \<in> set ws" using vs by auto
    then show "\<exists>j < length (e # es). b = (ix, i + j) \<and> w = g ((e # es) ! j)"
    proof cases
      case 1
      then show ?thesis using \<open>v = g e\<close> by (intro exI [of _ 0]) simp
    next
      case 2
      then obtain j where "j < length es" "b = (ix, Suc i + j)" "w = g (es ! j)" using rest by blast
      then show ?thesis by (intro exI [of _ "Suc j"]) simp
    qed
  qed
qed simp

lemma column_values:
  assumes "fold_columns f ix 0 es = Some vs" and "\<And>e v. e \<in> set es \<Longrightarrow> f e = Some v \<Longrightarrow> g e = v"
  shows "has_values vs (column_row ix (map g es))"
proof -
  have "\<forall>b v. (b, v) \<in> set vs \<longrightarrow> (\<exists>j < length es. b = (ix, 0 + j) \<and> v = g (es ! j))"
    by (rule fold_columns_sound [OF assms])
  then show ?thesis by (auto simp: has_values_def column_row_def)
qed

definition defs_sound :: "interp \<Rightarrow> cte_defs \<Rightarrow> (idx_t \<Rightarrow> (ColumnBinding list \<times> binding_values) option) \<Rightarrow> bool" where
  "defs_sound I ds defs \<longleftrightarrow>
     (\<forall>ix bs out. defs ix = Some (bs, out) \<longrightarrow>
        (\<exists>p r. map_of ds ix = Some p \<and> bs = GetColumnBindings p \<and> plan_rows I p = [r] \<and> has_values out r))"

lemma guard_aggregate_sound:
  assumes "sound_folder I F" and "interprets_leaves I ds" and "has_values vs r"
    and "fold_guard_aggregate F vs e = Some v"
  shows "group_value I [r] e = v"
proof -
  obtain a t f d args where e: "e = AggregateExpr a t f d args None"
    using assms(4) by (auto simp: fold_guard_aggregate_def split: rexpr.splits if_splits)
  consider "f = ''count_star''" "args = []" "v = SNum 1"
    | x where "f = ''first''" "args = [x]" "SubstituteAndFold F x vs = Some v"
    using assms(4) by (auto simp: fold_guard_aggregate_def e length_Suc_conv split: if_splits)
  then show ?thesis
  proof cases
    case 1
    then show ?thesis by (simp add: e group_value_def agg_function_def)
  next
    case (2 x)
    then have "eval I r x = v" using substitute_fold_sound [OF assms(1,3)] by simp
    then show ?thesis using assms(2) by (simp add: e 2 group_value_def agg_function_def interprets_leaves_def)
  qed
qed

lemma const_subtree_sound:
  assumes "sound_folder I F" and "interprets_leaves I ds" and "defs_sound I ds defs"
    and "const_subtree defs F p = Some vs"
  shows "\<exists>r. plan_rows I p = [r] \<and> has_values vs r"
  using assms(4)
proof (induction p arbitrary: vs rule: rplan_induct)
  case (RPlan t i es cs)
  consider "t = LOGICAL_DUMMY_SCAN" | "t = LOGICAL_CTE_REF" | "t = LOGICAL_PROJECTION"
    | "t = LOGICAL_AGGREGATE_AND_GROUP_BY"
    using RPlan.prems by (auto split: if_splits)
  then show ?case
  proof cases
    case 1
    then have "vs = []" using RPlan.prems by simp
    moreover obtain r where "operator_rows I LOGICAL_DUMMY_SCAN i es (map (plan_rows I) cs) = [r]"
      using assms(2) unfolding interprets_leaves_def by blast
    ultimately show ?thesis using 1 by (simp add: operator_result_def has_values_def)
  next
    case 2
    then obtain bs out where d: "defs (cte_index i) = Some (bs, out)" and vs: "cte_columns i bs out = Some vs"
      using RPlan.prems by (auto split: option.splits prod.splits)
    then obtain p r where p: "map_of ds (cte_index i) = Some p" "bs = GetColumnBindings p" "plan_rows I p = [r]"
      and out: "has_values out r"
      using assms(3) unfolding defs_sound_def by blast
    have "plan_rows I (RPlan t i es cs) = [reference_row i bs r]"
      using assms(2) p 2 by (simp add: operator_result_def interprets_leaves_def)
    moreover have "has_values vs (reference_row i bs r)"
      unfolding has_values_def
    proof (intro allI impI)
      fix b v assume "(b, v) \<in> set vs"
      then obtain k where k: "k < length (opaque_columns i)" "k < length bs" "b = (op_index i, k)"
        "v = the (map_of out (bs ! k))" "map_of out (bs ! k) \<noteq> None"
        using vs by (auto simp: cte_columns_def Let_def list_all_iff split: if_splits)
      then have "r (bs ! k) = v" using has_values_lookup [OF out] by auto
      then show "reference_row i bs r b = v" using k by (simp add: reference_row_def column_row_def)
    qed
    ultimately show ?thesis by blast
  next
    case 3
    then obtain c child where cs: "cs = [c]" and child: "const_subtree defs F c = Some child"
      and vs: "fold_columns (\<lambda>e. SubstituteAndFold F e child) (op_index i) 0 es = Some vs"
      using RPlan.prems by (auto split: list.splits option.splits)
    obtain r where r: "plan_rows I c = [r]" "has_values child r" using RPlan.IH [OF _ child] cs by auto
    have "has_values vs (column_row (op_index i) (map (eval I r) es))"
      by (rule column_values [OF vs]) (rule substitute_fold_sound [OF assms(1) r(2)])
    then show ?thesis by (simp add: 3 cs r(1) operator_result_def)
  next
    case 4
    then obtain c child where cs: "cs = [c]" and child: "const_subtree defs F c = Some child"
      and vs: "fold_columns (fold_guard_aggregate F child) (aggregate_index i) 0 es = Some vs"
      and ungrouped: "group_exprs i = []"
      using RPlan.prems by (auto split: list.splits option.splits if_splits)
    obtain r where r: "plan_rows I c = [r]" "has_values child r" using RPlan.IH [OF _ child] cs by auto
    have "has_values vs (column_row (aggregate_index i) (map (group_value I [r]) es))"
      by (rule column_values [OF vs]) (rule guard_aggregate_sound [OF assms(1,2) r(2)])
    moreover have "plan_rows I (RPlan t i es cs) = [aggregate_row I i es [r] []]"
      by (simp add: 4 cs r(1) operator_result_def group_keys_def ungrouped)
    moreover have "aggregate_row I i es [r] [] = column_row (aggregate_index i) (map (group_value I [r]) es)"
      by (simp add: fun_eq_iff aggregate_row_def group_rows_def group_key_def ungrouped)
    ultimately show ?thesis by simp
  qed
qed

lemma cte_values_sound:
  assumes "sound_folder I F" and "interprets_leaves I ds"
  shows "defs_sound I ds (cte_values n ds F)"
proof (induction n)
  case 0
  then show ?case by (simp add: defs_sound_def)
next
  case (Suc n)
  show ?case
    unfolding defs_sound_def
  proof (intro allI impI)
    fix ix bs out assume "cte_values (Suc n) ds F ix = Some (bs, out)"
    then obtain p where p: "map_of ds ix = Some p" "bs = GetColumnBindings p"
      and out: "const_subtree (cte_values n ds F) F p = Some out" by (auto split: option.splits)
    obtain r where "plan_rows I p = [r]" "has_values out r" using const_subtree_sound [OF assms Suc out] by blast
    then show "\<exists>p r. map_of ds ix = Some p \<and> bs = GetColumnBindings p \<and> plan_rows I p = [r] \<and> has_values out r"
      using p by blast
  qed
qed


section \<open>Witnesses\<close>

text \<open>\<open>(SELECT k FROM params)\<close> with \<open>params\<close> the one row 42, as it is planned: the guard over \<open>first\<close> and
  \<open>count( * )\<close> over the CTE's definition.\<close>

definition constant_interp :: interp where
  "constant_interp = \<lparr>function_value = (\<lambda>f vs. SNull), aggregate_value = (\<lambda>f d ts. hd (hd ts)),
     cast_value = (\<lambda>t v. v), class_value = (\<lambda>f vs. SNull),
     operator_rows = (\<lambda>t i es rs. if t = LOGICAL_CTE_REF
       then [reference_row i [(1, 0)] (column_row 1 [SNum 42])] else [\<lambda>b. SNull])\<rparr>"

definition constant_folder :: folder where
  "constant_folder = \<lparr>TryEvaluateScalar = (\<lambda>e. Some (eval constant_interp (\<lambda>b. SNull) e)),
     IsVolatile = (\<lambda>e. case e of FunctionExpr a t f v es \<Rightarrow> v | _ \<Rightarrow> False),
     IsFoldableExpr = (\<lambda>e. bindings_of e = []), DefaultCastAs = (\<lambda>v t. v)\<rparr>"

lemma constant_folder_sound: "sound_folder constant_interp constant_folder"
  unfolding sound_folder_def
proof (intro conjI allI impI)
  fix e v r assume "IsFoldableExpr constant_folder e" "TryEvaluateScalar constant_folder e = Some v"
  then have "bindings_of e = []" "v = eval constant_interp (\<lambda>b. SNull) e" by (simp_all add: constant_folder_def)
  moreover from this(1) have "eval constant_interp r e = eval constant_interp (\<lambda>b. SNull) e"
    by (intro eval_cong) simp
  ultimately show "eval constant_interp r e = v" by simp
qed (simp add: constant_folder_def)

definition params_plan :: rplan where
  "params_plan = projection_of 1 [ConstantExpr ''k'' TypeBigint (SNum 42)] (RPlan LOGICAL_DUMMY_SCAN no_rinfo [] [])"

definition params_ref :: rplan where
  "params_ref = RPlan LOGICAL_CTE_REF (no_rinfo\<lparr>op_index := 2, cte_index := 7,
     opaque_columns := [((2, 0), TypeBigint)]\<rparr>) [] []"

definition scalar_guard :: rplan where
  "scalar_guard = projection_of 5
     [CaseExpr [] TypeBigint [(ComparisonExpr [] COMPARE_GREATERTHAN (ColumnRefExpr [] TypeBigint (4, 1))
        (ConstantExpr [] TypeBigint (SNum 1)), FunctionExpr [] TypeBigint ''error'' True [])]
        (ColumnRefExpr [] TypeBigint (4, 0))]
     (aggregate_of 3 4 [] [AggregateExpr [] TypeBigint ''first'' False [ColumnRefExpr [] TypeBigint (2, 0)] None,
        AggregateExpr [] TypeBigint ''count_star'' False [] None] params_ref)"

lemma params_columns: "GetColumnBindings params_plan = [(1, 0)]"
  by (simp add: params_plan_def projection_of_def GetColumnBindings_def own_columns_def indexed_def no_rinfo_def)

lemma params_rows: "plan_rows constant_interp params_plan = [column_row 1 [SNum 42]]"
  by (simp add: params_plan_def projection_of_def operator_result_def constant_interp_def no_rinfo_def)

lemma constant_leaves: "interprets_leaves constant_interp [(7, params_plan)]"
proof -
  have "operator_rows constant_interp LOGICAL_CTE_REF i es rs =
      map (reference_row i (GetColumnBindings params_plan)) (plan_rows constant_interp params_plan)" for i es rs
    unfolding params_columns params_rows by (simp add: constant_interp_def)
  then show ?thesis by (simp add: interprets_leaves_def) (simp add: constant_interp_def)
qed

lemma fold_simple [simp]:
  "TryFoldConstExpr constant_folder (ConstantExpr a t v) = Some v"
  "TryFoldConstExpr constant_folder (ComparisonExpr a c (ConstantExpr b t v) (ConstantExpr d u w)) =
     Some (compare_scalars c v w)"
  by (simp_all add: constant_folder_def)

lemma fold_case: "TryFoldConstExpr F (CaseExpr a t cs e) = fold_checks (TryFoldConstExpr F) cs e"
  by simp

declare TryFoldConstExpr.simps [simp del]

lemma substitute_simple [simp]:
  "SubstituteConstants constant_folder vs (ConstantExpr a t v) = ConstantExpr a t v"
  "SubstituteConstants constant_folder vs (ComparisonExpr a c x y) =
     ComparisonExpr a c (SubstituteConstants constant_folder vs x) (SubstituteConstants constant_folder vs y)"
  "SubstituteConstants constant_folder vs (FunctionExpr a t f volatile []) = FunctionExpr a t f volatile []"
  "SubstituteConstants constant_folder vs (CaseExpr a t [(x, y)] z) =
     CaseExpr a t [(SubstituteConstants constant_folder vs x, SubstituteConstants constant_folder vs y)]
       (SubstituteConstants constant_folder vs z)"
  "map_of vs b = Some v \<Longrightarrow> SubstituteConstants constant_folder vs (ColumnRefExpr a t b) = ConstantExpr [] t v"
  by (simp_all only: SubstituteConstants_def)
    (subst replace_exprs.simps, simp add: constant_for_def constant_folder_def)+

lemma fold_params:
  "const_subtree defs constant_folder params_plan = Some [((1, 0), SNum 42)]"
  by (simp add: params_plan_def projection_of_def no_rinfo_def SubstituteAndFold_def)

lemma fold_ref:
  "const_subtree (cte_values (Suc n) [(7, params_plan)] constant_folder) constant_folder params_ref =
   Some [((2, 0), SNum 42)]"
  by (simp add: params_ref_def no_rinfo_def fold_params params_columns cte_columns_def)

lemma fold_sample:
  "TryEvalConstantSubtree [(7, params_plan)] constant_folder scalar_guard = Some [((5, 0), SNum 42)]"
  using fold_ref [of 0]
  by (simp add: TryEvalConstantSubtree_def scalar_guard_def projection_of_def aggregate_of_def no_rinfo_def
      fold_guard_aggregate_def SubstituteAndFold_def compare_scalars_def truth_of_def fold_case del: cte_values.simps)


text \<open>\<open>WHERE EXISTS (...) AND b > 1\<close> over tables of one column each.\<close>

definition side_scan :: "idx_t \<Rightarrow> rplan" where
  "side_scan ix = RPlan LOGICAL_GET (no_rinfo\<lparr>op_index := ix, opaque_columns := [((ix, 0), TypeBigint)]\<rparr>) [] []"

definition exists_interp :: interp where
  "exists_interp = constant_interp\<lparr>operator_rows := (\<lambda>t i es rs.
     if length rs = 2
     then (let conds = rconditions i; right = rs ! 1; left = rs ! 0
       in case rjoin_type i of
            Some JOIN_MARK \<Rightarrow> map (\<lambda>l. l((mark_index i, 0) := mark_value constant_interp conds right l)) left
          | Some JOIN_SEMI \<Rightarrow> filter (has_match constant_interp conds right) left
          | Some JOIN_ANTI \<Rightarrow> filter (\<lambda>l. \<not> has_match constant_interp conds right l) left
          | _ \<Rightarrow> [])
     else if op_index i = 1 then map (\<lambda>v. column_row 1 [v]) [SNum 1, SNum 2, SNull]
     else map (\<lambda>v. column_row 2 [v]) [SNum 2, SNull])\<rparr>"

definition exists_join :: rplan where
  "exists_join = RPlan LOGICAL_COMPARISON_JOIN (no_rinfo\<lparr>rjoin_type := Some JOIN_MARK, mark_index := 8,
     convert_mark_to_semi := True,
     rconditions := [(COMPARE_NOT_DISTINCT_FROM, ColumnRefExpr [] TypeBigint (1, 0), ColumnRefExpr [] TypeBigint (2, 0))]\<rparr>)
     [] [side_scan 1, side_scan 2]"

definition exists_filter :: "rexpr list" where
  "exists_filter = [ColumnRefExpr [] TypeBoolean (8, 0),
     ComparisonExpr [] COMPARE_GREATERTHAN (ColumnRefExpr [] TypeBigint (1, 0)) (ConstantExpr [] TypeBigint (SNum 1))]"

lemma eval_operator_rows [simp]: "eval (I\<lparr>operator_rows := f\<rparr>) r e = eval I r e"
proof (induction e rule: bindings_of.induct)
  case (1 e)
  have ops: "operator_value (I\<lparr>operator_rows := f\<rparr>) c vs = operator_value I c vs" for c vs
    by (rule operator_value.cases [of "(I, c, vs)"]) simp_all
  have fns: "scalar_function (I\<lparr>operator_rows := f\<rparr>) c vs = scalar_function I c vs" for c vs
    by (simp add: scalar_function_def split: option.split list.split)
  show ?case
  proof (cases e)
    case (CaseExpr a t cs d)
    have "map (\<lambda>c. (eval (I\<lparr>operator_rows := f\<rparr>) r (fst c), eval (I\<lparr>operator_rows := f\<rparr>) r (snd c))) cs =
        map (\<lambda>c. (eval I r (fst c), eval I r (snd c))) cs"
      using "1.IH" by (auto simp: CaseExpr)
    then show ?thesis using "1.IH" [of d] by (simp only: CaseExpr eval.simps child_exprs.simps) simp
  qed (use "1.IH" ops fns in \<open>simp_all cong: map_cong\<close>)
qed

lemma join_match_operator_rows [simp]: "join_match (I\<lparr>operator_rows := f\<rparr>) conds l r = join_match I conds l r"
  by (simp add: join_match_def)

lemma mark_operator_rows:
  "mark_value (I\<lparr>operator_rows := f\<rparr>) conds rs l = mark_value I conds rs l"
  "has_match (I\<lparr>operator_rows := f\<rparr>) conds rs = has_match I conds rs"
  by (simp_all add: mark_value_def has_match_def fun_eq_iff)

lemma exists_joins: "interprets_joins exists_interp"
  unfolding interprets_joins_def exists_interp_def mark_operator_rows by simp

lemma exists_rewritten:
  "TryRewriteMarkFilter rewrite (filter_of exists_filter exists_join) =
     (filter_of [exists_filter ! 1] (RPlan LOGICAL_COMPARISON_JOIN ((rinfo exists_join)\<lparr>rjoin_type := Some JOIN_SEMI\<rparr>) []
        [side_scan 1, side_scan 2]), True)"
  by (simp add: TryRewriteMarkFilter_def TryPushMarkFilterThroughSemiAnti_def plain_filter_def filter_of_def no_rinfo_def
      exists_filter_def exists_join_def MarkJoinCanBecomeSemiAnti_def is_comparison_join_def find_mark_filter_def
      IsMarkColumnRef_def IsNotMarkColumnRef_def upt_rec SemiAntiProbeChildIndex_def side_scan_def INVALID_INDEX_def Let_def)

theorem mark_filter_is_semi_join_witness:
  "map (\<lambda>r. without_mark 8 r (1, 0)) (plan_rows exists_interp
     (fst (TryRewriteMarkFilter (\<lambda>p. p) (filter_of exists_filter exists_join)))) = [SNum 2]"
proof -
  let ?p = "fst (TryRewriteMarkFilter (\<lambda>p. p) (filter_of exists_filter exists_join))"
  have mark: "mark_index (rinfo exists_join) = 8" by (simp add: exists_join_def)
  have "map (without_mark (mark_index (rinfo exists_join))) (plan_rows exists_interp ?p) =
      map (without_mark (mark_index (rinfo exists_join))) (plan_rows exists_interp (filter_of exists_filter exists_join))"
  proof (rule mark_filter_is_semi_join [OF exists_joins])
    show "MarkJoinCanBecomeSemiAnti exists_join"
      by (simp add: exists_join_def MarkJoinCanBecomeSemiAnti_def is_comparison_join_def no_rinfo_def)
    show "find_mark_filter exists_filter (mark_index (rinfo exists_join)) = Some (0, JOIN_SEMI)"
      by (simp add: mark exists_filter_def find_mark_filter_def IsMarkColumnRef_def upt_rec)
    show "TryRewriteMarkFilter (\<lambda>p. p) (filter_of exists_filter exists_join) = (?p, True)"
      by (simp add: exists_rewritten)
    show "CollectConvertibleMarkIndexes (side_scan 1) = []"
      by (simp add: side_scan_def MarkJoinCanBecomeSemiAnti_def is_comparison_join_def)
  qed (simp_all add: exists_join_def
      exists_filter_def mark_free_def)
  then have "map (\<lambda>r. r (1, 0)) (map (without_mark 8) (plan_rows exists_interp ?p)) =
      map (\<lambda>r. r (1, 0)) (map (without_mark 8) (plan_rows exists_interp (filter_of exists_filter exists_join)))"
    by (simp only: mark)
  moreover have "map (\<lambda>r. r (1, 0)) (map (without_mark 8) (plan_rows exists_interp (filter_of exists_filter exists_join))) =
      [SNum 2]"
    by (simp add: filter_of_def operator_result_def exists_join_def side_scan_def exists_filter_def exists_interp_def
        mark_value_def join_match_def column_row_def passes_def compare_scalars_def conjunction_value_def without_mark_def)
  ultimately show ?thesis by (simp add: comp_def)
qed

end
