(* ===== verification/Spec2Isabelle.thy ===== *)
theory Spec2Isabelle
  imports Refresh_Interval Compile_Facts Sql_Rewrite Sql_References Checker Classifier Delta_Model
    Join_Properties Ducklake_Correct Refresh_Exactly_Once View_Graph Delta_Properties
    Metadata_Roundtrip Merge_Properties Helpers_Correct Daemon Cost_Correct
    Rewrite_Properties Subquery_Correct
begin

text \<open>
  OpenIVM is a DuckDB extension that keeps materialized views up to date from the changes of their
  tables. \<open>CREATE MATERIALIZED VIEW\<close> is parsed (\<open>core/parser*.cpp\<close>), its plan is rewritten
  (\<open>core/plan_rewrite*.cpp\<close>), checked and classified; every write to a tracked table is logged in
  a delta table (\<open>rules/refresh_insert_rule.cpp\<close>); a refresh compiles the plan of the view into
  a plan of its change (\<open>delta/\<close>) and merges that change into the view (\<open>upsert/\<close>). This library
  models the part that decides and computes, and leaves out what only calls DuckDB. File names
  below are relative to \<open>src/src/\<close>.

  \<^bold>\<open>Ground.\<close> \<open>Prelude\<close> has the shared lemma collections, the byte classes and small containers;
  \<open>Constants\<close> the names and limits of \<open>include/core/openivm_constants.hpp\<close>; \<open>Zset\<close> the algebra of
  changes: a relation is a list of rows with integer weights, \<open>zsum z h\<close> the weighted sum over it,
  \<open>plus_delta x d y\<close> says that \<open>y\<close> is \<open>x\<close> plus the change \<open>d\<close>. \<open>DuckDB\<close> holds what the code uses of
  the database's own identifier rules as a record of parameters, with their documented laws.

  \<^bold>\<open>SQL text\<close> (\<open>core/sql_utils.cpp\<close>, \<open>compile_facts.cpp\<close>). \<open>Sql_Text\<close>, \<open>Sql_Statements\<close>, \<open>Sql_Names\<close>,
  \<open>Sql_Identifiers\<close>, \<open>Sql_References\<close>, \<open>Sql_Rewrite\<close>, \<open>Refresh_Interval\<close> and \<open>Compile_Facts\<close> are
  the scanners, splitters, name builders and rewriters, each on the list of bytes that the code
  reads. A loop over positions is a recursion over the rest of the text; a loop that can skip
  several characters is a \<open>function\<close> with the length of the text as its measure.

  \<^bold>\<open>Plans.\<close> \<open>Plan\<close> has DuckDB's logical operators and expressions as the code sees them: a tree
  with a type, an information record, expressions and children.

  \<^bold>\<open>Checker and classifier.\<close> \<open>Checker\<close> is the traversal \<open>AnalyzeNode\<close> of
  \<open>core/incremental_checker.cpp\<close> with its record of flags; a plan is refused exactly when a reason
  flag is raised, and every operator of an accepted plan is supported. \<open>View_Model\<close> and
  \<open>Classifier\<close> are \<open>core/ivm_view_classifier.cpp\<close>: group columns, unsupported reasons, features,
  the choice of the refresh strategy and its auxiliary state. \<open>Delta_Model\<close> is
  \<open>core/ivm_delta_model.cpp\<close>: the node graph of a plan in post-order, affected domains, lineage,
  and the assertions of \<open>ValidateDeltaViewModelInvariants\<close>.

  \<^bold>\<open>Delta compiler.\<close> \<open>Join_Leaves\<close> and \<open>Join_Delta\<close> are \<open>delta/operators/join.cpp\<close>: the leaves of a
  join tree, the demotion of outer joins, the status of each delta, foreign-key pruning, the key
  probes, and one signed term for every set of leaves that is not pruned. \<open>Join_Semantics\<close>
  evaluates join trees over Z-sets (inner, left, right and full outer joins, semi, anti and mark joins), \<open>Join_Correct\<close>
  has the algebra (inclusion-exclusion, the vanishing of each kind of pruned term),
  \<open>Join_Properties\<close> the theorem that the terms add up to the change of the join, with the cases
  in which they do not. \<open>Ducklake_Terms\<close> and \<open>Ducklake_Correct\<close> do the same for the telescoping
  terms over snapshots (\<open>delta/operators/ducklake_join.cpp\<close>). \<open>Delta_Compile\<close> is the compiler
  itself: the dispatch of \<open>dispatch.cpp\<close> and the recursion of \<open>delta_compiler.cpp\<close> with the rules
  of all operators, including correlated joins. \<open>Delta_Semantics\<close> evaluates view plans and delta
  plans, \<open>Delta_Correct\<close> proves by induction on the plan that the compiled plan is the change of
  the view, and \<open>Delta_Properties\<close> connects it to the model that \<open>Delta_Model\<close> builds and to the
  plans that \<open>Checker\<close> accepts.

  \<^bold>\<open>Refresh.\<close> \<open>Locks\<close> is \<open>core/refresh_locks.cpp\<close> with the sessions of all its callers as
  interleaved steps on shared mutex tables. \<open>Refresh_Protocol\<close> and \<open>Refresh_Exactly_Once\<close> are the
  steps of writers and refreshes on delta tables, cursors and views (\<open>upsert/refresh.cpp\<close>,
  \<open>upsert/refresh_sql.cpp\<close>, \<open>rules/refresh_insert_rule.cpp\<close>) as a step relation over a clock, with
  the invariant that every logged row reaches every view once, and the four orders of events that
  break it. \<open>View_Graph\<close> is the search for upstream and downstream views
  (\<open>core/refresh_metadata.cpp\<close>).

  \<^bold>\<open>Metadata.\<close> \<open>Metadata_Json\<close> has the JSON texts that \<open>core/refresh_metadata.cpp\<close> and
  \<open>core/ivm_delta_model.cpp\<close> keep about a view: the writers, and the scanners that read them back by
  searching for a key. \<open>Metadata_Roundtrip\<close> proves that every column is read back as it was written.

  \<^bold>\<open>Merging a change.\<close> \<open>Merge_Program\<close> is the grouped refresh of \<open>upsert/refresh_compiler.cpp\<close>: the
  detection of derived columns, the \<open>MERGE\<close> with its branches and the clean-up, as a program and as
  text. \<open>Merge_Semantics\<close> runs a program on a view and a delta; \<open>Merge_Correct\<close> and
  \<open>Merge_Properties\<close> show that it maintains sums, counts, averages and variances, and where it does
  not. \<open>Apply_Delta\<close> and \<open>Apply_Correct\<close> do this for views without groups and for views that are
  bags of rows (deletes by rank, inserts by multiplicity). \<open>Group_Recompute\<close> has the recomputation of
  groups with the scanners of its texts. \<open>Aux_State\<close> (\<open>upsert/refresh_compiler_aux.cpp\<close>) has the
  texts of the refreshes that keep an auxiliary table, \<open>Aux_Steps\<close> what each statement does to that
  table and to the view, \<open>Aux_Correct\<close> that the sequence refines the change of the tables.
  \<open>Affected_Refresh\<close> is the common contract of the refreshes that delete and insert the rows of the
  changed keys. \<open>Refresh_Helpers\<close> and \<open>Helpers_Correct\<close> are \<open>upsert/refresh_helpers.cpp\<close>: locations,
  the test for an empty delta plan, projection keys and the refresh of full outer joins.

  \<^bold>\<open>Daemon and cost model.\<close> \<open>Daemon\<close> is \<open>core/refresh_daemon.cpp\<close>: one wake-up as a fold over the
  scheduled views with skips, hooks, cascade marks and back-off, and the loop of wake-ups. \<open>Cost_Model\<close>
  is \<open>upsert/refresh_cost_model.cpp\<close>: plan statistics, the linear solvers with pivoting, the weighted
  ridge regression, the estimates of every strategy. A \<open>double\<close> is a real number there, and the
  shift \<open>1ULL << k\<close> is \<open>2 ^ k\<close>, which agrees below 64 leaves. \<open>Cost_Correct\<close> shows that the fitted
  weights are the least-squares optimum among those without negative slopes.

  \<^bold>\<open>Plan rewrites\<close> (\<open>core/plan_rewrite.cpp\<close>, \<open>core/plan_rewrite_aggregates.cpp\<close>). \<open>Rewrite_Plan\<close> has the
  bound expressions and operators that the passes build, with the columns every operator gives;
  \<open>Rewrite_Aggregates\<close>, \<open>Rewrite_Passes\<close>, \<open>Rewrite_Constants\<close>, \<open>Rewrite_Subqueries\<close> and
  \<open>Rewrite_Having\<close> have the passes, and \<open>Rewrite_Pipeline\<close> runs them in their order.
  \<open>Rewrite_Semantics\<close> evaluates plans to rows, over real numbers, with the operators that a pass only
  carries along as a parameter. \<open>Rewrite_Correct\<close> and \<open>Subquery_Correct\<close> show that the passes keep
  the rows (filters of aggregates, derived aggregates, mark joins, constant subtrees),
  \<open>Rewrite_Types\<close> and \<open>Rewrite_Pipeline\<close> that they keep plans well bound, and \<open>Rewrite_Properties\<close> has
  the cases in which they change the result.

  \<^bold>\<open>Interfaces.\<close> A locale states what one component expects of another, and each is interpreted on the
  definitions of the component that provides it: \<open>duckdb_strings\<close> (the identifier rules of the
  database, \<open>DuckDB\<close>), \<open>mutex_table\<close> (the mutex operations, \<open>Locks\<close>), \<open>json_value\<close> (a writer and the
  scanner that reads it back, for texts, arrays and objects, \<open>Metadata_Roundtrip\<close>), and
  \<open>affected_rows\<close> with \<open>keyed_refresh\<close> and \<open>partition_refresh\<close> (a refresh that replaces the rows a
  condition selects, \<open>Affected_Refresh\<close> and \<open>Helpers_Correct\<close>).

  \<^bold>\<open>Bounds.\<close> A table index or a node id is a natural number below \<open>INVALID_INDEX = 2 ^ 64 - 1\<close>; the
  hypotheses on plan sizes say that a plan has fewer operators. A mask over leaves is a natural
  number; \<open>MAX_JOIN_TABLES\<close> keeps it below \<open>2 ^ 16\<close>. The searches, the compiler and the folding of
  constants are total functions with a proved measure, or take fuel: the number of views plus one
  in \<open>View_Graph\<close>, which is proved to be enough on acyclic views; the number of joins in
  \<open>rewrite_marks\<close>, which \<open>Rewrite_Subqueries\<close> proves to be enough, since a moved filter is rewritten
  over a side that has fewer joins; the number of definitions in \<open>cte_values\<close>, since a definition
  refers to earlier ones only.

  \<^bold>\<open>Parameters.\<close> Answers of the database (row counts of delta tables, key probes, snapshots,
  catalog lookups, the binding and folding of expressions) are fields of records (\<open>join_queries\<close>,
  \<open>ducklake_queries\<close>, \<open>compile_context\<close>, \<open>source_answers\<close>, \<open>bind_env\<close>, \<open>folder\<close>); hypotheses such as
  \<open>sound_counts\<close> and \<open>sound_folder\<close> say that they are truthful. The meaning of an operator on a row is
  a field of \<open>plan_semantics\<close> and of \<open>interp\<close>.

  \<^bold>\<open>Not modelled.\<close> The parsing of SQL by DuckDB and the binding of plans; the rewriting of column
  bindings when a delta plan is rebuilt; logging, profiling and timing; the registration of
  functions and settings. The view matcher (\<open>match/\<close>) consists of stubs. The SQL extractors, the plan
  facts and the DDL handling of \<open>core/parser*.cpp\<close>, the dispatch of \<open>upsert/refresh_sql.cpp\<close> over the
  strategies, the lineage queries of the window and measure refreshes, the delta fast paths and the
  optimizer rules are calls into the database or texts built from the modelled parts.
\<close>

end
